(* ===== verification/Retail_Prelude.thy ===== *)
theory Retail_Prelude
  imports Complex_Main "HOL-Library.Char_ord" "HOL-Library.List_Lexorder" "HOL-Library.Product_Lexorder"
begin

text \<open>
  Shared vocabulary of the development: results of fallible operations, instants and
  Python datetimes, the character classes of the source's regular expressions, the
  SQL statements the repositories use (conditional update, ordered selection, unique
  insertion) over tables kept as lists of records, and the generic lemmas on lists,
  sums and results the component proofs rest on.
\<close>

named_theorems res_simps "rewriting of results of fallible operations"
named_theorems tbl_simps "rewriting of table updates"

section \<open>Results of fallible operations\<close>

type_synonym ('e, 'a) result = "'e + 'a"

definition res_bind :: "('e, 'a) result \<Rightarrow> ('a \<Rightarrow> ('e, 'b) result) \<Rightarrow> ('e, 'b) result" where
  "res_bind m f = (case m of Inl e \<Rightarrow> Inl e | Inr x \<Rightarrow> f x)"

definition is_ok :: "('e, 'a) result \<Rightarrow> bool" where
  "is_ok m = (case m of Inl _ \<Rightarrow> False | Inr _ \<Rightarrow> True)"

lemma res_bind_simps [simp, res_simps]:
  "res_bind (Inl e) f = Inl e"
  "res_bind (Inr x) f = f x"
  by (simp_all add: res_bind_def)

lemma res_bind_Inr [res_simps]:
  "res_bind m f = Inr y \<longleftrightarrow> (\<exists>x. m = Inr x \<and> f x = Inr y)"
  by (cases m) auto

lemma res_bind_Inl [res_simps]:
  "res_bind m f = Inl e \<longleftrightarrow> m = Inl e \<or> (\<exists>x. m = Inr x \<and> f x = Inl e)"
  by (cases m) auto

lemma is_ok_simps [simp, res_simps]: "is_ok (Inr x)" "\<not> is_ok (Inl e)"
  by (simp_all add: is_ok_def)

lemma is_ok_iff: "is_ok m \<longleftrightarrow> (\<exists>x. m = Inr x)"
  by (cases m) auto

section \<open>Instants\<close>

text \<open>
  An instant is a number of microseconds since the epoch, the resolution of both
  Python's \<open>datetime\<close> and PostgreSQL's \<open>TIMESTAMPTZ\<close>. A Python datetime is either
  naive or timezone-aware; an aware one denotes an instant.
\<close>

type_synonym instant = int

datatype py_datetime = Naive int | Aware instant

definition seconds :: "int \<Rightarrow> int" where
  "seconds n = n * 1000000"

lemma seconds_mono [simp]: "seconds a \<le> seconds b \<longleftrightarrow> a \<le> b"
  by (simp add: seconds_def)

lemma seconds_less_mono [simp]: "seconds a < seconds b \<longleftrightarrow> a < b"
  by (simp add: seconds_def)

lemma seconds_pos [simp]: "0 < seconds n \<longleftrightarrow> 0 < n"
  by (simp add: seconds_def)

lemma seconds_nonpos [simp]: "seconds n \<le> 0 \<longleftrightarrow> n \<le> 0"
  by (simp add: seconds_def)

section \<open>Character classes and strings\<close>

definition is_digit_char :: "char \<Rightarrow> bool" where
  "is_digit_char c \<longleftrightarrow> CHR ''0'' \<le> c \<and> c \<le> CHR ''9''"

definition is_lower_char :: "char \<Rightarrow> bool" where
  "is_lower_char c \<longleftrightarrow> CHR ''a'' \<le> c \<and> c \<le> CHR ''z''"

definition is_upper_char :: "char \<Rightarrow> bool" where
  "is_upper_char c \<longleftrightarrow> CHR ''A'' \<le> c \<and> c \<le> CHR ''Z''"

definition is_alnum_char :: "char \<Rightarrow> bool" where
  "is_alnum_char c \<longleftrightarrow> is_digit_char c \<or> is_lower_char c \<or> is_upper_char c"

definition is_hex_char :: "char \<Rightarrow> bool" where
  "is_hex_char c \<longleftrightarrow> is_digit_char c \<or> (CHR ''a'' \<le> c \<and> c \<le> CHR ''f'')"

text \<open>Folding the case of ASCII letters.\<close>

definition casefold_char :: "char \<Rightarrow> char" where
  "casefold_char c = (if is_upper_char c then char_of (of_char c + (32 :: nat)) else c)"

definition casefold :: "string \<Rightarrow> string" where
  "casefold s = map casefold_char s"

fun contains_text :: "string \<Rightarrow> string \<Rightarrow> bool" where
  "contains_text p [] \<longleftrightarrow> p = []"
| "contains_text p (c # cs) \<longleftrightarrow> take (length p) (c # cs) = p \<or> contains_text p cs"

text \<open>The pattern \<open>[0-9a-f]{64}\<close> of every digest column.\<close>

definition is_sha256 :: "string \<Rightarrow> bool" where
  "is_sha256 s \<longleftrightarrow> length s = 64 \<and> list_all is_hex_char s"

text \<open>
  Python's \<open>str.strip()\<close> and PostgreSQL's \<open>btrim\<close>: the former removes white space,
  the latter blanks only. Characters are code points below 256.
\<close>

definition is_py_space :: "char \<Rightarrow> bool" where
  "is_py_space c \<longleftrightarrow>
     (let n = (of_char c :: nat) in (9 \<le> n \<and> n \<le> 13) \<or> (28 \<le> n \<and> n \<le> 32) \<or> n = 133 \<or> n = 160)"

definition py_strip :: "string \<Rightarrow> string" where
  "py_strip s = rev (dropWhile is_py_space (rev (dropWhile is_py_space s)))"

definition sql_btrim :: "string \<Rightarrow> string" where
  "sql_btrim s = rev (dropWhile (\<lambda>c. c = CHR '' '') (rev (dropWhile (\<lambda>c. c = CHR '' '') s)))"

lemma all_set_dropWhile: "(\<forall>c \<in> set (dropWhile P s). P c) \<longleftrightarrow> (\<forall>c \<in> set s. P c)"
  by (metis Un_iff set_append set_takeWhileD takeWhile_dropWhile_id)

lemma py_strip_Nil_iff: "py_strip s = [] \<longleftrightarrow> (\<forall>c \<in> set s. is_py_space c)"
  by (simp add: py_strip_def dropWhile_eq_Nil_conv all_set_dropWhile)

lemma sql_btrim_Nil_iff: "sql_btrim s = [] \<longleftrightarrow> (\<forall>c \<in> set s. c = CHR '' '')"
  unfolding sql_btrim_def
  using all_set_dropWhile [where P = "\<lambda>c. c = CHR '' ''" and s = s]
  by (simp add: dropWhile_eq_Nil_conv)

text \<open>What Python's strip finds non-blank, PostgreSQL's btrim finds non-blank.\<close>

lemma sql_btrim_nonempty_of_py_strip: "py_strip s \<noteq> [] \<Longrightarrow> sql_btrim s \<noteq> []"
proof (rule ccontr)
  assume strip: "py_strip s \<noteq> []" and "\<not> sql_btrim s \<noteq> []"
  then have "\<forall>c \<in> set s. c = CHR '' ''"
    by (simp add: sql_btrim_Nil_iff)
  moreover have "is_py_space (CHR '' '')"
    by (simp add: is_py_space_def)
  ultimately show False
    using strip unfolding py_strip_Nil_iff by metis
qed

text \<open>The pattern \<^verbatim>\<open>[0-9]{4}-(0[1-9]|1[0-2])\<close> of every month column.\<close>

definition month_check :: "string \<Rightarrow> bool" where
  "month_check s \<longleftrightarrow> length s = 7 \<and> list_all is_digit_char (take 4 s) \<and> s ! 4 = CHR ''-''
     \<and> ((s ! 5 = CHR ''0'' \<and> CHR ''1'' \<le> s ! 6 \<and> s ! 6 \<le> CHR ''9'')
        \<or> (s ! 5 = CHR ''1'' \<and> CHR ''0'' \<le> s ! 6 \<and> s ! 6 \<le> CHR ''2''))"

text \<open>Decimal text of an integer, as \<^verbatim>\<open>str(n)\<close> and \<^verbatim>\<open>n::TEXT\<close> give it.\<close>

fun nat_digits :: "nat \<Rightarrow> string" where
  "nat_digits n = (if n < 10 then [char_of (48 + n)]
     else nat_digits (n div 10) @ [char_of (48 + n mod 10)])"

declare nat_digits.simps [simp del]

text \<open>A table of the digits and division of integers evaluate fast inside the kernel.\<close>

lemma digit_char:
  assumes "(d :: nat) < 10"
  shows "char_of (48 + d) = ''0123456789'' ! d"
proof -
  from assms have "d = 0 \<or> d = 1 \<or> d = 2 \<or> d = 3 \<or> d = 4 \<or> d = 5 \<or> d = 6 \<or> d = 7 \<or> d = 8 \<or> d = 9" by presburger
  then show ?thesis by (elim disjE) (simp_all add: char_of_def bit_0)
qed

lemma nat_digits_code [code]: "nat_digits n = (if n < 10 then [''0123456789'' ! n]
    else nat_digits (nat (int n div 10)) @ [''0123456789'' ! nat (int n mod 10)])"
proof -
  have div: "nat (int n div 10) = n div 10" "nat (int n mod 10) = n mod 10"
    by (simp_all add: nat_div_distrib nat_mod_distrib)
  show ?thesis
    unfolding div by (subst nat_digits.simps) (use digit_char [of n] digit_char [of "n mod 10"] in auto)
qed

definition int_text :: "int \<Rightarrow> string" where
  "int_text i = (if i < 0 then CHR ''-'' # nat_digits (nat (- i)) else nat_digits (nat i))"

definition digits_value :: "string \<Rightarrow> nat" where
  "digits_value = foldl (\<lambda>v c. 10 * v + (of_char c - 48)) 0"

lemma digits_value_nat_digits [simp]: "digits_value (nat_digits n) = n"
proof (induction n rule: nat_digits.induct)
  case (1 n)
  have d: "of_char (char_of (48 + k :: nat) :: char) = 48 + k" if "k < 10" for k :: nat
    using that by (simp add: of_char_of)
  show ?case
  proof (cases "n < 10")
    case True
    then show ?thesis
      by (subst nat_digits.simps) (simp add: digits_value_def d del: of_char_of)
  next
    case False
    then have "digits_value (nat_digits n) = 10 * digits_value (nat_digits (n div 10)) + n mod 10"
      by (subst nat_digits.simps) (simp add: digits_value_def d del: of_char_of)
    with 1 False show ?thesis by simp
  qed
qed

lemma nat_digits_inject [simp]: "nat_digits m = nat_digits n \<longleftrightarrow> m = n"
  by (metis digits_value_nat_digits)

lemma nat_digits_all_digits: "c \<in> set (nat_digits n) \<Longrightarrow> is_digit_char c"
proof (induction n rule: nat_digits.induct)
  case (1 n)
  have d: "is_digit_char (char_of (48 + k :: nat))" if "k < 10" for k :: nat
    using that by (simp add: is_digit_char_def less_eq_char_def of_char_of)
  from 1 show ?case
    by (subst (asm) (2) nat_digits.simps) (auto split: if_splits intro: d)
qed

definition is_positive_numeral :: "string \<Rightarrow> bool" where
  "is_positive_numeral s = (case s of [] \<Rightarrow> False
     | c # cs \<Rightarrow> CHR ''1'' \<le> c \<and> c \<le> CHR ''9'' \<and> list_all is_digit_char cs)"

lemma nat_digits_positive: "0 < n \<Longrightarrow> is_positive_numeral (nat_digits n)"
proof (induction n rule: nat_digits.induct)
  case (1 n)
  show ?case
  proof (cases "n < 10")
    case True
    with 1 show ?thesis
      by (subst nat_digits.simps) (simp add: is_positive_numeral_def less_eq_char_def of_char_of)
  next
    case False
    with 1 have "is_positive_numeral (nat_digits (n div 10))" by simp
    moreover have "is_digit_char (char_of (48 + n mod 10))"
      by (simp add: is_digit_char_def less_eq_char_def of_char_of)
    ultimately show ?thesis
      using False by (subst nat_digits.simps) (auto simp: is_positive_numeral_def split: list.splits)
  qed
qed

section \<open>Tables\<close>

text \<open>
  \<^verbatim>\<open>UPDATE t SET ... WHERE P\<close> on a table kept as a list of rows.
\<close>

definition upd_where :: "('r \<Rightarrow> bool) \<Rightarrow> ('r \<Rightarrow> 'r) \<Rightarrow> 'r list \<Rightarrow> 'r list" where
  "upd_where P f t = map (\<lambda>r. if P r then f r else r) t"

lemma set_upd_where [tbl_simps]:
  "set (upd_where P f t) = (\<lambda>r. if P r then f r else r) ` set t"
  by (simp add: upd_where_def)

lemma set_upd_where_split: "set (upd_where P f t) = f ` {r \<in> set t. P r} \<union> {r \<in> set t. \<not> P r}"
  by (induction t) (auto simp: upd_where_def)

lemma length_upd_where [simp, tbl_simps]: "length (upd_where P f t) = length t"
  by (simp add: upd_where_def)

lemma upd_where_Nil [simp, tbl_simps]: "upd_where P f [] = []"
  by (simp add: upd_where_def)

lemma upd_where_Cons [simp, tbl_simps]:
  "upd_where P f (r # t) = (if P r then f r else r) # upd_where P f t"
  by (simp add: upd_where_def)

lemma map_upd_where_key [tbl_simps]:
  assumes "\<And>r. P r \<Longrightarrow> k (f r) = k r"
  shows "map k (upd_where P f t) = map k t"
  using assms by (induction t) auto

lemma upd_where_none:
  "(\<forall>r \<in> set t. \<not> P r) \<Longrightarrow> upd_where P f t = t"
  by (induction t) auto

lemma mem_upd_whereE:
  assumes "r' \<in> set (upd_where P f t)"
  obtains r where "r \<in> set t" and "P r" and "r' = f r"
  | "r' \<in> set t" and "\<not> P r'"
  using assms by (auto simp: set_upd_where split: if_splits)

text \<open>Lookup of a row by a key column.\<close>

definition row_by :: "('r \<Rightarrow> 'k) \<Rightarrow> 'k \<Rightarrow> 'r list \<Rightarrow> 'r option" where
  "row_by key k t = List.find (\<lambda>r. key r = k) t"

lemma row_by_Nil [simp]: "row_by key k [] = None"
  by (simp add: row_by_def)

lemma row_by_Cons [simp]:
  "row_by key k (r # t) = (if key r = k then Some r else row_by key k t)"
  by (simp add: row_by_def)

lemma row_by_append:
  "row_by key k (t @ u) = (case row_by key k t of None \<Rightarrow> row_by key k u | Some r \<Rightarrow> Some r)"
  by (induction t) auto

lemma row_by_SomeD: "row_by key k t = Some r \<Longrightarrow> r \<in> set t \<and> key r = k"
  by (induction t) (auto split: if_splits)

lemma row_by_None_iff: "row_by key k t = None \<longleftrightarrow> (\<forall>r \<in> set t. key r \<noteq> k)"
  by (induction t) auto

lemma row_by_unique:
  assumes "distinct (map key t)" and "r \<in> set t" and "key r = k"
  shows "row_by key k t = Some r"
  using assms by (induction t) auto

lemma row_by_list_all2:
  assumes "list_all2 R ss ts" and "\<And>s t. R s t \<Longrightarrow> key t = key s" and "row_by key k ss = Some s"
  shows "\<exists>t. row_by key k ts = Some t \<and> R s t"
  using assms(1,3) by (induction rule: list_all2_induct) (auto simp: assms(2) split: if_splits)

lemma row_by_upd_where:
  assumes "\<And>r. key (f r) = key r"
  shows "row_by key k (upd_where P f t) = map_option (\<lambda>r. if P r then f r else r) (row_by key k t)"
  using assms by (induction t) auto

lemma distinct_key_eq:
  assumes "distinct (map key t)" and "r \<in> set t" and "s \<in> set t" and "key r = key s"
  shows "r = s"
  using assms by (metis row_by_unique option.inject)

text \<open>A partial unique index: no two rows that satisfy \<open>Q\<close> share the key \<open>k\<close>.\<close>

lemma distinct_partial_key:
  assumes "distinct (map key t)"
  shows "distinct (map k (filter Q t)) \<longleftrightarrow>
     (\<forall>r \<in> set t. \<forall>s \<in> set t. Q r \<longrightarrow> Q s \<longrightarrow> k r = k s \<longrightarrow> key r = key s)"
proof -
  have "distinct (filter Q t)"
    using assms by (simp add: distinct_map)
  moreover have "r = s" if "r \<in> set t" "s \<in> set t" "key r = key s" for r s
    using distinct_key_eq [OF assms that] .
  ultimately show ?thesis
    by (auto simp: distinct_map inj_on_def)
qed

text \<open>\<^verbatim>\<open>max(column)\<close> over a selection: NULL over no row.\<close>

definition sql_max :: "int list \<Rightarrow> int option" where
  "sql_max xs = (case xs of [] \<Rightarrow> None | y # ys \<Rightarrow> Some (fold max ys y))"

lemma sql_max_None [simp]: "sql_max xs = None \<longleftrightarrow> xs = []"
  by (cases xs) (auto simp: sql_max_def)

lemma sql_max_Some:
  "sql_max xs = Some m \<Longrightarrow> m \<in> set xs \<and> (\<forall>x \<in> set xs. x \<le> m)"
proof (induction xs)
  case Nil
  then show ?case by (simp add: sql_max_def)
next
  case (Cons y ys)
  have "fold max ys y = Max (set (y # ys))"
    using Max.set_eq_fold [of y ys] by simp
  with Cons.prems show ?case
    by (metis List.finite_set Max_ge Max_in list.distinct(1) list.simps(5) option.inject
        set_empty sql_max_def)
qed

text \<open>A Python dict as an association list in insertion order: a key set again keeps its place.\<close>

definition dict_set :: "'k \<Rightarrow> 'v \<Rightarrow> ('k \<times> 'v) list \<Rightarrow> ('k \<times> 'v) list" where
  "dict_set k v d = (if k \<in> fst ` set d then map (\<lambda>(k', v'). if k' = k then (k, v) else (k', v')) d else d @ [(k, v)])"

definition dict_of :: "('k \<times> 'v) list \<Rightarrow> ('k \<times> 'v) list" where
  "dict_of kvs = fold (\<lambda>(k, v). dict_set k v) kvs []"

lemma dict_set_fold: "distinct (map fst (d @ kvs)) \<Longrightarrow> fold (\<lambda>(k, v). dict_set k v) kvs d = d @ kvs"
  by (induction kvs arbitrary: d) (auto simp: dict_set_def)

lemma dict_of_distinct: "distinct (map fst kvs) \<Longrightarrow> dict_of kvs = kvs"
  using dict_set_fold [of "[]" kvs] by (simp add: dict_of_def)

lemma dict_set_keys: "distinct (map fst d) \<Longrightarrow> distinct (map fst (dict_set k v d)) \<and> set (map fst (dict_set k v d)) = insert k (set (map fst d))"
proof -
  assume d: "distinct (map fst d)"
  have "map fst (map (\<lambda>(k', v'). if k' = k then (k, v) else (k', v')) d) = map fst d"
    by (auto simp: case_prod_unfold)
  then have "k \<in> fst ` set d \<Longrightarrow> map fst (dict_set k v d) = map fst d" by (simp only: dict_set_def if_True)
  moreover have "k \<notin> fst ` set d \<Longrightarrow> map fst (dict_set k v d) = map fst d @ [k]" by (simp add: dict_set_def)
  ultimately show ?thesis using d by (cases "k \<in> fst ` set d") (simp_all only: set_map [symmetric] distinct_append set_append, auto)
qed

lemma mem_dict_set:
  "p \<in> set (dict_set k v d) \<Longrightarrow> p = (k, v) \<or> p \<in> set d \<and> fst p \<noteq> k"
  by (auto simp: dict_set_def split: if_splits)

lemma dict_set_Cons:
  "dict_set k v (p # d) = (if fst p = k then (k, v) # map (\<lambda>(k', v'). if k' = k then (k, v) else (k', v')) d else p # dict_set k v d)"
  by (cases p) (auto simp: dict_set_def)

lemma dict_overwrite_absent: "k \<notin> fst ` set d \<Longrightarrow> map (\<lambda>(k', v'). if k' = k then (k, v) else (k', v')) d = d"
  by (rule map_idI) (auto simp: image_iff)

lemma dict_set_sum:
  fixes f :: "'v \<Rightarrow> int"
  assumes "distinct (map fst d)"
  shows "sum_list (map (\<lambda>e. f (snd e)) (dict_set k v d))
    = sum_list (map (\<lambda>e. f (snd e)) d) + f v - (case map_of d k of None \<Rightarrow> 0 | Some w \<Rightarrow> f w)"
  using assms
proof (induction d)
  case (Cons p d)
  then show ?case by (cases p) (auto simp: dict_set_Cons dict_overwrite_absent simp del: map_map)
qed (simp add: dict_set_def)

section \<open>Sums and orders on lists\<close>

lemma sum_list_map_add:
  fixes f g :: "'a \<Rightarrow> 'b :: comm_monoid_add"
  shows "sum_list (map (\<lambda>x. f x + g x) xs) = sum_list (map f xs) + sum_list (map g xs)"
  by (induction xs) (auto simp: algebra_simps)

lemma sum_list_if_mem:
  fixes c :: "'b :: comm_semiring_1"
  assumes "distinct xs"
  shows "sum_list (map (\<lambda>x. if x \<in> A then 1 else 0) xs) = of_nat (card (A \<inter> set xs)) * (1 :: 'b)"
  using assms
proof (induction xs)
  case Nil
  then show ?case by simp
next
  case (Cons x xs)
  then show ?case
    by (cases "x \<in> A") (auto simp: Int_insert_right)
qed

lemma sum_list_sort_key: "sum_list (map f (sort_key k xs)) = (sum_list (map f xs) :: int)"
proof -
  have insort: "sum_list (map f (insort_key k x ys)) = f x + sum_list (map f ys)" for x ys by (induction ys) auto
  show ?thesis by (induction xs) (simp_all add: insort)
qed

lemma set_sort_key_take: "set (take n (sort_key k xs)) \<subseteq> set xs"
  by (metis set_sort set_take_subset)

text \<open>\<^verbatim>\<open>ORDER BY k LIMIT 1\<close>\<close>

lemma sorted_head_SomeD:
  assumes "(case sort_key k xs of [] \<Rightarrow> None | w # _ \<Rightarrow> Some w) = Some v"
  shows "v \<in> set xs"
proof -
  have "v \<in> set (sort_key k xs)" using assms by (cases "sort_key k xs") auto
  then show ?thesis by simp
qed

lemma sorted_head_None: "(case sort_key k xs of [] \<Rightarrow> None | w # _ \<Rightarrow> Some w) = None \<longleftrightarrow> xs = []"
proof -
  have "(case sort_key k xs of [] \<Rightarrow> None | w # _ \<Rightarrow> Some w) = None \<longleftrightarrow> length (sort_key k xs) = 0"
    by (cases "sort_key k xs") auto
  then show ?thesis by simp
qed

text \<open>A sort only looks at the keys of the members.\<close>

lemma insort_key_same: "f x = g x \<Longrightarrow> (\<And>y. y \<in> set ys \<Longrightarrow> f y = g y) \<Longrightarrow> insort_key f x ys = insort_key g x ys"
  by (induction ys) auto

lemma sort_key_same: "(\<And>x. x \<in> set xs \<Longrightarrow> f x = g x) \<Longrightarrow> sort_key f xs = sort_key g xs"
proof (induction xs)
  case (Cons x xs)
  then have "insort_key f x (sort_key f xs) = insort_key g x (sort_key f xs)" by (intro insort_key_same) auto
  with Cons show ?case by simp
qed simp

section \<open>Python numerals\<close>

text \<open>
  Python's \<^verbatim>\<open>int(text)\<close>: surrounding white space, one sign, and digits with single
  underscores between them.
\<close>

fun int_digits :: "string \<Rightarrow> bool" where
  "int_digits [] \<longleftrightarrow> False"
| "int_digits [c] \<longleftrightarrow> is_digit_char c"
| "int_digits (c # d # cs) \<longleftrightarrow> is_digit_char c \<and> (if d = CHR ''_'' then int_digits cs else int_digits (d # cs))"

definition py_int :: "string \<Rightarrow> int option" where
  "py_int s = (let t = py_strip s;
       neg = (case t of c # _ \<Rightarrow> c = CHR ''-'' | [] \<Rightarrow> False);
       body = (case t of c # cs \<Rightarrow> if c = CHR ''-'' \<or> c = CHR ''+'' then cs else t | [] \<Rightarrow> t)
     in if int_digits body
        then Some ((if neg then - 1 else 1) * int (digits_value (filter (\<lambda>c. c \<noteq> CHR ''_'') body)))
        else None)"

text \<open>\<^verbatim>\<open>f"{n:0<width>d}"\<close>\<close>

definition zero_padded :: "nat \<Rightarrow> int \<Rightarrow> string" where
  "zero_padded width n = (let digits = nat_digits (nat \<bar>n\<bar>)
     in if n < 0 then CHR ''-'' # replicate (width - 1 - length digits) CHR ''0'' @ digits
        else replicate (width - length digits) CHR ''0'' @ digits)"

lemma nat_digits_nonempty: "nat_digits n \<noteq> []"
  by (subst nat_digits.simps) simp

lemma digits_value_leading: "digits_value (replicate k CHR ''0'' @ ds) = digits_value ds"
proof -
  have "foldl (\<lambda>v c. 10 * v + (of_char c - 48)) 0 (replicate k CHR ''0'') = (0 :: nat)" by (induction k) simp_all
  then show ?thesis by (simp add: digits_value_def)
qed

lemma digit_not_special:
  assumes "is_digit_char c"
  shows "c \<noteq> CHR ''-''" "c \<noteq> CHR ''+''" "c \<noteq> CHR ''_''" "\<not> is_py_space c"
proof -
  have "48 \<le> (of_char c :: nat)" "(of_char c :: nat) \<le> 57" using assms by (simp_all add: is_digit_char_def less_eq_char_def)
  then show "c \<noteq> CHR ''-''" "c \<noteq> CHR ''+''" "c \<noteq> CHR ''_''" "\<not> is_py_space c" by (auto simp: is_py_space_def Let_def)
qed

lemma int_digits_all: "ds \<noteq> [] \<Longrightarrow> list_all is_digit_char ds \<Longrightarrow> int_digits ds"
  by (induction ds rule: int_digits.induct) (auto dest: digit_not_special(3))

lemma py_strip_digits:
  assumes "list_all is_digit_char ds"
  shows "py_strip ds = ds"
proof -
  have none: "dropWhile is_py_space xs = xs" if "list_all is_digit_char xs" for xs
    using that by (cases xs) (auto simp: digit_not_special(4))
  have "list_all is_digit_char (rev ds)" using assms by (simp add: list_all_iff)
  then show ?thesis using none [OF assms] none by (simp add: py_strip_def)
qed

lemma py_int_digits:
  assumes "ds \<noteq> []" and "list_all is_digit_char ds"
  shows "py_int ds = Some (int (digits_value ds))"
proof -
  obtain c cs where ds: "ds = c # cs" using assms(1) by (cases ds) auto
  have c: "c \<noteq> CHR ''-''" "c \<noteq> CHR ''+''" using assms(2) ds by (simp_all add: digit_not_special)
  have "filter (\<lambda>c. c \<noteq> CHR ''_'') ds = ds" using assms(2) by (auto simp: list_all_iff digit_not_special intro!: filter_True)
  moreover have "py_strip ds = ds" by (rule py_strip_digits [OF assms(2)])
  ultimately show ?thesis using int_digits_all [OF assms] c unfolding ds by (simp add: py_int_def Let_def del: filter.simps)
qed

lemma zero_padded_digits:
  assumes "0 \<le> n"
  shows "zero_padded k n \<noteq> []" "list_all is_digit_char (zero_padded k n)" "py_int (zero_padded k n) = Some n"
proof -
  show ne: "zero_padded k n \<noteq> []" using assms by (simp add: zero_padded_def Let_def nat_digits_nonempty)
  have "is_digit_char CHR ''0''" by (simp add: is_digit_char_def)
  then show all: "list_all is_digit_char (zero_padded k n)"
    using assms by (auto simp: zero_padded_def Let_def list_all_iff dest: nat_digits_all_digits)
  have "digits_value (zero_padded k n) = nat n" using assms by (simp add: zero_padded_def Let_def digits_value_leading)
  then show "py_int (zero_padded k n) = Some n" using py_int_digits [OF ne all] assms by simp
qed

lemma no_hyphen: "list_all is_digit_char ds \<Longrightarrow> CHR ''-'' \<notin> set ds"
  by (auto simp: list_all_iff dest: digit_not_special(1))

lemma digits_value_padded: "0 \<le> n \<Longrightarrow> digits_value (zero_padded k n) = nat n"
  by (simp add: zero_padded_def Let_def digits_value_leading)

lemma zero_padded_inject: "0 \<le> m \<Longrightarrow> 0 \<le> n \<Longrightarrow> zero_padded k m = zero_padded k n \<longleftrightarrow> m = n"
  by (metis digits_value_padded nat_eq_iff2 nat_0_le)

lemma nat_digits_no_sign: "nat_digits n \<noteq> CHR ''-'' # ds" "CHR ''-'' # ds \<noteq> nat_digits n"
  using nat_digits_all_digits [of "CHR ''-''" n] by (auto simp: is_digit_char_def dest: sym)

lemma int_text_inject [simp]: "int_text i = int_text j \<longleftrightarrow> i = j"
  by (auto simp: int_text_def nat_digits_no_sign split: if_splits)

end
