(* ===== verification/Retail_Interfaces.thy ===== *)
theory Retail_Interfaces
  imports Retail_Prelude
begin

text \<open>
  Interfaces several components share, stated as locales and interpreted by each
  component on its own definitions: a machine with an inductive invariant, one with a counter
  per row that no step lowers, a store whose rows are written under an expected revision, and a
  store whose rows are claimed under an owner, a lease and an epoch that fences stale workers.
\<close>

section \<open>Reachable states and invariants\<close>

inductive reachable_from :: "('s \<Rightarrow> bool) \<Rightarrow> ('s \<Rightarrow> 's \<Rightarrow> bool) \<Rightarrow> 's \<Rightarrow> bool"
  for init :: "'s \<Rightarrow> bool" and step :: "'s \<Rightarrow> 's \<Rightarrow> bool" where
  reach_init: "init s \<Longrightarrow> reachable_from init step s"
| reach_step: "reachable_from init step s \<Longrightarrow> step s t \<Longrightarrow> reachable_from init step t"

lemma reachable_from_rtranclp:
  "reachable_from init step s \<Longrightarrow> step\<^sup>*\<^sup>* s t \<Longrightarrow> reachable_from init step t"
  by (rotate_tac, induction rule: rtranclp_induct) (auto intro: reach_step)

locale invariant_machine =
  fixes init :: "'s \<Rightarrow> bool"
    and step :: "'s \<Rightarrow> 's \<Rightarrow> bool"
    and inv :: "'s \<Rightarrow> bool"
  assumes inv_init: "init s \<Longrightarrow> inv s"
    and inv_step: "inv s \<Longrightarrow> step s t \<Longrightarrow> inv t"
begin

lemma inv_steps: "step\<^sup>*\<^sup>* s t \<Longrightarrow> inv s \<Longrightarrow> inv t"
  by (induction rule: rtranclp_induct) (auto intro: inv_step)

lemma reachable_inv: "reachable_from init step s \<Longrightarrow> inv s"
  by (induction rule: reachable_from.induct) (auto intro: inv_init inv_step)

text \<open>A predicate every single step keeps from invariant states is kept for ever.\<close>

lemma stable_steps:
  assumes keep: "\<And>s t. inv s \<Longrightarrow> step s t \<Longrightarrow> Q s \<Longrightarrow> Q t"
    and run: "step\<^sup>*\<^sup>* s t" and "inv s" and "Q s"
  shows "Q t"
proof -
  from run \<open>inv s\<close> \<open>Q s\<close> have "inv t \<and> Q t"
    by (induction rule: rtranclp_induct) (auto intro: inv_step keep)
  then show ?thesis by simp
qed

end

section \<open>Machines with a counter per row\<close>

text \<open>An epoch or a revision of a row that no step lowers.\<close>

locale counted_machine = invariant_machine init step inv
  for init :: "'s \<Rightarrow> bool" and step :: "'s \<Rightarrow> 's \<Rightarrow> bool" and inv :: "'s \<Rightarrow> bool" +
  fixes counter :: "'s \<Rightarrow> 'k \<Rightarrow> 'c :: linorder"
  assumes counter_mono: "inv s \<Longrightarrow> step s t \<Longrightarrow> counter s k \<le> counter t k"
begin

lemma counter_mono_steps: "step\<^sup>*\<^sup>* s t \<Longrightarrow> inv s \<Longrightarrow> counter s k \<le> counter t k"
proof (induction rule: rtranclp_induct)
  case base
  then show ?case by simp
next
  case (step t u)
  then have "inv t" by (blast intro: inv_steps)
  with step show ?case
    by (blast intro: order_trans counter_mono)
qed

end

section \<open>Rows written under an expected revision\<close>

text \<open>
  \<open>accepts s k e t\<close>: a writer that read revision \<open>e\<close> of row \<open>k\<close> has its write accepted in state \<open>s\<close>,
  which leads to \<open>t\<close>.
\<close>

locale versioned_store = counted_machine init step inv revision_of
  for init :: "'s \<Rightarrow> bool" and step :: "'s \<Rightarrow> 's \<Rightarrow> bool" and inv :: "'s \<Rightarrow> bool"
    and revision_of :: "'s \<Rightarrow> 'k \<Rightarrow> int" +
  fixes accepts :: "'s \<Rightarrow> 'k \<Rightarrow> int \<Rightarrow> 's \<Rightarrow> bool"
  assumes accepts_step: "accepts s k e t \<Longrightarrow> step s t"
    and accepts_revision: "inv s \<Longrightarrow> accepts s k e t \<Longrightarrow> revision_of s k = e \<and> e < revision_of t k"
begin

text \<open>Of two writers that read the same revision at most one succeeds, whatever happens in between.\<close>

lemma no_lost_update:
  assumes "inv s" and "accepts s k e t" and "step\<^sup>*\<^sup>* t u"
  shows "\<not> accepts u k e v"
proof
  assume "accepts u k e v"
  have "inv t" using assms accepts_step inv_step by blast
  moreover from this have "inv u" using assms(3) by (blast intro: inv_steps)
  ultimately have "e < revision_of u k"
    using accepts_revision [OF assms(1,2)] counter_mono_steps [OF assms(3), of k] by simp
  with accepts_revision [OF \<open>inv u\<close> \<open>accepts u k e v\<close>] show False by simp
qed

end

section \<open>Stores fenced by epochs\<close>

text \<open>
  \<open>holds s k ow ep now\<close>: in state \<open>s\<close> the operations accept a write to row \<open>k\<close> from the
  worker \<open>ow\<close> that claimed it under epoch \<open>ep\<close>, at instant \<open>now\<close>.
\<close>

locale fenced_store = counted_machine init step inv epoch_of
  for init :: "'s \<Rightarrow> bool" and step :: "'s \<Rightarrow> 's \<Rightarrow> bool" and inv :: "'s \<Rightarrow> bool"
    and epoch_of :: "'s \<Rightarrow> 'k \<Rightarrow> nat" +
  fixes holds :: "'s \<Rightarrow> 'k \<Rightarrow> string \<Rightarrow> nat \<Rightarrow> instant \<Rightarrow> bool"
  assumes holds_epoch: "inv s \<Longrightarrow> holds s k ow ep now \<Longrightarrow> epoch_of s k = ep"
    and holds_owner: "inv s \<Longrightarrow> holds s k ow ep now \<Longrightarrow> holds s k ow' ep' now' \<Longrightarrow> ow = ow'"
begin

text \<open>Once a row has moved past an epoch, no later state accepts that epoch.\<close>

lemma stale_never_holds:
  assumes "inv s" and "step\<^sup>*\<^sup>* s t" and "ep < epoch_of s k"
  shows "\<not> holds t k ow ep now"
proof
  assume "holds t k ow ep now"
  moreover have "inv t" using assms(1,2) by (blast intro: inv_steps)
  ultimately have "epoch_of t k = ep" by (blast intro: holds_epoch)
  with counter_mono_steps [OF assms(2,1), of k] assms(3) show False by simp
qed

lemma single_holder:
  "inv s \<Longrightarrow> holds s k ow ep now \<Longrightarrow> holds s k ow' ep' now' \<Longrightarrow> ow = ow' \<and> ep = ep'"
  using holds_epoch holds_owner by metis

end

end
