(* ===== verification/Outbox_Repository.thy ===== *)
theory Outbox_Repository
  imports Retail_Interfaces
begin

text \<open>
  The transactional outbox of \<^verbatim>\<open>backend/repositories/transactional_outbox.py\<close>: fenced
  claims, lease renewal, effective-once receipts, terminal transitions and audited
  replay over the tables \<^verbatim>\<open>retail_outbox_events\<close>, \<^verbatim>\<open>retail_outbox_consumer_receipts\<close>
  and \<^verbatim>\<open>retail_outbox_replay_audit\<close>, with the CHECK constraints and the mutation trigger
  that migration 069 puts on them. A repository call is one transaction: it either
  returns the new tables or an error, in which case the tables are unchanged.
\<close>

section \<open>Data\<close>

datatype outbox_error =
    ValueError string
  | RuntimeError string
  | LookupError string
  | PostgresError string

datatype ev_state = Pending | Processing | Completed | Dead

record outbox_payload =
  pl_event_schema :: string
  pl_aggregate_type :: string
  pl_aggregate_id :: string
  pl_generation_hash :: string
  pl_source_hash :: string
  pl_cutoff :: "instant option"
  pl_month :: string
  pl_revision :: int
  pl_occurred_at :: instant

record outbox_event =
  ev_id :: nat
  ev_event_type :: string
  ev_aggregate_type :: string
  ev_aggregate_id :: string
  ev_generation_hash :: string
  ev_revision :: int
  ev_aggregate_sequence :: int
  ev_event_key :: string
  ev_payload :: outbox_payload
  ev_payload_sha256 :: string
  ev_state :: ev_state
  ev_attempt_count :: nat
  ev_available_at :: instant
  ev_claim_owner :: "string option"
  ev_claim_epoch :: nat
  ev_lease_until :: "instant option"
  ev_claimed_at :: "instant option"
  ev_last_error_code :: "string option"
  ev_last_error_at :: "instant option"
  ev_occurred_at :: instant
  ev_created_at :: instant
  ev_updated_at :: instant
  ev_completed_at :: "instant option"
  ev_dead_at :: "instant option"
  ev_replay_count :: nat

record outbox_receipt =
  rc_event_id :: nat
  rc_consumer :: string
  rc_domain_generation_key :: string
  rc_effect_sha256 :: string
  rc_received_at :: instant

record outbox_replay =
  rp_event_id :: nat
  rp_replay_number :: nat
  rp_previous_attempt_count :: nat
  rp_previous_dead_at :: "instant option"
  rp_reason :: string
  rp_requested_by_sub_sha256 :: string
  rp_requested_at :: instant

record outbox_db =
  db_events :: "outbox_event list"
  db_receipts :: "outbox_receipt list"
  db_replays :: "outbox_replay list"

definition RETRY_DELAYS_SECONDS :: "int list" where
  "RETRY_DELAYS_SECONDS = [5, 30, 120, 300, 900, 1800, 3600, 3600]"

section \<open>Argument patterns\<close>

definition owner_re :: "string \<Rightarrow> bool" where
  "owner_re s \<longleftrightarrow> 1 \<le> length s \<and> length s \<le> 128 \<and>
     list_all (\<lambda>c. is_alnum_char c \<or> c \<in> set ''._-'') s"

definition error_re :: "string \<Rightarrow> bool" where
  "error_re s \<longleftrightarrow> (case s of [] \<Rightarrow> False
     | c # cs \<Rightarrow> is_lower_char c \<and> length cs \<le> 79 \<and>
         list_all (\<lambda>d. is_lower_char d \<or> is_digit_char d \<or> d \<in> set ''_.-'') cs)"

definition consumer_re :: "string \<Rightarrow> bool" where
  "consumer_re s = error_re s"

definition generation_key_re :: "string \<Rightarrow> bool" where
  "generation_key_re s \<longleftrightarrow> (case s of [] \<Rightarrow> False
     | c # cs \<Rightarrow> (is_lower_char c \<or> is_upper_char c) \<and> length cs \<le> 239 \<and>
         list_all (\<lambda>d. is_alnum_char d \<or> d \<in> set ''._:-'') cs)"

definition require_aware :: "py_datetime \<Rightarrow> string \<Rightarrow> (outbox_error, instant) result" where
  "require_aware v field = (case v of
     Naive _ \<Rightarrow> Inl (ValueError (field @ '' must be timezone-aware''))
   | Aware t \<Rightarrow> Inr t)"

section \<open>Constraints of migration 069\<close>

text \<open>
  The CHECK constraints on the columns the repository writes, and the trigger
  \<^verbatim>\<open>guard_retail_outbox_event_mutation\<close>.
\<close>

definition state_shape :: "outbox_event \<Rightarrow> bool" where
  "state_shape e = (case ev_state e of
     Pending \<Rightarrow> ev_claim_owner e = None \<and> ev_lease_until e = None
       \<and> ev_completed_at e = None \<and> ev_dead_at e = None
   | Processing \<Rightarrow> ev_claim_owner e \<noteq> None \<and> 0 < ev_claim_epoch e \<and> ev_lease_until e \<noteq> None
       \<and> ev_claimed_at e \<noteq> None \<and> ev_completed_at e = None \<and> ev_dead_at e = None
   | Completed \<Rightarrow> ev_claim_owner e = None \<and> ev_lease_until e = None
       \<and> ev_completed_at e \<noteq> None \<and> ev_dead_at e = None
   | Dead \<Rightarrow> ev_claim_owner e = None \<and> ev_lease_until e = None
       \<and> ev_completed_at e = None \<and> ev_dead_at e \<noteq> None \<and> ev_attempt_count e = 8)"

definition event_checks :: "outbox_event \<Rightarrow> bool" where
  "event_checks e \<longleftrightarrow>
     ev_attempt_count e \<le> 8
   \<and> (case ev_claim_owner e of None \<Rightarrow> True | Some ow \<Rightarrow> owner_re ow)
   \<and> (case ev_last_error_code e of None \<Rightarrow> True | Some c \<Rightarrow> error_re c)
   \<and> state_shape e
   \<and> (ev_attempt_count e = 0 \<longrightarrow> ev_last_error_code e = None \<and> ev_last_error_at e = None)"

definition same_identity :: "outbox_event \<Rightarrow> outbox_event \<Rightarrow> bool" where
  "same_identity a b \<longleftrightarrow>
     ev_id a = ev_id b \<and> ev_event_type a = ev_event_type b
   \<and> ev_aggregate_type a = ev_aggregate_type b \<and> ev_aggregate_id a = ev_aggregate_id b
   \<and> ev_generation_hash a = ev_generation_hash b \<and> ev_revision a = ev_revision b
   \<and> ev_aggregate_sequence a = ev_aggregate_sequence b \<and> ev_event_key a = ev_event_key b
   \<and> ev_payload a = ev_payload b \<and> ev_payload_sha256 a = ev_payload_sha256 b
   \<and> ev_occurred_at a = ev_occurred_at b \<and> ev_created_at a = ev_created_at b"

definition guard_event_mutation :: "outbox_replay list \<Rightarrow> outbox_event \<Rightarrow> outbox_event \<Rightarrow> bool" where
  "guard_event_mutation replays old new \<longleftrightarrow>
     same_identity old new
   \<and> ev_updated_at old \<le> ev_updated_at new \<and> ev_claim_epoch old \<le> ev_claim_epoch new
   \<and> (case ev_state old of
        Completed \<Rightarrow> False
      | Pending \<Rightarrow> ev_state new = Processing \<and> ev_claim_epoch old < ev_claim_epoch new
          \<and> ev_attempt_count new = ev_attempt_count old + 1
          \<and> ev_replay_count new = ev_replay_count old
      | Processing \<Rightarrow> (ev_state new = Processing \<longrightarrow> ev_claim_owner new = ev_claim_owner old)
          \<and> ev_claim_epoch new = ev_claim_epoch old
          \<and> ev_attempt_count new = ev_attempt_count old
          \<and> ev_replay_count new = ev_replay_count old
      | Dead \<Rightarrow> ev_state new = Pending
          \<and> ev_replay_count new = ev_replay_count old + 1
          \<and> ev_attempt_count new = 0
          \<and> ev_claim_epoch new = ev_claim_epoch old
          \<and> ev_last_error_code new = None \<and> ev_last_error_at new = None
          \<and> list_ex (\<lambda>r. rp_event_id r = ev_id old \<and> rp_replay_number r = ev_replay_count new
               \<and> rp_previous_attempt_count r = ev_attempt_count old
               \<and> rp_previous_dead_at r = ev_dead_at old) replays)"

text \<open>An UPDATE under those constraints: it applies to every matching row or to none.\<close>

definition update_events ::
  "(outbox_event \<Rightarrow> bool) \<Rightarrow> (outbox_event \<Rightarrow> outbox_event) \<Rightarrow> outbox_db
     \<Rightarrow> (outbox_error, outbox_db) result" where
  "update_events P f db =
     (if list_all (\<lambda>e. P e \<longrightarrow> guard_event_mutation (db_replays db) e (f e) \<and> event_checks (f e))
           (db_events db)
      then Inr (db\<lparr>db_events := upd_where P f (db_events db)\<rparr>)
      else Inl (PostgresError ''outbox event constraint''))"

text \<open>
  The CHECK on \<^verbatim>\<open>domain_generation_key\<close>: beside the pattern of the repository it refuses
  a maximal run of exactly 13 digits, an \<open>sp1_\<close> token and a UUID.
\<close>

fun digit_runs_from :: "nat \<Rightarrow> string \<Rightarrow> nat list" where
  "digit_runs_from k [] = [k]"
| "digit_runs_from k (c # cs) =
     (if is_digit_char c then digit_runs_from (Suc k) cs else k # digit_runs_from 0 cs)"

definition has_thirteen_digit_run :: "string \<Rightarrow> bool" where
  "has_thirteen_digit_run s \<longleftrightarrow> 13 \<in> set (digit_runs_from 0 s)"

fun tails :: "string \<Rightarrow> string list" where
  "tails [] = [[]]"
| "tails (c # cs) = (c # cs) # tails cs"

definition is_hex_ci :: "char \<Rightarrow> bool" where
  "is_hex_ci c \<longleftrightarrow> is_hex_char c \<or> (CHR ''A'' \<le> c \<and> c \<le> CHR ''F'')"

definition sp1_at :: "string \<Rightarrow> bool" where
  "sp1_at t \<longleftrightarrow> 68 \<le> length t \<and> (t ! 0 \<in> {CHR ''s'', CHR ''S''}) \<and> (t ! 1 \<in> {CHR ''p'', CHR ''P''})
     \<and> t ! 2 = CHR ''1'' \<and> t ! 3 = CHR ''_'' \<and> list_all is_hex_ci (take 64 (drop 4 t))"

definition uuid_at :: "string \<Rightarrow> bool" where
  "uuid_at t \<longleftrightarrow> 36 \<le> length t
     \<and> list_all (\<lambda>i. if i \<in> {8, 13, 18, 23} then t ! i = CHR ''-'' else is_hex_ci (t ! i)) [0..<36]
     \<and> (length t = 36 \<or> \<not> is_hex_ci (t ! 36))"

definition contains_uuid :: "string \<Rightarrow> bool" where
  "contains_uuid s \<longleftrightarrow> uuid_at s
     \<or> list_ex (\<lambda>t. case t of [] \<Rightarrow> False | c # cs \<Rightarrow> \<not> is_hex_ci c \<and> uuid_at cs) (tails s)"

definition receipt_checks :: "outbox_receipt \<Rightarrow> bool" where
  "receipt_checks r \<longleftrightarrow>
     consumer_re (rc_consumer r)
   \<and> generation_key_re (rc_domain_generation_key r)
   \<and> \<not> has_thirteen_digit_run (rc_domain_generation_key r)
   \<and> \<not> list_ex sp1_at (tails (rc_domain_generation_key r))
   \<and> \<not> contains_uuid (rc_domain_generation_key r)
   \<and> is_sha256 (rc_effect_sha256 r)"

section \<open>Producer\<close>

text \<open>
  \<^verbatim>\<open>emit_retail_outbox_event_internal\<close> of migration 069, as the sales producer calls it.
  The id of a new row is the value of \<^verbatim>\<open>gen_random_uuid()\<close>, the digest of the payload an
  argument.
\<close>

definition event_key_of :: "string \<Rightarrow> string \<Rightarrow> string \<Rightarrow> int \<Rightarrow> string" where
  "event_key_of etype aid ghash revision =
     etype @ '':'' @ aid @ '':'' @ ghash @ '':'' @ int_text revision"

definition next_sequence :: "outbox_event list \<Rightarrow> string \<Rightarrow> string \<Rightarrow> int" where
  "next_sequence es atype aid =
     (case sql_max (map ev_aggregate_sequence
        (filter (\<lambda>e. ev_aggregate_type e = atype \<and> ev_aggregate_id e = aid) es)) of
        None \<Rightarrow> 0 | Some m \<Rightarrow> m) + 1"

definition new_event :: "(outbox_payload \<Rightarrow> string) \<Rightarrow> nat \<Rightarrow> outbox_payload \<Rightarrow> int \<Rightarrow> instant \<Rightarrow> outbox_event" where
  "new_event sha i p sequence now = \<lparr>
     ev_id = i, ev_event_type = pl_event_schema p, ev_aggregate_type = pl_aggregate_type p,
     ev_aggregate_id = pl_aggregate_id p, ev_generation_hash = pl_generation_hash p,
     ev_revision = pl_revision p, ev_aggregate_sequence = sequence,
     ev_event_key = event_key_of (pl_event_schema p) (pl_aggregate_id p) (pl_generation_hash p) (pl_revision p),
     ev_payload = p, ev_payload_sha256 = sha p, ev_state = Pending, ev_attempt_count = 0,
     ev_available_at = now, ev_claim_owner = None, ev_claim_epoch = 0, ev_lease_until = None,
     ev_claimed_at = None, ev_last_error_code = None, ev_last_error_at = None,
     ev_occurred_at = pl_occurred_at p, ev_created_at = now, ev_updated_at = now,
     ev_completed_at = None, ev_dead_at = None, ev_replay_count = 0 \<rparr>"

definition producer_contract :: "outbox_payload \<Rightarrow> bool" where
  "producer_contract p \<longleftrightarrow> (pl_event_schema p, pl_aggregate_type p) \<in> set
     [(''retail.sales_generation_promoted.v1'', ''sales_generation''),
      (''retail.pnl_generation_promoted.v1'', ''pnl_generation''),
      (''retail.salary_import_completed.v1'', ''salary_import''),
      (''retail.planning_forecast_promoted.v1'', ''planning_forecast''),
      (''retail.grile_manifest_approved.v1'', ''grile_manifest'')]"

definition aggregate_id_check :: "string \<Rightarrow> bool" where
  "aggregate_id_check s \<longleftrightarrow> (case s of [] \<Rightarrow> False
     | c # cs \<Rightarrow> (is_lower_char c \<or> is_upper_char c) \<and> length cs \<le> 127 \<and>
         list_all (\<lambda>d. is_alnum_char d \<or> d \<in> set ''._-'') cs)
   \<and> \<not> has_thirteen_digit_run s \<and> \<not> list_ex sp1_at (tails s) \<and> \<not> contains_uuid s"

definition identity_checks :: "outbox_payload \<Rightarrow> bool" where
  "identity_checks p \<longleftrightarrow> aggregate_id_check (pl_aggregate_id p) \<and> is_sha256 (pl_generation_hash p)
     \<and> is_sha256 (pl_source_hash p) \<and> month_check (pl_month p) \<and> 1 \<le> pl_revision p"

definition emit_event_internal ::
  "(outbox_payload \<Rightarrow> string) \<Rightarrow> nat \<Rightarrow> instant \<Rightarrow> outbox_payload \<Rightarrow> outbox_db
     \<Rightarrow> (outbox_error, outbox_db \<times> nat) result" where
  "emit_event_internal sha i now p db =
     (if \<not> producer_contract p
        then Inl (PostgresError ''unsupported transactional outbox producer contract'') else
      let key = event_key_of (pl_event_schema p) (pl_aggregate_id p) (pl_generation_hash p) (pl_revision p) in
      case row_by ev_event_key key (db_events db) of
        Some ex \<Rightarrow>
          (if ev_event_type ex \<noteq> pl_event_schema p \<or> ev_aggregate_type ex \<noteq> pl_aggregate_type p
              \<or> ev_aggregate_id ex \<noteq> pl_aggregate_id p \<or> ev_generation_hash ex \<noteq> pl_generation_hash p
              \<or> ev_revision ex \<noteq> pl_revision p \<or> ev_payload ex \<noteq> p \<or> ev_payload_sha256 ex \<noteq> sha p
              \<or> ev_occurred_at ex \<noteq> pl_occurred_at p
           then Inl (PostgresError ''transactional outbox idempotency key payload differs'')
           else Inr (db, ev_id ex))
      | None \<Rightarrow>
          (if \<not> identity_checks p then Inl (PostgresError ''outbox event constraint'')
           else if i \<in> ev_id ` set (db_events db) then Inl (PostgresError ''duplicate event id'')
           else Inr (db\<lparr>db_events := db_events db @
                 [new_event sha i p (next_sequence (db_events db) (pl_aggregate_type p) (pl_aggregate_id p)) now]\<rparr>, i)))"

definition emit_sales_generation_promoted ::
  "(outbox_payload \<Rightarrow> string) \<Rightarrow> nat \<Rightarrow> instant \<Rightarrow> string \<Rightarrow> string \<Rightarrow> string \<Rightarrow> py_datetime \<Rightarrow> string
     \<Rightarrow> int \<Rightarrow> py_datetime \<Rightarrow> outbox_db \<Rightarrow> (outbox_error, outbox_db \<times> nat) result" where
  "emit_sales_generation_promoted sha i now aggregate_id generation_hash source_hash cutoff month revision occurred_at db =
     res_bind (require_aware cutoff ''cutoff'') (\<lambda>c.
     res_bind (require_aware occurred_at ''occurred_at'') (\<lambda>t.
       emit_event_internal sha i now
         \<lparr> pl_event_schema = ''retail.sales_generation_promoted.v1'',
           pl_aggregate_type = ''sales_generation'', pl_aggregate_id = aggregate_id,
           pl_generation_hash = generation_hash, pl_source_hash = source_hash, pl_cutoff = Some c,
           pl_month = month, pl_revision = revision, pl_occurred_at = t \<rparr> db))"

section \<open>Claims\<close>

definition receipt_at :: "outbox_db \<Rightarrow> nat \<Rightarrow> instant option" where
  "receipt_at db i = sql_max (map rc_received_at (filter (\<lambda>r. rc_event_id r = i) (db_receipts db)))"

definition lease_expired :: "instant \<Rightarrow> outbox_event \<Rightarrow> bool" where
  "lease_expired now e \<longleftrightarrow> ev_state e = Processing \<and>
     (case ev_lease_until e of None \<Rightarrow> False | Some l \<Rightarrow> l \<le> now)"

definition settle_row :: "string \<Rightarrow> instant \<Rightarrow> instant \<Rightarrow> instant option \<Rightarrow> outbox_event \<Rightarrow> outbox_event" where
  "settle_row code now retry_at rcpt e = e\<lparr>
     ev_state := (if rcpt \<noteq> None then Completed else if ev_attempt_count e = 8 then Dead else Pending),
     ev_available_at := (if rcpt \<noteq> None \<or> ev_attempt_count e = 8 then ev_available_at e else retry_at),
     ev_claim_owner := None,
     ev_lease_until := None,
     ev_last_error_code := (if rcpt \<noteq> None then ev_last_error_code e else Some code),
     ev_last_error_at := (if rcpt \<noteq> None then ev_last_error_at e else Some now),
     ev_updated_at := now,
     ev_completed_at := (if rcpt \<noteq> None
        then (case ev_completed_at e of None \<Rightarrow> rcpt | Some c \<Rightarrow> Some c) else ev_completed_at e),
     ev_dead_at := (if rcpt \<noteq> None then None else if ev_attempt_count e = 8 then Some now else None)\<rparr>"

definition reclaim_expired :: "instant \<Rightarrow> outbox_db \<Rightarrow> (outbox_error, outbox_db) result" where
  "reclaim_expired now db = update_events (lease_expired now)
     (\<lambda>e. settle_row ''lease_expired'' now now (receipt_at db (ev_id e)) e) db"

definition precedes :: "outbox_event \<Rightarrow> outbox_event \<Rightarrow> bool" where
  "precedes p e \<longleftrightarrow> ev_aggregate_type p = ev_aggregate_type e \<and> ev_aggregate_id p = ev_aggregate_id e
     \<and> ev_aggregate_sequence p < ev_aggregate_sequence e"

definition head_blocked :: "outbox_event list \<Rightarrow> outbox_event \<Rightarrow> bool" where
  "head_blocked es e \<longleftrightarrow> list_ex (\<lambda>p. precedes p e \<and> ev_state p \<noteq> Completed) es"

definition claimable :: "instant \<Rightarrow> outbox_event list \<Rightarrow> outbox_event \<Rightarrow> bool" where
  "claimable now es e \<longleftrightarrow> ev_state e = Pending \<and> ev_available_at e \<le> now \<and> \<not> head_blocked es e"

definition claim_order :: "outbox_event \<Rightarrow> instant \<times> instant \<times> nat" where
  "claim_order e = (ev_available_at e, ev_created_at e, ev_id e)"

text \<open>\<open>locked\<close>: the rows other open transactions have locked, which SKIP LOCKED passes over.\<close>

definition claim_candidates :: "(nat \<Rightarrow> bool) \<Rightarrow> instant \<Rightarrow> nat \<Rightarrow> outbox_event list \<Rightarrow> nat list" where
  "claim_candidates locked now limit es =
     map ev_id (take limit (sort_key claim_order
       (filter (\<lambda>e. claimable now es e \<and> \<not> locked (ev_id e)) es)))"

definition claim_row :: "string \<Rightarrow> instant \<Rightarrow> int \<Rightarrow> outbox_event \<Rightarrow> outbox_event" where
  "claim_row owner now lease_seconds e = e\<lparr>
     ev_state := Processing,
     ev_attempt_count := ev_attempt_count e + 1,
     ev_claim_owner := Some owner,
     ev_claim_epoch := ev_claim_epoch e + 1,
     ev_lease_until := Some (now + seconds lease_seconds),
     ev_claimed_at := Some now,
     ev_updated_at := now\<rparr>"

definition claim_events ::
  "(nat \<Rightarrow> bool) \<Rightarrow> string \<Rightarrow> instant \<Rightarrow> nat \<Rightarrow> int \<Rightarrow> outbox_db
     \<Rightarrow> (outbox_error, outbox_db \<times> outbox_event list) result" where
  "claim_events locked owner now limit lease_seconds db =
     (let ids = claim_candidates locked now limit (db_events db) in
      res_bind (update_events (\<lambda>e. ev_id e \<in> set ids) (claim_row owner now lease_seconds) db) (\<lambda>db'.
        Inr (db', sort_key claim_order (filter (\<lambda>e. ev_id e \<in> set ids) (db_events db')))))"

definition claim_batch ::
  "(nat \<Rightarrow> bool) \<Rightarrow> string \<Rightarrow> py_datetime \<Rightarrow> int \<Rightarrow> int \<Rightarrow> outbox_db
     \<Rightarrow> (outbox_error, outbox_db \<times> outbox_event list) result" where
  "claim_batch locked owner now limit lease_seconds db =
     (if \<not> owner_re owner then Inl (ValueError ''outbox claim owner is invalid'') else
      res_bind (require_aware now ''now'') (\<lambda>t.
      if \<not> (1 \<le> limit \<and> limit \<le> 100)
        then Inl (ValueError ''outbox claim batch must be between 1 and 100'') else
      if \<not> (1 \<le> lease_seconds \<and> lease_seconds \<le> 3600)
        then Inl (ValueError ''outbox lease must be between 1 and 3600 seconds'') else
      res_bind (reclaim_expired t db) (\<lambda>db'.
        claim_events locked owner t (nat limit) lease_seconds db')))"

section \<open>Operations of the claim holder\<close>

text \<open>The WHERE clause of every write of a claim holder.\<close>

definition holds_claim :: "string \<Rightarrow> nat \<Rightarrow> instant \<Rightarrow> outbox_event \<Rightarrow> bool" where
  "holds_claim owner epoch now e \<longleftrightarrow> ev_state e = Processing
     \<and> ev_claim_owner e = Some owner \<and> ev_claim_epoch e = epoch
     \<and> (case ev_lease_until e of None \<Rightarrow> False | Some l \<Rightarrow> now < l)"

definition claim_target :: "nat \<Rightarrow> string \<Rightarrow> nat \<Rightarrow> instant \<Rightarrow> outbox_event \<Rightarrow> bool" where
  "claim_target i owner epoch now e \<longleftrightarrow> ev_id e = i \<and> holds_claim owner epoch now e"

definition update_claimed ::
  "nat \<Rightarrow> string \<Rightarrow> nat \<Rightarrow> instant \<Rightarrow> (outbox_event \<Rightarrow> outbox_event) \<Rightarrow> outbox_db
     \<Rightarrow> (outbox_error, outbox_db) result" where
  "update_claimed i owner epoch now f db =
     res_bind (update_events (claim_target i owner epoch now) f db) (\<lambda>db'.
       if list_ex (claim_target i owner epoch now) (db_events db) then Inr db'
       else Inl (RuntimeError ''stale outbox claim''))"

definition renew_row :: "instant \<Rightarrow> int \<Rightarrow> outbox_event \<Rightarrow> outbox_event" where
  "renew_row now lease_seconds e =
     e\<lparr>ev_lease_until := Some (now + seconds lease_seconds), ev_updated_at := now\<rparr>"

definition renew_lease ::
  "nat \<Rightarrow> string \<Rightarrow> nat \<Rightarrow> py_datetime \<Rightarrow> int \<Rightarrow> outbox_db \<Rightarrow> (outbox_error, outbox_db) result" where
  "renew_lease event_id owner epoch now lease_seconds db =
     (if \<not> owner_re owner then Inl (ValueError ''outbox claim owner is invalid'') else
      res_bind (require_aware now ''now'') (\<lambda>t.
      if \<not> (1 \<le> lease_seconds \<and> lease_seconds \<le> 3600)
        then Inl (ValueError ''outbox lease must be between 1 and 3600 seconds'') else
      update_claimed event_id owner epoch t (renew_row t lease_seconds) db))"

definition complete_row :: "instant \<Rightarrow> outbox_event \<Rightarrow> outbox_event" where
  "complete_row now e = e\<lparr>ev_state := Completed, ev_claim_owner := None, ev_lease_until := None,
     ev_completed_at := Some now, ev_updated_at := now\<rparr>"

definition mark_completed ::
  "nat \<Rightarrow> string \<Rightarrow> nat \<Rightarrow> py_datetime \<Rightarrow> outbox_db \<Rightarrow> (outbox_error, outbox_db) result" where
  "mark_completed event_id owner epoch now db =
     res_bind (require_aware now ''now'') (\<lambda>t.
       update_claimed event_id owner epoch t (complete_row t) db)"

definition retry_delay :: "nat \<Rightarrow> int" where
  "retry_delay attempts = (if attempts = 1 then 5 else if attempts = 2 then 30
     else if attempts = 3 then 120 else if attempts = 4 then 300
     else if attempts = 5 then 900 else if attempts = 6 then 1800 else 3600)"

definition fail_row :: "outbox_db \<Rightarrow> string \<Rightarrow> instant \<Rightarrow> outbox_event \<Rightarrow> outbox_event" where
  "fail_row db code now e =
     settle_row code now (now + seconds (retry_delay (ev_attempt_count e))) (receipt_at db (ev_id e)) e"

definition mark_failed ::
  "nat \<Rightarrow> string \<Rightarrow> nat \<Rightarrow> string \<Rightarrow> py_datetime \<Rightarrow> outbox_db
     \<Rightarrow> (outbox_error, outbox_db \<times> ev_state) result" where
  "mark_failed event_id owner epoch error_code now db =
     (if \<not> error_re error_code then Inl (ValueError ''outbox error code is invalid'') else
      res_bind (require_aware now ''now'') (\<lambda>t.
      res_bind (update_events (claim_target event_id owner epoch t) (fail_row db error_code t) db) (\<lambda>db'.
        case List.find (claim_target event_id owner epoch t) (db_events db) of
          None \<Rightarrow> Inl (RuntimeError ''stale outbox claim'')
        | Some e \<Rightarrow> Inr (db', ev_state (fail_row db error_code t e)))))"

section \<open>Receipts\<close>

definition insert_receipt :: "outbox_receipt \<Rightarrow> outbox_db \<Rightarrow> (outbox_error, outbox_db \<times> bool) result" where
  "insert_receipt r db =
     (if \<not> receipt_checks r then Inl (PostgresError ''outbox receipt constraint'')
      else if list_ex (\<lambda>q. (rc_event_id q = rc_event_id r \<and> rc_consumer q = rc_consumer r)
              \<or> (rc_consumer q = rc_consumer r \<and> rc_domain_generation_key q = rc_domain_generation_key r))
              (db_receipts db)
      then Inr (db, False)
      else Inr (db\<lparr>db_receipts := db_receipts db @ [r]\<rparr>, True))"

definition record_receipt ::
  "nat \<Rightarrow> string \<Rightarrow> nat \<Rightarrow> string \<Rightarrow> string \<Rightarrow> string \<Rightarrow> py_datetime \<Rightarrow> outbox_db
     \<Rightarrow> (outbox_error, outbox_db \<times> bool) result" where
  "record_receipt event_id owner epoch consumer generation_key effect_sha256 received_at db =
     (if \<not> consumer_re consumer then Inl (ValueError ''outbox consumer is invalid'') else
      if \<not> generation_key_re generation_key
        then Inl (ValueError ''outbox domain generation key is invalid'') else
      if \<not> is_sha256 effect_sha256 then Inl (ValueError ''outbox effect digest is invalid'') else
      res_bind (require_aware received_at ''received_at'') (\<lambda>t.
      if \<not> list_ex (claim_target event_id owner epoch t) (db_events db)
        then Inl (RuntimeError ''stale outbox claim'') else
      res_bind (insert_receipt \<lparr> rc_event_id = event_id, rc_consumer = consumer,
          rc_domain_generation_key = generation_key, rc_effect_sha256 = effect_sha256,
          rc_received_at = t \<rparr> db) (\<lambda>(db', inserted).
      if inserted then Inr (db', True) else
      case List.find (\<lambda>q. rc_event_id q = event_id \<and> rc_consumer q = consumer) (db_receipts db') of
        Some q \<Rightarrow>
          (if rc_domain_generation_key q = generation_key \<and> rc_effect_sha256 q = effect_sha256
           then Inr (db', False) else Inl (RuntimeError ''consumer receipt conflict''))
      | None \<Rightarrow>
          (case List.find (\<lambda>q. rc_consumer q = consumer \<and> rc_domain_generation_key q = generation_key)
                  (db_receipts db') of
             Some q \<Rightarrow>
               (if rc_event_id q = event_id \<and> rc_effect_sha256 q = effect_sha256
                then Inr (db', False) else Inl (RuntimeError ''domain generation receipt conflict''))
           | None \<Rightarrow> Inl (RuntimeError ''consumer receipt insert was not observable'')))))"

section \<open>Replay and observation\<close>

definition replay_row :: "nat \<Rightarrow> instant \<Rightarrow> outbox_event \<Rightarrow> outbox_event" where
  "replay_row n now e = e\<lparr>ev_state := Pending, ev_attempt_count := 0, ev_available_at := now,
     ev_last_error_code := None, ev_last_error_at := None, ev_dead_at := None,
     ev_replay_count := n, ev_updated_at := now\<rparr>"

definition replay_dead ::
  "nat \<Rightarrow> string \<Rightarrow> string \<Rightarrow> py_datetime \<Rightarrow> outbox_db \<Rightarrow> (outbox_error, outbox_db \<times> nat) result" where
  "replay_dead event_id reason requested_by now db =
     res_bind (require_aware now ''now'') (\<lambda>t.
     if \<not> error_re reason then Inl (ValueError ''outbox replay reason is invalid'') else
     if \<not> is_sha256 requested_by then Inl (ValueError ''outbox replay actor digest is invalid'') else
     case row_by ev_id event_id (db_events db) of
       None \<Rightarrow> Inl (LookupError ''outbox event was not found'')
     | Some e \<Rightarrow>
         (if ev_state e \<noteq> Dead \<or> ev_attempt_count e \<noteq> 8 \<or> ev_dead_at e = None
          then Inl (RuntimeError ''only an exact dead outbox event can be replayed'') else
          let n = ev_replay_count e + 1;
              audit = \<lparr> rp_event_id = event_id, rp_replay_number = n, rp_previous_attempt_count = 8,
                 rp_previous_dead_at = ev_dead_at e, rp_reason = reason,
                 rp_requested_by_sub_sha256 = requested_by, rp_requested_at = t \<rparr>
          in if list_ex (\<lambda>r. rp_event_id r = event_id \<and> rp_replay_number r = n) (db_replays db)
             then Inl (PostgresError ''outbox replay audit constraint'') else
             res_bind (update_events (\<lambda>x. ev_id x = event_id \<and> ev_state x = Dead) (replay_row n t)
                 (db\<lparr>db_replays := db_replays db @ [audit]\<rparr>))
               (\<lambda>db'. Inr (db', n))))"

definition observe_state :: "py_datetime \<Rightarrow> outbox_db \<Rightarrow> (outbox_error, int \<times> nat) result" where
  "observe_state now db =
     res_bind (require_aware now ''now'') (\<lambda>t.
       Inr (max 0 (case sql_max (map (\<lambda>e. t - ev_created_at e)
                    (filter (\<lambda>e. ev_state e = Pending) (db_events db))) of None \<Rightarrow> 0 | Some m \<Rightarrow> m),
            length (filter (\<lambda>e. ev_state e = Pending \<and> head_blocked (db_events db) e) (db_events db))))"

end
