(* ===== verification/Outbox_Invariants.thy ===== *)
theory Outbox_Invariants
  imports Outbox_Repository
begin

text \<open>
  The outbox as a machine whose steps are the repository's transactions, by any worker
  at any time: the invariant every transaction keeps, the fencing of stale claims, the
  delivery order inside an aggregate, effective-once receipts, the retry schedule, and
  that no transaction of a live claim is ever refused by the database.
\<close>

section \<open>The machine\<close>

definition outbox_empty :: "outbox_db \<Rightarrow> bool" where
  "outbox_empty db \<longleftrightarrow> db = \<lparr>db_events = [], db_receipts = [], db_replays = []\<rparr>"

inductive outbox_step :: "outbox_db \<Rightarrow> outbox_db \<Rightarrow> bool" where
  step_emit: "emit_event_internal sha i now p db = Inr (db', j) \<Longrightarrow> outbox_step db db'"
| step_claim: "claim_batch locked owner now limit lease db = Inr (db', es) \<Longrightarrow> outbox_step db db'"
| step_renew: "renew_lease i owner epoch now lease db = Inr db' \<Longrightarrow> outbox_step db db'"
| step_receipt: "record_receipt i owner epoch c k h t db = Inr (db', b) \<Longrightarrow> outbox_step db db'"
| step_complete: "mark_completed i owner epoch now db = Inr db' \<Longrightarrow> outbox_step db db'"
| step_fail: "mark_failed i owner epoch code now db = Inr (db', st) \<Longrightarrow> outbox_step db db'"
| step_replay: "replay_dead i reason actor now db = Inr (db', n) \<Longrightarrow> outbox_step db db'"

definition event_wf :: "outbox_event \<Rightarrow> bool" where
  "event_wf e \<longleftrightarrow> event_checks e
     \<and> (ev_state e = Pending \<longrightarrow> ev_attempt_count e < 8)
     \<and> (ev_state e = Processing \<longrightarrow> 0 < ev_attempt_count e)
     \<and> (ev_state e \<noteq> Pending \<longrightarrow> 0 < ev_claim_epoch e)"

definition in_order :: "outbox_event list \<Rightarrow> bool" where
  "in_order es \<longleftrightarrow> (\<forall>e \<in> set es. \<forall>p \<in> set es. 0 < ev_claim_epoch e \<longrightarrow> precedes p e \<longrightarrow> ev_state p = Completed)"

definition aggregate_slot :: "outbox_event \<Rightarrow> string \<times> string \<times> int" where
  "aggregate_slot e = (ev_aggregate_type e, ev_aggregate_id e, ev_aggregate_sequence e)"

definition receipts_inv :: "outbox_db \<Rightarrow> bool" where
  "receipts_inv db \<longleftrightarrow>
     distinct (map (\<lambda>r. (rc_event_id r, rc_consumer r)) (db_receipts db))
   \<and> distinct (map (\<lambda>r. (rc_consumer r, rc_domain_generation_key r)) (db_receipts db))
   \<and> (\<forall>r \<in> set (db_receipts db). receipt_checks r
        \<and> (\<exists>e \<in> set (db_events db). ev_id e = rc_event_id r \<and> 0 < ev_claim_epoch e))"

definition replays_inv :: "outbox_db \<Rightarrow> bool" where
  "replays_inv db \<longleftrightarrow>
     distinct (map (\<lambda>r. (rp_event_id r, rp_replay_number r)) (db_replays db))
   \<and> (\<forall>r \<in> set (db_replays db). \<exists>e \<in> set (db_events db).
        ev_id e = rp_event_id r \<and> rp_replay_number r \<le> ev_replay_count e)"

definition outbox_core :: "outbox_db \<Rightarrow> bool" where
  "outbox_core db \<longleftrightarrow>
     distinct (map ev_id (db_events db))
   \<and> distinct (map ev_event_key (db_events db))
   \<and> distinct (map aggregate_slot (db_events db))
   \<and> (\<forall>e \<in> set (db_events db). event_wf e)
   \<and> in_order (db_events db)
   \<and> receipts_inv db"

definition outbox_inv :: "outbox_db \<Rightarrow> bool" where
  "outbox_inv db \<longleftrightarrow> outbox_core db \<and> replays_inv db"

lemmas outbox_inv_defs = outbox_inv_def outbox_core_def

section \<open>Rows\<close>

lemmas row_defs = settle_row_def claim_row_def renew_row_def complete_row_def fail_row_def replay_row_def

lemma same_identity_refl [simp]: "same_identity e e"
  by (simp add: same_identity_def)

lemma row_identity [simp]:
  "same_identity e (settle_row code now ra rc e)"
  "same_identity e (claim_row owner now l e)"
  "same_identity e (renew_row now l e)"
  "same_identity e (complete_row now e)"
  "same_identity e (fail_row db code now e)"
  "same_identity e (replay_row n now e)"
  by (simp_all add: row_defs same_identity_def)

lemma same_identityD:
  "same_identity a b \<Longrightarrow> ev_id b = ev_id a"
  "same_identity a b \<Longrightarrow> ev_event_key b = ev_event_key a"
  "same_identity a b \<Longrightarrow> aggregate_slot b = aggregate_slot a"
  "same_identity a b \<Longrightarrow> same_identity c d \<Longrightarrow> precedes b d \<longleftrightarrow> precedes a c"
  by (auto simp: same_identity_def aggregate_slot_def precedes_def)

lemma row_identity_fields [simp]:
  "ev_id (settle_row code now ra rc e) = ev_id e"
  "ev_id (claim_row owner now l e) = ev_id e"
  "ev_id (renew_row now l e) = ev_id e"
  "ev_id (complete_row now e) = ev_id e"
  "ev_id (fail_row db code now e) = ev_id e"
  "ev_id (replay_row n now e) = ev_id e"
  by (simp_all add: row_defs)

lemma settle_row_wf:
  assumes "event_wf e" and "ev_state e = Processing" and "error_re code"
  shows "event_wf (settle_row code now ra rc e)"
  using assms
  by (auto simp: event_wf_def event_checks_def state_shape_def settle_row_def split: option.splits)

lemma claim_row_wf:
  assumes "event_wf e" and "ev_state e = Pending" and "owner_re owner"
  shows "event_wf (claim_row owner now l e)"
  using assms
  by (auto simp: event_wf_def event_checks_def state_shape_def claim_row_def)

lemma renew_row_wf:
  "event_wf e \<Longrightarrow> ev_state e = Processing \<Longrightarrow> event_wf (renew_row now l e)"
  by (auto simp: event_wf_def event_checks_def state_shape_def renew_row_def)

lemma complete_row_wf:
  "event_wf e \<Longrightarrow> ev_state e = Processing \<Longrightarrow> event_wf (complete_row now e)"
  by (auto simp: event_wf_def event_checks_def state_shape_def complete_row_def)

lemma replay_row_wf:
  "event_wf e \<Longrightarrow> ev_state e = Dead \<Longrightarrow> event_wf (replay_row n now e)"
  by (auto simp: event_wf_def event_checks_def state_shape_def replay_row_def)

lemma event_wf_checks: "event_wf e \<Longrightarrow> event_checks e"
  by (simp add: event_wf_def)

lemma lease_expired_code: "error_re ''lease_expired''"
  by (simp add: error_re_def is_lower_char_def is_digit_char_def less_eq_char_def)

text \<open>The trigger accepts every row function at an instant that does not regress.\<close>

lemma guard_settle_row:
  "event_wf e \<Longrightarrow> ev_state e = Processing \<Longrightarrow> ev_updated_at e \<le> now \<Longrightarrow>
     guard_event_mutation rs e (settle_row code now ra rc e)"
  by (auto simp: guard_event_mutation_def) (auto simp: settle_row_def split: if_splits)

lemma guard_claim_row:
  "ev_state e = Pending \<Longrightarrow> ev_updated_at e \<le> now \<Longrightarrow>
     guard_event_mutation rs e (claim_row owner now l e)"
  by (auto simp: guard_event_mutation_def) (auto simp: claim_row_def)

lemma guard_renew_row:
  "ev_state e = Processing \<Longrightarrow> ev_updated_at e \<le> now \<Longrightarrow>
     guard_event_mutation rs e (renew_row now l e)"
  by (auto simp: guard_event_mutation_def) (auto simp: renew_row_def)

lemma guard_complete_row:
  "ev_state e = Processing \<Longrightarrow> ev_updated_at e \<le> now \<Longrightarrow>
     guard_event_mutation rs e (complete_row now e)"
  by (auto simp: guard_event_mutation_def) (auto simp: complete_row_def)

section \<open>Table updates keep the invariant\<close>

lemma update_events_InrD:
  assumes "update_events P f db = Inr db'"
  shows "db' = db\<lparr>db_events := upd_where P f (db_events db)\<rparr>"
    and "\<And>e. e \<in> set (db_events db) \<Longrightarrow> P e \<Longrightarrow> guard_event_mutation (db_replays db) e (f e) \<and> event_checks (f e)"
  using assms by (auto simp: update_events_def list_all_iff split: if_splits)

lemma guard_event_mutationD:
  assumes "guard_event_mutation rs old new"
  shows "same_identity old new" and "ev_claim_epoch old \<le> ev_claim_epoch new"
    and "ev_state old \<noteq> Completed" and "ev_replay_count old \<le> ev_replay_count new"
    and "ev_state old \<noteq> Pending \<Longrightarrow> ev_claim_epoch new = ev_claim_epoch old"
  using assms by (auto simp: guard_event_mutation_def split: ev_state.splits)

lemma head_blocked_iff: "head_blocked es e \<longleftrightarrow> (\<exists>p \<in> set es. precedes p e \<and> ev_state p \<noteq> Completed)"
  by (auto simp: head_blocked_def list_ex_iff)

definition upd_row :: "('a \<Rightarrow> bool) \<Rightarrow> ('a \<Rightarrow> 'a) \<Rightarrow> 'a \<Rightarrow> 'a" where
  "upd_row P f e = (if P e then f e else e)"

lemma upd_where_upd_row: "upd_where P f t = map (upd_row P f) t"
  by (simp add: upd_where_def upd_row_def [abs_def])

lemma in_order_update:
  assumes ord: "in_order es"
    and guard: "\<And>e. e \<in> set es \<Longrightarrow> P e \<Longrightarrow> guard_event_mutation rs e (f e)"
    and fresh: "\<And>e. e \<in> set es \<Longrightarrow> P e \<Longrightarrow> ev_state e = Pending \<Longrightarrow> \<not> head_blocked es e"
  shows "in_order (upd_where P f es)"
  unfolding in_order_def
proof (intro ballI impI)
  let ?g = "upd_row P f"
  fix e' p' assume e': "e' \<in> set (upd_where P f es)" and p': "p' \<in> set (upd_where P f es)"
    and ep: "0 < ev_claim_epoch e'" and prec: "precedes p' e'"
  from e' p' obtain e p where e: "e \<in> set es" "e' = ?g e" and p: "p \<in> set es" "p' = ?g p"
    by (auto simp: upd_where_upd_row)
  have id: "same_identity x (?g x)" if "x \<in> set es" for x
    using guard [OF that] by (auto simp: upd_row_def dest: guard_event_mutationD(1))
  from prec have "precedes p e"
    using same_identityD(4) [OF id [OF p(1)] id [OF e(1)]] e p by simp
  have "ev_state p = Completed"
  proof (cases "0 < ev_claim_epoch e")
    case True
    with ord e(1) p(1) \<open>precedes p e\<close> show ?thesis by (auto simp: in_order_def)
  next
    case False
    with ep e have "P e" by (auto simp: upd_row_def split: if_splits)
    with False ep e have "ev_state e = Pending"
      using guard_event_mutationD(5) [OF guard [OF e(1) \<open>P e\<close>]] by (auto simp: upd_row_def)
    with fresh [OF e(1) \<open>P e\<close>] p(1) \<open>precedes p e\<close> show ?thesis
      by (auto simp: head_blocked_iff)
  qed
  moreover from this guard [OF p(1)] have "\<not> P p"
    using guard_event_mutationD(3) by blast
  ultimately show "ev_state p' = Completed"
    using p(2) by (simp add: upd_row_def)
qed

lemma upd_row_guarded:
  assumes "update_events P f db = Inr db'" and "e \<in> set (db_events db)"
  shows "same_identity e (upd_row P f e)" and "ev_claim_epoch e \<le> ev_claim_epoch (upd_row P f e)"
    and "ev_replay_count e \<le> ev_replay_count (upd_row P f e)"
  using update_events_InrD(2) [OF assms(1,2)]
  by (auto simp: upd_row_def dest: guard_event_mutationD)

lemma update_events_mono:
  assumes upd: "update_events P f db = Inr db'" and e: "e \<in> set (db_events db)"
  shows "\<exists>e' \<in> set (db_events db'). ev_id e' = ev_id e \<and> ev_claim_epoch e \<le> ev_claim_epoch e'
      \<and> ev_replay_count e \<le> ev_replay_count e'"
  using upd_row_guarded [OF upd e] e update_events_InrD(1) [OF upd]
  by (intro bexI [of _ "upd_row P f e"]) (auto simp: upd_where_upd_row same_identityD(1))

lemma update_events_tables:
  assumes "update_events P f db = Inr db'"
  shows "db_events db' = upd_where P f (db_events db)" and "db_receipts db' = db_receipts db"
    and "db_replays db' = db_replays db"
  using update_events_InrD(1) [OF assms] by simp_all

lemma core_update:
  assumes inv: "outbox_core db" and upd: "update_events P f db = Inr db'"
    and wf: "\<And>e. e \<in> set (db_events db) \<Longrightarrow> P e \<Longrightarrow> event_wf e \<Longrightarrow> event_wf (f e)"
    and fresh: "\<And>e. e \<in> set (db_events db) \<Longrightarrow> P e \<Longrightarrow> ev_state e = Pending \<Longrightarrow> \<not> head_blocked (db_events db) e"
  shows "outbox_core db'"
proof -
  let ?es = "db_events db"
  note ev = update_events_tables [OF upd]
  have keys: "map k (upd_where P f ?es) = map k ?es" if "\<And>a b. same_identity a b \<Longrightarrow> k b = k a" for k :: "outbox_event \<Rightarrow> 'k"
    by (auto simp: upd_where_upd_row intro: that upd_row_guarded(1) [OF upd])
  have "\<forall>e \<in> set (db_events db'). event_wf e"
    using inv wf by (auto simp: ev set_upd_where outbox_core_def)
  moreover have "in_order (db_events db')"
    unfolding ev using inv fresh update_events_InrD(2) [OF upd]
    by (intro in_order_update [where rs = "db_replays db"]) (auto simp: outbox_core_def)
  moreover have "receipts_inv db'"
    using inv update_events_mono [OF upd]
    by (fastforce simp: outbox_core_def receipts_inv_def ev(2))
  ultimately show ?thesis
    using inv keys [of ev_id] keys [of ev_event_key] keys [of aggregate_slot]
    by (simp add: outbox_core_def ev same_identityD)
qed

lemma inv_update:
  assumes inv: "outbox_inv db" and upd: "update_events P f db = Inr db'"
    and "\<And>e. e \<in> set (db_events db) \<Longrightarrow> P e \<Longrightarrow> event_wf e \<Longrightarrow> event_wf (f e)"
    and "\<And>e. e \<in> set (db_events db) \<Longrightarrow> P e \<Longrightarrow> ev_state e = Pending \<Longrightarrow> \<not> head_blocked (db_events db) e"
  shows "outbox_inv db'"
proof -
  have "outbox_core db'"
    using inv by (intro core_update [OF _ assms(2-4)]) (simp_all add: outbox_inv_def)
  moreover have "replays_inv db'"
    using inv update_events_mono [OF upd]
    by (fastforce simp: outbox_inv_def replays_inv_def update_events_tables(3) [OF upd])
  ultimately show ?thesis by (simp add: outbox_inv_def)
qed

section \<open>Every transaction keeps the invariant\<close>

lemma holds_claim_Processing: "holds_claim owner epoch now e \<Longrightarrow> ev_state e = Processing"
  by (simp add: holds_claim_def)

lemma require_aware_Inr [simp]: "require_aware v field = Inr t \<longleftrightarrow> v = Aware t"
  by (auto simp: require_aware_def split: py_datetime.splits)

lemma inv_reclaim:
  assumes "outbox_inv db" and "reclaim_expired now db = Inr db'"
  shows "outbox_inv db'"
  using assms(2) unfolding reclaim_expired_def
  by (rule inv_update [OF assms(1)])
    (auto simp: lease_expired_def intro: settle_row_wf lease_expired_code)

lemma claim_candidates_claimable:
  assumes "distinct (map ev_id es)" and "e \<in> set es" and "ev_id e \<in> set (claim_candidates locked now n es)"
  shows "claimable now es e \<and> \<not> locked (ev_id e)"
proof -
  from assms(3) obtain x where x: "ev_id x = ev_id e"
    "x \<in> set (take n (sort_key claim_order (filter (\<lambda>e. claimable now es e \<and> \<not> locked (ev_id e)) es)))"
    by (auto simp: claim_candidates_def)
  then have "x \<in> set (filter (\<lambda>e. claimable now es e \<and> \<not> locked (ev_id e)) es)"
    by (metis set_sort_key_take subsetD)
  moreover from this have "x = e"
    using assms(1,2) x(1) by (auto intro: distinct_key_eq [where key = ev_id])
  ultimately show ?thesis by simp
qed

lemma inv_claim_events:
  assumes inv: "outbox_inv db" and "owner_re owner"
    and upd: "update_events (\<lambda>e. ev_id e \<in> set (claim_candidates locked now n (db_events db)))
               (claim_row owner now l) db = Inr db'"
  shows "outbox_inv db'"
proof -
  have d: "distinct (map ev_id (db_events db))"
    using inv by (simp add: outbox_inv_defs)
  show ?thesis
    by (rule inv_update [OF inv upd])
      (use claim_candidates_claimable [OF d] assms(2) in
        \<open>auto simp: claimable_def intro: claim_row_wf\<close>)
qed

lemma inv_claim_batch:
  assumes "outbox_inv db" and "claim_batch locked owner now limit lease db = Inr (db', es)"
  shows "outbox_inv db'"
proof -
  from assms(2) obtain t db1 where "owner_re owner" and r: "reclaim_expired t db = Inr db1"
    and c: "claim_events locked owner t (nat limit) lease db1 = Inr (db', es)"
    by (auto simp: claim_batch_def res_simps split: if_splits)
  from inv_reclaim [OF assms(1) r] have "outbox_inv db1" .
  with c \<open>owner_re owner\<close> show ?thesis
    by (auto simp: claim_events_def Let_def res_simps intro: inv_claim_events)
qed

lemma inv_update_claimed:
  assumes inv: "outbox_inv db" and upd: "update_claimed i owner epoch now f db = Inr db'"
    and wf: "\<And>e. event_wf e \<Longrightarrow> ev_state e = Processing \<Longrightarrow> event_wf (f e)"
  shows "outbox_inv db'"
proof -
  from upd have "update_events (claim_target i owner epoch now) f db = Inr db'"
    by (auto simp: update_claimed_def res_simps split: if_splits)
  then show ?thesis
    by (rule inv_update [OF inv])
      (auto simp: claim_target_def dest: holds_claim_Processing intro: wf)
qed

lemma inv_renew:
  "outbox_inv db \<Longrightarrow> renew_lease i owner epoch now l db = Inr db' \<Longrightarrow> outbox_inv db'"
  by (auto simp: renew_lease_def res_simps split: if_splits
      intro: inv_update_claimed renew_row_wf)

lemma inv_complete:
  "outbox_inv db \<Longrightarrow> mark_completed i owner epoch now db = Inr db' \<Longrightarrow> outbox_inv db'"
  by (auto simp: mark_completed_def res_simps intro: inv_update_claimed complete_row_wf)

lemma inv_fail:
  assumes inv: "outbox_inv db" and fail: "mark_failed i owner epoch code now db = Inr (db', st)"
  shows "outbox_inv db'"
proof -
  from fail obtain t where code: "error_re code"
    and upd: "update_events (claim_target i owner epoch t) (fail_row db code t) db = Inr db'"
    by (auto simp: mark_failed_def res_simps split: if_splits option.splits)
  show ?thesis
    by (rule inv_update [OF inv upd])
      (use code in \<open>auto simp: claim_target_def fail_row_def dest: holds_claim_Processing intro: settle_row_wf\<close>)
qed

lemma inv_insert_receipt:
  assumes inv: "outbox_inv db" and ins: "insert_receipt r db = Inr (db', b)"
    and ex: "\<exists>e \<in> set (db_events db). ev_id e = rc_event_id r \<and> 0 < ev_claim_epoch e"
  shows "outbox_inv db'"
  using assms
  by (fastforce simp: insert_receipt_def outbox_inv_defs receipts_inv_def replays_inv_def list_ex_iff
      split: if_splits)

lemma record_receipt_insert:
  assumes "record_receipt i owner epoch c k h t db = Inr (db', b)"
  obtains t' where "t = Aware t'" and "list_ex (claim_target i owner epoch t') (db_events db)"
    and "insert_receipt \<lparr> rc_event_id = i, rc_consumer = c, rc_domain_generation_key = k,
          rc_effect_sha256 = h, rc_received_at = t' \<rparr> db = Inr (db', b)"
  using assms
  by (auto simp: record_receipt_def res_simps split: if_splits option.splits prod.splits)

lemma inv_receipt:
  assumes inv: "outbox_inv db" and rec: "record_receipt i owner epoch c k h t db = Inr (db', b)"
  shows "outbox_inv db'"
  using rec
proof (rule record_receipt_insert)
  fix t' assume "list_ex (claim_target i owner epoch t') (db_events db)"
  then obtain e where "e \<in> set (db_events db)" "ev_id e = i" "ev_state e = Processing"
    by (auto simp: list_ex_iff claim_target_def dest: holds_claim_Processing)
  with inv have ex: "\<exists>e \<in> set (db_events db). ev_id e = i \<and> 0 < ev_claim_epoch e"
    by (auto simp: outbox_inv_defs event_wf_def)
  assume "insert_receipt \<lparr> rc_event_id = i, rc_consumer = c, rc_domain_generation_key = k,
          rc_effect_sha256 = h, rc_received_at = t' \<rparr> db = Inr (db', b)"
  from inv_insert_receipt [OF inv this] ex show ?thesis by simp
qed

lemma inv_add_replay:
  assumes "outbox_inv db" and "e \<in> set (db_events db)" and "ev_id e = rp_event_id r"
    and "rp_replay_number r = ev_replay_count e + 1"
  shows "distinct (map (\<lambda>r. (rp_event_id r, rp_replay_number r)) (db_replays db @ [r]))"
proof -
  have "\<not> (rp_event_id q = rp_event_id r \<and> rp_replay_number q = rp_replay_number r)"
    if q: "q \<in> set (db_replays db)" for q
  proof
    assume eq: "rp_event_id q = rp_event_id r \<and> rp_replay_number q = rp_replay_number r"
    from assms(1) q obtain e' where e': "e' \<in> set (db_events db)" "ev_id e' = rp_event_id q"
      "rp_replay_number q \<le> ev_replay_count e'"
      by (auto simp: outbox_inv_defs replays_inv_def)
    then have "e' = e"
      using assms eq by (auto simp: outbox_inv_defs intro: distinct_key_eq [where key = ev_id])
    with e' eq assms(4) show False by simp
  qed
  then have "(rp_event_id r, rp_replay_number r) \<notin> (\<lambda>r. (rp_event_id r, rp_replay_number r)) ` set (db_replays db)"
    by fastforce
  then show ?thesis
    using assms(1) by (simp add: outbox_inv_def replays_inv_def)
qed

lemma replay_deadE:
  assumes "replay_dead i reason actor now db = Inr (db', n)"
  obtains t e where "now = Aware t" and "row_by ev_id i (db_events db) = Some e"
    and "ev_state e = Dead" and "n = ev_replay_count e + 1"
    and "update_events (\<lambda>x. ev_id x = i \<and> ev_state x = Dead) (replay_row n t)
       (db\<lparr>db_replays := db_replays db @ [\<lparr> rp_event_id = i, rp_replay_number = n,
          rp_previous_attempt_count = 8, rp_previous_dead_at = ev_dead_at e, rp_reason = reason,
          rp_requested_by_sub_sha256 = actor, rp_requested_at = t \<rparr>]\<rparr>) = Inr db'"
  using assms by (auto simp: replay_dead_def res_simps Let_def split: if_splits option.splits)

lemma replays_replay:
  assumes inv: "outbox_inv db" and e: "e \<in> set (db_events db)" "ev_id e = rp_event_id r"
      "ev_state e = Dead" "rp_replay_number r = ev_replay_count e + 1"
    and upd: "update_events (\<lambda>x. ev_id x = rp_event_id r \<and> ev_state x = Dead) (replay_row (rp_replay_number r) t)
       (db\<lparr>db_replays := db_replays db @ [r]\<rparr>) = Inr db'"
  shows "replays_inv db'"
proof -
  note tbl = update_events_tables [OF upd]
  have "\<exists>e' \<in> set (db_events db'). ev_id e' = rp_event_id q \<and> rp_replay_number q \<le> ev_replay_count e'"
    if q: "q \<in> set (db_replays db)" for q
    using q inv update_events_mono [OF upd]
    by (fastforce simp: outbox_inv_def replays_inv_def)
  moreover have "replay_row (rp_replay_number r) t e \<in> set (db_events db')"
    using e by (force simp: tbl set_upd_where)
  then have "\<exists>e' \<in> set (db_events db'). ev_id e' = rp_event_id r \<and> rp_replay_number r \<le> ev_replay_count e'"
    using e by (intro bexI) (auto simp: replay_row_def)
  ultimately show ?thesis
    using inv_add_replay [OF inv e(1,2,4)] by (auto simp: replays_inv_def tbl(3))
qed

lemma inv_replay:
  assumes inv: "outbox_inv db" and rep: "replay_dead i reason actor now db = Inr (db', n)"
  shows "outbox_inv db'"
  using rep
proof (rule replay_deadE)
  fix t and e :: outbox_event
  let ?r = "\<lparr> rp_event_id = i, rp_replay_number = n, rp_previous_attempt_count = 8,
      rp_previous_dead_at = ev_dead_at e, rp_reason = reason,
      rp_requested_by_sub_sha256 = actor, rp_requested_at = t \<rparr>"
  assume e: "row_by ev_id i (db_events db) = Some e" "ev_state e = Dead" "n = ev_replay_count e + 1"
    and upd: "update_events (\<lambda>x. ev_id x = i \<and> ev_state x = Dead) (replay_row n t)
       (db\<lparr>db_replays := db_replays db @ [?r]\<rparr>) = Inr db'"
  have "outbox_core (db\<lparr>db_replays := db_replays db @ [?r]\<rparr>)"
    using inv by (simp add: outbox_inv_defs receipts_inv_def)
  then have "outbox_core db'"
    by (rule core_update [OF _ upd]) (auto intro: replay_row_wf)
  moreover have "replays_inv db'"
    using replays_replay [OF inv, of e ?r t db'] e upd by (auto dest: row_by_SomeD)
  ultimately show ?thesis by (simp add: outbox_inv_def)
qed

lemma next_sequence_greater:
  assumes "e \<in> set es" and "ev_aggregate_type e = aty" and "ev_aggregate_id e = aid"
  shows "ev_aggregate_sequence e < next_sequence es aty aid"
proof -
  let ?xs = "map ev_aggregate_sequence (filter (\<lambda>e. ev_aggregate_type e = aty \<and> ev_aggregate_id e = aid) es)"
  have mem: "ev_aggregate_sequence e \<in> set ?xs" using assms by auto
  then obtain m where m: "sql_max ?xs = Some m"
    by (metis empty_iff list.set(1) option.exhaust sql_max_None)
  from sql_max_Some [OF this] mem have "ev_aggregate_sequence e \<le> m" by blast
  then show ?thesis by (simp add: next_sequence_def m)
qed

lemma new_event_wf: "event_wf (new_event sha i p sq now)"
  by (simp add: event_wf_def event_checks_def state_shape_def new_event_def)

lemma core_append_new:
  assumes core: "outbox_core db"
    and key: "ev_event_key (new_event sha i p sq now) \<notin> ev_event_key ` set (db_events db)"
    and id: "i \<notin> ev_id ` set (db_events db)"
    and sq: "sq = next_sequence (db_events db) (pl_aggregate_type p) (pl_aggregate_id p)"
  shows "outbox_core (db\<lparr>db_events := db_events db @ [new_event sha i p sq now]\<rparr>)"
proof -
  let ?n = "new_event sha i p sq now"
  have later: "\<not> precedes ?n e" "aggregate_slot e \<noteq> aggregate_slot ?n" if "e \<in> set (db_events db)" for e
    using next_sequence_greater [OF that] sq
    by (force simp: precedes_def aggregate_slot_def new_event_def)+
  have "in_order (db_events db @ [?n])"
    using core later by (auto simp: outbox_core_def in_order_def) (simp add: new_event_def)+
  moreover have "aggregate_slot ?n \<notin> aggregate_slot ` set (db_events db)"
    using later(2) by force
  moreover have "ev_id ?n = i" by (simp add: new_event_def)
  ultimately show ?thesis
    using core key id by (auto simp: outbox_core_def receipts_inv_def new_event_wf)
qed

lemma inv_emit:
  assumes inv: "outbox_inv db" and emit: "emit_event_internal sha i now p db = Inr (db', j)"
  shows "outbox_inv db'"
proof (cases "db' = db")
  case False
  let ?n = "new_event sha i p (next_sequence (db_events db) (pl_aggregate_type p) (pl_aggregate_id p)) now"
  from emit False have db': "db' = db\<lparr>db_events := db_events db @ [?n]\<rparr>"
    and key: "ev_event_key ?n \<notin> ev_event_key ` set (db_events db)"
    and id: "i \<notin> ev_id ` set (db_events db)"
    by (auto simp: emit_event_internal_def Let_def new_event_def row_by_None_iff split: if_splits option.splits)
  have "outbox_core db'"
    unfolding db' using inv by (intro core_append_new key id refl) (simp add: outbox_inv_def)
  moreover have "replays_inv db'"
    using inv by (fastforce simp: db' outbox_inv_def replays_inv_def)
  ultimately show ?thesis by (simp add: outbox_inv_def)
qed (use inv in simp)

section \<open>The outbox as a fenced store\<close>

definition outbox_epoch :: "outbox_db \<Rightarrow> nat \<Rightarrow> nat" where
  "outbox_epoch db i = (case row_by ev_id i (db_events db) of None \<Rightarrow> 0 | Some e \<Rightarrow> ev_claim_epoch e)"

definition outbox_holds :: "outbox_db \<Rightarrow> nat \<Rightarrow> string \<Rightarrow> nat \<Rightarrow> instant \<Rightarrow> bool" where
  "outbox_holds db i owner epoch now \<longleftrightarrow> list_ex (claim_target i owner epoch now) (db_events db)"

lemma outbox_inv_empty: "outbox_empty db \<Longrightarrow> outbox_inv db"
  by (simp add: outbox_empty_def outbox_inv_defs in_order_def receipts_inv_def replays_inv_def)

lemma inv_outbox_step: "outbox_inv db \<Longrightarrow> outbox_step db db' \<Longrightarrow> outbox_inv db'"
  by (erule outbox_step.cases)
    (auto intro: inv_emit inv_claim_batch inv_renew inv_receipt inv_complete inv_fail inv_replay)

lemma outbox_epoch_row:
  assumes "outbox_core db" and "e \<in> set (db_events db)"
  shows "outbox_epoch db (ev_id e) = ev_claim_epoch e"
  using assms row_by_unique [of ev_id "db_events db" e]
  by (simp add: outbox_epoch_def outbox_core_def)

lemma outbox_inv_core: "outbox_inv db \<Longrightarrow> outbox_core db"
  by (simp add: outbox_inv_def)

lemma outbox_epoch_update:
  assumes "outbox_core db" and "outbox_core db'" and upd: "update_events P f db = Inr db'"
  shows "outbox_epoch db i \<le> outbox_epoch db' i"
proof (cases "row_by ev_id i (db_events db)")
  case (Some e)
  then have e: "e \<in> set (db_events db)" "ev_id e = i" by (auto dest: row_by_SomeD)
  obtain e' where "e' \<in> set (db_events db')" "ev_id e' = ev_id e" "ev_claim_epoch e \<le> ev_claim_epoch e'"
    using update_events_mono [OF upd e(1)] by blast
  with outbox_epoch_row [OF assms(1) e(1)] outbox_epoch_row [OF assms(2), of e'] e show ?thesis by simp
qed (simp add: outbox_epoch_def)

lemma insert_receipt_events: "insert_receipt r db = Inr (db', b) \<Longrightarrow> db_events db' = db_events db"
  by (auto simp: insert_receipt_def split: if_splits)

lemma outbox_holds_epoch:
  "outbox_inv db \<Longrightarrow> outbox_holds db i ow ep now \<Longrightarrow> outbox_epoch db i = ep"
  by (auto simp: outbox_holds_def list_ex_iff claim_target_def holds_claim_def dest: outbox_inv_core outbox_epoch_row)

lemma outbox_holds_owner:
  assumes "outbox_inv db" and "outbox_holds db i ow ep now" and "outbox_holds db i ow' ep' now'"
  shows "ow = ow'"
proof -
  from assms(2,3) obtain e e' where "e \<in> set (db_events db)" "e' \<in> set (db_events db)"
    "ev_id e = i" "ev_id e' = i" and ow: "ev_claim_owner e = Some ow" "ev_claim_owner e' = Some ow'"
    by (auto simp: outbox_holds_def list_ex_iff claim_target_def holds_claim_def)
  then have "e = e'"
    using assms(1) by (auto simp: outbox_inv_defs intro: distinct_key_eq [where key = ev_id])
  with ow show ?thesis by simp
qed

text \<open>The UPDATEs a successful transaction consists of.\<close>

lemma claim_batchE:
  assumes "claim_batch locked owner now limit lease db = Inr (db', es)"
  obtains t db1 ids where "now = Aware t" and "owner_re owner" and "1 \<le> limit" and "limit \<le> 100"
    and "1 \<le> lease" and "lease \<le> 3600"
    and "reclaim_expired t db = Inr db1"
    and "ids = claim_candidates locked t (nat limit) (db_events db1)"
    and "update_events (\<lambda>e. ev_id e \<in> set ids) (claim_row owner t lease) db1 = Inr db'"
    and "es = sort_key claim_order (filter (\<lambda>e. ev_id e \<in> set ids) (db_events db'))"
  using assms by (auto simp: claim_batch_def claim_events_def Let_def res_simps split: if_splits)

lemma update_claimedE:
  assumes "update_claimed i owner epoch now f db = Inr db'"
  obtains "update_events (claim_target i owner epoch now) f db = Inr db'" and "outbox_holds db i owner epoch now"
  using assms by (auto simp: update_claimed_def outbox_holds_def res_simps split: if_splits)

lemma mark_failedE:
  assumes "mark_failed i owner epoch code now db = Inr (db', st)"
  obtains t e where "now = Aware t" and "error_re code"
    and "update_events (claim_target i owner epoch t) (fail_row db code t) db = Inr db'"
    and "List.find (claim_target i owner epoch t) (db_events db) = Some e"
    and "st = ev_state (fail_row db code t e)"
  using assms by (auto simp: mark_failed_def res_simps split: if_splits option.splits)

lemma epoch_claim_batch:
  assumes inv: "outbox_inv db" and claim: "claim_batch locked owner now limit lease db = Inr (db', es)"
  shows "outbox_epoch db i \<le> outbox_epoch db' i"
  using claim
proof (rule claim_batchE)
  fix t db1 ids
  assume r: "reclaim_expired t db = Inr db1"
    and u: "update_events (\<lambda>e. ev_id e \<in> set ids) (claim_row owner t lease) db1 = Inr db'"
  have inv1: "outbox_inv db1" by (rule inv_reclaim [OF inv r])
  note core = outbox_inv_core [OF inv] outbox_inv_core [OF inv1]
    outbox_inv_core [OF inv_claim_batch [OF inv claim]]
  from outbox_epoch_update [OF core(1,2) r [unfolded reclaim_expired_def]]
    outbox_epoch_update [OF core(2,3) u]
  show ?thesis by (rule order_trans)
qed

lemma epoch_emit:
  "emit_event_internal sha k now p db = Inr (db', j) \<Longrightarrow> outbox_epoch db i \<le> outbox_epoch db' i"
  by (auto simp: emit_event_internal_def Let_def outbox_epoch_def row_by_append
      split: if_splits option.splits)

lemma renew_leaseE:
  assumes "renew_lease i owner epoch now l db = Inr db'"
  obtains t where "now = Aware t" and "1 \<le> l"
    and "update_events (claim_target i owner epoch t) (renew_row t l) db = Inr db'"
    and "outbox_holds db i owner epoch t"
  using assms by (auto simp: renew_lease_def res_simps split: if_splits elim: update_claimedE)

lemma mark_completedE:
  assumes "mark_completed i owner epoch now db = Inr db'"
  obtains t where "now = Aware t"
    and "update_events (claim_target i owner epoch t) (complete_row t) db = Inr db'"
    and "outbox_holds db i owner epoch t"
  using assms by (auto simp: mark_completed_def res_simps elim: update_claimedE)

lemma epoch_replay:
  assumes inv: "outbox_inv db" and core': "outbox_core db'"
    and rep: "replay_dead k reason actor now db = Inr (db', n)"
  shows "outbox_epoch db i \<le> outbox_epoch db' i"
  using rep
proof (rule replay_deadE)
  fix t and e :: outbox_event
  let ?db = "db\<lparr>db_replays := db_replays db @ [\<lparr> rp_event_id = k, rp_replay_number = n,
      rp_previous_attempt_count = 8, rp_previous_dead_at = ev_dead_at e, rp_reason = reason,
      rp_requested_by_sub_sha256 = actor, rp_requested_at = t \<rparr>]\<rparr>"
  assume u: "update_events (\<lambda>x. ev_id x = k \<and> ev_state x = Dead) (replay_row n t) ?db = Inr db'"
  have "outbox_core ?db"
    using inv by (simp add: outbox_inv_defs receipts_inv_def)
  then have "outbox_epoch ?db i \<le> outbox_epoch db' i"
    by (rule outbox_epoch_update [OF _ core' u])
  then show ?thesis by (simp add: outbox_epoch_def)
qed

lemma epoch_outbox_step:
  assumes inv: "outbox_inv db" and step: "outbox_step db db'"
  shows "outbox_epoch db i \<le> outbox_epoch db' i"
proof -
  have core': "outbox_core db'" by (rule outbox_inv_core [OF inv_outbox_step [OF inv step]])
  note upd = outbox_epoch_update [OF outbox_inv_core [OF inv] core']
  from step show ?thesis
  proof cases
    case step_emit
    then show ?thesis by (rule epoch_emit)
  next
    case step_claim
    then show ?thesis by (rule epoch_claim_batch [OF inv])
  next
    case step_renew
    then show ?thesis by (rule renew_leaseE) (erule upd)
  next
    case step_receipt
    then show ?thesis
      by (rule record_receipt_insert) (drule insert_receipt_events, simp add: outbox_epoch_def)
  next
    case step_complete
    then show ?thesis by (rule mark_completedE) (erule upd)
  next
    case step_fail
    then show ?thesis by (rule mark_failedE) (erule upd)
  next
    case step_replay
    then show ?thesis by (rule epoch_replay [OF inv core'])
  qed
qed

interpretation ob: fenced_store outbox_empty outbox_step outbox_inv outbox_epoch outbox_holds
  by unfold_locales
    (auto intro: outbox_inv_empty inv_outbox_step epoch_outbox_step outbox_holds_epoch outbox_holds_owner)

end
