(* ===== verification/Outbox_Correctness.thy ===== *)
theory Outbox_Correctness
  imports Outbox_Invariants
begin

text \<open>
  What the outbox promises its producers, workers and consumers, over every interleaving
  of transactions: order inside an aggregate, fencing, effective-once receipts, the
  outcome of each operation, and that the database refuses none of them.
\<close>

abbreviation outbox_reachable :: "outbox_db \<Rightarrow> bool" where
  "outbox_reachable \<equiv> reachable_from outbox_empty outbox_step"

section \<open>A sample run\<close>

text \<open>One sales generation promoted at instant 0, then claimed by worker \<open>w1\<close> at instant 10.\<close>

definition sample_hash :: string where
  "sample_hash = replicate 64 (CHR ''a'')"

definition sample_payload :: outbox_payload where
  "sample_payload = \<lparr> pl_event_schema = ''retail.sales_generation_promoted.v1'',
     pl_aggregate_type = ''sales_generation'', pl_aggregate_id = ''sales'',
     pl_generation_hash = sample_hash, pl_source_hash = sample_hash, pl_cutoff = Some 0,
     pl_month = ''2026-06'', pl_revision = 1, pl_occurred_at = 0 \<rparr>"

definition sample_event :: outbox_event where
  "sample_event = new_event (\<lambda>_. sample_hash) 7 sample_payload 1 0"

definition sample_emitted :: outbox_db where
  "sample_emitted = \<lparr>db_events = [sample_event], db_receipts = [], db_replays = []\<rparr>"

definition sample_claim :: outbox_event where
  "sample_claim = claim_row ''w1'' 10 60 sample_event"

definition sample_claimed :: outbox_db where
  "sample_claimed = \<lparr>db_events = [sample_claim], db_receipts = [], db_replays = []\<rparr>"

lemma sample_emit:
  "emit_event_internal (\<lambda>_. sample_hash) 7 0 sample_payload
     \<lparr>db_events = [], db_receipts = [], db_replays = []\<rparr> = Inr (sample_emitted, 7)"
  by code_simp

lemma sample_claim_batch:
  "claim_batch (\<lambda>_. False) ''w1'' (Aware 10) 5 60 sample_emitted = Inr (sample_claimed, [sample_claim])"
  by code_simp

text \<open>Its lease expires and worker \<open>w2\<close> takes the event over at instant 100 s.\<close>

definition sample_taken :: outbox_event where
  "sample_taken = claim_row ''w2'' 100000000 60
     (settle_row ''lease_expired'' 100000000 100000000 None sample_claim)"

definition sample_taken_over :: outbox_db where
  "sample_taken_over = \<lparr>db_events = [sample_taken], db_receipts = [], db_replays = []\<rparr>"

lemma sample_take_over:
  "claim_batch (\<lambda>_. False) ''w2'' (Aware 100000000) 5 60 sample_claimed
     = Inr (sample_taken_over, [sample_taken])"
  by code_simp

lemma sample_emitted_reachable: "outbox_reachable sample_emitted"
proof -
  have "outbox_reachable \<lparr>db_events = [], db_receipts = [], db_replays = []\<rparr>"
    by (rule reach_init) (simp add: outbox_empty_def)
  then show ?thesis
    by (rule reach_step) (rule step_emit [OF sample_emit])
qed

lemma sample_claimed_reachable: "outbox_reachable sample_claimed"
  using sample_emitted_reachable by (rule reach_step) (rule step_claim [OF sample_claim_batch])

section \<open>Transactions the database accepts\<close>

text \<open>The instant of a call does not precede the last write to any row.\<close>

definition clock_ok :: "outbox_db \<Rightarrow> instant \<Rightarrow> bool" where
  "clock_ok db t \<longleftrightarrow> list_all (\<lambda>e. ev_updated_at e \<le> t) (db_events db)"

lemma clock_okD: "clock_ok db t \<Longrightarrow> e \<in> set (db_events db) \<Longrightarrow> ev_updated_at e \<le> t"
  by (simp add: clock_ok_def list_all_iff)

lemma outbox_inv_wf: "outbox_inv db \<Longrightarrow> e \<in> set (db_events db) \<Longrightarrow> event_wf e"
  by (simp add: outbox_inv_defs)

lemma outbox_inv_ids: "outbox_inv db \<Longrightarrow> distinct (map ev_id (db_events db))"
  by (simp add: outbox_inv_defs)

lemma update_events_ok:
  assumes "\<And>e. e \<in> set (db_events db) \<Longrightarrow> P e \<Longrightarrow> guard_event_mutation (db_replays db) e (f e) \<and> event_checks (f e)"
  shows "update_events P f db = Inr (db\<lparr>db_events := upd_where P f (db_events db)\<rparr>)"
  using assms by (simp add: update_events_def list_all_iff)

lemma claimed_update_ok:
  assumes inv: "outbox_inv db" and clk: "clock_ok db t"
    and ok: "\<And>e. event_wf e \<Longrightarrow> ev_state e = Processing \<Longrightarrow> ev_updated_at e \<le> t \<Longrightarrow>
        guard_event_mutation (db_replays db) e (f e) \<and> event_checks (f e)"
    and P: "\<And>e. P e \<Longrightarrow> ev_state e = Processing"
  shows "update_events P f db = Inr (db\<lparr>db_events := upd_where P f (db_events db)\<rparr>)"
  using clock_okD [OF clk] outbox_inv_wf [OF inv] by (intro update_events_ok ok) (auto intro: P)

lemma reclaim_ok:
  assumes "outbox_inv db" and "clock_ok db t"
  shows "reclaim_expired t db = Inr (db\<lparr>db_events := upd_where (lease_expired t)
     (\<lambda>e. settle_row ''lease_expired'' t t (receipt_at db (ev_id e)) e) (db_events db)\<rparr>)"
  unfolding reclaim_expired_def
  by (rule claimed_update_ok [OF assms])
    (auto simp: lease_expired_def intro: guard_settle_row event_wf_checks settle_row_wf lease_expired_code)

lemma reclaim_clock:
  assumes "clock_ok db t" and "reclaim_expired t db = Inr db1"
  shows "clock_ok db1 t"
proof -
  have "ev_updated_at (settle_row code t ra rc e) = t" for code ra rc e
    by (simp add: settle_row_def)
  then show ?thesis
    using assms(1) update_events_tables(1) [OF assms(2) [unfolded reclaim_expired_def]]
    by (auto simp: clock_ok_def list_all_iff set_upd_where)
qed

lemma settle_row_not_expired: "\<not> lease_expired t (settle_row code t ra rc e)"
  by (simp add: lease_expired_def settle_row_def)

lemma claim_update_ok:
  assumes inv: "outbox_inv db" and clk: "clock_ok db t" and "owner_re owner"
    and ids: "ids = claim_candidates locked t n (db_events db)"
  shows "update_events (\<lambda>e. ev_id e \<in> set ids) (claim_row owner t l) db =
     Inr (db\<lparr>db_events := upd_where (\<lambda>e. ev_id e \<in> set ids) (claim_row owner t l) (db_events db)\<rparr>)"
proof (rule update_events_ok)
  fix e assume e: "e \<in> set (db_events db)" "ev_id e \<in> set ids"
  then have "ev_state e = Pending"
    using claim_candidates_claimable [OF outbox_inv_ids [OF inv]] ids by (auto simp: claimable_def)
  then show "guard_event_mutation (db_replays db) e (claim_row owner t l e) \<and> event_checks (claim_row owner t l e)"
    using clock_okD [OF clk e(1)] outbox_inv_wf [OF inv e(1)] assms(3)
    by (auto intro: guard_claim_row event_wf_checks claim_row_wf)
qed

lemma length_filter_ids:
  assumes "distinct (map key es)"
  shows "length (filter (\<lambda>e. key e \<in> set ids) es) \<le> length ids"
proof -
  have "length (filter (\<lambda>e. key e \<in> set ids) es) = card (key ` set (filter (\<lambda>e. key e \<in> set ids) es))"
    using assms by (metis distinct_card distinct_map_filter length_map set_map)
  also have "\<dots> \<le> card (set ids)" by (rule card_mono) auto
  finally show ?thesis using card_length order_trans by blast
qed

lemma claim_candidates_length: "length (claim_candidates locked t n es) \<le> n"
  by (simp add: claim_candidates_def)

lemma claim_candidates_Nil:
  assumes "claim_candidates locked t n es = []" and "0 < n" and "e \<in> set es" and "\<not> locked (ev_id e)"
  shows "\<not> claimable t es e"
proof
  assume "claimable t es e"
  with assms(3,4) have "filter (\<lambda>e. claimable t es e \<and> \<not> locked (ev_id e)) es \<noteq> []"
    by (metis (mono_tags, lifting) filter_empty_conv)
  moreover have "length (claim_candidates locked t n es)
      = min n (length (filter (\<lambda>e. claimable t es e \<and> \<not> locked (ev_id e)) es))"
    by (simp add: claim_candidates_def)
  ultimately show False using assms(1,2) by (simp add: min_def split: if_splits)
qed

lemma claim_none:
  assumes es': "es' = upd_where (\<lambda>e. ev_id e \<in> set ids) (claim_row owner t l) es"
    and ids: "ids = claim_candidates locked t n es"
    and none: "filter (\<lambda>e. ev_id e \<in> set ids) es' = []"
  shows "es' = es" and "ids = []"
proof -
  have "map ev_id es' = map ev_id es"
    unfolding es' by (rule map_upd_where_key) simp
  then have eq: "ev_id ` set es' = ev_id ` set es" by (metis set_map)
  have no: "i \<notin> set ids" if "i \<in> ev_id ` set es" for i
    using that none unfolding eq [symmetric] by (auto simp: filter_empty_conv)
  show "es' = es" unfolding es' by (rule upd_where_none) (use no in auto)
  moreover have "set ids \<subseteq> ev_id ` set es"
    by (auto simp: ids claim_candidates_def dest!: subsetD [OF set_sort_key_take])
  ultimately show "ids = []"
    using no by (cases ids) auto
qed

section \<open>Claiming\<close>

lemma claim_batch_ok:
  assumes inv: "outbox_inv db" and args: "owner_re owner" "1 \<le> limit" "limit \<le> 100" "1 \<le> lease" "lease \<le> 3600"
    and clk: "clock_ok db t"
  obtains db1 db' where "reclaim_expired t db = Inr db1"
    and "outbox_inv db1"
    and "db_events db' = upd_where (\<lambda>e. ev_id e \<in> set (claim_candidates locked t (nat limit) (db_events db1)))
           (claim_row owner t lease) (db_events db1)"
    and "claim_batch locked owner (Aware t) limit lease db = Inr (db', sort_key claim_order
           (filter (\<lambda>e. ev_id e \<in> set (claim_candidates locked t (nat limit) (db_events db1))) (db_events db')))"
proof -
  obtain db1 where r: "reclaim_expired t db = Inr db1"
    using reclaim_ok [OF inv clk] by blast
  note inv1 = inv_reclaim [OF inv r] and clk1 = reclaim_clock [OF clk r]
  from claim_update_ok [OF inv1 clk1 args(1) refl, of locked "nat limit" lease] r args inv1 show ?thesis
    by (intro that [OF r inv1]) (auto simp: claim_batch_def claim_events_def Let_def require_aware_def)
qed

text \<open>
  C6: On every reachable outbox, a claim with valid arguments whose clock has not gone
  backwards is never refused: it returns at most \<open>limit\<close> events, each of them now
  processing under the caller's claim with the requested lease; it leaves no expired
  lease behind; and it returns nothing only when no unlocked event is claimable.
\<close>

theorem claim_batch_delivers:
  assumes "outbox_reachable db" and args: "owner_re owner" "1 \<le> limit" "limit \<le> 100" "1 \<le> lease" "lease \<le> 3600"
    and clk: "clock_ok db t"
  shows "\<exists>db' es. claim_batch locked owner (Aware t) limit lease db = Inr (db', es)
     \<and> int (length es) \<le> limit
     \<and> (\<forall>e \<in> set es. e \<in> set (db_events db') \<and> holds_claim owner (ev_claim_epoch e) t e
          \<and> ev_lease_until e = Some (t + seconds lease))
     \<and> (\<forall>e \<in> set (db_events db'). \<not> lease_expired t e)
     \<and> (es = [] \<longrightarrow> (\<forall>e \<in> set (db_events db'). \<not> locked (ev_id e) \<longrightarrow> \<not> claimable t (db_events db') e))"
proof -
  have inv: "outbox_inv db" by (rule ob.reachable_inv [OF assms(1)])
  obtain db1 db' where r: "reclaim_expired t db = Inr db1" and inv1: "outbox_inv db1"
    and db': "db_events db' = upd_where (\<lambda>e. ev_id e \<in> set (claim_candidates locked t (nat limit) (db_events db1)))
           (claim_row owner t lease) (db_events db1)"
    and claim: "claim_batch locked owner (Aware t) limit lease db = Inr (db', sort_key claim_order
           (filter (\<lambda>e. ev_id e \<in> set (claim_candidates locked t (nat limit) (db_events db1))) (db_events db')))"
    by (rule claim_batch_ok [OF inv args clk, of locked])
  let ?ids = "claim_candidates locked t (nat limit) (db_events db1)"
  let ?es = "sort_key claim_order (filter (\<lambda>e. ev_id e \<in> set ?ids) (db_events db'))"
  have "outbox_inv db'" by (rule inv_claim_batch [OF inv claim])
  then have "length ?es \<le> nat limit"
    using length_filter_ids [OF outbox_inv_ids] claim_candidates_length by (metis length_sort order_trans)
  moreover have "\<not> lease_expired t e" if "e \<in> set (db_events db1)" for e
    using that update_events_tables(1) [OF r [unfolded reclaim_expired_def]]
    by (auto simp: set_upd_where settle_row_not_expired)
  then have "\<not> lease_expired t e" if "e \<in> set (db_events db')" for e
    using that args(4) by (auto simp: db' set_upd_where lease_expired_def claim_row_def split: if_splits)
  moreover have "holds_claim owner (ev_claim_epoch e) t e \<and> ev_lease_until e = Some (t + seconds lease)"
    if "e \<in> set ?es" for e
    using that args(4) by (auto simp: db' set_upd_where holds_claim_def claim_row_def)
  moreover have "\<not> claimable t (db_events db') e"
    if "?es = []" and e: "e \<in> set (db_events db')" "\<not> locked (ev_id e)" for e
  proof -
    from that(1) have "filter (\<lambda>e. ev_id e \<in> set ?ids) (db_events db') = []"
      by (metis length_0_conv length_sort)
    from claim_none [OF db' refl this] show ?thesis
      using claim_candidates_Nil [of locked t "nat limit" "db_events db1" e] e args(2) by simp
  qed
  ultimately show ?thesis
    using claim args(2) by (intro exI [of _ db'] exI [of _ ?es]) auto
qed

theorem claim_batch_delivers_witness:
  "\<exists>db' es. claim_batch (\<lambda>_. False) ''w1'' (Aware 10) 5 60 sample_emitted = Inr (db', es)
     \<and> int (length es) \<le> 5 \<and> es \<noteq> []"
proof -
  have "owner_re ''w1''" "clock_ok sample_emitted 10"
    by code_simp+
  from claim_batch_delivers [OF sample_emitted_reachable this(1) _ _ _ _ this(2), of 5 60 "\<lambda>_. False"]
  show ?thesis
    by (simp add: sample_claim_batch)
qed

section \<open>Order and fencing\<close>

text \<open>
  C7: On every reachable outbox, an event that was ever claimed has only completed
  predecessors in its aggregate, so two events of one aggregate are never processed
  at the same time.
\<close>

theorem outbox_in_order:
  assumes "outbox_reachable db" and "e \<in> set (db_events db)" and "p \<in> set (db_events db)"
    and "ev_aggregate_type p = ev_aggregate_type e" and "ev_aggregate_id p = ev_aggregate_id e"
    and "0 < ev_claim_epoch e"
  shows "(ev_aggregate_sequence p < ev_aggregate_sequence e \<longrightarrow> ev_state p = Completed)
     \<and> (ev_state e = Processing \<and> ev_state p = Processing \<longrightarrow> p = e)"
proof (intro conjI impI)
  have inv: "outbox_inv db" by (rule ob.reachable_inv [OF assms(1)])
  have before: "ev_state y = Completed"
    if "x \<in> set (db_events db)" "y \<in> set (db_events db)" "0 < ev_claim_epoch x" "precedes y x" for x y
    using inv that by (auto simp: outbox_inv_defs in_order_def)
  show "ev_state p = Completed" if "ev_aggregate_sequence p < ev_aggregate_sequence e"
    using before [OF assms(2,3,6)] assms(4,5) that by (simp add: precedes_def)
  assume st: "ev_state e = Processing \<and> ev_state p = Processing"
  then have "0 < ev_claim_epoch p"
    using outbox_inv_wf [OF inv assms(3)] by (simp add: event_wf_def)
  then have "\<not> precedes p e" "\<not> precedes e p"
    using before [OF assms(2,3,6)] before [OF assms(3,2)] st by auto
  then have "aggregate_slot p = aggregate_slot e"
    using assms(4,5) by (auto simp: precedes_def aggregate_slot_def)
  then show "p = e"
    using inv assms(2,3) by (auto simp: outbox_inv_defs intro: distinct_key_eq [where key = aggregate_slot])
qed

theorem outbox_in_order_witness:
  "{p \<in> set (db_events sample_claimed). ev_state p = Processing} = {sample_claim}"
proof -
  have m: "sample_claim \<in> set (db_events sample_claimed)" "0 < ev_claim_epoch sample_claim"
    "ev_state sample_claim = Processing"
    by (simp_all add: sample_claimed_def sample_claim_def claim_row_def)
  have "p = sample_claim" if "p \<in> set (db_events sample_claimed)" "ev_state p = Processing" for p
    using outbox_in_order [OF sample_claimed_reachable m(1) that(1) _ _ m(2)] m(3) that
    by (simp add: sample_claimed_def)
  with m show ?thesis by blast
qed

lemma stale_claim_refused:
  assumes "\<not> outbox_holds db i owner epoch t"
  shows "update_claimed i owner epoch t f db = Inl (RuntimeError ''stale outbox claim'')"
proof -
  have "update_events (claim_target i owner epoch t) f db = Inr db" for f
    using assms by (auto simp: update_events_def outbox_holds_def list_ex_iff list_all_iff upd_where_none)
  then show ?thesis
    using assms by (simp add: update_claimed_def outbox_holds_def)
qed

lemma stale_fail_refused:
  assumes "\<not> outbox_holds db i owner epoch t" and "error_re code"
  shows "mark_failed i owner epoch code (Aware t) db = Inl (RuntimeError ''stale outbox claim'')"
proof -
  have "update_events (claim_target i owner epoch t) f db = Inr db" for f
    using assms by (auto simp: update_events_def outbox_holds_def list_ex_iff list_all_iff upd_where_none)
  moreover have "List.find (claim_target i owner epoch t) (db_events db) = None"
    using assms(1) by (simp add: find_None_iff outbox_holds_def list_ex_iff)
  ultimately show ?thesis
    using assms(2) by (simp add: mark_failed_def require_aware_def)
qed

text \<open>
  C8: Fencing. Once a worker has claimed an event under an epoch, no call that carries an
  older epoch of that event succeeds any more, whatever transactions happen in between and
  whoever calls: renewal, completion, failure and receipt are all refused as stale.
\<close>

theorem outbox_fencing:
  assumes "outbox_reachable db" and claim: "claim_batch locked owner now limit lease db = Inr (db', es)"
    and e: "e \<in> set es" and old: "epoch < ev_claim_epoch e" and later: "outbox_step\<^sup>*\<^sup>* db' db''"
  shows "\<not> is_ok (renew_lease (ev_id e) ow epoch moment l db'')
    \<and> \<not> is_ok (mark_completed (ev_id e) ow epoch moment db'')
    \<and> \<not> is_ok (mark_failed (ev_id e) ow epoch code moment db'')
    \<and> \<not> is_ok (record_receipt (ev_id e) ow epoch c k h moment db'')"
proof (intro conjI)
  have inv': "outbox_inv db'" by (rule inv_claim_batch [OF ob.reachable_inv [OF assms(1)] claim])
  have "e \<in> set (db_events db')" using claim e by (auto elim!: claim_batchE)
  then have "outbox_epoch db' (ev_id e) = ev_claim_epoch e"
    by (rule outbox_epoch_row [OF outbox_inv_core [OF inv']])
  with old have stale: "\<not> outbox_holds db'' (ev_id e) ow epoch t" for t
    by (intro ob.stale_never_holds [OF inv' later]) simp
  show "\<not> is_ok (renew_lease (ev_id e) ow epoch moment l db'')"
    using stale by (auto simp: is_ok_iff elim!: renew_leaseE)
  show "\<not> is_ok (mark_completed (ev_id e) ow epoch moment db'')"
    using stale by (auto simp: is_ok_iff elim!: mark_completedE)
  show "\<not> is_ok (mark_failed (ev_id e) ow epoch code moment db'')"
    using stale by (auto simp: is_ok_iff outbox_holds_def list_ex_iff find_Some_iff elim!: mark_failedE)
  show "\<not> is_ok (record_receipt (ev_id e) ow epoch c k h moment db'')"
    using stale by (auto simp: is_ok_iff outbox_holds_def elim!: record_receipt_insert)
qed

theorem outbox_fencing_witness:
  "1 < ev_claim_epoch sample_taken \<and> \<not> is_ok (mark_completed 7 ''w1'' 1 (Aware 20) sample_taken_over)"
proof -
  have e: "ev_id sample_taken = 7" "1 < ev_claim_epoch sample_taken"
    by code_simp+
  from outbox_fencing [OF sample_claimed_reachable sample_take_over _ e(2) rtranclp.rtrancl_refl,
      of "''w1''" "Aware 20"] e
  show ?thesis by simp
qed

section \<open>Effective-once receipts\<close>

lemma insert_receipt_mono:
  "insert_receipt r db = Inr (db', b) \<Longrightarrow> set (db_receipts db) \<subseteq> set (db_receipts db')"
  by (auto simp: insert_receipt_def split: if_splits)

lemma receipts_kept_step:
  assumes "outbox_step db db'"
  shows "set (db_receipts db) \<subseteq> set (db_receipts db')"
  using assms
proof cases
  case step_emit
  then show ?thesis by (auto simp: emit_event_internal_def Let_def split: if_splits option.splits)
next
  case step_claim
  then show ?thesis
    by (rule claim_batchE) (simp add: reclaim_expired_def update_events_tables)
next
  case step_renew
  then show ?thesis by (rule renew_leaseE) (simp add: update_events_tables)
next
  case step_receipt
  then show ?thesis by (rule record_receipt_insert) (erule insert_receipt_mono)
next
  case step_complete
  then show ?thesis by (rule mark_completedE) (simp add: update_events_tables)
next
  case step_fail
  then show ?thesis by (rule mark_failedE) (simp add: update_events_tables)
next
  case step_replay
  then show ?thesis by (rule replay_deadE) (simp add: update_events_tables)
qed

lemma receipts_kept: "outbox_step\<^sup>*\<^sup>* db db' \<Longrightarrow> set (db_receipts db) \<subseteq> set (db_receipts db')"
  by (induction rule: rtranclp_induct) (auto dest: receipts_kept_step)

lemma record_receipt_repeat:
  assumes inv: "outbox_inv db" and r: "r \<in> set (db_receipts db)" "rc_event_id r = i" "rc_consumer r = c"
    and rec: "record_receipt i ow ep c k h t db = Inr (db', b)"
  shows "db' = db \<and> \<not> b \<and> rc_domain_generation_key r = k \<and> rc_effect_sha256 r = h"
proof -
  let ?P = "\<lambda>q. rc_event_id q = i \<and> rc_consumer q = c"
  from inv have d: "distinct (map (\<lambda>r. (rc_event_id r, rc_consumer r)) (db_receipts db))"
    by (simp add: outbox_inv_defs receipts_inv_def)
  obtain q where q: "List.find ?P (db_receipts db) = Some q"
    using r by (cases "List.find ?P (db_receipts db)") (auto simp: find_None_iff)
  then have "q = r"
    using r distinct_key_eq [OF d, of q r] by (auto simp: find_Some_iff)
  moreover have "list_ex (\<lambda>q. rc_event_id q = i \<and> rc_consumer q = c
      \<or> rc_consumer q = c \<and> rc_domain_generation_key q = k) (db_receipts db)"
    using r by (auto simp: list_ex_iff)
  ultimately show ?thesis
    using rec q by (auto simp: record_receipt_def insert_receipt_def res_simps split: if_splits)
qed

text \<open>
  C23: Effective-once. Once a consumer's receipt of an event is recorded, every later
  successful call for the same event and consumer, by any worker after any transactions,
  reports a duplicate, changes nothing, and carries the recorded key and digest: a
  receipt with another effect is always refused.
\<close>

theorem receipt_effective_once:
  assumes "outbox_reachable db" and first: "record_receipt i ow ep c k h t db = Inr (db1, True)"
    and later: "outbox_step\<^sup>*\<^sup>* db1 db2"
    and again: "record_receipt i ow' ep' c k' h' t' db2 = Inr (db3, b)"
  shows "\<not> b \<and> db3 = db2 \<and> k' = k \<and> h' = h"
  using first
proof (rule record_receipt_insert)
  fix s
  let ?r = "\<lparr> rc_event_id = i, rc_consumer = c, rc_domain_generation_key = k,
          rc_effect_sha256 = h, rc_received_at = s \<rparr>"
  assume ins: "insert_receipt ?r db = Inr (db1, True)"
  have "outbox_inv db2"
    by (rule ob.inv_steps [OF later inv_receipt [OF ob.reachable_inv [OF assms(1)] first]])
  moreover have "?r \<in> set (db_receipts db2)"
    using ins receipts_kept [OF later] by (auto simp: insert_receipt_def split: if_splits)
  ultimately show ?thesis
    using record_receipt_repeat [OF _ _ _ _ again, of ?r] by auto
qed

theorem receipt_effective_once_witness:
  "\<exists>db'. record_receipt 7 ''w1'' 1 ''targets'' ''targets:k'' sample_hash (Aware 20) sample_claimed = Inr (db', True)
     \<and> record_receipt 7 ''w1'' 1 ''targets'' ''targets:k'' sample_hash (Aware 30) db' = Inr (db', False)"
proof -
  let ?db = "sample_claimed\<lparr>db_receipts := [\<lparr> rc_event_id = 7, rc_consumer = ''targets'',
      rc_domain_generation_key = ''targets:k'', rc_effect_sha256 = sample_hash, rc_received_at = 20 \<rparr>]\<rparr>"
  let ?again = "record_receipt 7 ''w1'' 1 ''targets'' ''targets:k'' sample_hash (Aware 30) ?db"
  have r1: "record_receipt 7 ''w1'' 1 ''targets'' ''targets:k'' sample_hash (Aware 20) sample_claimed = Inr (?db, True)"
    by code_simp
  have "is_ok ?again" by code_simp
  then obtain d b where r2: "?again = Inr (d, b)"
    by (auto simp: is_ok_iff)
  from receipt_effective_once [OF sample_claimed_reachable r1 rtranclp.rtrancl_refl r2] r1 r2
  show ?thesis by (intro exI [of _ ?db]) auto
qed

section \<open>Outcomes of a claim holder's calls\<close>

lemma holds_row:
  assumes inv: "outbox_inv db" and "outbox_holds db i ow ep t"
  obtains e where "row_by ev_id i (db_events db) = Some e" and "e \<in> set (db_events db)" and "ev_id e = i"
    and "holds_claim ow ep t e"
    and "List.find (claim_target i ow ep t) (db_events db) = Some e"
proof -
  from assms(2) obtain e where e: "e \<in> set (db_events db)" "ev_id e = i" "holds_claim ow ep t e"
    by (auto simp: outbox_holds_def list_ex_iff claim_target_def)
  note d = outbox_inv_ids [OF inv]
  obtain x where x: "List.find (claim_target i ow ep t) (db_events db) = Some x"
    using e by (cases "List.find (claim_target i ow ep t) (db_events db)")
      (auto simp: find_None_iff claim_target_def)
  then have "x \<in> set (db_events db)" "ev_id x = i"
    by (auto simp: find_Some_iff claim_target_def)
  then have "x = e" using e distinct_key_eq [OF d] by blast
  with x e row_by_unique [OF d e(1,2)] show ?thesis by (intro that) auto
qed

lemma row_by_claimed_update:
  assumes "row_by ev_id i (db_events db) = Some e" and "holds_claim ow ep t e"
    and "\<And>x. ev_id (f x) = ev_id x" and "ev_id e = i"
  shows "row_by ev_id i (upd_where (claim_target i ow ep t) f (db_events db)) = Some (f e)"
  using assms by (simp add: row_by_upd_where claim_target_def)

lemma fail_update_ok:
  assumes "outbox_inv db" and "clock_ok db t" and "error_re code"
  shows "update_events (claim_target i ow ep t) (fail_row db code t) db =
     Inr (db\<lparr>db_events := upd_where (claim_target i ow ep t) (fail_row db code t) (db_events db)\<rparr>)"
  by (rule claimed_update_ok [OF assms(1,2)])
    (use assms(3) in \<open>auto simp: fail_row_def claim_target_def dest: holds_claim_Processing
      intro: guard_settle_row event_wf_checks settle_row_wf\<close>)

lemma fail_row_outcome:
  assumes "event_wf e" and "ev_state e = Processing"
  shows "ev_claim_owner (fail_row db code t e) = None \<and> ev_lease_until (fail_row db code t e) = None
     \<and> (if receipt_at db (ev_id e) \<noteq> None
        then ev_state (fail_row db code t e) = Completed \<and> ev_completed_at (fail_row db code t e) = receipt_at db (ev_id e)
        else if ev_attempt_count e = 8 then ev_state (fail_row db code t e) = Dead \<and> ev_dead_at (fail_row db code t e) = Some t
        else ev_state (fail_row db code t e) = Pending
          \<and> ev_available_at (fail_row db code t e) = t + seconds (RETRY_DELAYS_SECONDS ! (ev_attempt_count e - 1)))"
proof -
  have att: "0 < ev_attempt_count e" "ev_attempt_count e \<le> 8" "ev_completed_at e = None"
    using assms by (auto simp: event_wf_def event_checks_def state_shape_def)
  then have "ev_attempt_count e \<in> {1, 2, 3, 4, 5, 6, 7, 8}" by auto
  then have "retry_delay (ev_attempt_count e) = RETRY_DELAYS_SECONDS ! (ev_attempt_count e - 1)"
    by (auto simp: retry_delay_def RETRY_DELAYS_SECONDS_def)
  with att(3) show ?thesis by (simp add: fail_row_def settle_row_def)
qed

text \<open>
  The outcome of a failed delivery. A holder's failure report is never refused; the
  event is completed when a receipt of it exists, dead when this was attempt 8, and
  otherwise pending again exactly \<open>RETRY_DELAYS_SECONDS[attempt - 1]\<close> seconds later; the
  claim is released in each case.
\<close>

theorem mark_failed_outcome:
  assumes "outbox_reachable db" and "clock_ok db t" and "error_re code"
    and "outbox_holds db i ow ep t"
  shows "\<exists>db' e e'. row_by ev_id i (db_events db) = Some e \<and> row_by ev_id i (db_events db') = Some e'
     \<and> mark_failed i ow ep code (Aware t) db = Inr (db', ev_state e')
     \<and> ev_claim_owner e' = None \<and> ev_lease_until e' = None
     \<and> (if receipt_at db i \<noteq> None then ev_state e' = Completed \<and> ev_completed_at e' = receipt_at db i
        else if ev_attempt_count e = 8 then ev_state e' = Dead \<and> ev_dead_at e' = Some t
        else ev_state e' = Pending
          \<and> ev_available_at e' = t + seconds (RETRY_DELAYS_SECONDS ! (ev_attempt_count e - 1)))"
proof -
  have inv: "outbox_inv db" by (rule ob.reachable_inv [OF assms(1)])
  obtain e where e: "row_by ev_id i (db_events db) = Some e" "e \<in> set (db_events db)" "ev_id e = i"
    "holds_claim ow ep t e" "List.find (claim_target i ow ep t) (db_events db) = Some e"
    by (rule holds_row [OF inv assms(4)])
  let ?db' = "db\<lparr>db_events := upd_where (claim_target i ow ep t) (fail_row db code t) (db_events db)\<rparr>"
  let ?e' = "fail_row db code t e"
  have wf: "event_wf e" "ev_state e = Processing"
    using outbox_inv_wf [OF inv e(2)] holds_claim_Processing [OF e(4)] by auto
  have "mark_failed i ow ep code (Aware t) db = Inr (?db', ev_state ?e')"
    using fail_update_ok [OF inv assms(2,3)] assms(3) e(5) by (simp add: mark_failed_def require_aware_def)
  moreover have "row_by ev_id i (db_events ?db') = Some ?e'"
    using row_by_claimed_update [OF e(1,4) _ e(3)] by simp
  ultimately show ?thesis
    using e(1) fail_row_outcome [OF wf, of db code t] unfolding e(3) by blast
qed

theorem mark_failed_outcome_witness:
  "\<exists>db' e'. mark_failed 7 ''w1'' 1 ''boom'' (Aware 20) sample_claimed = Inr (db', Pending)
     \<and> row_by ev_id 7 (db_events db') = Some e' \<and> ev_available_at e' = 20 + seconds 5"
proof -
  have h: "clock_ok sample_claimed 20" "error_re ''boom''" "outbox_holds sample_claimed 7 ''w1'' 1 20"
      "receipt_at sample_claimed 7 = None"
    by code_simp+
  have row: "row_by ev_id 7 (db_events sample_claimed) = Some sample_claim" "ev_attempt_count sample_claim = 1"
    by code_simp+
  from mark_failed_outcome [OF sample_claimed_reachable h(1-3)] h(4) row show ?thesis
    by (auto simp: RETRY_DELAYS_SECONDS_def)
qed

lemma claimed_update_others:
  assumes "\<And>x. ev_id (f x) = ev_id x" and "j \<noteq> i"
  shows "row_by ev_id j (upd_where (claim_target i ow ep t) f es) = row_by ev_id j es"
  using assms by (auto simp: row_by_upd_where claim_target_def split: option.splits dest: row_by_SomeD
      intro!: option.map_ident_strong)

lemma clock_ok_update:
  "clock_ok db t \<Longrightarrow> (\<And>e. ev_updated_at (f e) \<le> t) \<Longrightarrow> clock_ok (db\<lparr>db_events := upd_where P f (db_events db)\<rparr>) t"
  by (auto simp: clock_ok_def list_all_iff set_upd_where)

lemma renew_accepted:
  assumes inv: "outbox_inv db" and "clock_ok db t" and h: "outbox_holds db i ow ep t"
    and "owner_re ow" and "1 \<le> l" and "l \<le> 3600"
  obtains db' where "renew_lease i ow ep (Aware t) l db = Inr db'" and "clock_ok db' t"
    and "\<And>s. s < t + seconds l \<Longrightarrow> outbox_holds db' i ow ep s" and "db_receipts db' = db_receipts db"
    and "\<And>j. j \<noteq> i \<Longrightarrow> row_by ev_id j (db_events db') = row_by ev_id j (db_events db)"
proof -
  let ?P = "claim_target i ow ep t"
  obtain e where e: "e \<in> set (db_events db)" "ev_id e = i" "holds_claim ow ep t e"
    using holds_row [OF inv h] by blast
  let ?r = "db\<lparr>db_events := upd_where ?P (renew_row t l) (db_events db)\<rparr>"
  have "update_events ?P (renew_row t l) db = Inr ?r"
    by (rule claimed_update_ok [OF inv assms(2)])
      (auto simp: claim_target_def dest: holds_claim_Processing intro: guard_renew_row event_wf_checks renew_row_wf)
  then have "renew_lease i ow ep (Aware t) l db = Inr ?r"
    using assms(3-6) by (simp add: renew_lease_def require_aware_def update_claimed_def outbox_holds_def)
  moreover have "renew_row t l e \<in> set (db_events ?r)"
    using e by (force simp: set_upd_where claim_target_def)
  then have "outbox_holds ?r i ow ep s" if "s < t + seconds l" for s
    unfolding outbox_holds_def list_ex_iff using e(2,3) that
    by (intro bexI [of _ "renew_row t l e"]) (auto simp: claim_target_def holds_claim_def renew_row_def)
  moreover have "clock_ok ?r t"
    by (rule clock_ok_update [OF assms(2)]) (simp add: renew_row_def)
  ultimately show ?thesis
    using that [of ?r] claimed_update_others [of "renew_row t l"] by simp
qed

lemma complete_accepted:
  assumes inv: "outbox_inv db" and "clock_ok db t" and h: "outbox_holds db i ow ep t"
  obtains db' e where "mark_completed i ow ep (Aware t) db = Inr db'"
    and "row_by ev_id i (db_events db') = Some e" and "ev_state e = Completed" and "ev_completed_at e = Some t"
    and "\<And>j. j \<noteq> i \<Longrightarrow> row_by ev_id j (db_events db') = row_by ev_id j (db_events db)"
proof -
  let ?P = "claim_target i ow ep t"
  obtain e where e: "row_by ev_id i (db_events db) = Some e" "ev_id e = i" "holds_claim ow ep t e"
    using holds_row [OF inv h] by blast
  let ?c = "db\<lparr>db_events := upd_where ?P (complete_row t) (db_events db)\<rparr>"
  have "update_events ?P (complete_row t) db = Inr ?c"
    by (rule claimed_update_ok [OF inv assms(2)])
      (auto simp: claim_target_def dest: holds_claim_Processing intro: guard_complete_row event_wf_checks complete_row_wf)
  then have "mark_completed i ow ep (Aware t) db = Inr ?c"
    using h by (simp add: mark_completed_def require_aware_def update_claimed_def outbox_holds_def)
  then show ?thesis
    using that [of ?c "complete_row t e"] row_by_claimed_update [OF e(1,3) _ e(2), of "complete_row t"]
      claimed_update_others [of "complete_row t"] by (simp add: complete_row_def)
qed

text \<open>
  A holder with a live lease is never refused by the database: renewing extends the
  lease to the requested instant and keeps the claim, completing makes the event completed
  for ever, and no other row of the outbox changes.
\<close>

theorem holder_operations_accepted:
  assumes "outbox_reachable db" and "clock_ok db t" and "outbox_holds db i ow ep t"
    and "owner_re ow" and "1 \<le> l" and "l \<le> 3600"
  shows "(\<exists>db'. renew_lease i ow ep (Aware t) l db = Inr db' \<and> outbox_holds db' i ow ep (t + seconds l - 1)
       \<and> (\<forall>j. j \<noteq> i \<longrightarrow> row_by ev_id j (db_events db') = row_by ev_id j (db_events db)))
     \<and> (\<exists>db' e. mark_completed i ow ep (Aware t) db = Inr db' \<and> row_by ev_id i (db_events db') = Some e
       \<and> ev_state e = Completed \<and> ev_completed_at e = Some t
       \<and> (\<forall>j. j \<noteq> i \<longrightarrow> row_by ev_id j (db_events db') = row_by ev_id j (db_events db)))"
proof (intro conjI)
  have inv: "outbox_inv db" by (rule ob.reachable_inv [OF assms(1)])
  show "\<exists>db'. renew_lease i ow ep (Aware t) l db = Inr db' \<and> outbox_holds db' i ow ep (t + seconds l - 1)
       \<and> (\<forall>j. j \<noteq> i \<longrightarrow> row_by ev_id j (db_events db') = row_by ev_id j (db_events db))"
    by (rule renew_accepted [OF inv assms(2-6)]) auto
  show "\<exists>db' e. mark_completed i ow ep (Aware t) db = Inr db' \<and> row_by ev_id i (db_events db') = Some e
       \<and> ev_state e = Completed \<and> ev_completed_at e = Some t
       \<and> (\<forall>j. j \<noteq> i \<longrightarrow> row_by ev_id j (db_events db') = row_by ev_id j (db_events db))"
    by (rule complete_accepted [OF inv assms(2,3)]) auto
qed

theorem holder_operations_accepted_witness:
  "\<exists>db'. renew_lease 7 ''w1'' 1 (Aware 20) 90 sample_claimed = Inr db'
      \<and> outbox_holds db' 7 ''w1'' 1 (20 + seconds 90 - 1)"
proof -
  have h: "clock_ok sample_claimed 20" "outbox_holds sample_claimed 7 ''w1'' 1 20" "owner_re ''w1''"
    by code_simp+
  from holder_operations_accepted [OF sample_claimed_reachable h, of 90] show ?thesis by auto
qed

section \<open>Producing and replaying\<close>

text \<open>No transaction ever loses an event or changes its identity.\<close>

lemma events_kept_update:
  assumes "update_events P f db = Inr db'" and "e \<in> set (db_events db)"
  shows "\<exists>e' \<in> set (db_events db'). same_identity e e'"
  using upd_row_guarded(1) [OF assms] assms(2) update_events_tables(1) [OF assms(1)]
  by (auto simp: upd_where_upd_row)

lemma same_identity_trans: "same_identity a b \<Longrightarrow> same_identity b c \<Longrightarrow> same_identity a c"
  by (simp add: same_identity_def)

lemma events_kept_claim:
  assumes "claim_batch locked owner now limit lease db = Inr (db', es)" and e: "e \<in> set (db_events db)"
  shows "\<exists>e' \<in> set (db_events db'). same_identity e e'"
  using assms(1)
proof (rule claim_batchE)
  fix t db1 ids
  assume r: "reclaim_expired t db = Inr db1"
    and u: "update_events (\<lambda>e. ev_id e \<in> set ids) (claim_row owner t lease) db1 = Inr db'"
  from events_kept_update [OF r [unfolded reclaim_expired_def] e] obtain x
    where "x \<in> set (db_events db1)" "same_identity e x" by blast
  with events_kept_update [OF u] show ?thesis by (blast intro: same_identity_trans)
qed

lemma events_kept_step:
  assumes "outbox_step db db'" and e: "e \<in> set (db_events db)"
  shows "\<exists>e' \<in> set (db_events db'). same_identity e e'"
  using assms(1)
proof cases
  case step_emit
  with e have "e \<in> set (db_events db')"
    by (auto simp: emit_event_internal_def Let_def split: if_splits option.splits)
  then show ?thesis by (blast intro: same_identity_refl)
next
  case step_claim
  then show ?thesis by (rule events_kept_claim [OF _ e])
next
  case step_renew
  then show ?thesis by (rule renew_leaseE) (erule events_kept_update [OF _ e])
next
  case step_receipt
  then show ?thesis
    by (rule record_receipt_insert) (metis e insert_receipt_events same_identity_refl)
next
  case step_complete
  then show ?thesis by (rule mark_completedE) (erule events_kept_update [OF _ e])
next
  case step_fail
  then show ?thesis by (rule mark_failedE) (erule events_kept_update [OF _ e])
next
  case step_replay
  then show ?thesis by (rule replay_deadE) (erule events_kept_update, simp add: e)
qed

lemma events_kept:
  "outbox_step\<^sup>*\<^sup>* db db' \<Longrightarrow> e \<in> set (db_events db) \<Longrightarrow> \<exists>e' \<in> set (db_events db'). same_identity e e'"
  by (induction rule: rtranclp_induct)
    (blast intro: same_identity_refl same_identity_trans dest: events_kept_step)+

definition emitted_as :: "(outbox_payload \<Rightarrow> string) \<Rightarrow> outbox_payload \<Rightarrow> nat \<Rightarrow> outbox_event \<Rightarrow> bool" where
  "emitted_as sha p j e \<longleftrightarrow> ev_id e = j
     \<and> ev_event_key e = event_key_of (pl_event_schema p) (pl_aggregate_id p) (pl_generation_hash p) (pl_revision p)
     \<and> ev_event_type e = pl_event_schema p \<and> ev_aggregate_type e = pl_aggregate_type p
     \<and> ev_aggregate_id e = pl_aggregate_id p \<and> ev_generation_hash e = pl_generation_hash p
     \<and> ev_revision e = pl_revision p \<and> ev_payload e = p \<and> ev_payload_sha256 e = sha p
     \<and> ev_occurred_at e = pl_occurred_at p"

lemma emit_emitted_as:
  assumes "emit_event_internal sha i now p db = Inr (db', j)"
  shows "producer_contract p \<and> (\<exists>e \<in> set (db_events db'). emitted_as sha p j e)"
  using assms
  by (auto simp: emit_event_internal_def Let_def emitted_as_def new_event_def
      split: if_splits option.splits dest!: row_by_SomeD)

lemma emitted_as_identity: "same_identity e e' \<Longrightarrow> emitted_as sha p j e \<Longrightarrow> emitted_as sha p j e'"
  by (simp add: same_identity_def emitted_as_def)

text \<open>
  The producer is idempotent. After a successful emission, emitting the same payload
  again at any later time, after any transactions, succeeds with the same event id and
  leaves the outbox unchanged.
\<close>

theorem emit_idempotent:
  assumes "outbox_reachable db" and emit: "emit_event_internal sha i now p db = Inr (db1, j)"
    and later: "outbox_step\<^sup>*\<^sup>* db1 db2"
  shows "emit_event_internal sha i' now' p db2 = Inr (db2, j)"
proof -
  let ?key = "event_key_of (pl_event_schema p) (pl_aggregate_id p) (pl_generation_hash p) (pl_revision p)"
  have inv: "outbox_inv db2"
    by (rule ob.inv_steps [OF later inv_emit [OF ob.reachable_inv [OF assms(1)] emit]])
  obtain e where e: "e \<in> set (db_events db2)" "emitted_as sha p j e"
    using emit_emitted_as [OF emit] events_kept [OF later] emitted_as_identity by blast
  then have "row_by ev_event_key ?key (db_events db2) = Some e"
    using inv by (intro row_by_unique) (auto simp: outbox_inv_defs emitted_as_def)
  with e(2) emit_emitted_as [OF emit] show ?thesis
    by (simp add: emit_event_internal_def Let_def emitted_as_def)
qed

theorem emit_idempotent_witness:
  "emit_event_internal (\<lambda>_. sample_hash) 99 50 sample_payload sample_claimed = Inr (sample_claimed, 7)"
proof -
  have empty: "outbox_reachable \<lparr>db_events = [], db_receipts = [], db_replays = []\<rparr>"
    by (rule reach_init) (simp add: outbox_empty_def)
  have "outbox_step\<^sup>*\<^sup>* sample_emitted sample_claimed"
    by (rule r_into_rtranclp) (rule step_claim [OF sample_claim_batch])
  from emit_idempotent [OF empty sample_emit this] show ?thesis .
qed

lemma replay_update_ok:
  assumes inv: "outbox_inv db" and clk: "clock_ok db t" and e: "e \<in> set (db_events db)" "ev_id e = i"
    and r: "rp_event_id r = i" "rp_replay_number r = ev_replay_count e + 1"
      "rp_previous_attempt_count r = 8" "rp_previous_dead_at r = ev_dead_at e"
  shows "update_events (\<lambda>x. ev_id x = i \<and> ev_state x = Dead) (replay_row (ev_replay_count e + 1) t)
       (db\<lparr>db_replays := db_replays db @ [r]\<rparr>) = Inr (db\<lparr>db_replays := db_replays db @ [r],
         db_events := upd_where (\<lambda>x. ev_id x = i \<and> ev_state x = Dead)
            (replay_row (ev_replay_count e + 1) t) (db_events db)\<rparr>)"
proof -
  have ok: "guard_event_mutation (db_replays db @ [r]) x (replay_row (ev_replay_count e + 1) t x)
      \<and> event_checks (replay_row (ev_replay_count e + 1) t x)"
    if x: "x \<in> set (db_events db)" "ev_id x = i \<and> ev_state x = Dead" for x
  proof -
    have "x = e" using x e by (intro distinct_key_eq [OF outbox_inv_ids [OF inv]]) auto
    have wf: "event_wf e" using outbox_inv_wf [OF inv e(1)] .
    then have "ev_attempt_count e = 8" "ev_state e = Dead"
      using x \<open>x = e\<close> by (auto simp: event_wf_def event_checks_def state_shape_def)
    then show ?thesis
      using r clock_okD [OF clk e(1)] e(2) wf unfolding \<open>x = e\<close>
      by (auto simp: guard_event_mutation_def intro: event_wf_checks replay_row_wf) (simp_all add: replay_row_def)
  qed
  then show ?thesis
    by (subst update_events_ok) (simp_all add: ok)
qed

text \<open>
  Replay. For an existing event and valid arguments, \<open>replay_dead\<close> succeeds exactly on
  a dead event. It then makes the event pending at once with a fresh budget of attempts,
  keeps its claim epoch, so that workers fenced before stay fenced, and appends one audit
  row with the next replay number and the instant of death.
\<close>

theorem replay_dead_outcome:
  assumes "outbox_reachable db" and "clock_ok db t" and "error_re reason" and "is_sha256 actor"
    and row: "row_by ev_id i (db_events db) = Some e"
  shows "(ev_state e \<noteq> Dead \<longrightarrow> replay_dead i reason actor (Aware t) db
       = Inl (RuntimeError ''only an exact dead outbox event can be replayed''))
    \<and> (ev_state e = Dead \<longrightarrow> (\<exists>db' e' a. replay_dead i reason actor (Aware t) db = Inr (db', ev_replay_count e + 1)
       \<and> row_by ev_id i (db_events db') = Some e' \<and> ev_state e' = Pending \<and> ev_attempt_count e' = 0
       \<and> ev_available_at e' = t \<and> ev_claim_epoch e' = ev_claim_epoch e
       \<and> ev_replay_count e' = ev_replay_count e + 1
       \<and> db_replays db' = db_replays db @ [a] \<and> rp_event_id a = i
       \<and> rp_replay_number a = ev_replay_count e + 1 \<and> rp_previous_dead_at a = ev_dead_at e))"
proof (intro conjI impI)
  have inv: "outbox_inv db" by (rule ob.reachable_inv [OF assms(1)])
  from row have e: "e \<in> set (db_events db)" "ev_id e = i" by (auto dest: row_by_SomeD)
  show "replay_dead i reason actor (Aware t) db
       = Inl (RuntimeError ''only an exact dead outbox event can be replayed'')" if "ev_state e \<noteq> Dead"
    using assms(3,4) row that by (simp add: replay_dead_def require_aware_def)
  assume dead: "ev_state e = Dead"
  let ?r = "\<lparr> rp_event_id = i, rp_replay_number = ev_replay_count e + 1, rp_previous_attempt_count = 8,
      rp_previous_dead_at = ev_dead_at e, rp_reason = reason,
      rp_requested_by_sub_sha256 = actor, rp_requested_at = t \<rparr>"
  let ?P = "\<lambda>x. ev_id x = i \<and> ev_state x = Dead" and ?f = "replay_row (ev_replay_count e + 1) t"
  have shape: "ev_attempt_count e = 8" "ev_dead_at e \<noteq> None"
    using outbox_inv_wf [OF inv e(1)] dead by (auto simp: event_wf_def event_checks_def state_shape_def)
  have "(i, ev_replay_count e + 1) \<notin> set (map (\<lambda>r. (rp_event_id r, rp_replay_number r)) (db_replays db))"
    using inv_add_replay [OF inv e(1), of ?r] e(2) by simp
  then have "\<not> list_ex (\<lambda>r. rp_event_id r = i \<and> rp_replay_number r = ev_replay_count e + 1) (db_replays db)"
    by (force simp: list_ex_iff)
  then have "replay_dead i reason actor (Aware t) db = Inr (db\<lparr>db_replays := db_replays db @ [?r],
       db_events := upd_where ?P ?f (db_events db)\<rparr>, ev_replay_count e + 1)"
    using assms(3,4) row dead shape replay_update_ok [OF inv assms(2) e, of ?r]
    by (simp add: replay_dead_def require_aware_def Let_def)
  moreover have "row_by ev_id i (upd_where ?P ?f (db_events db)) = Some (?f e)"
    using row e(2) dead by (simp add: row_by_upd_where)
  ultimately show "\<exists>db' e' a. replay_dead i reason actor (Aware t) db = Inr (db', ev_replay_count e + 1)
       \<and> row_by ev_id i (db_events db') = Some e' \<and> ev_state e' = Pending \<and> ev_attempt_count e' = 0
       \<and> ev_available_at e' = t \<and> ev_claim_epoch e' = ev_claim_epoch e
       \<and> ev_replay_count e' = ev_replay_count e + 1
       \<and> db_replays db' = db_replays db @ [a] \<and> rp_event_id a = i
       \<and> rp_replay_number a = ev_replay_count e + 1 \<and> rp_previous_dead_at a = ev_dead_at e"
    by (intro exI [of _ "db\<lparr>db_replays := db_replays db @ [?r], db_events := upd_where ?P ?f (db_events db)\<rparr>"]
        exI [of _ "?f e"] exI [of _ ?r]) (simp add: replay_row_def)
qed

text \<open>Nine rounds of claims, whose leases all expire, kill the sample event.\<close>

definition sample_round :: "nat \<Rightarrow> outbox_db" where
  "sample_round n = (let t = seconds (100 * int n) in \<lparr>db_events = [sample_event\<lparr>
     ev_state := Processing, ev_attempt_count := n, ev_available_at := (if n = 1 then 0 else t),
     ev_claim_owner := Some ''w1'', ev_claim_epoch := n, ev_lease_until := Some (t + seconds 60),
     ev_claimed_at := Some t,
     ev_last_error_code := (if n = 1 then None else Some ''lease_expired''),
     ev_last_error_at := (if n = 1 then None else Some t), ev_updated_at := t\<rparr>],
     db_receipts = [], db_replays = []\<rparr>)"

definition sample_dead :: outbox_db where
  "sample_dead = (sample_round 8)\<lparr>db_events :=
     [settle_row ''lease_expired'' (seconds 900) (seconds 900) None (hd (db_events (sample_round 8)))]\<rparr>"

definition sample_next :: "nat \<Rightarrow> outbox_db \<Rightarrow> outbox_db option" where
  "sample_next n db = (case claim_batch (\<lambda>_. False) ''w1'' (Aware (seconds (100 * int n))) 5 60 db of
     Inl _ \<Rightarrow> None | Inr (db', _) \<Rightarrow> Some db')"

lemma sample_next_reachable: "outbox_reachable db \<Longrightarrow> sample_next n db = Some db' \<Longrightarrow> outbox_reachable db'"
  by (auto simp: sample_next_def split: sum.splits intro: reach_step step_claim)

lemma sample_first_round: "sample_next 1 sample_emitted = Some (sample_round 1)"
  by code_simp

lemma sample_rounds: "list_all (\<lambda>n. sample_next (Suc n) (sample_round n) = Some (sample_round (Suc n))) [1, 2, 3, 4, 5, 6, 7]"
  by code_simp

lemma sample_last_round: "sample_next 9 (sample_round 8) = Some sample_dead"
  by code_simp

lemma sample_round_reachable: "n \<le> 7 \<Longrightarrow> outbox_reachable (sample_round (Suc n))"
proof (induction n)
  case 0
  show ?case
    using sample_next_reachable [OF sample_emitted_reachable sample_first_round] by simp
next
  case (Suc n)
  then have "Suc n \<in> set [1, 2, 3, 4, 5, 6, 7]" by auto
  with sample_rounds have "sample_next (Suc (Suc n)) (sample_round (Suc n)) = Some (sample_round (Suc (Suc n)))"
    unfolding list_all_iff by blast
  with Suc show ?case by (metis Suc_leD sample_next_reachable)
qed

lemma sample_dead_reachable: "outbox_reachable sample_dead"
  using sample_next_reachable [OF _ sample_last_round] sample_round_reachable [of 7] by simp

theorem replay_dead_outcome_witness:
  "\<exists>e db'. row_by ev_id 7 (db_events sample_dead) = Some e \<and> ev_state e = Dead
     \<and> replay_dead 7 ''operator'' sample_hash (Aware (seconds 1000)) sample_dead = Inr (db', 1)"
proof -
  have h: "clock_ok sample_dead (seconds 1000)" "error_re ''operator''" "is_sha256 sample_hash"
    by code_simp+
  have "map_option (\<lambda>e. (ev_state e, ev_replay_count e)) (row_by ev_id 7 (db_events sample_dead)) = Some (Dead, 0)"
    by code_simp
  then obtain e where e: "row_by ev_id 7 (db_events sample_dead) = Some e" "ev_state e = Dead" "ev_replay_count e = 0"
    by auto
  from replay_dead_outcome [OF sample_dead_reachable h e(1)] e show ?thesis by auto
qed

end
