(* ===== verification/Outbox_Worker.thy ===== *)
theory Outbox_Worker
  imports Outbox_Correctness
begin

text \<open>
  The outbox dispatcher of \<^verbatim>\<open>backend/services/outbox_worker.py\<close>. Every await of
  \<^verbatim>\<open>_deliver_claimed\<close> is a point where other coroutines and other workers run, so a
  delivery is a small-step machine: one step is the code between two awaits with at most
  one repository transaction in it. A dispatch interleaves the deliveries of one batch,
  their heartbeats and the transactions of everybody else. The instants read from
  \<^verbatim>\<open>_utc_now\<close> are arguments of the steps, and a consumer is a function of the event.
\<close>

section \<open>Consumer receipts\<close>

datatype py_value = PyStr string | PyOther

datatype consumer_value = NotMapping | PyMapping "(string \<times> py_value) list"

type_synonym receipt_tuple = "string \<times> string \<times> string"

definition receipt_field :: "string \<Rightarrow> (string \<times> py_value) list \<Rightarrow> string" where
  "receipt_field k m = (case map_of m k of Some (PyStr s) \<Rightarrow> s | _ \<Rightarrow> [])"

definition validated_receipt :: "consumer_value \<Rightarrow> (outbox_error, receipt_tuple) result" where
  "validated_receipt v = (case v of
     NotMapping \<Rightarrow> Inl (RuntimeError ''outbox consumer returned an invalid receipt'')
   | PyMapping m \<Rightarrow>
       if set (map fst m) \<noteq> {''consumer'', ''domain_generation_key'', ''effect_sha256''}
         then Inl (RuntimeError ''outbox consumer receipt shape is invalid'') else
       if \<not> list_all (\<lambda>(_, x). case x of PyStr _ \<Rightarrow> True | PyOther \<Rightarrow> False) m
         then Inl (RuntimeError ''outbox consumer receipt values are invalid'') else
       Inr (receipt_field ''consumer'' m, receipt_field ''domain_generation_key'' m,
            receipt_field ''effect_sha256'' m))"

type_synonym consumer = "outbox_event \<Rightarrow> (outbox_error, consumer_value) result"

text \<open>
  \<open>sha256_json\<close> stands for the SHA-256 hex digest of the sorted compact JSON object of the
  consumer, the generation key and the event type.
\<close>

definition receipt_only_key :: "string \<Rightarrow> outbox_event \<Rightarrow> string" where
  "receipt_only_key name e = name @ '':'' @ ev_generation_hash e @ '':'' @ int_text (ev_revision e)"

definition receipt_only_consumer :: "(string \<Rightarrow> string \<Rightarrow> string \<Rightarrow> string) \<Rightarrow> string \<Rightarrow> consumer" where
  "receipt_only_consumer sha256_json name e =
     (let generation_key = receipt_only_key name e in
      Inr (PyMapping [(''consumer'', PyStr name), (''domain_generation_key'', PyStr generation_key),
        (''effect_sha256'', PyStr (sha256_json name generation_key (ev_event_type e)))]))"

definition EVENT_CONSUMERS :: "(string \<times> string) list" where
  "EVENT_CONSUMERS =
     [(''retail.pnl_generation_promoted.v1'', ''pnl_receipt''),
      (''retail.salary_import_completed.v1'', ''salary_receipt''),
      (''retail.planning_forecast_promoted.v1'', ''planning_receipt''),
      (''retail.grile_manifest_approved.v1'', ''grile_manifest_receipt'')]"

text \<open>\<open>sales\<close> stands for the consumer of sales generations the worker is built with.\<close>

definition production_consumers ::
  "(string \<Rightarrow> string \<Rightarrow> string \<Rightarrow> string) \<Rightarrow> consumer \<Rightarrow> string \<Rightarrow> consumer option" where
  "production_consumers sha256_json sales event_type =
     (if event_type = ''retail.sales_generation_promoted.v1'' then Some sales
      else map_option (receipt_only_consumer sha256_json) (map_of EVENT_CONSUMERS event_type))"

section \<open>One delivery\<close>

datatype outcome = Delivered | LeaseLost | FailureRecorded ev_state | FailureStale | Raised outbox_error

datatype delivery_pc =
    Consuming | Renewing receipt_tuple | Recording receipt_tuple | Confirming | Stopping | Completing
  | FailConfirming | FailStopping | FailMarking | Finished outcome

record delivery =
  dl_event :: outbox_event
  dl_pc :: delivery_pc
  dl_heartbeat_lost :: bool
  dl_heartbeat_done :: bool

definition renew_claim ::
  "outbox_event \<Rightarrow> string \<Rightarrow> py_datetime \<Rightarrow> int \<Rightarrow> outbox_db \<Rightarrow> outbox_db option" where
  "renew_claim event owner now lease db =
     (case renew_lease (ev_id event) owner (ev_claim_epoch event) now lease db of
        Inl _ \<Rightarrow> None | Inr db' \<Rightarrow> Some db')"

definition consume :: "(string \<Rightarrow> consumer option) \<Rightarrow> outbox_event \<Rightarrow> (outbox_error, receipt_tuple) result" where
  "consume consumers event = (case consumers (ev_event_type event) of
     None \<Rightarrow> Inl (RuntimeError ''outbox event type has no consumer'')
   | Some c \<Rightarrow> res_bind (c event) validated_receipt)"

text \<open>
  The first half of \<^verbatim>\<open>_confirm_claim_and_stop\<close>: a failed heartbeat is raised, then the
  claim is renewed and the heartbeat told to stop. \<open>ok\<close> is where the delivery goes on.
\<close>

definition confirm_claim ::
  "string \<Rightarrow> int \<Rightarrow> py_datetime \<Rightarrow> delivery_pc \<Rightarrow> delivery \<Rightarrow> outbox_db \<Rightarrow> delivery \<times> outbox_db" where
  "confirm_claim owner lease now ok d db =
     (if dl_heartbeat_lost d then (d\<lparr>dl_pc := Finished LeaseLost\<rparr>, db)
      else case renew_claim (dl_event d) owner now lease db of
        None \<Rightarrow> (d\<lparr>dl_pc := Finished LeaseLost\<rparr>, db)
      | Some db' \<Rightarrow> (d\<lparr>dl_pc := ok\<rparr>, db'))"

definition heartbeat_stopped :: "delivery_pc \<Rightarrow> delivery \<Rightarrow> outbox_db \<Rightarrow> delivery \<times> outbox_db" where
  "heartbeat_stopped ok d db =
     (if dl_heartbeat_lost d then (d\<lparr>dl_pc := Finished LeaseLost\<rparr>, db)
      else (d\<lparr>dl_pc := ok, dl_heartbeat_done := True\<rparr>, db))"

definition deliver_step ::
  "(string \<Rightarrow> consumer option) \<Rightarrow> string \<Rightarrow> int \<Rightarrow> py_datetime \<Rightarrow> delivery \<Rightarrow> outbox_db
     \<Rightarrow> delivery \<times> outbox_db" where
  "deliver_step consumers owner lease now d db =
     (let event = dl_event d; goto = (\<lambda>pc. d\<lparr>dl_pc := pc\<rparr>) in
      case dl_pc d of
        Consuming \<Rightarrow>
          (if dl_heartbeat_lost d then (goto (Finished LeaseLost), db)
           else case consume consumers event of
             Inl _ \<Rightarrow> (goto FailConfirming, db) | Inr r \<Rightarrow> (goto (Renewing r), db))
      | Renewing r \<Rightarrow>
          (case renew_claim event owner now lease db of
             None \<Rightarrow> (goto (Finished LeaseLost), db) | Some db' \<Rightarrow> (goto (Recording r), db'))
      | Recording (c, k, h) \<Rightarrow>
          (case record_receipt (ev_id event) owner (ev_claim_epoch event) c k h now db of
             Inl _ \<Rightarrow> (goto FailConfirming, db) | Inr (db', _) \<Rightarrow> (goto Confirming, db'))
      | Confirming \<Rightarrow> confirm_claim owner lease now Stopping d db
      | Stopping \<Rightarrow> heartbeat_stopped Completing d db
      | Completing \<Rightarrow>
          (case mark_completed (ev_id event) owner (ev_claim_epoch event) now db of
             Inl _ \<Rightarrow> (goto FailConfirming, db) | Inr db' \<Rightarrow> (goto (Finished Delivered), db'))
      | FailConfirming \<Rightarrow> confirm_claim owner lease now FailStopping d db
      | FailStopping \<Rightarrow> heartbeat_stopped FailMarking d db
      | FailMarking \<Rightarrow>
          (case mark_failed (ev_id event) owner (ev_claim_epoch event) ''handler_failed'' now db of
             Inr (db', st) \<Rightarrow> (goto (Finished (FailureRecorded st)), db')
           | Inl (RuntimeError _) \<Rightarrow> (goto (Finished FailureStale), db)
           | Inl e \<Rightarrow> (goto (Finished (Raised e)), db))
      | Finished out \<Rightarrow> (d, db))"

text \<open>
  One renewal by \<^verbatim>\<open>_lease_heartbeat\<close>; it runs until it has seen the stop event, and ends at
  its first refused renewal.
\<close>

definition heartbeat_running :: "delivery \<Rightarrow> bool" where
  "heartbeat_running d \<longleftrightarrow> \<not> dl_heartbeat_lost d \<and> \<not> dl_heartbeat_done d \<and>
     (case dl_pc d of Finished _ \<Rightarrow> False | _ \<Rightarrow> True)"

definition heartbeat_step :: "string \<Rightarrow> int \<Rightarrow> py_datetime \<Rightarrow> delivery \<Rightarrow> outbox_db \<Rightarrow> delivery \<times> outbox_db" where
  "heartbeat_step owner lease now d db =
     (if \<not> heartbeat_running d then (d, db)
      else case renew_claim (dl_event d) owner now lease db of
        None \<Rightarrow> (d\<lparr>dl_heartbeat_lost := True\<rparr>, db) | Some db' \<Rightarrow> (d, db'))"

section \<open>One dispatch\<close>

record dispatch =
  dp_db :: outbox_db
  dp_deliveries :: "delivery list"

definition start_delivery :: "outbox_event \<Rightarrow> delivery" where
  "start_delivery e = \<lparr>dl_event = e, dl_pc = Consuming, dl_heartbeat_lost = False, dl_heartbeat_done = False\<rparr>"

definition dispatch_start ::
  "(nat \<Rightarrow> bool) \<Rightarrow> string \<Rightarrow> py_datetime \<Rightarrow> int \<Rightarrow> int \<Rightarrow> outbox_db \<Rightarrow> (outbox_error, dispatch) result" where
  "dispatch_start locked owner now batch_size lease db =
     res_bind (claim_batch locked owner now batch_size lease db) (\<lambda>(db', es).
       Inr \<lparr>dp_db = db', dp_deliveries = map start_delivery es\<rparr>)"

definition set_delivery :: "nat \<Rightarrow> delivery \<times> outbox_db \<Rightarrow> dispatch \<Rightarrow> dispatch" where
  "set_delivery i r s = \<lparr>dp_db = snd r, dp_deliveries = (dp_deliveries s)[i := fst r]\<rparr>"

inductive dispatch_step :: "(string \<Rightarrow> consumer option) \<Rightarrow> string \<Rightarrow> int \<Rightarrow> dispatch \<Rightarrow> dispatch \<Rightarrow> bool"
  for consumers owner lease where
  own_step: "i < length (dp_deliveries s) \<Longrightarrow> dispatch_step consumers owner lease s
     (set_delivery i (deliver_step consumers owner lease now (dp_deliveries s ! i) (dp_db s)) s)"
| own_heartbeat: "i < length (dp_deliveries s) \<Longrightarrow> dispatch_step consumers owner lease s
     (set_delivery i (heartbeat_step owner lease now (dp_deliveries s ! i) (dp_db s)) s)"
| other_step: "outbox_step (dp_db s) db' \<Longrightarrow> dispatch_step consumers owner lease s (s\<lparr>dp_db := db'\<rparr>)"

text \<open>\<^verbatim>\<open>dispatch_outbox_once\<close> returns the size of its batch when every delivery has ended.\<close>

definition dispatch_result :: "dispatch \<Rightarrow> nat option" where
  "dispatch_result s =
     (if list_all (\<lambda>d. case dl_pc d of Finished _ \<Rightarrow> True | _ \<Rightarrow> False) (dp_deliveries s)
      then Some (length (dp_deliveries s)) else None)"

section \<open>Steps of a delivery are transactions of the outbox\<close>

lemma renew_claim_step: "renew_claim e owner now lease db = Some db' \<Longrightarrow> outbox_step db db'"
  by (auto simp: renew_claim_def split: sum.splits intro: step_renew)

lemmas deliver_defs = deliver_step_def Let_def confirm_claim_def heartbeat_stopped_def

lemma deliver_step_db: "snd (deliver_step consumers owner lease now d db) = db
    \<or> outbox_step db (snd (deliver_step consumers owner lease now d db))"
  by (cases "dl_pc d")
    (auto simp: deliver_defs split: option.splits sum.splits outbox_error.splits prod.splits
      intro: renew_claim_step step_receipt step_complete step_fail)

lemma heartbeat_step_db: "snd (heartbeat_step owner lease now d db) = db
    \<or> outbox_step db (snd (heartbeat_step owner lease now d db))"
  by (auto simp: heartbeat_step_def split: option.splits intro: renew_claim_step)

lemma deliver_step_event [simp]: "dl_event (fst (deliver_step consumers owner lease now d db)) = dl_event d"
  by (cases "dl_pc d")
    (simp_all add: deliver_defs split: option.split sum.split outbox_error.split prod.split)

lemma heartbeat_step_event [simp]:
  "dl_event (fst (heartbeat_step owner lease now d db)) = dl_event d"
  "dl_pc (fst (heartbeat_step owner lease now d db)) = dl_pc d"
  by (auto simp: heartbeat_step_def split: option.splits)

text \<open>A completed event never changes again.\<close>

lemma completed_kept_update:
  assumes "update_events P f db = Inr db'" and "e \<in> set (db_events db)" and "ev_state e = Completed"
  shows "e \<in> set (db_events db')"
proof -
  have "\<not> P e"
    using update_events_InrD(2) [OF assms(1,2)] guard_event_mutationD(3) assms(3) by blast
  then show ?thesis
    using assms(2) update_events_tables(1) [OF assms(1)] by (force simp: set_upd_where)
qed

lemma completed_kept_claim:
  assumes "claim_batch locked owner now limit lease db = Inr (db', es)"
    and e: "e \<in> set (db_events db)" "ev_state e = Completed"
  shows "e \<in> set (db_events db')"
  using assms(1)
proof (rule claim_batchE)
  fix t db1 ids
  assume r: "reclaim_expired t db = Inr db1"
    and u: "update_events (\<lambda>e. ev_id e \<in> set ids) (claim_row owner t lease) db1 = Inr db'"
  from completed_kept_update [OF r [unfolded reclaim_expired_def] e] show ?thesis
    by (rule completed_kept_update [OF u _ e(2)])
qed

lemma completed_kept_step:
  assumes "outbox_step db db'" and e: "e \<in> set (db_events db)" "ev_state e = Completed"
  shows "e \<in> set (db_events db')"
  using assms(1)
proof cases
  case step_emit
  with e show ?thesis by (auto simp: emit_event_internal_def Let_def split: if_splits option.splits)
next
  case step_claim
  then show ?thesis
    by (rule completed_kept_claim [OF _ e])
next
  case step_renew
  then show ?thesis by (rule renew_leaseE) (erule completed_kept_update [OF _ e])
next
  case step_receipt
  then show ?thesis by (rule record_receipt_insert) (use e insert_receipt_events in auto)
next
  case step_complete
  then show ?thesis by (rule mark_completedE) (erule completed_kept_update [OF _ e])
next
  case step_fail
  then show ?thesis by (rule mark_failedE) (erule completed_kept_update [OF _ e])
next
  case step_replay
  then show ?thesis by (rule replay_deadE) (erule completed_kept_update, simp_all add: e)
qed

section \<open>What a delivery has achieved\<close>

definition receipt_of :: "outbox_db \<Rightarrow> nat \<Rightarrow> receipt_tuple \<Rightarrow> bool" where
  "receipt_of db i r \<longleftrightarrow> (\<exists>q \<in> set (db_receipts db). rc_event_id q = i
     \<and> (rc_consumer q, rc_domain_generation_key q, rc_effect_sha256 q) = r)"

definition completed_in :: "outbox_db \<Rightarrow> nat \<Rightarrow> bool" where
  "completed_in db i \<longleftrightarrow> (\<exists>e \<in> set (db_events db). ev_id e = i \<and> ev_state e = Completed)"

lemma receipt_of_step: "outbox_step db db' \<Longrightarrow> receipt_of db i r \<Longrightarrow> receipt_of db' i r"
  using receipts_kept_step by (fastforce simp: receipt_of_def)

lemma completed_in_step: "outbox_step db db' \<Longrightarrow> completed_in db i \<Longrightarrow> completed_in db' i"
  using completed_kept_step by (fastforce simp: completed_in_def)

definition delivery_ok :: "(string \<Rightarrow> consumer option) \<Rightarrow> outbox_db \<Rightarrow> delivery \<Rightarrow> bool" where
  "delivery_ok consumers db d = (let i = ev_id (dl_event d); got = consume consumers (dl_event d) in
     case dl_pc d of
       Renewing r \<Rightarrow> got = Inr r
     | Recording r \<Rightarrow> got = Inr r
     | Confirming \<Rightarrow> (\<exists>r. got = Inr r \<and> receipt_of db i r)
     | Stopping \<Rightarrow> (\<exists>r. got = Inr r \<and> receipt_of db i r)
     | Completing \<Rightarrow> (\<exists>r. got = Inr r \<and> receipt_of db i r)
     | Finished Delivered \<Rightarrow> (\<exists>r. got = Inr r \<and> receipt_of db i r) \<and> completed_in db i
     | _ \<Rightarrow> True)"

lemma delivery_ok_step:
  assumes "outbox_step db db'" and "delivery_ok consumers db d"
  shows "delivery_ok consumers db' d"
  using assms(2) receipt_of_step [OF assms(1)] completed_in_step [OF assms(1)]
  by (auto simp: delivery_ok_def Let_def split: delivery_pc.splits outcome.splits)

lemma record_receipt_of:
  assumes "record_receipt i owner epoch c k h t db = Inr (db', b)"
  shows "receipt_of db' i (c, k, h)"
  using assms
  by (auto simp: record_receipt_def insert_receipt_def receipt_of_def find_Some_iff res_simps
      split: if_splits option.splits)

lemma mark_completed_in:
  assumes "mark_completed i owner epoch t db = Inr db'"
  shows "completed_in db' i"
  using assms
proof (rule mark_completedE)
  fix s assume u: "update_events (claim_target i owner epoch s) (complete_row s) db = Inr db'"
    and "outbox_holds db i owner epoch s"
  then obtain e where "e \<in> set (db_events db)" "claim_target i owner epoch s e"
    by (auto simp: outbox_holds_def list_ex_iff)
  then have "complete_row s e \<in> set (db_events db')" "ev_id e = i"
    using update_events_tables(1) [OF u] by (force simp: set_upd_where claim_target_def)+
  then show ?thesis
    unfolding completed_in_def by (intro bexI) (auto simp: complete_row_def)
qed

lemma delivery_ok_own:
  assumes "delivery_ok consumers db d"
  shows "delivery_ok consumers (snd (deliver_step consumers owner lease now d db))
     (fst (deliver_step consumers owner lease now d db))"
  using assms
  by (cases "dl_pc d")
    (auto simp: delivery_ok_def deliver_defs split: option.splits sum.splits outbox_error.splits prod.splits
      outcome.splits intro: record_receipt_of mark_completed_in receipt_of_step renew_claim_step
      dest: receipt_of_step [OF step_complete] receipt_of_step [OF renew_claim_step])

lemma delivery_ok_heartbeat:
  assumes "delivery_ok consumers db d"
  shows "delivery_ok consumers (snd (heartbeat_step owner lease now d db)) (fst (heartbeat_step owner lease now d db))"
proof -
  have "delivery_ok consumers (snd (heartbeat_step owner lease now d db)) d"
    using heartbeat_step_db [of owner lease now d db] assms by (metis delivery_ok_step)
  then show ?thesis by (simp add: delivery_ok_def)
qed

definition dispatch_inv :: "(string \<Rightarrow> consumer option) \<Rightarrow> dispatch \<Rightarrow> bool" where
  "dispatch_inv consumers s \<longleftrightarrow> outbox_inv (dp_db s)
     \<and> (\<forall>d \<in> set (dp_deliveries s). delivery_ok consumers (dp_db s) d)"

lemma dispatch_inv_set:
  assumes inv: "dispatch_inv consumers s" and i: "i < length (dp_deliveries s)"
    and db: "snd r = dp_db s \<or> outbox_step (dp_db s) (snd r)"
    and ok: "delivery_ok consumers (snd r) (fst r)"
  shows "dispatch_inv consumers (set_delivery i r s)"
proof -
  have "outbox_inv (snd r)"
    using db inv inv_outbox_step by (auto simp: dispatch_inv_def)
  moreover have "delivery_ok consumers (snd r) d" if "d \<in> set (dp_deliveries s)" for d
    using db inv that delivery_ok_step by (auto simp: dispatch_inv_def)
  ultimately show ?thesis
    using ok set_update_subset_insert [of "dp_deliveries s" i "fst r"]
    by (auto simp: dispatch_inv_def set_delivery_def)
qed

lemma dispatch_inv_step:
  assumes inv: "dispatch_inv consumers s" and "dispatch_step consumers owner lease s s'"
  shows "dispatch_inv consumers s'"
  using assms(2)
proof cases
  case (own_step i now)
  show ?thesis
    unfolding own_step(1)
    by (rule dispatch_inv_set [OF inv own_step(2) deliver_step_db delivery_ok_own])
      (use inv own_step(2) in \<open>simp add: dispatch_inv_def\<close>)
next
  case (own_heartbeat i now)
  show ?thesis
    unfolding own_heartbeat(1)
    by (rule dispatch_inv_set [OF inv own_heartbeat(2) heartbeat_step_db delivery_ok_heartbeat])
      (use inv own_heartbeat(2) in \<open>simp add: dispatch_inv_def\<close>)
next
  case (other_step db')
  with inv show ?thesis
    by (auto simp: dispatch_inv_def intro: inv_outbox_step delivery_ok_step)
qed

text \<open>The states a dispatch may start in: a batch claimed from a reachable outbox.\<close>

definition dispatch_init :: "string \<Rightarrow> int \<Rightarrow> dispatch \<Rightarrow> bool" where
  "dispatch_init owner lease s \<longleftrightarrow> (\<exists>db locked now batch_size. outbox_reachable db
     \<and> dispatch_start locked owner now batch_size lease db = Inr s)"

lemma dispatch_init_inv: "dispatch_init owner lease s \<Longrightarrow> dispatch_inv consumers s"
  by (auto simp: dispatch_init_def dispatch_start_def dispatch_inv_def delivery_ok_def start_delivery_def
      res_simps intro: inv_claim_batch ob.reachable_inv)

interpretation dw: invariant_machine "dispatch_init owner lease" "dispatch_step consumers owner lease"
    "dispatch_inv consumers" for owner lease consumers
  by unfold_locales (auto intro: dispatch_init_inv dispatch_inv_step)

text \<open>
  C19: A delivery reported as delivered really is. In every state a dispatch can reach, with
  its deliveries, heartbeats and the transactions of other workers interleaved in any
  order, a delivery that ended as delivered has its event completed and the receipt its
  consumer returned recorded.
\<close>

theorem delivered_is_recorded:
  assumes "reachable_from (dispatch_init owner lease) (dispatch_step consumers owner lease) s"
    and "d \<in> set (dp_deliveries s)" and "dl_pc d = Finished Delivered"
  shows "completed_in (dp_db s) (ev_id (dl_event d))
     \<and> (\<exists>r. consume consumers (dl_event d) = Inr r \<and> receipt_of (dp_db s) (ev_id (dl_event d)) r)"
  using dw.reachable_inv [OF assms(1)] assms(2,3)
  by (fastforce simp: dispatch_inv_def delivery_ok_def Let_def)

text \<open>The sample run, dispatched by \<open>w1\<close> with one consumer.\<close>

definition sample_consumers :: "string \<Rightarrow> consumer option" where
  "sample_consumers ty = Some (receipt_only_consumer (\<lambda>_ _ _. sample_hash) ''sales_receipt'')"

definition sample_dispatch :: dispatch where
  "sample_dispatch = \<lparr>dp_db = sample_claimed, dp_deliveries = [start_delivery sample_claim]\<rparr>"

text \<open>\<open>deliver_run\<close> runs one delivery alone, its \<open>k\<close>-th step at the instant \<open>at k\<close>.\<close>

primrec deliver_run ::
  "(string \<Rightarrow> consumer option) \<Rightarrow> string \<Rightarrow> int \<Rightarrow> (nat \<Rightarrow> instant) \<Rightarrow> nat \<Rightarrow> delivery \<times> outbox_db
     \<Rightarrow> delivery \<times> outbox_db" where
  "deliver_run consumers owner lease clk 0 s = s"
| "deliver_run consumers owner lease clk (Suc n) s =
     (let r = deliver_run consumers owner lease clk n s
      in deliver_step consumers owner lease (Aware (clk n)) (fst r) (snd r))"

definition alone :: "delivery \<times> outbox_db \<Rightarrow> dispatch" where
  "alone r = \<lparr>dp_db = snd r, dp_deliveries = [fst r]\<rparr>"

lemma alone_step:
  "dispatch_step consumers owner lease (alone r) (alone (deliver_step consumers owner lease now (fst r) (snd r)))"
  using own_step [of 0 "alone r" consumers owner lease now] by (simp add: alone_def set_delivery_def)

lemma deliver_run_steps:
  "(dispatch_step consumers owner lease)\<^sup>*\<^sup>* (alone s) (alone (deliver_run consumers owner lease clk n s))"
  by (induction n) (auto simp: Let_def intro: rtranclp.rtrancl_into_rtrancl alone_step)

lemma sample_dispatch_init: "dispatch_init ''w1'' 60 sample_dispatch"
  unfolding dispatch_init_def
  by (intro exI [of _ sample_emitted] exI [of _ "\<lambda>_. False"] exI [of _ "Aware 10"] exI [of _ 5])
    (simp add: sample_emitted_reachable dispatch_start_def sample_claim_batch sample_dispatch_def)

abbreviation sample_delivered :: "delivery \<times> outbox_db" where
  "sample_delivered \<equiv> deliver_run sample_consumers ''w1'' 60 (\<lambda>k. 20 + int k) 6 (start_delivery sample_claim, sample_claimed)"

lemma sample_delivered_reachable:
  "reachable_from (dispatch_init ''w1'' 60) (dispatch_step sample_consumers ''w1'' 60) (alone sample_delivered)"
proof -
  have "reachable_from (dispatch_init ''w1'' 60) (dispatch_step sample_consumers ''w1'' 60)
      (alone (start_delivery sample_claim, sample_claimed))"
    using sample_dispatch_init by (intro reach_init) (simp add: alone_def sample_dispatch_def)
  then show ?thesis by (rule reachable_from_rtranclp) (rule deliver_run_steps)
qed

theorem delivered_is_recorded_witness: "completed_in (snd sample_delivered) 7"
proof -
  have "dl_pc (fst sample_delivered) = Finished Delivered" "ev_id (dl_event (fst sample_delivered)) = 7"
    by code_simp+
  with delivered_is_recorded [OF sample_delivered_reachable, of "fst sample_delivered"] show ?thesis
    by (simp add: alone_def)
qed

section \<open>An undisturbed delivery succeeds\<close>

definition receipt_row :: "nat \<Rightarrow> receipt_tuple \<Rightarrow> instant \<Rightarrow> outbox_receipt" where
  "receipt_row i r t = (case r of (c, k, h) \<Rightarrow> \<lparr> rc_event_id = i, rc_consumer = c,
     rc_domain_generation_key = k, rc_effect_sha256 = h, rc_received_at = t \<rparr>)"

lemma record_accepted:
  assumes "receipt_checks (receipt_row i (c, k, h) t)" and "outbox_holds db i ow ep t"
    and "\<And>q. q \<in> set (db_receipts db) \<Longrightarrow> rc_consumer q = c \<Longrightarrow> rc_event_id q \<noteq> i \<and> rc_domain_generation_key q \<noteq> k"
  shows "record_receipt i ow ep c k h (Aware t) db
     = Inr (db\<lparr>db_receipts := db_receipts db @ [receipt_row i (c, k, h) t]\<rparr>, True)"
  using assms
  by (auto simp: record_receipt_def insert_receipt_def receipt_row_def receipt_checks_def require_aware_def
      outbox_holds_def list_ex_iff)

text \<open>
  C24: An undisturbed delivery succeeds. When the worker holds the claim, its steps come
  in time for the leases they renew, and the consumer returns a receipt the database
  accepts and nobody else has given, six steps deliver the event.
\<close>

theorem undisturbed_delivery_succeeds:
  assumes "outbox_reachable db" and "clock_ok db (clk 1)" and "owner_re ow" and "1 \<le> lease" and "lease \<le> 3600"
    and hold: "outbox_holds db (ev_id e) ow (ev_claim_epoch e) (clk 1)"
    and times: "clk 1 \<le> clk 2" "clk 2 \<le> clk 3" "clk 3 \<le> clk 5" "clk 3 < clk 1 + seconds lease" "clk 5 < clk 3 + seconds lease"
    and got: "consume consumers e = Inr (c, k, h)"
    and checks: "receipt_checks (receipt_row (ev_id e) (c, k, h) (clk 2))"
    and fresh: "\<And>q. q \<in> set (db_receipts db) \<Longrightarrow> rc_consumer q = c \<Longrightarrow>
       rc_event_id q \<noteq> ev_id e \<and> rc_domain_generation_key q \<noteq> k"
  shows "dl_pc (fst (deliver_run consumers ow lease clk 6 (start_delivery e, db))) = Finished Delivered"
proof -
  let ?i = "ev_id e" and ?ep = "ev_claim_epoch e"
  have inv: "outbox_inv db" by (rule ob.reachable_inv [OF assms(1)])
  obtain db1 where r1: "renew_lease ?i ow ?ep (Aware (clk 1)) lease db = Inr db1" and c1: "clock_ok db1 (clk 1)"
    and h1: "\<And>s. s < clk 1 + seconds lease \<Longrightarrow> outbox_holds db1 ?i ow ?ep s"
    and rc1: "db_receipts db1 = db_receipts db"
    by (rule renew_accepted [OF inv assms(2) hold assms(3-5)]) blast
  let ?db2 = "db1\<lparr>db_receipts := db_receipts db1 @ [receipt_row ?i (c, k, h) (clk 2)]\<rparr>"
  have rec: "record_receipt ?i ow ?ep c k h (Aware (clk 2)) db1 = Inr (?db2, True)"
    by (rule record_accepted [OF checks h1]) (use times fresh rc1 in auto)
  have inv2: "outbox_inv ?db2"
    by (rule inv_receipt [OF inv_renew [OF inv r1] rec])
  have c2: "clock_ok ?db2 (clk 3)" and h2: "outbox_holds ?db2 ?i ow ?ep (clk 3)"
    using c1 h1 [of "clk 3"] times by (auto simp: clock_ok_def list_all_iff outbox_holds_def)
  obtain db3 where r3: "renew_lease ?i ow ?ep (Aware (clk 3)) lease ?db2 = Inr db3" and c3: "clock_ok db3 (clk 3)"
    and h3: "outbox_holds db3 ?i ow ?ep (clk 5)"
    by (rule renew_accepted [OF inv2 c2 h2 assms(3-5)]) (use times in blast)
  have "clock_ok db3 (clk 5)"
    using c3 times by (auto simp: clock_ok_def list_all_iff)
  then obtain db4 where c4: "mark_completed ?i ow ?ep (Aware (clk 5)) db3 = Inr db4"
    using complete_accepted [OF inv_renew [OF inv2 r3] _ h3] by blast
  show ?thesis
    using got r1 rec r3 c4
    by (simp add: eval_nat_numeral deliver_defs start_delivery_def renew_claim_def)
qed

theorem undisturbed_delivery_succeeds_witness:
  "dl_pc (fst (deliver_run sample_consumers ''w1'' 60 (\<lambda>k. 20 + int k) 6 (start_delivery sample_claim, sample_claimed)))
     = Finished Delivered"
proof -
  have h: "clock_ok sample_claimed 21" "owner_re ''w1''"
    "outbox_holds sample_claimed (ev_id sample_claim) ''w1'' (ev_claim_epoch sample_claim) 21"
    by code_simp+
  let ?r = "(''sales_receipt'', receipt_only_key ''sales_receipt'' sample_claim, sample_hash)"
  have r: "consume sample_consumers sample_claim = Inr ?r"
    "receipt_checks (receipt_row (ev_id sample_claim) ?r 22)" "db_receipts sample_claimed = []"
    by code_simp+
  show ?thesis
    by (rule undisturbed_delivery_succeeds [OF sample_claimed_reachable]) (use h r in \<open>simp_all add: seconds_def\<close>)
qed

section \<open>Generation hashes the receipt table refuses\<close>

lemma digit_runs_append:
  "\<not> is_digit_char c \<Longrightarrow> digit_runs_from n (xs @ c # ys) = digit_runs_from n xs @ digit_runs_from 0 ys"
  by (induction n xs rule: digit_runs_from.induct) auto

lemma receipt_only_key_run:
  assumes "has_thirteen_digit_run (ev_generation_hash e)"
  shows "has_thirteen_digit_run (receipt_only_key name e)"
proof -
  have colon: "\<not> is_digit_char (CHR '':'')"
    by (simp add: is_digit_char_def less_eq_char_def)
  have "receipt_only_key name e = name @ CHR '':'' # (ev_generation_hash e @ CHR '':'' # int_text (ev_revision e))"
    by (simp add: receipt_only_key_def)
  then show ?thesis
    using assms by (simp add: has_thirteen_digit_run_def digit_runs_append [OF colon])
qed

lemma consume_receipt_only:
  assumes "consumers (ev_event_type e) = Some (receipt_only_consumer sha name)"
  shows "consume consumers e = Inr (name, receipt_only_key name e,
     sha name (receipt_only_key name e) (ev_event_type e))"
  using assms
  by (auto simp: consume_def receipt_only_consumer_def validated_receipt_def receipt_field_def Let_def)

text \<open>
  C25: An event whose generation hash contains a run of exactly 13 digits is never
  delivered by a receipt-only consumer: its receipt key embeds the hash, and the
  constraint that keeps personal numeric codes out of the receipt table refuses the key.
\<close>

theorem thirteen_digit_hash_never_delivered:
  assumes "reachable_from (dispatch_init owner lease) (dispatch_step consumers owner lease) s"
    and "d \<in> set (dp_deliveries s)"
    and "consumers (ev_event_type (dl_event d)) = Some (receipt_only_consumer sha name)"
    and "has_thirteen_digit_run (ev_generation_hash (dl_event d))"
  shows "dl_pc d \<noteq> Finished Delivered"
proof
  assume "dl_pc d = Finished Delivered"
  with dw.reachable_inv [OF assms(1)] assms(2)
  obtain r where "consume consumers (dl_event d) = Inr r" and "receipt_of (dp_db s) (ev_id (dl_event d)) r"
    by (fastforce simp: dispatch_inv_def delivery_ok_def Let_def)
  then obtain q where "q \<in> set (db_receipts (dp_db s))" "rc_domain_generation_key q = receipt_only_key name (dl_event d)"
    using consume_receipt_only [of consumers "dl_event d", OF assms(3)] by (auto simp: receipt_of_def)
  moreover from dw.reachable_inv [OF assms(1)] have "receipts_inv (dp_db s)"
    by (simp add: dispatch_inv_def outbox_inv_defs)
  ultimately show False
    using receipt_only_key_run [OF assms(4), of name] by (auto simp: receipts_inv_def receipt_checks_def)
qed

text \<open>The same sample run with such a hash.\<close>

definition digits_hash :: string where
  "digits_hash = replicate 51 (CHR ''a'') @ replicate 13 (CHR ''7'')"

definition digits_emitted :: outbox_db where
  "digits_emitted = \<lparr>db_events = [new_event (\<lambda>_. sample_hash) 7 (sample_payload\<lparr>pl_generation_hash := digits_hash\<rparr>) 1 0],
     db_receipts = [], db_replays = []\<rparr>"

definition digits_claimed :: outbox_db where
  "digits_claimed = digits_emitted\<lparr>db_events := map (claim_row ''w1'' 10 60) (db_events digits_emitted)\<rparr>"

lemma digits_dispatch_init:
  "dispatch_init ''w1'' 60 (alone (start_delivery (hd (db_events digits_claimed)), digits_claimed))"
proof -
  have "outbox_reachable \<lparr>db_events = [], db_receipts = [], db_replays = []\<rparr>"
    by (rule reach_init) (simp add: outbox_empty_def)
  moreover have "emit_event_internal (\<lambda>_. sample_hash) 7 0 (sample_payload\<lparr>pl_generation_hash := digits_hash\<rparr>)
      \<lparr>db_events = [], db_receipts = [], db_replays = []\<rparr> = Inr (digits_emitted, 7)"
    by code_simp
  ultimately have "outbox_reachable digits_emitted" by (blast intro: reach_step step_emit)
  moreover have "claim_batch (\<lambda>_. False) ''w1'' (Aware 10) 5 60 digits_emitted
      = Inr (digits_claimed, db_events digits_claimed)"
    by code_simp
  moreover have "db_events digits_claimed = [hd (db_events digits_claimed)]"
    by (simp add: digits_claimed_def digits_emitted_def)
  ultimately show ?thesis
    unfolding dispatch_init_def
    by (intro exI [of _ digits_emitted] exI [of _ "\<lambda>_. False"] exI [of _ "Aware 10"] exI [of _ 5])
      (simp add: dispatch_start_def alone_def, metis list.simps(8) list.simps(9))
qed

theorem thirteen_digit_hash_never_delivered_witness:
  "is_sha256 digits_hash \<and> dl_pc (fst (deliver_run sample_consumers ''w1'' 60 (\<lambda>k. 20 + int k) 6
     (start_delivery (hd (db_events digits_claimed)), digits_claimed))) \<noteq> Finished Delivered"
proof -
  let ?r = "deliver_run sample_consumers ''w1'' 60 (\<lambda>k. 20 + int k) 6
     (start_delivery (hd (db_events digits_claimed)), digits_claimed)"
  have reach: "reachable_from (dispatch_init ''w1'' 60) (dispatch_step sample_consumers ''w1'' 60) (alone ?r)"
    by (rule reachable_from_rtranclp [OF _ deliver_run_steps]) (rule reach_init, rule digits_dispatch_init)
  have "is_sha256 digits_hash" "has_thirteen_digit_run (ev_generation_hash (dl_event (fst ?r)))"
    by code_simp+
  with thirteen_digit_hash_never_delivered [OF reach, of "fst ?r" "\<lambda>_ _ _. sample_hash" "''sales_receipt''"]
  show ?thesis by (simp add: alone_def sample_consumers_def)
qed

end
