(* ===== verification/Export_Operations.thy ===== *)
theory Export_Operations
  imports Retail_Interfaces
begin

text \<open>
  The durable lifecycle of XLSX exports of \<^verbatim>\<open>backend/repositories/export_operations.py\<close>:
  bounded admission, one claim by a worker under an epoch and a lease, publication of the
  artifact, a single download claim, cancellation, reconciliation and expiry, over the
  table \<^verbatim>\<open>export_operations\<close> with the constraints and the transition trigger of migrations
  055 and 065. \<open>now\<close> is the transaction timestamp PostgreSQL's \<^verbatim>\<open>now()\<close> returns.
\<close>

section \<open>Data\<close>

datatype export_error =
    ExportValueError string
  | ExportOperationCapacityError string
  | ExportPostgresError string

datatype export_status = Queued | Running | Done | Failed | Cancelled | Expired

text \<open>A request payload: its canonical JSON text and what the constraints inspect of it (\<^const>\<open>None\<close> for a missing key).\<close>

record export_payload =
  px_json :: string
  px_has_row_count :: bool
  px_site_code_is_array :: "bool option"
  px_export_kind :: "string option"

record artifact_facts =
  af_key :: string
  af_sha256 :: string
  af_size :: int
  af_peak_rss :: int
  af_build_seconds :: rat
  af_cell_count :: int
  af_row_count :: "int option"
  af_filename :: string

record export_row =
  ex_id :: nat
  ex_kind :: string
  ex_status :: export_status
  ex_job_id :: string
  ex_payload :: export_payload
  ex_request_sha256 :: string
  ex_requested_by_sub :: string
  ex_owner :: "string option"
  ex_epoch :: nat
  ex_lease_until :: "instant option"
  ex_artifact_key :: "string option"
  ex_artifact_sha256 :: "string option"
  ex_artifact_size :: "int option"
  ex_peak_rss_bytes :: "int option"
  ex_build_seconds :: "rat option"
  ex_cell_count :: "int option"
  ex_row_count :: "int option"
  ex_download_filename :: "string option"
  ex_error_code :: "string option"
  ex_created_at :: instant
  ex_updated_at :: instant
  ex_started_at :: "instant option"
  ex_finished_at :: "instant option"
  ex_expires_at :: "instant option"
  ex_download_claimed_at :: "instant option"

record export_db =
  xdb_rows :: "export_row list"
  xdb_next_id :: nat

definition MAX_ACTIVE_EXPORT_OPERATIONS :: nat where
  "MAX_ACTIVE_EXPORT_OPERATIONS = 3"

definition is_active :: "export_row \<Rightarrow> bool" where
  "is_active r \<longleftrightarrow> ex_status r \<in> {Queued, Running}"

section \<open>Constraints of migrations 055 and 065\<close>

definition complex_kinds :: "string list" where
  "complex_kinds = [''daily_metrics'', ''daily_comparison'']"

definition salary_kinds :: "string list" where
  "salary_kinds = [''salary_store_summary'', ''salary_monthly_trend'', ''salary_agents'']"

definition starts_with :: "string \<Rightarrow> string \<Rightarrow> bool" where
  "starts_with p s \<longleftrightarrow> take (length p) s = p"

definition job_id_check :: "string \<Rightarrow> string \<Rightarrow> bool" where
  "job_id_check kind job \<longleftrightarrow>
     (kind \<in> set complex_kinds \<and> starts_with ''export-complex:'' job
        \<and> is_positive_numeral (drop (length ''export-complex:'') job))
   \<or> (kind \<in> set salary_kinds \<and> starts_with ''salary-export:'' job
        \<and> is_positive_numeral (drop (length ''salary-export:'') job))"

definition xlsx_name :: "string \<Rightarrow> bool" where
  "xlsx_name s \<longleftrightarrow> length s = 37 \<and> list_all is_hex_char (take 32 s) \<and> drop 32 s = ''.xlsx''"

definition artifact_key_check :: "string \<Rightarrow> string \<Rightarrow> bool" where
  "artifact_key_check kind key \<longleftrightarrow>
     (kind \<in> set complex_kinds \<and> xlsx_name key)
   \<or> (kind \<in> set salary_kinds \<and> starts_with ''salary/'' key \<and> xlsx_name (drop (length ''salary/'') key))"

text \<open>A check whose value is \<^verbatim>\<open>NULL\<close>, as with a missing key, passes.\<close>

definition salary_request_check :: "string \<Rightarrow> export_payload \<Rightarrow> bool" where
  "salary_request_check kind p \<longleftrightarrow> kind \<in> set salary_kinds \<longrightarrow>
     \<not> px_has_row_count p \<and> px_site_code_is_array p \<noteq> Some False
     \<and> ((kind = ''salary_store_summary'' \<and> px_export_kind p \<in> {None, Some ''store_summary''})
       \<or> (kind = ''salary_monthly_trend'' \<and> px_export_kind p \<in> {None, Some ''monthly_trend''})
       \<or> (kind = ''salary_agents'' \<and> px_export_kind p \<in> {None, Some ''agents''}))"

definition export_error_re :: "string \<Rightarrow> bool" where
  "export_error_re s \<longleftrightarrow> 1 \<le> length s \<and> length s \<le> 80 \<and>
     list_all (\<lambda>c. is_lower_char c \<or> is_digit_char c \<or> c = CHR ''_'') s"

definition opt_all :: "('a \<Rightarrow> bool) \<Rightarrow> 'a option \<Rightarrow> bool" where
  "opt_all P x = (case x of None \<Rightarrow> True | Some y \<Rightarrow> P y)"

definition column_checks :: "export_row \<Rightarrow> bool" where
  "column_checks r \<longleftrightarrow>
     ex_kind r \<in> set (complex_kinds @ salary_kinds)
   \<and> job_id_check (ex_kind r) (ex_job_id r)
   \<and> is_sha256 (ex_request_sha256 r)
   \<and> sql_btrim (ex_requested_by_sub r) \<noteq> []
   \<and> salary_request_check (ex_kind r) (ex_payload r)
   \<and> opt_all (artifact_key_check (ex_kind r)) (ex_artifact_key r)
   \<and> opt_all is_sha256 (ex_artifact_sha256 r)
   \<and> opt_all (\<lambda>n. 0 < n) (ex_artifact_size r) \<and> opt_all (\<lambda>n. 0 < n) (ex_peak_rss_bytes r)
   \<and> opt_all (\<lambda>n. 0 \<le> n) (ex_build_seconds r) \<and> opt_all (\<lambda>n. 0 \<le> n) (ex_cell_count r)
   \<and> opt_all (\<lambda>n. 0 \<le> n) (ex_row_count r)
   \<and> opt_all (\<lambda>s. sql_btrim s \<noteq> [] \<and> length s \<le> 140) (ex_download_filename r)
   \<and> opt_all export_error_re (ex_error_code r)"

definition lifecycle_check :: "export_row \<Rightarrow> bool" where
  "lifecycle_check r = (case ex_status r of
     Queued \<Rightarrow> ex_owner r = None \<and> ex_lease_until r = None \<and> ex_started_at r = None \<and> ex_finished_at r = None
   | Running \<Rightarrow> (case ex_owner r of None \<Rightarrow> False | Some ow \<Rightarrow> sql_btrim ow \<noteq> []) \<and> 0 < ex_epoch r
       \<and> ex_lease_until r \<noteq> None \<and> ex_started_at r \<noteq> None \<and> ex_finished_at r = None
   | _ \<Rightarrow> ex_finished_at r \<noteq> None \<and> ex_lease_until r = None)"

definition artifact_check :: "export_row \<Rightarrow> bool" where
  "artifact_check r =
     (if ex_status r = Done
      then ex_artifact_key r \<noteq> None \<and> ex_artifact_sha256 r \<noteq> None \<and> ex_artifact_size r \<noteq> None
        \<and> ex_peak_rss_bytes r \<noteq> None \<and> ex_build_seconds r \<noteq> None \<and> ex_cell_count r \<noteq> None
        \<and> ex_download_filename r \<noteq> None \<and> ex_error_code r = None
        \<and> (case (ex_expires_at r, ex_finished_at r) of (Some x, Some f) \<Rightarrow> f < x | _ \<Rightarrow> False)
      else ex_artifact_key r = None)"

definition row_count_check :: "export_row \<Rightarrow> bool" where
  "row_count_check r \<longleftrightarrow>
     (ex_row_count r = None \<or> (ex_kind r \<in> set salary_kinds
        \<and> ex_status r \<in> {Done, Failed, Expired} \<and> ex_finished_at r \<noteq> None))
   \<and> (ex_kind r \<notin> set salary_kinds \<or> ex_status r \<noteq> Done \<or> ex_row_count r \<noteq> None)"

definition export_checks :: "export_row \<Rightarrow> bool" where
  "export_checks r \<longleftrightarrow> column_checks r \<and> lifecycle_check r \<and> artifact_check r \<and> row_count_check r"

definition same_request :: "export_row \<Rightarrow> export_row \<Rightarrow> bool" where
  "same_request a b \<longleftrightarrow> ex_id a = ex_id b \<and> ex_kind a = ex_kind b \<and> ex_job_id a = ex_job_id b
     \<and> ex_payload a = ex_payload b \<and> ex_request_sha256 a = ex_request_sha256 b
     \<and> ex_requested_by_sub a = ex_requested_by_sub b \<and> ex_created_at a = ex_created_at b"

definition same_artifact :: "export_row \<Rightarrow> export_row \<Rightarrow> bool" where
  "same_artifact a b \<longleftrightarrow> ex_artifact_sha256 a = ex_artifact_sha256 b
     \<and> ex_artifact_size a = ex_artifact_size b \<and> ex_peak_rss_bytes a = ex_peak_rss_bytes b
     \<and> ex_build_seconds a = ex_build_seconds b \<and> ex_cell_count a = ex_cell_count b
     \<and> ex_row_count a = ex_row_count b \<and> ex_download_filename a = ex_download_filename b
     \<and> ex_finished_at a = ex_finished_at b \<and> ex_expires_at a = ex_expires_at b"

definition guard_export_transition :: "export_row \<Rightarrow> export_row \<Rightarrow> bool" where
  "guard_export_transition old new \<longleftrightarrow> same_request old new
   \<and> (case ex_status old of
        Failed \<Rightarrow> False | Cancelled \<Rightarrow> False | Expired \<Rightarrow> False
      | Done \<Rightarrow>
          (if ex_status new = Done
           then ex_download_claimed_at old = None \<and> ex_download_claimed_at new \<noteq> None
             \<and> ex_owner old = ex_owner new \<and> ex_epoch old = ex_epoch new
             \<and> ex_lease_until old = ex_lease_until new \<and> ex_artifact_key old = ex_artifact_key new
             \<and> same_artifact old new \<and> ex_error_code old = ex_error_code new
             \<and> ex_started_at old = ex_started_at new
           else ex_status new \<in> {Expired, Failed} \<and> ex_artifact_key new = None \<and> same_artifact old new
             \<and> ex_download_claimed_at old = ex_download_claimed_at new
             \<and> (ex_status new = Failed \<longrightarrow> ex_error_code new = Some ''artifact_integrity_failed'')
             \<and> (ex_status new = Expired \<longrightarrow> ex_error_code new = None))
      | Queued \<Rightarrow> ex_status new \<in> {Queued, Running, Failed, Cancelled}
      | Running \<Rightarrow> ex_status new \<in> {Running, Done, Failed, Cancelled}
          \<and> (ex_status new = Running \<longrightarrow> ex_owner old = ex_owner new \<and> ex_epoch old = ex_epoch new))"

text \<open>The unique indexes: job, artifact key, and one active operation per requester.\<close>

definition unique_checks :: "export_row list \<Rightarrow> bool" where
  "unique_checks rs \<longleftrightarrow> distinct (map ex_id rs) \<and> distinct (map ex_job_id rs)
     \<and> distinct (map ex_artifact_key (filter (\<lambda>r. ex_artifact_key r \<noteq> None) rs))
     \<and> distinct (map ex_requested_by_sub (filter is_active rs))"

definition update_exports ::
  "(export_row \<Rightarrow> bool) \<Rightarrow> (export_row \<Rightarrow> export_row) \<Rightarrow> export_db \<Rightarrow> (export_error, export_db) result" where
  "update_exports P f db =
     (let rs = upd_where P f (xdb_rows db) in
      if list_all (\<lambda>r. P r \<longrightarrow> guard_export_transition r (f r) \<and> export_checks (f r)) (xdb_rows db)
         \<and> unique_checks rs
      then Inr (db\<lparr>xdb_rows := rs\<rparr>) else Inl (ExportPostgresError ''export operation constraint''))"

section \<open>Operations\<close>

definition new_export ::
  "nat \<Rightarrow> string \<Rightarrow> string \<Rightarrow> export_payload \<Rightarrow> string \<Rightarrow> string \<Rightarrow> instant \<Rightarrow> export_row" where
  "new_export i kind job payload sha sub now = \<lparr>
     ex_id = i, ex_kind = kind, ex_status = Queued, ex_job_id = job, ex_payload = payload,
     ex_request_sha256 = sha, ex_requested_by_sub = sub, ex_owner = None, ex_epoch = 0,
     ex_lease_until = None, ex_artifact_key = None, ex_artifact_sha256 = None,
     ex_artifact_size = None, ex_peak_rss_bytes = None, ex_build_seconds = None,
     ex_cell_count = None, ex_row_count = None, ex_download_filename = None,
     ex_error_code = None, ex_created_at = now, ex_updated_at = now, ex_started_at = None,
     ex_finished_at = None, ex_expires_at = None, ex_download_claimed_at = None \<rparr>"

definition expected_prefix :: "string \<Rightarrow> string" where
  "expected_prefix kind = (if starts_with ''salary_'' kind then ''salary-export'' else ''export-complex'')"

definition export_reserve ::
  "string \<Rightarrow> export_payload \<Rightarrow> string \<Rightarrow> string \<Rightarrow> string \<Rightarrow> instant \<Rightarrow> export_db
     \<Rightarrow> (export_error, export_db \<times> export_row) result" where
  "export_reserve kind payload sha sub job_prefix now db =
     (if py_strip sub = [] then Inl (ExportValueError ''requested_by_sub is required'') else
      if job_prefix \<noteq> expected_prefix kind
        then Inl (ExportValueError ''Export operation kind and queue identity do not match'') else
      if list_ex (\<lambda>r. ex_requested_by_sub r = sub \<and> is_active r) (xdb_rows db)
        then Inl (ExportOperationCapacityError ''Requester already has an active export'') else
      if MAX_ACTIVE_EXPORT_OPERATIONS \<le> length (filter is_active (xdb_rows db))
        then Inl (ExportOperationCapacityError ''Export queue reached its active capacity'') else
      let i = xdb_next_id db;
          r = new_export i kind (job_prefix @ '':'' @ nat_digits i) payload sha sub now;
          rs = xdb_rows db @ [r]
      in if export_checks r \<and> unique_checks rs
         then Inr (\<lparr>xdb_rows = rs, xdb_next_id = i + 1\<rparr>, r)
         else Inl (ExportPostgresError ''export operation constraint''))"

definition export_get :: "nat \<Rightarrow> export_db \<Rightarrow> export_row option" where
  "export_get i db = row_by ex_id i (xdb_rows db)"

definition get_owned :: "nat \<Rightarrow> string \<Rightarrow> export_db \<Rightarrow> export_row option" where
  "get_owned i sub db = List.find (\<lambda>r. ex_id r = i \<and> ex_requested_by_sub r = sub) (xdb_rows db)"

definition not_expired :: "instant \<Rightarrow> export_row \<Rightarrow> bool" where
  "not_expired now r = (case ex_expires_at r of None \<Rightarrow> False | Some x \<Rightarrow> now < x)"

definition resumable :: "string \<Rightarrow> instant \<Rightarrow> export_row \<Rightarrow> bool" where
  "resumable sub now r \<longleftrightarrow> ex_requested_by_sub r = sub \<and> ex_kind r \<in> set complex_kinds
     \<and> (is_active r \<or> (ex_status r = Done \<and> not_expired now r \<and> ex_download_claimed_at r = None))"

definition get_resumable_owned :: "string \<Rightarrow> instant \<Rightarrow> export_db \<Rightarrow> export_row option" where
  "get_resumable_owned sub now db =
     (case sort_key (\<lambda>r. (if is_active r then 0 else 1 :: nat, - ex_created_at r))
        (filter (resumable sub now) (xdb_rows db)) of [] \<Rightarrow> None | r # _ \<Rightarrow> Some r)"

text \<open>An UPDATE of one row by its id: the updated row, if the condition held.\<close>

definition update_one ::
  "(export_row \<Rightarrow> bool) \<Rightarrow> (export_row \<Rightarrow> export_row) \<Rightarrow> export_db
     \<Rightarrow> (export_error, export_db \<times> export_row option) result" where
  "update_one P f db = res_bind (update_exports P f db) (\<lambda>db'.
     Inr (db', map_option f (List.find P (xdb_rows db))))"

definition download_row :: "instant \<Rightarrow> export_row \<Rightarrow> export_row" where
  "download_row now r = r\<lparr>ex_download_claimed_at := Some now, ex_updated_at := now\<rparr>"

definition downloadable :: "nat \<Rightarrow> string \<Rightarrow> instant \<Rightarrow> export_row \<Rightarrow> bool" where
  "downloadable i sub now r \<longleftrightarrow> ex_id r = i \<and> ex_requested_by_sub r = sub \<and> ex_status r = Done
     \<and> not_expired now r \<and> ex_download_claimed_at r = None"

definition claim_download_owned ::
  "nat \<Rightarrow> string \<Rightarrow> instant \<Rightarrow> export_db \<Rightarrow> (export_error, export_db \<times> export_row option) result" where
  "claim_download_owned i sub now db = update_one (downloadable i sub now) (download_row now) db"

definition export_claim_row :: "string \<Rightarrow> int \<Rightarrow> instant \<Rightarrow> export_row \<Rightarrow> export_row" where
  "export_claim_row owner lease now r = r\<lparr>ex_status := Running, ex_owner := Some owner,
     ex_epoch := ex_epoch r + 1, ex_lease_until := Some (now + seconds lease),
     ex_started_at := Some now, ex_updated_at := now\<rparr>"

definition export_claim ::
  "nat \<Rightarrow> string \<Rightarrow> int \<Rightarrow> string list \<Rightarrow> instant \<Rightarrow> export_db
     \<Rightarrow> (export_error, export_db \<times> export_row option) result" where
  "export_claim i owner lease kinds now db =
     (if kinds = [] then Inl (ExportValueError ''Export worker must declare its allowed operation kinds'')
      else update_one (\<lambda>r. ex_id r = i \<and> ex_status r = Queued \<and> ex_kind r \<in> set kinds)
             (export_claim_row owner lease now) db)"

definition runs_as :: "nat \<Rightarrow> string \<Rightarrow> nat \<Rightarrow> export_row \<Rightarrow> bool" where
  "runs_as i owner epoch r \<longleftrightarrow> ex_id r = i \<and> ex_status r = Running
     \<and> ex_owner r = Some owner \<and> ex_epoch r = epoch"

definition heartbeat_row :: "int \<Rightarrow> instant \<Rightarrow> export_row \<Rightarrow> export_row" where
  "heartbeat_row lease now r = r\<lparr>ex_lease_until := Some (now + seconds lease), ex_updated_at := now\<rparr>"

text \<open>\<^verbatim>\<open>updated is not None\<close>\<close>

definition update_flag ::
  "(export_row \<Rightarrow> bool) \<Rightarrow> (export_row \<Rightarrow> export_row) \<Rightarrow> export_db
     \<Rightarrow> (export_error, export_db \<times> bool) result" where
  "update_flag P f db = res_bind (update_one P f db) (\<lambda>(db', r). Inr (db', r \<noteq> None))"

definition export_heartbeat ::
  "nat \<Rightarrow> string \<Rightarrow> nat \<Rightarrow> int \<Rightarrow> instant \<Rightarrow> export_db \<Rightarrow> (export_error, export_db \<times> bool) result" where
  "export_heartbeat i owner epoch lease now db =
     update_flag (runs_as i owner epoch) (heartbeat_row lease now) db"

definition export_complete_row :: "artifact_facts \<Rightarrow> int \<Rightarrow> instant \<Rightarrow> export_row \<Rightarrow> export_row" where
  "export_complete_row a ttl now r = r\<lparr>ex_status := Done,
     ex_artifact_key := Some (af_key a), ex_artifact_sha256 := Some (af_sha256 a),
     ex_artifact_size := Some (af_size a), ex_peak_rss_bytes := Some (af_peak_rss a),
     ex_build_seconds := Some (af_build_seconds a), ex_cell_count := Some (af_cell_count a),
     ex_row_count := af_row_count a, ex_download_filename := Some (af_filename a),
     ex_error_code := None, ex_lease_until := None, ex_finished_at := Some now,
     ex_expires_at := Some (now + seconds ttl), ex_updated_at := now\<rparr>"

definition lease_alive :: "instant \<Rightarrow> export_row \<Rightarrow> bool" where
  "lease_alive now r = (case ex_lease_until r of None \<Rightarrow> False | Some l \<Rightarrow> now < l)"

definition export_complete ::
  "nat \<Rightarrow> string \<Rightarrow> nat \<Rightarrow> artifact_facts \<Rightarrow> int \<Rightarrow> instant \<Rightarrow> export_db
     \<Rightarrow> (export_error, export_db \<times> bool) result" where
  "export_complete i owner epoch a ttl now db =
     update_flag (\<lambda>r. runs_as i owner epoch r \<and> lease_alive now r) (export_complete_row a ttl now) db"

definition end_row :: "export_status \<Rightarrow> string \<Rightarrow> instant \<Rightarrow> export_row \<Rightarrow> export_row" where
  "end_row st code now r = r\<lparr>ex_status := st, ex_error_code := Some code, ex_lease_until := None,
     ex_finished_at := Some now, ex_updated_at := now\<rparr>"

definition fail_queued :: "nat \<Rightarrow> string \<Rightarrow> instant \<Rightarrow> export_db \<Rightarrow> (export_error, export_db \<times> bool) result" where
  "fail_queued i code now db =
     update_flag (\<lambda>r. ex_id r = i \<and> ex_status r = Queued) (end_row Failed code now) db"

definition fail_running ::
  "nat \<Rightarrow> string \<Rightarrow> nat \<Rightarrow> string \<Rightarrow> bool \<Rightarrow> instant \<Rightarrow> export_db
     \<Rightarrow> (export_error, export_db \<times> bool) result" where
  "fail_running i owner epoch code cancelled now db =
     update_flag (runs_as i owner epoch)
       (\<lambda>r. (end_row (if cancelled then Cancelled else Failed) code now r)\<lparr>ex_artifact_key := None\<rparr>) db"

definition cancel_owned ::
  "nat \<Rightarrow> string \<Rightarrow> instant \<Rightarrow> export_db \<Rightarrow> (export_error, export_db \<times> export_row option) result" where
  "cancel_owned i sub now db =
     update_one (\<lambda>r. ex_id r = i \<and> ex_requested_by_sub r = sub \<and> is_active r)
       (end_row Cancelled ''cancelled_by_user'' now) db"

definition is_stale :: "int \<Rightarrow> instant \<Rightarrow> export_row \<Rightarrow> bool" where
  "is_stale timeout now r \<longleftrightarrow> (ex_status r = Queued \<and> ex_created_at r < now - seconds timeout)
     \<or> (ex_status r = Running \<and> (case ex_lease_until r of None \<Rightarrow> False | Some l \<Rightarrow> l \<le> now))"

definition stale_row :: "instant \<Rightarrow> export_row \<Rightarrow> export_row" where
  "stale_row now r = (end_row Failed
     (if ex_status r = Queued then ''queue_stale'' else ''worker_lease_expired'') now r)\<lparr>ex_artifact_key := None\<rparr>"

definition reconcile_stale ::
  "int \<Rightarrow> instant \<Rightarrow> export_db \<Rightarrow> (export_error, export_db \<times> nat list) result" where
  "reconcile_stale timeout now db = res_bind (update_exports (is_stale timeout now) (stale_row now) db)
     (\<lambda>db'. Inr (db', map ex_id (filter (is_stale timeout now) (xdb_rows db))))"

definition is_due :: "instant \<Rightarrow> export_row \<Rightarrow> bool" where
  "is_due now r \<longleftrightarrow> ex_status r = Done \<and> (case ex_expires_at r of None \<Rightarrow> False | Some x \<Rightarrow> x \<le> now)"

definition due_rows :: "(nat \<Rightarrow> bool) \<Rightarrow> instant \<Rightarrow> export_row list \<Rightarrow> export_row list" where
  "due_rows locked now rs =
     take 500 (sort_key (\<lambda>r. case ex_expires_at r of None \<Rightarrow> 0 | Some x \<Rightarrow> x)
       (filter (\<lambda>r. is_due now r \<and> \<not> locked (ex_id r)) rs))"

definition expire_row :: "instant \<Rightarrow> export_row \<Rightarrow> export_row" where
  "expire_row now r = r\<lparr>ex_status := Expired, ex_artifact_key := None, ex_lease_until := None,
     ex_updated_at := now\<rparr>"

text \<open>\<open>locked\<close>: the rows other transactions hold, which SKIP LOCKED passes over.\<close>

definition claim_expired ::
  "(nat \<Rightarrow> bool) \<Rightarrow> instant \<Rightarrow> export_db \<Rightarrow> (export_error, export_db \<times> (nat \<times> string option) list) result" where
  "claim_expired locked now db =
     (let due = due_rows locked now (xdb_rows db) in
      res_bind (update_exports (\<lambda>r. ex_id r \<in> set (map ex_id due) \<and> ex_status r = Done) (expire_row now) db)
        (\<lambda>db'. Inr (db', map (\<lambda>r. (ex_id r, ex_artifact_key r)) due)))"

definition corrupt_row :: "instant \<Rightarrow> export_row \<Rightarrow> export_row" where
  "corrupt_row now r = r\<lparr>ex_status := Failed, ex_artifact_key := None,
     ex_error_code := Some ''artifact_integrity_failed'', ex_lease_until := None, ex_updated_at := now\<rparr>"

definition mark_corrupt :: "nat \<Rightarrow> string \<Rightarrow> instant \<Rightarrow> export_db \<Rightarrow> (export_error, export_db \<times> bool) result" where
  "mark_corrupt i key now db =
     update_flag (\<lambda>r. ex_id r = i \<and> ex_status r = Done \<and> ex_artifact_key r = Some key) (corrupt_row now) db"

definition active_artifact_keys :: "instant \<Rightarrow> export_db \<Rightarrow> string set" where
  "active_artifact_keys now db = set (List.map_filter ex_artifact_key
     (filter (\<lambda>r. ex_status r = Done \<and> not_expired now r) (xdb_rows db)))"

end
