(* ===== verification/Export_Lifecycle.thy ===== *)
theory Export_Lifecycle
  imports Export_Operations
begin

text \<open>
  The export store as a machine of its transactions: its invariant, the fence of the
  single execution, the single download, and the outcomes of admission, publication,
  reconciliation and expiry.
\<close>

section \<open>The machine\<close>

definition export_empty :: "export_db \<Rightarrow> bool" where
  "export_empty db \<longleftrightarrow> db = \<lparr>xdb_rows = [], xdb_next_id = 1\<rparr>"

inductive export_step :: "export_db \<Rightarrow> export_db \<Rightarrow> bool" where
  xs_reserve: "export_reserve kind p sha sub pre now db = Inr (db', r) \<Longrightarrow> export_step db db'"
| xs_download: "claim_download_owned i sub now db = Inr (db', x) \<Longrightarrow> export_step db db'"
| xs_claim: "export_claim i owner lease kinds now db = Inr (db', x) \<Longrightarrow> export_step db db'"
| xs_heartbeat: "export_heartbeat i owner epoch lease now db = Inr (db', b) \<Longrightarrow> export_step db db'"
| xs_complete: "export_complete i owner epoch a ttl now db = Inr (db', b) \<Longrightarrow> export_step db db'"
| xs_fail_queued: "fail_queued i code now db = Inr (db', b) \<Longrightarrow> export_step db db'"
| xs_fail_running: "fail_running i owner epoch code c now db = Inr (db', b) \<Longrightarrow> export_step db db'"
| xs_cancel: "cancel_owned i sub now db = Inr (db', x) \<Longrightarrow> export_step db db'"
| xs_reconcile: "reconcile_stale timeout now db = Inr (db', is) \<Longrightarrow> export_step db db'"
| xs_expire: "claim_expired locked now db = Inr (db', ks) \<Longrightarrow> export_step db db'"
| xs_corrupt: "mark_corrupt i key now db = Inr (db', b) \<Longrightarrow> export_step db db'"

abbreviation export_reachable :: "export_db \<Rightarrow> bool" where
  "export_reachable \<equiv> reachable_from export_empty export_step"

definition export_row_wf :: "nat \<Rightarrow> export_row \<Rightarrow> bool" where
  "export_row_wf n r \<longleftrightarrow> export_checks r \<and> 0 < ex_id r \<and> ex_id r < n
     \<and> ex_job_id r = expected_prefix (ex_kind r) @ '':'' @ nat_digits (ex_id r)
     \<and> ex_epoch r \<le> 1 \<and> (ex_status r = Queued \<longrightarrow> ex_epoch r = 0)"

definition export_inv :: "export_db \<Rightarrow> bool" where
  "export_inv db \<longleftrightarrow> unique_checks (xdb_rows db) \<and> 0 < xdb_next_id db
     \<and> (\<forall>r \<in> set (xdb_rows db). export_row_wf (xdb_next_id db) r)
     \<and> length (filter is_active (xdb_rows db)) \<le> MAX_ACTIVE_EXPORT_OPERATIONS"

section \<open>Updates\<close>

text \<open>No row function takes an operation back to the queue or moves the epoch of a claimed one.\<close>

definition epoch_ok :: "export_row \<Rightarrow> export_row \<Rightarrow> bool" where
  "epoch_ok r s \<longleftrightarrow> ex_status s \<noteq> Queued \<and> ex_epoch r \<le> ex_epoch s
     \<and> (if ex_status r = Queued then ex_epoch s \<le> ex_epoch r + 1 else ex_epoch s = ex_epoch r)"

lemmas export_row_defs = download_row_def export_claim_row_def heartbeat_row_def
  export_complete_row_def end_row_def stale_row_def expire_row_def corrupt_row_def

lemma update_oneE:
  assumes "update_one P f db = Inr (db', x)"
  obtains "update_exports P f db = Inr db'" and "x = map_option f (List.find P (xdb_rows db))"
  using assms by (auto simp: update_one_def res_simps)

lemma update_flagE:
  assumes "update_flag P f db = Inr (db', b)"
  obtains "update_exports P f db = Inr db'" and "b \<longleftrightarrow> list_ex P (xdb_rows db)"
proof -
  from assms have "update_exports P f db = Inr db'" "b \<longleftrightarrow> List.find P (xdb_rows db) \<noteq> None"
    by (auto simp: update_flag_def update_one_def res_simps)
  then show ?thesis
    using that by (auto simp: find_None_iff list_ex_iff)
qed

lemma export_step_update:
  assumes "export_step db db'"
  obtains kind p sha sub pre now r where "export_reserve kind p sha sub pre now db = Inr (db', r)"
  | P f where "update_exports P f db = Inr db'" and "\<And>r. P r \<Longrightarrow> epoch_ok r (f r)"
  using assms
proof cases
  case (xs_reserve kind p sha sub pre now r)
  then show ?thesis by (rule that(1))
next
  case xs_download
  then show ?thesis
    unfolding claim_download_owned_def
    by (elim update_oneE) (erule that(2), simp add: downloadable_def epoch_ok_def export_row_defs)
next
  case xs_claim
  then show ?thesis
    unfolding export_claim_def
    by (auto split: if_splits elim!: update_oneE intro!: that(2) simp: epoch_ok_def export_row_defs)
next
  case xs_heartbeat
  then show ?thesis
    unfolding export_heartbeat_def
    by (elim update_flagE) (erule that(2), simp add: runs_as_def epoch_ok_def export_row_defs)
next
  case xs_complete
  then show ?thesis
    unfolding export_complete_def
    by (elim update_flagE) (erule that(2), simp add: runs_as_def epoch_ok_def export_row_defs)
next
  case xs_fail_queued
  then show ?thesis
    unfolding fail_queued_def
    by (elim update_flagE) (erule that(2), simp add: epoch_ok_def export_row_defs)
next
  case xs_fail_running
  then show ?thesis
    unfolding fail_running_def
    by (elim update_flagE) (erule that(2), simp add: runs_as_def epoch_ok_def export_row_defs)
next
  case xs_cancel
  then show ?thesis
    unfolding cancel_owned_def
    by (elim update_oneE) (erule that(2), simp add: epoch_ok_def export_row_defs)
next
  case xs_reconcile
  then show ?thesis
    unfolding reconcile_stale_def
    by (auto simp: res_simps intro!: that(2)) (simp add: epoch_ok_def export_row_defs)
next
  case xs_expire
  then show ?thesis
    unfolding claim_expired_def Let_def
    by (auto simp: res_simps intro!: that(2)) (simp add: epoch_ok_def export_row_defs)
next
  case xs_corrupt
  then show ?thesis
    unfolding mark_corrupt_def
    by (elim update_flagE) (erule that(2), simp add: epoch_ok_def export_row_defs)
qed

lemma update_exports_InrD:
  assumes "update_exports P f db = Inr db'"
  shows "xdb_rows db' = upd_where P f (xdb_rows db)" and "xdb_next_id db' = xdb_next_id db"
    and "unique_checks (xdb_rows db')"
    and "\<And>r. r \<in> set (xdb_rows db) \<Longrightarrow> P r \<Longrightarrow> guard_export_transition r (f r) \<and> export_checks (f r)"
  using assms by (auto simp: update_exports_def Let_def list_all_iff split: if_splits)

lemma guard_exportD:
  assumes "guard_export_transition r s"
  shows "same_request r s" and "is_active s \<Longrightarrow> is_active r"
    and "ex_status r \<notin> {Failed, Cancelled, Expired}"
    and "ex_status r = Done \<Longrightarrow> \<not> is_active s"
    and "ex_status r = Done \<Longrightarrow> ex_download_claimed_at r \<noteq> None \<Longrightarrow> ex_download_claimed_at s \<noteq> None"
  using assms by (auto simp: guard_export_transition_def is_active_def split: export_status.splits if_splits)

lemma length_filter_upd_le:
  assumes "\<And>r. r \<in> set t \<Longrightarrow> P r \<Longrightarrow> Q (f r) \<Longrightarrow> Q r"
  shows "length (filter Q (upd_where P f t)) \<le> length (filter Q t)"
  using assms by (induction t) (auto simp: le_SucI)

lemma inv_update_exports:
  assumes inv: "export_inv db" and upd: "update_exports P f db = Inr db'"
    and ep: "\<And>r. P r \<Longrightarrow> epoch_ok r (f r)"
  shows "export_inv db'"
proof -
  note D = update_exports_InrD [OF upd]
  have "export_row_wf (xdb_next_id db) (f r)" if r: "r \<in> set (xdb_rows db)" "P r" for r
  proof -
    have "same_request r (f r)" "export_checks (f r)"
      using D(4) [OF r] guard_exportD(1) by blast+
    moreover have "export_row_wf (xdb_next_id db) r" using inv r by (simp add: export_inv_def)
    ultimately show ?thesis
      using ep [OF r(2)] by (auto simp: export_row_wf_def same_request_def epoch_ok_def split: if_splits)
  qed
  moreover have "length (filter is_active (xdb_rows db')) \<le> length (filter is_active (xdb_rows db))"
    unfolding D(1) by (rule length_filter_upd_le) (use D(4) guard_exportD(2) in blast)
  ultimately show ?thesis
    using inv D(3) by (auto simp: export_inv_def D(1,2) set_upd_where)
qed

lemma inv_export_reserve:
  assumes inv: "export_inv db" and res: "export_reserve kind p sha sub pre now db = Inr (db', r)"
  shows "export_inv db'"
proof -
  let ?i = "xdb_next_id db"
  from res have pre: "pre = expected_prefix kind"
    and cap: "length (filter is_active (xdb_rows db)) < MAX_ACTIVE_EXPORT_OPERATIONS"
    and r: "r = new_export ?i kind (pre @ '':'' @ nat_digits ?i) p sha sub now"
    and ok: "export_checks r" "unique_checks (xdb_rows db @ [r])"
    and db': "db' = \<lparr>xdb_rows = xdb_rows db @ [r], xdb_next_id = ?i + 1\<rparr>"
    by (auto simp: export_reserve_def Let_def split: if_splits)
  have "export_row_wf (?i + 1) r"
    using inv ok(1) pre unfolding r by (simp add: export_row_wf_def export_inv_def new_export_def)
  moreover have "export_row_wf (?i + 1) x" if "x \<in> set (xdb_rows db)" for x
    using inv that by (auto simp: export_inv_def export_row_wf_def)
  ultimately show ?thesis
    using cap ok(2) by (auto simp: export_inv_def db')
qed

lemma inv_export_step: "export_inv db \<Longrightarrow> export_step db db' \<Longrightarrow> export_inv db'"
  by (erule export_step_update) (auto intro: inv_export_reserve inv_update_exports)

lemma export_inv_empty: "export_empty db \<Longrightarrow> export_inv db"
  by (simp add: export_empty_def export_inv_def unique_checks_def)

lemma export_ids: "export_inv db \<Longrightarrow> distinct (map ex_id (xdb_rows db))"
  by (simp add: export_inv_def unique_checks_def)

lemma export_row_checks: "export_inv db \<Longrightarrow> r \<in> set (xdb_rows db) \<Longrightarrow> export_checks r"
  by (simp add: export_inv_def export_row_wf_def)

section \<open>The export store as a fenced store\<close>

definition export_epoch :: "export_db \<Rightarrow> nat \<Rightarrow> nat" where
  "export_epoch db i = (case row_by ex_id i (xdb_rows db) of None \<Rightarrow> 0 | Some r \<Rightarrow> ex_epoch r)"

definition export_holds :: "export_db \<Rightarrow> nat \<Rightarrow> string \<Rightarrow> nat \<Rightarrow> instant \<Rightarrow> bool" where
  "export_holds db i owner epoch now \<longleftrightarrow> list_ex (runs_as i owner epoch) (xdb_rows db)"

text \<open>The row of an id after a step: it exists for ever, with the same request.\<close>

lemma export_row_step:
  assumes inv: "export_inv db" and step: "export_step db db'" and r: "r \<in> set (xdb_rows db)"
  shows "\<exists>s \<in> set (xdb_rows db'). s = r \<or> (guard_export_transition r s \<and> epoch_ok r s)"
proof (cases rule: export_step_update [OF step])
  case 1
  with r show ?thesis by (auto simp: export_reserve_def Let_def split: if_splits)
next
  case (2 P f)
  from r have "(if P r then f r else r) \<in> set (xdb_rows db')"
    by (auto simp: update_exports_InrD(1) [OF 2(1)] set_upd_where)
  moreover have "P r \<Longrightarrow> guard_export_transition r (f r) \<and> epoch_ok r (f r)"
    using update_exports_InrD(4) [OF 2(1) r] 2(2) by blast
  ultimately show ?thesis by (metis (full_types))
qed

lemma export_epoch_row:
  "export_inv db \<Longrightarrow> r \<in> set (xdb_rows db) \<Longrightarrow> export_epoch db (ex_id r) = ex_epoch r"
  using row_by_unique [OF export_ids, of db r] by (simp add: export_epoch_def)

lemma export_epoch_step:
  assumes inv: "export_inv db" and step: "export_step db db'"
  shows "export_epoch db i \<le> export_epoch db' i"
proof (cases "row_by ex_id i (xdb_rows db)")
  case (Some r)
  then have r: "r \<in> set (xdb_rows db)" "ex_id r = i" by (auto dest: row_by_SomeD)
  obtain s where s: "s \<in> set (xdb_rows db')" "s = r \<or> guard_export_transition r s \<and> epoch_ok r s"
    using export_row_step [OF inv step r(1)] by blast
  then have "ex_id s = i" "ex_epoch r \<le> ex_epoch s"
    using r(2) guard_exportD(1) by (auto simp: same_request_def epoch_ok_def)
  then show ?thesis
    using export_epoch_row [OF inv r(1)] export_epoch_row [OF inv_export_step [OF inv step] s(1)] r by simp
qed (simp add: export_epoch_def)

lemma export_holds_row:
  assumes "export_inv db" and "export_holds db i ow ep now"
  obtains r where "row_by ex_id i (xdb_rows db) = Some r" and "r \<in> set (xdb_rows db)" and "runs_as i ow ep r"
  using assms row_by_unique [OF export_ids [OF assms(1)]]
  by (auto simp: export_holds_def list_ex_iff runs_as_def)

interpretation xp: fenced_store export_empty export_step export_inv export_epoch export_holds
proof
  fix db :: export_db and i ep ep' now now' and ow ow' :: string
  assume inv: "export_inv db" and h: "export_holds db i ow ep now"
  show "export_epoch db i = ep"
    by (rule export_holds_row [OF inv h]) (auto simp: export_epoch_def runs_as_def)
  assume h': "export_holds db i ow' ep' now'"
  obtain r r' where "row_by ex_id i (xdb_rows db) = Some r" "runs_as i ow ep r"
    "row_by ex_id i (xdb_rows db) = Some r'" "runs_as i ow' ep' r'"
    using export_holds_row [OF inv h] export_holds_row [OF inv h'] by metis
  then show "ow = ow'" by (simp add: runs_as_def)
qed (auto intro: export_inv_empty inv_export_step export_epoch_step)

section \<open>Admission\<close>

text \<open>
  C13: Bounded admission. On every reachable store at most three exports are queued or
  running, and no requester has two of them.
\<close>

theorem export_capacity:
  assumes "export_reachable db"
  shows "length (filter is_active (xdb_rows db)) \<le> MAX_ACTIVE_EXPORT_OPERATIONS
     \<and> (\<forall>r \<in> set (xdb_rows db). \<forall>s \<in> set (xdb_rows db). is_active r \<and> is_active s
          \<and> ex_requested_by_sub r = ex_requested_by_sub s \<longrightarrow> r = s)"
proof -
  have inv: "export_inv db" by (rule xp.reachable_inv [OF assms])
  have "distinct (map ex_requested_by_sub (filter is_active (xdb_rows db)))"
    using inv by (simp add: export_inv_def unique_checks_def)
  then have "\<forall>r \<in> set (xdb_rows db). \<forall>s \<in> set (xdb_rows db). is_active r \<and> is_active s
          \<and> ex_requested_by_sub r = ex_requested_by_sub s \<longrightarrow> r = s"
    unfolding distinct_partial_key [OF export_ids [OF inv]]
    using distinct_key_eq [OF export_ids [OF inv]] by blast
  moreover have "length (filter is_active (xdb_rows db)) \<le> MAX_ACTIVE_EXPORT_OPERATIONS"
    using inv by (simp add: export_inv_def)
  ultimately show ?thesis by blast
qed

lemma job_id_inject:
  "expected_prefix k @ '':'' @ nat_digits i = expected_prefix k' @ '':'' @ nat_digits j \<Longrightarrow> i = j"
  by (auto simp: expected_prefix_def split: if_splits)

lemma starts_with_append [simp]: "starts_with p (p @ s)"
  by (simp add: starts_with_def)

lemma complex_prefix: "\<forall>kind \<in> set complex_kinds. expected_prefix kind = ''export-complex''"
  by code_simp

lemma salary_prefix: "\<forall>kind \<in> set salary_kinds. expected_prefix kind = ''salary-export''"
  by code_simp

lemma expected_job_id_check:
  assumes "kind \<in> set (complex_kinds @ salary_kinds)" and "0 < i"
  shows "job_id_check kind (expected_prefix kind @ '':'' @ nat_digits i)"
proof -
  have c: "expected_prefix kind @ '':'' @ nat_digits i = ''export-complex:'' @ nat_digits i" if "kind \<in> set complex_kinds"
    using that complex_prefix by simp
  have s: "expected_prefix kind @ '':'' @ nat_digits i = ''salary-export:'' @ nat_digits i" if "kind \<in> set salary_kinds"
    using that salary_prefix by simp
  from assms(1) consider "kind \<in> set complex_kinds" | "kind \<in> set salary_kinds" by auto
  then show ?thesis
  proof cases
    case 1
    then show ?thesis
      unfolding job_id_check_def c [OF 1]
      using nat_digits_positive [OF assms(2)] by (simp only: starts_with_append append_eq_conv_conj) simp
  next
    case 2
    then show ?thesis
      unfolding job_id_check_def s [OF 2]
      using nat_digits_positive [OF assms(2)] by (simp only: starts_with_append append_eq_conv_conj) simp
  qed
qed

lemma new_export_checks:
  assumes kind: "kind \<in> set (complex_kinds @ salary_kinds)" and "0 < i" and "is_sha256 sha"
    and "py_strip sub \<noteq> []" and "salary_request_check kind p"
  shows "export_checks (new_export i kind (expected_prefix kind @ '':'' @ nat_digits i) p sha sub now)"
  using assms sql_btrim_nonempty_of_py_strip [OF assms(4)] expected_job_id_check [OF assms(1,2)]
  by (simp add: export_checks_def column_checks_def lifecycle_check_def artifact_check_def
      row_count_check_def new_export_def opt_all_def)

lemma new_export_unique:
  assumes inv: "export_inv db" and "\<not> list_ex (\<lambda>r. ex_requested_by_sub r = sub \<and> is_active r) (xdb_rows db)"
  shows "unique_checks (xdb_rows db @ [new_export (xdb_next_id db) kind
     (expected_prefix kind @ '':'' @ nat_digits (xdb_next_id db)) p sha sub now])" (is "unique_checks (_ @ [?r])")
proof -
  have old: "ex_id x < xdb_next_id db" "ex_job_id x = expected_prefix (ex_kind x) @ '':'' @ nat_digits (ex_id x)"
    if "x \<in> set (xdb_rows db)" for x
    using inv that by (auto simp: export_inv_def export_row_wf_def)
  have new: "ex_id ?r = xdb_next_id db"
    "ex_job_id ?r = expected_prefix kind @ '':'' @ nat_digits (xdb_next_id db)"
    by (simp_all add: new_export_def)
  have "ex_id ?r \<notin> ex_id ` set (xdb_rows db)"
    unfolding new(1) using old(1) by fastforce
  moreover have "ex_job_id ?r \<notin> ex_job_id ` set (xdb_rows db)"
  proof
    assume "ex_job_id ?r \<in> ex_job_id ` set (xdb_rows db)"
    then obtain x where x: "x \<in> set (xdb_rows db)" "ex_job_id ?r = ex_job_id x" by blast
    then have "xdb_next_id db = ex_id x"
      unfolding new(2) old(2) [OF x(1)] by (rule_tac job_id_inject)
    with old(1) [OF x(1)] show False by simp
  qed
  moreover have "ex_requested_by_sub ?r \<notin> ex_requested_by_sub ` {r \<in> set (xdb_rows db). is_active r}"
    using assms(2) by (auto simp: list_ex_iff new_export_def)
  moreover have "ex_artifact_key ?r = None" by (simp add: new_export_def)
  ultimately show ?thesis
    using inv by (simp add: unique_checks_def export_inv_def)
qed

text \<open>
  The outcome of a reservation with a well-formed request. A blank requester or a
  queue prefix that does not match the kind is a value error, an active export of the
  requester or a full queue is a capacity error, and everything else is admitted as a
  queued operation with a fresh id and its job name; the database refuses none.
\<close>

theorem export_reserve_outcome:
  assumes "export_reachable db" and "kind \<in> set (complex_kinds @ salary_kinds)" and "is_sha256 sha"
    and "salary_request_check kind p"
  shows "case export_reserve kind p sha sub pre now db of
      Inl (ExportValueError _) \<Rightarrow> py_strip sub = [] \<or> pre \<noteq> expected_prefix kind
    | Inl (ExportOperationCapacityError _) \<Rightarrow>
        list_ex (\<lambda>r. ex_requested_by_sub r = sub \<and> is_active r) (xdb_rows db)
        \<or> length (filter is_active (xdb_rows db)) = MAX_ACTIVE_EXPORT_OPERATIONS
    | Inl (ExportPostgresError _) \<Rightarrow> False
    | Inr (db', r) \<Rightarrow> xdb_rows db' = xdb_rows db @ [r] \<and> ex_status r = Queued
        \<and> ex_requested_by_sub r = sub \<and> ex_id r \<notin> ex_id ` set (xdb_rows db)
        \<and> ex_job_id r = pre @ '':'' @ nat_digits (ex_id r)"
proof -
  have inv: "export_inv db" by (rule xp.reachable_inv [OF assms(1)])
  then have "0 < xdb_next_id db" "xdb_next_id db \<notin> ex_id ` set (xdb_rows db)"
    by (auto simp: export_inv_def export_row_wf_def)
  moreover have "length (filter is_active (xdb_rows db)) \<le> MAX_ACTIVE_EXPORT_OPERATIONS"
    using inv by (simp add: export_inv_def)
  ultimately show ?thesis
    using new_export_checks [OF assms(2) _ assms(3) _ assms(4)] new_export_unique [OF inv]
    by (auto simp: export_reserve_def Let_def new_export_def)
qed

text \<open>A sample store: one queued export of user \<open>u1\<close>, claimed by worker \<open>w\<close>, then published.\<close>

definition x_payload :: export_payload where
  "x_payload = \<lparr>px_json = ''{}'', px_has_row_count = False, px_site_code_is_array = None, px_export_kind = None\<rparr>"

definition x_hash :: string where
  "x_hash = replicate 64 (CHR ''a'')"

definition x_queued :: export_row where
  "x_queued = new_export 1 ''daily_metrics'' ''export-complex:1'' x_payload x_hash ''u1'' 0"

definition x_db :: "export_row \<Rightarrow> export_db" where
  "x_db r = \<lparr>xdb_rows = [r], xdb_next_id = 2\<rparr>"

definition x_facts :: artifact_facts where
  "x_facts = \<lparr>af_key = replicate 32 (CHR ''b'') @ ''.xlsx'', af_sha256 = x_hash, af_size = 10, af_peak_rss = 10,
     af_build_seconds = 1, af_cell_count = 4, af_row_count = None, af_filename = ''report.xlsx''\<rparr>"

abbreviation x_running :: export_row where
  "x_running \<equiv> export_claim_row ''w'' 60 10 x_queued"

abbreviation x_done :: export_row where
  "x_done \<equiv> export_complete_row x_facts 600 20 x_running"

lemma x_reserve: "export_reserve ''daily_metrics'' x_payload x_hash ''u1'' ''export-complex'' 0
    \<lparr>xdb_rows = [], xdb_next_id = 1\<rparr> = Inr (x_db x_queued, x_queued)"
  by code_simp

lemma x_claim: "export_claim 1 ''w'' 60 [''daily_metrics''] 10 (x_db x_queued) = Inr (x_db x_running, Some x_running)"
  by code_simp

lemma x_complete: "export_complete 1 ''w'' 1 x_facts 600 20 (x_db x_running) = Inr (x_db x_done, True)"
  by code_simp

lemma x_download: "claim_download_owned 1 ''u1'' 30 (x_db x_done)
    = Inr (x_db (download_row 30 x_done), Some (download_row 30 x_done))"
  by code_simp

lemma x_empty_reachable: "export_reachable \<lparr>xdb_rows = [], xdb_next_id = 1\<rparr>"
  by (rule reach_init) (simp add: export_empty_def)

lemma x_queued_reachable: "export_reachable (x_db x_queued)"
  using x_empty_reachable by (rule reach_step) (rule xs_reserve [OF x_reserve])

lemma x_running_reachable: "export_reachable (x_db x_running)"
  using x_queued_reachable by (rule reach_step) (rule xs_claim [OF x_claim])

lemma x_done_reachable: "export_reachable (x_db x_done)"
  using x_running_reachable by (rule reach_step) (rule xs_complete [OF x_complete])

text \<open>Three users with a queued export each: a fourth is refused.\<close>

definition x_full :: "nat \<Rightarrow> export_db" where
  "x_full n = \<lparr>xdb_rows = take n [x_queued, new_export 2 ''daily_metrics'' ''export-complex:2'' x_payload x_hash ''u2'' 1,
     new_export 3 ''daily_metrics'' ''export-complex:3'' x_payload x_hash ''u3'' 2], xdb_next_id = Suc n\<rparr>"

lemma x_full_steps:
  "export_reserve ''daily_metrics'' x_payload x_hash ''u2'' ''export-complex'' 1 (x_db x_queued)
     = Inr (x_full 2, new_export 2 ''daily_metrics'' ''export-complex:2'' x_payload x_hash ''u2'' 1)"
  "export_reserve ''daily_metrics'' x_payload x_hash ''u3'' ''export-complex'' 2 (x_full 2)
     = Inr (x_full 3, new_export 3 ''daily_metrics'' ''export-complex:3'' x_payload x_hash ''u3'' 2)"
  by code_simp+

lemma x_full_reachable: "export_reachable (x_full 3)"
  using reach_step [OF reach_step [OF x_queued_reachable xs_reserve [OF x_full_steps(1)]] xs_reserve [OF x_full_steps(2)]] .

theorem export_capacity_witness:
  "length (filter is_active (xdb_rows (x_full 3))) \<le> MAX_ACTIVE_EXPORT_OPERATIONS
   \<and> length (filter is_active (xdb_rows (x_full 3))) = MAX_ACTIVE_EXPORT_OPERATIONS
   \<and> export_reserve ''daily_metrics'' x_payload x_hash ''u4'' ''export-complex'' 3 (x_full 3)
      = Inl (ExportOperationCapacityError ''Export queue reached its active capacity'')"
proof -
  have "length (filter is_active (xdb_rows (x_full 3))) = MAX_ACTIVE_EXPORT_OPERATIONS" by code_simp
  moreover have "export_reserve ''daily_metrics'' x_payload x_hash ''u4'' ''export-complex'' 3 (x_full 3)
      = Inl (ExportOperationCapacityError ''Export queue reached its active capacity'')" by code_simp
  ultimately show ?thesis using export_capacity [OF x_full_reachable] by blast
qed

theorem export_reserve_outcome_witness:
  "is_sha256 x_hash \<and> (case export_reserve ''daily_metrics'' x_payload x_hash ''u2'' ''export-complex'' 5 (x_db x_queued) of
     Inl _ \<Rightarrow> False | Inr (db', r) \<Rightarrow> ex_job_id r = ''export-complex:2'')"
proof -
  have h: "''daily_metrics'' \<in> set (complex_kinds @ salary_kinds)" "is_sha256 x_hash"
    "salary_request_check ''daily_metrics'' x_payload"
    by code_simp+
  have "is_ok (export_reserve ''daily_metrics'' x_payload x_hash ''u2'' ''export-complex'' 5 (x_db x_queued))"
    by code_simp
  then obtain db' r where r: "export_reserve ''daily_metrics'' x_payload x_hash ''u2'' ''export-complex'' 5 (x_db x_queued) = Inr (db', r)"
    by (auto simp: is_ok_iff)
  moreover from r have "ex_id r = 2"
    by (auto simp: export_reserve_def Let_def new_export_def x_db_def split: if_splits)
  moreover have "nat_digits 2 = ''2''" by code_simp
  ultimately show ?thesis
    using export_reserve_outcome [OF x_queued_reachable h, of "''u2''" "''export-complex''" 5] h(2) by simp
qed

section \<open>Single execution and single download\<close>

lemma update_exports_none:
  assumes "export_inv db" and "\<And>r. r \<in> set (xdb_rows db) \<Longrightarrow> \<not> P r"
  shows "update_exports P f db = Inr db"
  using assms by (auto simp: update_exports_def Let_def list_all_iff upd_where_none export_inv_def)

lemma update_one_none:
  assumes "export_inv db" and "\<And>r. r \<in> set (xdb_rows db) \<Longrightarrow> \<not> P r"
  shows "update_one P f db = Inr (db, None)"
  using update_exports_none [OF assms] assms(2)
  by (auto simp: update_one_def find_None_iff)

lemma update_flag_Inr:
  "update_exports P f db = Inr db' \<Longrightarrow> update_flag P f db = Inr (db', list_ex P (xdb_rows db))"
  by (auto simp: update_flag_def update_one_def list_ex_iff find_None_iff not_None_eq [symmetric]
      simp del: not_None_eq)

lemma update_flag_none:
  assumes "export_inv db" and "\<And>r. r \<in> set (xdb_rows db) \<Longrightarrow> \<not> P r"
  shows "update_flag P f db = Inr (db, False)"
  using update_one_none [OF assms] by (simp add: update_flag_def)

lemma update_one_SomeD:
  assumes inv: "export_inv db" and upd: "update_one P f db = Inr (db', Some s)"
  obtains r where "r \<in> set (xdb_rows db)" and "P r" and "s = f r" and "s \<in> set (xdb_rows db')" and "ex_id s = ex_id r"
  using upd
proof (rule update_oneE)
  assume u: "update_exports P f db = Inr db'" and "Some s = map_option f (List.find P (xdb_rows db))"
  then obtain r where "List.find P (xdb_rows db) = Some r" and s: "s = f r"
    by (cases "List.find P (xdb_rows db)") auto
  then have r: "r \<in> set (xdb_rows db)" "P r" by (auto simp: find_Some_iff)
  then have "s \<in> set (xdb_rows db')"
    using s by (force simp: update_exports_InrD(1) [OF u] set_upd_where)
  moreover have "ex_id s = ex_id r"
    using update_exports_InrD(4) [OF u r] s guard_exportD(1) by (auto simp: same_request_def)
  ultimately show ?thesis using that r s by blast
qed

text \<open>What a claim fixes for ever about the operation \<open>i\<close>.\<close>

definition claimed_by :: "nat \<Rightarrow> string \<Rightarrow> nat \<Rightarrow> export_db \<Rightarrow> bool" where
  "claimed_by i ow ep db \<longleftrightarrow> (\<exists>r \<in> set (xdb_rows db). ex_id r = i \<and> ex_status r \<noteq> Queued
     \<and> (ex_status r = Running \<longrightarrow> ex_owner r = Some ow \<and> ex_epoch r = ep))"

lemma guard_claimed:
  assumes "guard_export_transition r s" and "epoch_ok r s" and "ex_status r \<noteq> Queued"
    and "ex_status r = Running \<Longrightarrow> ex_owner r = Some ow \<and> ex_epoch r = ep"
  shows "ex_status s \<noteq> Queued \<and> (ex_status s = Running \<longrightarrow> ex_owner s = Some ow \<and> ex_epoch s = ep)"
  using assms by (auto simp: guard_export_transition_def epoch_ok_def split: export_status.splits if_splits)

lemma claimed_by_step:
  assumes inv: "export_inv db" and step: "export_step db db'" and "claimed_by i ow ep db"
  shows "claimed_by i ow ep db'"
proof -
  from assms(3) obtain r where r: "r \<in> set (xdb_rows db)" "ex_id r = i" "ex_status r \<noteq> Queued"
    "ex_status r = Running \<Longrightarrow> ex_owner r = Some ow \<and> ex_epoch r = ep"
    by (auto simp: claimed_by_def)
  obtain s where s: "s \<in> set (xdb_rows db')" "s = r \<or> guard_export_transition r s \<and> epoch_ok r s"
    using export_row_step [OF inv step r(1)] by blast
  then have "ex_id s = i" "ex_status s \<noteq> Queued \<and> (ex_status s = Running \<longrightarrow> ex_owner s = Some ow \<and> ex_epoch s = ep)"
    using r guard_exportD(1) guard_claimed [of r s ow ep] by (auto simp: same_request_def)
  with s(1) show ?thesis by (auto simp: claimed_by_def)
qed

lemma claimed_by_row:
  assumes inv: "export_inv db" and "claimed_by i ow ep db" and "r \<in> set (xdb_rows db)" and "ex_id r = i"
  shows "ex_status r \<noteq> Queued" and "ex_status r = Running \<Longrightarrow> ex_owner r = Some ow \<and> ex_epoch r = ep"
proof -
  from assms(2) obtain x where x: "x \<in> set (xdb_rows db)" "ex_id x = i" "ex_status x \<noteq> Queued"
    "ex_status x = Running \<Longrightarrow> ex_owner x = Some ow \<and> ex_epoch x = ep"
    by (auto simp: claimed_by_def)
  have "x = r" by (rule distinct_key_eq [OF export_ids [OF inv] x(1) assms(3)]) (simp add: x(2) assms(4))
  with x show "ex_status r \<noteq> Queued" and "ex_status r = Running \<Longrightarrow> ex_owner r = Some ow \<and> ex_epoch r = ep"
    by auto
qed

text \<open>
  C21: An export is executed once, by one worker. After a successful claim, whatever
  transactions follow, no other claim of the operation succeeds, and a heartbeat,
  completion or failure report with another owner or epoch finds nothing to update.
\<close>

theorem export_single_execution:
  assumes "export_reachable db" and claim: "export_claim i ow lease kinds now db = Inr (db1, Some r)"
    and later: "export_step\<^sup>*\<^sup>* db1 db2" and kinds: "kinds' \<noteq> []"
  shows "export_claim i ow' lease' kinds' now' db2 = Inr (db2, None)
    \<and> ((ow', ep') \<noteq> (ow, ex_epoch r) \<longrightarrow>
         export_heartbeat i ow' ep' lease' now' db2 = Inr (db2, False)
       \<and> export_complete i ow' ep' a ttl now' db2 = Inr (db2, False)
       \<and> fail_running i ow' ep' code c now' db2 = Inr (db2, False))"
proof -
  have inv: "export_inv db" by (rule xp.reachable_inv [OF assms(1)])
  have inv1: "export_inv db1" by (rule inv_export_step [OF inv xs_claim [OF claim]])
  have inv2: "export_inv db2" by (rule xp.inv_steps [OF later inv1])
  from claim have "update_one (\<lambda>r. ex_id r = i \<and> ex_status r = Queued \<and> ex_kind r \<in> set kinds)
      (export_claim_row ow lease now) db = Inr (db1, Some r)"
    by (auto simp: export_claim_def split: if_splits)
  then obtain q where "ex_id q = i" "r = export_claim_row ow lease now q" "r \<in> set (xdb_rows db1)"
    by (rule update_one_SomeD [OF inv]) (rule that; simp)
  then have "claimed_by i ow (ex_epoch r) db1"
    unfolding claimed_by_def by (intro bexI [of _ r]) (simp_all add: export_claim_row_def)
  then have cl: "claimed_by i ow (ex_epoch r) db2"
    by (rule xp.stable_steps [OF claimed_by_step later inv1, rotated -1]) auto
  note row = claimed_by_row [OF inv2 cl]
  have "export_claim i ow' lease' kinds' now' db2 = Inr (db2, None)"
    using row kinds by (auto simp: export_claim_def intro!: update_one_none [OF inv2])
  moreover have "\<not> runs_as i ow' ep' x" if "x \<in> set (xdb_rows db2)" "(ow', ep') \<noteq> (ow, ex_epoch r)" for x
    using row(2) [OF that(1)] that(2) by (auto simp: runs_as_def)
  ultimately show ?thesis
    by (auto simp: export_heartbeat_def export_complete_def fail_running_def intro!: update_flag_none [OF inv2])
qed

theorem export_single_execution_witness:
  "export_claim 1 ''w'' 60 [''daily_metrics''] 10 (x_db x_queued) = Inr (x_db x_running, Some x_running)
   \<and> export_claim 1 ''v'' 60 [''daily_metrics''] 12 (x_db x_running) = Inr (x_db x_running, None)"
  using export_single_execution [OF x_queued_reachable x_claim rtranclp.rtrancl_refl,
      of "[''daily_metrics'']" "''v''" 60 12] x_claim by simp

definition downloaded :: "nat \<Rightarrow> export_db \<Rightarrow> bool" where
  "downloaded i db \<longleftrightarrow> (\<exists>r \<in> set (xdb_rows db). ex_id r = i \<and> \<not> is_active r \<and> ex_download_claimed_at r \<noteq> None)"

lemma downloaded_step:
  assumes inv: "export_inv db" and step: "export_step db db'" and "downloaded i db"
  shows "downloaded i db'"
proof -
  from assms(3) obtain r where r: "r \<in> set (xdb_rows db)" "ex_id r = i" "\<not> is_active r" "ex_download_claimed_at r \<noteq> None"
    by (auto simp: downloaded_def)
  obtain s where s: "s \<in> set (xdb_rows db')" "s = r \<or> guard_export_transition r s \<and> epoch_ok r s"
    using export_row_step [OF inv step r(1)] by blast
  have "ex_status r = Done" if "guard_export_transition r s"
    using that r(3) guard_exportD(3) by (cases "ex_status r") (auto simp: is_active_def)
  with s r have "ex_id s = i" "\<not> is_active s" "ex_download_claimed_at s \<noteq> None"
    using guard_exportD by (auto simp: same_request_def)
  with s(1) show ?thesis by (auto simp: downloaded_def)
qed

text \<open>
  An artifact is handed out once, to its requester, before it expires. A download
  claim that succeeds returns a completed operation of the caller whose expiry lies ahead,
  and no later download claim of it succeeds, for anybody.
\<close>

theorem export_single_download:
  assumes "export_reachable db" and claim: "claim_download_owned i sub now db = Inr (db1, Some r)"
    and later: "export_step\<^sup>*\<^sup>* db1 db2"
  shows "ex_id r = i \<and> ex_requested_by_sub r = sub \<and> ex_status r = Done \<and> not_expired now r
     \<and> ex_artifact_key r \<noteq> None \<and> claim_download_owned i sub' now' db2 = Inr (db2, None)"
proof -
  have inv: "export_inv db" by (rule xp.reachable_inv [OF assms(1)])
  have inv1: "export_inv db1" by (rule inv_export_step [OF inv xs_download [OF claim]])
  have inv2: "export_inv db2" by (rule xp.inv_steps [OF later inv1])
  obtain q where q: "q \<in> set (xdb_rows db)" "downloadable i sub now q" "r = download_row now q" "r \<in> set (xdb_rows db1)"
    using update_one_SomeD [OF inv claim [unfolded claim_download_owned_def]] by blast
  have facts: "ex_id r = i \<and> ex_requested_by_sub r = sub \<and> ex_status r = Done \<and> not_expired now r"
    using q(2,3) by (simp add: downloadable_def download_row_def not_expired_def)
  moreover have "ex_artifact_key r \<noteq> None"
    using export_row_checks [OF inv1 q(4)] facts by (simp add: export_checks_def artifact_check_def)
  moreover have "downloaded i db1"
    unfolding downloaded_def using q facts
    by (intro bexI [of _ r]) (simp_all add: is_active_def download_row_def)
  then have "downloaded i db2"
    by (rule xp.stable_steps [OF downloaded_step later inv1, rotated -1]) auto
  then obtain y where y: "y \<in> set (xdb_rows db2)" "ex_id y = i" "ex_download_claimed_at y \<noteq> None"
    by (auto simp: downloaded_def)
  have "\<not> downloadable i sub' now' x" if "x \<in> set (xdb_rows db2)" for x
    using distinct_key_eq [OF export_ids [OF inv2] that y(1)] y by (auto simp: downloadable_def)
  then have "claim_download_owned i sub' now' db2 = Inr (db2, None)"
    unfolding claim_download_owned_def by (rule update_one_none [OF inv2])
  ultimately show ?thesis by blast
qed

theorem export_single_download_witness:
  "claim_download_owned 1 ''u1'' 40 (x_db (download_row 30 x_done)) = Inr (x_db (download_row 30 x_done), None)"
  using export_single_download [OF x_done_reachable x_download rtranclp.rtrancl_refl] by blast

section \<open>Publication and cleanup\<close>

lemma unique_update:
  assumes u: "unique_checks rs"
    and req: "\<And>r. r \<in> set rs \<Longrightarrow> P r \<Longrightarrow> same_request r (f r) \<and> (is_active (f r) \<longrightarrow> is_active r)"
    and art: "\<And>r s. r \<in> set rs \<Longrightarrow> s \<in> set rs \<Longrightarrow> ex_artifact_key (upd r) \<noteq> None \<Longrightarrow>
        ex_artifact_key (upd r) = ex_artifact_key (upd s) \<Longrightarrow> ex_id r = ex_id s"
    and upd: "upd = (\<lambda>r. if P r then f r else r)"
  shows "unique_checks (upd_where P f rs)"
proof -
  let ?rs = "upd_where P f rs"
  have mp: "?rs = map upd rs" by (simp add: upd upd_where_def)
  have keep: "ex_id (upd r) = ex_id r" "ex_job_id (upd r) = ex_job_id r"
    "ex_requested_by_sub (upd r) = ex_requested_by_sub r" "is_active (upd r) \<Longrightarrow> is_active r" if "r \<in> set rs" for r
    using req [OF that] by (cases "P r"; simp add: upd same_request_def)+
  have ids: "map ex_id ?rs = map ex_id rs" "map ex_job_id ?rs = map ex_job_id rs"
    by (simp_all add: mp keep)
  have d: "distinct (map ex_id rs)" "distinct (map ex_id ?rs)"
    using u ids by (simp_all add: unique_checks_def)
  have "distinct (map ex_requested_by_sub (filter is_active rs))"
    using u by (simp add: unique_checks_def)
  then have act: "ex_id r = ex_id s" if "r \<in> set rs" "s \<in> set rs" "is_active r" "is_active s"
    "ex_requested_by_sub r = ex_requested_by_sub s" for r s
    using that unfolding distinct_partial_key [OF d(1)] by blast
  have "distinct (map ex_requested_by_sub (filter is_active ?rs))"
    unfolding distinct_partial_key [OF d(2)]
  proof (intro ballI impI)
    fix r' s' assume "r' \<in> set ?rs" "s' \<in> set ?rs" and a: "is_active r'" "is_active s'"
      "ex_requested_by_sub r' = ex_requested_by_sub s'"
    then obtain r s where rs: "r \<in> set rs" "r' = upd r" "s \<in> set rs" "s' = upd s" by (auto simp: mp)
    with a keep show "ex_id r' = ex_id s'"
      using act [OF rs(1,3)] by simp
  qed
  moreover have "distinct (map ex_artifact_key (filter (\<lambda>r. ex_artifact_key r \<noteq> None) ?rs))"
    unfolding distinct_partial_key [OF d(2)]
  proof (intro ballI impI)
    fix r' s' assume "r' \<in> set ?rs" "s' \<in> set ?rs" and a: "ex_artifact_key r' \<noteq> None"
      "ex_artifact_key r' = ex_artifact_key s'"
    then obtain r s where rs: "r \<in> set rs" "r' = upd r" "s \<in> set rs" "s' = upd s" by (auto simp: mp)
    then show "ex_id r' = ex_id s'"
      using art [OF rs(1,3)] a keep(1) by simp
  qed
  ultimately show ?thesis
    using u ids by (simp add: unique_checks_def)
qed

lemma unique_artifact:
  assumes "unique_checks rs" and "r \<in> set rs" and "s \<in> set rs"
    and "ex_artifact_key r = Some k" and "ex_artifact_key s = Some k"
  shows "ex_id r = ex_id s"
proof -
  have d: "distinct (map ex_id rs)" using assms(1) by (simp add: unique_checks_def)
  have "distinct (map ex_artifact_key (filter (\<lambda>r. ex_artifact_key r \<noteq> None) rs))"
    using assms(1) by (simp add: unique_checks_def)
  then have "ex_artifact_key r \<noteq> None \<longrightarrow> ex_artifact_key s \<noteq> None \<longrightarrow>
      ex_artifact_key r = ex_artifact_key s \<longrightarrow> ex_id r = ex_id s"
    unfolding distinct_partial_key [OF d] using assms(2,3) by blast
  with assms(4,5) show ?thesis by simp
qed

lemma unique_update_drop:
  assumes u: "unique_checks rs"
    and req: "\<And>r. r \<in> set rs \<Longrightarrow> P r \<Longrightarrow> same_request r (f r) \<and> (is_active (f r) \<longrightarrow> is_active r)"
    and art: "\<And>r. r \<in> set rs \<Longrightarrow> P r \<Longrightarrow> ex_artifact_key (f r) = None"
  shows "unique_checks (upd_where P f rs)"
proof (rule unique_update [OF u req _ refl])
  fix r s assume rs: "r \<in> set rs" "s \<in> set rs"
    and "ex_artifact_key (if P r then f r else r) \<noteq> None"
    and "ex_artifact_key (if P r then f r else r) = ex_artifact_key (if P s then f s else s)"
  then obtain k where "ex_artifact_key r = Some k" "ex_artifact_key s = Some k"
    using art by (auto split: if_splits)
  then show "ex_id r = ex_id s" by (rule unique_artifact [OF u rs])
qed

definition facts_ok :: "string \<Rightarrow> artifact_facts \<Rightarrow> bool" where
  "facts_ok kind a \<longleftrightarrow> artifact_key_check kind (af_key a) \<and> is_sha256 (af_sha256 a) \<and> 0 < af_size a
     \<and> 0 < af_peak_rss a \<and> 0 \<le> af_build_seconds a \<and> 0 \<le> af_cell_count a
     \<and> sql_btrim (af_filename a) \<noteq> [] \<and> length (af_filename a) \<le> 140
     \<and> (if kind \<in> set salary_kinds then (case af_row_count a of None \<Rightarrow> False | Some n \<Rightarrow> 0 \<le> n)
        else af_row_count a = None)"

lemma complete_row_checks:
  assumes "export_checks r" and "ex_status r = Running" and "facts_ok (ex_kind r) a" and "0 < ttl"
  shows "guard_export_transition r (export_complete_row a ttl now r) \<and> export_checks (export_complete_row a ttl now r)"
proof -
  let ?s = "export_complete_row a ttl now r"
  have f: "ex_kind ?s = ex_kind r" "ex_status ?s = Done" "ex_finished_at ?s = Some now"
    "ex_row_count ?s = af_row_count a"
    by (simp_all add: export_complete_row_def)
  have "guard_export_transition r ?s"
    using assms(2) by (simp add: guard_export_transition_def same_request_def export_complete_row_def)
  moreover have "opt_all (\<lambda>n. 0 \<le> n) (af_row_count a)"
    using assms(3) by (simp add: facts_ok_def opt_all_def split: if_splits option.splits)
  then have "column_checks ?s"
    using assms(1,3) by (simp add: export_checks_def column_checks_def facts_ok_def export_complete_row_def opt_all_def)
  moreover have "lifecycle_check ?s" "artifact_check ?s"
    using assms(4) by (simp_all add: lifecycle_check_def artifact_check_def export_complete_row_def)
  moreover have "row_count_check ?s"
    using assms(3) by (auto simp: row_count_check_def f facts_ok_def split: if_splits option.splits)
  ultimately show ?thesis by (simp add: export_checks_def)
qed

lemma complete_update_ok:
  assumes inv: "export_inv db" and P: "\<And>x. P x \<Longrightarrow> runs_as i ow ep x"
    and r: "r \<in> set (xdb_rows db)" "ex_id r = i" "facts_ok (ex_kind r) a" and ttl: "0 < ttl"
    and fresh: "Some (af_key a) \<notin> ex_artifact_key ` set (xdb_rows db)"
  shows "update_exports P (export_complete_row a ttl now) db
     = Inr (db\<lparr>xdb_rows := upd_where P (export_complete_row a ttl now) (xdb_rows db)\<rparr>)"
proof -
  let ?f = "export_complete_row a ttl now"
  have same: "x = r" if "x \<in> set (xdb_rows db)" "P x" for x
    using distinct_key_eq [OF export_ids [OF inv] that(1) r(1)] P [OF that(2)] r(2) by (simp add: runs_as_def)
  have ok: "guard_export_transition x (?f x) \<and> export_checks (?f x)" if x: "x \<in> set (xdb_rows db)" "P x" for x
    using complete_row_checks [OF export_row_checks [OF inv x(1)]] same [OF x] P [OF x(2)] r(3) ttl
    by (simp add: runs_as_def)
  have "unique_checks (upd_where P ?f (xdb_rows db))"
  proof (rule unique_update [OF _ _ _ refl])
    show u: "unique_checks (xdb_rows db)" using inv by (simp add: export_inv_def)
    show "same_request x (?f x) \<and> (is_active (?f x) \<longrightarrow> is_active x)" if "x \<in> set (xdb_rows db)" "P x" for x
      using ok [OF that] guard_exportD(1,2) by blast
    fix x y assume xy: "x \<in> set (xdb_rows db)" "y \<in> set (xdb_rows db)"
      and key: "ex_artifact_key (if P x then ?f x else x) \<noteq> None"
        "ex_artifact_key (if P x then ?f x else x) = ex_artifact_key (if P y then ?f y else y)"
    have "ex_artifact_key (?f z) = Some (af_key a)" for z by (simp add: export_complete_row_def)
    then consider "P x" "P y" | k where "ex_artifact_key x = Some k" "ex_artifact_key y = Some k"
      using key fresh xy by (auto split: if_splits) (metis image_eqI)+
    then show "ex_id x = ex_id y"
    proof cases
      case 1
      then show ?thesis using same xy by blast
    next
      case 2
      then show ?thesis by (rule unique_artifact [OF u xy])
    qed
  qed
  with ok show ?thesis by (simp add: update_exports_def Let_def list_all_iff)
qed

text \<open>
  Publication. The live holder of a running export that reports a well-formed, unused
  artifact with a positive time to live is always accepted: the operation is completed
  with exactly that artifact, expires after the time to live, and its key is active.
\<close>

theorem export_complete_publishes:
  assumes "export_reachable db" and "export_holds db i ow ep now"
    and row: "export_get i db = Some r" and alive: "lease_alive now r"
    and "facts_ok (ex_kind r) a" and ttl: "0 < ttl"
    and fresh: "Some (af_key a) \<notin> ex_artifact_key ` set (xdb_rows db)"
  shows "\<exists>db' s. export_complete i ow ep a ttl now db = Inr (db', True) \<and> export_get i db' = Some s
     \<and> ex_status s = Done \<and> ex_artifact_key s = Some (af_key a) \<and> ex_artifact_sha256 s = Some (af_sha256 a)
     \<and> ex_expires_at s = Some (now + seconds ttl) \<and> af_key a \<in> active_artifact_keys now db'"
proof -
  let ?P = "\<lambda>r. runs_as i ow ep r \<and> lease_alive now r" and ?f = "export_complete_row a ttl now"
  let ?db = "db\<lparr>xdb_rows := upd_where ?P ?f (xdb_rows db)\<rparr>"
  have inv: "export_inv db" by (rule xp.reachable_inv [OF assms(1)])
  from row have r: "r \<in> set (xdb_rows db)" "ex_id r = i"
    by (auto simp: export_get_def dest: row_by_SomeD)
  have runs: "runs_as i ow ep r"
    using export_holds_row [OF inv assms(2)] row by (metis export_get_def option.inject)
  have upd: "update_exports ?P ?f db = Inr ?db"
    by (rule complete_update_ok [OF inv _ r assms(5) ttl fresh, of _ ow ep]) simp
  have "export_complete i ow ep a ttl now db = Inr (?db, True)"
    using update_flag_Inr [OF upd] r(1) runs alive
    by (auto simp: export_complete_def list_ex_iff)
  moreover have "export_get i ?db = Some (?f r)"
    using row runs alive
    by (simp add: export_get_def row_by_upd_where export_complete_row_def)
  moreover have "?f r \<in> set (xdb_rows ?db)"
    using r(1) runs alive by (force simp: set_upd_where)
  then have "af_key a \<in> active_artifact_keys now ?db"
    using ttl unfolding active_artifact_keys_def
    by (force simp: map_filter_def export_complete_row_def not_expired_def image_iff)
  ultimately show ?thesis
    by (intro exI [of _ ?db] exI [of _ "?f r"]) (simp add: export_complete_row_def)
qed

theorem export_complete_publishes_witness:
  "\<exists>db'. export_complete 1 ''w'' 1 x_facts 600 20 (x_db x_running) = Inr (db', True)
     \<and> af_key x_facts \<in> active_artifact_keys 20 db'"
proof -
  have h: "export_holds (x_db x_running) 1 ''w'' 1 20" "export_get 1 (x_db x_running) = Some x_running"
    "lease_alive 20 x_running" "facts_ok (ex_kind x_running) x_facts"
    by code_simp+
  have "Some (af_key x_facts) \<notin> ex_artifact_key ` set (xdb_rows (x_db x_running))"
    by (simp add: x_db_def x_queued_def new_export_def export_claim_row_def)
  with export_complete_publishes [OF x_running_reachable h, of 600] show ?thesis by auto
qed

lemma end_row_checks:
  assumes "export_checks r" and "is_active r" and "st \<in> {Failed, Cancelled}" and "export_error_re code"
  shows "guard_export_transition r ((end_row st code now r)\<lparr>ex_artifact_key := None\<rparr>)
     \<and> export_checks ((end_row st code now r)\<lparr>ex_artifact_key := None\<rparr>)"
proof -
  let ?s = "(end_row st code now r)\<lparr>ex_artifact_key := None\<rparr>"
  have "ex_row_count r = None"
    using assms(1,2) by (auto simp: export_checks_def row_count_check_def is_active_def)
  moreover have "guard_export_transition r ?s"
    using assms(2,3) by (auto simp: is_active_def guard_export_transition_def same_request_def end_row_def)
  moreover have "column_checks ?s"
    using assms(1,4) by (simp add: export_checks_def column_checks_def end_row_def opt_all_def)
  moreover have "lifecycle_check ?s" "artifact_check ?s"
    using assms(3) by (auto simp: lifecycle_check_def artifact_check_def end_row_def)
  ultimately show ?thesis
    using assms(3) by (auto simp: export_checks_def row_count_check_def end_row_def)
qed

lemma stale_codes: "export_error_re ''queue_stale''" "export_error_re ''worker_lease_expired''"
  by code_simp+

lemma stale_row_checks:
  assumes "export_checks r" and "is_stale timeout now r"
  shows "guard_export_transition r (stale_row now r) \<and> export_checks (stale_row now r)"
  using end_row_checks [OF assms(1), of Failed _ now] assms(2) stale_codes
  by (auto simp: stale_row_def is_stale_def is_active_def)

lemma expire_row_checks:
  assumes "export_checks r" and "ex_status r = Done"
  shows "guard_export_transition r (expire_row now r) \<and> export_checks (expire_row now r)"
proof -
  let ?s = "expire_row now r"
  have c: "column_checks r" "lifecycle_check r" "artifact_check r" "row_count_check r"
    using assms(1) by (simp_all add: export_checks_def)
  have "guard_export_transition r ?s"
    using assms(2) c(3)
    by (simp add: guard_export_transition_def same_request_def same_artifact_def expire_row_def artifact_check_def)
  moreover have "column_checks ?s"
    using c(1) by (simp add: column_checks_def expire_row_def opt_all_def)
  moreover have "lifecycle_check ?s" "artifact_check ?s" "row_count_check ?s"
    using assms(2) c by (auto simp: lifecycle_check_def artifact_check_def row_count_check_def expire_row_def)
  ultimately show ?thesis by (simp add: export_checks_def)
qed

lemma update_exports_drop_ok:
  assumes inv: "export_inv db"
    and ok: "\<And>r. r \<in> set (xdb_rows db) \<Longrightarrow> P r \<Longrightarrow> guard_export_transition r (f r) \<and> export_checks (f r)"
    and art: "\<And>r. ex_artifact_key (f r) = None"
  shows "update_exports P f db = Inr (db\<lparr>xdb_rows := upd_where P f (xdb_rows db)\<rparr>)"
proof -
  have "unique_checks (upd_where P f (xdb_rows db))"
  proof (rule unique_update_drop)
    show "unique_checks (xdb_rows db)" using inv by (simp add: export_inv_def)
    show "same_request r (f r) \<and> (is_active (f r) \<longrightarrow> is_active r)" if "r \<in> set (xdb_rows db)" "P r" for r
      using ok [OF that] guard_exportD(1,2) by blast
  qed (rule art)
  with ok show ?thesis by (simp add: update_exports_def Let_def list_all_iff)
qed

lemma active_artifact_keys_iff:
  "k \<in> active_artifact_keys now db \<longleftrightarrow>
     (\<exists>r \<in> set (xdb_rows db). ex_status r = Done \<and> not_expired now r \<and> ex_artifact_key r = Some k)"
  by (force simp: active_artifact_keys_def map_filter_def image_iff)

lemma due_rowsD: "r \<in> set (due_rows locked now rs) \<Longrightarrow> r \<in> set rs \<and> is_due now r"
  using set_sort_key_take [of 500 "\<lambda>r. case ex_expires_at r of None \<Rightarrow> 0 | Some x \<Rightarrow> x"
      "filter (\<lambda>r. is_due now r \<and> \<not> locked (ex_id r)) rs"]
  by (auto simp: due_rows_def)

lemma is_due_not_expired: "is_due now r \<Longrightarrow> \<not> not_expired now r"
  by (auto simp: is_due_def not_expired_def split: option.splits)

lemma due_target:
  assumes inv: "export_inv db" and "r \<in> set (xdb_rows db)" and "ex_id r \<in> ex_id ` set (due_rows locked now (xdb_rows db))"
  shows "is_due now r"
proof -
  from assms(3) obtain q where "q \<in> set (due_rows locked now (xdb_rows db))" "ex_id r = ex_id q" by blast
  then show ?thesis
    using due_rowsD [of q] distinct_key_eq [OF export_ids [OF inv] assms(2), of q] by auto
qed

lemma active_not_due:
  assumes inv: "export_inv db" and "k \<in> active_artifact_keys now db" and "q \<in> set (due_rows locked now (xdb_rows db))"
  shows "ex_artifact_key q \<noteq> Some k"
proof
  assume q: "ex_artifact_key q = Some k"
  from assms(2) obtain r where r: "r \<in> set (xdb_rows db)" "not_expired now r" "ex_artifact_key r = Some k"
    by (auto simp: active_artifact_keys_iff)
  have "q \<in> set (xdb_rows db)" "is_due now q" using due_rowsD [OF assms(3)] by auto
  moreover from this have "ex_id r = ex_id q"
    using inv r q by (intro unique_artifact [of "xdb_rows db" r q k]) (auto simp: export_inv_def)
  ultimately have "r = q"
    using r(1) by (intro distinct_key_eq [OF export_ids [OF inv]])
  with r(2) is_due_not_expired \<open>is_due now q\<close> show False by blast
qed

text \<open>
  Cleanup is total and safe. Reconciliation is never refused and leaves no stale
  operation behind; expiry is never refused, returns only keys of artifacts past their
  expiry, and no artifact that can still be downloaded is among them or disappears.
\<close>

theorem export_cleanup_safe:
  assumes "export_reachable db"
  shows "(\<exists>db' is. reconcile_stale timeout now db = Inr (db', is) \<and> \<not> list_ex (is_stale timeout now) (xdb_rows db'))
     \<and> (\<exists>db' ks. claim_expired locked now db = Inr (db', ks)
          \<and> active_artifact_keys now db' = active_artifact_keys now db
          \<and> Some ` active_artifact_keys now db \<inter> snd ` set ks = {})"
proof
  have inv: "export_inv db" by (rule xp.reachable_inv [OF assms])
  let ?r = "db\<lparr>xdb_rows := upd_where (is_stale timeout now) (stale_row now) (xdb_rows db)\<rparr>"
  have "update_exports (is_stale timeout now) (stale_row now) db = Inr ?r"
    using export_row_checks [OF inv] stale_row_checks
    by (intro update_exports_drop_ok [OF inv]) (auto simp: stale_row_def)
  moreover have "\<not> is_stale timeout now (stale_row now r)" for r
    by (simp add: is_stale_def stale_row_def end_row_def)
  then have "\<not> list_ex (is_stale timeout now) (xdb_rows ?r)"
    by (auto simp: list_ex_iff set_upd_where)
  ultimately show "\<exists>db' is. reconcile_stale timeout now db = Inr (db', is)
      \<and> \<not> list_ex (is_stale timeout now) (xdb_rows db')"
    by (intro exI [of _ ?r]) (simp add: reconcile_stale_def)
  let ?due = "due_rows locked now (xdb_rows db)"
  let ?P = "\<lambda>r. ex_id r \<in> set (map ex_id ?due) \<and> ex_status r = Done"
  let ?e = "db\<lparr>xdb_rows := upd_where ?P (expire_row now) (xdb_rows db)\<rparr>"
  have due: "is_due now r" if "r \<in> set (xdb_rows db)" "?P r" for r
    by (rule due_target [OF inv that(1), of locked]) (use that(2) in simp)
  have "update_exports ?P (expire_row now) db = Inr ?e"
    using export_row_checks [OF inv] expire_row_checks
    by (intro update_exports_drop_ok [OF inv]) (auto simp: expire_row_def)
  moreover have "active_artifact_keys now ?e = active_artifact_keys now db"
  proof -
    have "k \<in> active_artifact_keys now ?e \<longleftrightarrow> k \<in> active_artifact_keys now db" for k
      using due is_due_not_expired unfolding active_artifact_keys_iff
      by (auto simp: set_upd_where expire_row_def split: if_splits)
    then show ?thesis by blast
  qed
  moreover have "Some ` active_artifact_keys now db \<inter> snd ` set (map (\<lambda>r. (ex_id r, ex_artifact_key r)) ?due) = {}"
    using active_not_due [OF inv] by (fastforce simp: image_image)
  ultimately show "\<exists>db' ks. claim_expired locked now db = Inr (db', ks)
          \<and> active_artifact_keys now db' = active_artifact_keys now db
          \<and> Some ` active_artifact_keys now db \<inter> snd ` set ks = {}"
    by (intro exI [of _ ?e]) (auto simp: claim_expired_def Let_def)
qed

theorem export_cleanup_safe_witness:
  "\<exists>db' ks. claim_expired (\<lambda>_. False) 30 (x_db x_done) = Inr (db', ks)
     \<and> active_artifact_keys 30 db' = active_artifact_keys 30 (x_db x_done)"
  using export_cleanup_safe [OF x_done_reachable, where now = 30 and locked = "\<lambda>_. False"] by blast

end
