(* ===== verification/Grile_Domain.thy ===== *)
theory Grile_Domain
  imports Retail_Prelude
begin

text \<open>
  The pure domain rules of the monthly Grile closeout: the completion window of a month
  (\<^verbatim>\<open>grile/domain/completion.py\<close>), the state transitions of a monthly operation
  (\<^verbatim>\<open>grile/domain/monthly_state.py\<close>) and the health of a data provider
  (\<^verbatim>\<open>grile/domain/provider_health.py\<close>).
\<close>

datatype grile_error = GrileValueError string | InvalidMonthlyOperationTransition string

section \<open>Completion window\<close>

record py_date =
  dt_year :: int
  dt_month :: int
  dt_day :: int

datatype date_value = NoDate | PyDate py_date | PyDateTime py_date

definition coerce_business_date :: "py_date \<Rightarrow> date_value \<Rightarrow> py_date" where
  "coerce_business_date business_today v = (case v of
     NoDate \<Rightarrow> business_today | PyDateTime d \<Rightarrow> d | PyDate d \<Rightarrow> d)"

definition bad_month :: grile_error where
  "bad_month = GrileValueError ''month must use YYYY-MM''"

text \<open>\<^verbatim>\<open>month.split("-", 1)\<close> gives two texts exactly when there is a hyphen.\<close>

definition parse_month :: "string \<Rightarrow> (grile_error, int \<times> int) result" where
  "parse_month month =
     (let year_text = takeWhile (\<lambda>c. c \<noteq> CHR ''-'') month;
          rest = dropWhile (\<lambda>c. c \<noteq> CHR ''-'') month
      in case rest of [] \<Rightarrow> Inl bad_month
       | _ # month_text \<Rightarrow>
          (case (py_int year_text, py_int month_text) of
             (Some year, Some month_number) \<Rightarrow>
               if length month \<noteq> 7 \<or> length year_text \<noteq> 4 \<or> length month_text \<noteq> 2
                  \<or> \<not> (1 \<le> month_number \<and> month_number \<le> 12)
               then Inl bad_month else Inr (year, month_number)
           | _ \<Rightarrow> Inl bad_month))"

definition is_leap :: "int \<Rightarrow> bool" where
  "is_leap y \<longleftrightarrow> y mod 4 = 0 \<and> (y mod 100 \<noteq> 0 \<or> y mod 400 = 0)"

text \<open>\<^verbatim>\<open>calendar.monthrange(year, month)[1]\<close>\<close>

definition month_length :: "int \<Rightarrow> int \<Rightarrow> int" where
  "month_length y m = (if m = 2 then (if is_leap y then 29 else 28)
     else if m \<in> {4, 6, 9, 11} then 30 else 31)"

definition completed_days_for_month ::
  "py_date \<Rightarrow> string \<Rightarrow> date_value \<Rightarrow> py_date option \<Rightarrow> (grile_error, int) result" where
  "completed_days_for_month business_today run_month as_of explicit_cutoff =
     res_bind (parse_month run_month) (\<lambda>(year, month_number).
       let current = coerce_business_date business_today as_of;
           last_day = month_length year month_number
       in case explicit_cutoff of
            Some c \<Rightarrow>
              if (dt_year c, dt_month c) \<noteq> (year, month_number)
              then Inl (GrileValueError ''completion cutoff must belong to run_month'')
              else Inr (min (dt_day c) last_day)
          | None \<Rightarrow>
              if (year, month_number) < (dt_year current, dt_month current) then Inr last_day
              else if (dt_year current, dt_month current) < (year, month_number) then Inr 0
              else Inr (max (min (dt_day current - 1) last_day) 0))"

section \<open>Monthly operation states\<close>

datatype month_state = MQueued | MRunning | MCompleted | MFailed

datatype month_event = MClaim | MComplete | MFail | MReject

definition month_state_of :: "string \<Rightarrow> month_state option" where
  "month_state_of s = map_of [(''queued'', MQueued), (''running'', MRunning),
     (''completed'', MCompleted), (''failed'', MFailed)] s"

definition month_event_of :: "string \<Rightarrow> month_event option" where
  "month_event_of s = map_of [(''claim'', MClaim), (''complete'', MComplete),
     (''fail'', MFail), (''reject'', MReject)] s"

definition ALLOWED_TRANSITIONS :: "((month_state \<times> month_event) \<times> month_state) list" where
  "ALLOWED_TRANSITIONS = [((MQueued, MClaim), MRunning), ((MQueued, MReject), MFailed),
     ((MRunning, MComplete), MCompleted), ((MRunning, MFail), MFailed)]"

definition transition_monthly_operation ::
  "string \<Rightarrow> string \<Rightarrow> (grile_error, month_state \<times> month_event \<times> month_state) result" where
  "transition_monthly_operation state event =
     (case (month_state_of state, month_event_of event) of
        (Some previous, Some requested) \<Rightarrow>
          (case map_of ALLOWED_TRANSITIONS (previous, requested) of
             None \<Rightarrow> Inl (InvalidMonthlyOperationTransition ''invalid'')
           | Some current \<Rightarrow> Inr (previous, requested, current))
      | _ \<Rightarrow> Inl (InvalidMonthlyOperationTransition ''unknown''))"

definition month_state_text :: "month_state \<Rightarrow> string" where
  "month_state_text s = (case s of MQueued \<Rightarrow> ''queued'' | MRunning \<Rightarrow> ''running''
     | MCompleted \<Rightarrow> ''completed'' | MFailed \<Rightarrow> ''failed'')"

definition month_event_text :: "month_event \<Rightarrow> string" where
  "month_event_text e = (case e of MClaim \<Rightarrow> ''claim'' | MComplete \<Rightarrow> ''complete''
     | MFail \<Rightarrow> ''fail'' | MReject \<Rightarrow> ''reject'')"

datatype start_status = Started | AlreadyRunning | AlreadyCompleted | AlreadyFailed | NotFound

text \<open>A persisted JSON result: an object with its status entry, or another value.\<close>

datatype json_result = JObject "string option" string | JOther string

definition safe_persisted_result :: "json_result option \<Rightarrow> json_result option" where
  "safe_persisted_result r = (case r of Some (JObject st t) \<Rightarrow> Some (JObject st t) | _ \<Rightarrow> None)"

text \<open>\<open>operation\<close>: the status text and the result of the persisted row, if there is one.\<close>

definition operation_start_result ::
  "(string \<times> json_result option) option \<Rightarrow> bool \<Rightarrow> start_status \<times> json_result option" where
  "operation_start_result operation transition_claimed = (case operation of
     None \<Rightarrow> (NotFound, None)
   | Some (persisted_raw, r) \<Rightarrow>
       (if transition_claimed then Started
        else case month_state_of persisted_raw of
          None \<Rightarrow> AlreadyRunning
        | Some MQueued \<Rightarrow> AlreadyRunning
        | Some MRunning \<Rightarrow> AlreadyRunning
        | Some MCompleted \<Rightarrow> AlreadyCompleted
        | Some MFailed \<Rightarrow> AlreadyFailed,
        safe_persisted_result r))"

definition terminal_operation_status :: "string option \<Rightarrow> month_state" where
  "terminal_operation_status result_status =
     (case transition_monthly_operation ''running''
         (if result_status = Some ''success'' then ''complete'' else ''fail'') of
        Inr (_, _, current) \<Rightarrow> current | Inl _ \<Rightarrow> MFailed)"

section \<open>Provider health\<close>

datatype provider_state = Fresh | Stale | ProviderError | Unknown

record provider_health =
  ph_state :: provider_state
  ph_last_attempt_at :: "instant option"
  ph_last_success_at :: "instant option"
  ph_last_error_at :: "instant option"
  ph_last_error_code :: "string option"
  ph_last_error_message :: "string option"
  ph_stale_age_seconds :: "int option"

definition age_seconds :: "instant option \<Rightarrow> instant \<Rightarrow> int option" where
  "age_seconds v now = map_option (\<lambda>t. max 0 ((now - t) div 1000000)) v"

definition max_opt :: "instant option \<Rightarrow> instant option \<Rightarrow> instant option" where
  "max_opt a b = (case (a, b) of (Some x, Some y) \<Rightarrow> Some (max x y) | (Some x, None) \<Rightarrow> Some x
     | (None, Some y) \<Rightarrow> Some y | (None, None) \<Rightarrow> None)"

definition error_is_latest :: "instant option \<Rightarrow> instant option \<Rightarrow> bool" where
  "error_is_latest success err = (case err of None \<Rightarrow> False
     | Some e \<Rightarrow> (case success of None \<Rightarrow> True | Some s \<Rightarrow> s \<le> e))"

definition build_provider_health ::
  "string \<Rightarrow> instant option \<Rightarrow> instant option \<Rightarrow> string option \<Rightarrow> string option \<Rightarrow> int \<Rightarrow> instant \<Rightarrow> py_date
     \<Rightarrow> (grile_error, provider_health) result" where
  "build_provider_health run_month success err code msg stale_after now today =
     (if stale_after \<le> 0 then Inl (GrileValueError ''stale_after_seconds must be positive'') else
      let age = age_seconds success now in
      res_bind (if error_is_latest success err then Inr ProviderError
                else if success = None then Inr Unknown
                else res_bind (parse_month run_month) (\<lambda>(year, month_number).
                  Inr (if (year, month_number) = (dt_year today, dt_month today)
                         \<and> (case age of None \<Rightarrow> False | Some a \<Rightarrow> stale_after < a)
                       then Stale else Fresh)))
        (\<lambda>state. Inr \<lparr>ph_state = state, ph_last_attempt_at = max_opt success err,
           ph_last_success_at = success, ph_last_error_at = err, ph_last_error_code = code,
           ph_last_error_message = msg, ph_stale_age_seconds = age\<rparr>))"

section \<open>The window counts finished days\<close>

definition date_key :: "py_date \<Rightarrow> int \<times> int \<times> int" where
  "date_key d = (dt_year d, dt_month d, dt_day d)"

lemma month_length_bounds: "28 \<le> month_length y m \<and> month_length y m \<le> 31"
  by (simp add: month_length_def)

lemma card_days: "0 \<le> n \<Longrightarrow> int (card {d :: int. 1 \<le> d \<and> d \<le> n}) = n"
  using card_atLeastAtMost_int [of 1 n] by (simp add: atLeastAtMost_def atLeast_def atMost_def Collect_conj_eq)

text \<open>
  Without an explicit cutoff, the completed days of a month are the days of that month
  strictly before the business date: all of a past month, none of a future one. With a
  cutoff inside the month they are its days up to the cutoff, and a cutoff of another month
  is refused.
\<close>

theorem completed_days_counts_finished_days:
  assumes "parse_month run_month = Inr (y, m)" and "current = coerce_business_date business_today as_of"
    and "1 \<le> dt_day current"
  shows "completed_days_for_month business_today run_month as_of cutoff = (case cutoff of
      None \<Rightarrow> Inr (int (card {d. 1 \<le> d \<and> d \<le> month_length y m \<and> (y, m, d) < date_key current}))
    | Some c \<Rightarrow> if (dt_year c, dt_month c) = (y, m) \<and> 1 \<le> dt_day c
        then Inr (int (card {d. 1 \<le> d \<and> d \<le> month_length y m \<and> (y, m, d) \<le> date_key c}))
        else if (dt_year c, dt_month c) = (y, m) then Inr (dt_day c)
        else Inl (GrileValueError ''completion cutoff must belong to run_month''))"
proof (cases cutoff)
  case None
  let ?c = "dt_day current"
  let ?n = "max (min (?c - 1) (month_length y m)) 0"
  have eq: "{d. 1 \<le> d \<and> d \<le> month_length y m \<and> (y, m, d) < date_key current} =
      (if (y, m) < (dt_year current, dt_month current) then {d. 1 \<le> d \<and> d \<le> month_length y m}
       else if (dt_year current, dt_month current) < (y, m) then {}
       else {d. 1 \<le> d \<and> d \<le> ?n})"
    by (auto simp: date_key_def)
  have "int (card {d. 1 \<le> d \<and> d \<le> month_length y m \<and> (y, m, d) < date_key current}) =
      (if (y, m) < (dt_year current, dt_month current) then month_length y m
       else if (dt_year current, dt_month current) < (y, m) then 0 else ?n)"
    unfolding eq using card_days [of "month_length y m"] card_days [of ?n] month_length_bounds [of y m]
    by (simp only: split: if_split) simp
  with None assms show ?thesis
    by (simp only: completed_days_for_month_def res_bind_def sum.case prod.case Let_def option.case split: if_split) simp
next
  case (Some c)
  have "{d. 1 \<le> d \<and> d \<le> month_length y m \<and> (y, m, d) \<le> date_key c} = {d. 1 \<le> d \<and> d \<le> min (dt_day c) (month_length y m)}"
    if "(dt_year c, dt_month c) = (y, m)"
    using that by (auto simp: date_key_def)
  moreover have "min (dt_day c) (month_length y m) = dt_day c" if "\<not> 1 \<le> dt_day c"
    using that month_length_bounds [of y m] by simp
  ultimately show ?thesis
    using Some assms(1) card_days [of "min (dt_day c) (month_length y m)"] month_length_bounds [of y m]
    by (auto simp: completed_days_for_month_def res_simps Let_def)
qed

theorem completed_days_counts_finished_days_witness:
  "completed_days_for_month \<lparr>dt_year = 2024, dt_month = 3, dt_day = 1\<rparr> ''2024-02'' NoDate None
     = Inr (int (card {d. 1 \<le> d \<and> d \<le> (29 :: int) \<and> (2024, 2, d) < (2024 :: int, 3 :: int, 1 :: int)}))"
proof -
  have "parse_month ''2024-02'' = Inr (2024, 2)" by code_simp
  from completed_days_counts_finished_days [OF this refl, of "\<lparr>dt_year = 2024, dt_month = 3, dt_day = 1\<rparr>" NoDate None]
  show ?thesis by (simp add: coerce_business_date_def date_key_def month_length_def is_leap_def)
qed

end
