(* ===== verification/Grile_Monthly.thy ===== *)
theory Grile_Monthly
  imports Retail_Interfaces Grile_Domain
begin

text \<open>
  The persistence of the monthly Grile closeout: reservations, the lease-fenced lifecycle
  of an operation, manifests, per-store reset checkpoints and reconciliation
  (\<^verbatim>\<open>repositories/grile_monthly_*.py\<close>), over the three tables of migrations 012, 028 and
  044 with their constraints. \<open>now\<close> is the transaction timestamp.
\<close>

section \<open>Data\<close>

datatype month_error =
    MonthValueError string
  | MonthRuntimeError string
  | GrileMonthlyRetryBlockedError string
  | MonthPostgresError string

record month_op =
  mo_id :: nat
  mo_op :: string
  mo_closing_month :: string
  mo_only_filter :: "string option"
  mo_dry_run :: bool
  mo_status :: month_state
  mo_job_id :: "string option"
  mo_requested_by_sub :: "string option"
  mo_approved_manifest_id :: "nat option"
  mo_result :: "json_result option"
  mo_error_message :: "string option"
  mo_started_at :: "instant option"
  mo_heartbeat_at :: "instant option"
  mo_finished_at :: "instant option"
  mo_created_at :: instant
  mo_owner :: "string option"
  mo_epoch :: nat
  mo_lease_until :: "instant option"
  mo_classification :: "string option"
  mo_reconciled_at :: "instant option"
  mo_alerted_at :: "instant option"

datatype manifest_status =
  MfBuilding | MfFailed | MfVerified | MfApproved | MfConsumed | MfRolledBack | MfUncertain

record month_manifest =
  mm_id :: nat
  mm_operation_id :: nat
  mm_closing_month :: string
  mm_operation :: string
  mm_status :: manifest_status
  mm_expected_stores :: int
  mm_processed_stores :: int
  mm_expected_agents :: int
  mm_processed_agents :: int
  mm_error_count :: int
  mm_control_totals :: string
  mm_artifacts :: string
  mm_source_backups :: string
  mm_manifest :: string
  mm_sha256 :: "string option"
  mm_requested_by_sub :: string
  mm_approved_by_sub :: "string option"
  mm_approved_at :: "instant option"
  mm_error_code :: "string option"
  mm_verified_at :: "instant option"
  mm_consumed_at :: "instant option"
  mm_updated_at :: instant
  mm_created_at :: instant

datatype item_status = ItPending | ItRunning | ItCompleted | ItError | ItUncertain | ItSkipped

datatype item_phase = LegacyUnknown | SnapshotPersisted | ClearIntent | ClearVerified
  | RollbackIntent | RollbackVerified | RecoveryRequired

datatype rollback_status = RbRestored | RbFailed

record reset_item =
  ri_id :: nat
  ri_operation_id :: nat
  ri_closing_month :: string
  ri_next_month :: string
  ri_site_code :: string
  ri_sheet_id :: string
  ri_company :: string
  ri_store :: string
  ri_status :: item_status
  ri_ranges :: string
  ri_error_message :: "string option"
  ri_started_at :: "instant option"
  ri_completed_at :: "instant option"
  ri_backup_path :: "string option"
  ri_backup_sha256 :: "string option"
  ri_rollback :: "rollback_status option"
  ri_restored_at :: "instant option"
  ri_updated_at :: instant
  ri_created_at :: instant
  ri_phase :: item_phase
  ri_fence_epoch :: nat
  ri_intent_at :: "instant option"
  ri_verified_at :: "instant option"
  ri_reconciled_at :: "instant option"
  ri_recovery_code :: "string option"

record month_db =
  md_ops :: "month_op list"
  md_manifests :: "month_manifest list"
  md_items :: "reset_item list"
  md_next_op :: nat
  md_next_manifest :: nat
  md_next_item :: nat

definition EXECUTION_LEASE_SECONDS :: int where
  "EXECUTION_LEASE_SECONDS = 300"

section \<open>Constraints\<close>

definition sub_length_ok :: "string \<Rightarrow> bool" where
  "sub_length_ok s \<longleftrightarrow> 1 \<le> length (sql_btrim s) \<and> length (sql_btrim s) \<le> 256"

definition op_active :: "month_op \<Rightarrow> bool" where
  "op_active w \<longleftrightarrow> mo_status w \<in> {MQueued, MRunning}"

definition live_reset_completed :: "month_op \<Rightarrow> bool" where
  "live_reset_completed w \<longleftrightarrow> mo_op w = ''reset'' \<and> \<not> mo_dry_run w \<and> mo_status w = MCompleted"

definition coalesce_text :: "string option \<Rightarrow> string" where
  "coalesce_text x = (case x of None \<Rightarrow> [] | Some s \<Rightarrow> s)"

definition op_checks :: "month_op \<Rightarrow> bool" where
  "op_checks w \<longleftrightarrow> mo_op w \<in> {''finalize'', ''archive'', ''reset''}
     \<and> (case mo_requested_by_sub w of None \<Rightarrow> True | Some s \<Rightarrow> sub_length_ok s)
     \<and> (case mo_classification w of None \<Rightarrow> True
        | Some c \<Rightarrow> c \<in> {''safe_retry'', ''rolled_back'', ''recovery_required''})"

definition ops_unique :: "month_op list \<Rightarrow> bool" where
  "ops_unique os \<longleftrightarrow> distinct (map mo_id os)
     \<and> distinct (map mo_closing_month (filter op_active os))
     \<and> distinct (map (\<lambda>w. (mo_closing_month w, coalesce_text (mo_only_filter w))) (filter live_reset_completed os))"

definition manifest_checks :: "month_manifest \<Rightarrow> bool" where
  "manifest_checks m \<longleftrightarrow> month_check (mm_closing_month m)
     \<and> mm_operation m \<in> {''finalize'', ''archive'', ''reset''}
     \<and> 0 \<le> mm_expected_stores m \<and> 0 \<le> mm_processed_stores m
     \<and> 0 \<le> mm_expected_agents m \<and> 0 \<le> mm_processed_agents m \<and> 0 \<le> mm_error_count m
     \<and> sub_length_ok (mm_requested_by_sub m)
     \<and> (case mm_approved_by_sub m of None \<Rightarrow> True
        | Some s \<Rightarrow> sub_length_ok s \<and> mm_approved_at m \<noteq> None)
     \<and> (case mm_sha256 m of None \<Rightarrow> True | Some h \<Rightarrow> is_sha256 h)"

definition item_checks :: "reset_item \<Rightarrow> bool" where
  "item_checks i \<longleftrightarrow> (case ri_backup_sha256 i of None \<Rightarrow> True | Some h \<Rightarrow> is_sha256 h)"

definition constraint_error :: month_error where
  "constraint_error = MonthPostgresError ''constraint violation''"

definition update_ops ::
  "(month_op \<Rightarrow> bool) \<Rightarrow> (month_op \<Rightarrow> month_op) \<Rightarrow> month_db \<Rightarrow> (month_error, month_db \<times> bool) result" where
  "update_ops P f db =
     (let os = upd_where P f (md_ops db) in
      if list_all (\<lambda>w. P w \<longrightarrow> op_checks (f w)) (md_ops db) \<and> ops_unique os
      then Inr (db\<lparr>md_ops := os\<rparr>, list_ex P (md_ops db)) else Inl constraint_error)"

definition update_manifests ::
  "(month_manifest \<Rightarrow> bool) \<Rightarrow> (month_manifest \<Rightarrow> month_manifest) \<Rightarrow> month_db
     \<Rightarrow> (month_error, month_db \<times> bool) result" where
  "update_manifests P f db =
     (if list_all (\<lambda>m. P m \<longrightarrow> manifest_checks (f m)) (md_manifests db)
      then Inr (db\<lparr>md_manifests := upd_where P f (md_manifests db)\<rparr>, list_ex P (md_manifests db))
      else Inl constraint_error)"

definition update_items ::
  "(reset_item \<Rightarrow> bool) \<Rightarrow> (reset_item \<Rightarrow> reset_item) \<Rightarrow> month_db \<Rightarrow> (month_error, month_db \<times> bool) result" where
  "update_items P f db =
     (if list_all (\<lambda>i. P i \<longrightarrow> item_checks (f i)) (md_items db)
      then Inr (db\<lparr>md_items := upd_where P f (md_items db)\<rparr>, list_ex P (md_items db))
      else Inl constraint_error)"

section \<open>Fences\<close>

definition op_leased :: "nat \<Rightarrow> string \<Rightarrow> nat \<Rightarrow> instant \<Rightarrow> month_op \<Rightarrow> bool" where
  "op_leased i owner epoch now w \<longleftrightarrow> mo_id w = i \<and> mo_owner w = Some owner \<and> mo_epoch w = epoch
     \<and> (case mo_lease_until w of None \<Rightarrow> False | Some l \<Rightarrow> now < l)"

definition op_runs :: "nat \<Rightarrow> string \<Rightarrow> nat \<Rightarrow> instant \<Rightarrow> month_op \<Rightarrow> bool" where
  "op_runs i owner epoch now w \<longleftrightarrow> mo_status w = MRunning \<and> op_leased i owner epoch now w"

text \<open>The two EXISTS conditions of the statements on manifests and items.\<close>

definition leased :: "nat \<Rightarrow> string \<Rightarrow> nat \<Rightarrow> instant \<Rightarrow> month_db \<Rightarrow> bool" where
  "leased i owner epoch now db \<longleftrightarrow> list_ex (op_leased i owner epoch now) (md_ops db)"

definition runs :: "nat \<Rightarrow> string \<Rightarrow> nat \<Rightarrow> instant \<Rightarrow> month_db \<Rightarrow> bool" where
  "runs i owner epoch now db \<longleftrightarrow> list_ex (op_runs i owner epoch now) (md_ops db)"

section \<open>Reservation\<close>

datatype reservation_status = Enqueued | ReservedRunning | ReservedCompleted

record reservation =
  rv_status :: reservation_status
  rv_operation_id :: nat
  rv_operation :: "month_op option"

definition is_stale_op :: "string \<Rightarrow> instant \<Rightarrow> month_op \<Rightarrow> bool" where
  "is_stale_op month now w \<longleftrightarrow> mo_closing_month w = month \<and> mo_status w = MRunning
     \<and> (case mo_lease_until w of
          Some l \<Rightarrow> l \<le> now
        | None \<Rightarrow> (case mo_heartbeat_at w of None \<Rightarrow> False | Some h \<Rightarrow> h < now - seconds 7200))"

text \<open>\<^verbatim>\<open>ORDER BY created_at DESC LIMIT 1\<close>\<close>

definition latest_op :: "(month_op \<Rightarrow> bool) \<Rightarrow> month_op list \<Rightarrow> month_op option" where
  "latest_op P os = (case sort_key (\<lambda>w. - mo_created_at w) (filter P os) of [] \<Rightarrow> None | w # _ \<Rightarrow> Some w)"

definition coalesce :: "'a option \<Rightarrow> 'a option \<Rightarrow> 'a option" where
  "coalesce a b = (case a of None \<Rightarrow> b | Some x \<Rightarrow> Some x)"

definition stale_item :: "instant \<Rightarrow> reset_item \<Rightarrow> reset_item" where
  "stale_item now i = i\<lparr>ri_status := ItUncertain, ri_phase := RecoveryRequired,
     ri_recovery_code := Some ''recovery_required'',
     ri_rollback := (if ri_rollback i = Some RbRestored then ri_rollback i else Some RbFailed),
     ri_error_message := coalesce (ri_error_message i) (Some ''stale_operation_recovery_required''),
     ri_updated_at := now\<rparr>"

definition stale_op :: "instant \<Rightarrow> month_op \<Rightarrow> month_op" where
  "stale_op now w = w\<lparr>mo_status := MFailed, mo_error_message := Some ''stale_operation_recovery_required'',
     mo_classification := Some ''recovery_required'', mo_reconciled_at := Some now,
     mo_finished_at := Some now, mo_heartbeat_at := Some now, mo_lease_until := None\<rparr>"

definition fence_stale_operation :: "string \<Rightarrow> instant \<Rightarrow> month_db \<Rightarrow> (month_error, month_db) result" where
  "fence_stale_operation month now db = (case latest_op (is_stale_op month now) (md_ops db) of
     None \<Rightarrow> Inr db
   | Some s \<Rightarrow>
       res_bind (update_items (\<lambda>i. ri_operation_id i = mo_id s
           \<and> ri_status i \<in> {ItRunning, ItCompleted, ItUncertain} \<and> ri_rollback i \<noteq> Some RbRestored)
           (stale_item now) db) (\<lambda>(db1, _).
       res_bind (update_ops (\<lambda>w. mo_id w = mo_id s \<and> mo_status w = MRunning) (stale_op now) db1) (\<lambda>(db2, _).
       Inr db2)))"

definition reservation_from_row :: "reservation_status \<Rightarrow> month_op option \<Rightarrow> reservation option" where
  "reservation_from_row st row = map_option (\<lambda>w.
     \<lparr>rv_status = st, rv_operation_id = mo_id w, rv_operation = Some w\<rparr>) row"

definition active_reservation :: "string \<Rightarrow> month_db \<Rightarrow> reservation option" where
  "active_reservation month db = reservation_from_row ReservedRunning
     (latest_op (\<lambda>w. mo_closing_month w = month \<and> op_active w) (md_ops db))"

definition manifest_approves :: "string \<Rightarrow> month_manifest \<Rightarrow> bool" where
  "manifest_approves month m \<longleftrightarrow> mm_closing_month m = month \<and> mm_operation m = ''archive''
     \<and> mm_status m = MfApproved \<and> mm_error_count m = 0
     \<and> mm_processed_stores m = mm_expected_stores m \<and> mm_processed_agents m = mm_expected_agents m"

definition approved_manifest_error :: "string \<Rightarrow> nat option \<Rightarrow> bool \<Rightarrow> month_db \<Rightarrow> string option" where
  "approved_manifest_error month manifest_id already_completed db =
     (if already_completed then None
      else case manifest_id of
        None \<Rightarrow> Some ''Resetul live necesita un manifest verificat si aprobat.''
      | Some k \<Rightarrow>
          if list_ex (\<lambda>m. mm_id m = k \<and> manifest_approves month m) (md_manifests db) then None
          else Some ''Manifestul selectat nu este verificat si aprobat pentru luna ceruta.'')"

definition legacy_partial_error :: "string \<Rightarrow> month_db \<Rightarrow> string option" where
  "legacy_partial_error month db =
     (if list_ex (\<lambda>i. ri_closing_month i = month \<and> ri_status i = ItCompleted
          \<and> list_ex (\<lambda>w. mo_id w = ri_operation_id i \<and> mo_status w \<noteq> MCompleted) (md_ops db)) (md_items db)
      then Some ''Resetul live nu poate continua automat: exista un efect Google partial''
      else None)"

definition item_unsettled :: "string \<Rightarrow> reset_item \<Rightarrow> bool" where
  "item_unsettled month i \<longleftrightarrow> ri_closing_month i = month
     \<and> (ri_status i = ItUncertain \<or> ri_rollback i = Some RbFailed \<or> ri_phase i = LegacyUnknown
        \<or> ri_recovery_code i = Some ''recovery_required'')"

definition completed_reset :: "string \<Rightarrow> string option \<Rightarrow> month_op \<Rightarrow> bool" where
  "completed_reset month only w \<longleftrightarrow> mo_closing_month w = month \<and> live_reset_completed w
     \<and> coalesce_text (mo_only_filter w) = coalesce_text only"

text \<open>\<^verbatim>\<open>ORDER BY finished_at DESC NULLS LAST, created_at DESC LIMIT 1\<close>\<close>

definition latest_finished :: "(month_op \<Rightarrow> bool) \<Rightarrow> month_op list \<Rightarrow> month_op option" where
  "latest_finished P os = (case sort_key (\<lambda>w. (case mo_finished_at w of None \<Rightarrow> (1 :: nat, 0) | Some f \<Rightarrow> (0, - f),
       - mo_created_at w)) (filter P os) of [] \<Rightarrow> None | w # _ \<Rightarrow> Some w)"

definition live_reset_gate ::
  "string \<Rightarrow> string option \<Rightarrow> nat option \<Rightarrow> month_db \<Rightarrow> reservation option \<times> string option" where
  "live_reset_gate month only manifest_id db =
     (let reserved = reservation_from_row ReservedCompleted (latest_finished (completed_reset month only) (md_ops db));
          blocked = approved_manifest_error month manifest_id (reserved \<noteq> None) db;
          blocked = (if reserved = None \<and> list_ex (item_unsettled month) (md_items db)
                     then Some ''Resetul live nu poate fi reluat automat: exista checkpoint uncertain'' else blocked);
          blocked = (if reserved = None \<and> blocked = None then legacy_partial_error month db else blocked)
      in (reserved, blocked))"

definition new_op ::
  "nat \<Rightarrow> string \<Rightarrow> string \<Rightarrow> string option \<Rightarrow> bool \<Rightarrow> string \<Rightarrow> nat option \<Rightarrow> instant \<Rightarrow> month_op" where
  "new_op i op month only dry sub manifest now = \<lparr>
     mo_id = i, mo_op = op, mo_closing_month = month, mo_only_filter = only, mo_dry_run = dry,
     mo_status = MQueued, mo_job_id = None, mo_requested_by_sub = Some sub,
     mo_approved_manifest_id = manifest, mo_result = None, mo_error_message = None,
     mo_started_at = None, mo_heartbeat_at = Some now, mo_finished_at = None, mo_created_at = now,
     mo_owner = None, mo_epoch = 0, mo_lease_until = None, mo_classification = None,
     mo_reconciled_at = None, mo_alerted_at = None \<rparr>"

definition new_manifest :: "nat \<Rightarrow> nat \<Rightarrow> string \<Rightarrow> string \<Rightarrow> string \<Rightarrow> instant \<Rightarrow> month_manifest" where
  "new_manifest i op_id month op sub now = \<lparr>
     mm_id = i, mm_operation_id = op_id, mm_closing_month = month, mm_operation = op,
     mm_status = MfBuilding, mm_expected_stores = 0, mm_processed_stores = 0,
     mm_expected_agents = 0, mm_processed_agents = 0, mm_error_count = 0,
     mm_control_totals = ''{}'', mm_artifacts = ''[]'', mm_source_backups = ''[]'', mm_manifest = ''{}'',
     mm_sha256 = None, mm_requested_by_sub = sub, mm_approved_by_sub = None, mm_approved_at = None,
     mm_error_code = None, mm_verified_at = None, mm_consumed_at = None, mm_updated_at = now, mm_created_at = now \<rparr>"

definition insert_reservation ::
  "string \<Rightarrow> string \<Rightarrow> string option \<Rightarrow> bool \<Rightarrow> string \<Rightarrow> nat option \<Rightarrow> instant \<Rightarrow> month_db
     \<Rightarrow> (month_error, month_db \<times> (nat option \<times> reservation option)) result" where
  "insert_reservation op month only dry sub manifest_id now db =
     (let w = new_op (md_next_op db) op month only dry sub
            (if op = ''reset'' \<and> \<not> dry then manifest_id else None) now;
          m = new_manifest (md_next_manifest db) (md_next_op db) month op sub now
      in if \<not> op_checks w then Inl constraint_error
         else if list_ex (\<lambda>x. mo_closing_month x = month \<and> op_active x) (md_ops db)
         then (case active_reservation month db of
                 None \<Rightarrow> Inl (MonthRuntimeError ''Failed to reserve grile monthly operation'')
               | Some r \<Rightarrow> Inr (db, (None, Some r)))
         else if \<not> manifest_checks m then Inl constraint_error
         else Inr (db\<lparr>md_ops := md_ops db @ [w], md_manifests := md_manifests db @ [m],
                      md_next_op := md_next_op db + 1, md_next_manifest := md_next_manifest db + 1\<rparr>,
                   (Some (mo_id w), None)))"

text \<open>
  The transaction commits even when the gate blocks the reservation: a stale operation stays
  fenced. So the new tables come with the outcome.
\<close>

definition month_reserve ::
  "string \<Rightarrow> string \<Rightarrow> string option \<Rightarrow> bool \<Rightarrow> string \<Rightarrow> nat option \<Rightarrow> instant \<Rightarrow> month_db
     \<Rightarrow> (month_error, month_db \<times> (month_error, reservation) result) result" where
  "month_reserve op month only dry sub manifest_id now db =
     (if sub = [] \<or> py_strip sub = [] then Inl (MonthValueError ''requested_by_sub is required'') else
      let only' = (case only of None \<Rightarrow> None | Some s \<Rightarrow> if py_strip s = [] then None else Some (py_strip s)) in
      res_bind (fence_stale_operation month now db) (\<lambda>db1.
      let active = active_reservation month db1;
          (reserved, blocked) = (if active = None \<and> op = ''reset'' \<and> \<not> dry
             then live_reset_gate month only' manifest_id db1 else (active, None))
      in res_bind (if reserved = None \<and> blocked = None
                   then insert_reservation op month only' dry sub manifest_id now db1
                   else Inr (db1, (None, reserved))) (\<lambda>(db2, (new_id, reserved')).
         Inr (db2,
           case blocked of Some msg \<Rightarrow> Inl (GrileMonthlyRetryBlockedError msg)
           | None \<Rightarrow> (case reserved' of Some r \<Rightarrow> Inr r
               | None \<Rightarrow> (case new_id of
                   None \<Rightarrow> Inl (MonthRuntimeError ''Failed to reserve grile monthly operation'')
                 | Some i \<Rightarrow> Inr \<lparr>rv_status = Enqueued, rv_operation_id = i, rv_operation = None\<rparr>))))))"

definition attach_job :: "nat \<Rightarrow> string \<Rightarrow> instant \<Rightarrow> month_db \<Rightarrow> (month_error, month_db \<times> bool) result" where
  "attach_job i job now db = update_ops (\<lambda>w. mo_id w = i \<and> mo_status w = MQueued)
     (\<lambda>w. w\<lparr>mo_job_id := Some job, mo_heartbeat_at := Some now\<rparr>) db"

definition get_by_job_id :: "string \<Rightarrow> month_db \<Rightarrow> month_op option" where
  "get_by_job_id job db = List.find (\<lambda>w. mo_job_id w = Some job) (md_ops db)"

section \<open>Lifecycle\<close>

text \<open>The identity and manifest condition of a start.\<close>

definition startable :: "month_op \<Rightarrow> month_db \<Rightarrow> bool" where
  "startable w db \<longleftrightarrow> (case mo_requested_by_sub w of None \<Rightarrow> False
     | Some s \<Rightarrow> sql_btrim s \<noteq> [] \<and> list_ex (\<lambda>m. mm_operation_id m = mo_id w \<and> mm_status m = MfBuilding
         \<and> mm_requested_by_sub m = s) (md_manifests db))"

definition start_op :: "string \<Rightarrow> int \<Rightarrow> instant \<Rightarrow> month_op \<Rightarrow> month_op" where
  "start_op owner lease now w = w\<lparr>mo_status := MRunning, mo_started_at := coalesce (mo_started_at w) (Some now),
     mo_heartbeat_at := Some now, mo_owner := Some owner, mo_epoch := mo_epoch w + 1,
     mo_lease_until := Some (now + seconds lease), mo_classification := None, mo_reconciled_at := None\<rparr>"

definition fail_op :: "string \<Rightarrow> instant \<Rightarrow> month_op \<Rightarrow> month_op" where
  "fail_op msg now w = w\<lparr>mo_status := MFailed, mo_error_message := Some msg,
     mo_finished_at := Some now, mo_heartbeat_at := Some now\<rparr>"

definition op_view :: "month_op option \<Rightarrow> (string \<times> json_result option) option" where
  "op_view row = map_option (\<lambda>w. (month_state_text (mo_status w), mo_result w)) row"

text \<open>\<open>uuid_hex\<close>: the value of \<^verbatim>\<open>uuid4().hex\<close> when the caller names no owner.\<close>

definition month_start ::
  "string \<Rightarrow> nat \<Rightarrow> string option \<Rightarrow> int \<Rightarrow> instant \<Rightarrow> month_db
     \<Rightarrow> (month_error, month_db \<times> start_status \<times> json_result option) result" where
  "month_start uuid_hex i execution_owner lease now db =
     (let owner = (case execution_owner of None \<Rightarrow> uuid_hex | Some s \<Rightarrow> if s = [] then uuid_hex else s) in
      if py_strip owner = [] then Inl (MonthValueError ''execution_owner is required'') else
      res_bind (update_ops (\<lambda>w. mo_id w = i \<and> mo_status w = MQueued \<and> startable w db) (start_op owner lease now) db)
        (\<lambda>(db1, started).
      if started then Inr (db1, operation_start_result (op_view (row_by mo_id i (md_ops db1))) True) else
      res_bind (update_ops (\<lambda>w. mo_id w = i \<and> mo_status w = MQueued \<and> \<not> startable w db1)
          (fail_op ''legacy_operation_missing_identity_or_manifest'' now) db1) (\<lambda>(db2, invalid).
      Inr (db2, operation_start_result (op_view (row_by mo_id i (md_ops db2))) False))))"

definition month_heartbeat ::
  "nat \<Rightarrow> string \<Rightarrow> nat \<Rightarrow> int \<Rightarrow> instant \<Rightarrow> month_db \<Rightarrow> (month_error, month_db \<times> bool) result" where
  "month_heartbeat i owner epoch lease now db = update_ops (op_runs i owner epoch now)
     (\<lambda>w. w\<lparr>mo_heartbeat_at := Some now, mo_lease_until := Some (now + seconds lease)\<rparr>) db"

definition finish_op :: "month_state \<Rightarrow> json_result \<Rightarrow> string option \<Rightarrow> instant \<Rightarrow> month_op \<Rightarrow> month_op" where
  "finish_op st r msg now w = w\<lparr>mo_status := st, mo_result := Some r, mo_error_message := msg,
     mo_finished_at := Some now, mo_heartbeat_at := Some now\<rparr>"

text \<open>\<open>result_status\<close> and \<open>result_json\<close>: the status entry and the text of the result object.\<close>

definition month_finish ::
  "nat \<Rightarrow> string option \<Rightarrow> string \<Rightarrow> string option \<Rightarrow> string \<Rightarrow> nat \<Rightarrow> instant \<Rightarrow> month_db
     \<Rightarrow> (month_error, month_db \<times> bool) result" where
  "month_finish i result_status result_json msg owner epoch now db =
     update_ops (op_runs i owner epoch now)
       (finish_op (terminal_operation_status result_status) (JObject result_status result_json) msg now) db"

text \<open>A manifest document: the entries the statements read, and its JSON texts.\<close>

record manifest_doc =
  doc_status :: "string option"
  doc_expected_stores :: int
  doc_processed_stores :: int
  doc_expected_agents :: int
  doc_processed_agents :: int
  doc_error_count :: int
  doc_control_totals :: string
  doc_artifacts :: string
  doc_source_backups :: string
  doc_json :: string
  doc_sha256 :: "string option"

definition manifest_status_of :: "string \<Rightarrow> manifest_status option" where
  "manifest_status_of s = map_of [(''building'', MfBuilding), (''failed'', MfFailed), (''verified'', MfVerified),
     (''approved'', MfApproved), (''consumed'', MfConsumed), (''rolled_back'', MfRolledBack),
     (''uncertain'', MfUncertain)] s"

definition fill_manifest ::
  "manifest_status \<Rightarrow> manifest_doc \<Rightarrow> string option \<Rightarrow> instant option \<Rightarrow> instant \<Rightarrow> month_manifest \<Rightarrow> month_manifest" where
  "fill_manifest st doc code verified now m = m\<lparr>mm_status := st,
     mm_expected_stores := doc_expected_stores doc, mm_processed_stores := doc_processed_stores doc,
     mm_expected_agents := doc_expected_agents doc, mm_processed_agents := doc_processed_agents doc,
     mm_error_count := doc_error_count doc, mm_control_totals := doc_control_totals doc,
     mm_artifacts := doc_artifacts doc, mm_source_backups := doc_source_backups doc,
     mm_manifest := doc_json doc, mm_sha256 := doc_sha256 doc, mm_error_code := code,
     mm_verified_at := verified, mm_updated_at := now\<rparr>"

definition consume_manifest :: "manifest_doc \<Rightarrow> instant \<Rightarrow> month_manifest \<Rightarrow> month_manifest" where
  "consume_manifest doc now m = m\<lparr>mm_status := MfConsumed, mm_consumed_at := Some now,
     mm_manifest := doc_json doc, mm_sha256 := doc_sha256 doc, mm_updated_at := now\<rparr>"

definition finish_reset_success ::
  "nat \<Rightarrow> json_result \<Rightarrow> manifest_doc \<Rightarrow> nat \<Rightarrow> string \<Rightarrow> manifest_doc \<Rightarrow> string \<Rightarrow> nat \<Rightarrow> instant \<Rightarrow> month_db
     \<Rightarrow> (month_error, month_db) result" where
  "finish_reset_success i r doc manifest_id expected_sha consumed_doc owner epoch now db =
     (case Option.bind (doc_status doc) manifest_status_of of
        None \<Rightarrow>
          if list_ex (\<lambda>m. mm_operation_id m = i \<and> mm_operation m = ''reset'' \<and> mm_status m = MfBuilding
              \<and> runs i owner epoch now db) (md_manifests db)
          then Inl constraint_error else Inl (MonthRuntimeError ''Reset manifest lost its building lease'')
      | Some st \<Rightarrow>
      res_bind (update_manifests (\<lambda>m. mm_operation_id m = i \<and> mm_operation m = ''reset'' \<and> mm_status m = MfBuilding
          \<and> runs i owner epoch now db) (fill_manifest st doc None (Some now) now) db) (\<lambda>(db1, filled).
      if \<not> filled then Inl (MonthRuntimeError ''Reset manifest lost its building lease'') else
      res_bind (update_ops (\<lambda>w. mo_op w = ''reset'' \<and> \<not> mo_dry_run w
          \<and> mo_approved_manifest_id w = Some manifest_id \<and> op_runs i owner epoch now w)
          (finish_op MCompleted r None now) db1) (\<lambda>(db2, done).
      if \<not> done then Inl (MonthRuntimeError ''Reset operation lost its completion lease'') else
      res_bind (update_manifests (\<lambda>m. mm_id m = manifest_id \<and> mm_status m = MfApproved
          \<and> mm_sha256 m = Some expected_sha
          \<and> list_ex (\<lambda>w. mo_id w = i \<and> mo_closing_month w = mm_closing_month m) (md_ops db2))
          (consume_manifest consumed_doc now) db2) (\<lambda>(db3, consumed).
      if \<not> consumed then Inl (MonthRuntimeError ''Approved manifest lost its consumption lease'')
      else Inr db3))))"

definition month_fail ::
  "nat \<Rightarrow> string \<Rightarrow> string \<Rightarrow> nat \<Rightarrow> instant \<Rightarrow> month_db \<Rightarrow> (month_error, month_db \<times> bool) result" where
  "month_fail i msg owner epoch now db = update_ops (op_runs i owner epoch now) (fail_op msg now) db"

definition month_fail_queued :: "nat \<Rightarrow> string \<Rightarrow> instant \<Rightarrow> month_db \<Rightarrow> (month_error, month_db \<times> bool) result" where
  "month_fail_queued i msg now db = update_ops
     (\<lambda>w. mo_id w = i \<and> mo_status w = MQueued \<and> mo_owner w = None \<and> mo_epoch w = 0) (fail_op msg now) db"

definition cancel_item :: "string \<Rightarrow> instant \<Rightarrow> reset_item \<Rightarrow> reset_item" where
  "cancel_item msg now i = i\<lparr>ri_status := ItUncertain,
     ri_phase := (if ri_phase i \<in> {ClearIntent, ClearVerified, RollbackIntent} then RecoveryRequired else ri_phase i),
     ri_recovery_code := Some ''recovery_required'',
     ri_rollback := (if ri_rollback i = Some RbRestored then ri_rollback i else Some RbFailed),
     ri_error_message := coalesce (ri_error_message i) (Some msg), ri_updated_at := now\<rparr>"

definition mark_cancelled_uncertain ::
  "nat \<Rightarrow> string \<Rightarrow> string \<Rightarrow> nat \<Rightarrow> instant \<Rightarrow> month_db \<Rightarrow> (month_error, month_db \<times> bool) result" where
  "mark_cancelled_uncertain i msg owner epoch now db =
     res_bind (update_items (\<lambda>x. ri_operation_id x = i \<and> leased i owner epoch now db
         \<and> ri_status x \<in> {ItRunning, ItCompleted} \<and> ri_rollback x \<noteq> Some RbRestored) (cancel_item msg now) db) (\<lambda>(db1, _).
     update_ops (\<lambda>w. op_active w \<and> op_leased i owner epoch now w) (fail_op msg now) db1)"

definition get_execution_lease :: "nat \<Rightarrow> string \<Rightarrow> instant \<Rightarrow> month_db \<Rightarrow> month_op option" where
  "get_execution_lease i owner now db = List.find (\<lambda>w. mo_id w = i \<and> mo_status w = MRunning
     \<and> mo_owner w = Some owner \<and> (case mo_lease_until w of None \<Rightarrow> False | Some l \<Rightarrow> now < l)) (md_ops db)"

end
