(* ===== verification/Grile_Reset.thy ===== *)
theory Grile_Reset
  imports Grile_Monthly
begin

text \<open>
  Manifests, per-store reset checkpoints and reconciliation of the monthly closeout
  (\<^verbatim>\<open>grile_monthly_manifests.py\<close>, \<^verbatim>\<open>grile_monthly_reset_items.py\<close> and
  \<^verbatim>\<open>grile_monthly_reconciliation.py\<close>).
\<close>

section \<open>Manifests\<close>

definition get_manifest :: "nat \<Rightarrow> month_db \<Rightarrow> month_manifest option" where
  "get_manifest k db = row_by mm_id k (md_manifests db)"

definition get_operation_manifest :: "nat \<Rightarrow> month_db \<Rightarrow> month_manifest option" where
  "get_operation_manifest i db = row_by mm_operation_id i (md_manifests db)"

definition get_latest_manifest ::
  "string \<Rightarrow> string option \<Rightarrow> manifest_status list \<Rightarrow> month_db \<Rightarrow> month_manifest option" where
  "get_latest_manifest month op statuses db =
     (if statuses = [] then None
      else case sort_key (\<lambda>m. (- mm_created_at m, - int (mm_id m)))
          (filter (\<lambda>m. mm_closing_month m = month \<and> (case op of None \<Rightarrow> True | Some p \<Rightarrow> mm_operation m = p)
              \<and> mm_status m \<in> set statuses) (md_manifests db)) of
        [] \<Rightarrow> None | m # _ \<Rightarrow> Some m)"

definition persist_manifest_result ::
  "nat \<Rightarrow> manifest_doc \<Rightarrow> string \<Rightarrow> nat \<Rightarrow> string option \<Rightarrow> instant \<Rightarrow> month_db
     \<Rightarrow> (month_error, month_db) result" where
  "persist_manifest_result i doc owner epoch code now db =
     (case (case doc_status doc of None \<Rightarrow> Some MfFailed | Some s \<Rightarrow> manifest_status_of s) of
        None \<Rightarrow>
          if list_ex (\<lambda>m. mm_operation_id m = i \<and> mm_status m = MfBuilding \<and> runs i owner epoch now db) (md_manifests db)
          then Inl constraint_error else Inl (MonthRuntimeError ''Monthly manifest lost its building lease'')
      | Some st \<Rightarrow>
          res_bind (update_manifests (\<lambda>m. mm_operation_id m = i \<and> mm_status m = MfBuilding \<and> runs i owner epoch now db)
            (fill_manifest st doc code (if st \<in> {MfVerified, MfApproved} then Some now else None) now) db) (\<lambda>(db', b).
          if b then Inr db' else Inl (MonthRuntimeError ''Monthly manifest lost its building lease'')))"

definition approve_row :: "string \<Rightarrow> manifest_doc \<Rightarrow> instant \<Rightarrow> month_manifest \<Rightarrow> month_manifest" where
  "approve_row sub doc now m = m\<lparr>mm_status := MfApproved, mm_approved_by_sub := Some sub,
     mm_approved_at := Some now, mm_manifest := doc_json doc, mm_sha256 := doc_sha256 doc, mm_updated_at := now\<rparr>"

definition approvable :: "nat \<Rightarrow> string \<Rightarrow> month_manifest \<Rightarrow> bool" where
  "approvable k sha m \<longleftrightarrow> mm_id m = k \<and> mm_operation m = ''archive'' \<and> mm_status m = MfVerified
     \<and> mm_sha256 m = Some sha \<and> mm_error_count m = 0
     \<and> mm_processed_stores m = mm_expected_stores m \<and> mm_processed_agents m = mm_expected_agents m"

definition approve_manifest ::
  "nat \<Rightarrow> string \<Rightarrow> string \<Rightarrow> manifest_doc \<Rightarrow> instant \<Rightarrow> month_db \<Rightarrow> (month_error, month_db \<times> bool) result" where
  "approve_manifest k sha sub doc now db = update_manifests (approvable k sha) (approve_row sub doc now) db"

section \<open>Reset checkpoints\<close>

record reset_item_input =
  in_site_code :: string
  in_sheet_id :: string
  in_company :: string
  in_store :: string
  in_ranges :: string

definition new_item :: "nat \<Rightarrow> nat \<Rightarrow> string \<Rightarrow> string \<Rightarrow> instant \<Rightarrow> reset_item_input \<Rightarrow> reset_item" where
  "new_item k i month next_month now e = \<lparr>
     ri_id = k, ri_operation_id = i, ri_closing_month = month, ri_next_month = next_month,
     ri_site_code = in_site_code e, ri_sheet_id = in_sheet_id e, ri_company = in_company e,
     ri_store = in_store e, ri_status = ItPending, ri_ranges = in_ranges e, ri_error_message = None,
     ri_started_at = None, ri_completed_at = None, ri_backup_path = None, ri_backup_sha256 = None,
     ri_rollback = None, ri_restored_at = None, ri_updated_at = now, ri_created_at = now,
     ri_phase = LegacyUnknown, ri_fence_epoch = 0, ri_intent_at = None, ri_verified_at = None,
     ri_reconciled_at = None, ri_recovery_code = None \<rparr>"

definition ensure_reset_item ::
  "nat \<Rightarrow> string \<Rightarrow> string \<Rightarrow> string \<Rightarrow> nat \<Rightarrow> instant \<Rightarrow> reset_item_input \<Rightarrow> month_db \<Rightarrow> month_db" where
  "ensure_reset_item i month next_month owner epoch now e db =
     (if runs i owner epoch now db
         \<and> \<not> list_ex (\<lambda>x. ri_operation_id x = i \<and> ri_site_code x = in_site_code e) (md_items db)
      then db\<lparr>md_items := md_items db @ [new_item (md_next_item db) i month next_month now e],
              md_next_item := md_next_item db + 1\<rparr>
      else db)"

definition ensure_reset_items ::
  "nat \<Rightarrow> string \<Rightarrow> string \<Rightarrow> reset_item_input list \<Rightarrow> string \<Rightarrow> nat \<Rightarrow> instant \<Rightarrow> month_db \<Rightarrow> month_db" where
  "ensure_reset_items i month next_month entries owner epoch now db =
     fold (ensure_reset_item i month next_month owner epoch now) entries db"

definition get_previous_completed_reset_item :: "string \<Rightarrow> string \<Rightarrow> month_db \<Rightarrow> reset_item option" where
  "get_previous_completed_reset_item month site db =
     (case sort_key (\<lambda>x. (case ri_completed_at x of None \<Rightarrow> (1 :: nat, 0) | Some t \<Rightarrow> (0, - t), - ri_updated_at x))
        (filter (\<lambda>x. ri_closing_month x = month \<and> ri_site_code x = site \<and> ri_status x = ItCompleted) (md_items db)) of
        [] \<Rightarrow> None | x # _ \<Rightarrow> Some x)"

text \<open>The item of a store in an operation.\<close>

definition item_of :: "nat \<Rightarrow> string \<Rightarrow> reset_item \<Rightarrow> bool" where
  "item_of i site x \<longleftrightarrow> ri_operation_id x = i \<and> ri_site_code x = site"

definition claim_reset_item ::
  "nat \<Rightarrow> string \<Rightarrow> string \<Rightarrow> nat \<Rightarrow> instant \<Rightarrow> month_db \<Rightarrow> (month_error, month_db \<times> bool) result" where
  "claim_reset_item i site owner epoch now db =
     update_items (\<lambda>x. item_of i site x \<and> ri_status x = ItPending \<and> runs i owner epoch now db)
       (\<lambda>x. x\<lparr>ri_status := ItRunning, ri_started_at := coalesce (ri_started_at x) (Some now),
          ri_fence_epoch := ri_fence_epoch x + 1, ri_updated_at := now\<rparr>) db"

definition record_reset_item_backup ::
  "nat \<Rightarrow> string \<Rightarrow> string \<Rightarrow> string \<Rightarrow> string \<Rightarrow> nat \<Rightarrow> instant \<Rightarrow> month_db
     \<Rightarrow> (month_error, month_db \<times> bool) result" where
  "record_reset_item_backup i site path sha owner epoch now db =
     update_items (\<lambda>x. item_of i site x \<and> ri_status x = ItPending \<and> ri_backup_path x = None
         \<and> ri_backup_sha256 x = None \<and> runs i owner epoch now db)
       (\<lambda>x. x\<lparr>ri_backup_path := Some path, ri_backup_sha256 := Some sha, ri_phase := SnapshotPersisted,
          ri_recovery_code := None, ri_updated_at := now\<rparr>) db"

definition record_reset_item_rollback ::
  "nat \<Rightarrow> string \<Rightarrow> bool \<Rightarrow> string \<Rightarrow> nat \<Rightarrow> string option \<Rightarrow> instant \<Rightarrow> month_db
     \<Rightarrow> (month_error, month_db \<times> bool) result" where
  "record_reset_item_rollback i site restored owner epoch msg now db =
     update_items (\<lambda>x. item_of i site x \<and> ri_status x \<in> {ItRunning, ItCompleted, ItError} \<and> leased i owner epoch now db)
       (\<lambda>x. x\<lparr>ri_status := (if restored then ItError else ItUncertain),
          ri_rollback := Some (if restored then RbRestored else RbFailed),
          ri_restored_at := (if restored then Some now else None),
          ri_error_message := msg, ri_updated_at := now\<rparr>) db"

datatype item_outcome = OutCompleted | OutError | OutSkipped

definition outcome_status :: "item_outcome \<Rightarrow> item_status" where
  "outcome_status st = (case st of OutCompleted \<Rightarrow> ItCompleted | OutError \<Rightarrow> ItError | OutSkipped \<Rightarrow> ItSkipped)"

definition finish_reset_item ::
  "nat \<Rightarrow> string \<Rightarrow> item_outcome \<Rightarrow> string \<Rightarrow> nat \<Rightarrow> string option \<Rightarrow> instant \<Rightarrow> month_db
     \<Rightarrow> (month_error, month_db \<times> bool) result" where
  "finish_reset_item i site st owner epoch msg now db =
     update_items (\<lambda>x. item_of i site x \<and> ri_status x = (if st = OutSkipped then ItPending else ItRunning)
         \<and> runs i owner epoch now db)
       (\<lambda>x. x\<lparr>ri_status := outcome_status st,
          ri_phase := (if st = OutCompleted then ClearVerified else ri_phase x),
          ri_verified_at := (if st = OutCompleted then Some now else ri_verified_at x),
          ri_error_message := msg,
          ri_completed_at := (if st = OutError then ri_completed_at x else Some now),
          ri_updated_at := now\<rparr>) db"

definition backed_up :: "reset_item \<Rightarrow> bool" where
  "backed_up x \<longleftrightarrow> ri_backup_path x \<noteq> None \<and> (case ri_backup_sha256 x of None \<Rightarrow> False | Some h \<Rightarrow> is_sha256 h)"

definition clearable :: "nat \<Rightarrow> string \<Rightarrow> reset_item \<Rightarrow> bool" where
  "clearable i site x \<longleftrightarrow> item_of i site x \<and> ri_status x = ItRunning \<and> ri_phase x = SnapshotPersisted \<and> backed_up x"

definition prepare_reset_clear ::
  "nat \<Rightarrow> string \<Rightarrow> string \<Rightarrow> nat \<Rightarrow> instant \<Rightarrow> month_db \<Rightarrow> (month_error, month_db \<times> bool) result" where
  "prepare_reset_clear i site owner epoch now db =
     update_items (\<lambda>x. clearable i site x \<and> runs i owner epoch now db)
       (\<lambda>x. x\<lparr>ri_phase := ClearIntent, ri_fence_epoch := ri_fence_epoch x + 1, ri_intent_at := Some now,
          ri_updated_at := now, ri_error_message := None\<rparr>) db"

definition confirm_reset_clear ::
  "nat \<Rightarrow> string \<Rightarrow> string \<Rightarrow> nat \<Rightarrow> nat \<Rightarrow> bool \<Rightarrow> string option \<Rightarrow> instant \<Rightarrow> month_db
     \<Rightarrow> (month_error, month_db \<times> bool) result" where
  "confirm_reset_clear i site owner epoch fence verified msg now db =
     update_items (\<lambda>x. item_of i site x \<and> ri_fence_epoch x = fence \<and> ri_phase x = ClearIntent \<and> runs i owner epoch now db)
       (\<lambda>x. x\<lparr>ri_phase := (if verified then ClearVerified else RecoveryRequired),
          ri_status := (if verified then ItCompleted else ItUncertain),
          ri_verified_at := (if verified then Some now else ri_verified_at x),
          ri_recovery_code := (if verified then None else Some ''recovery_required''),
          ri_error_message := msg, ri_updated_at := now\<rparr>) db"

definition prepare_reset_rollback ::
  "nat \<Rightarrow> string \<Rightarrow> string \<Rightarrow> nat \<Rightarrow> instant \<Rightarrow> month_db \<Rightarrow> (month_error, month_db \<times> bool) result" where
  "prepare_reset_rollback i site owner epoch now db =
     update_items (\<lambda>x. item_of i site x \<and> ri_phase x \<in> {ClearIntent, ClearVerified, RecoveryRequired}
         \<and> ri_status x \<in> {ItRunning, ItCompleted, ItUncertain} \<and> backed_up x \<and> leased i owner epoch now db)
       (\<lambda>x. x\<lparr>ri_phase := RollbackIntent, ri_fence_epoch := ri_fence_epoch x + 1,
          ri_intent_at := Some now, ri_updated_at := now\<rparr>) db"

definition confirm_reset_rollback ::
  "nat \<Rightarrow> string \<Rightarrow> string \<Rightarrow> nat \<Rightarrow> nat \<Rightarrow> bool \<Rightarrow> string option \<Rightarrow> instant \<Rightarrow> month_db
     \<Rightarrow> (month_error, month_db \<times> bool) result" where
  "confirm_reset_rollback i site owner epoch fence restored msg now db =
     update_items (\<lambda>x. item_of i site x \<and> ri_fence_epoch x = fence \<and> ri_phase x = RollbackIntent \<and> leased i owner epoch now db)
       (\<lambda>x. x\<lparr>ri_phase := (if restored then RollbackVerified else RecoveryRequired),
          ri_status := (if restored then ItError else ItUncertain),
          ri_rollback := Some (if restored then RbRestored else RbFailed),
          ri_restored_at := (if restored then Some now else None),
          ri_reconciled_at := (if restored then Some now else ri_reconciled_at x),
          ri_recovery_code := (if restored then None else Some ''recovery_required''),
          ri_error_message := msg, ri_updated_at := now\<rparr>) db"

section \<open>Reconciliation\<close>

definition item_unresolved :: "bool \<Rightarrow> reset_item \<Rightarrow> bool" where
  "item_unresolved op_running x \<longleftrightarrow> ri_status x = ItUncertain
     \<or> ri_phase x \<in> {LegacyUnknown, ClearIntent, RollbackIntent}
     \<or> ri_recovery_code x = Some ''recovery_required''
     \<or> (ri_phase x = ClearVerified \<and> (ri_status x \<noteq> ItCompleted \<or> op_running))"

definition list_reset_items_for_reconciliation :: "nat \<Rightarrow> month_db \<Rightarrow> reset_item list" where
  "list_reset_items_for_reconciliation i db = sort_key ri_id
     (filter (\<lambda>x. ri_operation_id x = i
        \<and> item_unresolved (list_ex (\<lambda>w. mo_id w = ri_operation_id x \<and> mo_status w = MRunning) (md_ops db)) x) (md_items db))"

definition reconcilable :: "instant \<Rightarrow> reset_item list \<Rightarrow> month_op \<Rightarrow> bool" where
  "reconcilable now items w \<longleftrightarrow>
     (mo_status w = MRunning \<and> (case mo_lease_until w of None \<Rightarrow> True | Some l \<Rightarrow> l \<le> now))
   \<or> (mo_status w \<noteq> MRunning \<and> list_ex (\<lambda>x. ri_operation_id x = mo_id w
        \<and> item_unresolved (mo_status w = MRunning) x) items)"

definition reconciliation_candidates :: "(nat \<Rightarrow> bool) \<Rightarrow> instant \<Rightarrow> nat \<Rightarrow> month_db \<Rightarrow> nat list" where
  "reconciliation_candidates locked now limit db =
     take limit (sort (map mo_id (filter (\<lambda>w. reconcilable now (md_items db) w \<and> \<not> locked (mo_id w)) (md_ops db))))"

definition reconcile_claim_op :: "string \<Rightarrow> int \<Rightarrow> instant \<Rightarrow> month_op \<Rightarrow> month_op" where
  "reconcile_claim_op owner lease now w = w\<lparr>mo_owner := Some owner, mo_epoch := mo_epoch w + 1,
     mo_lease_until := Some (now + seconds lease), mo_reconciled_at := None\<rparr>"

definition claim_reconciliation_candidates ::
  "(nat \<Rightarrow> bool) \<Rightarrow> string \<Rightarrow> int \<Rightarrow> nat \<Rightarrow> instant \<Rightarrow> month_db
     \<Rightarrow> (month_error, month_db \<times> month_op list) result" where
  "claim_reconciliation_candidates locked owner lease limit now db =
     (let ids = reconciliation_candidates locked now limit db in
      res_bind (update_ops (\<lambda>w. mo_id w \<in> set ids) (reconcile_claim_op owner lease now) db) (\<lambda>(db', _).
        Inr (db', filter (\<lambda>w. mo_id w \<in> set ids) (md_ops db'))))"

datatype classification = SafeRetry | RolledBack | NeedsRecovery

definition classification_text :: "classification \<Rightarrow> string" where
  "classification_text c = (case c of SafeRetry \<Rightarrow> ''safe_retry'' | RolledBack \<Rightarrow> ''rolled_back''
     | NeedsRecovery \<Rightarrow> ''recovery_required'')"

definition reconciled_op :: "classification \<Rightarrow> string option \<Rightarrow> bool \<Rightarrow> instant \<Rightarrow> month_op \<Rightarrow> month_op" where
  "reconciled_op c msg alert now w = w\<lparr>
     mo_status := (if c \<in> {SafeRetry, RolledBack} \<and> mo_status w = MRunning then MFailed else mo_status w),
     mo_classification := Some (classification_text c), mo_reconciled_at := Some now,
     mo_alerted_at := (if alert then coalesce (mo_alerted_at w) (Some now) else mo_alerted_at w),
     mo_error_message := coalesce msg (mo_error_message w), mo_lease_until := None\<rparr>"

definition mark_reconciliation_result ::
  "nat \<Rightarrow> string \<Rightarrow> nat \<Rightarrow> classification \<Rightarrow> string option \<Rightarrow> bool \<Rightarrow> instant \<Rightarrow> month_db
     \<Rightarrow> (month_error, month_db \<times> bool) result" where
  "mark_reconciliation_result i owner epoch c msg alert now db =
     update_ops (op_leased i owner epoch now) (reconciled_op c msg alert now) db"

definition mark_item_recovery_required ::
  "nat \<Rightarrow> string \<Rightarrow> string \<Rightarrow> nat \<Rightarrow> string \<Rightarrow> instant \<Rightarrow> month_db \<Rightarrow> (month_error, month_db \<times> bool) result" where
  "mark_item_recovery_required i site owner epoch msg now db =
     update_items (\<lambda>x. item_of i site x \<and> ri_phase x \<noteq> RollbackVerified \<and> leased i owner epoch now db)
       (\<lambda>x. x\<lparr>ri_status := ItUncertain, ri_phase := RecoveryRequired,
          ri_recovery_code := Some ''recovery_required'', ri_error_message := Some msg,
          ri_reconciled_at := Some now, ri_updated_at := now\<rparr>) db"

definition mark_item_safe_retry ::
  "nat \<Rightarrow> string \<Rightarrow> string \<Rightarrow> nat \<Rightarrow> instant \<Rightarrow> month_db \<Rightarrow> (month_error, month_db \<times> bool) result" where
  "mark_item_safe_retry i site owner epoch now db =
     update_items (\<lambda>x. item_of i site x \<and> ri_phase x = SnapshotPersisted \<and> leased i owner epoch now db)
       (\<lambda>x. x\<lparr>ri_status := ItError, ri_reconciled_at := Some now, ri_recovery_code := None,
          ri_error_message := Some ''safe_retry'', ri_updated_at := now\<rparr>) db"

end
