(* ===== verification/Grile_Invariants.thy ===== *)
theory Grile_Invariants
  imports Grile_Reset
begin

text \<open>
  The monthly closeout as a machine of its transactions. Every transaction is a sequence of
  effects, each an update of one table under a law of its rows or an insertion, so an
  invariant is proved once per effect and holds for all transactions.
\<close>

section \<open>Transactions\<close>

definition month_empty :: "month_db \<Rightarrow> bool" where
  "month_empty db \<longleftrightarrow> db = \<lparr>md_ops = [], md_manifests = [], md_items = [],
     md_next_op = 1, md_next_manifest = 1, md_next_item = 1\<rparr>"

inductive month_step :: "month_db \<Rightarrow> month_db \<Rightarrow> bool" where
  ms_reserve: "month_reserve op month only dry sub k now db = Inr (db', r) \<Longrightarrow> month_step db db'"
| ms_attach: "attach_job i job now db = Inr (db', b) \<Longrightarrow> month_step db db'"
| ms_start: "month_start u i ow lease now db = Inr (db', s) \<Longrightarrow> month_step db db'"
| ms_heartbeat: "month_heartbeat i ow ep lease now db = Inr (db', b) \<Longrightarrow> month_step db db'"
| ms_finish: "month_finish i st js msg ow ep now db = Inr (db', b) \<Longrightarrow> month_step db db'"
| ms_finish_reset: "finish_reset_success i r doc k sha cdoc ow ep now db = Inr db' \<Longrightarrow> month_step db db'"
| ms_fail: "month_fail i msg ow ep now db = Inr (db', b) \<Longrightarrow> month_step db db'"
| ms_fail_queued: "month_fail_queued i msg now db = Inr (db', b) \<Longrightarrow> month_step db db'"
| ms_cancel: "mark_cancelled_uncertain i msg ow ep now db = Inr (db', b) \<Longrightarrow> month_step db db'"
| ms_persist: "persist_manifest_result i doc ow ep code now db = Inr db' \<Longrightarrow> month_step db db'"
| ms_approve: "approve_manifest k sha sub doc now db = Inr (db', b) \<Longrightarrow> month_step db db'"
| ms_ensure: "ensure_reset_items i month nm es ow ep now db = db' \<Longrightarrow> month_step db db'"
| ms_claim_item: "claim_reset_item i site ow ep now db = Inr (db', b) \<Longrightarrow> month_step db db'"
| ms_backup: "record_reset_item_backup i site path sha ow ep now db = Inr (db', b) \<Longrightarrow> month_step db db'"
| ms_rollback: "record_reset_item_rollback i site restored ow ep msg now db = Inr (db', b) \<Longrightarrow> month_step db db'"
| ms_finish_item: "finish_reset_item i site out ow ep msg now db = Inr (db', b) \<Longrightarrow> month_step db db'"
| ms_prepare_clear: "prepare_reset_clear i site ow ep now db = Inr (db', b) \<Longrightarrow> month_step db db'"
| ms_confirm_clear: "confirm_reset_clear i site ow ep fe v msg now db = Inr (db', b) \<Longrightarrow> month_step db db'"
| ms_prepare_rollback: "prepare_reset_rollback i site ow ep now db = Inr (db', b) \<Longrightarrow> month_step db db'"
| ms_confirm_rollback: "confirm_reset_rollback i site ow ep fe restored msg now db = Inr (db', b) \<Longrightarrow> month_step db db'"
| ms_reconcile_claim: "claim_reconciliation_candidates locked ow lease limit now db = Inr (db', ws) \<Longrightarrow> month_step db db'"
| ms_reconciled: "mark_reconciliation_result i ow ep c msg alert now db = Inr (db', b) \<Longrightarrow> month_step db db'"
| ms_item_recovery: "mark_item_recovery_required i site ow ep msg now db = Inr (db', b) \<Longrightarrow> month_step db db'"
| ms_item_retry: "mark_item_safe_retry i site ow ep now db = Inr (db', b) \<Longrightarrow> month_step db db'"

abbreviation month_reachable :: "month_db \<Rightarrow> bool" where
  "month_reachable \<equiv> reachable_from month_empty month_step"

section \<open>Laws of rows\<close>

definition status_ok :: "month_state \<Rightarrow> month_state \<Rightarrow> bool" where
  "status_ok s s' \<longleftrightarrow> s = s' \<or> list_ex (\<lambda>((a, e), b). a = s \<and> b = s') ALLOWED_TRANSITIONS"

definition op_ok :: "month_op \<Rightarrow> month_op \<Rightarrow> bool" where
  "op_ok w w' \<longleftrightarrow> mo_id w' = mo_id w \<and> mo_op w' = mo_op w \<and> mo_closing_month w' = mo_closing_month w
     \<and> mo_only_filter w' = mo_only_filter w \<and> mo_dry_run w' = mo_dry_run w
     \<and> mo_approved_manifest_id w' = mo_approved_manifest_id w
     \<and> mo_epoch w \<le> mo_epoch w' \<and> status_ok (mo_status w) (mo_status w')"

definition manifest_ok :: "month_manifest \<Rightarrow> month_manifest \<Rightarrow> bool" where
  "manifest_ok m m' \<longleftrightarrow> mm_id m' = mm_id m \<and> mm_operation_id m' = mm_operation_id m
     \<and> mm_closing_month m' = mm_closing_month m \<and> mm_operation m' = mm_operation m
     \<and> mm_status m \<in> {MfBuilding, MfVerified, MfApproved}
     \<and> (mm_status m = MfVerified \<longrightarrow> mm_status m' = MfApproved)
     \<and> (mm_status m = MfApproved \<longrightarrow> mm_status m' = MfConsumed)"

definition intent_phase :: "item_phase \<Rightarrow> bool" where
  "intent_phase p \<longleftrightarrow> p \<in> {ClearIntent, RollbackIntent, RollbackVerified}"

definition item_ok :: "reset_item \<Rightarrow> reset_item \<Rightarrow> bool" where
  "item_ok x x' \<longleftrightarrow> ri_id x' = ri_id x \<and> ri_operation_id x' = ri_operation_id x
     \<and> ri_closing_month x' = ri_closing_month x \<and> ri_site_code x' = ri_site_code x
     \<and> ri_fence_epoch x \<le> ri_fence_epoch x'
     \<and> (ri_backup_path x \<noteq> None \<longrightarrow> ri_backup_path x' = ri_backup_path x \<and> ri_backup_sha256 x' = ri_backup_sha256 x)
     \<and> (ri_phase x' = SnapshotPersisted \<longrightarrow> ri_phase x = SnapshotPersisted \<or> ri_backup_path x = None)
     \<and> (intent_phase (ri_phase x') \<longrightarrow> backed_up x' \<or> intent_phase (ri_phase x))"

section \<open>Effects\<close>

inductive month_effect :: "month_db \<Rightarrow> month_db \<Rightarrow> bool" where
  eff_ops: "update_ops P f db = Inr (db', b) \<Longrightarrow> (\<And>w. P w \<Longrightarrow> op_ok w (f w)) \<Longrightarrow> month_effect db db'"
| eff_manifests: "update_manifests P f db = Inr (db', b) \<Longrightarrow> (\<And>m. P m \<Longrightarrow> manifest_ok m (f m)) \<Longrightarrow> month_effect db db'"
| eff_items: "update_items P f db = Inr (db', b) \<Longrightarrow> (\<And>x. P x \<Longrightarrow> item_ok x (f x)) \<Longrightarrow> month_effect db db'"
| eff_insert: "insert_reservation op month only dry sub k now db = Inr (db', r) \<Longrightarrow> month_effect db db'"
| eff_new_item: "month_effect db (ensure_reset_item i month nm ow ep now e db)"

lemmas month_row_ok_defs = op_ok_def manifest_ok_def item_ok_def status_ok_def ALLOWED_TRANSITIONS_def

lemma status_ok_simps [simp]:
  "status_ok s s" "status_ok MQueued MRunning" "status_ok MQueued MFailed"
  "status_ok MRunning MCompleted" "status_ok MRunning MFailed"
  by (simp_all add: status_ok_def ALLOWED_TRANSITIONS_def)

lemma terminal_operation_status_cases:
  "terminal_operation_status st = (if st = Some ''success'' then MCompleted else MFailed)"
  by (simp add: terminal_operation_status_def transition_monthly_operation_def month_state_of_def
      month_event_of_def ALLOWED_TRANSITIONS_def)

lemma status_ok_terminal [simp]: "status_ok MRunning (terminal_operation_status st)"
  by (simp add: terminal_operation_status_cases)

lemma fence_stale_effects:
  assumes "fence_stale_operation month now db = Inr db'"
  shows "month_effect\<^sup>*\<^sup>* db db'"
proof (cases "latest_op (is_stale_op month now) (md_ops db)")
  case None
  with assms show ?thesis by (simp add: fence_stale_operation_def)
next
  case (Some s)
  with assms obtain db1 b b' where
    i: "update_items (\<lambda>i. ri_operation_id i = mo_id s \<and> ri_status i \<in> {ItRunning, ItCompleted, ItUncertain}
        \<and> ri_rollback i \<noteq> Some RbRestored) (stale_item now) db = Inr (db1, b)"
    and u: "update_ops (\<lambda>w. mo_id w = mo_id s \<and> mo_status w = MRunning) (stale_op now) db1 = Inr (db', b')"
    by (auto simp: fence_stale_operation_def res_simps split: prod.splits)
  have "month_effect db db1"
    by (rule eff_items [OF i]) (simp add: item_ok_def stale_item_def intent_phase_def)
  moreover have "month_effect db1 db'"
    by (rule eff_ops [OF u]) (simp add: op_ok_def stale_op_def)
  ultimately show ?thesis by auto
qed

lemma reserve_effects:
  assumes "month_reserve op month only dry sub k now db = Inr (db', r)"
  shows "month_effect\<^sup>*\<^sup>* db db'"
proof -
  from assms obtain db1 where f: "fence_stale_operation month now db = Inr db1"
    and "db' = db1 \<or> (\<exists>only' x. insert_reservation op month only' dry sub k now db1 = Inr (db', x))"
    by (auto simp: month_reserve_def Let_def res_simps split: if_splits prod.splits)
  then have "month_effect\<^sup>*\<^sup>* db1 db'" by (auto intro: eff_insert)
  with fence_stale_effects [OF f] show ?thesis by (rule rtranclp_trans)
qed

lemma start_effects:
  assumes "month_start u i ow lease now db = Inr (db', s)"
  shows "month_effect\<^sup>*\<^sup>* db db'"
proof -
  let ?ow = "case ow of None \<Rightarrow> u | Some s \<Rightarrow> if s = [] then u else s"
  from assms obtain db1 b where
    u1: "update_ops (\<lambda>w. mo_id w = i \<and> mo_status w = MQueued \<and> startable w db) (start_op ?ow lease now) db = Inr (db1, b)"
    and rest: "db' = db1 \<or> (\<exists>b'. update_ops (\<lambda>w. mo_id w = i \<and> mo_status w = MQueued \<and> \<not> startable w db1)
      (fail_op ''legacy_operation_missing_identity_or_manifest'' now) db1 = Inr (db', b'))"
    by (auto simp: month_start_def Let_def res_simps split: if_splits prod.splits)
  have "month_effect db db1"
    by (rule eff_ops [OF u1]) (simp add: op_ok_def start_op_def)
  moreover have "month_effect\<^sup>*\<^sup>* db1 db'"
    using rest
  proof
    assume "\<exists>b'. update_ops (\<lambda>w. mo_id w = i \<and> mo_status w = MQueued \<and> \<not> startable w db1)
      (fail_op ''legacy_operation_missing_identity_or_manifest'' now) db1 = Inr (db', b')"
    then show ?thesis
      by (auto intro!: r_into_rtranclp elim!: eff_ops simp: op_ok_def fail_op_def)
  qed simp
  ultimately show ?thesis by (rule converse_rtranclp_into_rtranclp)
qed

lemma finish_reset_effects:
  assumes "finish_reset_success i r doc k sha cdoc ow ep now db = Inr db'"
  obtains st db1 db2 where
    "update_manifests (\<lambda>m. mm_operation_id m = i \<and> mm_operation m = ''reset'' \<and> mm_status m = MfBuilding
          \<and> runs i ow ep now db) (fill_manifest st doc None (Some now) now) db = Inr (db1, True)"
    and "update_ops (\<lambda>w. mo_op w = ''reset'' \<and> \<not> mo_dry_run w
          \<and> mo_approved_manifest_id w = Some k \<and> op_runs i ow ep now w) (finish_op MCompleted r None now) db1 = Inr (db2, True)"
    and "update_manifests (\<lambda>m. mm_id m = k \<and> mm_status m = MfApproved \<and> mm_sha256 m = Some sha
          \<and> list_ex (\<lambda>w. mo_id w = i \<and> mo_closing_month w = mm_closing_month m) (md_ops db2))
          (consume_manifest cdoc now) db2 = Inr (db', True)"
  using assms
  by (auto simp: finish_reset_success_def res_simps split: if_splits option.splits prod.splits)

lemma finish_reset_steps:
  assumes "finish_reset_success i r doc k sha cdoc ow ep now db = Inr db'"
  shows "month_effect\<^sup>*\<^sup>* db db'"
  using assms
proof (rule finish_reset_effects)
  fix st db1 db2
  assume u1: "update_manifests (\<lambda>m. mm_operation_id m = i \<and> mm_operation m = ''reset'' \<and> mm_status m = MfBuilding
          \<and> runs i ow ep now db) (fill_manifest st doc None (Some now) now) db = Inr (db1, True)"
    and u2: "update_ops (\<lambda>w. mo_op w = ''reset'' \<and> \<not> mo_dry_run w
          \<and> mo_approved_manifest_id w = Some k \<and> op_runs i ow ep now w) (finish_op MCompleted r None now) db1 = Inr (db2, True)"
    and u3: "update_manifests (\<lambda>m. mm_id m = k \<and> mm_status m = MfApproved \<and> mm_sha256 m = Some sha
          \<and> list_ex (\<lambda>w. mo_id w = i \<and> mo_closing_month w = mm_closing_month m) (md_ops db2))
          (consume_manifest cdoc now) db2 = Inr (db', True)"
  have "month_effect db db1"
    by (rule eff_manifests [OF u1]) (simp add: manifest_ok_def fill_manifest_def)
  moreover have "month_effect db1 db2"
    by (rule eff_ops [OF u2]) (simp add: op_ok_def finish_op_def op_runs_def)
  moreover have "month_effect db2 db'"
    by (rule eff_manifests [OF u3]) (simp add: manifest_ok_def consume_manifest_def)
  ultimately show ?thesis by (meson rtranclp.intros)
qed

lemma ensure_effects: "month_effect\<^sup>*\<^sup>* db (ensure_reset_items i month nm es ow ep now db)"
  unfolding ensure_reset_items_def
  by (induction es arbitrary: db) (auto intro: converse_rtranclp_into_rtranclp eff_new_item)

lemma cancel_effects:
  assumes "mark_cancelled_uncertain i msg ow ep now db = Inr (db', b)"
  shows "month_effect\<^sup>*\<^sup>* db db'"
proof -
  from assms obtain db1 b1 where
    u1: "update_items (\<lambda>x. ri_operation_id x = i \<and> leased i ow ep now db
         \<and> ri_status x \<in> {ItRunning, ItCompleted} \<and> ri_rollback x \<noteq> Some RbRestored) (cancel_item msg now) db = Inr (db1, b1)"
    and u2: "update_ops (\<lambda>w. op_active w \<and> op_leased i ow ep now w) (fail_op msg now) db1 = Inr (db', b)"
    by (auto simp: mark_cancelled_uncertain_def res_simps split: prod.splits)
  have "month_effect db db1"
    by (rule eff_items [OF u1]) (auto simp: item_ok_def cancel_item_def intent_phase_def)
  moreover have "month_effect db1 db'"
    by (rule eff_ops [OF u2]) (auto simp: op_ok_def fail_op_def op_active_def)
  ultimately show ?thesis by auto
qed

lemma step_effects:
  assumes "month_step db db'"
  shows "month_effect\<^sup>*\<^sup>* db db'"
  using assms
proof cases
  case ms_reserve
  then show ?thesis by (rule reserve_effects)
next
  case ms_attach
  then show ?thesis
    unfolding attach_job_def by (intro r_into_rtranclp) (erule eff_ops, simp add: op_ok_def)
next
  case ms_start
  then show ?thesis by (rule start_effects)
next
  case ms_heartbeat
  then show ?thesis
    unfolding month_heartbeat_def by (intro r_into_rtranclp) (erule eff_ops, simp add: op_ok_def)
next
  case ms_finish
  then show ?thesis
    unfolding month_finish_def
    by (intro r_into_rtranclp) (erule eff_ops, simp add: op_ok_def finish_op_def op_runs_def)
next
  case ms_finish_reset
  then show ?thesis by (rule finish_reset_steps)
next
  case ms_fail
  then show ?thesis
    unfolding month_fail_def by (intro r_into_rtranclp) (erule eff_ops, simp add: op_ok_def fail_op_def op_runs_def)
next
  case ms_fail_queued
  then show ?thesis
    unfolding month_fail_queued_def by (intro r_into_rtranclp) (erule eff_ops, simp add: op_ok_def fail_op_def)
next
  case ms_cancel
  then show ?thesis by (rule cancel_effects)
next
  case (ms_persist i doc ow ep code now)
  then obtain st v b where "update_manifests (\<lambda>m. mm_operation_id m = i \<and> mm_status m = MfBuilding \<and> runs i ow ep now db)
      (fill_manifest st doc code v now) db = Inr (db', b)"
    by (auto simp: persist_manifest_result_def res_simps split: option.splits if_splits prod.splits)
  then show ?thesis
    by (intro r_into_rtranclp) (erule eff_manifests, simp add: manifest_ok_def fill_manifest_def)
next
  case ms_approve
  then show ?thesis
    unfolding approve_manifest_def
    by (intro r_into_rtranclp) (erule eff_manifests, simp add: manifest_ok_def approve_row_def approvable_def)
next
  case ms_ensure
  then show ?thesis using ensure_effects by metis
next
  case ms_claim_item
  then show ?thesis
    unfolding claim_reset_item_def
    by (intro r_into_rtranclp) (erule eff_items, simp add: item_ok_def intent_phase_def)
next
  case ms_backup
  then show ?thesis
    unfolding record_reset_item_backup_def
    by (intro r_into_rtranclp) (erule eff_items, simp add: item_ok_def intent_phase_def)
next
  case ms_rollback
  then show ?thesis
    unfolding record_reset_item_rollback_def
    by (intro r_into_rtranclp) (erule eff_items, simp add: item_ok_def intent_phase_def)
next
  case ms_finish_item
  then show ?thesis
    unfolding finish_reset_item_def
    by (intro r_into_rtranclp) (erule eff_items, simp add: item_ok_def intent_phase_def)
next
  case ms_prepare_clear
  then show ?thesis
    unfolding prepare_reset_clear_def
    by (intro r_into_rtranclp) (erule eff_items, simp add: item_ok_def intent_phase_def clearable_def backed_up_def)
next
  case ms_confirm_clear
  then show ?thesis
    unfolding confirm_reset_clear_def
    by (intro r_into_rtranclp) (erule eff_items, simp add: item_ok_def intent_phase_def)
next
  case ms_prepare_rollback
  then show ?thesis
    unfolding prepare_reset_rollback_def
    by (intro r_into_rtranclp) (erule eff_items, simp add: item_ok_def intent_phase_def backed_up_def)
next
  case ms_confirm_rollback
  then show ?thesis
    unfolding confirm_reset_rollback_def
    by (intro r_into_rtranclp) (erule eff_items, simp add: item_ok_def intent_phase_def)
next
  case (ms_reconcile_claim locked ow lease limit now ws)
  then obtain b where "update_ops (\<lambda>w. mo_id w \<in> set (reconciliation_candidates locked now limit db))
      (reconcile_claim_op ow lease now) db = Inr (db', b)"
    by (auto simp: claim_reconciliation_candidates_def Let_def res_simps split: prod.splits)
  then show ?thesis
    by (intro r_into_rtranclp) (erule eff_ops, simp add: op_ok_def reconcile_claim_op_def)
next
  case ms_reconciled
  then show ?thesis
    unfolding mark_reconciliation_result_def
    by (intro r_into_rtranclp) (erule eff_ops, auto simp: op_ok_def reconciled_op_def)
next
  case ms_item_recovery
  then show ?thesis
    unfolding mark_item_recovery_required_def
    by (intro r_into_rtranclp) (erule eff_items, simp add: item_ok_def intent_phase_def)
next
  case ms_item_retry
  then show ?thesis
    unfolding mark_item_safe_retry_def
    by (intro r_into_rtranclp) (erule eff_items, simp add: item_ok_def intent_phase_def)
qed

section \<open>The invariant\<close>

definition item_key :: "reset_item \<Rightarrow> nat \<times> string" where
  "item_key x = (ri_operation_id x, ri_site_code x)"

definition month_inv :: "month_db \<Rightarrow> bool" where
  "month_inv db \<longleftrightarrow> ops_unique (md_ops db)
     \<and> (\<forall>w \<in> set (md_ops db). op_checks w \<and> mo_id w < md_next_op db)
     \<and> distinct (map mm_id (md_manifests db)) \<and> distinct (map mm_operation_id (md_manifests db))
     \<and> (\<forall>m \<in> set (md_manifests db). manifest_checks m \<and> mm_id m < md_next_manifest db \<and> mm_operation_id m < md_next_op db)
     \<and> distinct (map item_key (md_items db))
     \<and> (\<forall>x \<in> set (md_items db). item_checks x \<and> (intent_phase (ri_phase x) \<longrightarrow> backed_up x))"

lemma update_opsD:
  assumes "update_ops P f db = Inr (db', b)"
  shows "db' = db\<lparr>md_ops := upd_where P f (md_ops db)\<rparr>" and "ops_unique (upd_where P f (md_ops db))"
    and "\<And>w. w \<in> set (md_ops db) \<Longrightarrow> P w \<Longrightarrow> op_checks (f w)" and "b \<longleftrightarrow> list_ex P (md_ops db)"
  using assms by (auto simp: update_ops_def Let_def list_all_iff split: if_splits)

lemma update_manifestsD:
  assumes "update_manifests P f db = Inr (db', b)"
  shows "db' = db\<lparr>md_manifests := upd_where P f (md_manifests db)\<rparr>"
    and "\<And>m. m \<in> set (md_manifests db) \<Longrightarrow> P m \<Longrightarrow> manifest_checks (f m)" and "b \<longleftrightarrow> list_ex P (md_manifests db)"
  using assms by (auto simp: update_manifests_def list_all_iff split: if_splits)

lemma update_itemsD:
  assumes "update_items P f db = Inr (db', b)"
  shows "db' = db\<lparr>md_items := upd_where P f (md_items db)\<rparr>"
    and "\<And>x. x \<in> set (md_items db) \<Longrightarrow> P x \<Longrightarrow> item_checks (f x)" and "b \<longleftrightarrow> list_ex P (md_items db)"
  using assms by (auto simp: update_items_def list_all_iff split: if_splits)

lemma item_ok_backed_up: "item_ok x x' \<Longrightarrow> backed_up x \<Longrightarrow> backed_up x'"
  by (auto simp: item_ok_def backed_up_def)

lemma insert_reservationD:
  assumes "insert_reservation op month only dry sub k now db = Inr (db', (new_id, r))"
  obtains "db' = db" and "new_id = None"
  | w m where "w = new_op (md_next_op db) op month only dry sub (if op = ''reset'' \<and> \<not> dry then k else None) now"
    and "m = new_manifest (md_next_manifest db) (md_next_op db) month op sub now"
    and "op_checks w" and "manifest_checks m" and "new_id = Some (mo_id w)" and "r = None"
    and "\<not> list_ex (\<lambda>x. mo_closing_month x = month \<and> op_active x) (md_ops db)"
    and "db' = db\<lparr>md_ops := md_ops db @ [w], md_manifests := md_manifests db @ [m],
        md_next_op := md_next_op db + 1, md_next_manifest := md_next_manifest db + 1\<rparr>"
  using assms by (auto simp: insert_reservation_def Let_def split: if_splits option.splits)

lemma inv_insert:
  assumes inv: "month_inv db" and ins: "insert_reservation op month only dry sub k now db = Inr (db', r)"
  shows "month_inv db'"
proof -
  obtain new_id rv where r: "r = (new_id, rv)" by (cases r)
  from ins [unfolded r] show ?thesis
  proof (cases rule: insert_reservationD)
    case 1
    with inv show ?thesis by simp
  next
    case (2 w m)
    have ids: "mo_id w = md_next_op db" "mm_id m = md_next_manifest db" "mm_operation_id m = md_next_op db"
      "mo_status w = MQueued" "mo_closing_month w = month"
      by (simp_all add: 2(1,2) new_op_def new_manifest_def)
    have "ops_unique (md_ops db @ [w])"
      using inv ids 2(7) unfolding ops_unique_def month_inv_def
      by (fastforce simp: list_ex_iff op_active_def live_reset_completed_def)
    then show ?thesis
      using inv ids 2(3,4) by (fastforce simp: month_inv_def 2(8) less_Suc_eq)
  qed
qed

lemma month_inv_effect:
  assumes inv: "month_inv db" and eff: "month_effect db db'"
  shows "month_inv db'"
  using eff
proof cases
  case (eff_ops P f b)
  note D = update_opsD [OF eff_ops(1)]
  have "op_checks (f w) \<and> mo_id (f w) < md_next_op db" if "w \<in> set (md_ops db)" "P w" for w
    using D(3) [OF that] eff_ops(2) [OF that(2)] inv that(1) by (simp add: op_ok_def month_inv_def)
  then show ?thesis
    using inv D(2) by (auto simp: D(1) month_inv_def set_upd_where)
next
  case (eff_manifests P f b)
  note D = update_manifestsD [OF eff_manifests(1)]
  have keys: "map mm_id (upd_where P f (md_manifests db)) = map mm_id (md_manifests db)"
    "map mm_operation_id (upd_where P f (md_manifests db)) = map mm_operation_id (md_manifests db)"
    using eff_manifests(2) by (simp_all add: map_upd_where_key manifest_ok_def)
  have "manifest_checks (f m) \<and> mm_id (f m) < md_next_manifest db \<and> mm_operation_id (f m) < md_next_op db"
    if "m \<in> set (md_manifests db)" "P m" for m
    using D(2) [OF that] eff_manifests(2) [OF that(2)] inv that(1) by (simp add: manifest_ok_def month_inv_def)
  then show ?thesis
    using inv by (auto simp: D(1) month_inv_def set_upd_where keys)
next
  case (eff_items P f b)
  note D = update_itemsD [OF eff_items(1)]
  have keys: "map item_key (upd_where P f (md_items db)) = map item_key (md_items db)"
    using eff_items(2) by (simp add: map_upd_where_key item_ok_def item_key_def)
  have "item_checks (f x) \<and> (intent_phase (ri_phase (f x)) \<longrightarrow> backed_up (f x))"
    if x: "x \<in> set (md_items db)" "P x" for x
  proof -
    have "intent_phase (ri_phase x) \<longrightarrow> backed_up x" using inv x(1) by (simp add: month_inv_def)
    with D(2) [OF x] eff_items(2) [OF x(2)] item_ok_backed_up [OF eff_items(2) [OF x(2)]] show ?thesis
      by (auto simp: item_ok_def)
  qed
  then show ?thesis
    using inv by (auto simp: D(1) month_inv_def set_upd_where keys)
next
  case eff_insert
  then show ?thesis by (rule inv_insert [OF inv])
next
  case (eff_new_item i month nm ow ep now e)
  show ?thesis
    using inv unfolding eff_new_item
    by (auto simp: ensure_reset_item_def month_inv_def item_key_def new_item_def item_checks_def intent_phase_def list_ex_iff)
qed

lemma month_inv_effects: "month_effect\<^sup>*\<^sup>* db db' \<Longrightarrow> month_inv db \<Longrightarrow> month_inv db'"
  by (induction rule: rtranclp_induct) (auto intro: month_inv_effect)

lemma month_inv_step: "month_inv db \<Longrightarrow> month_step db db' \<Longrightarrow> month_inv db'"
  by (blast intro: month_inv_effects step_effects)

lemma month_inv_empty: "month_empty db \<Longrightarrow> month_inv db"
  by (simp add: month_empty_def month_inv_def ops_unique_def)

end
