(* ===== verification/Grile_Sample.thy ===== *)
theory Grile_Sample
  imports Grile_Invariants
begin

text \<open>
  One run of the monthly closeout, used by the witnesses: the archive of June 2026 is
  verified and approved, a live reset clears one store and fails, and its rollback is left
  open. Every state is given and every transaction of the run is evaluated.
\<close>

definition june :: string where
  "june = ''2026-06''"

definition june_sha :: string where
  "june_sha = replicate 64 (CHR ''b'')"

definition june_doc :: manifest_doc where
  "june_doc = \<lparr> doc_status = Some ''verified'', doc_expected_stores = 1, doc_processed_stores = 1,
     doc_expected_agents = 2, doc_processed_agents = 2, doc_error_count = 0, doc_control_totals = ''{}'',
     doc_artifacts = ''[]'', doc_source_backups = ''[]'', doc_json = ''{}'', doc_sha256 = Some june_sha \<rparr>"

definition archive_queued :: month_op where
  "archive_queued = new_op 1 ''archive'' june None False ''admin'' None 0"

definition archive_running :: month_op where
  "archive_running = start_op ''w1'' EXECUTION_LEASE_SECONDS 10 archive_queued"

definition archive_done :: month_op where
  "archive_done = finish_op MCompleted (JObject (Some ''success'') ''{}'') None 30 archive_running"

definition archive_building :: month_manifest where
  "archive_building = new_manifest 1 1 june ''archive'' ''admin'' 0"

definition archive_verified :: month_manifest where
  "archive_verified = fill_manifest MfVerified june_doc None (Some 20) 20 archive_building"

definition archive_approved :: month_manifest where
  "archive_approved = approve_row ''boss'' june_doc 40 archive_verified"

definition reset_queued :: month_op where
  "reset_queued = new_op 2 ''reset'' june None False ''admin'' (Some 1) 50"

definition reset_running :: month_op where
  "reset_running = start_op ''w2'' EXECUTION_LEASE_SECONDS 60 reset_queued"

definition reset_failed :: month_op where
  "reset_failed = finish_op MFailed (JObject (Some ''failed'') ''{}'') (Some ''monthly_operation_failed'') 130 reset_running"

definition reset_building :: month_manifest where
  "reset_building = new_manifest 2 2 june ''reset'' ''admin'' 50"

definition store_one :: reset_item_input where
  "store_one = \<lparr> in_site_code = ''S1'', in_sheet_id = ''sheet'', in_company = ''c'', in_store = ''s'', in_ranges = ''[]'' \<rparr>"

definition item_new :: reset_item where
  "item_new = new_item 1 2 june ''2026-07'' 70 store_one"

definition item_saved :: reset_item where
  "item_saved = item_new\<lparr>ri_backup_path := Some ''b'', ri_backup_sha256 := Some june_sha,
     ri_phase := SnapshotPersisted, ri_recovery_code := None, ri_updated_at := 80\<rparr>"

definition item_claimed :: reset_item where
  "item_claimed = item_saved\<lparr>ri_status := ItRunning, ri_started_at := Some 90, ri_fence_epoch := 1, ri_updated_at := 90\<rparr>"

definition item_clearing :: reset_item where
  "item_clearing = item_claimed\<lparr>ri_phase := ClearIntent, ri_fence_epoch := 2, ri_intent_at := Some 100, ri_updated_at := 100\<rparr>"

definition item_rolling_back :: reset_item where
  "item_rolling_back = item_clearing\<lparr>ri_phase := RollbackIntent, ri_fence_epoch := 3, ri_intent_at := Some 110, ri_updated_at := 110\<rparr>"

definition month_db_of :: "month_op list \<Rightarrow> month_manifest list \<Rightarrow> reset_item list \<Rightarrow> month_db" where
  "month_db_of os ms xs = \<lparr>md_ops = os, md_manifests = ms, md_items = xs, md_next_op = length os + 1,
     md_next_manifest = length ms + 1, md_next_item = length xs + 1\<rparr>"

abbreviation june_reset :: "reset_item list \<Rightarrow> month_db" where
  "june_reset \<equiv> month_db_of [archive_done, reset_running] [archive_approved, reset_building]"

lemma run_reserve_archive:
  "month_reserve ''archive'' june None False ''admin'' None 0 (month_db_of [] [] [])
     = Inr (month_db_of [archive_queued] [archive_building] [],
            Inr \<lparr>rv_status = Enqueued, rv_operation_id = 1, rv_operation = None\<rparr>)"
  by code_simp

lemma run_start_archive:
  "month_start ''u'' 1 (Some ''w1'') EXECUTION_LEASE_SECONDS 10 (month_db_of [archive_queued] [archive_building] [])
     = Inr (month_db_of [archive_running] [archive_building] [], (Started, None))"
  by code_simp

lemma run_persist_archive:
  "persist_manifest_result 1 june_doc ''w1'' 1 None 20 (month_db_of [archive_running] [archive_building] [])
     = Inr (month_db_of [archive_running] [archive_verified] [])"
  by code_simp

lemma run_finish_archive:
  "month_finish 1 (Some ''success'') ''{}'' None ''w1'' 1 30 (month_db_of [archive_running] [archive_verified] [])
     = Inr (month_db_of [archive_done] [archive_verified] [], True)"
  by code_simp

lemma run_approve_archive:
  "approve_manifest 1 june_sha ''boss'' june_doc 40 (month_db_of [archive_done] [archive_verified] [])
     = Inr (month_db_of [archive_done] [archive_approved] [], True)"
  by code_simp

lemma run_reserve_reset:
  "month_reserve ''reset'' june None False ''admin'' (Some 1) 50 (month_db_of [archive_done] [archive_approved] [])
     = Inr (month_db_of [archive_done, reset_queued] [archive_approved, reset_building] [],
            Inr \<lparr>rv_status = Enqueued, rv_operation_id = 2, rv_operation = None\<rparr>)"
  by code_simp

lemma run_start_reset:
  "month_start ''u'' 2 (Some ''w2'') EXECUTION_LEASE_SECONDS 60
       (month_db_of [archive_done, reset_queued] [archive_approved, reset_building] [])
     = Inr (june_reset [], (Started, None))"
  by code_simp

lemma run_ensure_item:
  "ensure_reset_items 2 june ''2026-07'' [store_one] ''w2'' 1 70 (june_reset []) = june_reset [item_new]"
  by code_simp

lemma run_backup_item:
  "record_reset_item_backup 2 ''S1'' ''b'' june_sha ''w2'' 1 80 (june_reset [item_new])
     = Inr (june_reset [item_saved], True)"
  by code_simp

lemma run_claim_item:
  "claim_reset_item 2 ''S1'' ''w2'' 1 90 (june_reset [item_saved]) = Inr (june_reset [item_claimed], True)"
  by code_simp

lemma run_prepare_clear:
  "prepare_reset_clear 2 ''S1'' ''w2'' 1 100 (june_reset [item_claimed]) = Inr (june_reset [item_clearing], True)"
  by code_simp

lemma run_prepare_rollback:
  "prepare_reset_rollback 2 ''S1'' ''w2'' 1 110 (june_reset [item_clearing]) = Inr (june_reset [item_rolling_back], True)"
  by code_simp

lemma run_finish_reset_failed:
  "month_finish 2 (Some ''failed'') ''{}'' (Some ''monthly_operation_failed'') ''w2'' 1 130 (june_reset [item_rolling_back])
     = Inr (month_db_of [archive_done, reset_failed] [archive_approved, reset_building] [item_rolling_back], True)"
  by code_simp

section \<open>Its states are reachable\<close>

lemma reach_archive_approved: "month_reachable (month_db_of [archive_done] [archive_approved] [])"
proof -
  have "month_reachable (month_db_of [] [] [])"
    by (rule reach_init) (simp add: month_empty_def month_db_of_def)
  then have "month_reachable (month_db_of [archive_queued] [archive_building] [])"
    by (rule reach_step) (rule ms_reserve [OF run_reserve_archive])
  then have "month_reachable (month_db_of [archive_running] [archive_building] [])"
    by (rule reach_step) (rule ms_start [OF run_start_archive])
  then have "month_reachable (month_db_of [archive_running] [archive_verified] [])"
    by (rule reach_step) (rule ms_persist [OF run_persist_archive])
  then have "month_reachable (month_db_of [archive_done] [archive_verified] [])"
    by (rule reach_step) (rule ms_finish [OF run_finish_archive])
  then show ?thesis
    by (rule reach_step) (rule ms_approve [OF run_approve_archive])
qed

lemma reach_reset_queued:
  "month_reachable (month_db_of [archive_done, reset_queued] [archive_approved, reset_building] [])"
  using reach_archive_approved by (rule reach_step) (rule ms_reserve [OF run_reserve_reset])

lemma reach_reset_claimed: "month_reachable (june_reset [item_claimed])"
proof -
  have "month_reachable (june_reset [])"
    using reach_reset_queued by (rule reach_step) (rule ms_start [OF run_start_reset])
  then have "month_reachable (june_reset [item_new])"
    by (rule reach_step) (rule ms_ensure [OF run_ensure_item])
  then have "month_reachable (june_reset [item_saved])"
    by (rule reach_step) (rule ms_backup [OF run_backup_item])
  then show ?thesis
    by (rule reach_step) (rule ms_claim_item [OF run_claim_item])
qed

lemma reach_reset_clearing: "month_reachable (june_reset [item_clearing])"
  using reach_reset_claimed by (rule reach_step) (rule ms_prepare_clear [OF run_prepare_clear])

lemma reach_reset_failed:
  "month_reachable (month_db_of [archive_done, reset_failed] [archive_approved, reset_building] [item_rolling_back])"
proof -
  have "month_reachable (june_reset [item_rolling_back])"
    using reach_reset_clearing by (rule reach_step) (rule ms_prepare_rollback [OF run_prepare_rollback])
  then show ?thesis
    by (rule reach_step) (rule ms_finish [OF run_finish_reset_failed])
qed

text \<open>The store's clear can also be confirmed and the reset committed.\<close>

definition item_cleared :: reset_item where
  "item_cleared = item_clearing\<lparr>ri_phase := ClearVerified, ri_status := ItCompleted, ri_verified_at := Some 110, ri_updated_at := 110\<rparr>"

definition reset_done :: month_op where
  "reset_done = finish_op MCompleted (JObject (Some ''success'') ''{}'') None 120 reset_running"

definition reset_verified :: month_manifest where
  "reset_verified = fill_manifest MfVerified june_doc None (Some 120) 120 reset_building"

definition archive_consumed :: month_manifest where
  "archive_consumed = consume_manifest june_doc 120 archive_approved"

definition june_committed :: month_db where
  "june_committed = month_db_of [archive_done, reset_done] [archive_consumed, reset_verified] [item_cleared]"

lemma run_confirm_clear:
  "confirm_reset_clear 2 ''S1'' ''w2'' 1 2 True None 110 (june_reset [item_clearing]) = Inr (june_reset [item_cleared], True)"
  by code_simp

lemma run_finish_reset_success:
  "finish_reset_success 2 (JObject (Some ''success'') ''{}'') june_doc 1 june_sha june_doc ''w2'' 1 120 (june_reset [item_cleared])
     = Inr june_committed"
  by code_simp

lemma reach_reset_cleared: "month_reachable (june_reset [item_cleared])"
  using reach_reset_clearing by (rule reach_step) (rule ms_confirm_clear [OF run_confirm_clear])

end
