(* ===== verification/Grile_Correctness.thy ===== *)
theory Grile_Correctness
  imports Grile_Invariants Grile_Sample
begin

text \<open>
  What the monthly closeout promises over every interleaving of its transactions: one
  active operation per month, workers fenced by epochs, statuses that follow the domain's
  transition table, a destructive clear that is prepared at most once and never without a
  persisted backup, and manifests that authorise one reset.
\<close>

section \<open>Rows over runs\<close>

text \<open>A row that is in a table stays there, and what the row laws keep is kept along a run.\<close>

lemma effect_op_successor:
  assumes "month_effect db db'" and "w \<in> set (md_ops db)"
  obtains w' where "w' \<in> set (md_ops db')" and "w' = w \<or> op_ok w w'"
  using assms
proof cases
  case (eff_ops P f b)
  then show ?thesis
    using that [of "if P w then f w else w"] assms(2) update_opsD(1) [OF eff_ops(1)]
    by (auto simp: set_upd_where split: if_splits)
next
  case (eff_manifests P f b)
  then show ?thesis using that [of w] assms(2) update_manifestsD(1) [OF eff_manifests(1)] by simp
next
  case (eff_items P f b)
  then show ?thesis using that [of w] assms(2) update_itemsD(1) [OF eff_items(1)] by simp
next
  case (eff_insert op month only dry sub k now r)
  obtain n rv where "r = (n, rv)" by (cases r)
  with eff_insert show ?thesis
    using that [of w] assms(2) by (auto elim!: insert_reservationD)
next
  case eff_new_item
  then show ?thesis using that [of w] assms(2) by (simp add: ensure_reset_item_def)
qed

lemma effect_manifest_successor:
  assumes "month_effect db db'" and "m \<in> set (md_manifests db)"
  obtains m' where "m' \<in> set (md_manifests db')" and "m' = m \<or> manifest_ok m m'"
  using assms
proof cases
  case (eff_ops P f b)
  then show ?thesis using that [of m] assms(2) update_opsD(1) [OF eff_ops(1)] by simp
next
  case (eff_manifests P f b)
  then show ?thesis
    using that [of "if P m then f m else m"] assms(2) update_manifestsD(1) [OF eff_manifests(1)]
    by (auto simp: set_upd_where split: if_splits)
next
  case (eff_items P f b)
  then show ?thesis using that [of m] assms(2) update_itemsD(1) [OF eff_items(1)] by simp
next
  case (eff_insert op month only dry sub k now r)
  obtain n rv where "r = (n, rv)" by (cases r)
  with eff_insert show ?thesis
    using that [of m] assms(2) by (auto elim!: insert_reservationD)
next
  case eff_new_item
  then show ?thesis using that [of m] assms(2) by (simp add: ensure_reset_item_def)
qed

lemma effect_item_successor:
  assumes "month_effect db db'" and "x \<in> set (md_items db)"
  obtains x' where "x' \<in> set (md_items db')" and "x' = x \<or> item_ok x x'"
  using assms
proof cases
  case (eff_ops P f b)
  then show ?thesis using that [of x] assms(2) update_opsD(1) [OF eff_ops(1)] by simp
next
  case (eff_manifests P f b)
  then show ?thesis using that [of x] assms(2) update_manifestsD(1) [OF eff_manifests(1)] by simp
next
  case (eff_items P f b)
  then show ?thesis
    using that [of "if P x then f x else x"] assms(2) update_itemsD(1) [OF eff_items(1)]
    by (auto simp: set_upd_where split: if_splits)
next
  case (eff_insert op month only dry sub k now r)
  obtain n rv where "r = (n, rv)" by (cases r)
  with eff_insert show ?thesis
    using that [of x] assms(2) by (auto elim!: insert_reservationD)
next
  case eff_new_item
  then show ?thesis using that [of x] assms(2) by (simp add: ensure_reset_item_def)
qed

lemma steps_effects: "month_step\<^sup>*\<^sup>* db db' \<Longrightarrow> month_effect\<^sup>*\<^sup>* db db'"
  by (induction rule: rtranclp_induct) (auto dest: step_effects intro: rtranclp_trans)

text \<open>A relation between a row and its successors, closed under the row law, holds over a run.\<close>

lemma op_over_effects:
  assumes "month_effect\<^sup>*\<^sup>* db db'" and "w \<in> set (md_ops db)" and "R w"
    and "\<And>v v'. R v \<Longrightarrow> op_ok v v' \<Longrightarrow> R v'"
  shows "\<exists>w' \<in> set (md_ops db'). R w'"
  using assms(1-3)
proof (induction rule: rtranclp_induct)
  case (step d e)
  then obtain v where "v \<in> set (md_ops d)" "R v" by blast
  with step(2) show ?case
    by (elim effect_op_successor [of d e v]) (auto dest: assms(4))
qed blast

lemma manifest_over_effects:
  assumes "month_effect\<^sup>*\<^sup>* db db'" and "m \<in> set (md_manifests db)" and "R m"
    and "\<And>v v'. R v \<Longrightarrow> manifest_ok v v' \<Longrightarrow> R v'"
  shows "\<exists>m' \<in> set (md_manifests db'). R m'"
  using assms(1-3)
proof (induction rule: rtranclp_induct)
  case (step d e)
  then obtain v where "v \<in> set (md_manifests d)" "R v" by blast
  with step(2) show ?case
    by (elim effect_manifest_successor [of d e v]) (auto dest: assms(4))
qed blast

lemma item_over_effects:
  assumes "month_effect\<^sup>*\<^sup>* db db'" and "x \<in> set (md_items db)" and "R x"
    and "\<And>v v'. R v \<Longrightarrow> item_ok v v' \<Longrightarrow> R v'"
  shows "\<exists>x' \<in> set (md_items db'). R x'"
  using assms(1-3)
proof (induction rule: rtranclp_induct)
  case (step d e)
  then obtain v where "v \<in> set (md_items d)" "R v" by blast
  with step(2) show ?case
    by (elim effect_item_successor [of d e v]) (auto dest: assms(4))
qed blast

section \<open>The machine and its fences\<close>

definition month_epoch :: "month_db \<Rightarrow> nat \<Rightarrow> nat" where
  "month_epoch db i = (case row_by mo_id i (md_ops db) of None \<Rightarrow> 0 | Some w \<Rightarrow> mo_epoch w)"

definition month_holds :: "month_db \<Rightarrow> nat \<Rightarrow> string \<Rightarrow> nat \<Rightarrow> instant \<Rightarrow> bool" where
  "month_holds db i owner epoch now \<longleftrightarrow> leased i owner epoch now db"

lemma month_inv_ids: "month_inv db \<Longrightarrow> distinct (map mo_id (md_ops db))"
  by (simp add: month_inv_def ops_unique_def)

lemma month_epoch_row:
  assumes "month_inv db" and "w \<in> set (md_ops db)"
  shows "month_epoch db (mo_id w) = mo_epoch w"
  using row_by_unique [OF month_inv_ids [OF assms(1)] assms(2) refl] by (simp add: month_epoch_def)

lemma month_epoch_mono:
  assumes "month_inv db" and "month_step db db'"
  shows "month_epoch db i \<le> month_epoch db' i"
proof (cases "row_by mo_id i (md_ops db)")
  case None
  then show ?thesis by (simp add: month_epoch_def)
next
  case (Some w)
  then have w: "w \<in> set (md_ops db)" "mo_id w = i" by (auto dest: row_by_SomeD)
  obtain w' where w': "w' \<in> set (md_ops db')" "mo_id w' = i" "mo_epoch w \<le> mo_epoch w'"
    using op_over_effects [OF step_effects [OF assms(2)] w(1), of "\<lambda>v. mo_id v = i \<and> mo_epoch w \<le> mo_epoch v"] w(2)
    by (auto simp: op_ok_def)
  have "month_epoch db i = mo_epoch w" "month_epoch db' i = mo_epoch w'"
    using month_epoch_row [OF assms(1) w(1)] month_epoch_row [OF month_inv_step [OF assms] w'(1)] w(2) w'(2)
    by simp_all
  with w'(3) show ?thesis by simp
qed

interpretation mh: fenced_store month_empty month_step month_inv month_epoch month_holds
proof unfold_locales
  show "month_inv db" if "month_empty db" for db
    using that by (rule month_inv_empty)
  show "month_inv db'" if "month_inv db" "month_step db db'" for db db'
    using that by (rule month_inv_step)
  show "month_epoch db i \<le> month_epoch db' i" if "month_inv db" "month_step db db'" for db db' i
    using that by (rule month_epoch_mono)
  show "month_epoch db i = ep" if "month_inv db" "month_holds db i ow ep now" for db i ow ep now
    using that month_epoch_row by (fastforce simp: month_holds_def leased_def list_ex_iff op_leased_def)
  show "ow = ow'" if inv: "month_inv db" and h: "month_holds db i ow ep now" "month_holds db i ow' ep' now'"
    for db i ow ep now ow' ep' now'
  proof -
    obtain w where w: "w \<in> set (md_ops db)" "mo_id w = i" "mo_owner w = Some ow"
      using h(1) by (auto simp: month_holds_def leased_def list_ex_iff op_leased_def)
    obtain w' where w': "w' \<in> set (md_ops db)" "mo_id w' = i" "mo_owner w' = Some ow'"
      using h(2) by (auto simp: month_holds_def leased_def list_ex_iff op_leased_def)
    from w w' distinct_key_eq [OF month_inv_ids [OF inv], of w w'] show ?thesis by simp
  qed
qed

lemma leased_if_runs: "runs i ow ep now db \<Longrightarrow> leased i ow ep now db"
  by (auto simp: runs_def leased_def list_ex_iff op_runs_def)

lemma update_ops_none:
  assumes "ops_unique (md_ops db)" and "\<And>w. w \<in> set (md_ops db) \<Longrightarrow> \<not> P w"
  shows "update_ops P f db = Inr (db, False)"
  using assms by (simp add: update_ops_def upd_where_none list_all_iff list_ex_iff)

lemma update_manifests_none:
  "(\<And>m. m \<in> set (md_manifests db) \<Longrightarrow> \<not> P m) \<Longrightarrow> update_manifests P f db = Inr (db, False)"
  by (simp add: update_manifests_def upd_where_none list_all_iff list_ex_iff)

lemma update_items_none:
  "(\<And>x. x \<in> set (md_items db) \<Longrightarrow> \<not> P x) \<Longrightarrow> update_items P f db = Inr (db, False)"
  by (simp add: update_items_def upd_where_none list_all_iff list_ex_iff)

lemma stale_not_leased:
  assumes "month_reachable s" and "month_step\<^sup>*\<^sup>* s t" and "ep < month_epoch s i"
  shows "\<not> leased i ow ep now t"
  using mh.stale_never_holds [OF mh.reachable_inv [OF assms(1)] assms(2,3)] by (simp add: month_holds_def)

lemma month_worker_fenced_ops:
  assumes "month_inv db" and "\<not> leased i ow ep now db"
  shows "update_ops (\<lambda>w. op_leased i ow ep now w \<and> P w) f db = Inr (db, False)"
    and "update_ops (op_leased i ow ep now) f db = Inr (db, False)"
    and "update_ops (op_runs i ow ep now) f db = Inr (db, False)"
  using assms
  by (auto intro!: update_ops_none simp: month_inv_def leased_def list_ex_iff op_runs_def)

text \<open>
  C12: Once another worker has taken an operation over, so that its epoch has moved past \<open>ep\<close>,
  no later write under the old epoch has any effect, whatever its arguments: not on the
  operation, its manifest, nor a destructive step on a store.
\<close>

theorem month_stale_worker_fenced:
  assumes "month_reachable s" and "month_step\<^sup>*\<^sup>* s t" and "ep < month_epoch s i"
  shows "month_heartbeat i ow ep lease now t = Inr (t, False)
    \<and> month_finish i st js msg ow ep now t = Inr (t, False)
    \<and> month_fail i err ow ep now t = Inr (t, False)
    \<and> mark_cancelled_uncertain i err ow ep now t = Inr (t, False)
    \<and> (\<nexists>t'. persist_manifest_result i doc ow ep code now t = Inr t')
    \<and> (\<nexists>t'. finish_reset_success i r doc k sha cdoc ow ep now t = Inr t')
    \<and> ensure_reset_items i month nm es ow ep now t = t
    \<and> claim_reset_item i site ow ep now t = Inr (t, False)
    \<and> record_reset_item_backup i site path bsha ow ep now t = Inr (t, False)
    \<and> record_reset_item_rollback i site restored ow ep msg now t = Inr (t, False)
    \<and> finish_reset_item i site out ow ep msg now t = Inr (t, False)
    \<and> prepare_reset_clear i site ow ep now t = Inr (t, False)
    \<and> confirm_reset_clear i site ow ep fe restored msg now t = Inr (t, False)
    \<and> prepare_reset_rollback i site ow ep now t = Inr (t, False)
    \<and> confirm_reset_rollback i site ow ep fe restored msg now t = Inr (t, False)
    \<and> mark_reconciliation_result i ow ep c msg restored now t = Inr (t, False)
    \<and> mark_item_recovery_required i site ow ep err now t = Inr (t, False)
    \<and> mark_item_safe_retry i site ow ep now t = Inr (t, False)"
proof -
  have L: "\<not> leased i ow ep now t" using stale_not_leased [OF assms] .
  then have R: "\<not> runs i ow ep now t" using leased_if_runs by blast
  have inv: "month_inv t" by (rule mh.inv_steps [OF assms(2) mh.reachable_inv [OF assms(1)]])
  have E: "ensure_reset_items i month nm es ow ep now t = t"
    using R unfolding ensure_reset_items_def
    by (induction es) (simp_all add: ensure_reset_item_def)
  note ops = month_worker_fenced_ops [OF inv L]
  have F: "\<nexists>t'. finish_reset_success i r doc k sha cdoc ow ep now t = Inr t'"
    using R by (auto elim!: finish_reset_effects dest!: update_manifestsD(3) simp: list_ex_iff)
  have P: "\<nexists>t'. persist_manifest_result i doc ow ep code now t = Inr t'"
    using R by (auto simp: persist_manifest_result_def res_simps update_manifests_none
        split: option.splits)
  show ?thesis
    using E F P R L ops
    by (simp add: month_heartbeat_def month_finish_def month_fail_def mark_cancelled_uncertain_def
        claim_reset_item_def record_reset_item_backup_def record_reset_item_rollback_def finish_reset_item_def
        prepare_reset_clear_def confirm_reset_clear_def prepare_reset_rollback_def confirm_reset_rollback_def
        mark_reconciliation_result_def mark_item_recovery_required_def mark_item_safe_retry_def
        update_items_none res_simps conj_commute [of "op_active _"])
qed

text \<open>A reconciler takes the reset over once its lease has expired.\<close>

definition reset_taken :: month_op where
  "reset_taken = reconcile_claim_op ''rec'' EXECUTION_LEASE_SECONDS 400000000 reset_running"

lemma run_take_over:
  "claim_reconciliation_candidates (\<lambda>_. False) ''rec'' EXECUTION_LEASE_SECONDS 5 400000000 (june_reset [item_clearing])
     = Inr (month_db_of [archive_done, reset_taken] [archive_approved, reset_building] [item_clearing], [reset_taken])"
  by code_simp

lemma reach_taken:
  "month_reachable (month_db_of [archive_done, reset_taken] [archive_approved, reset_building] [item_clearing])"
  using reach_reset_clearing by (rule reach_step) (rule ms_reconcile_claim [OF run_take_over])

theorem month_stale_worker_fenced_witness:
  "let t = month_db_of [archive_done, reset_taken] [archive_approved, reset_building] [item_clearing] in
     confirm_reset_clear 2 ''S1'' ''w2'' 1 2 True None 400000001 t = Inr (t, False)
     \<and> (\<nexists>t'. finish_reset_success 2 (JOther []) june_doc 1 june_sha june_doc ''w2'' 1 400000001 t = Inr t')"
proof -
  have "1 < month_epoch (month_db_of [archive_done, reset_taken] [archive_approved, reset_building] [item_clearing]) 2"
    by code_simp
  from month_stale_worker_fenced [OF reach_taken rtranclp.rtrancl_refl this] show ?thesis by (simp add: Let_def)
qed

section \<open>Statuses\<close>

text \<open>The abstract machine of an operation: the transitions \<^verbatim>\<open>transition_monthly_operation\<close> accepts.\<close>

definition abstract_month_step :: "month_state \<Rightarrow> month_state \<Rightarrow> bool" where
  "abstract_month_step s s' \<longleftrightarrow>
     (\<exists>e. transition_monthly_operation (month_state_text s) (month_event_text e) = Inr (s, e, s'))"

lemma month_state_of_text [simp]: "month_state_of (month_state_text s) = Some s"
  by (cases s) (simp_all add: month_state_of_def month_state_text_def)

lemma month_event_of_text [simp]: "month_event_of (month_event_text e) = Some e"
  by (cases e) (simp_all add: month_event_of_def month_event_text_def)

lemma abstract_month_step_iff:
  "abstract_month_step s s' \<longleftrightarrow> (\<exists>e. ((s, e), s') \<in> set ALLOWED_TRANSITIONS)"
  unfolding abstract_month_step_def transition_monthly_operation_def
  by (cases s; cases s') (auto simp: ALLOWED_TRANSITIONS_def split: option.splits)

lemma status_ok_abstract: "status_ok s s' \<Longrightarrow> abstract_month_step\<^sup>*\<^sup>* s s'"
  by (cases "s = s'") (auto simp: status_ok_def list_ex_iff abstract_month_step_iff intro!: r_into_rtranclp)

lemma abstract_terminal: "abstract_month_step\<^sup>*\<^sup>* s s' \<Longrightarrow> s \<in> {MCompleted, MFailed} \<Longrightarrow> s' = s"
  by (induction rule: rtranclp_induct) (auto simp: abstract_month_step_iff ALLOWED_TRANSITIONS_def)

text \<open>
  C26: The tables refine the domain's state machine. Along every run an operation stays in the
  table, keeps its kind, month and scope, and its status only moves along transitions that
  \<^verbatim>\<open>transition_monthly_operation\<close> allows; so a completed or failed operation never changes
  status again.
\<close>

theorem month_status_refines_transitions:
  assumes "month_reachable db" and "month_step\<^sup>*\<^sup>* db db'" and "row_by mo_id i (md_ops db) = Some w"
  shows "\<exists>w'. row_by mo_id i (md_ops db') = Some w'
    \<and> mo_op w' = mo_op w \<and> mo_closing_month w' = mo_closing_month w \<and> mo_only_filter w' = mo_only_filter w
    \<and> mo_dry_run w' = mo_dry_run w \<and> mo_approved_manifest_id w' = mo_approved_manifest_id w
    \<and> abstract_month_step\<^sup>*\<^sup>* (mo_status w) (mo_status w')
    \<and> (mo_status w \<in> {MCompleted, MFailed} \<longrightarrow> mo_status w' = mo_status w)"
proof -
  have w: "w \<in> set (md_ops db)" "mo_id w = i" using row_by_SomeD [OF assms(3)] by auto
  let ?R = "\<lambda>v. mo_id v = i \<and> mo_op v = mo_op w \<and> mo_closing_month v = mo_closing_month w
    \<and> mo_only_filter v = mo_only_filter w \<and> mo_dry_run v = mo_dry_run w
    \<and> mo_approved_manifest_id v = mo_approved_manifest_id w \<and> abstract_month_step\<^sup>*\<^sup>* (mo_status w) (mo_status v)"
  have "?R v'" if "?R v" "op_ok v v'" for v v'
    using that status_ok_abstract [of "mo_status v" "mo_status v'"] by (auto simp: op_ok_def)
  then obtain w' where w': "w' \<in> set (md_ops db')" "?R w'"
    using op_over_effects [OF steps_effects [OF assms(2)] w(1), of ?R] w(2) by blast
  have "month_inv db'" by (rule mh.inv_steps [OF assms(2) mh.reachable_inv [OF assms(1)]])
  from row_by_unique [OF month_inv_ids [OF this] w'(1)] w'(2) show ?thesis
    using abstract_terminal by blast
qed

theorem month_status_refines_transitions_witness:
  "\<exists>w'. row_by mo_id 2 (md_ops (june_reset [])) = Some w' \<and> abstract_month_step\<^sup>*\<^sup>* MQueued (mo_status w')"
proof -
  have run: "month_step\<^sup>*\<^sup>* (month_db_of [archive_done, reset_queued] [archive_approved, reset_building] []) (june_reset [])"
    by (rule r_into_rtranclp) (rule ms_start [OF run_start_reset])
  have "row_by mo_id 2 (md_ops (month_db_of [archive_done, reset_queued] [archive_approved, reset_building] []))
      = Some reset_queued" by code_simp
  from month_status_refines_transitions [OF reach_reset_queued run this] show ?thesis
    by (auto simp: reset_queued_def new_op_def)
qed

section \<open>Destructive steps\<close>

lemma clear_prepared_items:
  assumes "prepare_reset_clear i site ow ep now s = Inr (t, True)"
  obtains x where "x \<in> set (md_items t)" and "item_of i site x" and "ri_phase x = ClearIntent" and "backed_up x"
proof -
  let ?P = "\<lambda>x. clearable i site x \<and> runs i ow ep now s"
  let ?f = "\<lambda>x. x\<lparr>ri_phase := ClearIntent, ri_fence_epoch := ri_fence_epoch x + 1, ri_intent_at := Some now,
          ri_updated_at := now, ri_error_message := None\<rparr>"
  have u: "update_items ?P ?f s = Inr (t, True)"
    using assms unfolding prepare_reset_clear_def .
  obtain x where x: "x \<in> set (md_items s)" "?P x"
    using update_itemsD(3) [OF u] by (auto simp: list_ex_iff)
  have "?f x \<in> set (md_items t)"
    using x by (auto simp: update_itemsD(1) [OF u] set_upd_where)
  moreover have "item_of i site (?f x)" "ri_phase (?f x) = ClearIntent" "backed_up (?f x)"
    using x(2) by (simp_all add: clearable_def item_of_def backed_up_def)
  ultimately show ?thesis by (rule that)
qed

lemma item_of_unique:
  assumes "month_inv db" and "x \<in> set (md_items db)" and "y \<in> set (md_items db)"
    and "item_of i site x" and "item_of i site y"
  shows "x = y"
proof -
  have "distinct (map item_key (md_items db))" using assms(1) by (simp add: month_inv_def)
  then show ?thesis
    by (rule distinct_key_eq [OF _ assms(2,3)]) (use assms(4,5) in \<open>simp add: item_key_def item_of_def\<close>)
qed

text \<open>
  The intent to clear a store's sheet is recorded only for an item whose backup is
  persisted with its SHA-256, and at most once: after it, in every later state and for every
  worker, \<^verbatim>\<open>prepare_reset_clear\<close> of that store in that operation is refused.
\<close>

theorem clear_intent_single_use:
  assumes "month_reachable s" and "prepare_reset_clear i site ow ep now s = Inr (t, True)" and "month_step\<^sup>*\<^sup>* t u"
  shows "(\<exists>x \<in> set (md_items t). item_of i site x \<and> ri_phase x = ClearIntent \<and> backed_up x)
    \<and> prepare_reset_clear i site ow' ep' now' u = Inr (u, False)"
proof -
  obtain x where x: "x \<in> set (md_items t)" "item_of i site x" "ri_phase x = ClearIntent" "backed_up x"
    using clear_prepared_items [OF assms(2)] .
  let ?R = "\<lambda>v. item_of i site v \<and> ri_backup_path v \<noteq> None \<and> ri_phase v \<noteq> SnapshotPersisted"
  have "?R x" using x by (auto simp: backed_up_def)
  moreover have "?R v'" if "?R v" "item_ok v v'" for v v'
    using that unfolding item_ok_def item_of_def by auto
  ultimately obtain y where y: "y \<in> set (md_items u)" "?R y"
    using item_over_effects [OF steps_effects [OF assms(3)] x(1), of ?R] by blast
  have "month_step s t" using assms(2) by (rule ms_prepare_clear)
  then have "month_inv u"
    by (rule mh.inv_steps [OF assms(3) month_inv_step [OF mh.reachable_inv [OF assms(1)]]])
  then have "\<not> clearable i site z" if "z \<in> set (md_items u)" for z
    using item_of_unique [of u z y i site] that y by (auto simp: clearable_def)
  then have "prepare_reset_clear i site ow' ep' now' u = Inr (u, False)"
    unfolding prepare_reset_clear_def by (intro update_items_none) blast
  with x show ?thesis by blast
qed

theorem clear_intent_single_use_witness:
  "prepare_reset_clear 2 ''S1'' ''w3'' 7 120 (june_reset [item_cleared]) = Inr (june_reset [item_cleared], False)"
proof -
  have "month_step\<^sup>*\<^sup>* (june_reset [item_clearing]) (june_reset [item_cleared])"
    by (rule r_into_rtranclp) (rule ms_confirm_clear [OF run_confirm_clear])
  from clear_intent_single_use [OF reach_reset_claimed run_prepare_clear this] show ?thesis by blast
qed

section \<open>Manifests authorise one reset\<close>

lemma reset_committed:
  assumes "finish_reset_success i r doc k sha cdoc ow ep now s = Inr t"
  obtains m w where "m \<in> set (md_manifests t)" and "mm_id m = k" and "mm_status m = MfConsumed"
    and "mm_consumed_at m = Some now" and "w \<in> set (md_ops t)" and "mo_id w = i" and "mo_status w = MCompleted"
    and "mo_approved_manifest_id w = Some k" and "live_reset_completed w"
  using assms
proof (rule finish_reset_effects)
  fix st db1 db2
  assume u2: "update_ops (\<lambda>w. mo_op w = ''reset'' \<and> \<not> mo_dry_run w
          \<and> mo_approved_manifest_id w = Some k \<and> op_runs i ow ep now w) (finish_op MCompleted r None now) db1 = Inr (db2, True)"
    and u3: "update_manifests (\<lambda>m. mm_id m = k \<and> mm_status m = MfApproved \<and> mm_sha256 m = Some sha
          \<and> list_ex (\<lambda>w. mo_id w = i \<and> mo_closing_month w = mm_closing_month m) (md_ops db2))
          (consume_manifest cdoc now) db2 = Inr (t, True)"
  obtain m where m: "m \<in> set (md_manifests db2)" "mm_id m = k" "mm_status m = MfApproved" "mm_sha256 m = Some sha"
    "list_ex (\<lambda>w. mo_id w = i \<and> mo_closing_month w = mm_closing_month m) (md_ops db2)"
    using update_manifestsD(3) [OF u3] by (auto simp: list_ex_iff)
  obtain w where w: "w \<in> set (md_ops db1)" "mo_op w = ''reset''" "\<not> mo_dry_run w"
    "mo_approved_manifest_id w = Some k" "op_runs i ow ep now w"
    using update_opsD(4) [OF u2] by (auto simp: list_ex_iff)
  have m': "consume_manifest cdoc now m \<in> set (md_manifests t)"
    using m by (auto simp: update_manifestsD(1) [OF u3] set_upd_where)
  have w': "finish_op MCompleted r None now w \<in> set (md_ops t)"
    using w by (auto simp: update_manifestsD(1) [OF u3] update_opsD(1) [OF u2] set_upd_where)
  show thesis
    by (rule that [OF m' _ _ _ w'])
      (use m(2) w in \<open>simp_all add: consume_manifest_def finish_op_def op_runs_def op_leased_def live_reset_completed_def\<close>)
qed

lemma reset_needs_manifest:
  assumes "finish_reset_success i r doc k sha cdoc ow ep now s = Inr t"
  obtains m where "m \<in> set (md_manifests s)" and "mm_id m = k" and "mm_status m \<in> {MfBuilding, MfApproved}"
  using assms
proof (rule finish_reset_effects)
  fix st db1 db2
  assume u1: "update_manifests (\<lambda>m. mm_operation_id m = i \<and> mm_operation m = ''reset'' \<and> mm_status m = MfBuilding
          \<and> runs i ow ep now s) (fill_manifest st doc None (Some now) now) s = Inr (db1, True)"
    and u2: "update_ops (\<lambda>w. mo_op w = ''reset'' \<and> \<not> mo_dry_run w
          \<and> mo_approved_manifest_id w = Some k \<and> op_runs i ow ep now w) (finish_op MCompleted r None now) db1 = Inr (db2, True)"
    and u3: "update_manifests (\<lambda>m. mm_id m = k \<and> mm_status m = MfApproved \<and> mm_sha256 m = Some sha
          \<and> list_ex (\<lambda>w. mo_id w = i \<and> mo_closing_month w = mm_closing_month m) (md_ops db2))
          (consume_manifest cdoc now) db2 = Inr (t, True)"
  obtain m where m: "m \<in> set (md_manifests db2)" "mm_id m = k" "mm_status m = MfApproved"
    using update_manifestsD(3) [OF u3] by (auto simp: list_ex_iff)
  then have "m \<in> set (md_manifests db1)" by (simp add: update_opsD(1) [OF u2])
  then have "m \<in> set (upd_where (\<lambda>m. mm_operation_id m = i \<and> mm_operation m = ''reset'' \<and> mm_status m = MfBuilding
      \<and> runs i ow ep now s) (fill_manifest st doc None (Some now) now) (md_manifests s))"
    by (simp add: update_manifestsD(1) [OF u1])
  then show thesis
    by (rule mem_upd_whereE) (use m that in \<open>auto simp: fill_manifest_def\<close>)
qed

text \<open>
  C20: A committed live reset completes its operation and consumes the manifest that authorised
  it, in one transaction; from then on that manifest authorises nothing: no later reset
  commits under it and the gate of a live reset refuses it for every month.
\<close>

theorem manifest_authorises_one_reset:
  assumes "month_reachable s" and "finish_reset_success i r doc k sha cdoc ow ep now s = Inr t" and "month_step\<^sup>*\<^sup>* t u"
  shows "(\<exists>w. row_by mo_id i (md_ops t) = Some w \<and> live_reset_completed w \<and> mo_approved_manifest_id w = Some k)
    \<and> (\<nexists>v. finish_reset_success i' r' doc' k sha' cdoc' ow' ep' now' u = Inr v)
    \<and> approved_manifest_error month (Some k) False u \<noteq> None"
proof -
  from assms(2) show ?thesis
  proof (rule reset_committed)
    fix m w
    assume m: "m \<in> set (md_manifests t)" "mm_id m = k" "mm_status m = MfConsumed"
      and w: "w \<in> set (md_ops t)" "mo_id w = i" "live_reset_completed w" "mo_approved_manifest_id w = Some k"
    have inv: "month_inv t"
      by (rule month_inv_step [OF mh.reachable_inv [OF assms(1)] ms_finish_reset [OF assms(2)]])
    let ?R = "\<lambda>v. mm_id v = k \<and> mm_status v = MfConsumed"
    have "?R v'" if "?R v" "manifest_ok v v'" for v v'
      using that by (auto simp: manifest_ok_def)
    then obtain m' where m': "m' \<in> set (md_manifests u)" "?R m'"
      using manifest_over_effects [OF steps_effects [OF assms(3)] m(1), of ?R] m(2,3) by blast
    have inv': "month_inv u" by (rule mh.inv_steps [OF assms(3) inv])
    have once: "mm_id v = k \<Longrightarrow> mm_status v = MfConsumed" if "v \<in> set (md_manifests u)" for v
      using distinct_key_eq [of mm_id "md_manifests u" v m'] that m' inv' by (auto simp: month_inv_def)
    have "\<nexists>v. finish_reset_success i' r' doc' k sha' cdoc' ow' ep' now' u = Inr v"
    proof
      assume "\<exists>v. finish_reset_success i' r' doc' k sha' cdoc' ow' ep' now' u = Inr v"
      then obtain v where v: "finish_reset_success i' r' doc' k sha' cdoc' ow' ep' now' u = Inr v" ..
      from v show False
        by (rule reset_needs_manifest) (use once in fastforce)
    qed
    moreover have "approved_manifest_error month (Some k) False u \<noteq> None"
      using once by (auto simp: approved_manifest_error_def manifest_approves_def list_ex_iff)
    moreover have "row_by mo_id i (md_ops t) = Some w"
      by (rule row_by_unique [OF month_inv_ids [OF inv] w(1,2)])
    ultimately show ?thesis using w by blast
  qed
qed

theorem manifest_authorises_one_reset_witness:
  "approved_manifest_error june (Some 1) False june_committed \<noteq> None"
  using manifest_authorises_one_reset [OF reach_reset_cleared run_finish_reset_success rtranclp.rtrancl_refl] by blast

end
