(* ===== verification/Grile_Reservation.thy ===== *)
theory Grile_Reservation
  imports Grile_Correctness
begin

text \<open>
  The front door of the monthly closeout: which operation a reservation gives, what a live
  reset needs before it is enqueued, and what starting an operation answers.
\<close>

section \<open>Reservations\<close>

lemma latest_op_SomeD: "latest_op P os = Some w \<Longrightarrow> w \<in> set os \<and> P w"
  unfolding latest_op_def by (drule sorted_head_SomeD) simp

lemma latest_op_None: "latest_op P os = None \<longleftrightarrow> \<not> list_ex P os"
  unfolding latest_op_def sorted_head_None by (simp add: filter_empty_conv list_ex_iff)

lemma latest_finished_SomeD: "latest_finished P os = Some w \<Longrightarrow> w \<in> set os \<and> P w"
  unfolding latest_finished_def by (drule sorted_head_SomeD) simp

lemma latest_finished_None: "latest_finished P os = None \<longleftrightarrow> \<not> list_ex P os"
  unfolding latest_finished_def sorted_head_None by (simp add: filter_empty_conv list_ex_iff)

lemma active_reservation_None:
  "active_reservation month db = None \<longleftrightarrow> \<not> list_ex (\<lambda>w. mo_closing_month w = month \<and> op_active w) (md_ops db)"
  by (simp add: active_reservation_def reservation_from_row_def latest_op_None)

lemma active_reservation_SomeD:
  assumes "active_reservation month db = Some r"
  shows "rv_status r = ReservedRunning \<and> (\<exists>w \<in> set (md_ops db). rv_operation r = Some w
     \<and> rv_operation_id r = mo_id w \<and> mo_closing_month w = month \<and> op_active w)"
  using assms by (auto simp: active_reservation_def reservation_from_row_def dest: latest_op_SomeD)

text \<open>What the gate of a live reset asks for.\<close>

definition live_reset_allowed :: "string \<Rightarrow> string option \<Rightarrow> nat option \<Rightarrow> month_db \<Rightarrow> bool" where
  "live_reset_allowed month only manifest_id db \<longleftrightarrow>
     (\<exists>m \<in> set (md_manifests db). Some (mm_id m) = manifest_id \<and> manifest_approves month m)
     \<and> (\<forall>w \<in> set (md_ops db). \<not> completed_reset month only w)
     \<and> (\<forall>x \<in> set (md_items db). \<not> item_unsettled month x)
     \<and> (\<forall>x \<in> set (md_items db). \<forall>w \<in> set (md_ops db).
          ri_closing_month x = month \<and> ri_status x = ItCompleted \<and> mo_id w = ri_operation_id x \<longrightarrow> mo_status w = MCompleted)"

lemma live_reset_gate_open:
  "live_reset_gate month only k db = (None, None) \<longleftrightarrow> live_reset_allowed month only k db"
  by (auto simp: live_reset_gate_def Let_def reservation_from_row_def latest_finished_None live_reset_allowed_def
      approved_manifest_error_def legacy_partial_error_def list_ex_iff dest: latest_finished_SomeD
      split: option.splits if_splits)

lemma live_reset_gate_reserved:
  assumes "live_reset_gate month only k db = (Some r, b)"
  shows "b = None \<and> rv_status r = ReservedCompleted \<and> (\<exists>w \<in> set (md_ops db). rv_operation r = Some w
     \<and> rv_operation_id r = mo_id w \<and> completed_reset month only w)"
  using assms
  by (auto simp: live_reset_gate_def Let_def reservation_from_row_def approved_manifest_error_def
      dest: latest_finished_SomeD)

text \<open>The scope text a reservation stores.\<close>

definition normalized_only :: "string option \<Rightarrow> string option" where
  "normalized_only only = (case only of None \<Rightarrow> None | Some s \<Rightarrow> if py_strip s = [] then None else Some (py_strip s))"

text \<open>The three answers of a committed reservation, over the tables after stale work is fenced.\<close>

lemma month_reserve_cases:
  assumes "month_reserve op month only dry sub k now db = Inr (db', out)"
  obtains (running) db1 r where "fence_stale_operation month now db = Inr db1" and "db' = db1" and "out = Inr r"
      and "active_reservation month db1 = Some r"
  | (gated) db1 r b where "fence_stale_operation month now db = Inr db1" and "db' = db1"
      and "op = ''reset''" and "\<not> dry" and "active_reservation month db1 = None"
      and "live_reset_gate month (normalized_only only) k db1 = (r, b)" and "r \<noteq> None \<or> b \<noteq> None"
      and "b = None \<Longrightarrow> \<exists>x. r = Some x \<and> out = Inr x" and "b \<noteq> None \<Longrightarrow> \<exists>e. out = Inl (GrileMonthlyRetryBlockedError e)"
  | (enqueued) db1 new_id r where "fence_stale_operation month now db = Inr db1"
      and "active_reservation month db1 = None"
      and "op = ''reset'' \<and> \<not> dry \<longrightarrow> live_reset_allowed month (normalized_only only) k db1"
      and "insert_reservation op month (normalized_only only) dry sub k now db1 = Inr (db', (new_id, r))"
      and "out = (case r of Some x \<Rightarrow> Inr x | None \<Rightarrow> (case new_id of
                   None \<Rightarrow> Inl (MonthRuntimeError ''Failed to reserve grile monthly operation'')
                 | Some i \<Rightarrow> Inr \<lparr>rv_status = Enqueued, rv_operation_id = i, rv_operation = None\<rparr>))"
proof -
  note D = assms [unfolded month_reserve_def Let_def, folded normalized_only_def]
  from D obtain db1 where f: "fence_stale_operation month now db = Inr db1"
    by (auto simp: res_simps split: if_splits)
  show thesis
  proof (cases "active_reservation month db1")
    case (Some r)
    with D f show thesis by (intro running) (auto simp: res_simps split: if_splits)
  next
    case None
    show thesis
    proof (cases "op = ''reset'' \<and> \<not> dry \<and> live_reset_gate month (normalized_only only) k db1 \<noteq> (None, None)")
      case True
      obtain r b where g: "live_reset_gate month (normalized_only only) k db1 = (r, b)" by fastforce
      with D f None True show thesis
        by (intro gated [OF f _ _ _ None g]) (auto simp: res_simps split: if_splits option.splits)
    next
      case False
      then have allowed: "op = ''reset'' \<and> \<not> dry \<longrightarrow> live_reset_allowed month (normalized_only only) k db1"
        using live_reset_gate_open by blast
      with D f None False show thesis
        by (auto simp: res_simps live_reset_gate_open [symmetric] split: if_splits intro: enqueued [OF f None allowed])
    qed
  qed
qed

text \<open>
  Every committed reservation of a month first fences stale work and then does exactly one
  of four things: it reports the operation of that month that is already active; for a live
  reset, it reports the completed reset of the same scope, or refuses; or it enqueues one new
  operation under a fresh id, and then no operation of the month was active and a live reset
  had an approved complete archive manifest, no completed reset of its scope, no unsettled
  checkpoint and no partially cleared store.
\<close>

theorem month_reserve_outcome:
  assumes "month_reachable db" and "month_reserve op month only dry sub k now db = Inr (db', out)"
  shows "\<exists>db1. fence_stale_operation month now db = Inr db1 \<and>
    (case out of
       Inl e \<Rightarrow> db' = db1 \<and> op = ''reset'' \<and> \<not> dry \<and> \<not> live_reset_allowed month (normalized_only only) k db1
     | Inr r \<Rightarrow> (case rv_status r of
         ReservedRunning \<Rightarrow> db' = db1 \<and> (\<exists>w \<in> set (md_ops db1). rv_operation_id r = mo_id w
             \<and> mo_closing_month w = month \<and> op_active w)
       | ReservedCompleted \<Rightarrow> db' = db1 \<and> op = ''reset'' \<and> \<not> dry \<and> (\<exists>w \<in> set (md_ops db1). rv_operation_id r = mo_id w
             \<and> completed_reset month (normalized_only only) w)
       | Enqueued \<Rightarrow> (\<forall>w \<in> set (md_ops db1). mo_id w \<noteq> rv_operation_id r \<and> \<not> (mo_closing_month w = month \<and> op_active w))
           \<and> md_ops db' = md_ops db1 @ [new_op (rv_operation_id r) op month (normalized_only only) dry sub
               (if op = ''reset'' \<and> \<not> dry then k else None) now]
           \<and> (op = ''reset'' \<and> \<not> dry \<longrightarrow> live_reset_allowed month (normalized_only only) k db1)))"
proof -
  have inv: "month_inv db" using mh.reachable_inv [OF assms(1)] .
  from assms(2) show ?thesis
  proof (cases rule: month_reserve_cases)
    case (running db1 r)
    then show ?thesis using active_reservation_SomeD [OF running(4)] by auto
  next
    case (gated db1 r b)
    then show ?thesis
      using live_reset_gate_open [of month "normalized_only only" k db1]
        live_reset_gate_reserved [of month "normalized_only only" k db1 _ b]
      by (cases b; fastforce)
  next
    case (enqueued db1 new_id r)
    have free: "\<not> (mo_closing_month w = month \<and> op_active w)" if "w \<in> set (md_ops db1)" for w
      using enqueued(2) that by (auto simp: active_reservation_None list_ex_iff)
    have fresh: "mo_id w \<noteq> md_next_op db1" if "w \<in> set (md_ops db1)" for w
      using month_inv_effects [OF fence_stale_effects [OF enqueued(1)] inv] that by (auto simp: month_inv_def)
    have no: "\<not> list_ex (\<lambda>x. mo_closing_month x = month \<and> op_active x) (md_ops db1)"
      using free by (auto simp: list_ex_iff)
    have "new_id = Some (md_next_op db1)" "r = None"
      "md_ops db' = md_ops db1 @ [new_op (md_next_op db1) op month (normalized_only only) dry sub
         (if op = ''reset'' \<and> \<not> dry then k else None) now]"
      using enqueued(4) no by (auto simp: insert_reservation_def Let_def new_op_def split: if_splits)
    then show ?thesis
      using enqueued(1,3,5) free fresh by (intro exI [of _ db1]) (simp add: new_op_def)
  qed
qed

theorem month_reserve_outcome_witness:
  "live_reset_allowed june None (Some 1) (month_db_of [archive_done] [archive_approved] [])"
proof -
  have f: "fence_stale_operation june 50 (month_db_of [archive_done] [archive_approved] [])
      = Inr (month_db_of [archive_done] [archive_approved] [])" by code_simp
  from month_reserve_outcome [OF reach_archive_approved run_reserve_reset] show ?thesis
    by (simp add: f normalized_only_def)
qed

section \<open>One active operation per month\<close>

text \<open>
  In every reachable state a month has at most one queued or running operation, and at
  most one completed live reset per scope.
\<close>

theorem month_single_active:
  assumes "month_reachable db" and "w \<in> set (md_ops db)" and "w' \<in> set (md_ops db)"
    and "mo_closing_month w = mo_closing_month w'"
    and "op_active w \<and> op_active w'
       \<or> live_reset_completed w \<and> live_reset_completed w' \<and> coalesce_text (mo_only_filter w) = coalesce_text (mo_only_filter w')"
  shows "w = w'"
proof -
  have u: "ops_unique (md_ops db)" using mh.reachable_inv [OF assms(1)] by (simp add: month_inv_def)
  from assms(5) show ?thesis
  proof
    assume a: "op_active w \<and> op_active w'"
    then show ?thesis
      using distinct_key_eq [of mo_closing_month "filter op_active (md_ops db)" w w'] u assms(2-4)
      by (simp add: ops_unique_def)
  next
    assume a: "live_reset_completed w \<and> live_reset_completed w' \<and> coalesce_text (mo_only_filter w) = coalesce_text (mo_only_filter w')"
    then show ?thesis
      using distinct_key_eq [of "\<lambda>w. (mo_closing_month w, coalesce_text (mo_only_filter w))"
          "filter live_reset_completed (md_ops db)" w w'] u assms(2-4)
      by (simp add: ops_unique_def)
  qed
qed

theorem month_single_active_witness:
  "\<exists>w \<in> set (md_ops (june_reset [item_clearing])). op_active w \<and> w = reset_running"
proof -
  have "reset_running \<in> set (md_ops (june_reset [item_clearing]))" and "op_active reset_running"
    by (simp add: month_db_of_def, code_simp)
  with month_single_active [OF reach_reset_clearing, of reset_running reset_running] show ?thesis by blast
qed

section \<open>Starting an operation\<close>

lemma row_by_update_ops:
  assumes "update_ops P f db = Inr (db', b)" and "\<And>w. mo_id (f w) = mo_id w"
  shows "row_by mo_id i (md_ops db') = map_option (\<lambda>w. if P w then f w else w) (row_by mo_id i (md_ops db))"
  using row_by_upd_where [of mo_id f i P "md_ops db"] by (simp add: update_opsD(1) [OF assms(1)] assms(2))

lemma update_ops_touches:
  assumes "update_ops P f db = Inr (db', b)" and "distinct (map mo_id (md_ops db))"
    and "\<And>w. P w \<Longrightarrow> mo_id w = i"
  shows "b \<longleftrightarrow> (case row_by mo_id i (md_ops db) of None \<Rightarrow> False | Some w \<Rightarrow> P w)"
proof -
  have "(\<exists>w \<in> set (md_ops db). P w) \<longleftrightarrow> (case row_by mo_id i (md_ops db) of None \<Rightarrow> False | Some w \<Rightarrow> P w)"
    using assms(3) row_by_unique [OF assms(2)] row_by_SomeD
    by (fastforce split: option.splits)
  then show ?thesis by (simp add: update_opsD(4) [OF assms(1)] list_ex_iff)
qed

definition start_owner :: "string \<Rightarrow> string option \<Rightarrow> string" where
  "start_owner u ow = (case ow of None \<Rightarrow> u | Some s \<Rightarrow> if s = [] then u else s)"

definition legacy_failure :: "instant \<Rightarrow> month_op \<Rightarrow> month_op" where
  "legacy_failure now = fail_op ''legacy_operation_missing_identity_or_manifest'' now"

lemma month_start_row:
  assumes "month_inv db" and "month_start u i ow lease now db = Inr (db', (st, r))"
  shows "case row_by mo_id i (md_ops db) of
      None \<Rightarrow> st = NotFound \<and> row_by mo_id i (md_ops db') = None
    | Some w \<Rightarrow>
       (if mo_status w = MQueued \<and> startable w db
        then st = Started \<and> row_by mo_id i (md_ops db') = Some (start_op (start_owner u ow) lease now w)
        else if mo_status w = MQueued
        then st = AlreadyFailed \<and> row_by mo_id i (md_ops db') = Some (legacy_failure now w)
        else row_by mo_id i (md_ops db') = Some w
          \<and> st = (case mo_status w of MCompleted \<Rightarrow> AlreadyCompleted | MFailed \<Rightarrow> AlreadyFailed | _ \<Rightarrow> AlreadyRunning))"
proof -
  note D = assms(2) [unfolded month_start_def Let_def, folded start_owner_def legacy_failure_def]
  from D obtain db1 started where
    u1: "update_ops (\<lambda>w. mo_id w = i \<and> mo_status w = MQueued \<and> startable w db) (start_op (start_owner u ow) lease now) db
       = Inr (db1, started)"
    by (auto simp: res_simps split: if_splits prod.splits)
  have s: "mo_id (start_op x lease now w) = mo_id w" "mo_id (legacy_failure now w) = mo_id w" for x w
    by (simp_all add: start_op_def legacy_failure_def fail_op_def)
  have inv1: "month_inv db1"
    by (rule month_inv_effect [OF assms(1) eff_ops [OF u1]]) (simp add: op_ok_def start_op_def)
  note row1 = row_by_update_ops [OF u1 s(1), of i]
  note t1 = update_ops_touches [OF u1 month_inv_ids [OF assms(1)], of i]
  have m1: "md_manifests db1 = md_manifests db" by (simp add: update_opsD(1) [OF u1])
  have st1: "startable w db1 = startable w db" for w unfolding startable_def m1 ..
  show ?thesis
  proof (cases started)
    case True
    with D u1 have "db' = db1" "(st, r) = operation_start_result (op_view (row_by mo_id i (md_ops db1))) True"
      by (auto simp: res_simps split: if_splits)
    with True t1 row1 show ?thesis
      by (auto simp: operation_start_result_def op_view_def dest: row_by_SomeD split: option.splits)
  next
    case False
    with D u1 obtain b where
      u2: "update_ops (\<lambda>w. mo_id w = i \<and> mo_status w = MQueued \<and> \<not> startable w db1) (legacy_failure now) db1 = Inr (db', b)"
      and res: "(st, r) = operation_start_result (op_view (row_by mo_id i (md_ops db'))) False"
      by (auto simp: res_simps split: if_splits prod.splits)
    have row1': "row_by mo_id i (md_ops db1) = row_by mo_id i (md_ops db)"
      using row1 t1 False by (auto split: option.splits dest: row_by_SomeD)
    note row2 = row_by_update_ops [OF u2 s(2), of i]
    have id: "mo_id w = i" if "row_by mo_id i (md_ops db) = Some w" for w using row_by_SomeD [OF that] by simp
    show ?thesis
      using False t1 row2 res id unfolding row1' st1
      by (auto simp: operation_start_result_def op_view_def legacy_failure_def fail_op_def
          split: option.splits if_splits month_state.splits)
  qed
qed

text \<open>
  Starting an operation answers with its outcome and settles it. A queued operation with
  its identity and its building manifest becomes running under the caller, with a new epoch
  and a lease; a queued operation without them fails for good; any other operation is left
  as it is. No operation that exists is still queued afterwards.
\<close>

theorem month_start_outcome:
  assumes "month_reachable db" and "month_start u i ow lease now db = Inr (db', (st, r))"
  shows "case row_by mo_id i (md_ops db) of
      None \<Rightarrow> st = NotFound \<and> row_by mo_id i (md_ops db') = None
    | Some w \<Rightarrow> \<exists>w'. row_by mo_id i (md_ops db') = Some w' \<and> mo_status w' \<noteq> MQueued
       \<and> (case st of
            Started \<Rightarrow> mo_status w = MQueued \<and> startable w db \<and> mo_status w' = MRunning
              \<and> mo_owner w' = Some (start_owner u ow) \<and> mo_epoch w' = mo_epoch w + 1
              \<and> mo_lease_until w' = Some (now + seconds lease)
          | NotFound \<Rightarrow> False
          | AlreadyRunning \<Rightarrow> w' = w \<and> mo_status w = MRunning
          | AlreadyCompleted \<Rightarrow> w' = w \<and> mo_status w = MCompleted
          | AlreadyFailed \<Rightarrow> w' = w \<and> mo_status w = MFailed
              \<or> mo_status w = MQueued \<and> \<not> startable w db \<and> w' = legacy_failure now w)"
  using month_start_row [OF mh.reachable_inv [OF assms(1)] assms(2)]
  by (auto simp: start_op_def legacy_failure_def fail_op_def split: option.splits if_splits month_state.splits)

theorem month_start_outcome_witness:
  "\<exists>w'. row_by mo_id 2 (md_ops (june_reset [])) = Some w' \<and> mo_owner w' = Some ''w2'' \<and> mo_epoch w' = 1"
proof -
  have "row_by mo_id 2 (md_ops (month_db_of [archive_done, reset_queued] [archive_approved, reset_building] []))
      = Some reset_queued" by code_simp
  with month_start_outcome [OF reach_reset_queued run_start_reset] show ?thesis
    by (auto simp: start_owner_def reset_queued_def new_op_def)
qed

section \<open>The gate and open intents\<close>

definition reset_again :: month_op where
  "reset_again = new_op 3 ''reset'' june None False ''admin'' (Some 1) 200"

text \<open>
  C27: The gate of a live reset does not see a store whose rollback was begun and never
  confirmed. In a reachable state the only live reset of the month has failed with the
  store's item left in \<^verbatim>\<open>rollback_intent\<close>; reconciliation counts the item as unresolved and
  the operation as one to reconcile, and yet a new live reset of the month is enqueued.
\<close>

theorem live_reset_over_open_rollback:
  "let db = month_db_of [archive_done, reset_failed] [archive_approved, reset_building] [item_rolling_back] in
     month_reachable db
     \<and> list_reset_items_for_reconciliation 2 db = [item_rolling_back]
     \<and> ri_phase item_rolling_back = RollbackIntent \<and> ri_closing_month item_rolling_back = june
     \<and> reconciliation_candidates (\<lambda>_. False) 200 5 db = [2]
     \<and> month_reserve ''reset'' june None False ''admin'' (Some 1) 200 db
         = Inr (month_db_of [archive_done, reset_failed, reset_again]
             [archive_approved, reset_building, new_manifest 3 3 june ''reset'' ''admin'' 200] [item_rolling_back],
             Inr \<lparr>rv_status = Enqueued, rv_operation_id = 3, rv_operation = None\<rparr>)"
proof -
  let ?db = "month_db_of [archive_done, reset_failed] [archive_approved, reset_building] [item_rolling_back]"
  have "list_reset_items_for_reconciliation 2 ?db = [item_rolling_back]" by code_simp
  moreover have "ri_phase item_rolling_back = RollbackIntent \<and> ri_closing_month item_rolling_back = june" by code_simp
  moreover have "reconciliation_candidates (\<lambda>_. False) 200 5 ?db = [2]" by code_simp
  moreover have "month_reserve ''reset'' june None False ''admin'' (Some 1) 200 ?db
         = Inr (month_db_of [archive_done, reset_failed, reset_again]
             [archive_approved, reset_building, new_manifest 3 3 june ''reset'' ''admin'' 200] [item_rolling_back],
             Inr \<lparr>rv_status = Enqueued, rv_operation_id = 3, rv_operation = None\<rparr>)" by code_simp
  ultimately show ?thesis
    using reach_reset_failed by (simp add: Let_def)
qed

end
