(* ===== verification/Decimal_Arith.thy ===== *)
theory Decimal_Arith
  imports Retail_Prelude
begin

text \<open>
  Python's decimal numbers: finite values as rationals, with the rounding of each operation
  to the context's significant digits (half to even, as the default context does), and
  \<^verbatim>\<open>quantize\<close> to cents, which raises \<^verbatim>\<open>InvalidOperation\<close> when the result needs more digits
  than the context has.
\<close>

section \<open>Roundings to integers\<close>

definition round_half_even :: "rat \<Rightarrow> int" where
  "round_half_even x = (let f = \<lfloor>x\<rfloor>; r = x - of_int f in
     if r < 1/2 then f else if 1/2 < r then f + 1 else if even f then f else f + 1)"

definition round_half_up :: "rat \<Rightarrow> int" where
  "round_half_up x = (if 0 \<le> x then \<lfloor>x + 1/2\<rfloor> else - \<lfloor>1/2 - x\<rfloor>)"

text \<open>\<^verbatim>\<open>int(x)\<close> drops the fraction.\<close>

definition py_trunc :: "rat \<Rightarrow> int" where
  "py_trunc x = (if 0 \<le> x then \<lfloor>x\<rfloor> else \<lceil>x\<rceil>)"

lemma round_half_even_near: "\<bar>of_int (round_half_even x) - x\<bar> \<le> 1/2"
  unfolding round_half_even_def Let_def
  using of_int_floor_le [of x]
  by (auto simp: abs_if; linarith)

lemma round_half_up_near: "\<bar>of_int (round_half_up x) - x\<bar> \<le> 1/2"
  unfolding round_half_up_def abs_le_iff by (auto; linarith)

lemma round_half_even_of_int [simp]: "round_half_even (of_int n) = n"
  by (simp add: round_half_even_def)

lemma round_half_up_of_int [simp]: "round_half_up (of_int n) = n"
proof -
  have "\<lfloor>of_int n + 1/2 :: rat\<rfloor> = n" by (rule floor_unique) auto
  moreover have "\<lfloor>1/2 - of_int n :: rat\<rfloor> = - n" by (rule floor_unique) auto
  ultimately show ?thesis by (simp add: round_half_up_def)
qed

lemma round_half_up_mono: "x \<le> y \<Longrightarrow> round_half_up x \<le> round_half_up y"
proof -
  assume le: "x \<le> y"
  show ?thesis
  proof (cases "0 \<le> x \<or> \<not> 0 \<le> y")
    case True
    then have "0 \<le> x \<and> 0 \<le> y \<or> \<not> 0 \<le> x \<and> \<not> 0 \<le> y" using le by auto
    then show ?thesis using le by (auto simp: round_half_up_def intro: floor_mono)
  next
    case False
    then have "0 \<le> \<lfloor>y + 1/2\<rfloor>" "0 \<le> \<lfloor>1/2 - x\<rfloor>" by auto
    moreover have "round_half_up x = - \<lfloor>1/2 - x\<rfloor>" "round_half_up y = \<lfloor>y + 1/2\<rfloor>"
      unfolding round_half_up_def using False by (meson, meson)
    ultimately show ?thesis by linarith
  qed
qed

section \<open>Context rounding\<close>

text \<open>The power of ten of the leading digit of a positive number.\<close>

function dec_mag :: "rat \<Rightarrow> int" where
  "dec_mag x = (if 10 \<le> x then dec_mag (x / 10) + 1 else if 0 < x \<and> x < 1 then dec_mag (x * 10) - 1 else 0)"
  by auto
termination
proof (relation "measure (\<lambda>x. if 10 \<le> x then nat \<lfloor>x\<rfloor> else if 0 < x \<and> x < 1 then nat \<lceil>1 / x\<rceil> else 0)", goal_cases)
  case 1
  show ?case by simp
next
  case (2 x)
  have "\<lfloor>x / 10\<rfloor> < \<lfloor>x\<rfloor>" using 2 by linarith
  with 2 show ?case by auto
next
  case (3 x)
  show ?case
  proof (cases "x * 10 < 1")
    case True
    have "1 / (x * 10) = (1 / x) / 10" by simp
    moreover have "10 < 1 / x" using 3 True by (simp add: field_simps)
    ultimately have "\<lceil>1 / (x * 10)\<rceil> < \<lceil>1 / x\<rceil>" by linarith
    with 3 True show ?thesis by auto
  next
    case False
    have "0 < \<lceil>1 / x\<rceil>" using 3 by simp
    with 3 False show ?thesis by auto
  qed
qed

declare dec_mag.simps [simp del]

definition dec_ctx :: "nat \<Rightarrow> rat \<Rightarrow> rat" where
  "dec_ctx prec x = (if x = 0 then 0 else
     let ulp = 10 powi (dec_mag \<bar>x\<bar> - int prec + 1) in of_int (round_half_even (x / ulp)) * ulp)"

definition DEFAULT_PREC :: nat where
  "DEFAULT_PREC = 28"

lemma dec_mag_bounds:
  assumes "0 < x"
  shows "10 powi dec_mag x \<le> x \<and> x < 10 powi (dec_mag x + 1)"
  using assms
proof (induction x rule: dec_mag.induct)
  case (1 x)
  consider "10 \<le> x" | "x < 1" | "1 \<le> x" "x < 10" by linarith
  then show ?case
  proof cases
    case 1
    with "1.IH"(1) have "10 powi dec_mag (x / 10) \<le> x / 10 \<and> x / 10 < 10 powi (dec_mag (x / 10) + 1)" by simp
    moreover have "dec_mag x = dec_mag (x / 10) + 1" using 1 by (simp add: dec_mag.simps [of x])
    ultimately show ?thesis by (simp add: power_int_add field_simps)
  next
    case 2
    with "1.IH"(2) "1.prems" have "10 powi dec_mag (x * 10) \<le> x * 10 \<and> x * 10 < 10 powi (dec_mag (x * 10) + 1)" by simp
    moreover have m: "dec_mag (x * 10) = dec_mag x + 1" using 2 "1.prems" by (simp add: dec_mag.simps [of x])
    ultimately show ?thesis unfolding m by (simp add: power_int_add)
  next
    case 3
    then have "dec_mag x = 0" by (simp add: dec_mag.simps [of x])
    with 3 show ?thesis by simp
  qed
qed

text \<open>The relative error of a rounding is at most half a unit of the last digit.\<close>

lemma dec_ctx_error:
  assumes "0 < prec"
  shows "\<bar>dec_ctx prec x - x\<bar> \<le> \<bar>x\<bar> * 5 * 10 powi (- int prec)"
proof (cases "x = 0")
  case True
  then show ?thesis by (simp add: dec_ctx_def)
next
  case False
  let ?m = "dec_mag \<bar>x\<bar>"
  let ?u = "10 powi (?m - int prec + 1) :: rat"
  have u: "0 < ?u" by simp
  have "\<bar>of_int (round_half_even (x / ?u)) - x / ?u\<bar> * ?u \<le> 1/2 * ?u"
    by (rule mult_right_mono [OF round_half_even_near]) simp
  moreover have "\<bar>of_int (round_half_even (x / ?u)) - x / ?u\<bar> * ?u = \<bar>(of_int (round_half_even (x / ?u)) - x / ?u) * ?u\<bar>"
    using u by (simp add: abs_mult)
  moreover have "(of_int (round_half_even (x / ?u)) - x / ?u) * ?u = dec_ctx prec x - x"
    using False u by (simp add: dec_ctx_def Let_def left_diff_distrib)
  ultimately have "\<bar>dec_ctx prec x - x\<bar> \<le> 1/2 * ?u" by simp
  also have "1/2 * ?u = 10 powi ?m * 5 * 10 powi (- int prec)"
    by (simp add: power_int_add power_int_diff power_int_minus field_simps)
  also have "\<dots> \<le> \<bar>x\<bar> * 5 * 10 powi (- int prec)"
    using dec_mag_bounds [of "\<bar>x\<bar>"] False by (intro mult_right_mono) auto
  finally show ?thesis .
qed

text \<open>A number of at most \<open>prec\<close> digits is not rounded.\<close>

lemma dec_ctx_exact:
  assumes "\<bar>n\<bar> < 10 ^ prec"
  shows "dec_ctx prec (of_int n * 10 powi k) = of_int n * 10 powi k"
proof (cases "n = 0")
  case True
  then show ?thesis by (simp add: dec_ctx_def)
next
  case False
  let ?x = "of_int n * 10 powi k :: rat"
  let ?m = "dec_mag \<bar>?x\<bar>"
  have "0 < \<bar>?x\<bar>" using False by simp
  then have "10 powi ?m \<le> \<bar>?x\<bar>" using dec_mag_bounds by blast
  also have "\<bar>?x\<bar> < 10 ^ prec * 10 powi k"
  proof -
    have "(of_int \<bar>n\<bar> :: rat) < of_int (10 ^ prec)" using assms by (simp only: of_int_less_iff)
    then show ?thesis by (simp add: abs_mult)
  qed
  also have "\<dots> = 10 powi (int prec + k)" by (simp add: power_int_add)
  finally have lt: "10 powi ?m < (10 powi (int prec + k) :: rat)" .
  have "?m < int prec + k"
  proof (rule ccontr)
    assume "\<not> ?m < int prec + k"
    then have "(10 powi (int prec + k) :: rat) \<le> 10 powi ?m" by (intro power_int_increasing) auto
    with lt show False by simp
  qed
  define u where "u = (10 powi (?m - int prec + 1) :: rat)"
  from \<open>?m < int prec + k\<close> obtain j where j: "k = (?m - int prec + 1) + int j"
    using zle_iff_zadd [of "?m - int prec + 1" k] by auto
  have "10 powi k = u * 10 ^ j"
    using j power_int_add [of "10 :: rat" "?m - int prec + 1" "int j"] by (simp add: u_def)
  then have x: "?x = of_int (n * 10 ^ j) * u" by simp
  have "u \<noteq> 0" by (simp add: u_def)
  with x have "?x / u = of_int (n * 10 ^ j)" by (metis nonzero_mult_div_cancel_right)
  moreover have "dec_ctx prec ?x = of_int (round_half_even (?x / u)) * u"
    using False by (simp add: dec_ctx_def Let_def u_def)
  ultimately have "dec_ctx prec ?x = of_int (n * 10 ^ j) * u" by (simp only: round_half_even_of_int)
  with x show ?thesis by (simp only:)
qed

lemma dec_ctx_int: "\<bar>n\<bar> < 10 ^ prec \<Longrightarrow> dec_ctx prec (of_int n) = of_int n"
  using dec_ctx_exact [of n prec 0] by simp

lemma dec_ctx_cents: "\<bar>n\<bar> < 10 ^ prec \<Longrightarrow> dec_ctx prec (of_int n / 100) = of_int n / 100"
  using dec_ctx_exact [of n prec "- 2"] by (simp add: power_int_minus)

lemma dec_ctx_0 [simp]: "dec_ctx prec 0 = 0"
  by (simp add: dec_ctx_def)

lemma dec_ctx_digits:
  assumes "x \<noteq> 0"
  shows "\<exists>n. \<bar>n\<bar> \<le> 10 ^ prec \<and> dec_ctx prec x = of_int n * 10 powi (dec_mag \<bar>x\<bar> - int prec + 1)"
proof -
  let ?u = "10 powi (dec_mag \<bar>x\<bar> - int prec + 1) :: rat" and ?n = "round_half_even (x / 10 powi (dec_mag \<bar>x\<bar> - int prec + 1))"
  have "\<bar>x\<bar> < 10 powi (dec_mag \<bar>x\<bar> + 1)" using dec_mag_bounds [of "\<bar>x\<bar>"] assms by simp
  also have "\<dots> = 10 ^ prec * ?u" by (simp add: power_int_add power_int_diff)
  finally have "\<bar>x / ?u\<bar> < 10 ^ prec" by (simp add: abs_divide pos_divide_less_eq)
  then have "\<bar>of_int ?n :: rat\<bar> < 10 ^ prec + 1" using round_half_even_near [of "x / ?u"] by linarith
  then have "(of_int \<bar>?n\<bar> :: rat) < of_int (10 ^ prec + 1)" by simp
  then have "\<bar>?n\<bar> < 10 ^ prec + 1" by (simp only: of_int_less_iff)
  then show ?thesis using assms by (intro exI [of _ ?n]) (simp add: dec_ctx_def Let_def)
qed

text \<open>A rounded number is not rounded again, and rounding keeps whole cents.\<close>

lemma dec_ctx_idem:
  assumes "0 < prec"
  shows "dec_ctx prec (dec_ctx prec x) = dec_ctx prec x"
proof (cases "x = 0")
  case False
  let ?k = "dec_mag \<bar>x\<bar> - int prec + 1"
  from dec_ctx_digits [OF False] obtain n where n: "\<bar>n\<bar> \<le> 10 ^ prec" "dec_ctx prec x = of_int n * 10 powi ?k" by blast
  show ?thesis
  proof (cases "\<bar>n\<bar> = 10 ^ prec")
    case True
    have "\<bar>sgn n\<bar> < 10 ^ prec" using assms by (simp add: sgn_if)
    moreover have "of_int n = (of_int (sgn n * 10 ^ prec) :: rat)" using True sgn_mult_abs [of n] by simp
    then have "dec_ctx prec x = of_int (sgn n) * (10 ^ prec * 10 powi ?k)" unfolding n(2) by simp
    moreover have "(10 powi (int prec + ?k) :: rat) = 10 powi int prec * 10 powi ?k" by (rule power_int_add) simp
    ultimately have "\<bar>sgn n\<bar> < 10 ^ prec" "dec_ctx prec x = of_int (sgn n) * 10 powi (int prec + ?k)" by (simp_all only: power_int_of_nat)
    then show ?thesis by (simp only: dec_ctx_exact)
  next
    case False
    with n(1) have "\<bar>n\<bar> < 10 ^ prec" by simp
    then show ?thesis unfolding n(2) by (rule dec_ctx_exact)
  qed
qed simp

lemma dec_ctx_whole_cents: "\<exists>m. dec_ctx DEFAULT_PREC (of_int n / 100) = of_int m / 100"
proof (cases "\<bar>n\<bar> < 10 ^ DEFAULT_PREC")
  case True
  then show ?thesis by (metis dec_ctx_cents)
next
  case False
  let ?x = "of_int n / 100 :: rat" and ?m = "dec_mag \<bar>of_int n / 100\<bar>"
  have x0: "?x \<noteq> 0" using False by (auto simp: DEFAULT_PREC_def)
  have "(of_int (10 ^ 28) :: rat) \<le> of_int \<bar>n\<bar>" using False by (simp only: of_int_le_iff DEFAULT_PREC_def not_less)
  then have "10 ^ 26 \<le> \<bar>?x\<bar>" by simp
  also have "\<bar>?x\<bar> < 10 powi (?m + 1)" using dec_mag_bounds [of "\<bar>?x\<bar>"] x0 by simp
  finally have lt: "(10 powi 26 :: rat) < 10 powi (?m + 1)" by simp
  have "26 < ?m + 1"
  proof (rule ccontr)
    assume "\<not> 26 < ?m + 1"
    then have "(10 powi (?m + 1) :: rat) \<le> 10 powi 26" by (intro power_int_increasing) auto
    with lt show False by simp
  qed
  then have "0 \<le> ?m - int DEFAULT_PREC + 3" by (simp add: DEFAULT_PREC_def)
  then obtain j where "?m - int DEFAULT_PREC + 3 = int j" using nonneg_int_cases by blast
  then have j: "?m - int DEFAULT_PREC + 1 = int j - 2" by simp
  from dec_ctx_digits [OF x0, of DEFAULT_PREC] obtain k where "dec_ctx DEFAULT_PREC ?x = of_int k * 10 powi (int j - 2)" unfolding j by blast
  also have "\<dots> = of_int (k * 10 ^ j) / 100" by (simp add: power_int_diff)
  finally show ?thesis by blast
qed

section \<open>Quantize\<close>

datatype decimal_error = InvalidOperation

definition dec_quantize :: "(rat \<Rightarrow> int) \<Rightarrow> nat \<Rightarrow> rat \<Rightarrow> (decimal_error, rat) result" where
  "dec_quantize rnd places x = (let n = rnd (x * 10 ^ places) in
     if \<bar>n\<bar> < 10 ^ DEFAULT_PREC then Inr (of_int n / 10 ^ places) else Inl InvalidOperation)"

lemma round_half_even_nonneg: "0 \<le> x \<Longrightarrow> 0 \<le> round_half_even x"
  by (auto simp: round_half_even_def Let_def)

lemma dec_ctx_nonneg: "0 \<le> x \<Longrightarrow> 0 \<le> dec_ctx prec x"
  by (auto simp: dec_ctx_def Let_def intro!: mult_nonneg_nonneg round_half_even_nonneg)

lemma py_trunc_nonneg: "0 \<le> x \<Longrightarrow> 0 \<le> py_trunc x"
  by (simp add: py_trunc_def)

lemma py_trunc_of_int [simp]: "py_trunc (of_int n) = n"
  by (simp add: py_trunc_def)

end
