(* ===== verification/Apportionment.thy ===== *)
theory Apportionment
  imports Decimal_Arith
begin

text \<open>
  The largest remainder method, the interface of the allocation routines: the parts of an
  amount get the floor of their exact quota, and what is left is handed out one unit each in
  an order of falling fractional parts.
\<close>

section \<open>Lists\<close>

text \<open>In a sorted list the members below a threshold come first.\<close>

lemma sorted_take_below:
  assumes "sorted (map f xs)" and "n \<le> length (filter (\<lambda>x. f x < c) xs)" and "x \<in> set (take n xs)"
  shows "f x < (c :: 'b :: linorder)"
proof -
  have "takeWhile (\<lambda>x. f x < c) xs = filter (\<lambda>x. f x < c) xs"
    using assms(1)
  proof (induction xs)
    case (Cons y ys)
    then have "filter (\<lambda>x. f x < c) ys = []" if "\<not> f y < c"
      using that by (force simp: filter_empty_conv)
    with Cons show ?case by auto
  qed simp
  with assms(2) have "take n xs = take n (takeWhile (\<lambda>x. f x < c) xs)"
    by (metis takeWhile_eq_take take_take min.absorb1 length_takeWhile_le)
  then have "x \<in> set (takeWhile (\<lambda>x. f x < c) xs)"
    using assms(3) by (metis in_set_takeD)
  then show ?thesis by (blast dest: set_takeWhileD)
qed

lemma sum_list_scaled: "sum_list (map (\<lambda>c. k * of_int (f c)) cs) = (k :: rat) * of_int (sum_list (map f cs))"
  by (induction cs) (simp_all add: algebra_simps)

lemma sum_scaled_cents: "sum_list (map (\<lambda>i. of_int (f i) / 100) is) = (of_int (sum_list (map f is)) / 100 :: rat)"
  by (induction "is") (simp_all add: add_divide_distrib)

lemma frac_of_int_div:
  assumes "0 < d"
  shows "frac (of_int n / of_int d :: rat) = of_int (n mod d) / of_int d"
proof -
  have "\<lfloor>of_int n / of_int d :: rat\<rfloor> = n div d" by (rule floor_divide_of_int_eq)
  moreover have "of_int n = (of_int d * of_int (n div d) + of_int (n mod d) :: rat)"
    by (metis mult_div_mod_eq of_int_add of_int_mult)
  ultimately show ?thesis using assms by (simp add: frac_def field_simps)
qed

lemma div_share_less:
  fixes d :: int
  assumes "0 < w" and "d < w" and "0 < q"
  shows "d * q div w < q"
proof -
  have "w * (d * q div w) + d * q mod w = d * q" by (rule mult_div_mod_eq)
  moreover have "0 \<le> d * q mod w" using assms(1) by simp
  moreover have "d * q < w * q" using assms(2,3) by simp
  ultimately have "w * (d * q div w) < w * q" by linarith
  with assms(1) show ?thesis by simp
qed

lemma div_share_le:
  fixes d :: int
  assumes "0 < w" and "d \<le> w" and "0 < q"
  shows "d * q div w \<le> q"
proof (cases "d = w")
  case True
  with assms show ?thesis by simp
next
  case False
  with assms show ?thesis using div_share_less [of w d q] by simp
qed

lemma sorted_map_weaken:
  assumes "sorted (map f xs)" and "\<And>x y. x \<in> set xs \<Longrightarrow> y \<in> set xs \<Longrightarrow> f x \<le> f y \<Longrightarrow> g x \<le> g y"
  shows "sorted (map g xs)"
  using assms by (induction xs) auto

section \<open>The method\<close>

definition lr_base :: "('i \<Rightarrow> rat) \<Rightarrow> 'i \<Rightarrow> int" where
  "lr_base quota i = \<lfloor>quota i\<rfloor>"

definition lr_left :: "'i list \<Rightarrow> ('i \<Rightarrow> rat) \<Rightarrow> int \<Rightarrow> int" where
  "lr_left parts quota amount = amount - sum_list (map (lr_base quota) parts)"

definition lr_share :: "'i list \<Rightarrow> ('i \<Rightarrow> rat) \<Rightarrow> int \<Rightarrow> 'i list \<Rightarrow> 'i \<Rightarrow> int" where
  "lr_share parts quota amount rank i =
     lr_base quota i + (if i \<in> set (take (nat (lr_left parts quota amount)) rank) then 1 else 0)"

locale apportionment =
  fixes valid :: "'x \<Rightarrow> bool"
    and parts :: "'x \<Rightarrow> 'i list"
    and quota :: "'x \<Rightarrow> 'i \<Rightarrow> rat"
    and amount :: "'x \<Rightarrow> int"
    and rank :: "'x \<Rightarrow> 'i list"
  assumes distinct_parts: "valid x \<Longrightarrow> distinct (parts x)"
    and rank_perm: "valid x \<Longrightarrow> distinct (rank x) \<and> set (rank x) = set (parts x)"
    and rank_falling: "valid x \<Longrightarrow> sorted (map (\<lambda>i. - frac (quota x i)) (rank x))"
    and quota_total: "valid x \<Longrightarrow> sum_list (map (quota x) (parts x)) = of_int (amount x)"
begin

lemma left_frac:
  assumes "valid x"
  shows "of_int (lr_left (parts x) (quota x) (amount x)) = sum_list (map (\<lambda>i. frac (quota x i)) (parts x))"
proof -
  have "sum_list (map (quota x) ps) = of_int (sum_list (map (lr_base (quota x)) ps)) + sum_list (map (\<lambda>i. frac (quota x i)) ps)"
    for ps by (induction ps) (simp_all add: lr_base_def frac_def)
  with quota_total [OF assms] show ?thesis by (simp add: lr_left_def)
qed

lemma left_nonneg: "valid x \<Longrightarrow> 0 \<le> lr_left (parts x) (quota x) (amount x)"
proof -
  assume v: "valid x"
  have "0 \<le> sum_list (map (\<lambda>i. frac (quota x i)) (parts x))"
    by (rule sum_list_nonneg) auto
  with left_frac [OF v] show ?thesis by linarith
qed

lemma frac_sum_le: "sum_list (map (\<lambda>i. frac (quota x i)) ps) \<le> of_nat (length (filter (\<lambda>i. - frac (quota x i) < 0) ps))"
proof (induction ps)
  case (Cons p ps)
  have "frac (quota x p) \<le> 1" using frac_lt_1 [of "quota x p"] by simp
  moreover have "frac (quota x p) = 0" if "\<not> - frac (quota x p) < 0"
    using that frac_ge_0 [of "quota x p"] by linarith
  ultimately show ?case using Cons
    by (cases "- frac (quota x p) < 0") (simp_all only: filter.simps if_True if_False list.map sum_list.Cons, simp_all)
qed simp

lemma left_le: "valid x \<Longrightarrow> nat (lr_left (parts x) (quota x) (amount x)) \<le> length (filter (\<lambda>i. - frac (quota x i) < 0) (rank x))"
proof -
  assume v: "valid x"
  have "length (filter (\<lambda>i. - frac (quota x i) < 0) (rank x)) = length (filter (\<lambda>i. - frac (quota x i) < 0) (parts x))"
    using rank_perm [OF v] distinct_parts [OF v] by (metis distinct_card distinct_filter set_filter)
  moreover have "(of_int (lr_left (parts x) (quota x) (amount x)) :: rat)
      \<le> of_nat (length (filter (\<lambda>i. - frac (quota x i) < 0) (parts x)))"
    using left_frac [OF v] frac_sum_le by simp
  ultimately show ?thesis by linarith
qed

text \<open>Only parts with a fractional quota are rounded up.\<close>

lemma winner_frac:
  assumes "valid x" and "i \<in> set (take (nat (lr_left (parts x) (quota x) (amount x))) (rank x))"
  shows "0 < frac (quota x i)"
  using sorted_take_below [OF rank_falling [OF assms(1)] left_le [OF assms(1)] assms(2)] by simp

lemma share_sum:
  assumes "valid x"
  shows "sum_list (map (lr_share (parts x) (quota x) (amount x) (rank x)) (parts x)) = amount x"
proof -
  let ?l = "lr_left (parts x) (quota x) (amount x)"
  let ?w = "set (take (nat ?l) (rank x))"
  have r: "distinct (rank x)" "set (rank x) = set (parts x)" using rank_perm [OF assms] by auto
  have "?w \<subseteq> set (parts x)" using r(2) set_take_subset by metis
  moreover have "card ?w = nat ?l"
    using r(1) order_trans [OF left_le [OF assms] length_filter_le]
    by (simp add: distinct_card)
  ultimately have "sum_list (map (\<lambda>i. if i \<in> ?w then 1 else 0) (parts x)) = ?l"
    using sum_list_if_mem [OF distinct_parts [OF assms], of ?w, where 'b = int] left_nonneg [OF assms] by (simp add: Int_absorb2)
  then show ?thesis
    unfolding lr_share_def sum_list_map_add by (simp add: lr_left_def)
qed

lemma share_quota:
  assumes "valid x"
  shows "\<lfloor>quota x i\<rfloor> \<le> lr_share (parts x) (quota x) (amount x) (rank x) i
    \<and> lr_share (parts x) (quota x) (amount x) (rank x) i \<le> \<lceil>quota x i\<rceil>"
proof -
  have "\<lceil>quota x i\<rceil> = \<lfloor>quota x i\<rfloor> + 1" if "0 < frac (quota x i)"
    using that by (simp add: ceiling_altdef frac_def)
  moreover have "\<lfloor>quota x i\<rfloor> \<le> \<lceil>quota x i\<rceil>" by linarith
  ultimately show ?thesis
    using winner_frac [OF assms, of i] by (auto simp: lr_share_def lr_base_def)
qed

end

end
