(* ===== verification/Promo_Allocation.thy ===== *)
theory Promo_Allocation
  imports Apportionment
begin

text \<open>
  Exact allocation of store-level promotion actuals to agents
  (\<^verbatim>\<open>services/promo_allocation.py\<close>): units by sales share, then value by units.
\<close>

section \<open>Units\<close>

text \<open>A candidate: an agent and the quantity it sold.\<close>

type_synonym candidate = "string \<times> int"

record unit_share =
  us_agent :: string
  us_positive_qty :: int
  us_units :: int
  us_remainder :: int

definition normalized_candidates :: "candidate list \<Rightarrow> candidate list" where
  "normalized_candidates cs = map (\<lambda>(agent, q). (agent, max 0 q))
     (filter (\<lambda>(agent, q). agent \<noteq> [] \<and> agent \<noteq> ''-'' \<and> 0 < q) cs)"

definition base_share :: "int \<Rightarrow> int \<Rightarrow> candidate \<Rightarrow> unit_share" where
  "base_share distributable total_positive c = (let numerator = distributable * snd c in
     \<lparr>us_agent = fst c, us_positive_qty = snd c, us_units = min (snd c) (numerator div total_positive),
      us_remainder = numerator mod total_positive\<rparr>)"

text \<open>The sorted entries are the same objects as the list's, so the order is one of positions.\<close>

definition unit_order :: "unit_share list \<Rightarrow> nat list" where
  "unit_order ss = sort_key (\<lambda>i. (- us_remainder (ss ! i), - us_positive_qty (ss ! i), us_agent (ss ! i))) [0..<length ss]"

fun hand_out_units :: "nat list \<Rightarrow> int \<Rightarrow> unit_share list \<Rightarrow> unit_share list" where
  "hand_out_units [] remaining ss = ss"
| "hand_out_units (i # is) remaining ss =
     (if remaining \<le> 0 then ss
      else if us_positive_qty (ss ! i) \<le> us_units (ss ! i) then hand_out_units is remaining ss
      else hand_out_units is (remaining - 1) (ss[i := (ss ! i)\<lparr>us_units := us_units (ss ! i) + 1\<rparr>]))"

definition distribute_units :: "int \<Rightarrow> candidate list \<Rightarrow> unit_share list" where
  "distribute_units distributable normalized =
     (let total_positive = sum_list (map snd normalized);
          allocations = map (base_share distributable total_positive) normalized;
          remaining = distributable - sum_list (map us_units allocations)
      in hand_out_units (unit_order allocations) remaining allocations)"

definition allocate_units_to_agents :: "int \<Rightarrow> candidate list \<Rightarrow> candidate list" where
  "allocate_units_to_agents units candidates =
     (let promo_units = max 0 units in
      if promo_units \<le> 0 then [] else
      let normalized = normalized_candidates candidates;
          total_positive = sum_list (map snd normalized)
      in if total_positive \<le> 0 then [(''-'', promo_units)] else
      let distributable = min promo_units total_positive;
          rows = map (\<lambda>s. (us_agent s, us_units s))
            (filter (\<lambda>s. 0 < us_units s) (distribute_units distributable normalized))
      in if total_positive < promo_units then rows @ [(''-'', promo_units - total_positive)] else rows)"

section \<open>The units are an apportionment\<close>

text \<open>An input: the normalized candidates and the units they share.\<close>

type_synonym unit_input = "candidate list \<times> int"

definition unit_valid :: "unit_input \<Rightarrow> bool" where
  "unit_valid x \<longleftrightarrow> fst x \<noteq> [] \<and> list_all (\<lambda>c. 0 < snd c) (fst x) \<and> 0 \<le> snd x \<and> snd x \<le> sum_list (map snd (fst x))"

definition unit_parts :: "unit_input \<Rightarrow> nat list" where
  "unit_parts x = [0..<length (fst x)]"

definition unit_quota :: "unit_input \<Rightarrow> nat \<Rightarrow> rat" where
  "unit_quota x i = of_int (snd x * snd (fst x ! i)) / of_int (sum_list (map snd (fst x)))"

definition unit_rank :: "unit_input \<Rightarrow> nat list" where
  "unit_rank x = unit_order (map (base_share (snd x) (sum_list (map snd (fst x)))) (fst x))"

lemma sum_list_pos_of_all:
  fixes xs :: "int list"
  shows "xs \<noteq> [] \<Longrightarrow> list_all (\<lambda>q. 0 < q) xs \<Longrightarrow> 0 < sum_list xs"
proof (induction xs)
  case (Cons y ys)
  then show ?case by (cases "ys = []") auto
qed simp

lemma unit_total_pos: "unit_valid x \<Longrightarrow> 0 < sum_list (map snd (fst x))"
  using sum_list_pos_of_all [of "map snd (fst x)"] by (simp add: unit_valid_def list.pred_map comp_def)

interpretation pu: apportionment unit_valid unit_parts unit_quota snd unit_rank
proof unfold_locales
  fix x :: unit_input
  assume v: "unit_valid x"
  let ?W = "sum_list (map snd (fst x))"
  let ?ss = "map (base_share (snd x) ?W) (fst x)"
  show "distinct (unit_parts x)" by (simp add: unit_parts_def)
  show "distinct (unit_rank x) \<and> set (unit_rank x) = set (unit_parts x)"
    by (simp add: unit_rank_def unit_order_def unit_parts_def)
  show "sorted (map (\<lambda>i. - frac (unit_quota x i)) (unit_rank x))"
  proof -
    have "sorted (map (\<lambda>i. (- us_remainder (?ss ! i), - us_positive_qty (?ss ! i), us_agent (?ss ! i))) (unit_rank x))"
      by (simp add: unit_rank_def unit_order_def)
    moreover have "- frac (unit_quota x i) = of_int (- us_remainder (?ss ! i)) / of_int ?W" if "i \<in> set (unit_rank x)" for i
    proof -
      have "i < length (fst x)" using that by (simp add: unit_rank_def unit_order_def)
      then show ?thesis
        using frac_of_int_div [OF unit_total_pos [OF v]]
        by (simp add: unit_quota_def base_share_def Let_def del: of_int_mult)
    qed
    ultimately show ?thesis
      using unit_total_pos [OF v]
      by (elim sorted_map_weaken) (auto intro!: divide_right_mono)
  qed
  show "sum_list (map (unit_quota x) (unit_parts x)) = of_int (snd x)"
  proof -
    have "map (unit_quota x) (unit_parts x) = map (\<lambda>c. of_int (snd x) / of_int ?W * of_int (snd c)) (fst x)"
      by (rule nth_equalityI) (simp_all add: unit_parts_def unit_quota_def)
    then have "sum_list (map (unit_quota x) (unit_parts x)) = of_int (snd x) / of_int ?W * of_int ?W"
      by (simp only: sum_list_scaled)
    then show ?thesis using unit_total_pos [OF v] by simp
  qed
qed

section \<open>What the agents get\<close>

lemma hand_out_none: "r \<le> 0 \<Longrightarrow> hand_out_units is r ss = ss"
  by (cases "is") simp_all

lemma hand_out_spec:
  assumes "distinct is" and "\<forall>i \<in> set is. i < length ss \<and> us_units (ss ! i) < us_positive_qty (ss ! i)"
  shows "hand_out_units is r ss = map (\<lambda>j. if j \<in> set (take (nat r) is)
     then (ss ! j)\<lparr>us_units := us_units (ss ! j) + 1\<rparr> else ss ! j) [0..<length ss]"
  using assms
proof (induction "is" arbitrary: r ss)
  case Nil
  then show ?case by (simp add: map_nth)
next
  case (Cons i "is")
  show ?case
  proof (cases "r \<le> 0")
    case True
    then show ?thesis by (simp add: map_nth)
  next
    case False
    then have n: "nat r = Suc (nat (r - 1))" by simp
    let ?ss = "ss[i := (ss ! i)\<lparr>us_units := us_units (ss ! i) + 1\<rparr>]"
    have "hand_out_units (i # is) r ss = hand_out_units is (r - 1) ?ss"
      using False Cons.prems by simp
    also have "\<dots> = map (\<lambda>j. if j \<in> set (take (nat (r - 1)) is)
       then (?ss ! j)\<lparr>us_units := us_units (?ss ! j) + 1\<rparr> else ?ss ! j) [0..<length ?ss]"
      using Cons.prems by (intro Cons.IH) (auto simp: nth_list_update)
    also have "\<dots> = map (\<lambda>j. if j \<in> set (take (nat r) (i # is))
       then (ss ! j)\<lparr>us_units := us_units (ss ! j) + 1\<rparr> else ss ! j) [0..<length ss]"
      using Cons.prems unfolding n by (auto simp: nth_list_update dest: in_set_takeD)
    finally show ?thesis .
  qed
qed

definition unit_share_at :: "unit_input \<Rightarrow> nat \<Rightarrow> int" where
  "unit_share_at x = lr_share (unit_parts x) (unit_quota x) (snd x) (unit_rank x)"

lemma base_share_units:
  assumes "unit_valid (cs, d)" and "c \<in> set cs"
  shows "us_units (base_share d (sum_list (map snd cs)) c) = \<lfloor>of_int (d * snd c) / of_int (sum_list (map snd cs)) :: rat\<rfloor>"
proof -
  let ?W = "sum_list (map snd cs)"
  have "0 < snd c" "d \<le> ?W" "0 < ?W" "0 \<le> d"
    using assms unit_total_pos [OF assms(1)] by (auto simp: unit_valid_def list_all_iff)
  then have "d * snd c div ?W \<le> snd c" by (intro div_share_le)
  then show ?thesis by (simp add: base_share_def Let_def floor_divide_of_int_eq del: of_int_mult)
qed

lemma distribute_units_shares:
  assumes v: "unit_valid (cs, d)"
  shows "map us_agent (distribute_units d cs) = map fst cs
    \<and> map us_units (distribute_units d cs) = map (unit_share_at (cs, d)) [0..<length cs]"
proof -
  let ?W = "sum_list (map snd cs)"
  let ?ss = "map (base_share d ?W) cs"
  have W: "0 < ?W" using unit_total_pos [OF v] by simp
  have base: "us_units (?ss ! i) = lr_base (unit_quota (cs, d)) i" if "i < length cs" for i
    using base_share_units [OF v nth_mem [OF that]] that by (simp add: lr_base_def unit_quota_def)
  have left: "d - sum_list (map us_units ?ss) = lr_left (unit_parts (cs, d)) (unit_quota (cs, d)) d"
  proof -
    have "map us_units ?ss = map (lr_base (unit_quota (cs, d))) (unit_parts (cs, d))"
      by (rule nth_equalityI) (use base in \<open>simp_all add: unit_parts_def\<close>)
    then show ?thesis by (simp add: lr_left_def)
  qed
  let ?l = "lr_left (unit_parts (cs, d)) (unit_quota (cs, d)) d"
  have out: "distribute_units d cs = hand_out_units (unit_order ?ss) ?l ?ss"
    unfolding distribute_units_def Let_def left ..
  have rank: "unit_order ?ss = unit_rank (cs, d)" by (simp add: unit_rank_def)
  have spec: "distribute_units d cs = map (\<lambda>j. if j \<in> set (take (nat ?l) (unit_order ?ss))
     then (?ss ! j)\<lparr>us_units := us_units (?ss ! j) + 1\<rparr> else ?ss ! j) [0..<length ?ss]"
  proof (cases "?l \<le> 0")
    case True
    then show ?thesis unfolding out by (simp add: hand_out_none map_nth [of ?ss, simplified])
  next
    case False
    have "d < ?W"
    proof (rule ccontr)
      assume "\<not> d < ?W"
      then have "d = ?W" using v by (simp add: unit_valid_def)
      then have "of_int (lr_left (unit_parts (cs, d)) (unit_quota (cs, d)) d) = (0 :: rat)"
        using pu.left_frac [OF v] W by (simp add: unit_quota_def unit_parts_def)
      with False show False by simp
    qed
    have "us_units (?ss ! i) < us_positive_qty (?ss ! i)" if i: "i < length cs" for i
    proof -
      have "0 < snd (cs ! i)" using v i by (simp add: unit_valid_def list_all_length)
      with i div_share_less [OF W \<open>d < ?W\<close>, of "snd (cs ! i)"] show ?thesis by (simp add: base_share_def Let_def)
    qed
    then show ?thesis unfolding out by (intro hand_out_spec) (auto simp: unit_order_def)
  qed
  have u: "us_units (distribute_units d cs ! i) = unit_share_at (cs, d) i" if "i < length cs" for i
    using that base [OF that] by (simp add: spec unit_share_at_def lr_share_def rank)
  have a: "us_agent (distribute_units d cs ! i) = fst (cs ! i)" if "i < length cs" for i
    using that by (simp add: spec base_share_def Let_def)
  have len: "length (distribute_units d cs) = length cs" by (simp add: spec)
  show ?thesis
    by (intro conjI nth_equalityI) (use u a len in simp_all)
qed

lemma normalized_valid:
  assumes "normalized_candidates cs \<noteq> []" and "0 \<le> p"
  shows "unit_valid (normalized_candidates cs, min p (sum_list (map snd (normalized_candidates cs))))"
proof -
  have pos: "list_all (\<lambda>c. 0 < snd c) (normalized_candidates cs)"
    by (auto simp: normalized_candidates_def list_all_iff)
  then have "0 < sum_list (map snd (normalized_candidates cs))"
    using sum_list_pos_of_all [of "map snd (normalized_candidates cs)"] assms(1) by (simp add: list.pred_map comp_def)
  with pos assms show ?thesis by (simp add: unit_valid_def)
qed

lemma unit_share_bounds:
  assumes "unit_valid (cs, d)" and "i < length cs"
  shows "\<lfloor>unit_quota (cs, d) i\<rfloor> \<le> unit_share_at (cs, d) i \<and> unit_share_at (cs, d) i \<le> \<lceil>unit_quota (cs, d) i\<rceil>
    \<and> unit_share_at (cs, d) i \<le> snd (cs ! i)"
proof -
  have W: "0 < sum_list (map snd cs)" and d: "d \<le> sum_list (map snd cs)" and q: "0 < snd (cs ! i)"
    using assms unit_total_pos [OF assms(1)] by (auto simp: unit_valid_def list_all_length)
  then have "d * snd (cs ! i) \<le> snd (cs ! i) * sum_list (map snd cs)" by (simp add: mult.commute)
  then have "(of_int (d * snd (cs ! i)) :: rat) \<le> of_int (snd (cs ! i) * sum_list (map snd cs))"
    by (simp only: of_int_le_iff)
  then have "unit_quota (cs, d) i \<le> of_int (snd (cs ! i))"
    using W by (simp add: unit_quota_def divide_le_eq)
  then have "\<lceil>unit_quota (cs, d) i\<rceil> \<le> snd (cs ! i)" by (simp add: ceiling_le_iff)
  with pu.share_quota [OF assms(1), of i] show ?thesis by (simp add: unit_share_at_def)
qed

definition units_sold :: "candidate list \<Rightarrow> int" where
  "units_sold cs = sum_list (map snd (normalized_candidates cs))"

lemma map_pair_zip: "map f xs = as \<Longrightarrow> map g xs = bs \<Longrightarrow> map (\<lambda>s. (f s, g s)) xs = zip as bs"
  by (induction xs arbitrary: as bs) auto

lemma filter_positive_pairs:
  fixes g :: "'a \<Rightarrow> int"
  shows "map (\<lambda>s. (f s, g s)) (filter (\<lambda>s. 0 < g s) xs) = filter (\<lambda>(a, n). 0 < n) (map (\<lambda>s. (f s, g s)) xs)"
  by (induction xs) auto

lemma sum_filter_positive:
  fixes ps :: "(string \<times> int) list"
  shows "\<forall>p \<in> set ps. 0 \<le> snd p \<Longrightarrow> sum_list (map snd (filter (\<lambda>(a, n). 0 < n) ps)) = sum_list (map snd ps)"
  by (induction ps) auto

lemma units_sold_pos:
  assumes "normalized_candidates cs \<noteq> []"
  shows "0 < units_sold cs"
  using unit_total_pos [OF normalized_valid [OF assms order_refl]] by (simp add: units_sold_def)

lemma unit_share_nonneg:
  assumes "unit_valid (cs, d)" and "i < length cs"
  shows "0 \<le> unit_share_at (cs, d) i"
proof -
  have "0 < snd (cs ! i)" "0 \<le> d" using assms by (simp_all add: unit_valid_def list_all_length)
  then have "0 \<le> unit_quota (cs, d) i"
    using unit_total_pos [OF assms(1)] by (simp add: unit_quota_def)
  then show ?thesis using unit_share_bounds [OF assms] by linarith
qed

text \<open>The allocation when there is something to allocate and someone to get it.\<close>

lemma allocate_units_rows:
  assumes "0 < units" and "normalized_candidates cs \<noteq> []"
  defines "x \<equiv> (normalized_candidates cs, min units (units_sold cs))"
  shows "allocate_units_to_agents units cs =
      filter (\<lambda>(agent, n). 0 < n) (zip (map fst (fst x)) (map (unit_share_at x) [0..<length (fst x)]))
      @ (if units_sold cs < units then [(''-'', units - units_sold cs)] else [])"
proof -
  have v: "unit_valid (fst x, snd x)"
    using normalized_valid [OF assms(2), of units] assms(1) by (simp add: x_def units_sold_def)
  note D = distribute_units_shares [OF v]
  have "map (\<lambda>s. (us_agent s, us_units s)) (distribute_units (snd x) (fst x))
      = zip (map fst (fst x)) (map (unit_share_at x) [0..<length (fst x)])"
    using D by (intro map_pair_zip) simp_all
  then have "map (\<lambda>s. (us_agent s, us_units s)) (filter (\<lambda>s. 0 < us_units s) (distribute_units (snd x) (fst x)))
      = filter (\<lambda>(agent, n). 0 < n) (zip (map fst (fst x)) (map (unit_share_at x) [0..<length (fst x)]))"
    unfolding filter_positive_pairs by simp
  moreover have "allocate_units_to_agents units cs =
      map (\<lambda>s. (us_agent s, us_units s)) (filter (\<lambda>s. 0 < us_units s) (distribute_units (snd x) (fst x)))
      @ (if units_sold cs < units then [(''-'', units - units_sold cs)] else [])"
    using assms(1) units_sold_pos [OF assms(2)]
    by (simp add: allocate_units_to_agents_def Let_def x_def units_sold_def)
  ultimately show ?thesis by (simp only:)
qed

lemma allocate_units_sum:
  assumes "0 < units" and "normalized_candidates cs \<noteq> []"
  shows "sum_list (map snd (allocate_units_to_agents units cs)) = units"
proof -
  let ?x = "(normalized_candidates cs, min units (units_sold cs))"
  have v: "unit_valid ?x"
    using normalized_valid [OF assms(2), of units] assms(1) by (simp add: units_sold_def)
  let ?ps = "zip (map fst (fst ?x)) (map (unit_share_at ?x) [0..<length (fst ?x)])"
  have "\<forall>p \<in> set ?ps. 0 \<le> snd p"
    using unit_share_nonneg [OF v] by (auto simp: set_zip)
  then have "sum_list (map snd (filter (\<lambda>(agent, n). 0 < n) ?ps)) = sum_list (map snd ?ps)"
    by (rule sum_filter_positive)
  also have "map snd ?ps = map (unit_share_at ?x) (unit_parts ?x)"
    by (simp add: unit_parts_def)
  also have "sum_list \<dots> = snd ?x"
    using pu.share_sum [OF v] by (simp only: unit_share_at_def)
  finally show ?thesis
    using allocate_units_rows [OF assms] by (simp del: map_map)
qed

lemma allocate_units_trivial:
  assumes "\<not> (0 < units \<and> normalized_candidates cs \<noteq> [])"
  shows "allocate_units_to_agents units cs = (if 0 < units then [(''-'', units)] else [])"
  using assms by (auto simp: allocate_units_to_agents_def Let_def)

text \<open>
  C22: The units of a promotion are allocated exactly: whatever the input, the allocated units
  sum to the units of the promotion. Each eligible agent, in the order given, gets the floor
  or the ceiling of its exact proportional quota and never more than it sold; agents with no
  unit are left out, and units beyond all sales go to the unattributed row.
\<close>

theorem promo_units_exact:
  "let eligible = normalized_candidates candidates; sold = units_sold candidates;
       rows = allocate_units_to_agents units candidates
   in sum_list (map snd rows) = max 0 units
    \<and> (\<exists>shares. rows = filter (\<lambda>(agent, n). 0 < n) (zip (map fst eligible) shares)
          @ (if sold < units then [(''-'', units - sold)] else [])
        \<and> length shares = length eligible
        \<and> list_all (\<lambda>((agent, q), n).
             let quota = of_int (min (max 0 units) sold * q) / (of_int sold :: rat)
             in \<lfloor>quota\<rfloor> \<le> n \<and> n \<le> \<lceil>quota\<rceil> \<and> n \<le> q) (zip eligible shares))"
proof (cases "0 < units \<and> normalized_candidates candidates \<noteq> []")
  case True
  let ?x = "(normalized_candidates candidates, min units (units_sold candidates))"
  have v: "unit_valid ?x"
    using normalized_valid [of candidates units] True by (simp add: units_sold_def)
  let ?shares = "map (unit_share_at ?x) [0..<length (fst ?x)]"
  have q: "unit_quota ?x i = of_int (min (max 0 units) (units_sold candidates) * snd (normalized_candidates candidates ! i))
      / of_int (units_sold candidates)" for i
    using True by (simp add: unit_quota_def units_sold_def max_absorb2)
  have "list_all (\<lambda>((agent, q), n).
      let quota = of_int (min (max 0 units) (units_sold candidates) * q) / (of_int (units_sold candidates) :: rat)
      in \<lfloor>quota\<rfloor> \<le> n \<and> n \<le> \<lceil>quota\<rceil> \<and> n \<le> q) (zip (normalized_candidates candidates) ?shares)"
    unfolding list_all_length Let_def case_prod_unfold using unit_share_bounds [OF v] by (simp add: q [symmetric] del: of_int_mult)
  moreover have "sum_list (map snd (allocate_units_to_agents units candidates)) = max 0 units"
    using allocate_units_sum [of units candidates] True by simp
  moreover note allocate_units_rows [of units candidates, OF conjunct1 [OF True] conjunct2 [OF True]]
  ultimately show ?thesis
    unfolding Let_def by (intro conjI exI [of _ ?shares]) (simp_all only: fst_conv, simp)
next
  case False
  have sold: "0 \<le> units_sold candidates"
    unfolding units_sold_def by (rule sum_list_nonneg) (auto simp: normalized_candidates_def)
  show ?thesis
  proof (cases "0 < units")
    case True
    with False have none: "normalized_candidates candidates = []" by simp
    then have "units_sold candidates = 0" by (simp add: units_sold_def)
    with none True show ?thesis
      unfolding allocate_units_trivial [OF False] Let_def by (intro conjI exI [of _ "[]"]) simp_all
  next
    case none: False
    let ?shares = "replicate (length (normalized_candidates candidates)) (0 :: int)"
    have "filter (\<lambda>(agent, n). 0 < n) (zip (map fst (normalized_candidates candidates)) ?shares) = []"
      by (auto simp: filter_empty_conv set_zip)
    moreover have "0 \<le> snd (normalized_candidates candidates ! i)" if "i < length (normalized_candidates candidates)" for i
      using nth_mem [OF that] by (auto simp: normalized_candidates_def)
    then have "list_all (\<lambda>((agent, q), n).
      let quota = of_int (min (max 0 units) (units_sold candidates) * q) / (of_int (units_sold candidates) :: rat)
      in \<lfloor>quota\<rfloor> \<le> n \<and> n \<le> \<lceil>quota\<rceil> \<and> n \<le> q) (zip (normalized_candidates candidates) ?shares)"
      using none sold by (simp add: list_all_length case_prod_unfold Let_def)
    ultimately show ?thesis
      using none sold unfolding allocate_units_trivial [OF False] Let_def
      by (intro conjI exI [of _ ?shares]) simp_all
  qed
qed

section \<open>Values\<close>

record value_part =
  vp_agent :: string
  vp_cents :: int
  vp_remainder :: rat

definition value_part_of :: "int \<Rightarrow> int \<Rightarrow> candidate \<Rightarrow> value_part" where
  "value_part_of total_cents total_units c =
     (let exact = dec_ctx DEFAULT_PREC (of_int (total_cents * snd c) / of_int total_units); cents = \<lfloor>exact\<rfloor>
      in \<lparr>vp_agent = fst c, vp_cents = cents, vp_remainder = dec_ctx DEFAULT_PREC (exact - of_int cents)\<rparr>)"

definition value_order :: "value_part list \<Rightarrow> nat list" where
  "value_order ps = sort_key (\<lambda>i. (- vp_remainder (ps ! i), vp_agent (ps ! i))) [0..<length ps]"

fun hand_out_cents :: "nat list \<Rightarrow> int \<Rightarrow> int \<Rightarrow> value_part list \<Rightarrow> value_part list" where
  "hand_out_cents [] assigned total_cents ps = ps"
| "hand_out_cents (i # is) assigned total_cents ps =
     (if total_cents \<le> assigned then ps
      else hand_out_cents is (assigned + 1) total_cents (ps[i := (ps ! i)\<lparr>vp_cents := vp_cents (ps ! i) + 1\<rparr>]))"

definition allocate_value_to_agents :: "rat \<Rightarrow> candidate list \<Rightarrow> (decimal_error, (string \<times> rat) list) result" where
  "allocate_value_to_agents total_value allocations =
     (let total_units = sum_list (map snd allocations) in
      if total_units \<le> 0 then Inr [] else
      res_bind (dec_quantize round_half_up 0 (dec_ctx DEFAULT_PREC (total_value * 100))) (\<lambda>q.
      let total_cents = py_trunc q;
          parts = map (value_part_of total_cents total_units) allocations;
          assigned_cents = sum_list (map vp_cents parts)
      in Inr (dict_of (map (\<lambda>p. (vp_agent p, dec_ctx DEFAULT_PREC (of_int (vp_cents p) / 100)))
           (hand_out_cents (value_order parts) assigned_cents total_cents parts)))))"

type_synonym value_input = "candidate list \<times> int"

text \<open>The amounts for which 28 digits are enough.\<close>

definition value_valid :: "value_input \<Rightarrow> bool" where
  "value_valid x \<longleftrightarrow> list_all (\<lambda>c. 0 \<le> snd c) (fst x) \<and> 0 < sum_list (map snd (fst x))
     \<and> (\<bar>snd x\<bar> + 1) * sum_list (map snd (fst x)) < 10 ^ 26"

definition value_quota :: "value_input \<Rightarrow> nat \<Rightarrow> rat" where
  "value_quota x i = of_int (snd x * snd (fst x ! i)) / of_int (sum_list (map snd (fst x)))"

definition value_parts :: "value_input \<Rightarrow> value_part list" where
  "value_parts x = map (value_part_of (snd x) (sum_list (map snd (fst x)))) (fst x)"

lemma member_le_total:
  fixes xs :: "candidate list"
  assumes "list_all (\<lambda>c. 0 \<le> snd c) xs" and "c \<in> set xs"
  shows "snd c \<le> sum_list (map snd xs)"
  using assms
proof (induction xs)
  case (Cons y ys)
  have "0 \<le> sum_list (map snd ys)" using Cons.prems(1) by (intro sum_list_nonneg) (auto simp: list_all_iff)
  with Cons show ?case by auto
qed simp

lemma value_quota_bound:
  assumes "value_valid x" and "i < length (fst x)"
  shows "\<bar>value_quota x i\<bar> \<le> of_int \<bar>snd x\<bar>"
proof -
  let ?U = "sum_list (map snd (fst x))"
  have u: "0 \<le> snd (fst x ! i)" "snd (fst x ! i) \<le> ?U" "0 < ?U"
    using assms member_le_total [of "fst x" "fst x ! i"] by (auto simp: value_valid_def list_all_length)
  have "\<bar>value_quota x i\<bar> = of_int \<bar>snd x\<bar> * (of_int (snd (fst x ! i)) / of_int ?U)"
    using u by (simp add: value_quota_def abs_mult)
  also have "\<dots> \<le> of_int \<bar>snd x\<bar> * 1"
    using u by (intro mult_left_mono) auto
  finally show ?thesis by simp
qed

lemma value_error:
  assumes "value_valid x" and "i < length (fst x)"
  shows "\<bar>dec_ctx DEFAULT_PREC (value_quota x i) - value_quota x i\<bar> * of_int (sum_list (map snd (fst x))) < 1 / 20"
proof -
  let ?U = "sum_list (map snd (fst x))"
  have U: "0 < ?U" "(\<bar>snd x\<bar> + 1) * ?U < 10 ^ 26" using assms(1) by (auto simp: value_valid_def)
  have "(of_int ((\<bar>snd x\<bar> + 1) * ?U) :: rat) < of_int (10 ^ 26)" using U(2) by (simp only: of_int_less_iff)
  moreover have "(of_int \<bar>snd x\<bar> :: rat) * of_int ?U \<le> of_int ((\<bar>snd x\<bar> + 1) * ?U)" using U(1) by (simp add: algebra_simps)
  ultimately have b: "(of_int \<bar>snd x\<bar> :: rat) * of_int ?U < 10 ^ 26" by simp
  have "\<bar>dec_ctx DEFAULT_PREC (value_quota x i) - value_quota x i\<bar> * of_int ?U
      \<le> (\<bar>value_quota x i\<bar> * 5 * 10 powi (- int DEFAULT_PREC)) * of_int ?U"
    using U(1) by (intro mult_right_mono dec_ctx_error) (auto simp: DEFAULT_PREC_def)
  also have "\<dots> \<le> (of_int \<bar>snd x\<bar> * 5 * 10 powi (- int DEFAULT_PREC)) * of_int ?U"
    using U(1) value_quota_bound [OF assms] by (intro mult_right_mono) auto
  also have "\<dots> = (of_int \<bar>snd x\<bar> * of_int ?U) * (5 * 10 powi (- int DEFAULT_PREC))" by simp
  also have "\<dots> < 10 ^ 26 * (5 * 10 powi (- int DEFAULT_PREC))"
    using b by (intro mult_strict_right_mono) auto
  also have "\<dots> = 1 / 20" by (simp add: DEFAULT_PREC_def power_int_minus)
  finally show ?thesis .
qed

lemma value_floor:
  assumes "value_valid x" and "i < length (fst x)"
  shows "\<lfloor>dec_ctx DEFAULT_PREC (value_quota x i)\<rfloor> = \<lfloor>value_quota x i\<rfloor>"
proof -
  let ?U = "sum_list (map snd (fst x))" and ?n = "snd x * snd (fst x ! i)"
  let ?d = "dec_ctx DEFAULT_PREC (value_quota x i)"
  have U: "0 < ?U" using assms(1) by (simp add: value_valid_def)
  have q: "value_quota x i = of_int (?n div ?U) + of_int (?n mod ?U) / of_int ?U"
    using frac_of_int_div [OF U, of ?n] floor_divide_of_int_eq [of ?n ?U, where 'a = rat]
    by (simp add: value_quota_def frac_def del: of_int_mult)
  show ?thesis
  proof (cases "?n mod ?U = 0")
    case True
    have "\<bar>?n div ?U\<bar> < 10 ^ 28"
    proof -
      have "(of_int \<bar>?n div ?U\<bar> :: rat) \<le> of_int \<bar>snd x\<bar>"
        using value_quota_bound [OF assms] q True by simp
      then have "\<bar>?n div ?U\<bar> \<le> \<bar>snd x\<bar>" by (simp only: of_int_le_iff)
      moreover have "\<bar>snd x\<bar> * 1 \<le> \<bar>snd x\<bar> * ?U" using U by (intro mult_left_mono) auto
      ultimately show ?thesis using assms(1) U by (simp add: value_valid_def algebra_simps)
    qed
    with q True show ?thesis by (simp add: dec_ctx_int DEFAULT_PREC_def)
  next
    case False
    let ?r = "of_int (?n mod ?U) / of_int ?U :: rat"
    have m: "1 \<le> ?n mod ?U" "?n mod ?U \<le> ?U - 1" using False U pos_mod_bound [OF U, of ?n] pos_mod_sign [OF U, of ?n] by linarith+
    have r: "?r * of_int ?U = of_int (?n mod ?U)" using U by simp
    have e: "\<bar>?d - value_quota x i\<bar> * of_int ?U < 1 / 20" using value_error [OF assms] .
    have "of_int (?n div ?U) \<le> ?d \<and> ?d < of_int (?n div ?U) + 1"
    proof -
      have "(?d - of_int (?n div ?U)) * of_int ?U = (?d - value_quota x i) * of_int ?U + of_int (?n mod ?U)"
        using q r by (simp add: algebra_simps)
      moreover have "\<bar>(?d - value_quota x i) * of_int ?U\<bar> < 1 / 20" using e U by (simp add: abs_mult)
      moreover have "(1 :: rat) \<le> of_int (?n mod ?U)" "(of_int (?n mod ?U) :: rat) \<le> of_int ?U - 1"
        using m by (simp, metis of_int_1 of_int_diff of_int_le_iff)
      ultimately have "0 < (?d - of_int (?n div ?U)) * of_int ?U" "(?d - of_int (?n div ?U)) * of_int ?U < of_int ?U"
        by linarith+
      then show ?thesis using U by (simp_all add: zero_less_mult_iff mult_less_cancel_right1)
    qed
    then have "\<lfloor>?d\<rfloor> = ?n div ?U" by (intro floor_unique) auto
    then show ?thesis
      using floor_divide_of_int_eq [of ?n ?U, where 'a = rat] by (simp add: value_quota_def del: of_int_mult)
  qed
qed

lemma value_units_bound:
  assumes "value_valid x"
  shows "0 < sum_list (map snd (fst x))" and "sum_list (map snd (fst x)) < 10 ^ 26"
proof -
  show U: "0 < sum_list (map snd (fst x))" using assms by (simp add: value_valid_def)
  have "1 * sum_list (map snd (fst x)) \<le> (\<bar>snd x\<bar> + 1) * sum_list (map snd (fst x))"
    using U by (intro mult_right_mono) auto
  also have "\<dots> < 10 ^ 26" using assms by (simp add: value_valid_def)
  finally show "sum_list (map snd (fst x)) < 10 ^ 26" by simp
qed

lemma value_remainder_near:
  assumes "value_valid x" and "i < length (fst x)"
  shows "\<bar>vp_remainder (value_parts x ! i) - frac (value_quota x i)\<bar> * of_int (sum_list (map snd (fst x))) < 1 / 5"
proof -
  let ?U = "sum_list (map snd (fst x))"
  let ?d = "dec_ctx DEFAULT_PREC (value_quota x i)"
  let ?y = "?d - of_int \<lfloor>?d\<rfloor>"
  note U = value_units_bound [OF assms(1)]
  have rem: "vp_remainder (value_parts x ! i) = dec_ctx DEFAULT_PREC ?y"
    using assms(2) by (simp add: value_parts_def value_part_of_def Let_def value_quota_def)
  have y: "\<bar>?y\<bar> \<le> 1" by linarith
  have "\<bar>dec_ctx DEFAULT_PREC ?y - ?y\<bar> \<le> \<bar>?y\<bar> * 5 * 10 powi (- int DEFAULT_PREC)"
    by (rule dec_ctx_error) (simp add: DEFAULT_PREC_def)
  also have "\<dots> \<le> 1 * 5 * 10 powi (- int DEFAULT_PREC)"
    using y by (intro mult_right_mono) auto
  finally have "\<bar>dec_ctx DEFAULT_PREC ?y - ?y\<bar> * of_int ?U \<le> (1 * 5 * 10 powi (- int DEFAULT_PREC)) * of_int ?U"
    using U(1) by (intro mult_right_mono) auto
  also have "\<dots> < (1 * 5 * 10 powi (- int DEFAULT_PREC)) * 10 ^ 26"
  proof -
    have "(of_int ?U :: rat) < of_int (10 ^ 26)" using U(2) by (simp only: of_int_less_iff)
    then show ?thesis by (intro mult_strict_left_mono) auto
  qed
  also have "\<dots> = 1 / 20" by (simp add: DEFAULT_PREC_def power_int_minus)
  finally have e1: "\<bar>dec_ctx DEFAULT_PREC ?y - ?y\<bar> * of_int ?U < 1 / 20" .
  have "?y - frac (value_quota x i) = ?d - value_quota x i"
    using value_floor [OF assms] by (simp add: frac_def)
  then have e2: "\<bar>?y - frac (value_quota x i)\<bar> * of_int ?U < 1 / 20"
    using value_error [OF assms] by (simp only:)
  have "\<bar>dec_ctx DEFAULT_PREC ?y - frac (value_quota x i)\<bar> * of_int ?U
      \<le> (\<bar>dec_ctx DEFAULT_PREC ?y - ?y\<bar> + \<bar>?y - frac (value_quota x i)\<bar>) * of_int ?U"
    using U(1) by (intro mult_right_mono) auto
  with e1 e2 show ?thesis unfolding rem by (simp add: algebra_simps)
qed

text \<open>The order by rounded remainders is one of falling exact remainders.\<close>

lemma value_remainder_order:
  assumes v: "value_valid x" and i: "i < length (fst x)" and j: "j < length (fst x)"
    and le: "vp_remainder (value_parts x ! j) \<le> vp_remainder (value_parts x ! i)"
  shows "frac (value_quota x j) \<le> frac (value_quota x i)"
proof (rule ccontr)
  let ?U = "sum_list (map snd (fst x))"
  have U: "0 < ?U" using value_units_bound [OF v] by simp
  have f: "frac (value_quota x k) * of_int ?U = of_int (snd x * snd (fst x ! k) mod ?U)" for k
    using frac_of_int_div [OF U] U by (simp add: value_quota_def del: of_int_mult)
  assume "\<not> frac (value_quota x j) \<le> frac (value_quota x i)"
  then have "frac (value_quota x i) * of_int ?U < frac (value_quota x j) * of_int ?U"
    using U by (intro mult_strict_right_mono) auto
  then have "snd x * snd (fst x ! i) mod ?U + 1 \<le> snd x * snd (fst x ! j) mod ?U" unfolding f by simp
  then have gap: "frac (value_quota x i) * of_int ?U + 1 \<le> frac (value_quota x j) * of_int ?U"
    unfolding f by (metis of_int_1 of_int_add of_int_le_iff)
  let ?r = "\<lambda>k. vp_remainder (value_parts x ! k)"
  have n: "\<bar>?r k * of_int ?U - frac (value_quota x k) * of_int ?U\<bar> < 1 / 5" if "k < length (fst x)" for k
  proof -
    have "\<bar>?r k - frac (value_quota x k)\<bar> * of_int ?U = \<bar>(?r k - frac (value_quota x k)) * of_int ?U\<bar>"
      using U by (simp add: abs_mult)
    then show ?thesis using value_remainder_near [OF v that] by (simp add: left_diff_distrib)
  qed
  have "?r j * of_int ?U \<le> ?r i * of_int ?U" using le U by (intro mult_right_mono) auto
  with n [OF i] n [OF j] gap show False by linarith
qed

interpretation pv: apportionment value_valid "\<lambda>x. [0..<length (fst x)]" value_quota snd "\<lambda>x. value_order (value_parts x)"
proof unfold_locales
  fix x :: value_input
  assume v: "value_valid x"
  have len: "length (value_parts x) = length (fst x)" by (simp add: value_parts_def)
  show "distinct [0..<length (fst x)]" by simp
  show "distinct (value_order (value_parts x)) \<and> set (value_order (value_parts x)) = set [0..<length (fst x)]"
    by (simp add: value_order_def len)
  have "sorted (map (\<lambda>i. (- vp_remainder (value_parts x ! i), vp_agent (value_parts x ! i))) (value_order (value_parts x)))"
    by (simp add: value_order_def)
  then show "sorted (map (\<lambda>i. - frac (value_quota x i)) (value_order (value_parts x)))"
    by (rule sorted_map_weaken) (auto simp: value_order_def len intro: value_remainder_order [OF v])
  have "map (value_quota x) [0..<length (fst x)]
      = map (\<lambda>c. of_int (snd x) / of_int (sum_list (map snd (fst x))) * of_int (snd c)) (fst x)"
    by (rule nth_equalityI) (simp_all add: value_quota_def)
  then have "sum_list (map (value_quota x) [0..<length (fst x)])
      = of_int (snd x) / of_int (sum_list (map snd (fst x))) * of_int (sum_list (map snd (fst x)))"
    by (simp only: sum_list_scaled)
  then show "sum_list (map (value_quota x) [0..<length (fst x)]) = of_int (snd x)"
    using value_units_bound [OF v] by simp
qed

lemma hand_out_cents_spec:
  assumes "distinct is" and "\<forall>i \<in> set is. i < length ps"
  shows "hand_out_cents is a t ps = map (\<lambda>j. if j \<in> set (take (nat (t - a)) is)
     then (ps ! j)\<lparr>vp_cents := vp_cents (ps ! j) + 1\<rparr> else ps ! j) [0..<length ps]"
  using assms
proof (induction "is" arbitrary: a ps)
  case Nil
  then show ?case by (simp add: map_nth)
next
  case (Cons i "is")
  show ?case
  proof (cases "t \<le> a")
    case True
    then show ?thesis by (simp add: map_nth)
  next
    case False
    then have n: "nat (t - a) = Suc (nat (t - (a + 1)))" by simp
    let ?ps = "ps[i := (ps ! i)\<lparr>vp_cents := vp_cents (ps ! i) + 1\<rparr>]"
    have "hand_out_cents (i # is) a t ps = hand_out_cents is (a + 1) t ?ps"
      using False by simp
    also have "\<dots> = map (\<lambda>j. if j \<in> set (take (nat (t - (a + 1))) is)
       then (?ps ! j)\<lparr>vp_cents := vp_cents (?ps ! j) + 1\<rparr> else ?ps ! j) [0..<length ?ps]"
      using Cons.prems by (intro Cons.IH) auto
    also have "\<dots> = map (\<lambda>j. if j \<in> set (take (nat (t - a)) (i # is))
       then (ps ! j)\<lparr>vp_cents := vp_cents (ps ! j) + 1\<rparr> else ps ! j) [0..<length ps]"
      using Cons.prems unfolding n by (auto simp: nth_list_update dest: in_set_takeD)
    finally show ?thesis .
  qed
qed

definition value_share_at :: "value_input \<Rightarrow> nat \<Rightarrow> int" where
  "value_share_at x = lr_share [0..<length (fst x)] (value_quota x) (snd x) (value_order (value_parts x))"

lemma value_parts_shares:
  assumes v: "value_valid x"
  defines "out \<equiv> hand_out_cents (value_order (value_parts x)) (sum_list (map vp_cents (value_parts x))) (snd x) (value_parts x)"
  shows "map vp_agent out = map fst (fst x) \<and> map vp_cents out = map (value_share_at x) [0..<length (fst x)]"
proof -
  let ?ps = "value_parts x" and ?n = "length (fst x)"
  have len: "length ?ps = ?n" by (simp add: value_parts_def)
  have base: "vp_cents (?ps ! i) = lr_base (value_quota x) i" if "i < ?n" for i
    using value_floor [OF v that] that
    by (simp add: value_parts_def value_part_of_def Let_def lr_base_def value_quota_def)
  have "map vp_cents ?ps = map (lr_base (value_quota x)) [0..<?n]"
    by (rule nth_equalityI) (use base len in simp_all)
  then have left: "snd x - sum_list (map vp_cents ?ps) = lr_left [0..<?n] (value_quota x) (snd x)"
    by (simp add: lr_left_def)
  have spec: "out = map (\<lambda>j. if j \<in> set (take (nat (lr_left [0..<?n] (value_quota x) (snd x))) (value_order ?ps))
     then (?ps ! j)\<lparr>vp_cents := vp_cents (?ps ! j) + 1\<rparr> else ?ps ! j) [0..<?n]"
    unfolding out_def using hand_out_cents_spec [of "value_order ?ps" ?ps] len by (simp add: left value_order_def)
  have "vp_cents (out ! i) = value_share_at x i" "vp_agent (out ! i) = fst (fst x ! i)" if "i < ?n" for i
    using that base [OF that] by (simp_all add: spec value_share_at_def lr_share_def value_parts_def value_part_of_def Let_def)
  moreover have "length out = ?n" by (simp add: spec)
  ultimately show ?thesis by (intro conjI nth_equalityI) simp_all
qed



lemma value_share_bound:
  assumes "value_valid x" and "i < length (fst x)"
  shows "\<bar>value_share_at x i\<bar> < 10 ^ DEFAULT_PREC"
proof -
  have "\<lfloor>value_quota x i\<rfloor> \<le> value_share_at x i \<and> value_share_at x i \<le> \<lceil>value_quota x i\<rceil>"
    using pv.share_quota [OF assms(1)] by (simp add: value_share_at_def)
  moreover have "\<bar>value_quota x i\<bar> \<le> of_int \<bar>snd x\<bar>" by (rule value_quota_bound [OF assms])
  then have "\<lceil>value_quota x i\<rceil> \<le> \<bar>snd x\<bar>" "- \<bar>snd x\<bar> \<le> \<lfloor>value_quota x i\<rfloor>"
    by (simp_all add: ceiling_le_iff le_floor_iff abs_le_iff)
  moreover have "\<bar>snd x\<bar> < 10 ^ 26"
  proof -
    have "(\<bar>snd x\<bar> + 1) * 1 \<le> (\<bar>snd x\<bar> + 1) * sum_list (map snd (fst x))"
      using value_units_bound [OF assms(1)] by (intro mult_left_mono) auto
    also have "\<dots> < 10 ^ 26" using assms(1) by (simp add: value_valid_def)
    finally show ?thesis by simp
  qed
  moreover have "(10 :: int) ^ 26 < 10 ^ DEFAULT_PREC" by (simp add: DEFAULT_PREC_def)
  ultimately show ?thesis by linarith
qed

text \<open>
  C28: The value of a promotion is allocated to the cent. For a value of \<open>c\<close> cents and
  distinct agents with non-negative units, not all zero, the call succeeds, the agents'
  values sum exactly to the promotion's value, and each agent's cents are the floor or the
  ceiling of its exact share by units. The 28 digits of the decimal context are enough as
  long as the cents times the units stay below \<open>10\<^sup>26\<close>.
\<close>

theorem promo_value_exact:
  assumes "value_valid (allocations, c)" and "distinct (map fst allocations)"
  shows "\<exists>cents. allocate_value_to_agents (of_int c / 100) allocations
        = Inr (zip (map fst allocations) (map (\<lambda>n. of_int n / 100) cents))
    \<and> length cents = length allocations \<and> sum_list cents = c
    \<and> list_all (\<lambda>((agent, u), n). let quota = of_int (c * u) / (of_int (sum_list (map snd allocations)) :: rat)
        in \<lfloor>quota\<rfloor> \<le> n \<and> n \<le> \<lceil>quota\<rceil>) (zip allocations cents)"
proof -
  let ?x = "(allocations, c)"
  let ?cents = "map (value_share_at ?x) [0..<length allocations]"
  let ?out = "hand_out_cents (value_order (value_parts ?x)) (sum_list (map vp_cents (value_parts ?x))) c (value_parts ?x)"
  note out = value_parts_shares [OF assms(1)]
  have c: "\<bar>c\<bar> < 10 ^ DEFAULT_PREC"
  proof -
    have "(\<bar>c\<bar> + 1) * 1 \<le> (\<bar>c\<bar> + 1) * sum_list (map snd allocations)"
      using value_units_bound [OF assms(1)] by (intro mult_left_mono) auto
    also have "\<dots> < 10 ^ 26" using assms(1) by (simp add: value_valid_def)
    finally show ?thesis by (simp add: DEFAULT_PREC_def)
  qed
  have q: "dec_quantize round_half_up 0 (dec_ctx DEFAULT_PREC (of_int c / 100 * 100)) = Inr (of_int c)"
    using c by (simp add: dec_quantize_def Let_def dec_ctx_int)
  have "map (\<lambda>p. (vp_agent p, dec_ctx DEFAULT_PREC (of_int (vp_cents p) / 100))) ?out
      = zip (map fst allocations) (map (\<lambda>n. dec_ctx DEFAULT_PREC (of_int n / 100)) ?cents)"
    by (rule map_pair_zip) (use out in \<open>auto simp: comp_def dest: arg_cong [where f = "map (\<lambda>n. dec_ctx DEFAULT_PREC (of_int n / 100))"]\<close>)
  also have "map (\<lambda>n. dec_ctx DEFAULT_PREC (of_int n / 100)) ?cents = map (\<lambda>n. of_int n / 100) ?cents"
    by (rule map_cong [OF refl], rule dec_ctx_cents) (use value_share_bound [OF assms(1)] in auto)
  finally have "allocate_value_to_agents (of_int c / 100) allocations
      = Inr (dict_of (zip (map fst allocations) (map (\<lambda>n. of_int n / 100) ?cents)))"
    using value_units_bound [OF assms(1)] q
    by (simp add: allocate_value_to_agents_def Let_def py_trunc_def value_parts_def)
  also have "dict_of (zip (map fst allocations) (map (\<lambda>n. of_int n / 100) ?cents))
      = zip (map fst allocations) (map (\<lambda>n. of_int n / 100) ?cents)"
    using assms(2) by (intro dict_of_distinct) simp
  finally have "allocate_value_to_agents (of_int c / 100) allocations
      = Inr (zip (map fst allocations) (map (\<lambda>n. of_int n / 100) ?cents))" .
  moreover have "sum_list ?cents = c"
    using pv.share_sum [OF assms(1)] by (simp add: value_share_at_def)
  moreover have "list_all (\<lambda>((agent, u), n). let quota = of_int (c * u) / (of_int (sum_list (map snd allocations)) :: rat)
        in \<lfloor>quota\<rfloor> \<le> n \<and> n \<le> \<lceil>quota\<rceil>) (zip allocations ?cents)"
    using pv.share_quota [OF assms(1)]
    by (simp add: list_all_length Let_def case_prod_unfold value_share_at_def value_quota_def del: of_int_mult)
  ultimately show ?thesis by (intro exI [of _ ?cents]) simp
qed

theorem promo_value_exact_witness:
  "\<exists>cents. allocate_value_to_agents (of_int 1000 / 100) [(''ana'', 1), (''bob'', 2)]
      = Inr (zip [''ana'', ''bob''] (map (\<lambda>n. of_int n / 100) cents)) \<and> sum_list cents = 1000"
proof -
  have "value_valid ([(''ana'', 1), (''bob'', 2)], 1000)" by code_simp
  from promo_value_exact [OF this] show ?thesis by auto
qed

end
