(* ===== verification/Campaign_Money.thy ===== *)
theory Campaign_Money
  imports Apportionment
begin

text \<open>
  Money and deterministic allocation of the Campaigns report
  (\<^verbatim>\<open>services/campaigns/money.py\<close>): a store quantity across its agents, and agents' currency
  values under the rounded total of their store. Names are ASCII, so \<^verbatim>\<open>casefold\<close> lowers letters.
\<close>

definition money :: "rat \<Rightarrow> (decimal_error, rat) result" where
  "money v = dec_quantize round_half_up 2 v"

section \<open>Integer targets\<close>

type_synonym quantities = "(string option \<times> int) list"

definition dict_get :: "('k \<times> 'v) list \<Rightarrow> 'k \<Rightarrow> 'v \<Rightarrow> 'v" where
  "dict_get d k v = (case map_of d k of None \<Rightarrow> v | Some w \<Rightarrow> w)"

text \<open>\<^verbatim>\<open>d[k] += 1\<close>\<close>

definition dict_incr :: "'k \<Rightarrow> ('k \<times> int) list \<Rightarrow> ('k \<times> int) list" where
  "dict_incr k d = map (\<lambda>(k', n). if k' = k then (k', n + 1) else (k', n)) d"

definition normalized_quantities :: "quantities \<Rightarrow> quantities" where
  "normalized_quantities quantities = map (\<lambda>(agent, q). (agent, max 0 q)) quantities"

definition target_ranked :: "quantities \<Rightarrow> int \<Rightarrow> int \<Rightarrow> string option list" where
  "target_ranked normalized target current =
     sort_key (\<lambda>agent. (- (dict_get normalized agent 0 * target mod current),
         casefold (case agent of None \<Rightarrow> [] | Some a \<Rightarrow> a))) (map fst normalized)"

definition allocate_integer_target :: "quantities \<Rightarrow> int \<Rightarrow> quantities" where
  "allocate_integer_target quantities target0 =
     (let target = max 0 target0;
          normalized = normalized_quantities quantities;
          current = sum_list (map snd normalized)
      in if current = target then normalized
         else if current < target then dict_set None (dict_get normalized None 0 + target - current) normalized
         else if target = 0 then map (\<lambda>(agent, q). (agent, 0)) normalized
         else
           let allocated = map (\<lambda>(agent, q). (agent, q * target div current)) normalized;
               remainder = target - sum_list (map snd allocated)
           in fold dict_incr (take (nat remainder) (target_ranked normalized target current)) allocated)"

type_synonym target_input = "quantities \<times> int"

definition target_valid :: "target_input \<Rightarrow> bool" where
  "target_valid x \<longleftrightarrow> distinct (map fst (fst x)) \<and> list_all (\<lambda>c. 0 \<le> snd c) (fst x)
     \<and> 0 < sum_list (map snd (fst x)) \<and> 0 \<le> snd x"

definition target_quota :: "target_input \<Rightarrow> string option \<Rightarrow> rat" where
  "target_quota x agent = of_int (dict_get (fst x) agent 0 * snd x) / of_int (sum_list (map snd (fst x)))"

lemma dict_get_mem:
  assumes "distinct (map fst d)" and "p \<in> set d"
  shows "dict_get d (fst p) v = snd p"
proof -
  have "map_of d (fst p) = Some (snd p)" using assms by (simp add: map_of_eq_Some_iff)
  then show ?thesis by (simp add: dict_get_def)
qed

interpretation it: apportionment target_valid "\<lambda>x. map fst (fst x)" target_quota snd
  "\<lambda>x. target_ranked (fst x) (snd x) (sum_list (map snd (fst x)))"
proof unfold_locales
  fix x :: target_input
  assume v: "target_valid x"
  let ?C = "sum_list (map snd (fst x))"
  let ?rank = "target_ranked (fst x) (snd x) ?C"
  have d: "distinct (map fst (fst x))" and C: "0 < ?C" using v by (simp_all add: target_valid_def)
  show "distinct (map fst (fst x))" by (rule d)
  show "distinct ?rank \<and> set ?rank = set (map fst (fst x))"
    using d by (simp add: target_ranked_def)
  have "sorted (map (\<lambda>agent. (- (dict_get (fst x) agent 0 * snd x mod ?C),
         casefold (case agent of None \<Rightarrow> [] | Some a \<Rightarrow> a))) ?rank)"
    by (simp add: target_ranked_def)
  then show "sorted (map (\<lambda>i. - frac (target_quota x i)) ?rank)"
    unfolding target_quota_def frac_of_int_div [OF C]
    by (rule sorted_map_weaken) (use C in \<open>auto intro!: divide_right_mono\<close>)
  have "map (target_quota x) (map fst (fst x)) = map (\<lambda>p. of_int (snd x) / of_int ?C * of_int (snd p)) (fst x)"
    using dict_get_mem [OF d] by (simp add: target_quota_def)
  then have "sum_list (map (target_quota x) (map fst (fst x))) = of_int (snd x) / of_int ?C * of_int ?C"
    by (simp only: sum_list_scaled)
  then show "sum_list (map (target_quota x) (map fst (fst x))) = of_int (snd x)" using C by simp
qed

lemma fold_dict_incr:
  assumes "distinct ks"
  shows "fold dict_incr ks d = map (\<lambda>(k, n). (k, n + (if k \<in> set ks then 1 else 0))) d"
  using assms
proof (induction ks arbitrary: d)
  case (Cons k ks)
  then show ?case by (auto simp: dict_incr_def)
qed (simp add: case_prod_unfold)

definition target_share_at :: "target_input \<Rightarrow> string option \<Rightarrow> int" where
  "target_share_at x = lr_share (map fst (fst x)) (target_quota x) (snd x)
     (target_ranked (fst x) (snd x) (sum_list (map snd (fst x))))"

text \<open>The last branch of the function is the largest remainder method.\<close>

lemma largest_remainder_branch:
  assumes v: "target_valid (d, t)"
  defines "allocated \<equiv> map (\<lambda>(agent, q). (agent, q * t div sum_list (map snd d))) d"
  shows "fold dict_incr (take (nat (t - sum_list (map snd allocated))) (target_ranked d t (sum_list (map snd d)))) allocated
    = map (\<lambda>(agent, q). (agent, target_share_at (d, t) agent)) d"
proof -
  let ?C = "sum_list (map snd d)"
  have dist: "distinct (map fst d)" using v by (simp add: target_valid_def)
  have base: "snd p * t div ?C = lr_base (target_quota (d, t)) (fst p)" if p: "p \<in> set d" for p
  proof -
    have "dict_get d (fst p) 0 = snd p" by (rule dict_get_mem [OF dist p])
    then show ?thesis by (simp add: lr_base_def target_quota_def floor_divide_of_int_eq del: of_int_mult)
  qed
  have "map snd allocated = map (lr_base (target_quota (d, t))) (map fst d)"
    using base by (auto simp: allocated_def case_prod_unfold)
  then have left: "t - sum_list (map snd allocated) = lr_left (map fst d) (target_quota (d, t)) t"
    by (simp add: lr_left_def)
  have "distinct (take (nat (lr_left (map fst d) (target_quota (d, t)) t)) (target_ranked d t ?C))"
    using it.rank_perm [OF v] by (intro distinct_take) simp
  then show ?thesis
    unfolding left using base by (auto simp: fold_dict_incr allocated_def target_share_at_def lr_share_def)
qed

lemma sum_dict_set_new:
  assumes "distinct (map fst d)"
  shows "sum_list (map snd (dict_set k (dict_get d k 0 + n) d)) = sum_list (map snd d) + (n :: int)"
  using assms
proof (induction d)
  case Nil
  then show ?case by (simp add: dict_set_def dict_get_def)
next
  case (Cons p d)
  have absent: "map (\<lambda>(k', v'). if k' = fst p then (fst p, w) else (k', v')) d = d" for w
  proof (rule map_idI)
    fix x assume "x \<in> set d"
    then have "fst x \<in> fst ` set d" by (rule imageI)
    moreover have "fst p \<notin> fst ` set d" using Cons.prems by simp
    ultimately have "fst x \<noteq> fst p" by metis
    then show "(case x of (k', v') \<Rightarrow> if k' = fst p then (fst p, w) else (k', v')) = x" by (cases x) auto
  qed
  show ?case
  proof (cases "k = fst p")
    case True
    then have "dict_set k (dict_get (p # d) k 0 + n) (p # d) = (fst p, snd p + n) # d"
      using absent [of "snd p + n"] by (cases p) (simp add: dict_set_def dict_get_def cong: if_cong)
    then show ?thesis by simp
  next
    case False
    then have "dict_set k (dict_get (p # d) k 0 + n) (p # d) = p # dict_set k (dict_get d k 0 + n) d"
      by (cases p) (auto simp: dict_set_def dict_get_def)
    with Cons show ?thesis by simp
  qed
qed

lemma quota_le_quantity:
  assumes "0 \<le> t" and "t \<le> c" and "0 < c" and "0 \<le> (q :: int)"
  shows "\<lceil>of_int (q * t) / of_int c :: rat\<rceil> \<le> q"
proof -
  have "q * t \<le> q * c" using assms by (intro mult_left_mono) auto
  then have "(of_int (q * t) :: rat) \<le> of_int (q * c)" by (simp only: of_int_le_iff)
  then show ?thesis using assms(3) by (simp add: ceiling_le_iff divide_le_eq)
qed

lemma normalized_quantities_facts:
  "map fst (normalized_quantities d) = map fst d" "list_all (\<lambda>c. 0 \<le> snd c) (normalized_quantities d)"
  by (auto simp: normalized_quantities_def list_all_iff comp_def case_prod_unfold)

lemma zero_sum_members:
  fixes d :: quantities
  assumes "list_all (\<lambda>c. 0 \<le> snd c) d" and "sum_list (map snd d) = 0" and "p \<in> set d"
  shows "snd p = 0"
  using assms sum_list_nonneg_eq_0_iff [of "map snd d"] by (auto simp: list_all_iff)

text \<open>
  A store quantity is allocated across its agent rows exactly: for every target, the
  quantities of the result sum to it (to zero for a negative one). Below the current total,
  every row keeps its agent and gets the floor or the ceiling of its proportional quota, never
  more than it had; above it, the rows are kept and the surplus goes to the unnamed row.
\<close>

theorem integer_target_exact:
  assumes "distinct (map fst quantities)"
  shows "let d = normalized_quantities quantities; current = sum_list (map snd d); target = max 0 target0;
      result = allocate_integer_target quantities target0
    in sum_list (map snd result) = target
     \<and> (if current < target then result = dict_set None (dict_get d None 0 + target - current) d
        else list_all2 (\<lambda>(agent, q) (agent', n). agent' = agent
            \<and> \<lfloor>of_int (q * target) / of_int current :: rat\<rfloor> \<le> n
            \<and> n \<le> \<lceil>of_int (q * target) / of_int current :: rat\<rceil> \<and> n \<le> q) d result)"
proof -
  define d where "d = normalized_quantities quantities"
  define c where "c = sum_list (map snd d)"
  define t where "t = max 0 target0"
  have d: "distinct (map fst d)" "list_all (\<lambda>p. 0 \<le> snd p) d"
    using assms normalized_quantities_facts by (simp_all add: d_def)
  have t: "0 \<le> t" by (simp add: t_def)
  have c: "0 \<le> c" unfolding c_def by (rule sum_list_nonneg) (use d(2) in \<open>auto simp: list_all_iff\<close>)
  note names = Let_def d_def [symmetric] c_def [symmetric] t_def [symmetric]
  note unf = allocate_integer_target_def names
  consider "c = t" | "c < t" | "t < c" "t = 0" | "t < c" "t \<noteq> 0" by linarith
  then show ?thesis
  proof cases
    case 1
    have "snd p = 0" if "c = 0" "p \<in> set d" for p
      using zero_sum_members [OF d(2)] that by (simp add: c_def)
    with 1 c show ?thesis
      by (cases "c = 0") (auto simp: unf c_def [symmetric] list_all2_same intro: order_eq_refl)
  next
    case 2
    then show ?thesis using sum_dict_set_new [OF d(1), of None "t - c"] by (simp add: unf add_diff_eq)
  next
    case 3
    then show ?thesis
      using d(2) by (auto simp: unf list_all2_conv_all_nth list_all_length case_prod_unfold comp_def)
  next
    case 4
    then have v: "target_valid (d, t)" using d t by (simp add: target_valid_def c_def)
    have res: "allocate_integer_target quantities target0 = map (\<lambda>(agent, q). (agent, target_share_at (d, t) agent)) d"
      using 4 largest_remainder_branch [OF v] by (simp add: unf)
    have "map snd (map (\<lambda>(agent, q). (agent, target_share_at (d, t) agent)) d) = map (target_share_at (d, t)) (map fst d)"
      by (simp add: case_prod_unfold)
    then have "sum_list (map snd (map (\<lambda>(agent, q). (agent, target_share_at (d, t) agent)) d)) = t"
      using it.share_sum [OF v] by (simp only: target_share_at_def fst_conv snd_conv)
    moreover have "\<lfloor>of_int (snd p * t) / of_int c :: rat\<rfloor> \<le> target_share_at (d, t) (fst p)
        \<and> target_share_at (d, t) (fst p) \<le> \<lceil>of_int (snd p * t) / of_int c :: rat\<rceil>
        \<and> target_share_at (d, t) (fst p) \<le> snd p" if p: "p \<in> set d" for p
    proof -
      have "target_quota (d, t) (fst p) = of_int (snd p * t) / of_int c"
        using dict_get_mem [OF d(1) p] by (simp add: target_quota_def c_def)
      moreover have "\<lceil>of_int (snd p * t) / of_int c :: rat\<rceil> \<le> snd p"
        using 4 t d(2) p by (intro quota_le_quantity) (auto simp: list_all_iff)
      ultimately show ?thesis using it.share_quota [OF v, of "fst p"] by (simp add: target_share_at_def)
    qed
    ultimately show ?thesis
      using 4 unfolding res names by (simp add: list_all2_conv_all_nth case_prod_unfold del: of_int_mult)
  qed
qed

theorem integer_target_exact_witness:
  "sum_list (map snd (allocate_integer_target [(Some ''ana'', 5), (None, 2), (Some ''bob'', 4)] 7)) = 7"
proof -
  have "distinct (map fst [(Some ''ana'', 5 :: int), (None, 2), (Some ''bob'', 4)])" by simp
  from integer_target_exact [OF this, of 7] show ?thesis by (simp add: Let_def)
qed

section \<open>Currency targets\<close>

type_synonym currency_key = "string \<times> string"

definition group_add :: "currency_key \<Rightarrow> (string \<times> currency_key list) list \<Rightarrow> (string \<times> currency_key list) list" where
  "group_add k by_store = dict_set (fst k) (dict_get by_store (fst k) [] @ [k]) by_store"

definition group_by_store :: "currency_key list \<Rightarrow> (string \<times> currency_key list) list" where
  "group_by_store ks = fold group_add ks []"

text \<open>The two inner loops. The cents of the store's keys are a function of the key.\<close>

fun up_pass :: "currency_key list \<Rightarrow> int \<Rightarrow> (currency_key \<Rightarrow> int) \<Rightarrow> (currency_key \<Rightarrow> int) \<times> int" where
  "up_pass [] remainder cents = (cents, remainder)"
| "up_pass (k # ks) remainder cents =
     (if remainder = 0 then (cents, remainder) else up_pass ks (remainder - 1) (cents(k := cents k + 1)))"

fun down_pass :: "currency_key list \<Rightarrow> int \<Rightarrow> (currency_key \<Rightarrow> int) \<Rightarrow> bool \<Rightarrow> (currency_key \<Rightarrow> int) \<times> int \<times> bool" where
  "down_pass [] remainder cents progressed = (cents, remainder, progressed)"
| "down_pass (k # ks) remainder cents progressed =
     (if remainder = 0 then (cents, remainder, progressed)
      else if 0 < cents k then down_pass ks (remainder + 1) (cents(k := cents k - 1)) True
      else down_pass ks remainder cents progressed)"

lemma up_pass_remainder:
  "0 \<le> r \<Longrightarrow> 0 \<le> snd (up_pass ks r c) \<and> snd (up_pass ks r c) \<le> r \<and> (0 < r \<and> ks \<noteq> [] \<longrightarrow> snd (up_pass ks r c) < r)"
proof (induction ks arbitrary: r c)
  case (Cons k ks)
  then show ?case
    using Cons.IH [of "r - 1" "c(k := c k + 1)"] by (auto simp del: fun_upd_apply)
qed simp

lemma down_pass_remainder:
  "r \<le> 0 \<Longrightarrow> (case down_pass ks r c p of (c', r', p') \<Rightarrow> r \<le> r' \<and> r' \<le> 0 \<and> (p' \<and> \<not> p \<longrightarrow> r < r'))"
proof (induction ks r c p rule: down_pass.induct)
  case (2 k ks r c p)
  then show ?case by (auto simp del: fun_upd_apply split: prod.splits)
qed simp

function up_loop :: "currency_key list \<Rightarrow> int \<Rightarrow> (currency_key \<Rightarrow> int) \<Rightarrow> (currency_key \<Rightarrow> int) \<times> int" where
  "up_loop ranked remainder cents =
     (if 0 < remainder \<and> ranked \<noteq> []
      then let (cents', remainder') = up_pass ranked remainder cents in up_loop ranked remainder' cents'
      else (cents, remainder))"
  by pat_completeness auto
termination
proof (relation "measure (\<lambda>(ks, r, c). nat r)", goal_cases)
  case (2 ks r c p x y)
  then show ?case using up_pass_remainder [of r ks c] by (cases "up_pass ks r c") auto
qed simp

function down_loop :: "currency_key list \<Rightarrow> int \<Rightarrow> (currency_key \<Rightarrow> int) \<Rightarrow> (currency_key \<Rightarrow> int) \<times> int" where
  "down_loop ranked remainder cents =
     (if remainder < 0 \<and> ranked \<noteq> []
      then let (cents', remainder', progressed) = down_pass ranked remainder cents False
           in if progressed then down_loop ranked remainder' cents' else (cents', remainder')
      else (cents, remainder))"
  by pat_completeness auto
termination
proof (relation "measure (\<lambda>(ks, r, c). nat (- r))", goal_cases)
  case (2 ks r c x xa y xb ya)
  then show ?case using down_pass_remainder [where ks = ks and r = r and c = c and p = False] by auto
qed simp

declare up_loop.simps [simp del] down_loop.simps [simp del]

definition raw_cents :: "((currency_key \<times> rat) list) \<Rightarrow> currency_key \<Rightarrow> rat" where
  "raw_cents values k = dec_ctx DEFAULT_PREC (max 0 (dict_get values k 0) * 100)"

definition target_cents :: "(string \<times> rat) list \<Rightarrow> string \<Rightarrow> int" where
  "target_cents store_targets site =
     py_trunc (of_int (round_half_even (dec_ctx DEFAULT_PREC (max 0 (dict_get store_targets site 0) * 100))))"

definition store_cents :: "(currency_key \<times> rat) list \<Rightarrow> int \<Rightarrow> currency_key list \<Rightarrow> currency_key \<Rightarrow> int" where
  "store_cents values target ordered =
     (let cents = (\<lambda>k. py_trunc (raw_cents values k));
          remainder = target - sum_list (map cents ordered);
          ranked_up = sort_key (\<lambda>k. (- dec_ctx DEFAULT_PREC (raw_cents values k - of_int (cents k)), casefold (snd k))) ordered;
          (cents1, remainder1) = up_loop ranked_up remainder cents
      in fst (down_loop (rev ranked_up) remainder1 cents1))"

fun store_values :: "(currency_key \<Rightarrow> int) \<Rightarrow> currency_key list \<Rightarrow> (currency_key \<times> rat) list
    \<Rightarrow> (decimal_error, (currency_key \<times> rat) list) result" where
  "store_values cents [] allocated = Inr allocated"
| "store_values cents (k # ks) allocated =
     res_bind (dec_quantize round_half_even 2 (dec_ctx DEFAULT_PREC (of_int (cents k) / 100))) (\<lambda>v.
       store_values cents ks (dict_set k v allocated))"

fun allocate_stores :: "(currency_key \<times> rat) list \<Rightarrow> (string \<times> rat) list \<Rightarrow> (string \<times> currency_key list) list
    \<Rightarrow> (currency_key \<times> rat) list \<Rightarrow> (decimal_error, (currency_key \<times> rat) list) result" where
  "allocate_stores values store_targets [] allocated = Inr allocated"
| "allocate_stores values store_targets ((site, ks) # rest) allocated =
     (let ordered = sort_key (\<lambda>k. casefold (snd k)) ks;
          cents = store_cents values (target_cents store_targets site) ordered
      in res_bind (store_values cents ordered allocated) (allocate_stores values store_targets rest))"

definition allocate_currency_targets ::
  "(currency_key \<times> rat) list \<Rightarrow> (string \<times> rat) list \<Rightarrow> (decimal_error, (currency_key \<times> rat) list) result" where
  "allocate_currency_targets values store_targets =
     allocate_stores values store_targets (group_by_store (map fst values)) []"

section \<open>The loops keep the total\<close>

lemma sum_fun_upd_shift:
  fixes c :: "'a \<Rightarrow> int"
  assumes "finite A" and "k \<in> A"
  shows "sum (c(k := c k + n)) A = sum c A + n"
proof -
  have "sum (c(k := c k + n)) A = (c k + n) + sum c (A - {k})"
    using assms by (simp add: sum.remove [of A k])
  also have "\<dots> = sum c A + n" using assms by (simp add: sum.remove [of A k])
  finally show ?thesis .
qed

lemma up_pass_total:
  assumes "finite A" and "set ks \<subseteq> A"
  shows "sum (fst (up_pass ks r c)) A + snd (up_pass ks r c) = sum c A + r"
  using assms(2)
proof (induction ks arbitrary: r c)
  case (Cons k ks)
  have "sum (c(k := c k + 1)) A = sum c A + 1" using assms(1) Cons.prems by (intro sum_fun_upd_shift) auto
  then show ?case using Cons.IH [of "r - 1" "c(k := c k + 1)"] Cons.prems by (simp del: fun_upd_apply)
qed simp

lemma up_pass_grows: "c x \<le> fst (up_pass ks r c) x"
proof (induction ks arbitrary: r c)
  case (Cons k ks)
  have "c x \<le> (c(k := c k + 1)) x" by simp
  with Cons.IH [of "c(k := c k + 1)" "r - 1"] show ?case by (simp del: fun_upd_apply)
qed simp

lemma down_pass_total:
  assumes "finite A" and "set ks \<subseteq> A" and "down_pass ks r c p = (c', r', p')"
  shows "sum c' A + r' = sum c A + r"
  using assms(2,3)
proof (induction ks arbitrary: r c p)
  case (Cons k ks)
  have "sum (c(k := c k - 1)) A = sum c A - 1"
    using sum_fun_upd_shift [OF assms(1), of k c "- 1"] Cons.prems by simp
  then show ?case
    using Cons.IH [of "r + 1" "c(k := c k - 1)" True] Cons.IH [of r c p] Cons.prems
    by (auto simp del: fun_upd_apply split: if_splits)
qed simp

lemma down_pass_nonneg:
  assumes "\<forall>x. 0 \<le> c x" and "down_pass ks r c p = (c', r', p')"
  shows "\<forall>x. 0 \<le> c' x"
  using assms
proof (induction ks arbitrary: r c p)
  case (Cons k ks)
  have "0 < c k \<Longrightarrow> \<forall>x. 0 \<le> (c(k := c k - 1)) x" using Cons.prems(1) by simp
  then show ?case
    using Cons.IH [of "c(k := c k - 1)" "r + 1" True] Cons.IH [of c r p] Cons.prems
    by (simp del: fun_upd_apply split: if_splits)
qed simp

lemma down_pass_stuck:
  assumes "down_pass ks r c p = (c', r', False)" and "r < 0"
  shows "\<not> p \<and> c' = c \<and> r' = r \<and> (\<forall>k \<in> set ks. c k \<le> 0)"
  using assms
proof (induction ks arbitrary: r c p)
  case (Cons k ks)
  show ?case
  proof (cases "0 < c k")
    case True
    then have step: "down_pass ks (r + 1) (c(k := c k - 1)) True = (c', r', False)" using Cons.prems by simp
    show ?thesis
    proof (cases "r + 1 < 0")
      case True
      from Cons.IH [OF step this] show ?thesis by simp
    next
      case False
      then have "down_pass ks (r + 1) (c(k := c k - 1)) True = (c(k := c k - 1), r + 1, True)"
        using Cons.prems(2) by (cases ks) auto
      with step show ?thesis by simp
    qed
  next
    case False
    then have "down_pass ks r c p = (c', r', False)" using Cons.prems by simp
    from Cons.IH [OF this Cons.prems(2)] False show ?thesis by auto
  qed
qed simp

lemma up_loop_spec:
  assumes "ranked \<noteq> []" and "0 \<le> r"
  shows "snd (up_loop ranked r c) = 0 \<and> sum (fst (up_loop ranked r c)) (set ranked) = sum c (set ranked) + r
    \<and> (\<forall>x. c x \<le> fst (up_loop ranked r c) x)"
  using assms
proof (induction ranked r c rule: up_loop.induct)
  case (1 ranked r c)
  show ?case
  proof (cases "0 < r")
    case True
    obtain c' r' where p: "up_pass ranked r c = (c', r')" by fastforce
    have r': "0 \<le> r'" using up_pass_remainder [of r ranked c] True p by simp
    have t: "sum c' (set ranked) + r' = sum c (set ranked) + r"
      using up_pass_total [of "set ranked" ranked r c] p by simp
    have g: "c x \<le> c' x" for x using up_pass_grows [of c x ranked r] p by simp
    have eq: "up_loop ranked r c = up_loop ranked r' c'"
      using True "1.prems"(1) p by (subst up_loop.simps) simp
    from "1.IH" [of "(c', r')" c' r'] True "1.prems"(1) p r' have
      "snd (up_loop ranked r' c') = 0 \<and> sum (fst (up_loop ranked r' c')) (set ranked) = sum c' (set ranked) + r'
        \<and> (\<forall>x. c' x \<le> fst (up_loop ranked r' c') x)" by simp
    with eq t g show ?thesis by (metis order_trans)
  next
    case False
    then show ?thesis using "1.prems" by (subst (1 2 3) up_loop.simps) simp
  qed
qed

lemma down_loop_spec:
  assumes "\<forall>x. 0 \<le> c x" and "r \<le> 0" and "0 \<le> sum c (set ranked) + r"
  shows "sum (fst (down_loop ranked r c)) (set ranked) = sum c (set ranked) + r \<and> (\<forall>x. 0 \<le> fst (down_loop ranked r c) x)"
  using assms
proof (induction ranked r c rule: down_loop.induct)
  case (1 ranked r c)
  show ?case
  proof (cases "r < 0 \<and> ranked \<noteq> []")
    case True
    obtain c' r' p where d: "down_pass ranked r c False = (c', r', p)" by (metis prod_cases3)
    have t: "sum c' (set ranked) + r' = sum c (set ranked) + r"
      by (rule down_pass_total [OF _ _ d]) simp_all
    have nn: "\<forall>x. 0 \<le> c' x" by (rule down_pass_nonneg [OF "1.prems"(1) d])
    have r': "r' \<le> 0" using down_pass_remainder [where ks = ranked and r = r and c = c and p = False] True d by simp
    show ?thesis
    proof (cases p)
      case p: True
      have eq: "down_loop ranked r c = down_loop ranked r' c'"
        using True d p by (subst down_loop.simps) simp
      from "1.IH" [of "(c', r', p)" c' "(r', p)" r' p] True d p nn r' t "1.prems"(3) show ?thesis
        unfolding eq by simp
    next
      case False
      then have "c' = c \<and> r' = r \<and> (\<forall>k \<in> set ranked. c k \<le> 0)" using down_pass_stuck [of ranked r c False c' r'] d True by simp
      then have "sum c (set ranked) \<le> 0" by (intro sum_nonpos) simp
      with True "1.prems"(3) show ?thesis by simp
    qed
  next
    case False
    then have "down_loop ranked r c = (c, r)" by (subst down_loop.simps) auto
    moreover have "r = 0"
      using False "1.prems"(2,3) by (cases "ranked = []") auto
    ultimately show ?thesis using "1.prems" by simp
  qed
qed

lemma store_cents_exact:
  assumes "distinct ordered" and "ordered \<noteq> []" and "0 \<le> target"
  shows "sum_list (map (store_cents values target ordered) ordered) = target
    \<and> (\<forall>k. 0 \<le> store_cents values target ordered k)"
proof -
  let ?c = "\<lambda>k. py_trunc (raw_cents values k)"
  let ?r = "target - sum_list (map ?c ordered)"
  define ranked where "ranked = sort_key (\<lambda>k. (- dec_ctx DEFAULT_PREC (raw_cents values k - of_int (?c k)), casefold (snd k))) ordered"
  have set1: "set ranked = set ordered" by (simp add: ranked_def)
  then have set: "set ranked = set ordered" "ranked \<noteq> []" using assms(2) by auto
  have c: "0 \<le> ?c k" for k by (intro py_trunc_nonneg) (simp add: raw_cents_def dec_ctx_nonneg)
  have sum: "sum_list (map f ordered) = sum f (set ordered)" for f :: "currency_key \<Rightarrow> int"
    by (rule sum_list_distinct_conv_sum_set [OF assms(1)])
  obtain c1 r1 where u: "up_loop ranked ?r ?c = (c1, r1)" by fastforce
  have inv: "sum c1 (set ranked) + r1 = target \<and> r1 \<le> 0 \<and> (\<forall>x. 0 \<le> c1 x)"
  proof (cases "0 \<le> ?r")
    case True
    have "r1 = 0" "sum c1 (set ranked) = sum ?c (set ranked) + ?r" "\<forall>x. ?c x \<le> c1 x"
      using up_loop_spec [OF set(2) True, of ?c] u by simp_all
    moreover have "0 \<le> c1 x" for x using \<open>\<forall>x. ?c x \<le> c1 x\<close> c [of x] order_trans by blast
    ultimately show ?thesis by (simp add: set(1) sum)
  next
    case False
    then have "up_loop ranked ?r ?c = (?c, ?r)" by (subst up_loop.simps) simp
    with u c False show ?thesis by (auto simp: set(1) sum)
  qed
  have "store_cents values target ordered = fst (down_loop (rev ranked) r1 c1)"
    unfolding store_cents_def Let_def ranked_def [symmetric] u by simp
  moreover have "sum (fst (down_loop (rev ranked) r1 c1)) (set ranked) = target
      \<and> (\<forall>x. 0 \<le> fst (down_loop (rev ranked) r1 c1) x)"
    using down_loop_spec [of c1 r1 "rev ranked"] inv assms(3) by simp
  ultimately show ?thesis by (simp add: sum set(1))
qed

section \<open>Every store gets its rounded total\<close>

definition group_ok :: "currency_key list \<Rightarrow> (string \<times> currency_key list) list \<Rightarrow> bool" where
  "group_ok ks g \<longleftrightarrow> distinct (map fst g) \<and> set (map fst g) = set (map fst ks)
     \<and> (\<forall>p \<in> set g. snd p = filter (\<lambda>k. fst k = fst p) ks)"

lemma group_add_ok:
  assumes "group_ok ks g"
  shows "group_ok (ks @ [k]) (group_add k g)"
proof -
  have g: "distinct (map fst g)" "set (map fst g) = set (map fst ks)"
    and members: "\<And>p. p \<in> set g \<Longrightarrow> snd p = filter (\<lambda>k. fst k = fst p) ks"
    using assms by (auto simp: group_ok_def)
  have get: "dict_get g (fst k) [] = filter (\<lambda>x. fst x = fst k) ks"
  proof (cases "fst k \<in> set (map fst g)")
    case True
    then obtain p where p: "p \<in> set g" "fst p = fst k" by auto
    from dict_get_mem [OF g(1) p(1), of "[]"] members [OF p(1)] p(2) show ?thesis by simp
  next
    case False
    then have "fst k \<notin> fst ` set ks" using g(2) by simp
    moreover have "map_of g (fst k) = None" using False by (simp add: map_of_eq_None_iff)
    moreover have "filter (\<lambda>x. fst x = fst k) ks = []"
    proof (rule filter_False, intro ballI notI)
      fix x assume "x \<in> set ks" "fst x = fst k"
      then have "fst k \<in> fst ` set ks" by (intro image_eqI [of _ _ x]) simp_all
      with \<open>fst k \<notin> fst ` set ks\<close> show False ..
    qed
    ultimately show ?thesis by (simp add: dict_get_def)
  qed
  have "snd p = filter (\<lambda>x. fst x = fst p) (ks @ [k])" if "p \<in> set (group_add k g)" for p
    using mem_dict_set [OF that [unfolded group_add_def]] get members [of p] by auto
  moreover have "distinct (map fst (group_add k g))" "set (map fst (group_add k g)) = set (map fst (ks @ [k]))"
    using dict_set_keys [OF g(1), of "fst k" "dict_get g (fst k) [] @ [k]"] g(2) by (auto simp: group_add_def)
  ultimately show ?thesis by (simp add: group_ok_def)
qed

lemma group_by_store_ok: "group_ok ks (group_by_store ks)"
proof (induction ks rule: rev_induct)
  case Nil
  then show ?case by (simp add: group_ok_def group_by_store_def)
next
  case (snoc k ks)
  then show ?case using group_add_ok by (simp add: group_by_store_def)
qed

lemma dict_set_new: "k \<notin> fst ` set d \<Longrightarrow> dict_set k v d = d @ [(k, v)]"
  by (simp add: dict_set_def)

lemma store_values_ok:
  assumes "\<And>k. k \<in> set ks \<Longrightarrow> \<bar>cents k\<bar> < 10 ^ DEFAULT_PREC" and "distinct ks" and "set ks \<inter> fst ` set acc = {}"
  shows "store_values cents ks acc = Inr (acc @ map (\<lambda>k. (k, of_int (cents k) / 100)) ks)"
  using assms
proof (induction ks arbitrary: acc)
  case (Cons k ks)
  have k: "\<bar>cents k\<bar> < 10 ^ DEFAULT_PREC" "k \<notin> fst ` set acc" using Cons.prems by auto
  have "dec_quantize round_half_even 2 (dec_ctx DEFAULT_PREC (of_int (cents k) / 100)) = Inr (of_int (cents k) / 100)"
    using k(1) by (simp add: dec_ctx_cents dec_quantize_def Let_def)
  moreover have "store_values cents ks (acc @ [(k, of_int (cents k) / 100)])
      = Inr ((acc @ [(k, of_int (cents k) / 100)]) @ map (\<lambda>k. (k, of_int (cents k) / 100)) ks)"
    using Cons.prems by (intro Cons.IH) auto
  ultimately show ?case using k(2) by (simp add: dict_set_new)
qed simp

text \<open>The rows of one store in the result.\<close>

definition store_rows :: "(currency_key \<times> rat) list \<Rightarrow> (string \<times> rat) list \<Rightarrow> string \<times> currency_key list \<Rightarrow> (currency_key \<times> rat) list" where
  "store_rows values store_targets p =
     (let ordered = sort_key (\<lambda>k. casefold (snd k)) (snd p);
          cents = store_cents values (target_cents store_targets (fst p)) ordered
      in map (\<lambda>k. (k, of_int (cents k) / 100)) ordered)"

lemma target_cents_nonneg: "0 \<le> target_cents store_targets site"
  unfolding target_cents_def by (simp add: round_half_even_nonneg dec_ctx_nonneg)

lemma store_rows_facts:
  assumes "distinct (snd p)" and "snd p \<noteq> []"
  shows "set (map fst (store_rows values ts p)) = set (snd p)" and "distinct (map fst (store_rows values ts p))"
    and "\<forall>q \<in> set (store_rows values ts p). 0 \<le> snd q"
    and "sum_list (map snd (store_rows values ts p)) = of_int (target_cents ts (fst p)) / 100"
proof -
  let ?o = "sort_key (\<lambda>k. casefold (snd k)) (snd p)"
  have "length ?o = length (snd p)" by simp
  then have ord: "distinct ?o" "?o \<noteq> []" using assms by fastforce+
  note s = store_cents_exact [OF ord target_cents_nonneg, of "values" ts "fst p"]
  show "set (map fst (store_rows values ts p)) = set (snd p)" "distinct (map fst (store_rows values ts p))"
    using assms by (simp_all add: store_rows_def Let_def comp_def)
  show "\<forall>q \<in> set (store_rows values ts p). 0 \<le> snd q"
    using s by (auto simp: store_rows_def Let_def)
  show "sum_list (map snd (store_rows values ts p)) = of_int (target_cents ts (fst p)) / 100"
    using s by (simp add: store_rows_def Let_def comp_def sum_scaled_cents)
qed

definition stores_disjoint :: "(string \<times> currency_key list) list \<Rightarrow> bool" where
  "stores_disjoint g \<longleftrightarrow> distinct (concat (map snd g)) \<and> (\<forall>p \<in> set g. snd p \<noteq> [])"

lemma allocate_stores_ok:
  assumes "stores_disjoint g" and "\<forall>p \<in> set g. target_cents ts (fst p) < 10 ^ DEFAULT_PREC"
    and "set (concat (map snd g)) \<inter> fst ` set acc = {}"
  shows "allocate_stores values ts g acc = Inr (acc @ concat (map (store_rows values ts) g))"
  using assms
proof (induction g arbitrary: acc)
  case (Cons p g)
  obtain site ks where p: "p = (site, ks)" by fastforce
  let ?o = "sort_key (\<lambda>k. casefold (snd k)) ks"
  let ?c = "store_cents values (target_cents ts site) ?o"
  have ks: "distinct ks" "ks \<noteq> []" "set ks \<inter> fst ` set acc = {}"
    and rest: "stores_disjoint g" "set ks \<inter> set (concat (map snd g)) = {}"
    using Cons.prems by (auto simp: stores_disjoint_def p)
  have "length ?o = length ks" by simp
  then have ord: "distinct ?o" "?o \<noteq> []" using ks by fastforce+
  note s = store_cents_exact [OF ord target_cents_nonneg, of "values" ts site]
  have bound: "\<bar>?c k\<bar> < 10 ^ DEFAULT_PREC" if "k \<in> set ?o" for k
  proof -
    have "?c k \<le> sum_list (map ?c ?o)" using that s by (intro member_le_sum_list) auto
    moreover have "0 \<le> ?c k" using s by blast
    moreover have "target_cents ts site < 10 ^ DEFAULT_PREC" using Cons.prems(2) by (simp add: p)
    ultimately show ?thesis using s by linarith
  qed
  have rows: "store_rows values ts p = map (\<lambda>k. (k, of_int (?c k) / 100)) ?o" by (simp add: store_rows_def Let_def p)
  have "store_values ?c ?o acc = Inr (acc @ store_rows values ts p)"
    unfolding rows using ks bound by (intro store_values_ok) auto
  moreover have "fst ` set (store_rows values ts p) = set ks"
    using store_rows_facts(1) [of p "values" ts] ks by (simp add: p)
  then have "allocate_stores values ts g (acc @ store_rows values ts p)
      = Inr ((acc @ store_rows values ts p) @ concat (map (store_rows values ts) g))"
    using Cons.prems rest by (intro Cons.IH) (auto simp: image_Un)
  ultimately show ?case by (simp add: p Let_def)
qed simp

lemma group_stores_disjoint:
  assumes "group_ok ks g" and "distinct ks"
  shows "stores_disjoint g \<and> set (concat (map snd g)) = set ks"
proof -
  have g: "distinct (map fst g)" "set (map fst g) = set (map fst ks)"
    and members: "\<And>p. p \<in> set g \<Longrightarrow> snd p = filter (\<lambda>k. fst k = fst p) ks"
    using assms(1) by (auto simp: group_ok_def)
  have "distinct (concat (map snd h))" if "distinct (map fst h)" "set h \<subseteq> set g" for h
    using that
  proof (induction h)
    case (Cons p h)
    have "set (snd p) \<inter> set (concat (map snd h)) = {}"
    proof (rule ccontr)
      assume "set (snd p) \<inter> set (concat (map snd h)) \<noteq> {}"
      then obtain x q where x: "x \<in> set (snd p)" "q \<in> set h" "x \<in> set (snd q)" by auto
      with Cons.prems members [of p] members [of q] have "fst p = fst q" by auto
      with x(2) Cons.prems(1) show False by auto
    qed
    moreover have "distinct (snd p)" using members [of p] Cons.prems assms(2) by simp
    ultimately show ?case using Cons by auto
  qed simp
  then have "distinct (concat (map snd g))" using g(1) by blast
  moreover have "snd p \<noteq> []" if p: "p \<in> set g" for p
  proof -
    have "fst p \<in> set (map fst ks)" using p g(2) by (metis image_eqI set_map)
    then obtain k where "k \<in> set ks" "fst k = fst p" by auto
    then have "k \<in> set (snd p)" using members [OF p] by simp
    then show ?thesis by auto
  qed
  moreover have "x \<in> set (concat (map snd g))" if x: "x \<in> set ks" for x
  proof -
    have "fst x \<in> set (map fst g)" using x g(2) by simp
    then obtain p where p: "p \<in> set g" "fst p = fst x" by auto
    then have "x \<in> set (snd p)" using members [of p] x by simp
    with p(1) show ?thesis by force
  qed
  moreover have "x \<in> set ks" if "x \<in> set (concat (map snd g))" for x using that members by auto
  ultimately have "set (concat (map snd g)) = set ks" "\<forall>p \<in> set g. snd p \<noteq> []" by blast+
  with \<open>distinct (concat (map snd g))\<close> show ?thesis unfolding stores_disjoint_def by blast
qed

lemma store_rows_site:
  assumes "group_ok ks g" and "p \<in> set g" and "q \<in> set (store_rows values ts p)"
  shows "fst (fst q) = fst p"
proof -
  have "fst q \<in> set (snd p)" using assms(3) by (auto simp: store_rows_def Let_def)
  then show ?thesis using assms(1,2) by (auto simp: group_ok_def)
qed

lemma concat_only:
  assumes "distinct (map fst h)" and "r \<in> set h"
  shows "concat (map (\<lambda>p. if fst p = fst r then f p else []) h) = f r"
  using assms
proof (induction h)
  case (Cons x h)
  have x: "fst p \<noteq> fst x" if "p \<in> set h" for p
  proof
    assume "fst p = fst x"
    with that have "fst x \<in> fst ` set h" by (intro image_eqI [of _ _ p]) simp_all
    with Cons.prems(1) show False by simp
  qed
  show ?case
  proof (cases "x = r")
    case True
    with x have "map (\<lambda>p. if fst p = fst r then f p else []) h = map (\<lambda>p. []) h" by simp
    then have "concat (map (\<lambda>p. if fst p = fst r then f p else []) h) = []" by (simp only: concat_eq_Nil_conv) simp
    with True show ?thesis by simp
  next
    case False
    with Cons.prems(2) have "r \<in> set h" by simp
    with x [of r] Cons show ?thesis by simp
  qed
qed simp

lemma concat_rows_keys:
  assumes "stores_disjoint g"
  shows "distinct (map fst (concat (map (store_rows values ts) g)))
    \<and> set (map fst (concat (map (store_rows values ts) g))) = set (concat (map snd g))"
  using assms
proof (induction g)
  case (Cons p g)
  have p: "distinct (snd p)" "snd p \<noteq> []" "set (snd p) \<inter> set (concat (map snd g)) = {}" "stores_disjoint g"
    using Cons.prems by (auto simp: stores_disjoint_def)
  note f = store_rows_facts(1,2) [OF p(1,2), of "values" ts]
  show ?case using Cons.IH [OF p(4)] f p(3) unfolding list.map concat.simps map_append distinct_append set_append by simp
qed simp

lemma filter_site_rows:
  assumes "group_ok ks g" and "p \<in> set g"
  shows "filter (\<lambda>q. fst (fst q) = fst p) (concat (map (store_rows values ts) g)) = store_rows values ts p"
proof -
  have "filter (\<lambda>q. fst (fst q) = s) (concat (map (store_rows values ts) h))
      = concat (map (\<lambda>p. if fst p = s then store_rows values ts p else []) h)" if "set h \<subseteq> set g" for h s
    using that
  proof (induction h)
    case (Cons r h)
    have "fst (fst q) = fst r" if "q \<in> set (store_rows values ts r)" for q
      using store_rows_site [OF assms(1) _ that] Cons.prems by simp
    then show ?case using Cons by (auto simp: filter_empty_conv intro: filter_True)
  qed simp
  moreover have "distinct (map fst g)" using assms(1) by (simp add: group_ok_def)
  ultimately show ?thesis using concat_only [OF _ assms(2), of "store_rows values ts"] by simp
qed

text \<open>
  C29: Rounding agents' currency values keeps every store's rounded total. When the store
  targets fit the decimal context, the call succeeds, both correction loops end, every agent of
  the input appears exactly once with a non-negative amount of whole cents, and the amounts of
  each store sum exactly to the store's target rounded to cents.
\<close>

theorem currency_targets_exact:
  assumes "distinct (map fst values)"
    and "\<forall>k \<in> set (map fst values). target_cents store_targets (fst k) < 10 ^ DEFAULT_PREC"
  shows "\<exists>allocated. allocate_currency_targets values store_targets = Inr allocated
    \<and> distinct (map fst allocated) \<and> set (map fst allocated) = set (map fst values)
    \<and> (\<forall>q \<in> set allocated. 0 \<le> snd q)
    \<and> (\<forall>k \<in> set (map fst values). sum_list (map snd (filter (\<lambda>q. fst (fst q) = fst k) allocated))
         = of_int (target_cents store_targets (fst k)) / 100)"
proof -
  define g where "g = group_by_store (map fst values)"
  have ok: "group_ok (map fst values) g" unfolding g_def by (rule group_by_store_ok)
  note D = group_stores_disjoint [OF ok assms(1)]
  have keys: "set (map fst g) = set (map fst (map fst values))" using ok by (simp add: group_ok_def)
  have bound: "\<forall>p \<in> set g. target_cents store_targets (fst p) < 10 ^ DEFAULT_PREC"
  proof
    fix p assume "p \<in> set g"
    then have "fst p \<in> set (map fst (map fst values))" using keys by (metis image_eqI set_map)
    then show "target_cents store_targets (fst p) < 10 ^ DEFAULT_PREC" using assms(2) by auto
  qed
  let ?a = "concat (map (store_rows values store_targets) g)"
  have res: "allocate_currency_targets values store_targets = Inr ?a"
    using allocate_stores_ok [OF conjunct1 [OF D] bound, of "[]" "values"] by (simp add: allocate_currency_targets_def g_def)
  have row: "distinct (snd p)" "snd p \<noteq> []" if "p \<in> set g" for p
    using D that by (auto simp: stores_disjoint_def distinct_concat_iff)
  have d: "distinct (map fst ?a)" "set (map fst ?a) = set (map fst values)"
    using concat_rows_keys [OF conjunct1 [OF D], of "values" store_targets] D by blast+
  have nn: "\<forall>q \<in> set ?a. 0 \<le> snd q" using store_rows_facts(3) [OF row] by auto
  have "sum_list (map snd (filter (\<lambda>q. fst (fst q) = fst k) ?a)) = of_int (target_cents store_targets (fst k)) / 100"
    if k: "k \<in> set (map fst values)" for k
  proof -
    have "fst k \<in> set (map fst g)" using k unfolding keys by (metis image_eqI set_map)
    then obtain p where p: "p \<in> set g" "fst p = fst k" by auto
    then show ?thesis
      using filter_site_rows [OF ok p(1), of "values" store_targets] store_rows_facts(4) [OF row [OF p(1)], of "values" store_targets] by simp
  qed
  with res d nn show ?thesis by blast
qed

theorem currency_targets_exact_witness:
  "\<exists>allocated. allocate_currency_targets [((''S1'', ''ana''), 1001 / 100), ((''S1'', ''bob''), 401 / 200)] [(''S1'', 601 / 50)]
      = Inr allocated \<and> sum_list (map snd (filter (\<lambda>q. fst (fst q) = ''S1'') allocated)) = 601 / 50"
proof -
  let ?v = "[((''S1'', ''ana''), 1001 / 100 :: rat), ((''S1'', ''bob''), 401 / 200)]"
  have t: "target_cents [(''S1'', 601 / 50)] ''S1'' = 1202" by code_simp
  have "distinct (map fst ?v)" by simp
  moreover have "\<forall>k \<in> set (map fst ?v). target_cents [(''S1'', 601 / 50)] (fst k) < 10 ^ DEFAULT_PREC"
    by (simp add: t DEFAULT_PREC_def)
  ultimately obtain a where "allocate_currency_targets ?v [(''S1'', 601 / 50)] = Inr a"
    and "\<forall>k \<in> set (map fst ?v). sum_list (map snd (filter (\<lambda>q. fst (fst q) = fst k) a))
       = of_int (target_cents [(''S1'', 601 / 50)] (fst k)) / 100"
    using currency_targets_exact [of ?v "[(''S1'', 601 / 50)]"] by blast
  then show ?thesis using t by (intro exI [of _ a]) simp
qed

end
