(* ===== verification/Target_Calculator.thy ===== *)
theory Target_Calculator
  imports Apportionment
begin

text \<open>
  Allocation of a budget over stores with floors and caps
  (\<^verbatim>\<open>services/target_calculator/calculations.py\<close>), with the decimal context written out: 28
  digits by default and 60 where the code opens a local context. A row is the entries the
  functions read and write; an entry a caller leaves out is the one \<^verbatim>\<open>setdefault\<close> gives.
\<close>

section \<open>Money and errors\<close>

datatype calc_error =
    DecimalInvalid
  | CapUnderFloor
  | NegativeWeights
  | MissingEntry
  | TargetBudgetInfeasible rat rat "rat option"

record target_row =
  tr_site_code :: string
  tr_weight :: rat
  tr_floor :: rat
  tr_cap :: rat
  tr_proposed :: rat
  tr_floor_limited :: bool
  tr_cap_limited :: bool
  tr_reason :: string
  tr_flags :: "string list"

text \<open>
  \<^verbatim>\<open>money\<close> quantizes with the digits of the current context. An amount in cents is kept as
  its number of cents where the code goes on calculating with it.
\<close>

definition money_cents_at :: "nat \<Rightarrow> rat \<Rightarrow> (calc_error, int) result" where
  "money_cents_at prec v = (let n = round_half_up (v * 100) in if \<bar>n\<bar> < 10 ^ prec then Inr n else Inl DecimalInvalid)"

definition calc_money_at :: "nat \<Rightarrow> rat \<Rightarrow> (calc_error, rat) result" where
  "calc_money_at prec v = res_bind (money_cents_at prec v) (\<lambda>n. Inr (of_int n / 100))"

abbreviation money_cents :: "rat \<Rightarrow> (calc_error, int) result" where
  "money_cents \<equiv> money_cents_at DEFAULT_PREC"

abbreviation calc_money :: "rat \<Rightarrow> (calc_error, rat) result" where
  "calc_money \<equiv> calc_money_at DEFAULT_PREC"

definition budget_infeasible :: "nat \<Rightarrow> rat \<Rightarrow> rat \<Rightarrow> rat option \<Rightarrow> (calc_error, 'a) result" where
  "budget_infeasible prec requested floors caps =
     res_bind (calc_money_at prec requested) (\<lambda>r. res_bind (calc_money_at prec floors) (\<lambda>f.
       case caps of None \<Rightarrow> Inl (TargetBudgetInfeasible r f None)
       | Some c \<Rightarrow> res_bind (calc_money_at prec c) (\<lambda>c'. Inl (TargetBudgetInfeasible r f (Some c')))))"

definition dec_add :: "rat \<Rightarrow> rat \<Rightarrow> rat" where
  "dec_add a b = dec_ctx DEFAULT_PREC (a + b)"

definition dec_sub :: "rat \<Rightarrow> rat \<Rightarrow> rat" where
  "dec_sub a b = dec_ctx DEFAULT_PREC (a - b)"

text \<open>\<^verbatim>\<open>sum(values, Decimal("0"))\<close>, each addition rounded to the context's digits.\<close>

definition dec_sum_at :: "nat \<Rightarrow> rat list \<Rightarrow> rat" where
  "dec_sum_at prec vs = fold (\<lambda>v acc. dec_ctx prec (acc + v)) vs 0"

abbreviation dec_sum :: "rat list \<Rightarrow> rat" where
  "dec_sum \<equiv> dec_sum_at DEFAULT_PREC"

section \<open>Bound flags\<close>

definition add_flag :: "string \<Rightarrow> target_row \<Rightarrow> target_row" where
  "add_flag f row = row\<lparr>tr_flags := (if f \<in> set (tr_flags row) then tr_flags row else tr_flags row @ [f])\<rparr>"

definition mark_floor :: "target_row \<Rightarrow> target_row" where
  "mark_floor row = add_flag ''FLOOR_APPLIED'' (row\<lparr>tr_floor_limited := True, tr_reason := ''floor''\<rparr>)"

definition mark_cap :: "target_row \<Rightarrow> target_row" where
  "mark_cap row = add_flag ''CAP_APPLIED'' (row\<lparr>tr_cap_limited := True, tr_reason := ''cap''\<rparr>)"

definition reset_bound_state :: "target_row \<Rightarrow> target_row" where
  "reset_bound_state row = row\<lparr>tr_floor_limited := False, tr_cap_limited := False, tr_reason := ''proportional'',
     tr_flags := filter (\<lambda>f. f \<notin> {''FLOOR_APPLIED'', ''CAP_APPLIED''}) (tr_flags row)\<rparr>"

definition mark_final_bounds :: "target_row \<Rightarrow> target_row" where
  "mark_final_bounds row =
     (let at_floor = tr_proposed row = tr_floor row; at_cap = tr_proposed row = tr_cap row
      in row\<lparr>tr_floor_limited := at_floor, tr_cap_limited := at_cap,
           tr_flags := tr_flags row @ (if at_floor then [''FLOOR_APPLIED''] else []) @ (if at_cap then [''CAP_APPLIED''] else []),
           tr_reason := (if at_floor \<and> at_cap then ''floor_cap'' else if at_floor then ''floor''
             else if at_cap then ''cap'' else ''proportional'')\<rparr>)"

section \<open>Normalization\<close>

definition normalize_row :: "bool \<Rightarrow> target_row \<Rightarrow> (calc_error, target_row) result" where
  "normalize_row include_caps row =
     res_bind (calc_money (tr_floor row)) (\<lambda>f.
       if include_caps
       then res_bind (calc_money (tr_cap row)) (\<lambda>c.
         if c < f then Inl CapUnderFloor else Inr (row\<lparr>tr_floor := f, tr_cap := c\<rparr>))
       else Inr (row\<lparr>tr_floor := f\<rparr>))"

fun normalize_rows :: "bool \<Rightarrow> target_row list \<Rightarrow> (calc_error, target_row list) result" where
  "normalize_rows include_caps [] = Inr []"
| "normalize_rows include_caps (row # rows) =
     res_bind (normalize_row include_caps row) (\<lambda>r.
     res_bind (normalize_rows include_caps rows) (\<lambda>rs. Inr (r # rs)))"

definition normalize_bounds :: "bool \<Rightarrow> target_row list \<Rightarrow> (calc_error, target_row list \<times> rat \<times> rat option) result" where
  "normalize_bounds include_caps rows =
     res_bind (normalize_rows include_caps rows) (\<lambda>rs.
       Inr (rs, dec_sum (map tr_floor rs), if include_caps then Some (dec_sum (map tr_cap rs)) else None))"

section \<open>The rounding difference\<close>

definition row_capacity :: "bool \<Rightarrow> bool \<Rightarrow> int \<Rightarrow> target_row \<Rightarrow> (calc_error, int) result" where
  "row_capacity include_caps increase remaining row = money_cents
     (if increase \<and> include_caps then dec_sub (tr_cap row) (tr_proposed row)
      else if \<not> increase then dec_sub (tr_proposed row) (tr_floor row)
      else of_int remaining / 100)"

fun row_capacities :: "bool \<Rightarrow> bool \<Rightarrow> int \<Rightarrow> target_row list \<Rightarrow> (calc_error, int list) result" where
  "row_capacities include_caps increase remaining [] = Inr []"
| "row_capacities include_caps increase remaining (row # rows) =
     res_bind (row_capacity include_caps increase remaining row) (\<lambda>c.
     res_bind (row_capacities include_caps increase remaining rows) (\<lambda>cs. Inr (c # cs)))"

definition capacity_order :: "target_row list \<Rightarrow> int list \<Rightarrow> nat list" where
  "capacity_order rows caps = sort_key (\<lambda>i. (- (caps ! i), tr_site_code (rows ! i), i))
     (filter (\<lambda>i. 0 < caps ! i) [0..<length rows])"

definition apply_step :: "bool \<Rightarrow> bool \<Rightarrow> int \<Rightarrow> target_row \<Rightarrow> (calc_error, target_row) result" where
  "apply_step include_caps increase step row =
     res_bind (calc_money (if increase then dec_add (tr_proposed row) (of_int step / 100)
         else dec_sub (tr_proposed row) (of_int step / 100))) (\<lambda>p.
       let row1 = row\<lparr>tr_proposed := p\<rparr>;
           row2 = (if include_caps \<and> p = tr_cap row then mark_cap row1 else row1)
       in Inr (if p = tr_floor row then mark_floor row2 else row2))"

fun apply_steps :: "bool \<Rightarrow> bool \<Rightarrow> int list \<Rightarrow> nat list \<Rightarrow> int \<Rightarrow> target_row list
    \<Rightarrow> (calc_error, target_row list \<times> int) result" where
  "apply_steps include_caps increase caps [] remaining rows = Inr (rows, remaining)"
| "apply_steps include_caps increase caps (i # is) remaining rows =
     (let step = min (caps ! i) remaining in
      res_bind (apply_step include_caps increase step (rows ! i)) (\<lambda>row.
      res_bind (money_cents (dec_sub (of_int remaining / 100) (of_int step / 100))) (\<lambda>remaining'.
        if remaining' = 0 then Inr (rows[i := row], 0)
        else apply_steps include_caps increase caps is remaining' (rows[i := row]))))"

lemma money_cents_exact: "money_cents (of_int n / 100) = (if \<bar>n\<bar> < 10 ^ DEFAULT_PREC then Inr n else Inl DecimalInvalid)"
  by (simp add: money_cents_at_def Let_def)

lemma money_cents_bound: "money_cents v = Inr n \<Longrightarrow> \<bar>n\<bar> < 10 ^ DEFAULT_PREC"
  by (auto simp: money_cents_at_def Let_def split: if_splits)

lemma remaining_step:
  assumes "money_cents (dec_sub (of_int r / 100) (of_int s / 100)) = Inr r'" and "0 < s" and "s \<le> r"
  shows "r' < r \<and> 0 \<le> r'"
proof (cases "r < 10 ^ DEFAULT_PREC")
  case True
  then have "\<bar>r - s\<bar> < 10 ^ DEFAULT_PREC" using assms by simp
  then have "dec_sub (of_int r / 100) (of_int s / 100) = of_int (r - s) / 100"
    using dec_ctx_cents [of "r - s" DEFAULT_PREC] by (simp add: dec_sub_def diff_divide_distrib)
  then have "money_cents (dec_sub (of_int r / 100) (of_int s / 100)) = Inr (r - s)"
    using \<open>\<bar>r - s\<bar> < 10 ^ DEFAULT_PREC\<close> by (simp only: money_cents_exact if_True)
  then show ?thesis using assms by simp
next
  case False
  have "0 \<le> dec_sub (of_int r / 100) (of_int s / 100)"
    using assms(3) unfolding dec_sub_def by (intro dec_ctx_nonneg) (simp add: field_simps)
  then have "0 \<le> r'" using assms(1) by (auto simp: money_cents_at_def Let_def round_half_up_def split: if_splits)
  then show ?thesis using money_cents_bound [OF assms(1)] False by linarith
qed

lemma apply_steps_remaining:
  assumes "apply_steps ic inc caps is r rows = Inr (rows', r')" and "0 < r" and "\<forall>i \<in> set is. 0 < caps ! i"
  shows "0 \<le> r' \<and> r' \<le> r \<and> (is \<noteq> [] \<longrightarrow> r' < r)"
  using assms
proof (induction "is" arbitrary: r rows)
  case (Cons i "is")
  let ?s = "min (caps ! i) r"
  from Cons.prems(1) obtain row r1 where a: "apply_step ic inc ?s (rows ! i) = Inr row"
    and m: "money_cents (dec_sub (of_int r / 100) (of_int ?s / 100)) = Inr r1"
    and rest: "r1 = 0 \<and> r' = 0 \<or> r1 \<noteq> 0 \<and> apply_steps ic inc caps is r1 (rows[i := row]) = Inr (rows', r')"
    by (auto simp: Let_def res_simps split: if_splits)
  have "r1 < r \<and> 0 \<le> r1" using remaining_step [OF m] Cons.prems(2,3) by simp
  with rest Cons.IH [of r1 "rows[i := row]"] Cons.prems(3) show ?case by force
qed simp

function difference_loop :: "bool \<Rightarrow> bool \<Rightarrow> rat \<Rightarrow> int \<Rightarrow> target_row list \<Rightarrow> (calc_error, target_row list) result" where
  "difference_loop include_caps increase requested remaining rows =
     (if remaining \<le> 0 then Inr rows else
      case row_capacities include_caps increase remaining rows of Inl e \<Rightarrow> Inl e
      | Inr caps \<Rightarrow>
        (if capacity_order rows caps = []
         then res_bind (normalize_bounds include_caps rows) (\<lambda>(rs, f, c). budget_infeasible DEFAULT_PREC requested f c)
         else case apply_steps include_caps increase caps (capacity_order rows caps) remaining rows of Inl e \<Rightarrow> Inl e
         | Inr (rows', remaining') \<Rightarrow> difference_loop include_caps increase requested remaining' rows'))"
  by pat_completeness auto
termination
proof (relation "measure (\<lambda>(ic, inc, req, r, rows). nat r)", goal_cases)
  case (2 ic inc req r rows caps p rows' r')
  have "\<forall>i \<in> set (capacity_order rows caps). 0 < caps ! i" by (simp add: capacity_order_def)
  with apply_steps_remaining [of ic inc caps "capacity_order rows caps" r rows rows' r'] 2 show ?case by auto
qed simp

declare difference_loop.simps [simp del]

definition apply_rounding_difference :: "bool \<Rightarrow> rat \<Rightarrow> target_row list \<Rightarrow> (calc_error, target_row list) result" where
  "apply_rounding_difference include_caps requested rows =
     res_bind (money_cents (dec_sub requested (dec_sum (map tr_proposed rows)))) (\<lambda>difference.
       if difference = 0 then Inr rows
       else difference_loop include_caps (0 < difference) requested \<bar>difference\<bar> rows)"

section \<open>Budgets with floors\<close>

definition floor_share :: "rat \<Rightarrow> rat \<Rightarrow> nat \<Rightarrow> target_row \<Rightarrow> rat" where
  "floor_share budget weight_total n row =
     (if 0 < weight_total then dec_ctx DEFAULT_PREC (dec_ctx DEFAULT_PREC (budget * tr_weight row) / weight_total)
      else dec_ctx DEFAULT_PREC (budget / of_nat n))"

text \<open>
  The loop over the indices without an assignment; \<open>assigned\<close> is the dict of assignments. The
  set \<open>remaining\<close> holds indices from a range and is iterated in ascending order. Python leaves the
  order in which \<open>below_floor\<close> is iterated open; it is fixed here, and for amounts in cents
  within the context's digits the budget left does not depend on it.
\<close>

function floors_loop :: "nat list \<Rightarrow> rat \<Rightarrow> (nat \<Rightarrow> rat) \<Rightarrow> target_row list \<Rightarrow> (nat \<Rightarrow> rat) \<times> target_row list" where
  "floors_loop remaining budget assigned rows =
     (if remaining = [] then (assigned, rows) else
      let weight_total = dec_sum (map (\<lambda>i. tr_weight (rows ! i)) remaining);
          share = (\<lambda>i. floor_share budget weight_total (length remaining) (rows ! i));
          below = filter (\<lambda>i. share i < tr_floor (rows ! i)) remaining
      in if below = [] then ((\<lambda>i. if i \<in> set remaining then share i else assigned i), rows)
         else floors_loop (filter (\<lambda>i. i \<notin> set below) remaining)
           (fold (\<lambda>i b. dec_sub b (tr_floor (rows ! i))) below budget)
           (\<lambda>i. if i \<in> set below then tr_floor (rows ! i) else assigned i)
           (map (\<lambda>i. if i \<in> set below then mark_floor (rows ! i) else rows ! i) [0..<length rows]))"
  by pat_completeness auto
termination
proof (relation "measure (\<lambda>(js, b, a, rows). length js)", goal_cases)
  case (2 js b a rows wt sh below)
  have ne: "below \<noteq> []" and b: "below = filter (\<lambda>i. sh i < tr_floor (rows ! i)) js" using 2 by simp_all
  from ne obtain i where i: "i \<in> set below" by (meson list.set_sel(1))
  with b have "i \<in> set js" by auto
  with i have "length (filter (\<lambda>i. i \<notin> set below) js) < length js"
    by (intro length_filter_less) auto
  then show ?case by simp
qed simp

declare floors_loop.simps [simp del]

fun propose :: "(nat \<Rightarrow> rat) \<Rightarrow> nat \<Rightarrow> target_row list \<Rightarrow> (calc_error, target_row list) result" where
  "propose assigned i [] = Inr []"
| "propose assigned i (row # rows) =
     res_bind (calc_money (assigned i)) (\<lambda>p.
     res_bind (propose assigned (Suc i) rows) (\<lambda>rs. Inr (row\<lparr>tr_proposed := p\<rparr> # rs)))"

definition allocate_with_floors :: "target_row list \<Rightarrow> rat \<Rightarrow> (calc_error, target_row list) result" where
  "allocate_with_floors rows requested0 =
     (if rows = [] then Inr rows else
      res_bind (calc_money requested0) (\<lambda>requested.
      res_bind (normalize_bounds False rows) (\<lambda>(rs, floor_total, _).
      if requested < floor_total then budget_infeasible DEFAULT_PREC requested floor_total None else
      case floors_loop [0..<length rs] requested (\<lambda>_. 0) rs of (assigned, rs1) \<Rightarrow>
      res_bind (propose assigned 0 rs1) (\<lambda>rs2.
      res_bind (apply_rounding_difference False requested rs2) (\<lambda>rs3.
      if dec_sum (map tr_proposed rs3) \<noteq> requested then budget_infeasible DEFAULT_PREC requested floor_total None
      else Inr rs3)))))"

end
