(* ===== verification/Target_Seasonality.thy ===== *)
theory Target_Seasonality
  imports Target_Calculator
begin

text \<open>
  Months as texts, the pairs of months a seasonality is read from, and the weighted ratios of
  their sales (\<^verbatim>\<open>services/target_calculator/seasonality.py\<close>), with the decimal rules of
  \<^verbatim>\<open>services/target_calculator/rules.py\<close>. The binary floats of the response details are left out; a
  ratio shown with four decimals is its decimal value.
\<close>

section \<open>Months\<close>

datatype season_error = BadMonthFormat | SeasonMoney calc_error | TooManyYears

definition month_at :: "int \<Rightarrow> string" where
  "month_at index = zero_padded 4 (index div 12) @ CHR ''-'' # zero_padded 2 (index mod 12 + 1)"

definition shift_month :: "string \<Rightarrow> int \<Rightarrow> (season_error, string) result" where
  "shift_month month off =
     (case dropWhile (\<lambda>c. c \<noteq> CHR ''-'') month of [] \<Rightarrow> Inl BadMonthFormat
      | _ # number_text \<Rightarrow>
        (if CHR ''-'' \<in> set number_text then Inl BadMonthFormat
         else case (py_int (takeWhile (\<lambda>c. c \<noteq> CHR ''-'') month), py_int number_text) of
           (Some year, Some month_number) \<Rightarrow>
             if month_number < 1 \<or> 12 < month_number then Inl BadMonthFormat
             else Inr (month_at (year * 12 + month_number - 1 + off))
         | _ \<Rightarrow> Inl BadMonthFormat))"

section \<open>Source months\<close>

record season_pair =
  sp_year_offset :: nat
  sp_base_month :: string
  sp_target_month :: string

record source_month =
  sm_month :: string
  sm_label :: string
  sm_role :: string

definition MAX_SEASONALITY_YEARS :: int where
  "MAX_SEASONALITY_YEARS = 3"

definition DEFAULT_SEASONALITY_YEARS :: int where
  "DEFAULT_SEASONALITY_YEARS = 3"

fun pair_configuration :: "string \<Rightarrow> nat list \<Rightarrow> (season_error, season_pair list) result" where
  "pair_configuration target_month [] = Inr []"
| "pair_configuration target_month (y # ys) =
     res_bind (shift_month target_month (- 1 - 12 * int y)) (\<lambda>base.
     res_bind (shift_month target_month (- 12 * int y)) (\<lambda>target.
     res_bind (pair_configuration target_month ys) (\<lambda>ps.
       Inr (\<lparr>sp_year_offset = y, sp_base_month = base, sp_target_month = target\<rparr> # ps))))"

definition seasonality_pair_configuration :: "string \<Rightarrow> int \<Rightarrow> (season_error, season_pair list) result" where
  "seasonality_pair_configuration target_month years =
     pair_configuration target_month [1..<nat (max 1 (min years MAX_SEASONALITY_YEARS)) + 1]"

definition build_source_month_configuration :: "string \<Rightarrow> season_pair list \<Rightarrow> (season_error, source_month list) result" where
  "build_source_month_configuration target_month pairs =
     res_bind (shift_month target_month (- 1)) (\<lambda>current.
       Inr (concat (map (\<lambda>p.
           [\<lparr>sm_month = sp_base_month p, sm_label = ''Baza sezoniera Y-'' @ int_text (int (sp_year_offset p)),
              sm_role = ''seasonality_base_y'' @ int_text (int (sp_year_offset p))\<rparr>,
            \<lparr>sm_month = sp_target_month p, sm_label = ''Luna target Y-'' @ int_text (int (sp_year_offset p)),
              sm_role = ''seasonality_target_y'' @ int_text (int (sp_year_offset p))\<rparr>])
           (sort_key sp_base_month pairs))
         @ [\<lparr>sm_month = current, sm_label = ''Forecast luna curenta'', sm_role = ''floor_reference''\<rparr>]))"

definition source_month_configuration :: "string \<Rightarrow> (season_error, source_month list) result" where
  "source_month_configuration target_month =
     res_bind (seasonality_pair_configuration target_month DEFAULT_SEASONALITY_YEARS)
       (build_source_month_configuration target_month)"

section \<open>Weighted ratios\<close>

definition seasonal_year_weights :: "nat \<Rightarrow> rat list" where
  "seasonal_year_weights count =
     (if count \<le> 1 then [1] else if count = 2 then [7 / 10, 3 / 10] else [5 / 10, 3 / 10, 2 / 10])"

text \<open>The ratio of a pair of months, and the detail row's ratio of four decimals.\<close>

record ratio_detail =
  rd_year_offset :: nat
  rd_ratio :: "rat option"

definition pair_ratio :: "(string \<Rightarrow> rat option) \<Rightarrow> rat \<Rightarrow> season_pair \<Rightarrow> (season_error, rat option) result" where
  "pair_ratio value_by_month minimum_base pair =
     (let read = (\<lambda>m. case calc_money (case value_by_month m of None \<Rightarrow> 0 | Some v \<Rightarrow> v) of Inl e \<Rightarrow> Inl (SeasonMoney e) | Inr v \<Rightarrow> Inr v)
      in res_bind (read (sp_base_month pair)) (\<lambda>base_value.
         res_bind (read (sp_target_month pair)) (\<lambda>target_value.
           Inr (if minimum_base < base_value \<and> 0 < target_value
                then Some (dec_ctx DEFAULT_PREC (target_value / base_value)) else None))))"

definition ratio_shown :: "rat \<Rightarrow> (season_error, rat) result" where
  "ratio_shown r = (case dec_quantize round_half_even 4 r of Inl _ \<Rightarrow> Inl (SeasonMoney DecimalInvalid) | Inr v \<Rightarrow> Inr v)"

fun ratio_rows :: "(string \<Rightarrow> rat option) \<Rightarrow> rat \<Rightarrow> season_pair list \<Rightarrow> (season_error, (rat option \<times> ratio_detail) list) result" where
  "ratio_rows value_by_month minimum_base [] = Inr []"
| "ratio_rows value_by_month minimum_base (p # ps) =
     res_bind (pair_ratio value_by_month minimum_base p) (\<lambda>r.
     res_bind (case r of None \<Rightarrow> Inr None | Some v \<Rightarrow> res_bind (ratio_shown v) (\<lambda>s. Inr (Some s))) (\<lambda>shown.
     res_bind (ratio_rows value_by_month minimum_base ps) (\<lambda>rs.
       Inr ((r, \<lparr>rd_year_offset = sp_year_offset p, rd_ratio = shown\<rparr>) # rs))))"

definition weighted_ratio :: "season_pair list \<Rightarrow> (string \<Rightarrow> rat option) \<Rightarrow> rat
    \<Rightarrow> (season_error, rat option \<times> ratio_detail list) result" where
  "weighted_ratio pairs value_by_month minimum_base =
     res_bind (ratio_rows value_by_month minimum_base pairs) (\<lambda>rows.
       let usable = List.map_filter fst rows; weights = seasonal_year_weights (length usable)
       in if usable = [] then Inr (None, map snd rows)
          else if length weights < length usable then Inl TooManyYears
          else Inr (Some (dec_sum (map (\<lambda>(r, w). dec_ctx DEFAULT_PREC (r * w)) (zip usable weights))), map snd rows))"

section \<open>Decimal rules\<close>

definition realized_for_calculation :: "rat \<Rightarrow> rat \<Rightarrow> (calc_error, rat) result" where
  "realized_for_calculation actual_realized forecast_factor = calc_money (dec_ctx DEFAULT_PREC (actual_realized * forecast_factor))"

text \<open>\<^verbatim>\<open>list(dict.fromkeys(values))\<close> keeps the first of equal values.\<close>

definition unique_first :: "'a list \<Rightarrow> 'a list" where
  "unique_first xs = rev (remdups (rev xs))"

definition clamp_decimal :: "rat \<Rightarrow> rat \<Rightarrow> rat \<Rightarrow> rat" where
  "clamp_decimal v lo hi = min (max v lo) hi"

definition weighted_available :: "(rat option \<times> rat) list \<Rightarrow> rat option" where
  "weighted_available components =
     (let usable = List.map_filter (\<lambda>(v, w). case v of None \<Rightarrow> None | Some x \<Rightarrow> if 0 < w then Some (x, w) else None) components;
          total_weight = dec_sum (map snd usable)
      in if total_weight \<le> 0 then None
         else Some (dec_sum (map (\<lambda>(x, w). dec_ctx DEFAULT_PREC (dec_ctx DEFAULT_PREC (x * w) / total_weight)) usable)))"

section \<open>Shifting months\<close>

lemma shift_month_at:
  assumes "0 \<le> i"
  shows "shift_month (month_at i) k = Inr (month_at (i + k))"
proof -
  let ?y = "zero_padded 4 (i div 12)" and ?m = "zero_padded 2 (i mod 12 + 1)"
  have y: "0 \<le> i div 12" and m: "0 \<le> i mod 12 + 1" using assms by (simp_all add: pos_imp_zdiv_nonneg_iff)
  have "\<forall>c \<in> set ?y. c \<noteq> CHR ''-''" using no_hyphen [OF zero_padded_digits(2) [OF y]] by auto
  then have "takeWhile (\<lambda>c. c \<noteq> CHR ''-'') (month_at i) = ?y" "dropWhile (\<lambda>c. c \<noteq> CHR ''-'') (month_at i) = CHR ''-'' # ?m"
    by (simp_all add: month_at_def takeWhile_append2 dropWhile_append2)
  moreover have "i div 12 * 12 + (i mod 12 + 1) - 1 = i" by (simp add: div_mult_mod_eq)
  moreover have "\<not> (i mod 12 + 1 < 1 \<or> 12 < i mod 12 + 1)" using pos_mod_bound [of 12 i] pos_mod_sign [of 12 i] by linarith
  ultimately show ?thesis
    using no_hyphen [OF zero_padded_digits(2) [OF m]] zero_padded_digits(3) [OF y] zero_padded_digits(3) [OF m]
    by (simp add: shift_month_def)
qed

lemma month_at_sign: "hd (month_at i) \<noteq> CHR ''-'' \<Longrightarrow> 0 \<le> i"
  by (rule ccontr) (simp add: month_at_def zero_padded_def Let_def pos_imp_zdiv_neg_iff)

lemma shift_month_Inr: "shift_month month k = Inr m \<Longrightarrow> \<exists>i. \<forall>j. shift_month month j = Inr (month_at (i + j))"
proof -
  assume eq: "shift_month month k = Inr m"
  obtain h t where d: "dropWhile (\<lambda>c. c \<noteq> CHR ''-'') month = h # t"
    using eq by (cases "dropWhile (\<lambda>c. c \<noteq> CHR ''-'') month") (simp_all add: shift_month_def)
  then obtain y n where "py_int (takeWhile (\<lambda>c. c \<noteq> CHR ''-'') month) = Some y" "py_int t = Some n"
      "\<not> (n < 1 \<or> 12 < n)" "CHR ''-'' \<notin> set t"
    using eq by (simp add: shift_month_def split: if_splits option.splits)
  then have "\<forall>j. shift_month month j = Inr (month_at (y * 12 + n - 1 + j))" using d by (simp add: shift_month_def)
  then show ?thesis by blast
qed

text \<open>
  Shifts of months compose: a shifted month that has not left the calendar shifts on to
  what one shift by the sum gives. Shifting back therefore restores the month in its canonical
  text, and a month text that is accepted once is accepted with every offset.
\<close>

theorem shift_month_composes:
  assumes "shift_month month j = Inr shifted" and "hd shifted \<noteq> CHR ''-''"
  shows "shift_month shifted k = shift_month month (j + k)"
proof -
  obtain i where i: "\<forall>j. shift_month month j = Inr (month_at (i + j))" using shift_month_Inr [OF assms(1)] by blast
  then have "shifted = month_at (i + j)" using assms(1) by simp
  moreover have "0 \<le> i + j" using assms(2) calculation by (simp add: month_at_sign)
  ultimately show ?thesis using shift_month_at [of "i + j" k] i by (simp add: add.assoc)
qed

theorem shift_month_composes_witness:
  "shift_month ''2023-12'' 13 = shift_month ''2025-01'' ((- 13) + 13)"
proof -
  have "shift_month ''2025-01'' (- 13) = Inr ''2023-12''" by code_simp
  then show ?thesis by (rule shift_month_composes) simp
qed

end
