(* ===== verification/Target_Bounds.thy ===== *)
theory Target_Bounds
  imports Target_Calculator
begin

text \<open>
  Allocation of a budget between a floor and a cap per store
  (\<^verbatim>\<open>allocate_with_bounds\<close> of \<^verbatim>\<open>services/target_calculator/calculations.py\<close>): the multiplier of
  the weights is found by a binary search over the points where a store reaches a bound, and
  the cents left by rounding down go to the largest remainders. A dict from indices to amounts
  is its entries in insertion order.
\<close>

section \<open>The weighted box\<close>

definition BOX_PREC :: nat where
  "BOX_PREC = 60"

type_synonym allocations = "(nat \<times> rat) list"

definition stable_indices :: "target_row list \<Rightarrow> nat list \<Rightarrow> nat list" where
  "stable_indices rows indices = sort_key (\<lambda>i. (tr_site_code (rows ! i), i)) indices"

definition clip_box_value :: "target_row \<Rightarrow> rat \<Rightarrow> rat" where
  "clip_box_value row v = (if v < tr_floor row then tr_floor row else if tr_cap row < v then tr_cap row else v)"

definition box_allocations_at :: "target_row list \<Rightarrow> nat list \<Rightarrow> (nat \<Rightarrow> rat) \<Rightarrow> rat \<Rightarrow> allocations" where
  "box_allocations_at rows ordered weights multiplier =
     map (\<lambda>i. (i, clip_box_value (rows ! i) (dec_ctx BOX_PREC (multiplier * weights i)))) ordered"

definition decimal_breakpoint_equal :: "rat \<Rightarrow> rat \<Rightarrow> bool" where
  "decimal_breakpoint_equal left right \<longleftrightarrow> \<bar>dec_ctx BOX_PREC (left - right)\<bar> \<le> 1 / 10 ^ 30"

fun reconcile_first :: "target_row list \<Rightarrow> allocations \<Rightarrow> rat \<Rightarrow> nat list \<Rightarrow> allocations option" where
  "reconcile_first rows allocations residual [] = None"
| "reconcile_first rows allocations residual (i # js) =
     (case map_of allocations i of None \<Rightarrow> None
      | Some a \<Rightarrow>
        (let adjusted = dec_ctx BOX_PREC (a + residual) in
         if tr_floor (rows ! i) \<le> adjusted \<and> adjusted \<le> tr_cap (rows ! i)
         then Some (dict_set i adjusted allocations)
         else reconcile_first rows allocations residual js))"

definition reconcile_box_residual :: "target_row list \<Rightarrow> allocations \<Rightarrow> nat list \<Rightarrow> rat \<Rightarrow> allocations option" where
  "reconcile_box_residual rows allocations active target =
     (let residual = dec_ctx BOX_PREC (target - dec_sum_at BOX_PREC (map snd allocations)) in
      if residual = 0 then Some allocations
      else reconcile_first rows allocations residual (stable_indices rows active))"

definition solve_box_interval :: "target_row list \<Rightarrow> nat list \<Rightarrow> (nat \<Rightarrow> rat) \<Rightarrow> rat \<Rightarrow> rat \<Rightarrow> rat \<Rightarrow> allocations option" where
  "solve_box_interval rows ordered weights target previous_point point =
     (let midpoint = dec_ctx BOX_PREC (dec_ctx BOX_PREC (previous_point + point) / 2);
          at_mid = (\<lambda>i. dec_ctx BOX_PREC (midpoint * weights i));
          active = filter (\<lambda>i. tr_floor (rows ! i) < at_mid i \<and> at_mid i < tr_cap (rows ! i)) ordered
      in if active = [] then None else
      let fixed_total = dec_sum_at BOX_PREC (map (\<lambda>i. if at_mid i \<le> tr_floor (rows ! i) then tr_floor (rows ! i) else tr_cap (rows ! i))
            (filter (\<lambda>i. i \<notin> set active) ordered));
          active_weight = dec_sum_at BOX_PREC (map weights active);
          multiplier = dec_ctx BOX_PREC (dec_ctx BOX_PREC (target - fixed_total) / active_weight)
      in reconcile_box_residual rows (box_allocations_at rows ordered weights multiplier) active target)"

definition prepare_breakpoints :: "target_row list \<Rightarrow> nat list \<Rightarrow> (nat \<Rightarrow> rat) \<Rightarrow> rat list" where
  "prepare_breakpoints rows ordered weights =
     sort (remdups (concat (map (\<lambda>i. map (\<lambda>bound. dec_ctx BOX_PREC (bound / weights i))
       [tr_floor (rows ! i), tr_cap (rows ! i)]) ordered)))"

definition allocations_total :: "target_row list \<Rightarrow> nat list \<Rightarrow> (nat \<Rightarrow> rat) \<Rightarrow> rat \<Rightarrow> rat \<times> allocations" where
  "allocations_total rows ordered weights point =
     (let allocations = box_allocations_at rows ordered weights point
      in (dec_sum_at BOX_PREC (map snd allocations), allocations))"

function binary_search_breakpoint_index :: "target_row list \<Rightarrow> nat list \<Rightarrow> (nat \<Rightarrow> rat) \<Rightarrow> rat list \<Rightarrow> rat \<Rightarrow> nat \<Rightarrow> nat \<Rightarrow> nat" where
  "binary_search_breakpoint_index rows ordered weights breakpoints target lower upper =
     (if lower + 1 < upper then
        (let middle = (lower + upper) div 2;
             middle_total = fst (allocations_total rows ordered weights (breakpoints ! middle))
         in if decimal_breakpoint_equal target middle_total then middle
            else if middle_total < target
            then binary_search_breakpoint_index rows ordered weights breakpoints target middle upper
            else binary_search_breakpoint_index rows ordered weights breakpoints target lower middle)
      else lower)"
  by pat_completeness auto
termination by (relation "measure (\<lambda>(rows, ordered, weights, breakpoints, target, lower, upper). upper - lower)") auto

declare binary_search_breakpoint_index.simps [simp del]

definition resolve_two_breakpoint_pair :: "target_row list \<Rightarrow> nat list \<Rightarrow> (nat \<Rightarrow> rat) \<Rightarrow> rat list \<Rightarrow> nat \<Rightarrow> nat
    \<Rightarrow> rat \<Rightarrow> rat \<Rightarrow> rat \<Rightarrow> (calc_error, allocations option) result" where
  "resolve_two_breakpoint_pair rows ordered weights breakpoints lower upper target floor_total cap_total =
     (if length breakpoints \<le> lower \<or> length breakpoints \<le> upper then Inl MissingEntry else
      case allocations_total rows ordered weights (breakpoints ! lower) of (previous_total, previous_allocations) \<Rightarrow>
      case allocations_total rows ordered weights (breakpoints ! upper) of (point_total, point_allocations) \<Rightarrow>
      if decimal_breakpoint_equal target previous_total then Inr (Some previous_allocations)
      else if decimal_breakpoint_equal target point_total then Inr (Some point_allocations)
      else if decimal_breakpoint_equal point_total previous_total then budget_infeasible BOX_PREC target floor_total (Some cap_total)
      else Inr (solve_box_interval rows ordered weights target (breakpoints ! lower) (breakpoints ! upper)))"

definition solve_between :: "target_row list \<Rightarrow> nat list \<Rightarrow> rat \<Rightarrow> (nat \<Rightarrow> rat) \<Rightarrow> rat \<Rightarrow> rat \<Rightarrow> (calc_error, allocations) result" where
  "solve_between rows ordered target weights floor_total cap_total =
     (let breakpoints = prepare_breakpoints rows ordered weights in
      if breakpoints = [] then Inl MissingEntry else
      case allocations_total rows ordered weights (breakpoints ! 0) of (lower_total, lower_allocations) \<Rightarrow>
      if decimal_breakpoint_equal target lower_total then Inr lower_allocations
      else if target < lower_total then Inr (map (\<lambda>i. (i, tr_floor (rows ! i))) ordered)
      else let k = binary_search_breakpoint_index rows ordered weights breakpoints target 0 (length breakpoints - 1) in
      res_bind (resolve_two_breakpoint_pair rows ordered weights breakpoints k (k + 1) target floor_total cap_total) (\<lambda>found.
        case found of Some allocations \<Rightarrow> Inr allocations
        | None \<Rightarrow> budget_infeasible BOX_PREC target floor_total (Some cap_total)))"

definition solve_positive_box :: "target_row list \<Rightarrow> nat list \<Rightarrow> rat \<Rightarrow> (nat \<Rightarrow> rat) \<Rightarrow> (calc_error, allocations) result" where
  "solve_positive_box rows indices target weights =
     (let ordered = stable_indices rows indices;
          floor_total = dec_sum (map (\<lambda>i. tr_floor (rows ! i)) ordered);
          cap_total = dec_sum (map (\<lambda>i. tr_cap (rows ! i)) ordered)
      in if target = floor_total then Inr (map (\<lambda>i. (i, tr_floor (rows ! i))) ordered)
      else if target = cap_total then Inr (map (\<lambda>i. (i, tr_cap (rows ! i))) ordered)
      else if target < floor_total \<or> cap_total < target then budget_infeasible DEFAULT_PREC target floor_total (Some cap_total)
      else solve_between rows ordered target weights floor_total cap_total)"

section \<open>Zero weights as reserve\<close>

definition dict_update :: "('k \<times> 'v) list \<Rightarrow> ('k \<times> 'v) list \<Rightarrow> ('k \<times> 'v) list" where
  "dict_update d kvs = fold (\<lambda>(k, v). dict_set k v) kvs d"

definition solve_box_allocations :: "target_row list \<Rightarrow> rat \<Rightarrow> (calc_error, allocations) result" where
  "solve_box_allocations rows requested =
     (let positive = filter (\<lambda>i. 0 < tr_weight (rows ! i)) [0..<length rows];
          zero = filter (\<lambda>i. tr_weight (rows ! i) = 0) [0..<length rows]
      in if length positive + length zero \<noteq> length rows then Inl NegativeWeights
      else if positive = [] then solve_positive_box rows zero requested (\<lambda>i. 1)
      else let positive_cap_total = dec_sum (map (\<lambda>i. tr_cap (rows ! i)) positive);
               zero_floor_total = dec_sum (map (\<lambda>i. tr_floor (rows ! i)) zero);
               weighted_limit = dec_add positive_cap_total zero_floor_total
      in if requested \<le> weighted_limit
         then res_bind (solve_positive_box rows positive (dec_sub requested zero_floor_total) (\<lambda>i. tr_weight (rows ! i)))
           (\<lambda>a. Inr (dict_update (map (\<lambda>i. (i, tr_floor (rows ! i))) zero) a))
         else res_bind (solve_positive_box rows zero (dec_sub requested positive_cap_total) (\<lambda>i. 1))
           (\<lambda>a. Inr (dict_update (map (\<lambda>i. (i, tr_cap (rows ! i))) positive) a)))"

section \<open>Rounding by largest remainders\<close>

definition money_floor :: "rat \<Rightarrow> (calc_error, rat) result" where
  "money_floor v = (if \<bar>\<lfloor>v * 100\<rfloor>\<bar> < 10 ^ DEFAULT_PREC then Inr (of_int \<lfloor>v * 100\<rfloor> / 100) else Inl DecimalInvalid)"

fun floor_bases :: "allocations \<Rightarrow> (calc_error, allocations) result" where
  "floor_bases [] = Inr []"
| "floor_bases ((i, v) # assigned) =
     res_bind (money_floor v) (\<lambda>b. res_bind (floor_bases assigned) (\<lambda>bs. Inr ((i, b) # bs)))"

text \<open>\<^verbatim>\<open>value % MONEY\<close> fails when the integer quotient needs more digits than the context has.\<close>

definition money_remainder :: "rat \<Rightarrow> (calc_error, rat) result" where
  "money_remainder v =
     (if \<bar>py_trunc (v * 100)\<bar> < 10 ^ DEFAULT_PREC then Inr (dec_ctx DEFAULT_PREC (v - of_int (py_trunc (v * 100)) / 100))
      else Inl DecimalInvalid)"

definition round_candidates :: "target_row list \<Rightarrow> allocations \<Rightarrow> allocations \<Rightarrow> nat list" where
  "round_candidates rows assigned bases =
     sort_key (\<lambda>i. (- dec_sub (the (map_of assigned i)) (the (map_of bases i)), tr_site_code (rows ! i), i))
       (map fst (filter (\<lambda>(i, b). 1 / 100 \<le> dec_sub (tr_cap (rows ! i)) b) bases))"

definition add_cents :: "nat list \<Rightarrow> allocations \<Rightarrow> allocations" where
  "add_cents js bases = fold (\<lambda>i bs. dict_set i (dec_add (the (map_of bs i)) (1 / 100)) bs) js bases"

fun store_proposed :: "allocations \<Rightarrow> nat \<Rightarrow> target_row list \<Rightarrow> (calc_error, target_row list) result" where
  "store_proposed bases i [] = Inr []"
| "store_proposed bases i (row # rows) =
     (case map_of bases i of None \<Rightarrow> Inl MissingEntry
      | Some b \<Rightarrow> res_bind (store_proposed bases (Suc i) rows) (\<lambda>rs. Inr (row\<lparr>tr_proposed := b\<rparr> # rs)))"

definition round_bounded_allocations :: "target_row list \<Rightarrow> allocations \<Rightarrow> rat \<Rightarrow> rat \<Rightarrow> rat \<Rightarrow> (calc_error, target_row list) result" where
  "round_bounded_allocations rows assigned requested floor_total cap_total =
     res_bind (floor_bases assigned) (\<lambda>bases.
     let residual = dec_sub requested (dec_sum (map snd bases)) in
     if residual < 0 then budget_infeasible DEFAULT_PREC requested floor_total (Some cap_total) else
     res_bind (money_remainder residual) (\<lambda>rem.
     if rem \<noteq> 0 then budget_infeasible DEFAULT_PREC requested floor_total (Some cap_total) else
     let residual_cents = py_trunc (dec_ctx DEFAULT_PREC (residual * 100));
         candidates = round_candidates rows assigned bases
     in if int (length candidates) < residual_cents then budget_infeasible DEFAULT_PREC requested floor_total (Some cap_total)
        else store_proposed (add_cents (take (nat residual_cents) candidates) bases) 0 rows))"

definition allocate_with_bounds :: "target_row list \<Rightarrow> rat \<Rightarrow> (calc_error, target_row list) result" where
  "allocate_with_bounds rows requested0 =
     (if rows = [] then Inr rows else
      res_bind (calc_money requested0) (\<lambda>requested.
      res_bind (normalize_bounds True rows) (\<lambda>(rs, floor_total, cap_opt).
      let cap_total = the cap_opt in
      if requested < floor_total \<or> cap_total < requested then budget_infeasible DEFAULT_PREC requested floor_total (Some cap_total) else
      let rs0 = map reset_bound_state rs in
      res_bind (solve_box_allocations rs0 requested) (\<lambda>assigned.
      res_bind (round_bounded_allocations rs0 assigned requested floor_total cap_total) (\<lambda>rs1.
      let rs2 = map mark_final_bounds rs1 in
      if dec_sum (map tr_proposed rs2) \<noteq> requested
        \<or> (\<exists>row \<in> set rs2. tr_proposed row < tr_floor row \<or> tr_cap row < tr_proposed row)
      then budget_infeasible DEFAULT_PREC requested floor_total (Some cap_total)
      else Inr rs2)))))"

end
