(* ===== verification/Target_Rounding.thy ===== *)
theory Target_Rounding
  imports Target_Bounds
begin

text \<open>
  Exactness of sums of cents within the context's digits, and the last phase of
  \<^verbatim>\<open>allocate_with_bounds\<close>: an assignment within the bounds whose total misses the budget by less
  than a cent is rounded to cents with the budget met exactly and no bound crossed.
\<close>

section \<open>Exact sums of cents\<close>

definition cents :: "int \<Rightarrow> rat" where
  "cents n = of_int n / 100"

named_theorems cents_simps "arithmetic of amounts in cents"

lemma cents_add [cents_simps]: "cents a + cents b = cents (a + b)"
  by (simp add: cents_def add_divide_distrib)

lemma cents_diff [cents_simps]: "cents a - cents b = cents (a - b)"
  by (simp add: cents_def diff_divide_distrib)

lemma cents_less [cents_simps]: "cents a < cents b \<longleftrightarrow> a < b"
  by (simp add: cents_def divide_less_cancel)

lemma cents_le [cents_simps]: "cents a \<le> cents b \<longleftrightarrow> a \<le> b"
  by (simp add: cents_def divide_le_cancel)

lemma cents_eq [cents_simps]: "cents a = cents b \<longleftrightarrow> a = b"
  by (simp add: cents_def)

lemma cents_0: "0 = cents 0"
  by (simp add: cents_def)

lemma cents_1: "1 / 100 = cents 1"
  by (simp add: cents_def)

lemma sum_cents [cents_simps]: "sum_list (map (\<lambda>i. cents (f i)) js) = cents (sum_list (map f js))"
  unfolding cents_def by (rule sum_scaled_cents)

lemma dec_ctx_cents': "\<bar>n\<bar> < 10 ^ prec \<Longrightarrow> dec_ctx prec (cents n) = cents n"
  unfolding cents_def by (rule dec_ctx_cents)

lemma dec_fold_cents:
  assumes "\<bar>n\<bar> + sum_list (map (\<lambda>i. \<bar>f i\<bar>) js) < 10 ^ prec"
  shows "fold (\<lambda>v acc. dec_ctx prec (acc + v)) (map (\<lambda>i. cents (f i)) js) (cents n) = cents (n + sum_list (map f js))"
  using assms
proof (induction js arbitrary: n)
  case (Cons j js)
  have "0 \<le> sum_list (map (\<lambda>i. \<bar>f i\<bar>) js)" by (rule sum_list_nonneg) auto
  with Cons.prems have b: "\<bar>n + f j\<bar> < 10 ^ prec" "\<bar>n + f j\<bar> + sum_list (map (\<lambda>i. \<bar>f i\<bar>) js) < 10 ^ prec" by auto
  then show ?case using Cons.IH [OF b(2)] by (simp add: cents_add dec_ctx_cents' add.assoc)
qed simp

lemma dec_sum_cents:
  assumes "sum_list (map (\<lambda>i. \<bar>f i\<bar>) js) < 10 ^ prec"
  shows "dec_sum_at prec (map (\<lambda>i. cents (f i)) js) = cents (sum_list (map f js))"
  using dec_fold_cents [of 0 f js prec] assms by (simp add: dec_sum_at_def cents_def)

lemma sum_abs_le:
  assumes "\<And>i. i \<in> set js \<Longrightarrow> \<bar>f i\<bar> \<le> (m :: int)"
  shows "sum_list (map (\<lambda>i. \<bar>f i\<bar>) js) \<le> int (length js) * m"
  using sum_list_mono [of js "\<lambda>i. \<bar>f i\<bar>" "\<lambda>_. m"] assms by (simp add: sum_list_triv)

lemma dec_sum_cents_le:
  assumes "\<And>i. i \<in> set js \<Longrightarrow> \<bar>f i\<bar> \<le> m" and "int (length js) * m < 10 ^ prec"
  shows "dec_sum_at prec (map (\<lambda>i. cents (f i)) js) = cents (sum_list (map f js))"
  by (rule dec_sum_cents, rule order_le_less_trans [OF sum_abs_le assms(2)]) (rule assms(1))

lemma dec_sub_cents: "\<bar>a - b\<bar> < 10 ^ DEFAULT_PREC \<Longrightarrow> dec_sub (cents a) (cents b) = cents (a - b)"
  by (simp add: dec_sub_def cents_diff dec_ctx_cents')

lemma dec_add_cents: "\<bar>a + b\<bar> < 10 ^ DEFAULT_PREC \<Longrightarrow> dec_add (cents a) (cents b) = cents (a + b)"
  by (simp add: dec_add_def cents_add dec_ctx_cents')

lemma calc_money_cents: "\<bar>n\<bar> < 10 ^ DEFAULT_PREC \<Longrightarrow> calc_money (cents n) = Inr (cents n)"
  by (simp add: calc_money_at_def money_cents_exact cents_def)

section \<open>Rounding down\<close>

lemma floor_bases_ok:
  assumes "\<And>i. i \<in> set ks \<Longrightarrow> \<bar>\<lfloor>a i * 100\<rfloor>\<bar> < 10 ^ DEFAULT_PREC"
  shows "floor_bases (map (\<lambda>i. (i, a i)) ks) = Inr (map (\<lambda>i. (i, cents \<lfloor>a i * 100\<rfloor>)) ks)"
  using assms by (induction ks) (simp_all add: money_floor_def cents_def)

lemma map_of_graph: "map_of (map (\<lambda>i. (i, h i)) ks) i = (if i \<in> set ks then Some (h i) else None)"
  by (induction ks) auto

lemma dict_set_graph:
  "i \<in> set ks \<Longrightarrow> dict_set i v (map (\<lambda>i. (i, h i)) ks) = map (\<lambda>j. (j, if j = i then v else h j)) ks"
  by (auto simp: dict_set_def image_iff)

lemma add_cents_graph:
  assumes "distinct js" and "set js \<subseteq> set ks" and "\<And>i. i \<in> set ks \<Longrightarrow> \<bar>g i\<bar> + 1 < 10 ^ DEFAULT_PREC"
  shows "add_cents js (map (\<lambda>i. (i, cents (g i))) ks) = map (\<lambda>i. (i, cents (g i + (if i \<in> set js then 1 else 0)))) ks"
  using assms
proof (induction js rule: rev_induct)
  case (snoc j js)
  then have j: "j \<in> set ks" "j \<notin> set js" by auto
  have "\<bar>g j + 1\<bar> < 10 ^ DEFAULT_PREC" using snoc.prems(3) [OF j(1)] by linarith
  then have v: "dec_add (cents (g j)) (cents 1) = cents (g j + 1)" by (rule dec_add_cents)
  have "add_cents (js @ [j]) (map (\<lambda>i. (i, cents (g i))) ks)
      = dict_set j (cents (g j + 1)) (map (\<lambda>i. (i, cents (g i + (if i \<in> set js then 1 else 0)))) ks)"
    using snoc j v by (simp add: add_cents_def cents_1 map_of_graph)
  then show ?case using j by (auto simp: dict_set_graph)
qed (simp add: add_cents_def)

lemma store_proposed_graph:
  assumes "\<And>i. i < length rows \<Longrightarrow> k + i \<in> set ks"
  shows "store_proposed (map (\<lambda>i. (i, h i)) ks) k rows
    = Inr (map (\<lambda>i. (rows ! i)\<lparr>tr_proposed := h (k + i)\<rparr>) [0..<length rows])"
  using assms
proof (induction rows arbitrary: k)
  case (Cons row rows)
  have "Suc k + i \<in> set ks" if "i < length rows" for i using Cons.prems [of "Suc i"] that by simp
  from Cons.IH [OF this] Cons.prems [of 0] show ?case
    by (simp add: map_of_graph upt_conv_Cons map_Suc_upt [symmetric] del: upt_Suc)
qed simp

section \<open>The cents left\<close>

text \<open>Fewer than one part of a whole is off, so there are cents left for at most the parts with a fraction.\<close>

lemma residual_cents_bounds:
  fixes a :: "'i \<Rightarrow> rat"
  assumes near: "\<bar>sum_list (map a ks) - of_int q\<bar> < 1"
  shows "0 \<le> q - sum_list (map (\<lambda>i. \<lfloor>a i\<rfloor>) ks)
    \<and> q - sum_list (map (\<lambda>i. \<lfloor>a i\<rfloor>) ks) \<le> int (length (filter (\<lambda>i. 0 < frac (a i)) ks))"
proof -
  let ?F = "sum_list (map (\<lambda>i. frac (a i)) ks)" and ?k = "length (filter (\<lambda>i. 0 < frac (a i)) ks)"
  have sum: "sum_list (map a ks) = of_int (sum_list (map (\<lambda>i. \<lfloor>a i\<rfloor>) ks)) + ?F"
    by (induction ks) (simp_all add: frac_def)
  have F: "0 \<le> ?F \<and> ?F \<le> of_nat ?k \<and> (?k = 0 \<or> ?F < of_nat ?k)"
  proof (induction ks)
    case (Cons i ks)
    have "0 \<le> frac (a i)" "frac (a i) < 1" by (simp_all add: frac_lt_1)
    with Cons show ?case
      by (cases "0 < frac (a i)") (auto simp del: frac_gt_0_iff frac_eq_0_iff)
  qed simp
  let ?N = "q - sum_list (map (\<lambda>i. \<lfloor>a i\<rfloor>) ks)"
  have N: "\<bar>?F - of_int ?N\<bar> < 1" using near sum by simp
  have "-1 < (of_int ?N :: rat)" using N F by linarith
  then have "0 \<le> ?N" by linarith
  moreover have "(of_int ?N :: rat) < of_int (int ?k + 1)" using N F by (simp only: of_int_add of_int_of_nat_eq) linarith
  then have "?N \<le> int ?k" by linarith
  ultimately show ?thesis by blast
qed

lemma money_remainder_cents: "\<bar>n\<bar> < 10 ^ DEFAULT_PREC \<Longrightarrow> money_remainder (cents n) = Inr 0"
  by (simp add: money_remainder_def cents_def)

lemma residual_cents_count: "\<bar>n\<bar> < 10 ^ DEFAULT_PREC \<Longrightarrow> py_trunc (dec_ctx DEFAULT_PREC (cents n * 100)) = n"
  by (simp add: cents_def dec_ctx_int)

text \<open>Every part with a fraction of a cent has room for one more cent below its cap, a whole number of cents.\<close>

lemma fraction_has_room:
  assumes "a \<le> cents c" and "0 < frac (a * 100)"
  shows "\<lfloor>a * 100\<rfloor> + 1 \<le> c"
proof -
  have "of_int \<lfloor>a * 100\<rfloor> < a * 100" using assms(2) by (simp add: frac_def)
  also have "a * 100 \<le> of_int c" using assms(1) by (simp add: cents_def)
  finally show ?thesis by simp
qed

lemma floor_between:
  assumes "cents f \<le> a" and "a \<le> cents c"
  shows "f \<le> \<lfloor>a * 100\<rfloor> \<and> \<lfloor>a * 100\<rfloor> \<le> c"
proof -
  have "of_int f \<le> a * 100" "a * 100 \<le> of_int c" using assms by (simp_all add: cents_def)
  then show ?thesis by (simp add: le_floor_iff) linarith
qed

lemma dec_ctx_pos: "0 < prec \<Longrightarrow> 0 < x \<Longrightarrow> 0 < dec_ctx prec x"
proof -
  assume p: "0 < prec" and x: "0 < x"
  have "(10 :: rat) powi (- int prec) \<le> 10 powi (- 1)" using p by (intro power_int_increasing) auto
  then have "x * 5 * 10 powi (- int prec) \<le> x * 5 * 10 powi (- 1)" using x by (intro mult_left_mono) auto
  also have "\<dots> < x" using x by (simp add: power_int_minus)
  finally have "x * 5 * 10 powi (- int prec) < x" .
  with dec_ctx_error [OF p, of x] x show ?thesis by linarith
qed

section \<open>The rounding phase\<close>

definition floor_cents :: "target_row \<Rightarrow> int" where
  "floor_cents row = \<lfloor>tr_floor row * 100\<rfloor>"

definition cap_cents :: "target_row \<Rightarrow> int" where
  "cap_cents row = \<lfloor>tr_cap row * 100\<rfloor>"

text \<open>A normalized row: both bounds are whole cents of at most \<open>m\<close>, the floor below the cap.\<close>

definition row_ok :: "int \<Rightarrow> target_row \<Rightarrow> bool" where
  "row_ok m row \<longleftrightarrow> tr_floor row = cents (floor_cents row) \<and> tr_cap row = cents (cap_cents row)
     \<and> floor_cents row \<le> cap_cents row \<and> \<bar>floor_cents row\<bar> \<le> m \<and> \<bar>cap_cents row\<bar> \<le> m"

lemma round_candidates_graph:
  assumes "distinct ks" and "\<And>i. i \<in> set ks \<Longrightarrow> row_ok m (rows ! i) \<and> \<bar>b i\<bar> \<le> m"
    and "2 * m < 10 ^ DEFAULT_PREC"
  shows "round_candidates rows (map (\<lambda>i. (i, a i)) ks) (map (\<lambda>i. (i, cents (b i))) ks)
    = sort_key (\<lambda>i. (- dec_sub (a i) (cents (b i)), tr_site_code (rows ! i), i)) (filter (\<lambda>i. b i < cap_cents (rows ! i)) ks)"
proof -
  have room: "1 / 100 \<le> dec_sub (tr_cap (rows ! i)) (cents (b i)) \<longleftrightarrow> b i < cap_cents (rows ! i)" if "i \<in> set ks" for i
  proof -
    have c: "tr_cap (rows ! i) = cents (cap_cents (rows ! i))" and "\<bar>cap_cents (rows ! i)\<bar> \<le> m" "\<bar>b i\<bar> \<le> m"
      using assms(2) [OF that] by (auto simp: row_ok_def)
    then have "\<bar>cap_cents (rows ! i) - b i\<bar> < 10 ^ DEFAULT_PREC" using assms(3) by linarith
    then show ?thesis unfolding c by (simp only: dec_sub_cents cents_1 cents_le) linarith
  qed
  have "filter (\<lambda>(i, b). 1 / 100 \<le> dec_sub (tr_cap (rows ! i)) b) (map (\<lambda>i. (i, cents (b i))) ks)
      = map (\<lambda>i. (i, cents (b i))) (filter (\<lambda>i. b i < cap_cents (rows ! i)) ks)"
    unfolding filter_map comp_def by (simp only: prod.case room cong: filter_cong)
  then have "map fst (filter (\<lambda>(i, b). 1 / 100 \<le> dec_sub (tr_cap (rows ! i)) b) (map (\<lambda>i. (i, cents (b i))) ks))
      = filter (\<lambda>i. b i < cap_cents (rows ! i)) ks" by (simp add: comp_def)
  moreover have "sort_key (\<lambda>i. (- dec_sub (the (map_of (map (\<lambda>i. (i, a i)) ks) i)) (the (map_of (map (\<lambda>i. (i, cents (b i))) ks) i)),
        tr_site_code (rows ! i), i)) (filter (\<lambda>i. b i < cap_cents (rows ! i)) ks)
      = sort_key (\<lambda>i. (- dec_sub (a i) (cents (b i)), tr_site_code (rows ! i), i)) (filter (\<lambda>i. b i < cap_cents (rows ! i)) ks)"
    by (rule sort_key_same) (auto simp: map_of_graph)
  ultimately show ?thesis by (simp add: round_candidates_def)
qed

text \<open>The cents left go to members with a fraction, one each.\<close>

lemma residual_winners:
  fixes d :: "nat \<Rightarrow> rat"
  assumes ks: "distinct ks" and P: "\<And>i. i \<in> set ks \<Longrightarrow> (0 < d i \<longleftrightarrow> P i) \<and> (P i \<longrightarrow> r i)"
    and N: "n \<le> length (filter P ks)"
    and js: "js = take n (sort_key (\<lambda>i. (- d i, s i :: string, i)) (filter r ks))"
  shows "distinct js \<and> length js = n \<and> (\<forall>j \<in> set js. j \<in> set ks \<and> r j \<and> P j)"
proof -
  let ?c = "sort_key (\<lambda>i. (- d i, s i, i)) (filter r ks)"
  have f: "filter P ks = filter (\<lambda>i. - d i < 0) (filter r ks)"
    unfolding filter_filter by (rule filter_cong) (use P in auto)
  have len: "length (filter (\<lambda>i. - d i < 0) ?c) = length (filter P ks)"
    unfolding f using ks by (simp only: filter_sort length_sort)
  have "sorted (map (\<lambda>i. (- d i, s i, i)) ?c)" by simp
  then have "sorted (map (\<lambda>i. - d i) ?c)" by (rule sorted_map_weaken) (auto simp: less_eq_prod_def)
  moreover have "n \<le> length (filter (\<lambda>i. - d i < 0) ?c)" using N unfolding len .
  ultimately have low: "- d j < 0" if "j \<in> set js" for j
    using that unfolding js by (rule sorted_take_below)
  have len': "length (filter P ks) \<le> length ?c" unfolding len [symmetric] by (rule length_filter_le)
  have "length js = n" unfolding js length_take by (rule min_absorb2) (rule order_trans [OF N len'])
  moreover have "distinct js" using js ks by simp
  moreover have "j \<in> set (filter r ks)" if "j \<in> set js" for j
    using that unfolding js by (rule subsetD [OF set_sort_key_take])
  ultimately show ?thesis using low P by auto
qed

lemma fraction_key:
  fixes a :: rat
  defines "b \<equiv> \<lfloor>a * 100\<rfloor>"
  shows "0 < dec_sub a (cents b) \<longleftrightarrow> 0 < frac (a * 100)"
proof -
  have "a - cents b = frac (a * 100) / 100" by (simp add: frac_def b_def cents_def)
  moreover have "0 < dec_ctx DEFAULT_PREC (frac (a * 100) / 100) \<longleftrightarrow> 0 < frac (a * 100)"
    using dec_ctx_pos [of DEFAULT_PREC "frac (a * 100) / 100"] frac_ge_0 [of "a * 100"]
    by (cases "frac (a * 100) = 0") (auto simp: DEFAULT_PREC_def less_le simp del: frac_gt_0_iff frac_eq_0_iff)
  ultimately show ?thesis unfolding dec_sub_def by (simp only:)
qed

lemma sum_plus_winners:
  assumes "distinct ks" and "distinct js" and "set js \<subseteq> set ks"
  shows "sum_list (map (\<lambda>i. b i + (if i \<in> set js then 1 else 0)) ks) = sum_list (map b ks) + int (length js)"
proof -
  have "set js \<inter> set ks = set js" using assms(3) by blast
  then show ?thesis
    using sum_list_if_mem [OF assms(1), of "set js", where 'b = int] assms(2)
    unfolding sum_list_map_add by (simp add: distinct_card)
qed

lemma round_bounded_eval:
  fixes a :: "nat \<Rightarrow> rat" and q :: int
  assumes ks: "distinct ks" "set ks = {0..<length rows}"
    and b: "\<And>i. i \<in> set ks \<Longrightarrow> \<bar>b i\<bar> \<le> m \<and> row_ok m (rows ! i) \<and> b i = \<lfloor>a i * 100\<rfloor>"
    and N: "N = q - sum_list (map b ks)" "0 \<le> N" "N \<le> int (length cands)"
    and cands: "cands = sort_key (\<lambda>i. (- dec_sub (a i) (cents (b i)), tr_site_code (rows ! i), i))
      (filter (\<lambda>i. b i < cap_cents (rows ! i)) ks)"
    and big: "2 * m < 10 ^ DEFAULT_PREC" "m + 1 < 10 ^ DEFAULT_PREC" "int (length ks) * m < 10 ^ DEFAULT_PREC"
      "int (length ks) < 10 ^ DEFAULT_PREC"
  shows "round_bounded_allocations rows (map (\<lambda>i. (i, a i)) ks) (cents q) floor_total cap_total
      = Inr (map (\<lambda>i. (rows ! i)\<lparr>tr_proposed := cents (b i + (if i \<in> set (take (nat N) cands) then 1 else 0))\<rparr>) [0..<length rows])"
proof -
  define p where "p i = b i + (if i \<in> set (take (nat N) cands) then 1 else 0)" for i
  have "length cands \<le> length ks" by (simp add: cands)
  then have Nb: "\<bar>N\<bar> < 10 ^ DEFAULT_PREC" using N(2,3) big(4) by linarith
  have eq: "map (\<lambda>i. (i, cents \<lfloor>a i * 100\<rfloor>)) ks = map (\<lambda>i. (i, cents (b i))) ks" using b by simp
  have bases: "floor_bases (map (\<lambda>i. (i, a i)) ks) = Inr (map (\<lambda>i. (i, cents (b i))) ks)"
    unfolding eq [symmetric] by (rule floor_bases_ok) (use b big(2) in fastforce)
  have total: "dec_sum (map snd (map (\<lambda>i. (i, cents (b i))) ks)) = cents (sum_list (map b ks))"
    unfolding map_map comp_def snd_conv by (rule dec_sum_cents_le [OF _ big(3)]) (use b in blast)
  have res: "dec_sub (cents q) (cents (sum_list (map b ks))) = cents N"
    using Nb unfolding N(1) by (rule dec_sub_cents)
  have c: "round_candidates rows (map (\<lambda>i. (i, a i)) ks) (map (\<lambda>i. (i, cents (b i))) ks) = cands"
    unfolding cands by (rule round_candidates_graph [OF ks(1) _ big(1)]) (use b in blast)
  have "set (take (nat N) cands) \<subseteq> set ks"
    using set_take_subset [of "nat N" cands] by (auto simp: cands)
  moreover have "distinct (take (nat N) cands)" using ks(1) by (simp add: cands)
  ultimately have add: "add_cents (take (nat N) cands) (map (\<lambda>i. (i, cents (b i))) ks) = map (\<lambda>i. (i, cents (p i))) ks"
    unfolding p_def by (intro add_cents_graph) (use b big(2) in fastforce)+
  have store: "store_proposed (map (\<lambda>i. (i, cents (p i))) ks) 0 rows
      = Inr (map (\<lambda>i. (rows ! i)\<lparr>tr_proposed := cents (p i)\<rparr>) [0..<length rows])"
    using store_proposed_graph [of rows 0 ks "\<lambda>i. cents (p i)"] ks(2) by simp
  have "\<not> cents N < 0" "\<not> int (length cands) < N" using N(2,3) by (simp_all add: cents_def)
  then show ?thesis
    unfolding round_bounded_allocations_def bases res_bind_simps total res Let_def money_remainder_cents [OF Nb]
      residual_cents_count [OF Nb] c
    using add store by (simp add: p_def)
qed

lemma round_bounded_exact:
  assumes rows: "\<And>i. i < length rows \<Longrightarrow> row_ok m (rows ! i)"
    and ks: "distinct ks" "set ks = {0..<length rows}"
    and a: "\<And>i. i < length rows \<Longrightarrow> tr_floor (rows ! i) \<le> a i \<and> a i \<le> tr_cap (rows ! i)"
    and near: "\<bar>sum_list (map a ks) - cents q\<bar> < 1 / 100"
    and mag: "(int (length rows) + 2) * (m + 1) < 10 ^ DEFAULT_PREC" and m: "0 \<le> m"
  shows "\<exists>p. round_bounded_allocations rows (map (\<lambda>i. (i, a i)) ks) (cents q) floor_total cap_total
      = Inr (map (\<lambda>i. (rows ! i)\<lparr>tr_proposed := cents (p i)\<rparr>) [0..<length rows])
    \<and> sum_list (map p ks) = q
    \<and> (\<forall>i < length rows. floor_cents (rows ! i) \<le> p i \<and> p i \<le> cap_cents (rows ! i)
        \<and> \<lfloor>a i * 100\<rfloor> \<le> p i \<and> p i \<le> \<lceil>a i * 100\<rceil>)"
proof -
  define b where "b i = \<lfloor>a i * 100\<rfloor>" for i
  define N where "N = q - sum_list (map b ks)"
  define cands where "cands = sort_key (\<lambda>i. (- dec_sub (a i) (cents (b i)), tr_site_code (rows ! i), i))
    (filter (\<lambda>i. b i < cap_cents (rows ! i)) ks)"
  define js where "js = take (nat N) cands"
  define p where "p i = b i + (if i \<in> set js then 1 else 0)" for i
  have len: "length ks = length rows" using ks by (metis distinct_card card_atLeastLessThan diff_zero)
  have "(int (length rows) + 2) * (m + 1) = int (length rows) * m + int (length rows) + 2 * m + 2" by (simp add: algebra_simps)
  moreover have "0 \<le> int (length rows) * m" using m by simp
  ultimately have big: "2 * m < 10 ^ DEFAULT_PREC" "m + 1 < 10 ^ DEFAULT_PREC" "int (length ks) * m < 10 ^ DEFAULT_PREC"
      "int (length ks) < 10 ^ DEFAULT_PREC"
    using mag m unfolding len by linarith+
  have b: "floor_cents (rows ! i) \<le> b i \<and> b i \<le> cap_cents (rows ! i) \<and> \<bar>b i\<bar> \<le> m \<and> row_ok m (rows ! i)"
    if "i \<in> set ks" for i
    using that rows [of i] a [of i] floor_between [of "floor_cents (rows ! i)" "a i" "cap_cents (rows ! i)"] ks(2)
    by (auto simp: row_ok_def b_def)
  have "sum_list (map (\<lambda>i. a i * 100) ks) = sum_list (map a ks) * 100" by (rule sum_list_mult_const)
  then have "\<bar>sum_list (map (\<lambda>i. a i * 100) ks) - of_int q\<bar> < 1"
    using near by (simp add: cents_def abs_less_iff field_simps)
  from residual_cents_bounds [OF this] have N: "0 \<le> N" "N \<le> int (length (filter (\<lambda>i. 0 < frac (a i * 100)) ks))"
    unfolding N_def b_def by blast+
  have room: "(0 < dec_sub (a i) (cents (b i)) \<longleftrightarrow> 0 < frac (a i * 100)) \<and> (0 < frac (a i * 100) \<longrightarrow> b i < cap_cents (rows ! i))"
    if "i \<in> set ks" for i
    using that b [OF that] a [of i] ks(2) fraction_has_room [of "a i" "cap_cents (rows ! i)"] fraction_key [of "a i"]
    unfolding row_ok_def b_def by (simp only: add1_zle_eq) (simp del: frac_gt_0_iff)
  have Nf: "nat N \<le> length (filter (\<lambda>i. 0 < frac (a i * 100)) ks)" using N(2) by linarith
  have w: "distinct js \<and> length js = nat N \<and> (\<forall>j \<in> set js. j \<in> set ks \<and> b j < cap_cents (rows ! j) \<and> 0 < frac (a j * 100))"
    by (rule residual_winners [OF ks(1) room Nf, where s = "\<lambda>i. tr_site_code (rows ! i)"]) (simp_all add: js_def cands_def)
  have "length js \<le> length cands" by (simp add: js_def)
  with w N(1) have enough: "N \<le> int (length cands)" by linarith
  have "round_bounded_allocations rows (map (\<lambda>i. (i, a i)) ks) (cents q) floor_total cap_total
      = Inr (map (\<lambda>i. (rows ! i)\<lparr>tr_proposed := cents (p i)\<rparr>) [0..<length rows])"
    unfolding p_def js_def by (rule round_bounded_eval [OF ks _ N_def N(1) enough cands_def big]) (use b in \<open>auto simp: b_def\<close>)
  moreover have "sum_list (map p ks) = q"
    unfolding p_def using sum_plus_winners [OF ks(1), of js b] w N(1) by (auto simp: N_def)
  moreover have "floor_cents (rows ! i) \<le> p i \<and> p i \<le> cap_cents (rows ! i) \<and> \<lfloor>a i * 100\<rfloor> \<le> p i \<and> p i \<le> \<lceil>a i * 100\<rceil>"
    if "i < length rows" for i
    using that b [of i] w ks(2) by (cases "i \<in> set js") (auto simp: p_def b_def ceiling_altdef Ints_def)
  ultimately show ?thesis by blast
qed

end
