(* ===== verification/Target_Solver.thy ===== *)
theory Target_Solver
  imports Target_Rounding
begin

text \<open>
  The search for the multiplier of the weights (\<^verbatim>\<open>_solve_positive_box\<close>) under decimal rounding:
  for a budget strictly between the floors and the caps the binary search ends at a pair of
  neighbouring break points around the budget, and the interval between them yields amounts
  within every bound whose total misses the budget by far less than a cent.
\<close>

section \<open>Arithmetic with a relative rounding error\<close>

locale relative_rounding =
  fixes rnd :: "rat \<Rightarrow> rat" and u :: rat
  assumes rnd_error: "\<bar>rnd x - x\<bar> \<le> \<bar>x\<bar> * u"
    and u_bounds: "0 \<le> u" "u \<le> 1 / 2"
begin

lemma rnd_near: "\<bar>x\<bar> \<le> b \<Longrightarrow> \<bar>rnd x - x\<bar> \<le> b * u"
  using rnd_error [of x] mult_right_mono [of "\<bar>x\<bar>" b u] u_bounds by linarith

lemma rnd_bound: "\<bar>x\<bar> \<le> b \<Longrightarrow> \<bar>rnd x\<bar> \<le> 2 * b"
proof -
  assume x: "\<bar>x\<bar> \<le> b"
  have "b * u \<le> b * (1 / 2)" using x u_bounds by (intro mult_left_mono) auto
  with rnd_near [OF x] x show ?thesis by linarith
qed

text \<open>The error of a sum is bounded by its largest partial sum.\<close>

lemma rnd_sum:
  assumes "\<And>k. k \<le> length vs \<Longrightarrow> \<bar>sum_list (take k vs)\<bar> \<le> b" and "2 * of_nat (length vs) * u \<le> 1"
  shows "\<bar>fold (\<lambda>v acc. rnd (acc + v)) vs 0 - sum_list vs\<bar> \<le> 2 * of_nat (length vs) * u * b"
  using assms
proof (induction vs rule: rev_induct)
  case (snoc v vs)
  let ?s = "fold (\<lambda>v acc. rnd (acc + v)) vs 0" and ?k = "of_nat (length vs) :: rat"
  have b: "0 \<le> b" using snoc.prems(1) [of 0] by simp
  have pre: "\<bar>sum_list (take k vs)\<bar> \<le> b" if "k \<le> length vs" for k using snoc.prems(1) [of k] that by simp
  have k: "2 * ?k * u \<le> 1" using snoc.prems(2) u_bounds by (simp add: algebra_simps)
  have IH: "\<bar>?s - sum_list vs\<bar> \<le> 2 * ?k * u * b" using snoc.IH [OF pre k] .
  have "2 * ?k * u * b \<le> 1 * b" using k b by (rule mult_right_mono)
  moreover have "\<bar>sum_list vs + v\<bar> \<le> b" using snoc.prems(1) [of "Suc (length vs)"] by simp
  ultimately have "\<bar>?s + v\<bar> \<le> 2 * b" using IH by linarith
  from rnd_near [OF this] have "\<bar>rnd (?s + v) - (sum_list vs + v)\<bar> \<le> 2 * b * u + 2 * ?k * u * b" using IH by linarith
  then show ?case by (simp add: algebra_simps)
qed simp

end

lemma powi_error: "(5 :: rat) * 10 powi (- int n) = 5 / 10 ^ n"
  by (simp add: power_int_minus field_simps)

definition box_unit :: rat where
  "box_unit = 5 / 10 ^ 60"

interpretation d60: relative_rounding "dec_ctx BOX_PREC" box_unit
proof
  fix x
  show "\<bar>dec_ctx BOX_PREC x - x\<bar> \<le> \<bar>x\<bar> * box_unit"
    using dec_ctx_error [of BOX_PREC x] powi_error [of BOX_PREC] by (simp add: BOX_PREC_def box_unit_def)
qed (simp_all add: box_unit_def)

section \<open>Clipping\<close>

lemma clip_bounds: "tr_floor row \<le> tr_cap row \<Longrightarrow> tr_floor row \<le> clip_box_value row v \<and> clip_box_value row v \<le> tr_cap row"
  by (simp add: clip_box_value_def)

lemma clip_lipschitz: "tr_floor row \<le> tr_cap row \<Longrightarrow> \<bar>clip_box_value row v - clip_box_value row v'\<bar> \<le> \<bar>v - v'\<bar>"
  by (auto simp: clip_box_value_def)

lemma clip_inside: "tr_floor row \<le> v \<Longrightarrow> v \<le> tr_cap row \<Longrightarrow> clip_box_value row v = v"
  by (simp add: clip_box_value_def)

lemma clip_near:
  assumes "tr_floor row \<le> tr_cap row" and "tr_floor row - d \<le> v" and "v \<le> tr_cap row + d" and "0 \<le> d"
  shows "\<bar>clip_box_value row v - v\<bar> \<le> d"
  using assms by (auto simp: clip_box_value_def abs_if)

lemma clip_low:
  assumes "tr_floor row \<le> tr_cap row" and "v \<le> tr_floor row + d" and "0 \<le> d"
  shows "\<bar>clip_box_value row v - tr_floor row\<bar> \<le> d"
  using assms by (auto simp: clip_box_value_def abs_if)

lemma clip_high:
  assumes "tr_floor row \<le> tr_cap row" and "tr_cap row - d \<le> v" and "0 \<le> d"
  shows "\<bar>clip_box_value row v - tr_cap row\<bar> \<le> d"
  using assms by (auto simp: clip_box_value_def abs_if)

lemma near_trans: "\<bar>a - b\<bar> \<le> p \<Longrightarrow> \<bar>b - c\<bar> \<le> q \<Longrightarrow> \<bar>a - c\<bar> \<le> p + (q :: rat)"
  by linarith

lemma abs_scaled: "0 < w \<Longrightarrow> \<bar>a * w - b * w\<bar> = \<bar>a - b\<bar> * (w :: rat)"
  by (simp add: left_diff_distrib [symmetric] abs_mult)

lemma half_le: "0 \<le> a \<Longrightarrow> a \<le> b \<Longrightarrow> a / 2 \<le> (b :: rat)"
  by linarith

lemma tenth_error_upper: "\<bar>a - b\<bar> \<le> \<bar>b\<bar> / 10 \<Longrightarrow> \<bar>a\<bar> \<le> q \<Longrightarrow> 9 * \<bar>b\<bar> \<le> 10 * (q :: rat)"
  by (auto simp: abs_if split: if_splits)

section \<open>The box\<close>

text \<open>
  Bounds of at most \<open>m\<close>, positive weights whose ratios keep \<open>m\<close> within \<open>y\<close>, and few enough
  members that the rounding errors of the search, \<open>dust\<close>, stay far below its tolerance.
\<close>

definition dust :: "nat \<Rightarrow> rat \<Rightarrow> rat" where
  "dust n y = 20 * box_unit * of_nat n * y"

definition box_ok :: "target_row list \<Rightarrow> nat list \<Rightarrow> (nat \<Rightarrow> rat) \<Rightarrow> rat \<Rightarrow> rat \<Rightarrow> bool" where
  "box_ok rows ks w m y \<longleftrightarrow> ks \<noteq> [] \<and> distinct ks
     \<and> (\<forall>i \<in> set ks. tr_floor (rows ! i) \<le> tr_cap (rows ! i) \<and> \<bar>tr_floor (rows ! i)\<bar> \<le> m \<and> \<bar>tr_cap (rows ! i)\<bar> \<le> m
          \<and> 0 < w i \<and> (\<forall>j \<in> set ks. m * w i \<le> y * w j))
     \<and> 24 * of_nat (length ks) ^ 2 * dust (length ks) y \<le> 9 / 10 ^ 31 \<and> 1 \<le> m"

lemma box_okD:
  assumes "box_ok rows ks w m y"
  shows "ks \<noteq> []" "distinct ks" "1 \<le> m" "m \<le> y" "0 \<le> dust (length ks) y" "1 \<le> (of_nat (length ks) :: rat)"
    "\<And>i. i \<in> set ks \<Longrightarrow> tr_floor (rows ! i) \<le> tr_cap (rows ! i) \<and> \<bar>tr_floor (rows ! i)\<bar> \<le> m \<and> \<bar>tr_cap (rows ! i)\<bar> \<le> m \<and> 0 < w i"
    "\<And>i j. i \<in> set ks \<Longrightarrow> j \<in> set ks \<Longrightarrow> m * w i \<le> y * w j"
proof -
  show a: "ks \<noteq> []" "distinct ks" "1 \<le> m" using assms by (auto simp: box_ok_def)
  show "tr_floor (rows ! i) \<le> tr_cap (rows ! i) \<and> \<bar>tr_floor (rows ! i)\<bar> \<le> m \<and> \<bar>tr_cap (rows ! i)\<bar> \<le> m \<and> 0 < w i"
    if "i \<in> set ks" for i using assms that by (auto simp: box_ok_def)
  show r: "m * w i \<le> y * w j" if "i \<in> set ks" "j \<in> set ks" for i j using assms that by (auto simp: box_ok_def)
  obtain i where i: "i \<in> set ks" "0 < w i" using assms by (cases ks) (auto simp: box_ok_def)
  show y: "m \<le> y" using r [OF i(1) i(1)] i(2) by simp
  have "length ks \<noteq> 0" using a(1) by simp
  then show "1 \<le> (of_nat (length ks) :: rat)" by (metis One_nat_def Suc_leI gr0I of_nat_1 of_nat_mono)
  show "0 \<le> dust (length ks) y" using y a(3) by (simp add: dust_def box_unit_def)
qed


lemma box_ok_small: "box_ok rows ks w m y \<Longrightarrow> of_nat (length ks) * dust (length ks) y \<le> 4 / 10 ^ 32"
proof -
  assume ok: "box_ok rows ks w m y"
  let ?n = "of_nat (length ks) :: rat"
  have "?n * dust (length ks) y * 1 \<le> ?n * dust (length ks) y * ?n"
    using box_okD(5,6) [OF ok] by (intro mult_left_mono) auto
  moreover have "24 * ?n ^ 2 * dust (length ks) y \<le> 9 / 10 ^ 31" using ok by (simp add: box_ok_def)
  ultimately show ?thesis by (simp add: power2_eq_square algebra_simps)
qed

lemma box_ok_units: "box_ok rows ks w m y \<Longrightarrow> 2 * of_nat (length ks) * box_unit \<le> 1 / 2"
proof -
  assume ok: "box_ok rows ks w m y"
  let ?n = "of_nat (length ks) :: rat"
  have n: "1 \<le> ?n" and y: "1 \<le> y" using box_okD(3,4,6) [OF ok] by auto
  have "1 * 1 \<le> ?n * y" using n y by (intro mult_mono) auto
  then have "(?n * box_unit) * 1 \<le> (?n * box_unit) * (?n * y)" by (intro mult_left_mono) (simp_all add: box_unit_def)
  also have "\<dots> = ?n * dust (length ks) y / 20" by (simp add: dust_def algebra_simps)
  finally show ?thesis using box_ok_small [OF ok] by simp
qed

definition box_amount :: "target_row list \<Rightarrow> (nat \<Rightarrow> rat) \<Rightarrow> rat \<Rightarrow> nat \<Rightarrow> rat" where
  "box_amount rows w x i = clip_box_value (rows ! i) (dec_ctx BOX_PREC (x * w i))"

definition box_exact :: "target_row list \<Rightarrow> (nat \<Rightarrow> rat) \<Rightarrow> rat \<Rightarrow> nat \<Rightarrow> rat" where
  "box_exact rows w x i = clip_box_value (rows ! i) (x * w i)"

lemma allocations_total_amounts:
  "allocations_total rows ks w x = (dec_sum_at BOX_PREC (map (box_amount rows w x) ks), map (\<lambda>i. (i, box_amount rows w x i)) ks)"
  by (simp add: allocations_total_def box_allocations_at_def box_amount_def [abs_def] Let_def comp_def)

lemma box_amount_bounds:
  assumes "box_ok rows ks w m y" and "i \<in> set ks"
  shows "tr_floor (rows ! i) \<le> box_amount rows w x i \<and> box_amount rows w x i \<le> tr_cap (rows ! i) \<and> \<bar>box_amount rows w x i\<bar> \<le> m"
  using clip_bounds [of "rows ! i" "dec_ctx BOX_PREC (x * w i)"] box_okD(7) [OF assms] unfolding box_amount_def by linarith

lemma box_amount_near:
  assumes "box_ok rows ks w m y" and "i \<in> set ks" and "\<bar>x * w i\<bar> \<le> 2 * y"
  shows "\<bar>box_amount rows w x i - box_exact rows w x i\<bar> \<le> 2 * y * box_unit"
  using clip_lipschitz [of "rows ! i"] box_okD(7) [OF assms(1,2)] d60.rnd_near [OF assms(3)]
  unfolding box_amount_def box_exact_def by (meson order_trans)

text \<open>The sum of amounts of at most \<open>m\<close>.\<close>

lemma partial_sum_bound:
  assumes "\<And>i. i \<in> set ks \<Longrightarrow> \<bar>f i\<bar> \<le> (m :: rat)" and "0 \<le> m"
  shows "\<bar>sum_list (map f ks)\<bar> \<le> of_nat (length ks) * m"
proof -
  have "\<bar>sum_list (map f ks)\<bar> \<le> sum_list (map (\<lambda>i. \<bar>f i\<bar>) ks)" by (induction ks) auto
  also have "\<dots> \<le> sum_list (map (\<lambda>_. m) ks)" using assms(1) by (rule sum_list_mono)
  finally show ?thesis by (simp add: sum_list_triv)
qed

lemma box_sum_near:
  assumes ok: "box_ok rows ks w m y" and "length js \<le> length ks" and f: "\<And>i. i \<in> set js \<Longrightarrow> \<bar>f i\<bar> \<le> m"
  shows "\<bar>dec_sum_at BOX_PREC (map f js) - sum_list (map f js)\<bar> \<le> dust (length ks) y * of_nat (length ks) / 10"
proof -
  let ?n = "of_nat (length ks) :: rat" and ?k = "of_nat (length js) :: rat"
  have m: "0 \<le> m" "m \<le> y" using box_okD(3,4) [OF ok] by auto
  have k: "?k \<le> ?n" using assms(2) by simp
  have part: "\<bar>sum_list (take l (map f js))\<bar> \<le> ?n * m" for l
  proof -
    have "\<bar>sum_list (map f (take l js))\<bar> \<le> of_nat (length (take l js)) * m"
      by (rule partial_sum_bound) (use f m in \<open>auto dest: in_set_takeD\<close>)
    also have "\<dots> \<le> ?n * m" using m k by (intro mult_right_mono) auto
    finally show ?thesis by (simp add: take_map)
  qed
  have "2 * ?k * box_unit \<le> 2 * ?n * box_unit" using k by (intro mult_right_mono) (simp_all add: box_unit_def)
  then have "2 * of_nat (length (map f js)) * box_unit \<le> 1" using box_ok_units [OF ok] by simp
  from d60.rnd_sum [OF part this] have "\<bar>dec_sum_at BOX_PREC (map f js) - sum_list (map f js)\<bar> \<le> 2 * ?k * box_unit * (?n * m)"
    by (simp add: dec_sum_at_def)
  also have "\<dots> \<le> 2 * ?n * box_unit * (?n * y)"
    using k m by (intro mult_mono) (simp_all add: box_unit_def)
  also have "\<dots> = dust (length ks) y * ?n / 10" by (simp add: dust_def)
  finally show ?thesis .
qed


lemma sum_diff_bound:
  assumes "\<And>i. i \<in> set ks \<Longrightarrow> \<bar>f i - g i\<bar> \<le> (d :: rat)" and "0 \<le> d"
  shows "\<bar>sum_list (map f ks) - sum_list (map g ks)\<bar> \<le> of_nat (length ks) * d"
  using partial_sum_bound [of ks "\<lambda>i. f i - g i" d] assms by (simp add: sum_list_subtractf)

lemma unit_le_dust:
  assumes "box_ok rows ks w m y"
  shows "20 * y * box_unit \<le> dust (length ks) y"
proof -
  have "20 * y * box_unit * 1 \<le> 20 * y * box_unit * of_nat (length ks)"
    using box_okD(3,4,6) [OF assms] by (intro mult_left_mono) (simp_all add: box_unit_def)
  then show ?thesis by (simp add: dust_def algebra_simps)
qed

definition box_total :: "target_row list \<Rightarrow> nat list \<Rightarrow> (nat \<Rightarrow> rat) \<Rightarrow> rat \<Rightarrow> rat" where
  "box_total rows ks w x = dec_sum_at BOX_PREC (map (box_amount rows w x) ks)"

definition in_range :: "nat list \<Rightarrow> (nat \<Rightarrow> rat) \<Rightarrow> rat \<Rightarrow> rat \<Rightarrow> bool" where
  "in_range ks w y x \<longleftrightarrow> (\<forall>i \<in> set ks. \<bar>x * w i\<bar> \<le> 2 * y)"

lemma box_total_amounts:
  assumes "box_ok rows ks w m y"
  shows "\<bar>box_total rows ks w x - sum_list (map (box_amount rows w x) ks)\<bar> \<le> dust (length ks) y * of_nat (length ks) / 10"
  unfolding box_total_def by (rule box_sum_near [OF assms order_refl]) (use box_amount_bounds [OF assms] in blast)

lemma box_total_exact:
  assumes ok: "box_ok rows ks w m y" and "in_range ks w y x"
  shows "\<bar>box_total rows ks w x - sum_list (map (box_exact rows w x) ks)\<bar> \<le> dust (length ks) y * of_nat (length ks) / 5"
proof -
  have "\<bar>sum_list (map (box_amount rows w x) ks) - sum_list (map (box_exact rows w x) ks)\<bar> \<le> of_nat (length ks) * (2 * y * box_unit)"
    by (rule sum_diff_bound) (use box_amount_near [OF ok] assms(2) box_okD(3,4) [OF ok] in \<open>auto simp: in_range_def box_unit_def\<close>)
  also have "\<dots> \<le> of_nat (length ks) * (dust (length ks) y / 10)"
    using unit_le_dust [OF ok] by (intro mult_left_mono) auto
  finally have "\<bar>sum_list (map (box_amount rows w x) ks) - sum_list (map (box_exact rows w x) ks)\<bar> \<le> dust (length ks) y * of_nat (length ks) / 10"
    by (simp add: algebra_simps)
  from near_trans [OF box_total_amounts [OF ok] this] show ?thesis by (simp add: mult.commute)
qed

section \<open>Break points\<close>

lemma prepare_breakpoints_set:
  "set (prepare_breakpoints rows ks w) = (\<Union>i \<in> set ks. {dec_ctx BOX_PREC (tr_floor (rows ! i) / w i), dec_ctx BOX_PREC (tr_cap (rows ! i) / w i)})"
  by (auto simp: prepare_breakpoints_def)

lemma prepare_breakpoints_sorted: "sorted (prepare_breakpoints rows ks w)" "distinct (prepare_breakpoints rows ks w)"
  unfolding prepare_breakpoints_def by (simp_all only: sorted_sort distinct_sort distinct_remdups)

lemma breakpoint_near:
  assumes ok: "box_ok rows ks w m y" and i: "i \<in> set ks" and v: "\<bar>v\<bar> \<le> m"
  shows "\<bar>dec_ctx BOX_PREC (v / w i) * w i - v\<bar> \<le> y * box_unit"
proof -
  have w: "0 < w i" using box_okD(7) [OF ok i] by simp
  have "\<bar>v / w i\<bar> \<le> m / w i" using v w by (simp add: divide_right_mono abs_of_pos)
  from d60.rnd_near [OF this] have "\<bar>dec_ctx BOX_PREC (v / w i) - v / w i\<bar> * w i \<le> m / w i * box_unit * w i"
    using w by (intro mult_right_mono) auto
  moreover have "\<bar>dec_ctx BOX_PREC (v / w i) - v / w i\<bar> * w i = \<bar>(dec_ctx BOX_PREC (v / w i) - v / w i) * w i\<bar>"
    using w by (simp add: abs_mult)
  moreover have "m * box_unit \<le> y * box_unit" using box_okD(4) [OF ok] by (intro mult_right_mono) (simp_all add: box_unit_def)
  ultimately show ?thesis using w by (simp add: left_diff_distrib)
qed

lemma breakpoint_range:
  assumes ok: "box_ok rows ks w m y" and b: "b \<in> set (prepare_breakpoints rows ks w)"
  shows "in_range ks w y b"
proof -
  obtain i v where i: "i \<in> set ks" and v: "\<bar>v\<bar> \<le> m" and b: "b = dec_ctx BOX_PREC (v / w i)"
    using b box_okD(7) [OF ok] unfolding prepare_breakpoints_set by blast
  have w: "0 < w i" using box_okD(7) [OF ok i] by simp
  have "\<bar>v / w i\<bar> \<le> m / w i" using v w by (simp add: divide_right_mono abs_of_pos)
  from d60.rnd_bound [OF this] have bb: "\<bar>b\<bar> \<le> 2 * (m / w i)" unfolding b .
  show ?thesis unfolding in_range_def
  proof
    fix j assume j: "j \<in> set ks"
    have wj: "0 < w j" using box_okD(7) [OF ok j] by simp
    have "\<bar>b\<bar> * w j \<le> 2 * (m / w i) * w j" using bb wj by (intro mult_right_mono) auto
    moreover have "m * w j / w i \<le> y" using box_okD(8) [OF ok j i] w by (simp add: pos_divide_le_eq)
    ultimately show "\<bar>b * w j\<bar> \<le> 2 * y" using wj by (simp add: abs_mult)
  qed
qed

lemma in_range_between: "in_range ks w y a \<Longrightarrow> in_range ks w y b \<Longrightarrow> a \<le> x \<Longrightarrow> x \<le> b \<Longrightarrow> (\<And>i. i \<in> set ks \<Longrightarrow> 0 < w i) \<Longrightarrow> in_range ks w y x"
  unfolding in_range_def
proof
  fix i assume *: "\<forall>i \<in> set ks. \<bar>a * w i\<bar> \<le> 2 * y" "\<forall>i \<in> set ks. \<bar>b * w i\<bar> \<le> 2 * y" "a \<le> x" "x \<le> b" "\<And>i. i \<in> set ks \<Longrightarrow> 0 < w i" "i \<in> set ks"
  then have "a * w i \<le> x * w i" "x * w i \<le> b * w i" by (simp_all add: mult_right_mono less_imp_le)
  moreover have "\<bar>a * w i\<bar> \<le> 2 * y" "\<bar>b * w i\<bar> \<le> 2 * y" using * by auto
  ultimately show "\<bar>x * w i\<bar> \<le> 2 * y" by linarith
qed

lemma sorted_neighbours:
  assumes "sorted (bs :: rat list)" and "k + 1 < length bs" and "x \<in> set bs"
  shows "x \<le> bs ! k \<or> bs ! (k + 1) \<le> x"
proof -
  obtain j where j: "j < length bs" "x = bs ! j" using assms(3) by (auto simp: in_set_conv_nth)
  show ?thesis using j assms(1,2) sorted_nth_mono [of bs j k] sorted_nth_mono [of bs "k + 1" j] by (cases "j \<le> k") auto
qed


text \<open>A store is fixed at a bound over the whole interval between two neighbours, or moves freely in it, up to dust.\<close>

lemma interval_position:
  assumes ok: "box_ok rows ks w m y" and i: "i \<in> set ks"
    and bs: "bs = prepare_breakpoints rows ks w" "k + 1 < length bs"
    and mid: "\<bar>v - (bs ! k + bs ! (k + 1)) / 2 * w i\<bar> \<le> d" and d: "y * box_unit \<le> d"
  shows "v \<le> tr_floor (rows ! i) \<Longrightarrow> bs ! (k + 1) * w i \<le> tr_floor (rows ! i) + 3 * d"
    and "tr_cap (rows ! i) \<le> v \<Longrightarrow> tr_cap (rows ! i) - 3 * d \<le> bs ! k * w i"
    and "tr_floor (rows ! i) < v \<Longrightarrow> tr_floor (rows ! i) - 3 * d \<le> bs ! k * w i"
    and "v < tr_cap (rows ! i) \<Longrightarrow> bs ! (k + 1) * w i \<le> tr_cap (rows ! i) + 3 * d"
proof -
  let ?l = "bs ! k * w i" and ?u = "bs ! (k + 1) * w i"
  have w: "0 < w i" using box_okD(7) [OF ok i] by simp
  have side: "\<beta> \<le> ?l + d \<or> ?u - d \<le> \<beta>" if "\<beta> \<in> {tr_floor (rows ! i), tr_cap (rows ! i)}" for \<beta>
  proof -
    have "\<bar>\<beta>\<bar> \<le> m" using that box_okD(7) [OF ok i] by auto
    note near = breakpoint_near [OF ok i this]
    have mem: "dec_ctx BOX_PREC (\<beta> / w i) \<in> set bs" using that i unfolding bs(1) prepare_breakpoints_set by auto
    have s: "sorted bs" unfolding bs(1) by (rule prepare_breakpoints_sorted)
    from sorted_neighbours [OF s bs(2) mem] show ?thesis
    proof
      assume "dec_ctx BOX_PREC (\<beta> / w i) \<le> bs ! k"
      then have "dec_ctx BOX_PREC (\<beta> / w i) * w i \<le> ?l" using w by (intro mult_right_mono) auto
      then show ?thesis using near d by linarith
    next
      assume "bs ! (k + 1) \<le> dec_ctx BOX_PREC (\<beta> / w i)"
      then have "?u \<le> dec_ctx BOX_PREC (\<beta> / w i) * w i" using w by (intro mult_right_mono) auto
      then show ?thesis using near d by linarith
    qed
  qed
  have lu: "?l \<le> ?u" using w bs(2) prepare_breakpoints_sorted(1) [of rows ks w]
    by (intro mult_right_mono) (auto simp: bs(1) intro: sorted_nth_mono)
  have m: "\<bar>2 * v - (?l + ?u)\<bar> \<le> 2 * d" using mid by (simp add: algebra_simps abs_le_iff add_divide_distrib)
  show "v \<le> tr_floor (rows ! i) \<Longrightarrow> ?u \<le> tr_floor (rows ! i) + 3 * d"
    using side [of "tr_floor (rows ! i)"] m lu by (simp; linarith)
  show "tr_cap (rows ! i) \<le> v \<Longrightarrow> tr_cap (rows ! i) - 3 * d \<le> ?l"
    using side [of "tr_cap (rows ! i)"] m lu by (simp; linarith)
  show "tr_floor (rows ! i) < v \<Longrightarrow> tr_floor (rows ! i) - 3 * d \<le> ?l"
    using side [of "tr_floor (rows ! i)"] m lu by (simp; linarith)
  show "v < tr_cap (rows ! i) \<Longrightarrow> ?u \<le> tr_cap (rows ! i) + 3 * d"
    using side [of "tr_cap (rows ! i)"] m lu by (simp; linarith)
qed


section \<open>The interval between two neighbours\<close>

definition at_mid :: "(nat \<Rightarrow> rat) \<Rightarrow> rat \<Rightarrow> rat \<Rightarrow> nat \<Rightarrow> rat" where
  "at_mid w l u i = dec_ctx BOX_PREC (dec_ctx BOX_PREC (dec_ctx BOX_PREC (l + u) / 2) * w i)"

definition mid_active :: "target_row list \<Rightarrow> (nat \<Rightarrow> rat) \<Rightarrow> rat \<Rightarrow> rat \<Rightarrow> nat \<Rightarrow> bool" where
  "mid_active rows w l u i \<longleftrightarrow> tr_floor (rows ! i) < at_mid w l u i \<and> at_mid w l u i < tr_cap (rows ! i)"

definition mid_fixed :: "target_row list \<Rightarrow> (nat \<Rightarrow> rat) \<Rightarrow> rat \<Rightarrow> rat \<Rightarrow> nat \<Rightarrow> rat" where
  "mid_fixed rows w l u i = (if at_mid w l u i \<le> tr_floor (rows ! i) then tr_floor (rows ! i) else tr_cap (rows ! i))"

lemma at_mid_near:
  assumes ok: "box_ok rows ks w m y" and i: "i \<in> set ks" and l: "in_range ks w y l" and u: "in_range ks w y u"
  shows "\<bar>at_mid w l u i - (l + u) / 2 * w i\<bar> \<le> dust (length ks) y"
proof -
  let ?s = "dec_ctx BOX_PREC (l + u)" and ?e = "box_unit"
  let ?m = "dec_ctx BOX_PREC (?s / 2)"
  have w: "0 < w i" using box_okD(7) [OF ok i] by simp
  have e: "0 \<le> ?e" by (simp add: box_unit_def)
  have "\<bar>l * w i\<bar> \<le> 2 * y" "\<bar>u * w i\<bar> \<le> 2 * y" using l u i by (auto simp: in_range_def)
  then have "\<bar>l\<bar> * w i \<le> 2 * y" "\<bar>u\<bar> * w i \<le> 2 * y" using w by (simp_all add: abs_mult)
  moreover have "\<bar>l + u\<bar> * w i \<le> (\<bar>l\<bar> + \<bar>u\<bar>) * w i" using w by (intro mult_right_mono) auto
  ultimately have lu: "\<bar>l + u\<bar> * w i \<le> 4 * y" by (simp add: distrib_right)
  have s: "\<bar>?s - (l + u)\<bar> \<le> \<bar>l + u\<bar> * ?e" "\<bar>?s\<bar> \<le> 2 * \<bar>l + u\<bar>"
    using d60.rnd_near [of "l + u" "\<bar>l + u\<bar>"] d60.rnd_bound [of "l + u" "\<bar>l + u\<bar>"] by auto
  then have s2: "\<bar>?s / 2\<bar> \<le> \<bar>l + u\<bar>" by simp
  have m: "\<bar>?m - ?s / 2\<bar> \<le> \<bar>l + u\<bar> * ?e" "\<bar>?m\<bar> \<le> 2 * \<bar>l + u\<bar>"
    using d60.rnd_near [OF s2] d60.rnd_bound [OF s2] by auto
  have "\<bar>?s / 2 - (l + u) / 2\<bar> = \<bar>?s - (l + u)\<bar> / 2" unfolding diff_divide_distrib [symmetric] by simp
  then have "\<bar>?s / 2 - (l + u) / 2\<bar> \<le> \<bar>l + u\<bar> * ?e" using half_le [OF abs_ge_zero s(1)] by (simp only:)
  from near_trans [OF m(1) this] have "\<bar>?m - (l + u) / 2\<bar> \<le> 2 * (\<bar>l + u\<bar> * ?e)" by (simp only: mult_2)
  then have "\<bar>?m - (l + u) / 2\<bar> * w i \<le> 2 * (\<bar>l + u\<bar> * ?e) * w i" using w by (intro mult_right_mono) auto
  also have "\<dots> = 2 * (\<bar>l + u\<bar> * w i) * ?e" by simp
  also have "\<dots> \<le> 2 * (4 * y) * ?e" using lu e by (intro mult_right_mono mult_left_mono) simp_all
  finally have 1: "\<bar>?m * w i - (l + u) / 2 * w i\<bar> \<le> 8 * y * ?e" unfolding abs_scaled [OF w] by simp
  have "\<bar>?m\<bar> * w i \<le> 2 * (\<bar>l + u\<bar> * w i)" using m(2) w mult_right_mono [of "\<bar>?m\<bar>" "2 * \<bar>l + u\<bar>" "w i"] by simp
  also have "\<dots> \<le> 2 * (4 * y)" using lu by (rule mult_left_mono) simp
  finally have "\<bar>?m * w i\<bar> \<le> 8 * y" using w by (simp add: abs_mult)
  from d60.rnd_near [OF this] have "\<bar>at_mid w l u i - ?m * w i\<bar> \<le> 8 * y * ?e" by (simp add: at_mid_def)
  from near_trans [OF this 1] show ?thesis using unit_le_dust [OF ok] box_okD(3,4) [OF ok] e
    mult_nonneg_nonneg [of y ?e] by linarith
qed

lemma interval_exact:
  assumes ok: "box_ok rows ks w m y" and i: "i \<in> set ks"
    and bs: "bs = prepare_breakpoints rows ks w" "k + 1 < length bs" and x: "bs ! k \<le> x" "x \<le> bs ! (k + 1)"
  shows "\<bar>box_exact rows w x i - (if mid_active rows w (bs ! k) (bs ! (k + 1)) i then x * w i
      else mid_fixed rows w (bs ! k) (bs ! (k + 1)) i)\<bar> \<le> 3 * dust (length ks) y"
proof -
  let ?d = "dust (length ks) y" and ?l = "bs ! k" and ?u = "bs ! (k + 1)" and ?r = "rows ! i"
  have w: "0 < w i" and fc: "tr_floor ?r \<le> tr_cap ?r" using box_okD(7) [OF ok i] by auto
  have "?l \<in> set bs" "?u \<in> set bs" using bs(2) by auto
  then have "in_range ks w y ?l" "in_range ks w y ?u" using breakpoint_range [OF ok] bs(1) by auto
  then have near: "\<bar>at_mid w ?l ?u i - (?l + ?u) / 2 * w i\<bar> \<le> ?d" by (rule at_mid_near [OF ok i])
  have d: "y * box_unit \<le> ?d" "0 \<le> ?d"
    using unit_le_dust [OF ok] box_okD(3,4,5) [OF ok] mult_nonneg_nonneg [of y box_unit] by (auto simp: box_unit_def)
  note pos = interval_position [OF ok i bs near d(1)]
  have xw: "?l * w i \<le> x * w i" "x * w i \<le> ?u * w i" using x w by (simp_all add: mult_right_mono)
  consider "mid_active rows w ?l ?u i" | "at_mid w ?l ?u i \<le> tr_floor ?r" | "\<not> mid_active rows w ?l ?u i" "\<not> at_mid w ?l ?u i \<le> tr_floor ?r" by blast
  then show ?thesis
  proof cases
    case 1
    then show ?thesis using pos(3,4) xw fc d(2) clip_near [of ?r "3 * ?d" "x * w i"]
      by (simp add: mid_active_def box_exact_def)
  next
    case 2
    then show ?thesis using pos(1) xw fc d(2) clip_low [of ?r "x * w i" "3 * ?d"]
      by (simp add: mid_active_def mid_fixed_def box_exact_def)
  next
    case 3
    then show ?thesis using pos(2) xw fc d(2) clip_high [of ?r "3 * ?d" "x * w i"]
      by (simp add: mid_active_def mid_fixed_def box_exact_def)
  qed
qed


definition active_of :: "target_row list \<Rightarrow> nat list \<Rightarrow> (nat \<Rightarrow> rat) \<Rightarrow> rat \<Rightarrow> rat \<Rightarrow> nat list" where
  "active_of rows ks w l u = filter (mid_active rows w l u) ks"

definition line_at :: "target_row list \<Rightarrow> nat list \<Rightarrow> (nat \<Rightarrow> rat) \<Rightarrow> rat \<Rightarrow> rat \<Rightarrow> rat \<Rightarrow> rat" where
  "line_at rows ks w l u x = x * sum_list (map w (active_of rows ks w l u))
     + sum_list (map (mid_fixed rows w l u) (filter (\<lambda>i. \<not> mid_active rows w l u i) ks))"

lemma sum_split_active:
  "sum_list (map (\<lambda>i. if p i then x * w i else g i) ks) = x * sum_list (map w (filter p ks)) + (sum_list (map g (filter (\<lambda>i. \<not> p i) ks)) :: rat)"
  by (induction ks) (auto simp: algebra_simps)

text \<open>Over the interval the rounded total is a line in the multiplier, up to dust.\<close>

lemma interval_total:
  assumes ok: "box_ok rows ks w m y"
    and bs: "bs = prepare_breakpoints rows ks w" "k + 1 < length bs" and x: "bs ! k \<le> x" "x \<le> bs ! (k + 1)"
  shows "\<bar>box_total rows ks w x - line_at rows ks w (bs ! k) (bs ! (k + 1)) x\<bar> \<le> 4 * (of_nat (length ks) * dust (length ks) y)"
proof -
  let ?l = "bs ! k" and ?u = "bs ! (k + 1)" and ?n = "of_nat (length ks) :: rat" and ?d = "dust (length ks) y"
  have "?l \<in> set bs" "?u \<in> set bs" using bs(2) by auto
  then have "in_range ks w y ?l" "in_range ks w y ?u" using breakpoint_range [OF ok] bs(1) by auto
  then have "in_range ks w y x" by (rule in_range_between [OF _ _ x]) (use box_okD(7) [OF ok] in blast)
  then have t: "\<bar>box_total rows ks w x - sum_list (map (box_exact rows w x) ks)\<bar> \<le> ?d * ?n / 5" by (rule box_total_exact [OF ok])
  have "\<bar>sum_list (map (box_exact rows w x) ks) - sum_list (map (\<lambda>i. if mid_active rows w ?l ?u i then x * w i else mid_fixed rows w ?l ?u i) ks)\<bar>
      \<le> ?n * (3 * ?d)"
    by (rule sum_diff_bound) (use interval_exact [OF ok _ bs x] box_okD(5) [OF ok] in auto)
  then have "\<bar>sum_list (map (box_exact rows w x) ks) - line_at rows ks w ?l ?u x\<bar> \<le> ?n * (3 * ?d)"
    unfolding sum_split_active line_at_def active_of_def .
  from near_trans [OF t this] have "\<bar>box_total rows ks w x - line_at rows ks w ?l ?u x\<bar> \<le> ?d * ?n / 5 + ?n * (3 * ?d)" .
  also have "\<dots> \<le> 4 * (?n * ?d)" using box_okD(5,6) [OF ok] mult_nonneg_nonneg [of ?n ?d] by (simp add: algebra_simps)
  finally show ?thesis .
qed

text \<open>The computed multiplier reaches the target on that line, up to dust.\<close>

lemma quotient_near:
  assumes v: "\<bar>v\<bar> \<le> b" and W: "0 < W" and W': "\<bar>W' - W\<bar> \<le> c * W" and c: "c \<le> 1 / 2" "0 \<le> c"
  shows "\<bar>dec_ctx BOX_PREC (v / W') * W - v\<bar> \<le> 2 * b * (box_unit + c)"
proof -
  have "c * W \<le> 1 / 2 * W" using c W by (intro mult_right_mono) auto
  then have half: "W \<le> 2 * W'" "0 < W'" using W' W by linarith+
  have q: "W / W' \<le> 2" "0 \<le> W / W'" using half W by (simp_all add: pos_divide_le_eq)
  have "\<bar>dec_ctx BOX_PREC (v / W') - v / W'\<bar> \<le> \<bar>v / W'\<bar> * box_unit" by (rule d60.rnd_error)
  then have "\<bar>dec_ctx BOX_PREC (v / W') - v / W'\<bar> * W \<le> \<bar>v / W'\<bar> * box_unit * W" using W by (intro mult_right_mono) auto
  also have "\<dots> = \<bar>v\<bar> * box_unit * (W / W')" using half(2) by simp
  also have "\<dots> \<le> b * box_unit * 2" using v q by (intro mult_mono) (auto simp: box_unit_def)
  also have "\<bar>dec_ctx BOX_PREC (v / W') - v / W'\<bar> * W = \<bar>dec_ctx BOX_PREC (v / W') * W - v / W' * W\<bar>"
    by (rule abs_scaled [OF W, symmetric])
  finally have 1: "\<bar>dec_ctx BOX_PREC (v / W') * W - v / W' * W\<bar> \<le> 2 * b * box_unit" by simp
  have "v / W' * W - v = v * (W - W') / W'" using half(2) by (simp add: field_simps)
  then have "\<bar>v / W' * W - v\<bar> = \<bar>v\<bar> * (\<bar>W' - W\<bar> / W')" using half(2) by (simp add: abs_mult abs_minus_commute)
  also have "\<dots> \<le> b * (c * (W / W'))" using v W' half(2) by (intro mult_mono) (auto simp: divide_right_mono)
  also have "\<dots> \<le> b * (c * 2)" using q c v by (intro mult_left_mono) auto
  finally have "\<bar>v / W' * W - v\<bar> \<le> 2 * b * c" by simp
  from near_trans [OF 1 this] show ?thesis by (simp add: algebra_simps)
qed


section \<open>The search\<close>

lemma breakpoint_equal_near: "decimal_breakpoint_equal a b \<Longrightarrow> \<bar>a - b\<bar> \<le> 12 / 10 ^ 31"
proof -
  assume eq: "decimal_breakpoint_equal a b"
  have "\<bar>dec_ctx BOX_PREC (a - b) - (a - b)\<bar> \<le> \<bar>a - b\<bar> * box_unit" by (rule d60.rnd_error)
  also have "\<dots> \<le> \<bar>a - b\<bar> * (1 / 10)" by (intro mult_left_mono) (simp_all add: box_unit_def)
  finally have "\<bar>dec_ctx BOX_PREC (a - b) - (a - b)\<bar> \<le> \<bar>a - b\<bar> / 10" by simp
  from tenth_error_upper [OF this, of "1 / 10 ^ 30"] eq show ?thesis by (simp add: decimal_breakpoint_equal_def)
qed

lemma breakpoint_differs: "\<not> decimal_breakpoint_equal a b \<Longrightarrow> 9 / 10 ^ 31 < \<bar>a - b\<bar>"
proof -
  assume ne: "\<not> decimal_breakpoint_equal a b"
  have "\<bar>dec_ctx BOX_PREC (a - b) - (a - b)\<bar> \<le> \<bar>a - b\<bar> * box_unit" by (rule d60.rnd_error)
  also have "\<dots> \<le> \<bar>a - b\<bar> * (1 / 10)" by (intro mult_left_mono) (simp_all add: box_unit_def)
  finally show ?thesis using ne unfolding decimal_breakpoint_equal_def by (simp add: abs_if split: if_splits)
qed

lemma binary_search_finds:
  assumes "lo < hi"
    and "\<not> decimal_breakpoint_equal t (f (bs ! lo))" "f (bs ! lo) < t"
    and "\<not> decimal_breakpoint_equal t (f (bs ! hi))" "t < f (bs ! hi)"
    and f: "f = (\<lambda>x. fst (allocations_total rows ks w x))"
  shows "\<exists>k. binary_search_breakpoint_index rows ks w bs t lo hi = k \<and> lo \<le> k \<and> k < hi
    \<and> (decimal_breakpoint_equal t (f (bs ! k))
      \<or> \<not> decimal_breakpoint_equal t (f (bs ! k)) \<and> f (bs ! k) < t
        \<and> \<not> decimal_breakpoint_equal t (f (bs ! (k + 1))) \<and> t < f (bs ! (k + 1)))"
  using assms(1-5)
proof (induction "hi - lo" arbitrary: lo hi rule: less_induct)
  case less
  let ?m = "(lo + hi) div 2"
  note unf = binary_search_breakpoint_index.simps [of rows ks w bs t lo hi]
  show ?case
  proof (cases "lo + 1 < hi")
    case False
    then have "hi = lo + 1" using less.prems(1) by simp
    with less.prems False show ?thesis by (subst unf) auto
  next
    case True
    then have m: "lo < ?m" "?m < hi" by auto
    consider "decimal_breakpoint_equal t (f (bs ! ?m))"
      | "\<not> decimal_breakpoint_equal t (f (bs ! ?m))" "f (bs ! ?m) < t"
      | "\<not> decimal_breakpoint_equal t (f (bs ! ?m))" "\<not> f (bs ! ?m) < t" by blast
    then show ?thesis
    proof cases
      case 1
      then show ?thesis using True m by (subst unf) (auto simp: f Let_def)
    next
      case 2
      then have "\<exists>k. binary_search_breakpoint_index rows ks w bs t ?m hi = k \<and> ?m \<le> k \<and> k < hi
        \<and> (decimal_breakpoint_equal t (f (bs ! k)) \<or> \<not> decimal_breakpoint_equal t (f (bs ! k)) \<and> f (bs ! k) < t
          \<and> \<not> decimal_breakpoint_equal t (f (bs ! (k + 1))) \<and> t < f (bs ! (k + 1)))"
        using less.hyps [of hi ?m] less.prems m by auto
      then show ?thesis using 2 True m by (subst unf) (auto simp: f Let_def)
    next
      case 3
      then have "t \<noteq> f (bs ! ?m)" by (auto simp: decimal_breakpoint_equal_def)
      with 3 have "\<exists>k. binary_search_breakpoint_index rows ks w bs t lo ?m = k \<and> lo \<le> k \<and> k < ?m
        \<and> (decimal_breakpoint_equal t (f (bs ! k)) \<or> \<not> decimal_breakpoint_equal t (f (bs ! k)) \<and> f (bs ! k) < t
          \<and> \<not> decimal_breakpoint_equal t (f (bs ! (k + 1))) \<and> t < f (bs ! (k + 1)))"
        using less.hyps [of ?m lo] less.prems m by auto
      then show ?thesis using 3 True m by (subst unf) (auto simp: f Let_def)
    qed
  qed
qed


lemma box_ends:
  assumes ok: "box_ok rows ks w m y" and bs: "bs = prepare_breakpoints rows ks w"
  shows "bs \<noteq> []"
    and "box_total rows ks w (bs ! 0) \<le> sum_list (map (\<lambda>i. tr_floor (rows ! i)) ks) + 2 * (of_nat (length ks) * dust (length ks) y)"
    and "sum_list (map (\<lambda>i. tr_cap (rows ! i)) ks) - 2 * (of_nat (length ks) * dust (length ks) y) \<le> box_total rows ks w (bs ! (length bs - 1))"
proof -
  let ?d = "dust (length ks) y" and ?n = "of_nat (length ks) :: rat" and ?f = "bs ! 0" and ?l = "bs ! (length bs - 1)"
  show ne: "bs \<noteq> []" using box_okD(1) [OF ok] prepare_breakpoints_set [of rows ks w] bs by (cases ks) auto
  have s: "sorted bs" unfolding bs by (rule prepare_breakpoints_sorted)
  have mem: "?f \<in> set bs" "?l \<in> set bs" using ne by simp_all
  have small: "y * box_unit \<le> ?d" "0 \<le> ?d"
    using unit_le_dust [OF ok] box_okD(3,4,5) [OF ok] mult_nonneg_nonneg [of y box_unit] by (auto simp: box_unit_def)
  have ends: "?f \<le> b \<and> b \<le> ?l" if "b \<in> set bs" for b
    using that s sorted_nth_mono [of bs] by (auto simp: in_set_conv_nth)
  have "\<bar>box_exact rows w ?f i - tr_floor (rows ! i)\<bar> \<le> ?d \<and> \<bar>box_exact rows w ?l i - tr_cap (rows ! i)\<bar> \<le> ?d" if i: "i \<in> set ks" for i
  proof -
    have w: "0 < w i" "tr_floor (rows ! i) \<le> tr_cap (rows ! i)" and b: "\<bar>tr_floor (rows ! i)\<bar> \<le> m" "\<bar>tr_cap (rows ! i)\<bar> \<le> m"
      using box_okD(7) [OF ok i] by auto
    have "dec_ctx BOX_PREC (tr_floor (rows ! i) / w i) \<in> set bs" "dec_ctx BOX_PREC (tr_cap (rows ! i) / w i) \<in> set bs"
      using i unfolding bs prepare_breakpoints_set by auto
    then have "?f * w i \<le> dec_ctx BOX_PREC (tr_floor (rows ! i) / w i) * w i" "dec_ctx BOX_PREC (tr_cap (rows ! i) / w i) * w i \<le> ?l * w i"
      using ends w(1) by (simp_all add: mult_right_mono)
    with breakpoint_near [OF ok i b(1)] breakpoint_near [OF ok i b(2)] small(1)
    have "?f * w i \<le> tr_floor (rows ! i) + ?d" "tr_cap (rows ! i) - ?d \<le> ?l * w i" by linarith+
    then show ?thesis using clip_low [OF w(2) _ small(2)] clip_high [OF w(2) _ small(2)] by (simp add: box_exact_def)
  qed
  then have "\<bar>sum_list (map (box_exact rows w ?f) ks) - sum_list (map (\<lambda>i. tr_floor (rows ! i)) ks)\<bar> \<le> ?n * ?d"
    "\<bar>sum_list (map (box_exact rows w ?l) ks) - sum_list (map (\<lambda>i. tr_cap (rows ! i)) ks)\<bar> \<le> ?n * ?d"
    using small(2) by (auto intro!: sum_diff_bound)
  moreover have "\<bar>box_total rows ks w ?f - sum_list (map (box_exact rows w ?f) ks)\<bar> \<le> ?d * ?n / 5"
    "\<bar>box_total rows ks w ?l - sum_list (map (box_exact rows w ?l) ks)\<bar> \<le> ?d * ?n / 5"
    using box_total_exact [OF ok breakpoint_range [OF ok]] mem unfolding bs by blast+
  moreover have "?d * ?n / 5 \<le> ?n * ?d" using small(2) by (simp add: mult.commute)
  ultimately show "box_total rows ks w ?f \<le> sum_list (map (\<lambda>i. tr_floor (rows ! i)) ks) + 2 * (?n * ?d)"
    "sum_list (map (\<lambda>i. tr_cap (rows ! i)) ks) - 2 * (?n * ?d) \<le> box_total rows ks w ?l"
    unfolding abs_le_iff by linarith+
qed

section \<open>The residual\<close>

lemma sum_replace:
  assumes "distinct ks" and "i \<in> set ks"
  shows "sum_list (map (\<lambda>j. if j = i then v else a j) ks) = sum_list (map a ks) + (v - a i :: rat)"
  using assms
proof (induction ks)
  case (Cons j ks)
  have "sum_list (map (\<lambda>j. if j = i then v else a j) ks) = sum_list (map a ks)" if "i \<notin> set ks"
    by (rule arg_cong [where f = sum_list], rule map_cong) (use that in auto)
  with Cons show ?case by (cases "i = j") auto
qed simp

lemma reconcile_first_ok:
  assumes "set js \<subseteq> set ks" and "\<exists>i \<in> set js. tr_floor (rows ! i) \<le> dec_ctx BOX_PREC (a i + \<rho>) \<and> dec_ctx BOX_PREC (a i + \<rho>) \<le> tr_cap (rows ! i)"
  shows "\<exists>i \<in> set js. tr_floor (rows ! i) \<le> dec_ctx BOX_PREC (a i + \<rho>) \<and> dec_ctx BOX_PREC (a i + \<rho>) \<le> tr_cap (rows ! i)
    \<and> reconcile_first rows (map (\<lambda>i. (i, a i)) ks) \<rho> js = Some (map (\<lambda>j. (j, if j = i then dec_ctx BOX_PREC (a i + \<rho>) else a j)) ks)"
  using assms
proof (induction js)
  case (Cons j js)
  then have j: "j \<in> set ks" by simp
  show ?case
  proof (cases "tr_floor (rows ! j) \<le> dec_ctx BOX_PREC (a j + \<rho>) \<and> dec_ctx BOX_PREC (a j + \<rho>) \<le> tr_cap (rows ! j)")
    case True
    then show ?thesis using j by (intro bexI [of _ j]) (auto simp: map_of_graph dict_set_graph Let_def)
  next
    case False
    then have "reconcile_first rows (map (\<lambda>i. (i, a i)) ks) \<rho> (j # js) = reconcile_first rows (map (\<lambda>i. (i, a i)) ks) \<rho> js"
      using j by (auto simp: map_of_graph Let_def)
    with False Cons show ?thesis by auto
  qed
qed simp

lemma largest_weight:
  assumes "js \<noteq> []" and "\<And>i. i \<in> set js \<Longrightarrow> 0 < (w i :: rat)" and "length js \<le> n"
  shows "\<exists>i \<in> set js. sum_list (map w js) \<le> of_nat n * w i"
proof -
  obtain i where i: "i \<in> set js" "\<And>j. j \<in> set js \<Longrightarrow> w j \<le> w i"
  proof -
    have "Max (w ` set js) \<in> w ` set js" using assms(1) by (intro Max_in) auto
    then obtain i where "i \<in> set js" "w i = Max (w ` set js)" by auto
    then show thesis using that [of i] by simp
  qed
  have "sum_list (map w js) \<le> sum_list (map (\<lambda>_. w i) js)" using i(2) by (rule sum_list_mono)
  also have "\<dots> = of_nat (length js) * w i" by (simp add: sum_list_triv)
  also have "\<dots> \<le> of_nat n * w i" using assms(2) [OF i(1)] assms(3) by (intro mult_right_mono) auto
  finally show ?thesis using i(1) by blast
qed


section \<open>Solving the interval\<close>

text \<open>The multiplier the code computes for the active stores.\<close>

definition interval_multiplier :: "target_row list \<Rightarrow> nat list \<Rightarrow> (nat \<Rightarrow> rat) \<Rightarrow> rat \<Rightarrow> rat \<Rightarrow> rat \<Rightarrow> rat" where
  "interval_multiplier rows ks w t l u =
     dec_ctx BOX_PREC (dec_ctx BOX_PREC (t - dec_sum_at BOX_PREC (map (mid_fixed rows w l u) (filter (\<lambda>i. \<not> mid_active rows w l u i) ks)))
       / dec_sum_at BOX_PREC (map w (active_of rows ks w l u)))"

lemma solve_box_interval_unfold:
  assumes "active_of rows ks w l u \<noteq> []"
  shows "solve_box_interval rows ks w t l u = reconcile_box_residual rows
    (map (\<lambda>i. (i, box_amount rows w (interval_multiplier rows ks w t l u) i)) ks) (active_of rows ks w l u) t"
proof -
  have f: "filter (\<lambda>i. i \<notin> set (filter (mid_active rows w l u) ks)) ks = filter (\<lambda>i. \<not> mid_active rows w l u i) ks"
    by (rule filter_cong) auto
  show ?thesis using assms unfolding solve_box_interval_def Let_def active_of_def interval_multiplier_def
      at_mid_def [symmetric] mid_active_def [symmetric] mid_fixed_def [symmetric] f
    by (simp add: box_allocations_at_def box_amount_def f [unfolded set_filter mem_Collect_eq])
qed

lemma weight_sum_near:
  assumes ok: "box_ok rows ks w m y" and js: "length js \<le> length ks" "set js \<subseteq> set ks"
  shows "\<bar>dec_sum_at BOX_PREC (map w js) - sum_list (map w js)\<bar> \<le> 2 * of_nat (length ks) * box_unit * sum_list (map w js)"
proof -
  let ?n = "of_nat (length ks) :: rat" and ?k = "of_nat (length js) :: rat" and ?W = "sum_list (map w js)"
  have pos: "0 \<le> w i" if "i \<in> set js" for i using that js(2) box_okD(7) [OF ok] by fastforce
  have part: "\<bar>sum_list (take l (map w js))\<bar> \<le> ?W" for l
  proof -
    have "0 \<le> sum_list (take l (map w js))" by (rule sum_list_nonneg) (use pos in \<open>auto simp: take_map dest: in_set_takeD\<close>)
    moreover have "0 \<le> sum_list (drop l (map w js))" by (rule sum_list_nonneg) (use pos in \<open>auto simp: drop_map dest: in_set_dropD\<close>)
    moreover have "?W = sum_list (take l (map w js)) + sum_list (drop l (map w js))"
      by (metis append_take_drop_id sum_list_append)
    ultimately show ?thesis by simp
  qed
  have W: "0 \<le> ?W" using part [of 0] by simp
  have k: "2 * ?k * box_unit \<le> 2 * ?n * box_unit" using js(1) by (intro mult_right_mono) (simp_all add: box_unit_def)
  then have "2 * of_nat (length (map w js)) * box_unit \<le> 1" using box_ok_units [OF ok] by simp
  from d60.rnd_sum [OF part this] have "\<bar>dec_sum_at BOX_PREC (map w js) - ?W\<bar> \<le> 2 * ?k * box_unit * ?W"
    by (simp add: dec_sum_at_def)
  also have "\<dots> \<le> 2 * ?n * box_unit * ?W" using k W by (rule mult_right_mono)
  finally show ?thesis .
qed


lemma sum_list_positive:
  assumes "js \<noteq> []" and "\<And>i. i \<in> set js \<Longrightarrow> 0 < (w i :: rat)"
  shows "0 < sum_list (map w js)"
  using assms by (induction js rule: list_nonempty_induct) (auto intro: add_pos_pos)

lemma mid_fixed_bound: "box_ok rows ks w m y \<Longrightarrow> i \<in> set ks \<Longrightarrow> \<bar>mid_fixed rows w l u i\<bar> \<le> m"
  using box_okD(7) by (fastforce simp: mid_fixed_def)

lemma multiplier_on_line:
  assumes ok: "box_ok rows ks w m y" and act: "active_of rows ks w l u \<noteq> []" and t: "\<bar>t\<bar> \<le> of_nat (length ks) * m"
  shows "\<bar>line_at rows ks w l u (interval_multiplier rows ks w t l u) - t\<bar> \<le> 5 * (of_nat (length ks) * dust (length ks) y)"
proof -
  let ?n = "of_nat (length ks) :: rat" and ?D = "dust (length ks) y" and ?e = box_unit
  let ?rest = "filter (\<lambda>i. \<not> mid_active rows w l u i) ks" and ?js = "active_of rows ks w l u"
  let ?F = "sum_list (map (mid_fixed rows w l u) ?rest)" and ?W = "sum_list (map w ?js)"
  let ?f = "dec_sum_at BOX_PREC (map (mid_fixed rows w l u) ?rest)" and ?W' = "dec_sum_at BOX_PREC (map w ?js)"
  let ?v = "dec_ctx BOX_PREC (t - ?f)"
  have n: "1 \<le> ?n" and m: "1 \<le> m" "m \<le> y" and D: "0 \<le> ?D" using box_okD(3-6) [OF ok] by auto
  have nD: "?n * ?D \<le> 4 / 10 ^ 32" by (rule box_ok_small [OF ok])
  have nm: "1 \<le> ?n * m" using mult_mono [of 1 ?n 1 m] n m by simp
  have DnD: "?D \<le> ?n * ?D" using mult_right_mono [OF n D] by simp
  have nmu: "20 * (?n * m * ?e) \<le> ?D"
    using mult_left_mono [OF m(2), of "20 * ?e * ?n"] by (simp add: dust_def box_unit_def mult.commute)
  have nnmu: "20 * (?n * (?n * m * ?e)) \<le> ?n * ?D"
    using mult_left_mono [OF nmu, of ?n] unfolding mult.left_commute [of ?n 20] by simp
  have len: "length ?rest \<le> length ks" "length ?js \<le> length ks" by (simp_all add: active_of_def)
  have f: "\<bar>?f - ?F\<bar> \<le> ?D * ?n / 10"
    by (rule box_sum_near [OF ok len(1)]) (use mid_fixed_bound [OF ok] in auto)
  have "\<bar>?F\<bar> \<le> of_nat (length ?rest) * m" by (rule partial_sum_bound) (use mid_fixed_bound [OF ok] m in auto)
  also have "\<dots> \<le> ?n * m" using len(1) m by (intro mult_right_mono) auto
  finally have F: "\<bar>?F\<bar> \<le> ?n * m" .
  have fF: "\<bar>?f - ?F\<bar> \<le> ?n * ?D" using f D DnD unfolding mult.commute [of ?D ?n] by linarith
  have "?n * ?D \<le> 1" using nD by simp
  then have "\<bar>t - ?f\<bar> \<le> 3 * (?n * m)" using fF F t nm unfolding abs_le_iff by linarith
  note v = d60.rnd_near [OF this] d60.rnd_bound [OF this]
  have W: "0 < ?W" by (rule sum_list_positive [OF act]) (use box_okD(7) [OF ok] in \<open>auto simp: active_of_def\<close>)
  have W': "\<bar>?W' - ?W\<bar> \<le> 2 * ?n * ?e * ?W" by (rule weight_sum_near [OF ok len(2)]) (auto simp: active_of_def)
  have "\<bar>dec_ctx BOX_PREC (?v / ?W') * ?W - ?v\<bar> \<le> 2 * (2 * (3 * (?n * m))) * (?e + 2 * ?n * ?e)"
    by (rule quotient_near [OF v(2) W W' box_ok_units [OF ok]]) (simp add: box_unit_def)
  also have "\<dots> = 12 * (?n * m * ?e) + 24 * (?n * (?n * m * ?e))" by (simp add: algebra_simps)
  also have "\<dots> \<le> ?D + 2 * (?n * ?D)" using nmu nnmu D DnD by linarith
  finally have "\<bar>dec_ctx BOX_PREC (?v / ?W') * ?W - ?v\<bar> \<le> 3 * (?n * ?D)" using DnD by linarith
  moreover have "\<bar>?v - (t - ?f)\<bar> \<le> ?n * ?D" using v(1) nmu DnD D by linarith
  ultimately show ?thesis using fF unfolding line_at_def interval_multiplier_def abs_le_iff by linarith
qed


text \<open>A target strictly between the totals of two neighbours leaves stores to move, and the multiplier lies between them.\<close>

lemma interval_inside:
  assumes ok: "box_ok rows ks w m y" and bs: "bs = prepare_breakpoints rows ks w" "k + 1 < length bs"
    and t: "\<bar>t\<bar> \<le> of_nat (length ks) * m"
    and lo: "box_total rows ks w (bs ! k) + 9 / 10 ^ 31 < t" and hi: "t + 9 / 10 ^ 31 < box_total rows ks w (bs ! (k + 1))"
  shows "active_of rows ks w (bs ! k) (bs ! (k + 1)) \<noteq> []"
    and "15 * (of_nat (length ks) ^ 2 * dust (length ks) y)
      \<le> (interval_multiplier rows ks w t (bs ! k) (bs ! (k + 1)) - bs ! k) * sum_list (map w (active_of rows ks w (bs ! k) (bs ! (k + 1))))"
    and "15 * (of_nat (length ks) ^ 2 * dust (length ks) y)
      \<le> (bs ! (k + 1) - interval_multiplier rows ks w t (bs ! k) (bs ! (k + 1))) * sum_list (map w (active_of rows ks w (bs ! k) (bs ! (k + 1))))"
proof -
  let ?l = "bs ! k" and ?u = "bs ! (k + 1)" and ?n = "of_nat (length ks) :: rat" and ?D = "dust (length ks) y"
  let ?js = "active_of rows ks w ?l ?u"
  have n: "1 \<le> ?n" and D: "0 \<le> ?D" using box_okD(5,6) [OF ok] by auto
  have DnD: "?D \<le> ?n * ?D" using mult_right_mono [OF n D] by simp
  have nD: "?n * ?D \<le> ?n ^ 2 * ?D" using mult_right_mono [OF n, of "?n * ?D"] D DnD by (simp add: power2_eq_square mult.assoc)
  have g: "24 * (?n ^ 2 * ?D) \<le> 9 / 10 ^ 31" using ok by (simp add: box_ok_def mult.assoc)
  have le: "?l \<le> ?u" using bs(2) prepare_breakpoints_sorted(1) [of rows ks w] by (auto simp: bs(1) intro: sorted_nth_mono)
  note ends = interval_total [OF ok bs order_refl le] interval_total [OF ok bs le order_refl]
  show act: "?js \<noteq> []"
  proof
    assume "?js = []"
    then have "line_at rows ks w ?l ?u ?l = line_at rows ks w ?l ?u ?u" by (simp add: line_at_def)
    then show False using ends lo hi g nD DnD D unfolding abs_le_iff by linarith
  qed
  let ?x = "interval_multiplier rows ks w t ?l ?u" and ?W = "sum_list (map w ?js)"
  have line: "line_at rows ks w ?l ?u ?x - line_at rows ks w ?l ?u ?l = (?x - ?l) * ?W"
    "line_at rows ks w ?l ?u ?u - line_at rows ks w ?l ?u ?x = (?u - ?x) * ?W" by (simp_all add: line_at_def left_diff_distrib)
  note x = multiplier_on_line [OF ok act t]
  show "15 * (?n ^ 2 * ?D) \<le> (?x - ?l) * ?W"
    unfolding line(1) [symmetric] using x ends(1) lo g nD D DnD unfolding abs_le_iff by linarith
  show "15 * (?n ^ 2 * ?D) \<le> (?u - ?x) * ?W"
    unfolding line(2) [symmetric] using x ends(2) hi g nD D DnD unfolding abs_le_iff by linarith
qed


text \<open>
  What the search promises: amounts within the bounds, a total within a tenth of a cent of the
  target, and every amount within a tenth of a cent of its weighted share, clipped to the bounds.
\<close>

definition box_solution :: "target_row list \<Rightarrow> nat list \<Rightarrow> (nat \<Rightarrow> rat) \<Rightarrow> rat \<Rightarrow> (nat \<Rightarrow> rat) \<Rightarrow> bool" where
  "box_solution rows ks w t a \<longleftrightarrow> (\<forall>i \<in> set ks. tr_floor (rows ! i) \<le> a i \<and> a i \<le> tr_cap (rows ! i))
     \<and> \<bar>sum_list (map a ks) - t\<bar> < 1 / 1000
     \<and> (\<exists>x. \<forall>i \<in> set ks. \<bar>a i - box_exact rows w x i\<bar> \<le> 1 / 1000)"

lemma box_amount_close:
  assumes ok: "box_ok rows ks w m y" and "i \<in> set ks" and x: "in_range ks w y x"
  shows "\<bar>box_amount rows w x i - box_exact rows w x i\<bar> \<le> 1 / 10 ^ 30"
proof -
  have "\<bar>box_amount rows w x i - box_exact rows w x i\<bar> \<le> 2 * y * box_unit"
    by (rule box_amount_near [OF ok assms(2)]) (use x assms(2) in \<open>auto simp: in_range_def\<close>)
  moreover have "dust (length ks) y \<le> of_nat (length ks) * dust (length ks) y"
    using mult_right_mono [OF box_okD(6) [OF ok] box_okD(5) [OF ok]] by simp
  ultimately show ?thesis using unit_le_dust [OF ok] box_ok_small [OF ok] box_okD(5) [OF ok] by simp
qed

lemma box_amounts_solution:
  assumes ok: "box_ok rows ks w m y" and "\<bar>box_total rows ks w x - t\<bar> \<le> 1 / 2000" and x: "in_range ks w y x"
  shows "box_solution rows ks w t (box_amount rows w x)"
proof -
  have "\<bar>box_total rows ks w x - sum_list (map (box_amount rows w x) ks)\<bar> \<le> dust (length ks) y * of_nat (length ks) / 10"
    by (rule box_total_amounts [OF ok])
  then have "\<bar>sum_list (map (box_amount rows w x) ks) - t\<bar> \<le> 1 / 2000 + 4 / 10 ^ 33"
    using assms(2) box_ok_small [OF ok] unfolding mult.commute [of "dust (length ks) y"] abs_le_iff by simp
  moreover have "\<bar>box_amount rows w x i - box_exact rows w x i\<bar> \<le> 1 / 1000" if "i \<in> set ks" for i
    using box_amount_close [OF ok that x] by (rule order_trans) simp
  ultimately show ?thesis using box_amount_bounds [OF ok] unfolding box_solution_def by auto
qed

lemma room_in_interval:
  assumes ok: "box_ok rows ks w m y" and bs: "bs = prepare_breakpoints rows ks w" "k + 1 < length bs"
    and x: "15 * (of_nat (length ks) ^ 2 * dust (length ks) y) \<le> (x - bs ! k) * sum_list (map w (active_of rows ks w (bs ! k) (bs ! (k + 1))))"
      "15 * (of_nat (length ks) ^ 2 * dust (length ks) y) \<le> (bs ! (k + 1) - x) * sum_list (map w (active_of rows ks w (bs ! k) (bs ! (k + 1))))"
    and act: "active_of rows ks w (bs ! k) (bs ! (k + 1)) \<noteq> []"
  shows "bs ! k \<le> x \<and> x \<le> bs ! (k + 1) \<and> (\<exists>i \<in> set (active_of rows ks w (bs ! k) (bs ! (k + 1))).
    tr_floor (rows ! i) + 12 * (of_nat (length ks) * dust (length ks) y) \<le> x * w i
    \<and> x * w i \<le> tr_cap (rows ! i) - 12 * (of_nat (length ks) * dust (length ks) y))"
proof -
  let ?l = "bs ! k" and ?u = "bs ! (k + 1)" and ?n = "of_nat (length ks) :: rat" and ?D = "dust (length ks) y"
  let ?js = "active_of rows ks w ?l ?u"
  let ?W = "sum_list (map w ?js)"
  have n: "1 \<le> ?n" and D: "0 \<le> ?D" using box_okD(5,6) [OF ok] by auto
  have DnD: "?D \<le> ?n * ?D" using mult_right_mono [OF n D] by simp
  have sub: "set ?js \<subseteq> set ks" "length ?js \<le> length ks" by (auto simp: active_of_def)
  have pos: "0 < w i" if "i \<in> set ?js" for i using that sub box_okD(7) [OF ok] by blast
  have W: "0 < ?W" by (rule sum_list_positive [OF act pos])
  have nn: "0 \<le> ?n ^ 2 * ?D" using D by simp
  have "0 \<le> z" if "15 * (?n ^ 2 * ?D) \<le> z * ?W" for z
  proof -
    have "0 \<le> z * ?W" using that nn by linarith
    then show ?thesis using W by (simp add: zero_le_mult_iff)
  qed
  note in_iv = this [OF x(1)] this [OF x(2)]
  from largest_weight [OF act pos sub(2)] obtain i where i: "?W \<le> ?n * w i" "i \<in> set ?js" ..
  have step: "15 * (?n * ?D) \<le> z * w i" if "15 * (?n ^ 2 * ?D) \<le> z * ?W" "0 \<le> z" for z
  proof -
    have "15 * (?n ^ 2 * ?D) \<le> z * (?n * w i)" using that i(1) by (meson mult_left_mono order_trans)
    then have "?n * (15 * (?n * ?D)) \<le> ?n * (z * w i)" by (simp add: power2_eq_square algebra_simps)
    then show ?thesis by (rule mult_left_le_imp_le) (use n in linarith)
  qed
  have "15 * (?n * ?D) \<le> (x - ?l) * w i" "15 * (?n * ?D) \<le> (?u - x) * w i" by (rule step [OF x(1) in_iv(1)], rule step [OF x(2) in_iv(2)])
  then have far: "?l * w i + 15 * (?n * ?D) \<le> x * w i" "x * w i \<le> ?u * w i - 15 * (?n * ?D)" by (simp_all add: left_diff_distrib)
  have ik: "i \<in> set ks" using i(2) sub by blast
  have "?l \<in> set bs" "?u \<in> set bs" using bs(2) by auto
  then have "\<bar>at_mid w ?l ?u i - (?l + ?u) / 2 * w i\<bar> \<le> ?D" using at_mid_near [OF ok ik] breakpoint_range [OF ok] bs(1) by blast
  moreover have "y * box_unit \<le> ?D" using unit_le_dust [OF ok] box_okD(3,4) [OF ok] mult_nonneg_nonneg [of y box_unit] by (auto simp: box_unit_def)
  ultimately have "tr_floor (rows ! i) - 3 * ?D \<le> ?l * w i" "?u * w i \<le> tr_cap (rows ! i) + 3 * ?D"
    using interval_position(3,4) [OF ok ik bs] i(2) by (auto simp: active_of_def mid_active_def)
  then have "tr_floor (rows ! i) + 12 * (?n * ?D) \<le> x * w i" "x * w i \<le> tr_cap (rows ! i) - 12 * (?n * ?D)"
    using far DnD by linarith+
  moreover have "?l \<le> x" "x \<le> ?u" using in_iv by linarith+
  ultimately show ?thesis using i(2) by (intro conjI bexI [of _ i])
qed


lemma reconcile_solution:
  assumes ok: "box_ok rows ks w m y" and near: "\<bar>box_total rows ks w x - t\<bar> \<le> 9 * (of_nat (length ks) * dust (length ks) y)"
    and js: "set js \<subseteq> set ks" and i: "i \<in> set js" "in_range ks w y x"
    and room: "tr_floor (rows ! i) + 12 * (of_nat (length ks) * dust (length ks) y) \<le> x * w i"
      "x * w i \<le> tr_cap (rows ! i) - 12 * (of_nat (length ks) * dust (length ks) y)"
  shows "\<exists>a. reconcile_box_residual rows (map (\<lambda>i. (i, box_amount rows w x i)) ks) js t = Some (map (\<lambda>i. (i, a i)) ks) \<and> box_solution rows ks w t a"
proof -
  let ?n = "of_nat (length ks) :: rat" and ?D = "dust (length ks) y" and ?A = "box_amount rows w x" and ?T = "box_total rows ks w x"
  define \<rho> where "\<rho> = dec_ctx BOX_PREC (t - ?T)"
  have n: "1 \<le> ?n" and D: "0 \<le> ?D" and m: "1 \<le> m" "m \<le> y" using box_okD(3-6) [OF ok] by auto
  have DnD: "?D \<le> ?n * ?D" using mult_right_mono [OF n D] by simp
  have nD: "?n * ?D \<le> 4 / 10 ^ 32" by (rule box_ok_small [OF ok])
  have unit: "2 * y * box_unit \<le> ?D / 10" using unit_le_dust [OF ok] by simp
  have \<rho>: "\<bar>\<rho> - (t - ?T)\<bar> \<le> ?n * ?D"
  proof -
    have "\<bar>t - ?T\<bar> \<le> 9 * (?n * ?D)" using near by (simp add: abs_minus_commute)
    from d60.rnd_near [OF this] have "\<bar>\<rho> - (t - ?T)\<bar> \<le> 9 * (?n * ?D) * box_unit" by (simp add: \<rho>_def)
    also have "\<dots> \<le> 9 * (?n * ?D) * (1 / 9)" using D by (intro mult_left_mono) (simp_all add: box_unit_def)
    finally show ?thesis by simp
  qed
  have adj: "\<bar>dec_ctx BOX_PREC (?A j + \<rho>) - (?A j + \<rho>)\<bar> \<le> ?D / 10" if "j \<in> set ks" for j
  proof -
    have "\<bar>?A j\<bar> \<le> m" using box_amount_bounds [OF ok that] by blast
    then have "\<bar>?A j + \<rho>\<bar> \<le> 2 * y" using \<rho> near nD m unfolding abs_le_iff by simp
    from d60.rnd_near [OF this] show ?thesis using unit by linarith
  qed
  have ik: "i \<in> set ks" using i js by blast
  have "\<bar>x * w i\<bar> \<le> 2 * y" using i(2) ik by (auto simp: in_range_def)
  then have r: "\<bar>dec_ctx BOX_PREC (x * w i) - x * w i\<bar> \<le> ?D / 10" using d60.rnd_near [of "x * w i" "2 * y"] unit by linarith
  have "?A i = dec_ctx BOX_PREC (x * w i)"
    unfolding box_amount_def by (rule clip_inside) (use r room D DnD in \<open>simp_all only: abs_le_iff, linarith+\<close>)
  then have "tr_floor (rows ! i) \<le> dec_ctx BOX_PREC (?A i + \<rho>) \<and> dec_ctx BOX_PREC (?A i + \<rho>) \<le> tr_cap (rows ! i)"
    using adj [OF ik] r room \<rho> near D DnD unfolding abs_le_iff by linarith
  moreover have st: "set (stable_indices rows js) = set js" by (simp add: stable_indices_def)
  ultimately have ex: "\<exists>j \<in> set (stable_indices rows js). tr_floor (rows ! j) \<le> dec_ctx BOX_PREC (?A j + \<rho>) \<and> dec_ctx BOX_PREC (?A j + \<rho>) \<le> tr_cap (rows ! j)"
    using i(1) by blast
  have sub: "set (stable_indices rows js) \<subseteq> set ks" using st js by simp
  from reconcile_first_ok [OF sub ex] obtain j where j: "j \<in> set ks"
    "tr_floor (rows ! j) \<le> dec_ctx BOX_PREC (?A j + \<rho>)" "dec_ctx BOX_PREC (?A j + \<rho>) \<le> tr_cap (rows ! j)"
    and rec: "reconcile_first rows (map (\<lambda>i. (i, ?A i)) ks) \<rho> (stable_indices rows js)
      = Some (map (\<lambda>k. (k, if k = j then dec_ctx BOX_PREC (?A j + \<rho>) else ?A k)) ks)" using sub by blast
  have eval: "reconcile_box_residual rows (map (\<lambda>i. (i, ?A i)) ks) js t
      = (if \<rho> = 0 then Some (map (\<lambda>i. (i, ?A i)) ks) else reconcile_first rows (map (\<lambda>i. (i, ?A i)) ks) \<rho> (stable_indices rows js))"
    by (simp add: reconcile_box_residual_def Let_def \<rho>_def box_total_def comp_def)
  have sum: "\<bar>sum_list (map (\<lambda>k. if k = j then dec_ctx BOX_PREC (?A j + \<rho>) else ?A k) ks) - t\<bar> < 1 / 1000"
    unfolding sum_replace [OF box_okD(2) [OF ok] j(1)]
    using adj [OF j(1)] \<rho> box_total_amounts [OF ok, of x] nD D DnD unfolding mult.commute [of ?D ?n] abs_le_iff abs_less_iff by simp
  show ?thesis
  proof (cases "\<rho> = 0")
    case True
    have "\<bar>?T - t\<bar> \<le> 1 / 2000" using near nD by simp
    from box_amounts_solution [OF ok this i(2)] True show ?thesis unfolding eval by auto
  next
    case False
    have "\<bar>dec_ctx BOX_PREC (?A j + \<rho>) - ?A j\<bar> \<le> 1 / 2000" using adj [OF j(1)] \<rho> near nD D DnD unfolding abs_le_iff by simp
    then have close: "\<bar>(if k = j then dec_ctx BOX_PREC (?A j + \<rho>) else ?A k) - box_exact rows w x k\<bar> \<le> 1 / 1000" if "k \<in> set ks" for k
      using box_amount_close [OF ok that i(2)] unfolding abs_le_iff by (cases "k = j") simp_all
    have bounds: "\<forall>i \<in> set ks. tr_floor (rows ! i) \<le> (if i = j then dec_ctx BOX_PREC (?A j + \<rho>) else ?A i)
        \<and> (if i = j then dec_ctx BOX_PREC (?A j + \<rho>) else ?A i) \<le> tr_cap (rows ! i)" using j box_amount_bounds [OF ok] by auto
    have "box_solution rows ks w t (\<lambda>k. if k = j then dec_ctx BOX_PREC (?A j + \<rho>) else ?A k)"
      unfolding box_solution_def by (intro conjI bounds sum exI [of _ x] ballI close)
    then show ?thesis unfolding eval rec if_not_P [OF False] by - (rule exI, rule conjI, rule refl)
  qed
qed


lemma interval_solution:
  assumes ok: "box_ok rows ks w m y" and bs: "bs = prepare_breakpoints rows ks w" "k + 1 < length bs"
    and t: "\<bar>t\<bar> \<le> of_nat (length ks) * m"
    and lo: "box_total rows ks w (bs ! k) + 9 / 10 ^ 31 < t" and hi: "t + 9 / 10 ^ 31 < box_total rows ks w (bs ! (k + 1))"
  shows "\<exists>a. solve_box_interval rows ks w t (bs ! k) (bs ! (k + 1)) = Some (map (\<lambda>i. (i, a i)) ks) \<and> box_solution rows ks w t a"
proof -
  let ?l = "bs ! k" and ?u = "bs ! (k + 1)"
  let ?js = "active_of rows ks w ?l ?u" and ?x = "interval_multiplier rows ks w t ?l ?u"
  note inside = interval_inside [OF ok bs t lo hi]
  from room_in_interval [OF ok bs inside(2,3,1)] have x: "?l \<le> ?x" "?x \<le> ?u" by simp_all
  from room_in_interval [OF ok bs inside(2,3,1)] obtain i where i: "i \<in> set ?js"
    and room: "tr_floor (rows ! i) + 12 * (of_nat (length ks) * dust (length ks) y) \<le> ?x * w i"
      "?x * w i \<le> tr_cap (rows ! i) - 12 * (of_nat (length ks) * dust (length ks) y)" by auto
  have "?l \<in> set bs" "?u \<in> set bs" using bs(2) by auto
  then have "in_range ks w y ?l" "in_range ks w y ?u" using breakpoint_range [OF ok] bs(1) by auto
  then have range: "in_range ks w y ?x" by (rule in_range_between [OF _ _ x]) (use box_okD(7) [OF ok] in blast)
  have "\<bar>box_total rows ks w ?x - t\<bar> \<le> 9 * (of_nat (length ks) * dust (length ks) y)"
    using near_trans [OF interval_total [OF ok bs x] multiplier_on_line [OF ok inside(1) t]] by simp
  moreover have "set ?js \<subseteq> set ks" by (auto simp: active_of_def)
  ultimately show ?thesis
    unfolding solve_box_interval_unfold [OF inside(1)] by (rule reconcile_solution [OF ok _ _ i range room])
qed

lemma solve_between_ok:
  assumes ok: "box_ok rows ks w m y"
    and lo: "sum_list (map (\<lambda>i. tr_floor (rows ! i)) ks) + 1 / 100 \<le> t" and hi: "t + 1 / 100 \<le> sum_list (map (\<lambda>i. tr_cap (rows ! i)) ks)"
  shows "\<exists>a. solve_between rows ks t w floor_total cap_total = Inr (map (\<lambda>i. (i, a i)) ks) \<and> box_solution rows ks w t a"
proof -
  let ?bs = "prepare_breakpoints rows ks w" and ?f = "\<lambda>x. fst (allocations_total rows ks w x)"
  have f: "?f x = box_total rows ks w x" for x by (simp add: allocations_total_amounts box_total_def)
  let ?last = "length ?bs - 1"
  have nD: "of_nat (length ks) * dust (length ks) y \<le> 4 / 10 ^ 32" by (rule box_ok_small [OF ok])
  note ends = box_ends [OF ok refl]
  have first: "box_total rows ks w (?bs ! 0) < t - 1 / 1000" and last: "t + 1 / 1000 < box_total rows ks w (?bs ! ?last)"
    using ends(2,3) lo hi nD by simp_all
  have ne: "\<not> decimal_breakpoint_equal t (box_total rows ks w (?bs ! 0))" "\<not> decimal_breakpoint_equal t (box_total rows ks w (?bs ! ?last))"
    using first last breakpoint_equal_near by (fastforce simp: abs_le_iff)+
  have "0 < ?last" using first last ends(1) by (cases ?last) auto
  with binary_search_finds [of 0 ?last t ?f ?bs rows ks w] ne first last
  obtain k where k: "binary_search_breakpoint_index rows ks w ?bs t 0 ?last = k" "k < ?last"
    and cases: "decimal_breakpoint_equal t (?f (?bs ! k)) \<or> \<not> decimal_breakpoint_equal t (?f (?bs ! k)) \<and> ?f (?bs ! k) < t
      \<and> \<not> decimal_breakpoint_equal t (?f (?bs ! (k + 1))) \<and> t < ?f (?bs ! (k + 1))"
    unfolding f by auto
  have eval: "solve_between rows ks t w floor_total cap_total =
      res_bind (resolve_two_breakpoint_pair rows ks w ?bs k (k + 1) t floor_total cap_total)
        (\<lambda>found. case found of Some allocations \<Rightarrow> Inr allocations | None \<Rightarrow> budget_infeasible BOX_PREC t floor_total (Some cap_total))"
    using ends(1) ne(1) first k(1) unfolding solve_between_def Let_def allocations_total_amounts box_total_def [symmetric] by simp
  have len: "\<not> (length ?bs \<le> k \<or> length ?bs \<le> k + 1)" and "k + 1 < length ?bs" using k(2) by auto
  have mem: "?bs ! k \<in> set ?bs" "?bs ! (k + 1) \<in> set ?bs" using len by simp_all
  show ?thesis
  proof (cases "decimal_breakpoint_equal t (box_total rows ks w (?bs ! k))")
    case True
    then have "\<bar>box_total rows ks w (?bs ! k) - t\<bar> \<le> 1 / 2000" using breakpoint_equal_near [OF True] by (simp add: abs_minus_commute)
    then have "box_solution rows ks w t (box_amount rows w (?bs ! k))"
      by (rule box_amounts_solution [OF ok _ breakpoint_range [OF ok mem(1)]])
    then show ?thesis using True len unfolding eval resolve_two_breakpoint_pair_def allocations_total_amounts box_total_def [symmetric] by auto
  next
    case False
    with cases have c: "box_total rows ks w (?bs ! k) < t" "t < box_total rows ks w (?bs ! (k + 1))"
      "\<not> decimal_breakpoint_equal t (box_total rows ks w (?bs ! (k + 1)))" unfolding f by auto
    have gap: "box_total rows ks w (?bs ! k) + 9 / 10 ^ 31 < t" "t + 9 / 10 ^ 31 < box_total rows ks w (?bs ! (k + 1))"
      using breakpoint_differs [OF False] breakpoint_differs [OF c(3)] c(1,2) by simp_all
    then have "\<not> decimal_breakpoint_equal (box_total rows ks w (?bs ! (k + 1))) (box_total rows ks w (?bs ! k))"
      using breakpoint_equal_near [of "box_total rows ks w (?bs ! (k + 1))" "box_total rows ks w (?bs ! k)"] by (auto simp: abs_le_iff)
    then have "resolve_two_breakpoint_pair rows ks w ?bs k (k + 1) t floor_total cap_total = Inr (solve_box_interval rows ks w t (?bs ! k) (?bs ! (k + 1)))"
      using False c(3) len unfolding resolve_two_breakpoint_pair_def allocations_total_amounts box_total_def [symmetric] by simp
    moreover have "\<bar>t\<bar> \<le> of_nat (length ks) * m"
      using lo hi partial_sum_bound [of ks "\<lambda>i. tr_floor (rows ! i)" m] partial_sum_bound [of ks "\<lambda>i. tr_cap (rows ! i)" m]
        box_okD(3,7) [OF ok] unfolding abs_le_iff by force
    ultimately show ?thesis using interval_solution [OF ok refl \<open>k + 1 < length ?bs\<close> _ gap] unfolding eval by auto
  qed
qed

end
