(* ===== verification/Target_Correctness.thy ===== *)
theory Target_Correctness
  imports Target_Solver
begin

text \<open>
  Correctness of the two allocation entry points of the target calculator: every budget
  between the floors and the caps is met to the cent, with each store between its bounds and
  within about a cent of its weighted share, and every other budget is refused.
\<close>

section \<open>The box in cents\<close>

lemma box_ok_cents:
  assumes "ks \<noteq> []" and "distinct ks" and rows: "\<And>i. i \<in> set ks \<Longrightarrow> row_ok m (rows ! i) \<and> 0 < w i"
    and ratio: "\<And>i j. i \<in> set ks \<Longrightarrow> j \<in> set ks \<Longrightarrow> w i \<le> of_int R * w j"
    and m: "100 \<le> m" and R: "1 \<le> R" and size: "int (length ks) ^ 3 * (m * R) \<le> 10 ^ 27"
  shows "box_ok rows ks w (cents m) (cents m * of_int R)"
proof -
  have cm: "1 \<le> cents m" using m by (simp add: cents_def)
  have "(of_int (int (length ks) ^ 3 * (m * R)) :: rat) \<le> of_int (10 ^ 27)" using size by (simp only: of_int_le_iff)
  then have s: "(of_nat (length ks) :: rat) ^ 3 * (of_int m * of_int R) \<le> 10 ^ 27" by simp
  have "24 * of_nat (length ks) ^ 2 * dust (length ks) (cents m * of_int R)
      = (of_nat (length ks) ^ 3 * (of_int m * of_int R)) * (24 / 10 ^ 60)"
    by (simp add: dust_def box_unit_def cents_def power3_eq_cube power2_eq_square)
  also have "\<dots> \<le> 10 ^ 27 * (24 / 10 ^ 60)" using s by (rule mult_right_mono) simp
  also have "\<dots> \<le> 9 / 10 ^ 31" by simp
  finally have small: "24 * of_nat (length ks) ^ 2 * dust (length ks) (cents m * of_int R) \<le> 9 / 10 ^ 31" .
  have "tr_floor (rows ! i) \<le> tr_cap (rows ! i) \<and> \<bar>tr_floor (rows ! i)\<bar> \<le> cents m \<and> \<bar>tr_cap (rows ! i)\<bar> \<le> cents m"
    if "i \<in> set ks" for i
  proof -
    have abs: "\<bar>cents n\<bar> = cents \<bar>n\<bar>" for n by (simp add: cents_def)
    show ?thesis using rows [OF that] unfolding row_ok_def by (metis abs cents_le)
  qed
  moreover have "cents m * w i \<le> cents m * of_int R * w j" if "i \<in> set ks" "j \<in> set ks" for i j
    using mult_left_mono [OF ratio [OF that], of "cents m"] cm by (simp add: mult.assoc)
  ultimately show ?thesis using assms(1,2) rows cm small unfolding box_ok_def by blast
qed

lemma sum_list_sort: "sum_list (map f (sort_key k xs)) = sum_list (map (f :: 'a \<Rightarrow> 'b :: comm_monoid_add) xs)"
proof (induction xs)
  case (Cons x xs)
  have "sum_list (map f (insort_key k x ys)) = f x + sum_list (map f ys)" for ys
    by (induction ys) (simp_all add: add.left_commute)
  with Cons show ?case by simp
qed simp

lemma sum_stable: "sum_list (map f (stable_indices rows ks)) = sum_list (map (f :: nat \<Rightarrow> 'b :: comm_monoid_add) ks)"
  unfolding stable_indices_def by (rule sum_list_sort)

lemma stable_facts: "set (stable_indices rows ks) = set ks" "distinct (stable_indices rows ks) = distinct ks"
  "length (stable_indices rows ks) = length ks"
  by (simp_all add: stable_indices_def)

text \<open>A low enough multiplier puts every store at its floor, a high enough one at its cap.\<close>

lemma extreme_multiplier:
  assumes "\<And>i. i \<in> set ks \<Longrightarrow> tr_floor (rows ! i) \<le> tr_cap (rows ! i) \<and> 0 < w i"
  shows "\<exists>x. \<forall>i \<in> set ks. box_exact rows w x i = tr_floor (rows ! i)"
    and "\<exists>x. \<forall>i \<in> set ks. box_exact rows w x i = tr_cap (rows ! i)"
proof -
  have "box_exact rows w (Min ((\<lambda>i. tr_floor (rows ! i) / w i) ` set ks)) i = tr_floor (rows ! i)" if i: "i \<in> set ks" for i
  proof -
    have "Min ((\<lambda>i. tr_floor (rows ! i) / w i) ` set ks) \<le> tr_floor (rows ! i) / w i" using i by (intro Min_le) auto
    then have "Min ((\<lambda>i. tr_floor (rows ! i) / w i) ` set ks) * w i \<le> tr_floor (rows ! i)"
      using assms [OF i] by (simp add: pos_le_divide_eq)
    then show ?thesis using assms [OF i] by (auto simp: box_exact_def clip_box_value_def)
  qed
  then show "\<exists>x. \<forall>i \<in> set ks. box_exact rows w x i = tr_floor (rows ! i)" by blast
  have "box_exact rows w (Max ((\<lambda>i. tr_cap (rows ! i) / w i) ` set ks)) i = tr_cap (rows ! i)" if i: "i \<in> set ks" for i
  proof -
    have "tr_cap (rows ! i) / w i \<le> Max ((\<lambda>i. tr_cap (rows ! i) / w i) ` set ks)" using i by (intro Max_ge) auto
    then have "tr_cap (rows ! i) \<le> Max ((\<lambda>i. tr_cap (rows ! i) / w i) ` set ks) * w i"
      using assms [OF i] by (simp add: pos_divide_le_eq)
    then show ?thesis using assms [OF i] by (auto simp: box_exact_def clip_box_value_def)
  qed
  then show "\<exists>x. \<forall>i \<in> set ks. box_exact rows w x i = tr_cap (rows ! i)" by blast
qed

lemma bounds_solution:
  assumes "\<And>i. i \<in> set ks \<Longrightarrow> tr_floor (rows ! i) \<le> tr_cap (rows ! i) \<and> 0 < w i"
  shows "box_solution rows ks w (sum_list (map (\<lambda>i. tr_floor (rows ! i)) ks)) (\<lambda>i. tr_floor (rows ! i))"
    and "box_solution rows ks w (sum_list (map (\<lambda>i. tr_cap (rows ! i)) ks)) (\<lambda>i. tr_cap (rows ! i))"
proof -
  obtain x x' where x: "\<forall>i \<in> set ks. box_exact rows w x i = tr_floor (rows ! i)" "\<forall>i \<in> set ks. box_exact rows w x' i = tr_cap (rows ! i)"
    using extreme_multiplier [of ks rows w, OF assms] by blast
  then have "\<exists>x. \<forall>i \<in> set ks. \<bar>tr_floor (rows ! i) - box_exact rows w x i\<bar> \<le> 1 / 1000"
    "\<exists>x. \<forall>i \<in> set ks. \<bar>tr_cap (rows ! i) - box_exact rows w x i\<bar> \<le> 1 / 1000" by (intro exI [of _ x] exI [of _ x'], simp)+
  then show "box_solution rows ks w (sum_list (map (\<lambda>i. tr_floor (rows ! i)) ks)) (\<lambda>i. tr_floor (rows ! i))"
    "box_solution rows ks w (sum_list (map (\<lambda>i. tr_cap (rows ! i)) ks)) (\<lambda>i. tr_cap (rows ! i))"
    unfolding box_solution_def using assms by auto
qed

lemma solve_positive_box_ok:
  assumes ks: "distinct ks" and rows: "\<And>i. i \<in> set ks \<Longrightarrow> row_ok m (rows ! i) \<and> 0 < w i"
    and ratio: "\<And>i j. i \<in> set ks \<Longrightarrow> j \<in> set ks \<Longrightarrow> w i \<le> of_int R * w j"
    and m: "100 \<le> m" and R: "1 \<le> R" and size: "int (length ks) ^ 3 * (m * R) \<le> 10 ^ 27"
    and big: "int (length ks) * m < 10 ^ DEFAULT_PREC"
    and q: "sum_list (map (\<lambda>i. floor_cents (rows ! i)) ks) \<le> q" "q \<le> sum_list (map (\<lambda>i. cap_cents (rows ! i)) ks)"
  shows "\<exists>a. solve_positive_box rows ks (cents q) w = Inr (map (\<lambda>i. (i, a i)) (stable_indices rows ks))
    \<and> box_solution rows (stable_indices rows ks) w (cents q) a"
proof -
  let ?ks = "stable_indices rows ks" and ?F = "sum_list (map (\<lambda>i. floor_cents (rows ! i)) ks)" and ?C = "sum_list (map (\<lambda>i. cap_cents (rows ! i)) ks)"
  note st = stable_facts [of rows ks]
  have r: "tr_floor (rows ! i) = cents (floor_cents (rows ! i))" "tr_cap (rows ! i) = cents (cap_cents (rows ! i))"
    "\<bar>floor_cents (rows ! i)\<bar> \<le> m" "\<bar>cap_cents (rows ! i)\<bar> \<le> m" "floor_cents (rows ! i) \<le> cap_cents (rows ! i)" if "i \<in> set ks" for i
    using rows [OF that] by (auto simp: row_ok_def)
  have mf: "map (\<lambda>i. tr_floor (rows ! i)) ?ks = map (\<lambda>i. cents (floor_cents (rows ! i))) ?ks"
    "map (\<lambda>i. tr_cap (rows ! i)) ?ks = map (\<lambda>i. cents (cap_cents (rows ! i))) ?ks" using r(1,2) st(1) by auto
  have tot: "sum_list (map (\<lambda>i. tr_floor (rows ! i)) ?ks) = cents ?F" "sum_list (map (\<lambda>i. tr_cap (rows ! i)) ?ks) = cents ?C"
    unfolding mf sum_cents sum_stable by simp_all
  have dec: "dec_sum (map (\<lambda>i. tr_floor (rows ! i)) ?ks) = cents ?F" "dec_sum (map (\<lambda>i. tr_cap (rows ! i)) ?ks) = cents ?C"
    unfolding mf using dec_sum_cents_le [of ?ks "\<lambda>i. floor_cents (rows ! i)" m] dec_sum_cents_le [of ?ks "\<lambda>i. cap_cents (rows ! i)" m]
      r(3,4) st big by (simp_all add: sum_stable)
  have ord: "tr_floor (rows ! i) \<le> tr_cap (rows ! i) \<and> 0 < w i" if "i \<in> set ?ks" for i
    using that st(1) rows r by (simp add: cents_le)
  note sol = bounds_solution [OF ord, of ?ks, simplified tot]
  consider "q = ?F" | "q \<noteq> ?F" "q = ?C" | "?F < q" "q < ?C" using q by linarith
  then show ?thesis
  proof cases
    case 1
    then show ?thesis using sol(1) by (auto simp: solve_positive_box_def Let_def dec)
  next
    case 2
    then show ?thesis using sol(2) by (auto simp: solve_positive_box_def Let_def dec cents_eq)
  next
    case 3
    have "ks \<noteq> []" using 3 by auto
    then have ne: "?ks \<noteq> []" using st(3) by (metis length_0_conv)
    have "box_ok rows ?ks w (cents m) (cents m * of_int R)"
      by (rule box_ok_cents) (use ne st ks rows ratio m R size in auto)
    moreover have "cents ?F + 1 / 100 \<le> cents q" "cents q + 1 / 100 \<le> cents ?C" using 3 by (simp_all add: cents_1 cents_add cents_le)
    ultimately show ?thesis
      using solve_between_ok [of rows ?ks w "cents m" "cents m * of_int R" "cents q"] 3 unfolding tot
      by (simp add: solve_positive_box_def Let_def dec cents_eq cents_less)
  qed
qed

section \<open>Positive and zero weights\<close>

definition assigned_ok :: "target_row list \<Rightarrow> int \<Rightarrow> nat list \<Rightarrow> (nat \<Rightarrow> rat) \<Rightarrow> bool" where
  "assigned_ok rows q ks a \<longleftrightarrow> distinct ks \<and> set ks = {0..<length rows}
     \<and> (\<forall>i < length rows. tr_floor (rows ! i) \<le> a i \<and> a i \<le> tr_cap (rows ! i))
     \<and> \<bar>sum_list (map a ks) - cents q\<bar> < 1 / 1000
     \<and> (\<exists>x. \<forall>i < length rows. 0 < tr_weight (rows ! i) \<longrightarrow> \<bar>a i - box_exact rows (\<lambda>i. tr_weight (rows ! i)) x i\<bar> \<le> 1 / 1000)
     \<and> ((\<forall>i < length rows. tr_weight (rows ! i) = 0 \<longrightarrow> a i = tr_floor (rows ! i))
        \<or> (\<forall>i < length rows. 0 < tr_weight (rows ! i) \<longrightarrow> a i = tr_cap (rows ! i)))"

lemma dict_update_graph:
  assumes "distinct (xs @ ys)"
  shows "dict_update (map (\<lambda>i. (i, f i)) xs) (map (\<lambda>i. (i, g i)) ys) = map (\<lambda>i. (i, if i \<in> set xs then f i else g i)) (xs @ ys)"
proof -
  have "dict_update (map (\<lambda>i. (i, f i)) xs) (map (\<lambda>i. (i, g i)) ys) = map (\<lambda>i. (i, f i)) xs @ map (\<lambda>i. (i, g i)) ys"
    unfolding dict_update_def by (rule dict_set_fold) (use assms in \<open>auto simp: comp_def\<close>)
  also have "\<dots> = map (\<lambda>i. (i, if i \<in> set xs then f i else g i)) (xs @ ys)" using assms by auto
  finally show ?thesis .
qed

lemma sum_joined:
  assumes "distinct (xs @ ys)"
  shows "sum_list (map (\<lambda>i. if i \<in> set xs then f i else g i) (xs @ ys)) = sum_list (map f xs) + (sum_list (map g ys) :: rat)"
proof -
  have "map (\<lambda>i. if i \<in> set xs then f i else g i) ys = map g ys" using assms by (intro map_cong) auto
  then show ?thesis by (simp cong: map_cong)
qed

lemma sum_positive_zero:
  assumes "\<And>i. i < n \<Longrightarrow> 0 \<le> (w i :: rat)"
  shows "sum_list (map f [0..<n]) = sum_list (map f (filter (\<lambda>i. 0 < w i) [0..<n])) + sum_list (map (f :: nat \<Rightarrow> int) (filter (\<lambda>i. w i = 0) [0..<n]))"
    and "length (filter (\<lambda>i. 0 < w i) [0..<n]) + length (filter (\<lambda>i. w i = 0) [0..<n]) = n"
proof -
  have "sum_list (map f js) = sum_list (map f (filter (\<lambda>i. 0 < w i) js)) + sum_list (map f (filter (\<lambda>i. w i = 0) js))
      \<and> length (filter (\<lambda>i. 0 < w i) js) + length (filter (\<lambda>i. w i = 0) js) = length js" if "\<forall>i \<in> set js. 0 \<le> w i" for js
    using that by (induction js) auto
  from this [of "[0..<n]"] assms show
    "sum_list (map f [0..<n]) = sum_list (map f (filter (\<lambda>i. 0 < w i) [0..<n])) + sum_list (map f (filter (\<lambda>i. w i = 0) [0..<n]))"
    "length (filter (\<lambda>i. 0 < w i) [0..<n]) + length (filter (\<lambda>i. w i = 0) [0..<n]) = n" by simp_all
qed

lemma size_mono:
  assumes "int n ^ 3 * (m * R) \<le> 10 ^ 27" and "k \<le> n" and "100 \<le> m" and "1 \<le> R"
  shows "int k ^ 3 * (m * R) \<le> 10 ^ 27" "int k * m < 10 ^ DEFAULT_PREC" "0 < n \<Longrightarrow> (int n + 2) * (m + 1) < 10 ^ DEFAULT_PREC"
proof -
  have mR: "m \<le> m * R" using mult_left_mono [of 1 R m] assms(3,4) by simp
  have "int k ^ 3 \<le> int n ^ 3" using assms(2) by (intro power_mono) auto
  then show "int k ^ 3 * (m * R) \<le> 10 ^ 27" using assms(1,3) mR by (meson mult_right_mono order_trans zero_le_numeral)
  have nm: "int n * m \<le> 10 ^ 27"
  proof (cases n)
    case (Suc l)
    have "int n * 1 \<le> int n * int n ^ 2" using Suc by (intro mult_left_mono one_le_power) auto
    then have "int n \<le> int n ^ 3" by (simp add: power3_eq_cube power2_eq_square mult.assoc)
    then have "int n * m \<le> int n ^ 3 * (m * R)" using mR assms(3) by (intro mult_mono) auto
    then show ?thesis using assms(1) by linarith
  qed simp
  have "int k * m \<le> int n * m" using assms(2,3) by (intro mult_right_mono) auto
  then show "int k * m < 10 ^ DEFAULT_PREC" using nm by (simp add: DEFAULT_PREC_def)
  show "(int n + 2) * (m + 1) < 10 ^ DEFAULT_PREC" if "0 < n"
  proof -
    have "(int n + 2) * (m + 1) \<le> (3 * int n) * (2 * m)" using that assms(3) by (intro mult_mono) auto
    then show ?thesis using nm by (simp add: DEFAULT_PREC_def)
  qed
qed

lemma int_sum_bound:
  assumes "\<And>i. i \<in> set js \<Longrightarrow> \<bar>f i\<bar> \<le> (m :: int)"
  shows "\<bar>sum_list (map f js)\<bar> \<le> int (length js) * m"
proof -
  have "\<bar>sum_list (map f js)\<bar> \<le> sum_list (map (\<lambda>i. \<bar>f i\<bar>) js)" by (induction js) auto
  with sum_abs_le [of js f m] assms show ?thesis by fastforce
qed

lemma assigned_join:
  assumes d: "distinct (xs @ ys)" "set (xs @ ys) = {0..<length rows}"
    and g: "\<And>i. i \<in> set xs \<Longrightarrow> tr_floor (rows ! i) \<le> g i \<and> g i \<le> tr_cap (rows ! i)"
    and a: "box_solution rows ys w t a" and t: "sum_list (map g xs) + t = cents q"
    and h: "h = (\<lambda>i. if i \<in> set xs then g i else a i)"
    and x: "\<exists>x. \<forall>i < length rows. 0 < tr_weight (rows ! i) \<longrightarrow> \<bar>h i - box_exact rows (\<lambda>i. tr_weight (rows ! i)) x i\<bar> \<le> 1 / 1000"
    and z: "(\<forall>i < length rows. tr_weight (rows ! i) = 0 \<longrightarrow> h i = tr_floor (rows ! i)) \<or> (\<forall>i < length rows. 0 < tr_weight (rows ! i) \<longrightarrow> h i = tr_cap (rows ! i))"
  shows "assigned_ok rows q (xs @ ys) h"
proof -
  have "sum_list (map h (xs @ ys)) = sum_list (map g xs) + sum_list (map a ys)" unfolding h by (rule sum_joined [OF d(1)])
  then have sum: "\<bar>sum_list (map h (xs @ ys)) - cents q\<bar> < 1 / 1000"
    using a unfolding t [symmetric] by (simp add: box_solution_def)
  have bounds: "tr_floor (rows ! i) \<le> h i \<and> h i \<le> tr_cap (rows ! i)" if "i < length rows" for i
  proof -
    have "i \<in> set (xs @ ys)" unfolding d(2) using that by simp
    then have "i \<in> set xs \<or> i \<in> set ys" by simp
    then show ?thesis using g a by (auto simp: h box_solution_def)
  qed
  then have "\<forall>i < length rows. tr_floor (rows ! i) \<le> h i \<and> h i \<le> tr_cap (rows ! i)" by simp
  with d sum x z show ?thesis unfolding assigned_ok_def by (intro conjI)
qed

lemma solve_box_eval:
  assumes P: "P = filter (\<lambda>i. 0 < tr_weight (rows ! i)) [0..<length rows]" and Z: "Z = filter (\<lambda>i. tr_weight (rows ! i) = 0) [0..<length rows]"
    and len: "length P + length Z = length rows"
    and tot: "dec_sum (map (\<lambda>i. tr_cap (rows ! i)) P) = cents cp" "dec_sum (map (\<lambda>i. tr_floor (rows ! i)) Z) = cents fz"
    and b: "\<bar>cp + fz\<bar> < 10 ^ DEFAULT_PREC" "q \<le> cp + fz \<Longrightarrow> \<bar>q - fz\<bar> < 10 ^ DEFAULT_PREC" "cp + fz < q \<Longrightarrow> \<bar>q - cp\<bar> < 10 ^ DEFAULT_PREC"
  shows "solve_box_allocations rows (cents q) =
    (if P = [] then solve_positive_box rows Z (cents q) (\<lambda>i. 1)
     else if q \<le> cp + fz
     then res_bind (solve_positive_box rows P (cents (q - fz)) (\<lambda>i. tr_weight (rows ! i))) (\<lambda>a. Inr (dict_update (map (\<lambda>i. (i, tr_floor (rows ! i))) Z) a))
     else res_bind (solve_positive_box rows Z (cents (q - cp)) (\<lambda>i. 1)) (\<lambda>a. Inr (dict_update (map (\<lambda>i. (i, tr_cap (rows ! i))) P) a)))"
proof -
  have "dec_add (cents cp) (cents fz) = cents (cp + fz)" using b(1) by (rule dec_add_cents)
  moreover have "dec_sub (cents q) (cents fz) = cents (q - fz)" if "q \<le> cp + fz" using b(2) [OF that] by (rule dec_sub_cents)
  moreover have "dec_sub (cents q) (cents cp) = cents (q - cp)" if "\<not> q \<le> cp + fz" using b(3) that by (simp add: dec_sub_cents)
  ultimately show ?thesis
    unfolding solve_box_allocations_def Let_def P [symmetric] Z [symmetric] tot using len
    by (simp add: cents_le)
qed

lemma solve_box_allocations_ok:
  fixes rows :: "target_row list" and q m R :: int
  assumes rows: "\<And>i. i < length rows \<Longrightarrow> row_ok m (rows ! i) \<and> 0 \<le> tr_weight (rows ! i)"
    and ratio: "\<And>i j. i < length rows \<Longrightarrow> j < length rows \<Longrightarrow> 0 < tr_weight (rows ! i) \<Longrightarrow> 0 < tr_weight (rows ! j)
      \<Longrightarrow> tr_weight (rows ! i) \<le> of_int R * tr_weight (rows ! j)"
    and m: "100 \<le> m" and R: "1 \<le> R" and size: "int (length rows) ^ 3 * (m * R) \<le> 10 ^ 27"
    and q: "sum_list (map (\<lambda>i. floor_cents (rows ! i)) [0..<length rows]) \<le> q"
      "q \<le> sum_list (map (\<lambda>i. cap_cents (rows ! i)) [0..<length rows])"
  shows "\<exists>ks a. solve_box_allocations rows (cents q) = Inr (map (\<lambda>i. (i, a i)) ks) \<and> assigned_ok rows q ks a"
proof -
  define n where "n = length rows"
  define P where "P = filter (\<lambda>i. 0 < tr_weight (rows ! i)) [0..<n]"
  define Z where "Z = filter (\<lambda>i. tr_weight (rows ! i) = 0) [0..<n]"
  let ?f = "\<lambda>i. floor_cents (rows ! i)" and ?c = "\<lambda>i. cap_cents (rows ! i)" and ?S = "\<lambda>g js. sum_list (map g js) :: int"
  have nn: "0 \<le> tr_weight (rows ! i)" if "i < n" for i using rows that by (simp add: n_def)
  note split = sum_positive_zero [of n "\<lambda>i. tr_weight (rows ! i)", OF nn, folded P_def Z_def]
  have mem: "i \<in> set P \<longleftrightarrow> i < n \<and> 0 < tr_weight (rows ! i)" "i \<in> set Z \<longleftrightarrow> i < n \<and> tr_weight (rows ! i) = 0" for i
    by (auto simp: P_def Z_def)
  have dist: "distinct P" "distinct Z" "set P \<inter> set Z = {}" "length P \<le> n" "length Z \<le> n" using split(2) by (auto simp: P_def Z_def)
  have ok: "row_ok m (rows ! i)" if "i < n" for i using rows that by (simp add: n_def)
  have bnd: "tr_floor (rows ! i) = cents (?f i)" "tr_cap (rows ! i) = cents (?c i)" "\<bar>?f i\<bar> \<le> m" "\<bar>?c i\<bar> \<le> m" "?f i \<le> ?c i" if "i < n" for i
    using ok [OF that] by (auto simp: row_ok_def)
  note sz = size_mono [OF size [folded n_def] _ m R]
  have posbox: "\<exists>a. solve_positive_box rows P (cents p) (\<lambda>i. tr_weight (rows ! i)) = Inr (map (\<lambda>i. (i, a i)) (stable_indices rows P))
      \<and> box_solution rows (stable_indices rows P) (\<lambda>i. tr_weight (rows ! i)) (cents p) a" if "?S ?f P \<le> p" "p \<le> ?S ?c P" for p
    by (rule solve_positive_box_ok [OF dist(1) _ _ m R sz(1,2) [OF dist(4)] that]) (use ok ratio mem in \<open>auto simp: n_def\<close>)
  have zerobox: "\<exists>a. solve_positive_box rows Z (cents p) (\<lambda>i. 1) = Inr (map (\<lambda>i. (i, a i)) (stable_indices rows Z))
      \<and> box_solution rows (stable_indices rows Z) (\<lambda>i. 1) (cents p) a" if "?S ?f Z \<le> p" "p \<le> ?S ?c Z" for p
    by (rule solve_positive_box_ok [OF dist(2) _ _ m R sz(1,2) [OF dist(5)] that]) (use ok R mem in auto)
  have tot: "dec_sum (map (\<lambda>i. tr_cap (rows ! i)) P) = cents (?S ?c P)" "dec_sum (map (\<lambda>i. tr_floor (rows ! i)) Z) = cents (?S ?f Z)"
  proof -
    have e: "map (\<lambda>i. tr_cap (rows ! i)) P = map (\<lambda>i. cents (?c i)) P" "map (\<lambda>i. tr_floor (rows ! i)) Z = map (\<lambda>i. cents (?f i)) Z"
      using bnd(1,2) mem by auto
    show "dec_sum (map (\<lambda>i. tr_cap (rows ! i)) P) = cents (?S ?c P)" "dec_sum (map (\<lambda>i. tr_floor (rows ! i)) Z) = cents (?S ?f Z)"
      unfolding e by (rule dec_sum_cents_le [OF _ sz(2)]; use bnd(3,4) mem dist in simp)+
  qed
  have whole: "set P \<union> set Z = {0..<length rows}" using mem nn by (force simp: n_def)
  have S: "?S ?f P + ?S ?f Z \<le> q" "q \<le> ?S ?c P + ?S ?c Z" using q split(1) by (simp_all add: n_def)
  have b: "\<bar>?S ?f P\<bar> \<le> int (length P) * m" "\<bar>?S ?c P\<bar> \<le> int (length P) * m" "\<bar>?S ?f Z\<bar> \<le> int (length Z) * m" "\<bar>?S ?c Z\<bar> \<le> int (length Z) * m"
    using bnd(3,4) mem by (auto intro!: int_sum_bound)
  have nm: "int (length P) * m + int (length Z) * m < 10 ^ DEFAULT_PREC" "int (length P) * m < 10 ^ DEFAULT_PREC" "int (length Z) * m < 10 ^ DEFAULT_PREC"
    using sz(2) [of n] split(2) sz(2) [OF dist(4)] sz(2) [OF dist(5)] by (simp_all flip: distrib_right of_nat_add)
  have mixed: "?S ?f P + ?S ?f Z \<le> ?S ?c P + ?S ?f Z" "?S ?c P + ?S ?f Z \<le> ?S ?c P + ?S ?c Z"
    using bnd(5) mem by (auto intro!: sum_list_mono)
  have eval: "solve_box_allocations rows (cents q) =
    (if P = [] then solve_positive_box rows Z (cents q) (\<lambda>i. 1)
     else if q \<le> ?S ?c P + ?S ?f Z
     then res_bind (solve_positive_box rows P (cents (q - ?S ?f Z)) (\<lambda>i. tr_weight (rows ! i))) (\<lambda>a. Inr (dict_update (map (\<lambda>i. (i, tr_floor (rows ! i))) Z) a))
     else res_bind (solve_positive_box rows Z (cents (q - ?S ?c P)) (\<lambda>i. 1)) (\<lambda>a. Inr (dict_update (map (\<lambda>i. (i, tr_cap (rows ! i))) P) a)))"
    by (rule solve_box_eval [OF P_def [unfolded n_def] Z_def [unfolded n_def] split(2) [unfolded n_def] tot]) (use b nm S in linarith)+
  have exact: "sum_list (map (\<lambda>i. tr_floor (rows ! i)) Z) = cents (?S ?f Z)" "sum_list (map (\<lambda>i. tr_cap (rows ! i)) P) = cents (?S ?c P)"
    using bnd(1,2) mem by (auto simp flip: sum_cents intro!: arg_cong [where f = sum_list])
  have fc: "tr_floor (rows ! i) \<le> tr_cap (rows ! i)" if "i < n" for i using bnd [OF that] by (simp add: cents_le)
  note st = stable_facts [of rows]
  consider "P = []" | "P \<noteq> []" "q \<le> ?S ?c P + ?S ?f Z" | "P \<noteq> []" "?S ?c P + ?S ?f Z < q" by linarith
  then show ?thesis
  proof cases
    case 1
    then have none: "\<not> 0 < tr_weight (rows ! i)" if "i < length rows" for i using mem(1) [of i] that by (simp add: n_def)
    obtain a where a: "solve_positive_box rows Z (cents q) (\<lambda>i. 1) = Inr (map (\<lambda>i. (i, a i)) (stable_indices rows Z))"
      "box_solution rows (stable_indices rows Z) (\<lambda>i. 1) (cents q) a" using zerobox [of q] S 1 by auto
    have "assigned_ok rows q ([] @ stable_indices rows Z) a"
      by (rule assigned_join [where g = a, OF _ _ _ a(2)]) (use 1 whole st dist none in \<open>auto simp: cents_def\<close>)
    then show ?thesis using eval a(1) 1 by auto
  next
    case 2
    obtain a where a: "solve_positive_box rows P (cents (q - ?S ?f Z)) (\<lambda>i. tr_weight (rows ! i)) = Inr (map (\<lambda>i. (i, a i)) (stable_indices rows P))"
      "box_solution rows (stable_indices rows P) (\<lambda>i. tr_weight (rows ! i)) (cents (q - ?S ?f Z)) a" using posbox [of "q - ?S ?f Z"] S 2 by auto
    let ?h = "\<lambda>i. if i \<in> set Z then tr_floor (rows ! i) else a i"
    have d: "distinct (Z @ stable_indices rows P)" using dist st by auto
    obtain x where x: "\<forall>i \<in> set P. \<bar>a i - box_exact rows (\<lambda>i. tr_weight (rows ! i)) x i\<bar> \<le> 1 / 1000"
      using a(2) unfolding box_solution_def st(1) by blast
    have "assigned_ok rows q (Z @ stable_indices rows P) ?h"
    proof (rule assigned_join [OF d _ _ a(2) _ refl])
      show "\<exists>x. \<forall>i < length rows. 0 < tr_weight (rows ! i) \<longrightarrow> \<bar>?h i - box_exact rows (\<lambda>i. tr_weight (rows ! i)) x i\<bar> \<le> 1 / 1000"
        by (rule exI [of _ x]) (use x mem in \<open>auto simp: n_def\<close>)
    qed (use whole st fc mem exact in \<open>auto simp: n_def cents_add\<close>)
    moreover have "solve_box_allocations rows (cents q) = Inr (map (\<lambda>i. (i, ?h i)) (Z @ stable_indices rows P))"
      unfolding dict_update_graph [OF d, symmetric] using eval a(1) 2 by simp
    ultimately show ?thesis by (intro exI [of _ "Z @ stable_indices rows P"] exI [of _ ?h] conjI)
  next
    case 3
    obtain a where a: "solve_positive_box rows Z (cents (q - ?S ?c P)) (\<lambda>i. 1) = Inr (map (\<lambda>i. (i, a i)) (stable_indices rows Z))"
      "box_solution rows (stable_indices rows Z) (\<lambda>i. 1) (cents (q - ?S ?c P)) a" using zerobox [of "q - ?S ?c P"] S 3 by auto
    let ?h = "\<lambda>i. if i \<in> set P then tr_cap (rows ! i) else a i"
    have d: "distinct (P @ stable_indices rows Z)" using dist st by auto
    obtain x where x: "\<forall>i \<in> set P. box_exact rows (\<lambda>i. tr_weight (rows ! i)) x i = tr_cap (rows ! i)"
      using extreme_multiplier(2) [of P rows "\<lambda>i. tr_weight (rows ! i)"] fc mem by blast
    have "assigned_ok rows q (P @ stable_indices rows Z) ?h"
    proof (rule assigned_join [OF d _ _ a(2) _ refl])
      show "\<exists>x. \<forall>i < length rows. 0 < tr_weight (rows ! i) \<longrightarrow> \<bar>?h i - box_exact rows (\<lambda>i. tr_weight (rows ! i)) x i\<bar> \<le> 1 / 1000"
        by (rule exI [of _ x]) (use x mem in \<open>auto simp: n_def\<close>)
    qed (use whole st fc mem exact in \<open>auto simp: n_def cents_add\<close>)
    moreover have "solve_box_allocations rows (cents q) = Inr (map (\<lambda>i. (i, ?h i)) (P @ stable_indices rows Z))"
      unfolding dict_update_graph [OF d, symmetric] using eval a(1) 3 by simp
    ultimately show ?thesis by (intro exI [of _ "P @ stable_indices rows Z"] exI [of _ ?h] conjI)
  qed
qed

section \<open>Normalization\<close>

text \<open>The cents of an entered amount, rounded half up.\<close>

definition money_of :: "rat \<Rightarrow> int" where
  "money_of v = round_half_up (v * 100)"

definition normal_row :: "target_row \<Rightarrow> target_row" where
  "normal_row row = row\<lparr>tr_floor := cents (money_of (tr_floor row)), tr_cap := cents (money_of (tr_cap row))\<rparr>"

lemma calc_money_of: "\<bar>money_of v\<bar> < 10 ^ DEFAULT_PREC \<Longrightarrow> calc_money v = Inr (cents (money_of v))"
  by (simp add: calc_money_at_def money_cents_at_def money_of_def cents_def Let_def)

lemma normalize_rows_ok:
  assumes "\<And>row. row \<in> set rows \<Longrightarrow> \<bar>money_of (tr_floor row)\<bar> < 10 ^ DEFAULT_PREC \<and> \<bar>money_of (tr_cap row)\<bar> < 10 ^ DEFAULT_PREC
    \<and> money_of (tr_floor row) \<le> money_of (tr_cap row)"
  shows "normalize_rows True rows = Inr (map normal_row rows)"
  using assms by (induction rows) (simp_all add: normalize_row_def calc_money_of cents_less normal_row_def linorder_not_less)

lemma normalize_bounds_ok:
  assumes "\<And>row. row \<in> set rows \<Longrightarrow> \<bar>money_of (tr_floor row)\<bar> \<le> m \<and> \<bar>money_of (tr_cap row)\<bar> \<le> m
      \<and> money_of (tr_floor row) \<le> money_of (tr_cap row)"
    and "m < 10 ^ DEFAULT_PREC" and "int (length rows) * m < 10 ^ DEFAULT_PREC"
  shows "normalize_bounds True rows = Inr (map normal_row rows, cents (sum_list (map (\<lambda>row. money_of (tr_floor row)) rows)),
    Some (cents (sum_list (map (\<lambda>row. money_of (tr_cap row)) rows))))"
proof -
  have "normalize_rows True rows = Inr (map normal_row rows)" by (rule normalize_rows_ok) (use assms in fastforce)
  moreover have "dec_sum (map (\<lambda>row. cents (money_of (tr_floor row))) rows) = cents (sum_list (map (\<lambda>row. money_of (tr_floor row)) rows))"
    "dec_sum (map (\<lambda>row. cents (money_of (tr_cap row))) rows) = cents (sum_list (map (\<lambda>row. money_of (tr_cap row)) rows))"
    by (rule dec_sum_cents_le [OF _ assms(3)], use assms(1) in blast)+
  ultimately show ?thesis by (simp add: normalize_bounds_def comp_def normal_row_def)
qed

lemma row_ok_normal:
  assumes "\<bar>money_of (tr_floor row)\<bar> \<le> m \<and> \<bar>money_of (tr_cap row)\<bar> \<le> m \<and> money_of (tr_floor row) \<le> money_of (tr_cap row)"
  shows "row_ok m (reset_bound_state (normal_row row))" "floor_cents (reset_bound_state (normal_row row)) = money_of (tr_floor row)"
    "cap_cents (reset_bound_state (normal_row row)) = money_of (tr_cap row)"
  using assms by (simp_all add: row_ok_def floor_cents_def cap_cents_def reset_bound_state_def normal_row_def cents_def)

section \<open>The bounded allocation\<close>

lemma sum_same_set:
  assumes "distinct ks" and "set ks = {0..<n}"
  shows "sum_list (map f ks) = sum_list (map (f :: nat \<Rightarrow> int) [0..<n])"
  using assms by (simp add: sum_list_distinct_conv_sum_set)

lemma near_rounded:
  assumes "\<lfloor>a * 100\<rfloor> \<le> p" and "p \<le> \<lceil>a * 100\<rceil>"
  shows "\<bar>cents p - a\<bar> \<le> 1 / 100" "a = cents k \<Longrightarrow> p = k"
proof -
  have "a * 100 - 1 \<le> of_int p" "of_int p \<le> a * 100 + 1" using assms by linarith+
  then show "\<bar>cents p - a\<bar> \<le> 1 / 100" by (simp add: cents_def abs_le_iff field_simps)
  show "p = k" if "a = cents k" using assms that by (simp add: cents_def)
qed

text \<open>What a row of a bounded allocation is, from the row that was entered.\<close>

definition bounded_row :: "target_row \<Rightarrow> target_row \<Rightarrow> bool" where
  "bounded_row row r \<longleftrightarrow> tr_site_code r = tr_site_code row \<and> tr_weight r = tr_weight row
     \<and> tr_floor r = cents (money_of (tr_floor row)) \<and> tr_cap r = cents (money_of (tr_cap row))
     \<and> tr_floor r \<le> tr_proposed r \<and> tr_proposed r \<le> tr_cap r
     \<and> (tr_floor_limited r \<longleftrightarrow> tr_proposed r = tr_floor r) \<and> (tr_cap_limited r \<longleftrightarrow> tr_proposed r = tr_cap r)"

lemma bounded_row_final:
  assumes "money_of (tr_floor row) \<le> p" and "p \<le> money_of (tr_cap row)"
  shows "bounded_row row (mark_final_bounds ((reset_bound_state (normal_row row))\<lparr>tr_proposed := cents p\<rparr>))"
    "tr_proposed (mark_final_bounds ((reset_bound_state (normal_row row))\<lparr>tr_proposed := cents p\<rparr>)) = cents p"
  using assms by (simp_all add: bounded_row_def mark_final_bounds_def reset_bound_state_def normal_row_def Let_def cents_le)

lemma allocate_with_bounds_eval:
  fixes rows :: "target_row list" and m R :: int
  assumes ne: "rows \<noteq> []"
    and rows: "\<And>row. row \<in> set rows \<Longrightarrow> \<bar>money_of (tr_floor row)\<bar> \<le> m \<and> \<bar>money_of (tr_cap row)\<bar> \<le> m
      \<and> money_of (tr_floor row) \<le> money_of (tr_cap row)"
    and m: "100 \<le> m" and big: "m < 10 ^ DEFAULT_PREC" "int (length rows) * m < 10 ^ DEFAULT_PREC"
    and q: "q = money_of requested" "sum_list (map (\<lambda>row. money_of (tr_floor row)) rows) \<le> q" "q \<le> sum_list (map (\<lambda>row. money_of (tr_cap row)) rows)"
    and rs0: "rs0 = map (\<lambda>row. reset_bound_state (normal_row row)) rows"
    and solve: "solve_box_allocations rs0 (cents q) = Inr assigned"
    and round: "round_bounded_allocations rs0 assigned (cents q) (cents (sum_list (map (\<lambda>row. money_of (tr_floor row)) rows)))
        (cents (sum_list (map (\<lambda>row. money_of (tr_cap row)) rows)))
      = Inr (map (\<lambda>i. (rs0 ! i)\<lparr>tr_proposed := cents (p i)\<rparr>) [0..<length rows])"
    and p: "sum_list (map p [0..<length rows]) = q" "\<And>i. i < length rows \<Longrightarrow> money_of (tr_floor (rows ! i)) \<le> p i \<and> p i \<le> money_of (tr_cap (rows ! i))"
  shows "allocate_with_bounds rows requested = Inr (map (\<lambda>i. mark_final_bounds ((rs0 ! i)\<lparr>tr_proposed := cents (p i)\<rparr>)) [0..<length rows])"
proof -
  let ?rs = "map (\<lambda>i. mark_final_bounds ((rs0 ! i)\<lparr>tr_proposed := cents (p i)\<rparr>)) [0..<length rows]"
  have b: "\<bar>sum_list (map (\<lambda>row. money_of (tr_floor row)) rows)\<bar> \<le> int (length rows) * m"
    "\<bar>sum_list (map (\<lambda>row. money_of (tr_cap row)) rows)\<bar> \<le> int (length rows) * m" by (rule int_sum_bound, use rows in blast)+
  have money: "calc_money requested = Inr (cents q)" unfolding q(1) by (rule calc_money_of) (use b q big in linarith)
  have at: "rs0 ! i = reset_bound_state (normal_row (rows ! i))" if "i < length rows" for i using that by (simp add: rs0)
  have pb: "\<bar>p i\<bar> \<le> m" if "i < length rows" for i using p(2) [OF that] rows [of "rows ! i"] that by force
  have "map tr_proposed ?rs = map (\<lambda>i. cents (p i)) [0..<length rows]"
    using bounded_row_final(2) p(2) by (auto simp: at)
  moreover have "dec_sum (map (\<lambda>i. cents (p i)) [0..<length rows]) = cents q"
    unfolding p(1) [symmetric] by (rule dec_sum_cents_le [of _ _ m]) (use pb big in auto)
  ultimately have total: "dec_sum (map tr_proposed ?rs) = cents q" by (simp only:)
  have within: "\<not> (\<exists>row \<in> set ?rs. tr_proposed row < tr_floor row \<or> tr_cap row < tr_proposed row)"
    using bounded_row_final(1) p(2) by (force simp: at bounded_row_def)
  have mm: "map mark_final_bounds (map (\<lambda>i. (rs0 ! i)\<lparr>tr_proposed := cents (p i)\<rparr>) [0..<length rows]) = ?rs" by (simp add: comp_def)
  have rs: "map reset_bound_state (map normal_row rows) = rs0" by (simp add: rs0 comp_def)
  have norm: "normalize_bounds True rows = Inr (map normal_row rows, cents (sum_list (map (\<lambda>row. money_of (tr_floor row)) rows)),
      Some (cents (sum_list (map (\<lambda>row. money_of (tr_cap row)) rows))))" by (rule normalize_bounds_ok [OF rows big])
  show ?thesis
    unfolding allocate_with_bounds_def money norm res_bind_simps Let_def prod.case option.sel rs solve round mm total
    using ne q(2,3) within by (simp add: cents_less)
qed

lemma final_row_fields:
  "tr_weight (mark_final_bounds ((reset_bound_state (normal_row row))\<lparr>tr_proposed := v\<rparr>)) = tr_weight row"
  "clip_box_value (mark_final_bounds ((reset_bound_state (normal_row row))\<lparr>tr_proposed := v\<rparr>)) = clip_box_value (reset_bound_state (normal_row row))"
  "tr_weight (reset_bound_state (normal_row row)) = tr_weight row"
  "tr_floor (reset_bound_state (normal_row row)) = cents (money_of (tr_floor row))"
  "tr_cap (reset_bound_state (normal_row row)) = cents (money_of (tr_cap row))"
  by (simp_all add: mark_final_bounds_def reset_bound_state_def normal_row_def Let_def fun_eq_iff clip_box_value_def)

lemma sum_nth: "sum_list (map (\<lambda>i. f (xs ! i)) [0..<length xs]) = sum_list (map f xs)"
proof -
  have "map (\<lambda>i. f (xs ! i)) [0..<length xs] = map f xs" by (rule nth_equalityI) simp_all
  then show ?thesis by (simp only:)
qed

lemma allocate_with_bounds_core:
  assumes "rows \<noteq> []"
    and "\<forall>row \<in> set rows. \<bar>money_of (tr_floor row)\<bar> \<le> m \<and> \<bar>money_of (tr_cap row)\<bar> \<le> m
      \<and> money_of (tr_floor row) \<le> money_of (tr_cap row) \<and> 0 \<le> tr_weight row"
    and "\<forall>row \<in> set rows. \<forall>row' \<in> set rows. 0 < tr_weight row' \<longrightarrow> tr_weight row \<le> of_int R * tr_weight row'"
    and "100 \<le> m" and "1 \<le> R" and "int (length rows) ^ 3 * (m * R) \<le> 10 ^ 27"
    and "sum_list (map (\<lambda>row. money_of (tr_floor row)) rows) \<le> q" "q \<le> sum_list (map (\<lambda>row. money_of (tr_cap row)) rows)"
    and q: "q = money_of requested" and rs0: "rs0 = map (\<lambda>row. reset_bound_state (normal_row row)) rows"
  shows "\<exists>ks a p. allocate_with_bounds rows requested = Inr (map (\<lambda>i. mark_final_bounds ((rs0 ! i)\<lparr>tr_proposed := cents (p i)\<rparr>)) [0..<length rows])
    \<and> assigned_ok rs0 q ks a \<and> sum_list (map p [0..<length rows]) = q
    \<and> (\<forall>i < length rows. money_of (tr_floor (rows ! i)) \<le> p i \<and> p i \<le> money_of (tr_cap (rows ! i)) \<and> \<lfloor>a i * 100\<rfloor> \<le> p i \<and> p i \<le> \<lceil>a i * 100\<rceil>)"
proof -
  let ?n = "length rows"
  have at: "rs0 ! i = reset_bound_state (normal_row (rows ! i))" if "i < ?n" for i using that by (simp add: rs0)
  have mono: "\<bar>money_of (tr_floor row)\<bar> \<le> m \<and> \<bar>money_of (tr_cap row)\<bar> \<le> m \<and> money_of (tr_floor row) \<le> money_of (tr_cap row)"
    if "row \<in> set rows" for row using assms(2) that by blast
  have row: "row_ok m (rs0 ! i)" "floor_cents (rs0 ! i) = money_of (tr_floor (rows ! i))" "cap_cents (rs0 ! i) = money_of (tr_cap (rows ! i))"
    if "i < ?n" for i using row_ok_normal [OF mono [of "rows ! i"]] that by (simp_all add: at)
  have len: "length rs0 = ?n" by (simp add: rs0)
  note sz = size_mono [OF assms(6) order_refl assms(4,5)]
  have n: "0 < ?n" using assms(1) by simp
  have "1 * m \<le> int ?n * m" using n assms(4) by (intro mult_right_mono) linarith+
  then have big: "m < 10 ^ DEFAULT_PREC" using sz(2) by linarith
  have "\<exists>ks a. solve_box_allocations rs0 (cents q) = Inr (map (\<lambda>i. (i, a i)) ks) \<and> assigned_ok rs0 q ks a"
  proof (rule solve_box_allocations_ok [of rs0 m R])
    have "map (\<lambda>i. floor_cents (rs0 ! i)) [0..<?n] = map (\<lambda>i. money_of (tr_floor (rows ! i))) [0..<?n]"
      "map (\<lambda>i. cap_cents (rs0 ! i)) [0..<?n] = map (\<lambda>i. money_of (tr_cap (rows ! i))) [0..<?n]" using row(2,3) by auto
    then show "sum_list (map (\<lambda>i. floor_cents (rs0 ! i)) [0..<length rs0]) \<le> q"
      "q \<le> sum_list (map (\<lambda>i. cap_cents (rs0 ! i)) [0..<length rs0])"
      using assms(7,8) sum_nth [of "\<lambda>row. money_of (tr_floor row)" rows] sum_nth [of "\<lambda>row. money_of (tr_cap row)" rows]
      by (simp_all only: len)
  qed (use assms(2-6) row at final_row_fields(3) in \<open>auto simp: len\<close>)
  then obtain ks a where solve: "solve_box_allocations rs0 (cents q) = Inr (map (\<lambda>i. (i, a i)) ks)" and ok: "assigned_ok rs0 q ks a" by blast
  have ks: "distinct ks" "set ks = {0..<length rs0}" using ok by (simp_all add: assigned_ok_def)
  have "\<bar>sum_list (map a ks) - cents q\<bar> < 1 / 1000" using ok by (simp add: assigned_ok_def)
  then have near: "\<bar>sum_list (map a ks) - cents q\<bar> < 1 / 100" by (rule order_less_trans) simp
  have ab: "tr_floor (rs0 ! i) \<le> a i \<and> a i \<le> tr_cap (rs0 ! i)" if "i < length rs0" for i using ok that by (simp add: assigned_ok_def)
  have mag: "(int (length rs0) + 2) * (m + 1) < 10 ^ DEFAULT_PREC" unfolding len using sz(3) n by simp
  have rows': "row_ok m (rs0 ! i)" if "i < length rs0" for i using row(1) that by (simp add: len)
  obtain p where round: "round_bounded_allocations rs0 (map (\<lambda>i. (i, a i)) ks) (cents q)
        (cents (sum_list (map (\<lambda>row. money_of (tr_floor row)) rows))) (cents (sum_list (map (\<lambda>row. money_of (tr_cap row)) rows)))
      = Inr (map (\<lambda>i. (rs0 ! i)\<lparr>tr_proposed := cents (p i)\<rparr>) [0..<?n])"
    and sum: "sum_list (map p ks) = q"
    and p: "\<forall>i < ?n. floor_cents (rs0 ! i) \<le> p i \<and> p i \<le> cap_cents (rs0 ! i) \<and> \<lfloor>a i * 100\<rfloor> \<le> p i \<and> p i \<le> \<lceil>a i * 100\<rceil>"
    using round_bounded_exact [OF rows' ks ab near mag] assms(4) unfolding len by auto
  have sum': "sum_list (map p [0..<?n]) = q" using sum sum_same_set [OF ks(1) ks(2) [unfolded len], of p] by simp
  have p': "money_of (tr_floor (rows ! i)) \<le> p i \<and> p i \<le> money_of (tr_cap (rows ! i)) \<and> \<lfloor>a i * 100\<rfloor> \<le> p i \<and> p i \<le> \<lceil>a i * 100\<rceil>"
    if "i < ?n" for i using p row(2,3) that by simp
  have "allocate_with_bounds rows requested = Inr (map (\<lambda>i. mark_final_bounds ((rs0 ! i)\<lparr>tr_proposed := cents (p i)\<rparr>)) [0..<?n])"
    by (rule allocate_with_bounds_eval [OF assms(1) mono assms(4) big sz(2) q assms(7,8) rs0 solve round sum']) (use p' in auto)
  then show ?thesis using ok sum' p' by blast
qed

lemma allocate_with_bounds_exact:
  assumes "rows \<noteq> []"
    and "\<forall>row \<in> set rows. \<bar>money_of (tr_floor row)\<bar> \<le> m \<and> \<bar>money_of (tr_cap row)\<bar> \<le> m
      \<and> money_of (tr_floor row) \<le> money_of (tr_cap row) \<and> 0 \<le> tr_weight row"
    and "\<forall>row \<in> set rows. \<forall>row' \<in> set rows. 0 < tr_weight row' \<longrightarrow> tr_weight row \<le> of_int R * tr_weight row'"
    and "100 \<le> m" and "1 \<le> R" and "int (length rows) ^ 3 * (m * R) \<le> 10 ^ 27"
    and "sum_list (map (\<lambda>row. money_of (tr_floor row)) rows) \<le> money_of requested"
    and "money_of requested \<le> sum_list (map (\<lambda>row. money_of (tr_cap row)) rows)"
  shows "\<exists>rs x. allocate_with_bounds rows requested = Inr rs \<and> list_all2 bounded_row rows rs
    \<and> sum_list (map tr_proposed rs) = cents (money_of requested)
    \<and> (\<forall>r \<in> set rs. 0 < tr_weight r \<longrightarrow> \<bar>tr_proposed r - clip_box_value r (x * tr_weight r)\<bar> \<le> 11 / 1000)
    \<and> ((\<forall>r \<in> set rs. tr_weight r = 0 \<longrightarrow> tr_floor_limited r) \<or> (\<forall>r \<in> set rs. 0 < tr_weight r \<longrightarrow> tr_cap_limited r))"
proof -
  define rs0 where "rs0 = map (\<lambda>row. reset_bound_state (normal_row row)) rows"
  let ?n = "length rows" and ?q = "money_of requested" and ?w = "\<lambda>i. tr_weight (rs0 ! i)"
  obtain ks a p where eval: "allocate_with_bounds rows requested = Inr (map (\<lambda>i. mark_final_bounds ((rs0 ! i)\<lparr>tr_proposed := cents (p i)\<rparr>)) [0..<?n])"
    and ok: "assigned_ok rs0 ?q ks a" and sum: "sum_list (map p [0..<?n]) = ?q"
    and p: "\<forall>i < ?n. money_of (tr_floor (rows ! i)) \<le> p i \<and> p i \<le> money_of (tr_cap (rows ! i)) \<and> \<lfloor>a i * 100\<rfloor> \<le> p i \<and> p i \<le> \<lceil>a i * 100\<rceil>"
    using allocate_with_bounds_core [OF assms refl rs0_def] by blast
  define r where "r i = mark_final_bounds ((rs0 ! i)\<lparr>tr_proposed := cents (p i)\<rparr>)" for i
  have r: "r i = mark_final_bounds ((reset_bound_state (normal_row (rows ! i)))\<lparr>tr_proposed := cents (p i)\<rparr>)" if "i < ?n" for i
    using that by (simp add: r_def rs0_def)
  have len: "length rs0 = ?n" and at: "rs0 ! i = reset_bound_state (normal_row (rows ! i))" if "i < ?n" for i using that by (simp_all add: rs0_def)
  have row: "bounded_row (rows ! i) (r i)" "tr_proposed (r i) = cents (p i)" if "i < ?n" for i
    using bounded_row_final [of "rows ! i" "p i"] p that by (simp_all add: r)
  obtain x where x: "\<forall>i < ?n. 0 < ?w i \<longrightarrow> \<bar>a i - box_exact rs0 ?w x i\<bar> \<le> 1 / 1000"
    using ok by (auto simp: assigned_ok_def rs0_def)
  have w: "tr_weight (r i) = ?w i" "clip_box_value (r i) = clip_box_value (rs0 ! i)" if "i < ?n" for i
    using that by (simp_all add: r at final_row_fields)
  have share: "\<bar>tr_proposed (r i) - clip_box_value (r i) (x * tr_weight (r i))\<bar> \<le> 11 / 1000" if "i < ?n" "0 < tr_weight (r i)" for i
  proof -
    have "\<bar>cents (p i) - a i\<bar> \<le> 1 / 100" using near_rounded(1) p that(1) by blast
    moreover have "\<bar>a i - clip_box_value (r i) (x * tr_weight (r i))\<bar> \<le> 1 / 1000" using x that by (simp add: w box_exact_def)
    ultimately show ?thesis using near_trans [of "cents (p i)" "a i"] row(2) [OF that(1)] by fastforce
  qed
  have reserve: "(\<forall>i < ?n. tr_weight (r i) = 0 \<longrightarrow> tr_floor_limited (r i)) \<or> (\<forall>i < ?n. 0 < tr_weight (r i) \<longrightarrow> tr_cap_limited (r i))"
  proof -
    have eq: "p i = k" if "i < ?n" "a i = cents k" for i k
      by (rule near_rounded(2) [of "a i"]) (use p that in auto)
    have lim: "a i = cents (money_of (tr_floor (rows ! i))) \<Longrightarrow> tr_floor_limited (r i)" "a i = cents (money_of (tr_cap (rows ! i))) \<Longrightarrow> tr_cap_limited (r i)"
      if "i < ?n" for i using eq [OF that] row [OF that] by (simp_all add: bounded_row_def)
    have "(\<forall>i < ?n. ?w i = 0 \<longrightarrow> a i = tr_floor (rs0 ! i)) \<or> (\<forall>i < ?n. 0 < ?w i \<longrightarrow> a i = tr_cap (rs0 ! i))"
      using ok by (simp add: assigned_ok_def rs0_def)
    then show ?thesis using lim by (auto simp: w at final_row_fields)
  qed
  have "map tr_proposed (map r [0..<?n]) = map (\<lambda>i. cents (p i)) [0..<?n]" using row(2) by simp
  then have total: "sum_list (map tr_proposed (map r [0..<?n])) = cents ?q" by (simp only: sum_cents sum)
  have all: "list_all2 bounded_row rows (map r [0..<?n])" using row(1) by (simp add: list_all2_conv_all_nth)
  have "allocate_with_bounds rows requested = Inr (map r [0..<?n])" using eval by (simp add: r_def [abs_def])
  then show ?thesis using all total share reserve by (intro exI [of _ "map r [0..<?n]"] exI [of _ x]) auto
qed

text \<open>
  C10: A budget between the floors and the caps is met: the call succeeds, the proposed amounts
  add up to the budget to the cent, each lies between its floor and its cap with the limit flags
  telling which bound it has reached, and each store with a weight is within 1.1 cents of one
  common multiple of its weight clipped to its bounds. Stores without a weight stay at their
  floors unless every store with a weight is at its cap.
\<close>

theorem bounded_allocation_exact:
  assumes "rows \<noteq> []"
    and "\<forall>row \<in> set rows. \<bar>money_of (tr_floor row)\<bar> \<le> m \<and> \<bar>money_of (tr_cap row)\<bar> \<le> m
      \<and> money_of (tr_floor row) \<le> money_of (tr_cap row) \<and> 0 \<le> tr_weight row"
    and "\<forall>row \<in> set rows. \<forall>row' \<in> set rows. 0 < tr_weight row' \<longrightarrow> tr_weight row \<le> of_int R * tr_weight row'"
    and "100 \<le> m" and "1 \<le> R" and "int (length rows) ^ 3 * (m * R) \<le> 10 ^ 27"
    and "sum_list (map (\<lambda>row. money_of (tr_floor row)) rows) \<le> money_of requested"
    and "money_of requested \<le> sum_list (map (\<lambda>row. money_of (tr_cap row)) rows)"
  shows "\<exists>rs x. allocate_with_bounds rows requested = Inr rs \<and> list_all2 bounded_row rows rs
    \<and> sum_list (map tr_proposed rs) = cents (money_of requested)
    \<and> (\<forall>r \<in> set rs. 0 < tr_weight r \<longrightarrow> \<bar>tr_proposed r - clip_box_value r (x * tr_weight r)\<bar> \<le> 11 / 1000)
    \<and> ((\<forall>r \<in> set rs. tr_weight r = 0 \<longrightarrow> tr_floor_limited r) \<or> (\<forall>r \<in> set rs. 0 < tr_weight r \<longrightarrow> tr_cap_limited r))"
  using assms by (rule allocate_with_bounds_exact)

definition store_row :: "string \<Rightarrow> rat \<Rightarrow> rat \<Rightarrow> rat \<Rightarrow> target_row" where
  "store_row site weight flr cap = \<lparr>tr_site_code = site, tr_weight = weight, tr_floor = flr, tr_cap = cap, tr_proposed = 0,
     tr_floor_limited = False, tr_cap_limited = False, tr_reason = ''proportional'', tr_flags = []\<rparr>"

definition sample_stores :: "target_row list" where
  "sample_stores = [store_row ''A'' 3 100 400, store_row ''B'' 1 150 300, store_row ''C'' (5/2) 10 90, store_row ''D'' 0 5 20]"

lemma money_of_numeral: "money_of (numeral k) = 100 * numeral k"
proof -
  have "(numeral k :: rat) * 100 = of_int (100 * numeral k)" by (simp only: of_int_mult of_int_numeral mult.commute)
  then show ?thesis unfolding money_of_def by (simp only: round_half_up_of_int)
qed

theorem bounded_allocation_exact_witness:
  "\<exists>rs x. allocate_with_bounds sample_stores (400001 / 1000) = Inr rs \<and> list_all2 bounded_row sample_stores rs
    \<and> sum_list (map tr_proposed rs) = cents 40000
    \<and> (\<forall>r \<in> set rs. 0 < tr_weight r \<longrightarrow> \<bar>tr_proposed r - clip_box_value r (x * tr_weight r)\<bar> \<le> 11 / 1000)
    \<and> ((\<forall>r \<in> set rs. tr_weight r = 0 \<longrightarrow> tr_floor_limited r) \<or> (\<forall>r \<in> set rs. 0 < tr_weight r \<longrightarrow> tr_cap_limited r))"
proof -
  have q: "money_of (400001 / 1000) = 40000" by (simp add: money_of_def round_half_up_def floor_eq_iff)
  show ?thesis
    by (rule bounded_allocation_exact [of sample_stores 40000 3 "400001 / 1000", unfolded q])
      (simp_all add: sample_stores_def store_row_def money_of_numeral)
qed

section \<open>Refused budgets\<close>

lemma normalize_rows_refused:
  assumes "\<And>row. row \<in> set rows \<Longrightarrow> \<bar>money_of (tr_floor row)\<bar> < 10 ^ DEFAULT_PREC \<and> \<bar>money_of (tr_cap row)\<bar> < 10 ^ DEFAULT_PREC"
    and "\<exists>row \<in> set rows. money_of (tr_cap row) < money_of (tr_floor row)"
  shows "normalize_rows True rows = Inl CapUnderFloor"
  using assms
proof (induction rows)
  case (Cons row rows)
  have row: "normalize_row True row = (if money_of (tr_cap row) < money_of (tr_floor row) then Inl CapUnderFloor else Inr (normal_row row))"
    using Cons.prems(1) [of row] by (simp add: normalize_row_def calc_money_of cents_less normal_row_def)
  show ?case
  proof (cases "money_of (tr_cap row) < money_of (tr_floor row)")
    case False
    then have "normalize_rows True rows = Inl CapUnderFloor" using Cons by auto
    then show ?thesis using row by simp
  qed (use row in simp)
qed simp

lemma negative_weight_counts:
  assumes "\<exists>i < n. w i < (0 :: rat)"
  shows "length (filter (\<lambda>i. 0 < w i) [0..<n]) + length (filter (\<lambda>i. w i = 0) [0..<n]) \<noteq> n"
proof -
  have "length (filter (\<lambda>i. 0 < w i) js) + length (filter (\<lambda>i. w i = 0) js) + length (filter (\<lambda>i. w i < 0) js) = length js" for js
    by (induction js) auto
  from this [of "[0..<n]"] assms show ?thesis by (auto simp: filter_empty_conv)
qed

text \<open>
  What a bounded allocation refuses, with the reason: a cap below its floor, a budget below
  the floors or above the caps (reported with the budget and both totals in cents), and a
  negative weight.
\<close>

theorem bounded_allocation_refused:
  assumes "rows \<noteq> []" and "\<forall>row \<in> set rows. \<bar>money_of (tr_floor row)\<bar> \<le> m \<and> \<bar>money_of (tr_cap row)\<bar> \<le> m"
    and "m < 10 ^ DEFAULT_PREC" and "int (length rows) * m < 10 ^ DEFAULT_PREC" and "\<bar>money_of requested\<bar> < 10 ^ DEFAULT_PREC"
  shows "let q = money_of requested; floors = sum_list (map (\<lambda>row. money_of (tr_floor row)) rows);
      caps = sum_list (map (\<lambda>row. money_of (tr_cap row)) rows); ordered = (\<forall>row \<in> set rows. money_of (tr_floor row) \<le> money_of (tr_cap row))
    in (\<not> ordered \<longrightarrow> allocate_with_bounds rows requested = Inl CapUnderFloor)
     \<and> (ordered \<and> (q < floors \<or> caps < q)
        \<longrightarrow> allocate_with_bounds rows requested = Inl (TargetBudgetInfeasible (cents q) (cents floors) (Some (cents caps))))
     \<and> (ordered \<and> floors \<le> q \<and> q \<le> caps \<and> (\<exists>row \<in> set rows. tr_weight row < 0)
        \<longrightarrow> allocate_with_bounds rows requested = Inl NegativeWeights)"
proof -
  let ?q = "money_of requested" and ?F = "sum_list (map (\<lambda>row. money_of (tr_floor row)) rows)" and ?C = "sum_list (map (\<lambda>row. money_of (tr_cap row)) rows)"
  have money: "calc_money requested = Inr (cents ?q)" using assms(5) by (rule calc_money_of)
  have b: "\<bar>?F\<bar> < 10 ^ DEFAULT_PREC" "\<bar>?C\<bar> < 10 ^ DEFAULT_PREC"
    by (rule order_le_less_trans [OF int_sum_bound assms(4)], use assms(2) in blast)+
  have "allocate_with_bounds rows requested = Inl CapUnderFloor" if "\<not> (\<forall>row \<in> set rows. money_of (tr_floor row) \<le> money_of (tr_cap row))"
  proof -
    have "normalize_rows True rows = Inl CapUnderFloor" by (rule normalize_rows_refused) (use assms(2,3) that in \<open>force simp: not_le\<close>)+
    then show ?thesis using assms(1) by (simp add: allocate_with_bounds_def money normalize_bounds_def)
  qed
  moreover have norm: "normalize_bounds True rows = Inr (map normal_row rows, cents ?F, Some (cents ?C))"
    if "\<forall>row \<in> set rows. money_of (tr_floor row) \<le> money_of (tr_cap row)"
    by (rule normalize_bounds_ok [OF _ assms(3,4)]) (use assms(2) that in blast)
  have "allocate_with_bounds rows requested = Inl (TargetBudgetInfeasible (cents ?q) (cents ?F) (Some (cents ?C)))"
    if "\<forall>row \<in> set rows. money_of (tr_floor row) \<le> money_of (tr_cap row)" "?q < ?F \<or> ?C < ?q"
    using assms(1,5) that b by (simp add: allocate_with_bounds_def money norm cents_less budget_infeasible_def calc_money_cents Let_def)
  moreover have "allocate_with_bounds rows requested = Inl NegativeWeights"
    if "\<forall>row \<in> set rows. money_of (tr_floor row) \<le> money_of (tr_cap row)" "?F \<le> ?q" "?q \<le> ?C" and neg: "\<exists>row \<in> set rows. tr_weight row < 0"
  proof -
    let ?rs = "map reset_bound_state (map normal_row rows)"
    obtain i where "i < length rows" "tr_weight (rows ! i) < 0" using neg by (auto simp: in_set_conv_nth)
    then have "\<exists>i < length ?rs. tr_weight (?rs ! i) < 0" by (intro exI [of _ i]) (simp add: final_row_fields)
    from negative_weight_counts [OF this] have "solve_box_allocations ?rs (cents ?q) = Inl NegativeWeights" by (simp add: solve_box_allocations_def Let_def)
    then show ?thesis using assms(1) that by (simp add: allocate_with_bounds_def money norm cents_less Let_def)
  qed
  ultimately show ?thesis unfolding Let_def by blast
qed

theorem bounded_allocation_refused_witness:
  "allocate_with_bounds sample_stores 900 = Inl (TargetBudgetInfeasible (cents 90000) (cents 26500) (Some (cents 81000)))"
  using bounded_allocation_refused [of sample_stores 40000 900]
  by (simp add: sample_stores_def store_row_def money_of_numeral DEFAULT_PREC_def)

end
