(* ===== verification/Target_Proposal.thy ===== *)
theory Target_Proposal
  imports Target_Seasonality Target_Correctness
begin

text \<open>
  The calculation of a target proposal (\<^verbatim>\<open>services/target_calculator/proposal.py\<close>,
  \<^verbatim>\<open>services/target_calculator/proposal_rows.py\<close>): parameters, aggregated sales, seasonality and trend of a store, its
  floor, cap and weight, and the allocation of the total. The sales rows and the forecast
  factors, which the repository and the forecast service return, are arguments; the float copies
  in the response details are left out.
\<close>

section \<open>Parameters\<close>

datatype proposal_error =
    InvalidParameters
  | BelowFloors
  | AboveCaps
  | BudgetInfeasible
  | ProposalSeason season_error
  | ProposalFailure calc_error

record proposal_parameters =
  pp_total_target :: rat
  pp_min_floor :: rat
  pp_floor_pct :: rat
  pp_cap_pct :: rat
  pp_trend_weight :: rat
  pp_seasonality_min :: rat
  pp_seasonality_max :: rat
  pp_trend_min :: rat
  pp_trend_max :: rat

text \<open>The defaults of the service are those the payload leaves out.\<close>

definition default_parameters :: "rat \<Rightarrow> proposal_parameters" where
  "default_parameters total_target = \<lparr>pp_total_target = total_target, pp_min_floor = 35000, pp_floor_pct = 90 / 100,
     pp_cap_pct = 170 / 100, pp_trend_weight = 10 / 100, pp_seasonality_min = 70 / 100, pp_seasonality_max = 170 / 100,
     pp_trend_min = 95 / 100, pp_trend_max = 110 / 100\<rparr>"

definition parameters_valid :: "proposal_parameters \<Rightarrow> bool" where
  "parameters_valid p \<longleftrightarrow> 0 < pp_total_target p \<and> 0 \<le> pp_min_floor p \<and> 0 \<le> pp_floor_pct p \<and> 0 < pp_cap_pct p
     \<and> pp_floor_pct p \<le> pp_cap_pct p \<and> 0 \<le> pp_trend_weight p \<and> 0 < pp_seasonality_min p
     \<and> pp_seasonality_min p \<le> pp_seasonality_max p \<and> 0 < pp_trend_min p \<and> pp_trend_min p \<le> pp_trend_max p"

definition normalize_proposal_parameters :: "proposal_parameters \<Rightarrow> (proposal_error, proposal_parameters) result" where
  "normalize_proposal_parameters payload =
     (case calc_money (pp_total_target payload) of Inl _ \<Rightarrow> Inl InvalidParameters
      | Inr total_target \<Rightarrow>
        (case calc_money (pp_min_floor payload) of Inl _ \<Rightarrow> Inl InvalidParameters
         | Inr min_floor \<Rightarrow>
           (let p = payload\<lparr>pp_total_target := total_target, pp_min_floor := min_floor\<rparr>
            in if parameters_valid p then Inr p else Inl InvalidParameters)))"

section \<open>Sales\<close>

record sales_row =
  sr_site_code :: string
  sr_import_month :: string
  sr_target :: "rat option"
  sr_realized :: "rat option"

record source_metric =
  mt_target :: rat
  mt_actual_realized :: rat
  mt_realized :: rat
  mt_forecast_factor :: rat
  mt_is_forecast :: bool

record cohort_store =
  cs_site_code :: string
  cs_regional :: string

record proposal_metrics =
  pm_metric :: "string \<Rightarrow> string \<Rightarrow> source_metric"
  pm_totals :: "string \<Rightarrow> rat \<times> rat"
  pm_regional :: "string \<Rightarrow> string \<Rightarrow> rat"

definition or_zero :: "rat option \<Rightarrow> rat" where
  "or_zero v = (case v of None \<Rightarrow> 0 | Some x \<Rightarrow> x)"

definition source_metric_of :: "(string \<Rightarrow> rat) \<Rightarrow> sales_row \<Rightarrow> (proposal_error, source_metric) result" where
  "source_metric_of factors row =
     (let factor = factors (sr_import_month row) in
      case calc_money (or_zero (sr_realized row)) of Inl e \<Rightarrow> Inl (ProposalFailure e)
      | Inr actual \<Rightarrow>
        (case realized_for_calculation (or_zero (sr_realized row)) factor of Inl e \<Rightarrow> Inl (ProposalFailure e)
         | Inr realized \<Rightarrow> Inr \<lparr>mt_target = or_zero (sr_target row), mt_actual_realized = actual, mt_realized = realized,
             mt_forecast_factor = factor, mt_is_forecast = (1 < factor)\<rparr>))"

definition empty_metric :: "rat \<Rightarrow> source_metric" where
  "empty_metric factor = \<lparr>mt_target = 0, mt_actual_realized = 0, mt_realized = 0, mt_forecast_factor = factor, mt_is_forecast = (1 < factor)\<rparr>"

text \<open>The dict of metrics: a later row of the same store and month replaces an earlier one.\<close>

fun metric_entries :: "(string \<Rightarrow> rat) \<Rightarrow> sales_row list \<Rightarrow> (string \<times> string \<Rightarrow> source_metric option)
    \<Rightarrow> (proposal_error, string \<times> string \<Rightarrow> source_metric option) result" where
  "metric_entries factors [] d = Inr d"
| "metric_entries factors (row # rows) d =
     res_bind (source_metric_of factors row) (\<lambda>m. metric_entries factors rows (d((sr_site_code row, sr_import_month row) \<mapsto> m)))"

definition metric_lookup :: "(string \<Rightarrow> rat) \<Rightarrow> (string \<times> string \<Rightarrow> source_metric option) \<Rightarrow> string \<Rightarrow> string \<Rightarrow> source_metric" where
  "metric_lookup factors d site month = (case d (site, month) of None \<Rightarrow> empty_metric (factors month) | Some m \<Rightarrow> m)"

definition regional_of :: "cohort_store list \<Rightarrow> string \<Rightarrow> string option" where
  "regional_of cohort site = map_of (rev (map (\<lambda>c. (cs_site_code c, cs_regional c)) cohort)) site"

definition metric_aggregates :: "cohort_store list \<Rightarrow> sales_row list \<Rightarrow> (string \<Rightarrow> rat) \<Rightarrow> (proposal_error, proposal_metrics) result" where
  "metric_aggregates cohort rows factors =
     res_bind (metric_entries factors rows (\<lambda>_. None)) (\<lambda>d.
       let metric = metric_lookup factors d; sites = map cs_site_code cohort
       in Inr \<lparr>pm_metric = metric,
         pm_totals = (\<lambda>month. (dec_sum (map (\<lambda>s. mt_target (metric s month)) sites), dec_sum (map (\<lambda>s. mt_realized (metric s month)) sites))),
         pm_regional = (\<lambda>regional month. dec_sum (map (\<lambda>s. mt_realized (metric s month))
           (filter (\<lambda>s. regional_of cohort s = Some regional) sites)))\<rparr>)"

section \<open>Seasonality of a store\<close>

record season_weights =
  sw_store :: rat
  sw_zone :: rat
  sw_network :: rat

definition STRONG_SEASONALITY_WEIGHTS :: season_weights where
  "STRONG_SEASONALITY_WEIGHTS = \<lparr>sw_store = 50 / 100, sw_zone = 30 / 100, sw_network = 20 / 100\<rparr>"

definition WEAK_SEASONALITY_WEIGHTS :: season_weights where
  "WEAK_SEASONALITY_WEIGHTS = \<lparr>sw_store = 30 / 100, sw_zone = 40 / 100, sw_network = 30 / 100\<rparr>"

definition NEW_STORE_SEASONALITY_WEIGHTS :: season_weights where
  "NEW_STORE_SEASONALITY_WEIGHTS = \<lparr>sw_store = 0, sw_zone = 60 / 100, sw_network = 40 / 100\<rparr>"

definition MIN_SEASONALITY_BASE :: rat where
  "MIN_SEASONALITY_BASE = 10000"

record season_result =
  sn_store_factor :: "rat option"
  sn_zone_factor :: "rat option"
  sn_weights :: season_weights
  sn_flags :: "string list"
  sn_raw_blended :: rat
  sn_factor :: rat

definition season_weights_of :: "rat option \<Rightarrow> ratio_detail list \<Rightarrow> nat \<Rightarrow> season_weights \<times> string list" where
  "season_weights_of store_factor store_years years =
     (let ratios = List.map_filter rd_ratio store_years;
          first = (if store_factor = None then (NEW_STORE_SEASONALITY_WEIGHTS, [''NEW_STORE'', ''LOW_HISTORY''])
            else if length ratios \<le> 1 \<and> 1 < years then (WEAK_SEASONALITY_WEIGHTS, [''LOW_HISTORY''])
            else if 1 < years \<and> (\<exists>d \<in> set store_years. rd_year_offset d = 1 \<and> rd_ratio d = None)
            then (WEAK_SEASONALITY_WEIGHTS, [''LOW_RECENT_HISTORY''])
            else (STRONG_SEASONALITY_WEIGHTS, []))
      in if ratios \<noteq> [] \<and> (Min (set ratios) < 50 / 100 \<or> 2 < Max (set ratios))
         then (WEAK_SEASONALITY_WEIGHTS, snd first @ [''EXTREME_SEASONALITY'']) else first)"

definition season_ratio :: "season_pair list \<Rightarrow> (string \<Rightarrow> rat) \<Rightarrow> rat \<Rightarrow> (proposal_error, rat option \<times> ratio_detail list) result" where
  "season_ratio pairs values_of minimum_base =
     (case weighted_ratio pairs (\<lambda>m. Some (values_of m)) minimum_base of Inl e \<Rightarrow> Inl (ProposalSeason e) | Inr r \<Rightarrow> Inr r)"

definition seasonality_result :: "proposal_parameters \<Rightarrow> season_pair list \<Rightarrow> nat \<Rightarrow> proposal_metrics \<Rightarrow> cohort_store \<Rightarrow> rat
    \<Rightarrow> (proposal_error, season_result) result" where
  "seasonality_result params pairs years metrics store network_factor =
     res_bind (season_ratio pairs (\<lambda>m. mt_realized (pm_metric metrics (cs_site_code store) m)) MIN_SEASONALITY_BASE) (\<lambda>(store_factor, store_years).
     res_bind (season_ratio pairs (pm_regional metrics (cs_regional store)) 0) (\<lambda>(zone_factor, zone_years).
       case season_weights_of store_factor store_years years of (weights, flags) \<Rightarrow>
       (let blended = weighted_available [(store_factor, sw_store weights), (zone_factor, sw_zone weights), (Some network_factor, sw_network weights)];
            raw_blended = (case blended of None \<Rightarrow> 1 | Some b \<Rightarrow> b);
            factor = clamp_decimal raw_blended (pp_seasonality_min params) (pp_seasonality_max params)
        in Inr \<lparr>sn_store_factor = store_factor, sn_zone_factor = zone_factor, sn_weights = weights,
          sn_flags = (if factor \<noteq> raw_blended then flags @ [''SEASONALITY_CAPPED''] else flags),
          sn_raw_blended = raw_blended, sn_factor = factor\<rparr>)))"

section \<open>The row of a store\<close>

definition proposal_money :: "rat \<Rightarrow> (proposal_error, rat) result" where
  "proposal_money v = (case calc_money v of Inl e \<Rightarrow> Inl (ProposalFailure e) | Inr x \<Rightarrow> Inr x)"

definition trend_adjustment :: "proposal_parameters \<Rightarrow> rat \<Rightarrow> rat \<Rightarrow> rat \<times> rat" where
  "trend_adjustment params current_forecast trend_base =
     (let trend_raw = (if MIN_SEASONALITY_BASE < trend_base
            then dec_add 1 (dec_ctx DEFAULT_PREC (dec_sub (dec_ctx DEFAULT_PREC (current_forecast / trend_base)) 1 * pp_trend_weight params))
            else 1)
      in (trend_raw, clamp_decimal trend_raw (pp_trend_min params) (pp_trend_max params)))"

definition calculated_store_row :: "proposal_parameters \<Rightarrow> season_pair list \<Rightarrow> nat \<Rightarrow> string \<Rightarrow> proposal_metrics \<Rightarrow> rat \<Rightarrow> cohort_store
    \<Rightarrow> (proposal_error, target_row) result" where
  "calculated_store_row params pairs years current_month metrics network_factor store =
     res_bind (seasonality_result params pairs years metrics store network_factor) (\<lambda>season.
     let current_forecast = mt_realized (pm_metric metrics (cs_site_code store) current_month);
         trend_base = mt_realized (pm_metric metrics (cs_site_code store) (sp_base_month (hd pairs)))
     in case trend_adjustment params current_forecast trend_base of (trend_raw, trend_used) \<Rightarrow>
     res_bind (proposal_money (dec_ctx DEFAULT_PREC (dec_ctx DEFAULT_PREC (current_forecast * sn_factor season) * trend_used))) (\<lambda>raw_estimate.
     res_bind (proposal_money (dec_ctx DEFAULT_PREC (current_forecast * pp_floor_pct params))) (\<lambda>floor_part.
     res_bind (proposal_money (dec_ctx DEFAULT_PREC (current_forecast * pp_cap_pct params))) (\<lambda>cap_part.
     let floor_target = max (pp_min_floor params) floor_part; cap_target = max floor_target cap_part
     in Inr \<lparr>tr_site_code = cs_site_code store, tr_weight = raw_estimate, tr_floor = floor_target, tr_cap = cap_target, tr_proposed = 0,
       tr_floor_limited = False, tr_cap_limited = False, tr_reason = ''proportional'',
       tr_flags = (if trend_used \<noteq> trend_raw then sn_flags season @ [''TREND_ADJUSTMENT_CAPPED''] else sn_flags season)\<rparr>))))"

fun store_rows_of :: "(cohort_store \<Rightarrow> (proposal_error, target_row) result) \<Rightarrow> cohort_store list \<Rightarrow> (proposal_error, target_row list) result" where
  "store_rows_of f [] = Inr []"
| "store_rows_of f (c # cs) = res_bind (f c) (\<lambda>r. res_bind (store_rows_of f cs) (\<lambda>rs. Inr (r # rs)))"

definition calculated_rows :: "proposal_parameters \<Rightarrow> season_pair list \<Rightarrow> nat \<Rightarrow> string \<Rightarrow> proposal_metrics \<Rightarrow> cohort_store list
    \<Rightarrow> (proposal_error, target_row list) result" where
  "calculated_rows params pairs years current_month metrics cohort =
     res_bind (season_ratio pairs (\<lambda>m. snd (pm_totals metrics m)) 0) (\<lambda>(network, network_years).
       store_rows_of (calculated_store_row params pairs years current_month metrics (case network of None \<Rightarrow> 1 | Some f \<Rightarrow> f)) cohort)"

section \<open>The allocation of a proposal\<close>

text \<open>The result is the rows with the flags their details list, and whether the uniform distribution was used.\<close>

definition weighted_rows :: "target_row list \<Rightarrow> target_row list \<times> bool" where
  "weighted_rows rows =
     (let raw_total = dec_sum (map tr_weight rows) in
      if raw_total = 0
      then (map (\<lambda>row. row\<lparr>tr_weight := dec_ctx DEFAULT_PREC (1 / of_nat (length rows)), tr_flags := tr_flags row @ [''LOW_HISTORY'']\<rparr>) rows, True)
      else (map (\<lambda>row. row\<lparr>tr_weight := dec_ctx DEFAULT_PREC (tr_weight row / raw_total)\<rparr>) rows, False))"

definition allocate_rows :: "target_row list \<Rightarrow> rat \<Rightarrow> (proposal_error, (target_row \<times> string list) list \<times> bool) result" where
  "allocate_rows rows total_target =
     (case weighted_rows rows of (weighted, uniform) \<Rightarrow>
      (let floor_total = dec_sum (map tr_floor weighted); cap_total = dec_sum (map tr_cap weighted) in
       if total_target < floor_total then Inl BelowFloors
       else if cap_total < total_target then Inl AboveCaps
       else case allocate_with_bounds weighted total_target of
           Inl (TargetBudgetInfeasible r f c) \<Rightarrow> Inl BudgetInfeasible
         | Inl e \<Rightarrow> Inl (ProposalFailure e)
         | Inr allocated \<Rightarrow> Inr (map (\<lambda>row. (row, unique_first (tr_flags row))) allocated, uniform)))"

definition calculate_targets :: "proposal_parameters \<Rightarrow> season_pair list \<Rightarrow> nat \<Rightarrow> string \<Rightarrow> cohort_store list \<Rightarrow> sales_row list \<Rightarrow> (string \<Rightarrow> rat)
    \<Rightarrow> (proposal_error, (target_row \<times> string list) list \<times> bool) result" where
  "calculate_targets params pairs years current_month cohort rows factors =
     res_bind (metric_aggregates cohort rows factors) (\<lambda>metrics.
     res_bind (calculated_rows params pairs years current_month metrics cohort) (\<lambda>store_rows.
       allocate_rows store_rows (pp_total_target params)))"

section \<open>Calculated rows meet the allocator's contract\<close>

lemma proposal_money_cents: "proposal_money v = Inr x \<Longrightarrow> \<exists>k. x = cents k \<and> \<bar>k\<bar> < 10 ^ DEFAULT_PREC \<and> k = money_of v"
  by (auto simp: proposal_money_def calc_money_at_def money_cents_at_def Let_def cents_def money_of_def split: if_splits)

lemma cents_max: "max (cents a) (cents b) = cents (max a b)"
  by (simp add: max_def cents_le)

definition plan_row :: "target_row \<Rightarrow> bool" where
  "plan_row row \<longleftrightarrow> (\<exists>f c k. tr_floor row = cents f \<and> tr_cap row = cents c \<and> tr_weight row = cents k \<and> 0 \<le> f \<and> f \<le> c)"

lemma calculated_store_row_plan:
  assumes row: "calculated_store_row params pairs years month metrics network store = Inr row"
    and params: "parameters_valid params" "pp_min_floor params = cents mf"
  shows "plan_row row"
proof -
  let ?cur = "mt_realized (pm_metric metrics (cs_site_code store) month)"
  obtain trend_raw trend_used where
    t: "trend_adjustment params ?cur (mt_realized (pm_metric metrics (cs_site_code store) (sp_base_month (hd pairs)))) = (trend_raw, trend_used)"
    by (rule prod.exhaust)
  obtain season raw fl cp where s: "seasonality_result params pairs years metrics store network = Inr season"
    and raw: "proposal_money (dec_ctx DEFAULT_PREC (dec_ctx DEFAULT_PREC (?cur * sn_factor season) * trend_used)) = Inr raw"
    and fl: "proposal_money (dec_ctx DEFAULT_PREC (?cur * pp_floor_pct params)) = Inr fl"
    and cp: "proposal_money (dec_ctx DEFAULT_PREC (?cur * pp_cap_pct params)) = Inr cp"
    and r: "tr_weight row = raw" "tr_floor row = max (pp_min_floor params) fl" "tr_cap row = max (max (pp_min_floor params) fl) cp"
    using row by (auto simp: calculated_store_row_def res_simps Let_def t)
  obtain k f c where k: "raw = cents k" and f: "fl = cents f" and c: "cp = cents c"
    using proposal_money_cents [OF raw] proposal_money_cents [OF fl] proposal_money_cents [OF cp] by auto
  have "0 \<le> mf" using params by (auto simp: parameters_valid_def cents_def)
  then show ?thesis unfolding plan_row_def r k f c params(2) cents_max
    by (intro exI [of _ "max mf f"] exI [of _ "max (max mf f) c"] exI [of _ k]) auto
qed

lemma store_rows_of_all:
  assumes "store_rows_of g cs = Inr rows" and "\<And>c r. c \<in> set cs \<Longrightarrow> g c = Inr r \<Longrightarrow> P r"
  shows "length rows = length cs \<and> (\<forall>r \<in> set rows. P r)"
  using assms
proof (induction cs arbitrary: rows)
  case (Cons c cs)
  then obtain r rs where "g c = Inr r" "store_rows_of g cs = Inr rs" "rows = r # rs" by (auto simp: res_simps)
  with Cons show ?case by auto
qed simp

lemma calculated_rows_plan:
  assumes "calculated_rows params pairs years month metrics cohort = Inr rows"
    and "parameters_valid params" and "pp_min_floor params = cents mf"
  shows "length rows = length cohort \<and> (\<forall>row \<in> set rows. plan_row row)"
proof -
  obtain network where "store_rows_of (calculated_store_row params pairs years month metrics network) cohort = Inr rows"
    using assms(1) by (auto simp: calculated_rows_def res_simps split: prod.splits)
  then show ?thesis by (rule store_rows_of_all) (use calculated_store_row_plan assms(2,3) in blast)
qed

interpretation d28: relative_rounding "dec_ctx DEFAULT_PREC" "5 / 10 ^ 28"
proof
  fix x
  show "\<bar>dec_ctx DEFAULT_PREC x - x\<bar> \<le> \<bar>x\<bar> * (5 / 10 ^ 28)"
    using dec_ctx_error [of DEFAULT_PREC x] powi_error [of DEFAULT_PREC] by (simp add: DEFAULT_PREC_def)
qed simp_all

lemma d28_quarter: "0 \<le> x \<Longrightarrow> 3 * x \<le> 4 * dec_ctx DEFAULT_PREC x \<and> 4 * dec_ctx DEFAULT_PREC x \<le> 5 * x"
proof -
  assume x: "0 \<le> x"
  have "\<bar>dec_ctx DEFAULT_PREC x - x\<bar> \<le> \<bar>x\<bar> * (5 / 10 ^ 28)" by (rule d28.rnd_error)
  also have "\<dots> \<le> x * (1 / 4)" using x by simp
  finally show ?thesis unfolding abs_le_iff by simp
qed

lemma dec_ctx_neg: "x < 0 \<Longrightarrow> dec_ctx DEFAULT_PREC x < 0"
proof -
  assume x: "x < 0"
  have "\<bar>dec_ctx DEFAULT_PREC x - x\<bar> \<le> \<bar>x\<bar> * (5 / 10 ^ 28)" by (rule d28.rnd_error)
  also have "\<dots> \<le> - x * (1 / 4)" using x by simp
  finally show ?thesis using x unfolding abs_le_iff by simp
qed

lemma weight_ratio:
  fixes k k' K m :: int
  assumes "0 < K" and "0 \<le> k" "k \<le> m" and "0 < dec_ctx DEFAULT_PREC (cents k' / cents K)" and "0 \<le> k'"
  shows "dec_ctx DEFAULT_PREC (cents k / cents K) \<le> of_int (2 * m) * dec_ctx DEFAULT_PREC (cents k' / cents K)"
proof -
  let ?x = "cents k / cents K" and ?x' = "cents k' / cents K"
  have K: "0 < cents K" using assms(1) by (simp add: cents_def)
  have nn: "0 \<le> ?x" "0 \<le> ?x'" using assms K by (simp_all add: cents_def)
  have "k' \<noteq> 0" using assms(4) by (auto simp: cents_def)
  then have "1 \<le> k'" using assms(5) by simp
  then have "k \<le> m * k'" using mult_left_mono [of 1 k' m] assms by simp
  then have "(of_int k :: rat) \<le> of_int m * of_int k'" by (metis of_int_le_iff of_int_mult)
  then have "cents k \<le> of_int m * cents k'" by (simp add: cents_def)
  then have "?x \<le> of_int m * ?x'" using K by (simp add: divide_right_mono)
  moreover have "of_int m * (3 * ?x') \<le> of_int m * (4 * dec_ctx DEFAULT_PREC ?x')"
    using d28_quarter [OF nn(2)] assms by (intro mult_left_mono) auto
  ultimately show ?thesis using d28_quarter [OF nn(1)] nn by simp
qed

text \<open>
  The estimates of the stores can be shared out when they do not differ in sign from their sum, or when the sum is zero and the
  distribution is uniform.
\<close>

definition weights_agree :: "target_row list \<Rightarrow> bool" where
  "weights_agree rows \<longleftrightarrow> (let total = sum_list (map tr_weight rows) in total = 0 \<or> (\<forall>row \<in> set rows. 0 \<le> tr_weight row * total))"

lemma weight_total:
  assumes rows: "\<And>row. row \<in> set rows \<Longrightarrow> plan_row row \<and> \<bar>tr_weight row\<bar> \<le> cents m"
    and big: "int (length rows) * m < 10 ^ DEFAULT_PREC"
  shows "\<exists>k. (\<forall>row \<in> set rows. tr_weight row = cents (k row) \<and> \<bar>k row\<bar> \<le> m) \<and> dec_sum (map tr_weight rows) = cents (sum_list (map k rows))
    \<and> sum_list (map tr_weight rows) = cents (sum_list (map k rows))"
proof -
  define k where "k row = \<lfloor>tr_weight row * 100\<rfloor>" for row :: target_row
  have k: "tr_weight row = cents (k row)" "\<bar>k row\<bar> \<le> m" if "row \<in> set rows" for row
  proof -
    show w: "tr_weight row = cents (k row)" using rows [OF that] by (auto simp: plan_row_def k_def cents_def)
    have "\<bar>cents (k row)\<bar> = cents \<bar>k row\<bar>" by (simp add: cents_def)
    then show "\<bar>k row\<bar> \<le> m" using rows [OF that] unfolding w by (simp add: cents_le)
  qed
  then have weights: "map tr_weight rows = map (\<lambda>row. cents (k row)) rows" by simp
  show ?thesis using k dec_sum_cents_le [of rows k m DEFAULT_PREC] big unfolding weights sum_cents by blast
qed

lemma weighted_rows_ok:
  assumes rows: "\<And>row. row \<in> set rows \<Longrightarrow> plan_row row \<and> \<bar>tr_weight row\<bar> \<le> cents m" and m: "0 < m"
    and big: "int (length rows) * m < 10 ^ DEFAULT_PREC"
  shows "\<exists>h F uniform. weighted_rows rows = (map (\<lambda>row. row\<lparr>tr_weight := h row, tr_flags := F row\<rparr>) rows, uniform)
    \<and> (if weights_agree rows
       then (\<forall>row \<in> set rows. 0 \<le> h row) \<and> (\<forall>row \<in> set rows. \<forall>row' \<in> set rows. 0 < h row' \<longrightarrow> h row \<le> of_int (2 * m) * h row')
       else \<exists>row \<in> set rows. h row < 0)"
proof -
  obtain k where k: "\<forall>row \<in> set rows. tr_weight row = cents (k row) \<and> \<bar>k row\<bar> \<le> m" and total: "dec_sum (map tr_weight rows) = cents (sum_list (map k rows))"
    and exact: "sum_list (map tr_weight rows) = cents (sum_list (map k rows))" using weight_total [OF rows big] by blast
  let ?K = "sum_list (map k rows)"
  have K0: "cents ?K = 0 \<longleftrightarrow> ?K = 0" by (simp add: cents_def)
  show ?thesis
  proof (cases "?K = 0")
    case True
    let ?h = "dec_ctx DEFAULT_PREC (1 / of_nat (length rows))"
    have h: "0 \<le> ?h" by (intro dec_ctx_nonneg) simp
    have "weighted_rows rows = (map (\<lambda>row. row\<lparr>tr_weight := ?h, tr_flags := tr_flags row @ [''LOW_HISTORY'']\<rparr>) rows, True)"
      using True by (simp add: weighted_rows_def total Let_def cents_def)
    moreover have "?h \<le> of_int (2 * m) * ?h" using h m mult_right_mono [of 1 "of_int (2 * m)" ?h] by simp
    moreover have "weights_agree rows" using True K0 by (simp add: weights_agree_def exact)
    ultimately show ?thesis using h by (intro exI conjI) auto
  next
    case False
    define g where "g row = (if 0 < ?K then k row else - k row)" for row
    let ?h = "\<lambda>row. dec_ctx DEFAULT_PREC (cents (g row) / cents \<bar>?K\<bar>)"
    have K: "0 < \<bar>?K\<bar>" using False by simp
    have quot: "cents (k row) / cents ?K = cents (g row) / cents \<bar>?K\<bar>" for row using False by (simp add: g_def cents_def)
    have w: "weighted_rows rows = (map (\<lambda>row. row\<lparr>tr_weight := ?h row, tr_flags := tr_flags row\<rparr>) rows, False)"
      using False k by (simp add: weighted_rows_def total Let_def K0 quot)
    have sign: "0 \<le> tr_weight row * cents ?K \<longleftrightarrow> 0 \<le> g row" if "row \<in> set rows" for row
      using k that False by (auto simp: g_def cents_def zero_le_mult_iff)
    then have agree: "weights_agree rows \<longleftrightarrow> (\<forall>row \<in> set rows. 0 \<le> g row)" using False by (auto simp: weights_agree_def exact K0)
    show ?thesis
    proof (cases "weights_agree rows")
      case True
      then have g: "0 \<le> g row" "g row \<le> m" if "row \<in> set rows" for row using agree k that by (auto simp: g_def abs_le_iff)
      have "0 \<le> ?h row" if "row \<in> set rows" for row using g [OF that] K by (intro dec_ctx_nonneg) (simp add: cents_def)
      moreover have "?h row \<le> of_int (2 * m) * ?h row'" if "row \<in> set rows" "row' \<in> set rows" "0 < ?h row'" for row row'
        using weight_ratio [OF K g [OF that(1)] that(3)] g [OF that(2)] by simp
      ultimately show ?thesis using True w by (intro exI [of _ ?h] exI [of _ tr_flags] exI [of _ False] conjI) auto
    next
      case False
      then obtain row where row: "row \<in> set rows" "g row < 0" using agree by force
      then have "0 < - (cents (g row) / cents \<bar>?K\<bar>)" using K by (simp add: cents_def divide_neg_pos)
      then have "?h row < 0" using dec_ctx_neg [of "cents (g row) / cents \<bar>?K\<bar>"] by simp
      then show ?thesis using False w row(1) by (intro exI [of _ ?h] exI [of _ tr_flags] exI [of _ False] conjI) auto
    qed
  qed
qed

section \<open>The proposal\<close>

text \<open>A store's row of the proposal, against its calculated floor and cap.\<close>

definition proposed_within :: "target_row \<Rightarrow> target_row \<times> string list \<Rightarrow> bool" where
  "proposed_within row r \<longleftrightarrow> tr_site_code (fst r) = tr_site_code row \<and> tr_floor row \<le> tr_proposed (fst r) \<and> tr_proposed (fst r) \<le> tr_cap row"

lemma allocate_rows_ok:
  assumes ne: "rows \<noteq> []" and rows: "\<And>row. row \<in> set rows \<Longrightarrow> plan_row row \<and> \<bar>tr_weight row\<bar> \<le> cents m \<and> tr_cap row \<le> cents m"
    and m: "100 \<le> m" and size: "int (length rows) ^ 3 * (m * (2 * m)) \<le> 10 ^ 27"
    and q: "sum_list (map tr_floor rows) \<le> cents q" "cents q \<le> sum_list (map tr_cap rows)"
  shows "if weights_agree rows
    then \<exists>allocated uniform. allocate_rows rows (cents q) = Inr (allocated, uniform)
      \<and> list_all2 proposed_within rows allocated \<and> sum_list (map (\<lambda>r. tr_proposed (fst r)) allocated) = cents q
    else allocate_rows rows (cents q) = Inl (ProposalFailure NegativeWeights)"
proof -
  have sz: "int (length rows) * m < 10 ^ DEFAULT_PREC" using size_mono(2) [OF size order_refl m] m by simp
  have "1 * m \<le> int (length rows) * m" using ne m by (intro mult_right_mono) (simp_all add: Suc_le_eq)
  then have sm: "m < 10 ^ DEFAULT_PREC" using sz by simp
  define f where "f row = \<lfloor>tr_floor row * 100\<rfloor>" for row :: target_row
  define c where "c row = \<lfloor>tr_cap row * 100\<rfloor>" for row :: target_row
  have fc: "tr_floor row = cents (f row)" "tr_cap row = cents (c row)" "0 \<le> f row" "f row \<le> c row" "c row \<le> m" if "row \<in> set rows" for row
    using rows [OF that] by (auto simp: plan_row_def f_def c_def cents_def)
  obtain h F uniform where w: "weighted_rows rows = (map (\<lambda>row. row\<lparr>tr_weight := h row, tr_flags := F row\<rparr>) rows, uniform)"
    and h: "if weights_agree rows
       then (\<forall>row \<in> set rows. 0 \<le> h row) \<and> (\<forall>row \<in> set rows. \<forall>row' \<in> set rows. 0 < h row' \<longrightarrow> h row \<le> of_int (2 * m) * h row')
       else \<exists>row \<in> set rows. h row < 0"
    using weighted_rows_ok [of rows m] rows m sz by auto
  let ?ws = "map (\<lambda>row. row\<lparr>tr_weight := h row, tr_flags := F row\<rparr>) rows"
  have floors: "map tr_floor rows = map (\<lambda>row. cents (f row)) rows" and caps: "map tr_cap rows = map (\<lambda>row. cents (c row)) rows" using fc by auto
  have tf: "map tr_floor ?ws = map (\<lambda>row. cents (f row)) rows" and tc: "map tr_cap ?ws = map (\<lambda>row. cents (c row)) rows" using fc by (auto simp: comp_def)
  have qi: "sum_list (map f rows) \<le> q" "q \<le> sum_list (map c rows)" using q unfolding floors caps sum_cents cents_le .
  have ds: "dec_sum (map tr_floor ?ws) = cents (sum_list (map f rows))" "dec_sum (map tr_cap ?ws) = cents (sum_list (map c rows))"
    unfolding tf tc by (rule dec_sum_cents_le [OF _ sz], use fc in force)+
  have mo: "money_of (cents n) = n" for n by (simp add: money_of_def cents_def)
  have mf: "map (\<lambda>row. money_of (tr_floor row)) ?ws = map f rows" "map (\<lambda>row. money_of (tr_cap row)) ?ws = map c rows" using fc by (auto simp: mo)
  have abs: "\<bar>f row\<bar> \<le> m" "\<bar>c row\<bar> \<le> m" if "row \<in> set rows" for row using fc [OF that] by linarith+
  have bounds: "\<forall>row \<in> set ?ws. \<bar>money_of (tr_floor row)\<bar> \<le> m \<and> \<bar>money_of (tr_cap row)\<bar> \<le> m"
    and ordered: "\<forall>row \<in> set ?ws. money_of (tr_floor row) \<le> money_of (tr_cap row)" using fc(1,2,4) abs by (simp_all add: mo)
  have budget: "sum_list (map (\<lambda>row. money_of (tr_floor row)) ?ws) \<le> money_of (cents q)" "money_of (cents q) \<le> sum_list (map (\<lambda>row. money_of (tr_cap row)) ?ws)"
    unfolding mf mo by (rule qi)+
  have alloc: "allocate_rows rows (cents q) = (case allocate_with_bounds ?ws (cents q) of
      Inl (TargetBudgetInfeasible r f c) \<Rightarrow> Inl BudgetInfeasible | Inl e \<Rightarrow> Inl (ProposalFailure e)
    | Inr allocated \<Rightarrow> Inr (map (\<lambda>row. (row, unique_first (tr_flags row))) allocated, uniform))"
    unfolding allocate_rows_def w prod.case Let_def ds using qi by (simp add: cents_less)
  show ?thesis
  proof (cases "weights_agree rows")
    case True
    have ws_ok: "\<forall>row \<in> set ?ws. \<bar>money_of (tr_floor row)\<bar> \<le> m \<and> \<bar>money_of (tr_cap row)\<bar> \<le> m \<and> money_of (tr_floor row) \<le> money_of (tr_cap row) \<and> 0 \<le> tr_weight row"
      and ws_ratio: "\<forall>row \<in> set ?ws. \<forall>row' \<in> set ?ws. 0 < tr_weight row' \<longrightarrow> tr_weight row \<le> of_int (2 * m) * tr_weight row'"
      using bounds ordered h True by simp_all
    obtain rs where rs: "allocate_with_bounds ?ws (cents q) = Inr rs" "list_all2 bounded_row ?ws rs" "sum_list (map tr_proposed rs) = cents q"
      using allocate_with_bounds_exact [OF _ ws_ok ws_ratio m _ _ budget] ne m size unfolding mo by auto
    have "list_all2 proposed_within rows (map (\<lambda>row. (row, unique_first (tr_flags row))) rs)"
      using rs(2) fc by (auto simp: list_all2_conv_all_nth bounded_row_def proposed_within_def mo)
    then show ?thesis using True rs(3) unfolding alloc rs(1) by (simp add: comp_def)
  next
    case False
    have caps_le: "\<bar>sum_list (map c rows)\<bar> \<le> int (length rows) * m" by (rule int_sum_bound) (use abs in blast)
    have "0 \<le> sum_list (map f rows)" by (rule sum_list_nonneg) (use fc in auto)
    then have qb: "\<bar>money_of (cents q)\<bar> < 10 ^ DEFAULT_PREC" unfolding mo using qi caps_le sz by linarith
    have "\<exists>row \<in> set ?ws. tr_weight row < 0" using h False by simp
    moreover have "?ws \<noteq> []" "int (length ?ws) * m < 10 ^ DEFAULT_PREC" using ne sz by simp_all
    ultimately have "allocate_with_bounds ?ws (cents q) = Inl NegativeWeights"
      using bounded_allocation_refused [OF _ bounds sm _ qb] ordered budget unfolding Let_def by blast
    then show ?thesis using False unfolding alloc by simp
  qed
qed

text \<open>
  C30: A total between the floors and the caps calculated from the sales is met exactly when the estimates of the stores do not differ in
  sign from their sum (or the sum is zero). Then the call succeeds, every store of the cohort gets an amount between its floor and
  its cap, and the amounts add up to the total. Otherwise, as with one store in the red next to others with sales, the call fails
  with the \<^verbatim>\<open>ValueError\<close> on negative weights. Parameters are normalized; the cohort and the amounts, up to \<open>m\<close> cents, are small enough for 28 digits.
\<close>

theorem proposal_meets_total:
  assumes "cohort \<noteq> []" and "normalize_proposal_parameters payload = Inr params"
    and "metric_aggregates cohort rows factors = Inr metrics"
    and "calculated_rows params pairs years month metrics cohort = Inr store_rows"
    and "\<forall>row \<in> set store_rows. \<bar>tr_weight row\<bar> \<le> cents m \<and> tr_cap row \<le> cents m"
    and "100 \<le> m" and "int (length cohort) ^ 3 * (m * (2 * m)) \<le> 10 ^ 27"
    and "sum_list (map tr_floor store_rows) \<le> pp_total_target params" and "pp_total_target params \<le> sum_list (map tr_cap store_rows)"
  shows "if weights_agree store_rows
    then \<exists>allocated uniform. calculate_targets params pairs years month cohort rows factors = Inr (allocated, uniform)
      \<and> length allocated = length cohort \<and> list_all2 proposed_within store_rows allocated
      \<and> sum_list (map (\<lambda>r. tr_proposed (fst r)) allocated) = pp_total_target params
    else calculate_targets params pairs years month cohort rows factors = Inl (ProposalFailure NegativeWeights)"
proof -
  have cents_money: "calc_money v = Inr x \<Longrightarrow> \<exists>k. x = cents k" for v x
    using proposal_money_cents [of v x] by (auto simp: proposal_money_def)
  obtain t mf where tm: "calc_money (pp_total_target payload) = Inr t" "calc_money (pp_min_floor payload) = Inr mf"
    and p: "params = payload\<lparr>pp_total_target := t, pp_min_floor := mf\<rparr>" and valid: "parameters_valid params"
    using assms(2) by (auto simp: normalize_proposal_parameters_def Let_def split: sum.splits if_splits)
  obtain q k where q: "pp_total_target params = cents q" and k: "pp_min_floor params = cents k"
    using cents_money [OF tm(1)] cents_money [OF tm(2)] p by auto
  have plan: "length store_rows = length cohort" "\<forall>row \<in> set store_rows. plan_row row"
    using calculated_rows_plan [OF assms(4) valid k] by auto
  have ne: "store_rows \<noteq> []" using plan(1) assms(1) by auto
  have targets: "calculate_targets params pairs years month cohort rows factors = allocate_rows store_rows (cents q)"
    by (simp add: calculate_targets_def assms(3,4) q)
  have sz: "int (length store_rows) ^ 3 * (m * (2 * m)) \<le> 10 ^ 27" using assms(7) plan(1) by simp
  have "if weights_agree store_rows
    then \<exists>allocated uniform. allocate_rows store_rows (cents q) = Inr (allocated, uniform)
      \<and> list_all2 proposed_within store_rows allocated \<and> sum_list (map (\<lambda>r. tr_proposed (fst r)) allocated) = cents q
    else allocate_rows store_rows (cents q) = Inl (ProposalFailure NegativeWeights)"
    by (rule allocate_rows_ok [OF ne _ assms(6) sz]) (use plan assms(5,8,9) q in auto)
  then show ?thesis unfolding targets q using plan(1) by (auto split: if_splits simp: list_all2_lengthD [symmetric])
qed

definition sample_payload :: proposal_parameters where
  "sample_payload = default_parameters 100000"

definition sample_cohort :: "cohort_store list" where
  "sample_cohort = [\<lparr>cs_site_code = ''AFI'', cs_regional = ''R1''\<rparr>, \<lparr>cs_site_code = ''VIVO'', cs_regional = ''R2''\<rparr>]"

definition sample_sales :: "rat \<Rightarrow> sales_row list" where
  "sample_sales v = [\<lparr>sr_site_code = ''AFI'', sr_import_month = ''2025-05'', sr_target = Some 48000, sr_realized = Some 50000\<rparr>,
     \<lparr>sr_site_code = ''VIVO'', sr_import_month = ''2025-05'', sr_target = None, sr_realized = Some v\<rparr>]"

definition sample_pairs :: "season_pair list" where
  "sample_pairs = [\<lparr>sp_year_offset = 1, sp_base_month = ''2024-05'', sp_target_month = ''2024-06''\<rparr>]"

lemma sample_money: "calc_money 50000 = Inr 50000" "realized_for_calculation 50000 1 = Inr 50000" "calc_money 100000 = Inr 100000" "calc_money 35000 = Inr 35000"
  "calc_money 0 = Inr 0" "proposal_money (dec_ctx DEFAULT_PREC (dec_ctx DEFAULT_PREC (50000 * 1) * 1)) = Inr 50000"
  "proposal_money (dec_ctx DEFAULT_PREC (50000 * (9 / 10))) = Inr 45000" "proposal_money (dec_ctx DEFAULT_PREC (50000 * (17 / 10))) = Inr 85000"
  "proposal_money 0 = Inr 0" "calc_money (- 10000) = Inr (- 10000)" "realized_for_calculation 0 1 = Inr 0" "realized_for_calculation (- 10000) 1 = Inr (- 10000)"
  "proposal_money (dec_ctx DEFAULT_PREC (dec_ctx DEFAULT_PREC (- 10000 * 1) * 1)) = Inr (- 10000)"
  "proposal_money (dec_ctx DEFAULT_PREC (- 10000 * (9 / 10))) = Inr (- 9000)" "proposal_money (dec_ctx DEFAULT_PREC (- 10000 * (17 / 10))) = Inr (- 17000)"
  by code_simp+

lemma sample_blend: "weighted_available [(None, 0), (None, 60 / 100), (Some 1, 40 / 100)] = Some 1"
  by code_simp

definition sample_metric :: source_metric where
  "sample_metric = \<lparr>mt_target = 48000, mt_actual_realized = 50000, mt_realized = 50000, mt_forecast_factor = 1, mt_is_forecast = False\<rparr>"

definition vivo_metric :: "rat \<Rightarrow> source_metric" where
  "vivo_metric v = \<lparr>mt_target = 0, mt_actual_realized = v, mt_realized = v, mt_forecast_factor = 1, mt_is_forecast = False\<rparr>"

definition sample_metrics :: "rat \<Rightarrow> proposal_metrics" where
  "sample_metrics v = (let metric = metric_lookup (\<lambda>_. 1) [(''AFI'', ''2025-05'') \<mapsto> sample_metric, (''VIVO'', ''2025-05'') \<mapsto> vivo_metric v]; sites = [''AFI'', ''VIVO'']
     in \<lparr>pm_metric = metric,
       pm_totals = (\<lambda>month. (dec_sum (map (\<lambda>s. mt_target (metric s month)) sites), dec_sum (map (\<lambda>s. mt_realized (metric s month)) sites))),
       pm_regional = (\<lambda>regional month. dec_sum (map (\<lambda>s. mt_realized (metric s month))
         (filter (\<lambda>s. regional_of sample_cohort s = Some regional) sites)))\<rparr>)"

lemma sample_aggregates: "v \<in> {0, - 10000} \<Longrightarrow> metric_aggregates sample_cohort (sample_sales v) (\<lambda>_. 1) = Inr (sample_metrics v)"
  by (auto simp: metric_aggregates_def sample_sales_def source_metric_of_def or_zero_def sample_money sample_metrics_def sample_metric_def
      vivo_metric_def Let_def sample_cohort_def)

lemma sample_realized: "mt_realized (pm_metric (sample_metrics v) s m)
    = (if s = ''AFI'' \<and> m = ''2025-05'' then 50000 else if s = ''VIVO'' \<and> m = ''2025-05'' then v else 0)"
  by (simp add: sample_metrics_def Let_def metric_lookup_def sample_metric_def vivo_metric_def empty_metric_def)

lemma dec_sum_zeros: "(\<And>v. v \<in> set vs \<Longrightarrow> v = 0) \<Longrightarrow> dec_sum vs = 0"
proof (induction vs)
  case (Cons v vs)
  then have "v = 0" "dec_sum vs = 0" by auto
  then show ?case by (simp add: dec_sum_at_def)
qed (simp add: dec_sum_at_def)

lemma sample_sums: "m \<noteq> ''2025-05'' \<Longrightarrow> pm_regional (sample_metrics v) r m = 0 \<and> snd (pm_totals (sample_metrics v) m) = 0"
  unfolding sample_metrics_def Let_def
  by (auto simp: metric_lookup_def empty_metric_def intro!: dec_sum_zeros)

lemma sample_season:
  assumes "v ''2024-05'' = 0" and "v ''2024-06'' = 0" and "0 \<le> b"
  shows "season_ratio sample_pairs v b = Inr (None, [\<lparr>rd_year_offset = 1, rd_ratio = None\<rparr>])"
  using assms by (simp add: season_ratio_def weighted_ratio_def sample_pairs_def pair_ratio_def sample_money Let_def map_filter_def)

definition sample_rows :: "rat \<Rightarrow> target_row list" where
  "sample_rows v = map (\<lambda>row. row\<lparr>tr_flags := [''NEW_STORE'', ''LOW_HISTORY'']\<rparr>) [store_row ''AFI'' 50000 45000 85000, store_row ''VIVO'' v 35000 35000]"

lemma sample_season_result:
  "seasonality_result sample_payload sample_pairs 1 (sample_metrics v) store 1 = Inr \<lparr>sn_store_factor = None, sn_zone_factor = None,
     sn_weights = NEW_STORE_SEASONALITY_WEIGHTS, sn_flags = [''NEW_STORE'', ''LOW_HISTORY''], sn_raw_blended = 1, sn_factor = 1\<rparr>"
  by (simp add: seasonality_result_def sample_season sample_realized sample_sums MIN_SEASONALITY_BASE_def season_weights_of_def Let_def
      map_filter_def NEW_STORE_SEASONALITY_WEIGHTS_def sample_blend [simplified] clamp_decimal_def sample_payload_def default_parameters_def)

lemma sample_fields: "pp_min_floor sample_payload = 35000" "pp_floor_pct sample_payload = 9 / 10" "pp_cap_pct sample_payload = 17 / 10"
  "pp_trend_min sample_payload = 95 / 100" "pp_trend_max sample_payload = 110 / 100" "sp_base_month (hd sample_pairs) = ''2024-05''"
  by (simp_all add: sample_payload_def default_parameters_def sample_pairs_def)

lemma sample_store_row:
  "calculated_store_row sample_payload sample_pairs 1 ''2025-05'' (sample_metrics v) 1 \<lparr>cs_site_code = ''AFI'', cs_regional = r\<rparr>
     = Inr ((store_row ''AFI'' 50000 45000 85000)\<lparr>tr_flags := [''NEW_STORE'', ''LOW_HISTORY'']\<rparr>)"
  "v \<in> {0, - 10000} \<Longrightarrow> calculated_store_row sample_payload sample_pairs 1 ''2025-05'' (sample_metrics v) 1 \<lparr>cs_site_code = ''VIVO'', cs_regional = r\<rparr>
     = Inr ((store_row ''VIVO'' v 35000 35000)\<lparr>tr_flags := [''NEW_STORE'', ''LOW_HISTORY'']\<rparr>)"
  using sample_money by (auto simp: calculated_store_row_def sample_season_result [simplified] sample_realized
      trend_adjustment_def MIN_SEASONALITY_BASE_def clamp_decimal_def Let_def sample_fields store_row_def)

lemma sample_calculated:
  "v \<in> {0, - 10000} \<Longrightarrow> calculated_rows sample_payload sample_pairs 1 ''2025-05'' (sample_metrics v) sample_cohort = Inr (sample_rows v)"
  using sample_store_row [of v]
  by (simp only: calculated_rows_def sample_season sample_sums sample_cohort_def sample_rows_def) (simp add: sample_season sample_sums)

lemma sample_agree: "weights_agree (sample_rows 0)" "\<not> weights_agree (sample_rows (- 10000))"
  by (simp_all add: weights_agree_def sample_rows_def store_row_def Let_def)

lemma sample_normalized: "normalize_proposal_parameters sample_payload = Inr sample_payload"
  by (simp add: normalize_proposal_parameters_def sample_payload_def default_parameters_def sample_money parameters_valid_def Let_def)

lemmas sample_defs = sample_cohort_def sample_rows_def store_row_def sample_payload_def default_parameters_def cents_def

theorem proposal_meets_total_witness:
  "(\<exists>allocated uniform. calculate_targets sample_payload sample_pairs 1 ''2025-05'' sample_cohort (sample_sales 0) (\<lambda>_. 1) = Inr (allocated, uniform)
    \<and> length allocated = length sample_cohort \<and> list_all2 proposed_within (sample_rows 0) allocated
    \<and> sum_list (map (\<lambda>r. tr_proposed (fst r)) allocated) = pp_total_target sample_payload)
   \<and> calculate_targets sample_payload sample_pairs 1 ''2025-05'' sample_cohort (sample_sales (- 10000)) (\<lambda>_. 1) = Inl (ProposalFailure NegativeWeights)"
proof -
  have "if weights_agree (sample_rows v)
    then \<exists>allocated uniform. calculate_targets sample_payload sample_pairs 1 ''2025-05'' sample_cohort (sample_sales v) (\<lambda>_. 1) = Inr (allocated, uniform)
      \<and> length allocated = length sample_cohort \<and> list_all2 proposed_within (sample_rows v) allocated
      \<and> sum_list (map (\<lambda>r. tr_proposed (fst r)) allocated) = pp_total_target sample_payload
    else calculate_targets sample_payload sample_pairs 1 ''2025-05'' sample_cohort (sample_sales v) (\<lambda>_. 1) = Inl (ProposalFailure NegativeWeights)"
    if v: "v \<in> {0, - 10000}" for v
    by (rule proposal_meets_total [where m = 8500000, OF _ sample_normalized sample_aggregates [OF v] sample_calculated [OF v]])
      (use v in \<open>auto simp: sample_defs\<close>)
  from this [of 0] this [of "- 10000"] show ?thesis using sample_agree by simp
qed

end
