(* ===== verification/Target_Scenario.thy ===== *)
theory Target_Scenario
  imports Decimal_Arith Retail_Interfaces
begin

text \<open>
  The persisted target scenarios (\<^verbatim>\<open>repositories/target_calculator_scenarios.py\<close>) and the official
  store targets they are published to: saving a proposal as a draft, the managers' final values,
  finalization, and the import of official targets (\<^verbatim>\<open>upsert_store_targets\<close> of
  \<^verbatim>\<open>services/importer.py\<close>). Every operation is one transaction, so an error leaves the database as it
  was; the row lock and the advisory lock make the transactions on one scenario follow each other.
  Columns of JSON text hold the text \<^verbatim>\<open>json.dumps\<close> produced.

  The checks of \<^verbatim>\<open>schema_v2.sql\<close> and of migration 036 that an operation can violate are part of the
  operations: keys, foreign keys, the hash columns, the width of NUMERIC and INTEGER columns. The two
  triggers of migration 036 raise on a row whose override revision is null after an update of its
  final value and on a changed calculation method, which no operation here writes.
\<close>

section \<open>Data\<close>

datatype scenario_error =
    TargetScenarioFinalizedError
  | TargetScenarioVersionConflict
  | TargetScenarioAlgorithmMismatch
  | ConstraintViolation
  | NumericOverflow
  | QuantizeError

datatype scenario_status = Draft | Finalized

record scenario_input =
  target_month :: string
  cohort_month :: string
  total_target :: rat
  min_floor :: rat
  previous_month_floor_pct :: rat
  calculation_method :: string
  source_months :: string
  sc_warnings :: string
  calculation_params :: string
  rule_set_id :: "string option"
  rule_set_hash :: "string option"
  rule_set_snapshot :: "string option"
  calculation_input_sha256 :: "string option"
  profitability_input_sha256 :: "string option"

record scenario = scenario_input +
  sc_id :: nat
  sc_status :: scenario_status
  sc_revision :: int
  sc_created_at :: instant
  sc_updated_at :: instant
  finalized_at :: "instant option"

record row_input =
  site_code :: string
  locatie :: string
  firma :: string
  regional :: string
  asm :: string
  calculated_weight :: rat
  floor_target :: rat
  cap_target :: "rat option"
  proposed_target :: rat
  is_floor_limited :: bool
  is_cap_limited :: bool
  history :: string
  calculation_details :: string
  profitability_snapshot :: "string option"

record scenario_row = row_input +
  scenario_id :: nat
  final_target :: "rat option"
  row_note :: "string option"
  manager_override_target :: "rat option"
  manager_override_reason :: "string option"
  manager_override_actor :: "string option"
  manager_override_at :: "instant option"
  manager_override_revision :: "int option"
  row_updated_at :: instant

record final_edit =
  fe_site_code :: string
  fe_final_target :: "rat option"
  fe_override_reason :: "string option"
  fe_note :: "string option"

record store_target =
  import_month :: string
  st_site_code :: string
  target_value :: rat
  source_file :: "string option"
  st_created_at :: instant

record target_db =
  td_stores :: "string list"
  td_scenarios :: "scenario list"
  td_rows :: "scenario_row list"
  td_targets :: "store_target list"

section \<open>Columns\<close>

text \<open>
  A value stored in \<^verbatim>\<open>NUMERIC(p, s)\<close> is rounded to \<open>s\<close> places, halves away from zero, and refused
  when it then has more than \<open>p\<close> digits; an \<^verbatim>\<open>INTEGER\<close> has 32 bits.
\<close>

definition sql_numeric :: "nat \<Rightarrow> nat \<Rightarrow> rat \<Rightarrow> (scenario_error, rat) result" where
  "sql_numeric p s x = (let n = round_half_up (x * 10 ^ s) in
     if \<bar>n\<bar> < 10 ^ p then Inr (of_int n / 10 ^ s) else Inl NumericOverflow)"

definition sql_numeric_opt :: "nat \<Rightarrow> nat \<Rightarrow> rat option \<Rightarrow> (scenario_error, rat option) result" where
  "sql_numeric_opt p s v = (case v of None \<Rightarrow> Inr None
     | Some x \<Rightarrow> res_bind (sql_numeric p s x) (\<lambda>y. Inr (Some y)))"

definition sql_integer :: "int \<Rightarrow> (scenario_error, int) result" where
  "sql_integer n = (if - 2147483648 \<le> n \<and> n \<le> 2147483647 then Inr n else Inl NumericOverflow)"

definition hash_check :: "string option \<Rightarrow> bool" where
  "hash_check h = (case h of None \<Rightarrow> True | Some t \<Rightarrow> is_sha256 t)"

text \<open>The values a draft is stored with.\<close>

definition stored_input :: "scenario_input \<Rightarrow> (scenario_error, scenario_input) result" where
  "stored_input sc =
     res_bind (sql_numeric 14 2 (total_target sc)) (\<lambda>tt.
     res_bind (sql_numeric 12 2 (min_floor sc)) (\<lambda>mf.
     res_bind (sql_numeric 7 4 (previous_month_floor_pct sc)) (\<lambda>pct.
     if hash_check (rule_set_hash sc) \<and> hash_check (calculation_input_sha256 sc)
        \<and> hash_check (profitability_input_sha256 sc)
     then Inr (sc\<lparr>total_target := tt, min_floor := mf, previous_month_floor_pct := pct\<rparr>)
     else Inl ConstraintViolation)))"

section \<open>Drafts\<close>

definition scenario_of_month :: "string \<Rightarrow> target_db \<Rightarrow> scenario option" where
  "scenario_of_month m db = row_by target_month m (td_scenarios db)"

definition get_scenario :: "nat \<Rightarrow> target_db \<Rightarrow> scenario option" where
  "get_scenario i db = row_by sc_id i (td_scenarios db)"

definition rows_of :: "nat \<Rightarrow> target_db \<Rightarrow> scenario_row list" where
  "rows_of i db = filter (\<lambda>r. scenario_id r = i) (td_rows db)"

text \<open>\<^verbatim>\<open>UPDATE target_scenarios SET ... WHERE id = i\<close>\<close>

definition update_scenario :: "nat \<Rightarrow> (scenario \<Rightarrow> scenario) \<Rightarrow> target_db \<Rightarrow> target_db" where
  "update_scenario i f db = db\<lparr>td_scenarios := upd_where (\<lambda>s. sc_id s = i) f (td_scenarios db)\<rparr>"

definition redraft :: "scenario_input \<Rightarrow> int \<Rightarrow> instant \<Rightarrow> scenario \<Rightarrow> scenario" where
  "redraft sc rv now s = s\<lparr>cohort_month := cohort_month sc, total_target := total_target sc,
     min_floor := min_floor sc, previous_month_floor_pct := previous_month_floor_pct sc,
     calculation_method := calculation_method sc, source_months := source_months sc,
     sc_warnings := sc_warnings sc, calculation_params := calculation_params sc,
     rule_set_id := rule_set_id sc, rule_set_hash := rule_set_hash sc,
     rule_set_snapshot := rule_set_snapshot sc,
     calculation_input_sha256 := calculation_input_sha256 sc,
     profitability_input_sha256 := profitability_input_sha256 sc,
     sc_revision := rv, sc_updated_at := now\<rparr>"

definition update_existing_draft ::
  "scenario \<Rightarrow> scenario_input \<Rightarrow> int option \<Rightarrow> instant \<Rightarrow> target_db \<Rightarrow> (scenario_error, target_db \<times> nat) result" where
  "update_existing_draft existing sc expected now db =
     (if sc_status existing \<noteq> Draft then Inl TargetScenarioFinalizedError
      else if calculation_method existing \<noteq> calculation_method sc then Inl TargetScenarioAlgorithmMismatch
      else if expected \<noteq> Some (sc_revision existing) then Inl TargetScenarioVersionConflict
      else res_bind (stored_input sc) (\<lambda>sc'. res_bind (sql_integer (sc_revision existing + 1)) (\<lambda>rv.
        Inr (update_scenario (sc_id existing) (redraft sc' rv now) db, sc_id existing))))"

text \<open>The identifier comes from the table's sequence.\<close>

definition insert_draft ::
  "nat \<Rightarrow> scenario_input \<Rightarrow> int option \<Rightarrow> instant \<Rightarrow> target_db \<Rightarrow> (scenario_error, target_db \<times> nat) result" where
  "insert_draft fresh sc expected now db =
     (if expected \<noteq> None then Inl TargetScenarioVersionConflict
      else res_bind (stored_input sc) (\<lambda>sc'.
        if get_scenario fresh db \<noteq> None \<or> scenario_of_month (target_month sc) db \<noteq> None
        then Inl ConstraintViolation
        else Inr (db\<lparr>td_scenarios := td_scenarios db @
          [scenario_input.extend sc' (scenario.fields fresh Draft 1 now now None)]\<rparr>, fresh)))"

definition new_row :: "nat \<Rightarrow> instant \<Rightarrow> row_input \<Rightarrow> (scenario_error, scenario_row) result" where
  "new_row i now r =
     res_bind (sql_numeric 16 10 (calculated_weight r)) (\<lambda>w.
     res_bind (sql_numeric 12 2 (floor_target r)) (\<lambda>fl.
     res_bind (sql_numeric_opt 12 2 (cap_target r)) (\<lambda>cap.
     res_bind (sql_numeric 12 2 (proposed_target r)) (\<lambda>prop.
       Inr (row_input.extend
         (r\<lparr>calculated_weight := w, floor_target := fl, cap_target := cap, proposed_target := prop\<rparr>)
         (scenario_row.fields i None None None None None None None now))))))"

definition row_key :: "scenario_row \<Rightarrow> nat \<times> string" where
  "row_key r = (scenario_id r, site_code r)"

fun insert_rows :: "string list \<Rightarrow> nat \<Rightarrow> instant \<Rightarrow> row_input list \<Rightarrow> scenario_row list
    \<Rightarrow> (scenario_error, scenario_row list) result" where
  "insert_rows stores i now [] t = Inr t"
| "insert_rows stores i now (r # rs) t = res_bind (new_row i now r) (\<lambda>row.
     if site_code row \<notin> set stores \<or> row_key row \<in> row_key ` set t then Inl ConstraintViolation
     else insert_rows stores i now rs (t @ [row]))"

definition replace_scenario_rows ::
  "nat \<Rightarrow> row_input list \<Rightarrow> instant \<Rightarrow> target_db \<Rightarrow> (scenario_error, target_db) result" where
  "replace_scenario_rows i rows now db =
     res_bind (insert_rows (td_stores db) i now rows (filter (\<lambda>r. scenario_id r \<noteq> i) (td_rows db)))
       (\<lambda>t. Inr (db\<lparr>td_rows := t\<rparr>))"

definition save_draft_scenario ::
  "nat \<Rightarrow> scenario_input \<Rightarrow> row_input list \<Rightarrow> int option \<Rightarrow> instant \<Rightarrow> target_db
    \<Rightarrow> (scenario_error, target_db \<times> nat) result" where
  "save_draft_scenario fresh sc rows expected now db =
     res_bind (case scenario_of_month (target_month sc) db of
         Some existing \<Rightarrow> update_existing_draft existing sc expected now db
       | None \<Rightarrow> insert_draft fresh sc expected now db)
       (\<lambda>(db', i). res_bind (replace_scenario_rows i rows now db') (\<lambda>db''. Inr (db'', i)))"

section \<open>Final values\<close>

definition py_or :: "string option \<Rightarrow> string option \<Rightarrow> string option" where
  "py_or a b = (if a = None \<or> a = Some [] then b else a)"

definition edit_row ::
  "rat option \<Rightarrow> rat option \<Rightarrow> string option \<Rightarrow> string option \<Rightarrow> int \<Rightarrow> instant \<Rightarrow> scenario_row \<Rightarrow> scenario_row" where
  "edit_row value stored reason actor rv now r =
     (let differs = (value \<noteq> Some (proposed_target r)) in
      r\<lparr>final_target := stored, row_note := reason,
        manager_override_target := (if differs then stored else None),
        manager_override_reason := (if differs then reason else None),
        manager_override_actor := (if differs then actor else None),
        manager_override_at := (if differs then Some now else None),
        manager_override_revision := Some rv, row_updated_at := now\<rparr>)"

fun edit_rows :: "nat \<Rightarrow> string option \<Rightarrow> int \<Rightarrow> instant \<Rightarrow> final_edit list \<Rightarrow> scenario_row list
    \<Rightarrow> (scenario_error, scenario_row list) result" where
  "edit_rows i actor rv now [] t = Inr t"
| "edit_rows i actor rv now (e # es) t =
     res_bind (sql_numeric_opt 12 2 (fe_final_target e)) (\<lambda>stored.
       edit_rows i actor rv now es
         (upd_where (\<lambda>r. row_key r = (i, fe_site_code e))
           (edit_row (fe_final_target e) stored (py_or (fe_override_reason e) (fe_note e)) actor rv now) t))"

definition bump_revision :: "int \<Rightarrow> instant \<Rightarrow> scenario \<Rightarrow> scenario" where
  "bump_revision rv now s = s\<lparr>sc_revision := rv, sc_updated_at := now\<rparr>"

definition update_final_targets ::
  "nat \<Rightarrow> final_edit list \<Rightarrow> int \<Rightarrow> string option \<Rightarrow> instant \<Rightarrow> target_db
    \<Rightarrow> (scenario_error, target_db \<times> nat) result" where
  "update_final_targets i edits expected actor now db =
     (if edits = [] then Inr (db, 0) else
      case get_scenario i db of None \<Rightarrow> Inr (db, 0) | Some s \<Rightarrow>
        if sc_status s \<noteq> Draft then Inr (db, 0)
        else if sc_revision s \<noteq> expected then Inl TargetScenarioVersionConflict
        else let existing = length (filter (\<lambda>r. site_code r \<in> set (map fe_site_code edits)) (rows_of i db)) in
          if existing \<noteq> length edits then Inr (db, existing)
          else res_bind (sql_integer (expected + 1)) (\<lambda>rv.
               res_bind (edit_rows i actor rv now edits (td_rows db)) (\<lambda>t.
                 Inr (update_scenario i (bump_revision rv now) (db\<lparr>td_rows := t\<rparr>), existing))))"

section \<open>Finalization and official targets\<close>

text \<open>\<^verbatim>\<open>Decimal(v).quantize(Decimal("0.01"))\<close>\<close>

definition cents_of :: "rat \<Rightarrow> (scenario_error, rat) result" where
  "cents_of x = (case dec_quantize round_half_even 2 x of Inl _ \<Rightarrow> Inl QuantizeError | Inr y \<Rightarrow> Inr y)"

definition final_total :: "scenario_row list \<Rightarrow> rat" where
  "final_total rows = sum_list (map (\<lambda>r. case final_target r of None \<Rightarrow> 0 | Some v \<Rightarrow> v) rows)"

definition pending_count :: "scenario_row list \<Rightarrow> nat" where
  "pending_count rows = length (filter (\<lambda>r. final_target r = None) rows)"

definition target_key :: "store_target \<Rightarrow> string \<times> string" where
  "target_key t = (import_month t, st_site_code t)"

text \<open>\<^verbatim>\<open>INSERT ... ON CONFLICT (import_month, site_code) DO UPDATE\<close>\<close>

definition upsert_target :: "store_target \<Rightarrow> store_target list \<Rightarrow> store_target list" where
  "upsert_target t ts = (if target_key t \<in> target_key ` set ts
     then upd_where (\<lambda>u. target_key u = target_key t)
       (\<lambda>u. u\<lparr>target_value := target_value t, source_file := source_file t, st_created_at := st_created_at t\<rparr>) ts
     else ts @ [t])"

definition published :: "string \<Rightarrow> nat \<Rightarrow> instant \<Rightarrow> scenario_row \<Rightarrow> store_target" where
  "published month i now r = \<lparr>import_month = month, st_site_code = site_code r,
     target_value = (case final_target r of None \<Rightarrow> 0 | Some v \<Rightarrow> v),
     source_file = Some (''target-calculator:'' @ nat_digits i), st_created_at = now\<rparr>"

definition publish_targets :: "string \<Rightarrow> nat \<Rightarrow> instant \<Rightarrow> scenario_row list \<Rightarrow> store_target list \<Rightarrow> store_target list" where
  "publish_targets month i now rows ts =
     fold (\<lambda>r. upsert_target (published month i now r)) rows
       (filter (\<lambda>t. \<not> (import_month t = month \<and> st_site_code t \<notin> site_code ` set rows)) ts)"

definition finalize_row :: "int \<Rightarrow> instant \<Rightarrow> scenario \<Rightarrow> scenario" where
  "finalize_row rv now s = s\<lparr>sc_status := Finalized, sc_revision := rv,
     finalized_at := Some now, sc_updated_at := now\<rparr>"

definition finalize_scenario ::
  "nat \<Rightarrow> int \<Rightarrow> instant \<Rightarrow> target_db \<Rightarrow> (scenario_error, target_db \<times> bool) result" where
  "finalize_scenario i expected now db =
     (case get_scenario i db of None \<Rightarrow> Inr (db, False) | Some s \<Rightarrow>
        if sc_status s \<noteq> Draft then Inr (db, False)
        else if sc_revision s \<noteq> expected then Inl TargetScenarioVersionConflict
        else if pending_count (rows_of i db) > 0 then Inr (db, False)
        else res_bind (cents_of (final_total (rows_of i db))) (\<lambda>ft.
             res_bind (cents_of (total_target s)) (\<lambda>tt.
             if ft \<noteq> tt then Inr (db, False)
             else res_bind (sql_integer (sc_revision s + 1)) (\<lambda>rv.
               Inr (update_scenario i (finalize_row rv now)
                 (db\<lparr>td_targets := publish_targets (target_month s) i now (rows_of i db) (td_targets db)\<rparr>), True)))))"

text \<open>The import of official targets from a workbook.\<close>

fun upsert_all :: "string list \<Rightarrow> string \<Rightarrow> instant \<Rightarrow> (string \<times> string \<times> rat) list \<Rightarrow> store_target list
    \<Rightarrow> (scenario_error, store_target list) result" where
  "upsert_all stores src now [] ts = Inr ts"
| "upsert_all stores src now ((site, month, v) # xs) ts =
     res_bind (sql_numeric 12 2 v) (\<lambda>v'.
       if site \<notin> set stores then Inl ConstraintViolation
       else upsert_all stores src now xs (upsert_target \<lparr>import_month = month, st_site_code = site,
         target_value = v', source_file = Some src, st_created_at = now\<rparr> ts))"

definition upsert_store_targets ::
  "(string \<times> string \<times> rat) list \<Rightarrow> string \<Rightarrow> instant \<Rightarrow> target_db \<Rightarrow> (scenario_error, target_db \<times> nat) result" where
  "upsert_store_targets targets src now db =
     (if targets = [] then Inr (db, 0)
      else res_bind (upsert_all (td_stores db) src now targets (td_targets db)) (\<lambda>ts.
        Inr (db\<lparr>td_targets := ts\<rparr>, length targets)))"

section \<open>Queries\<close>

text \<open>
  \<open>rank\<close> orders texts by the database's collation; rows created at the same instant come in
  table order.
\<close>

definition get_scenario_rows :: "(string \<times> string \<times> string \<Rightarrow> nat) \<Rightarrow> nat \<Rightarrow> target_db \<Rightarrow> scenario_row list" where
  "get_scenario_rows rank i db = sort_key (\<lambda>r. rank (regional r, locatie r, site_code r)) (rows_of i db)"

record scenario_listing =
  sl_scenario :: scenario
  sl_store_count :: nat
  sl_proposed_total :: rat
  sl_final_total :: rat
  sl_pending_final_count :: nat

definition scenario_listing_of :: "target_db \<Rightarrow> scenario \<Rightarrow> scenario_listing" where
  "scenario_listing_of db s = (let rows = rows_of (sc_id s) db in
     \<lparr>sl_scenario = s, sl_store_count = length rows,
      sl_proposed_total = sum_list (map proposed_target rows),
      sl_final_total = final_total rows, sl_pending_final_count = pending_count rows\<rparr>)"

definition list_scenarios :: "nat \<Rightarrow> target_db \<Rightarrow> scenario_listing list" where
  "list_scenarios limit db =
     take limit (map (scenario_listing_of db) (sort_key (\<lambda>s. - sc_created_at s) (td_scenarios db)))"

end
