(* ===== verification/Scenario_Lifecycle.thy ===== *)
theory Scenario_Lifecycle
  imports Target_Scenario
begin

text \<open>
  The lifecycle of target scenarios over every sequence of transactions: one scenario per month,
  revisions that only grow, finalized scenarios that never change, and official targets that equal
  the finalized values.
\<close>

section \<open>Money columns\<close>

definition is_cents :: "rat \<Rightarrow> bool" where
  "is_cents x \<longleftrightarrow> of_int \<lfloor>x * 100\<rfloor> = x * 100"

lemma is_cents_iff: "is_cents x \<longleftrightarrow> (\<exists>n. x = of_int n / 100)"
  unfolding is_cents_def by (metis floor_of_int nonzero_mult_div_cancel_right times_divide_eq_left
      zero_neq_numeral)

lemma is_cents_0 [simp]: "is_cents 0"
  by (simp add: is_cents_def)

lemma is_cents_add: "is_cents x \<Longrightarrow> is_cents y \<Longrightarrow> is_cents (x + y)"
  unfolding is_cents_iff by (metis add_divide_distrib of_int_add)

lemma is_cents_sum_list: "(\<And>x. x \<in> set xs \<Longrightarrow> is_cents x) \<Longrightarrow> is_cents (sum_list xs)"
  by (induction xs) (auto intro: is_cents_add)

lemma sql_numeric_cents: "sql_numeric p 2 x = Inr y \<Longrightarrow> is_cents y"
  by (auto simp: sql_numeric_def Let_def is_cents_iff split: if_splits simp del: eq_divide_eq_numeral1 divide_eq_eq_numeral1)

text \<open>What a \<^verbatim>\<open>NUMERIC(p, 2)\<close> column can hold.\<close>

definition fits :: "nat \<Rightarrow> rat \<Rightarrow> bool" where
  "fits p x \<longleftrightarrow> is_cents x \<and> \<bar>x * 100\<bar> < 10 ^ p"

lemma sql_numeric_fits: "sql_numeric p 2 x = Inr y \<Longrightarrow> fits p y"
proof -
  assume y: "sql_numeric p 2 x = Inr y"
  then have "\<bar>round_half_up (x * 100)\<bar> < 10 ^ p" and v: "y * 100 = of_int (round_half_up (x * 100))"
    by (auto simp: sql_numeric_def Let_def split: if_splits)
  then have "of_int \<bar>round_half_up (x * 100)\<bar> < (of_int (10 ^ p) :: rat)" by (simp only: of_int_less_iff)
  then show ?thesis using sql_numeric_cents [OF y] v by (simp add: fits_def)
qed

lemma sql_numeric_opt_fits: "sql_numeric_opt p 2 v = Inr (Some y) \<Longrightarrow> fits p y"
  by (auto simp: sql_numeric_opt_def res_simps split: option.splits dest: sql_numeric_fits)

lemma sql_integer_Inr [simp]: "sql_integer n = Inr m \<longleftrightarrow> m = n \<and> - 2147483648 \<le> n \<and> n \<le> 2147483647"
  by (auto simp: sql_integer_def)

text \<open>Quantizing to cents is the identity on amounts in cents that have at most 28 digits.\<close>

lemma cents_of_Inr: "is_cents x \<Longrightarrow> cents_of x = Inr y \<Longrightarrow> y = x"
  unfolding is_cents_iff
  by (auto simp: cents_of_def dec_quantize_def Let_def split: sum.splits if_splits)

lemma cents_of_ok: "is_cents x \<Longrightarrow> \<bar>x\<bar> < 10 ^ 26 \<Longrightarrow> cents_of x = Inr x"
proof -
  assume "is_cents x" and small: "\<bar>x\<bar> < 10 ^ 26"
  then obtain n where n: "x = of_int n / 100" by (auto simp: is_cents_iff)
  have "of_int \<bar>n\<bar> < (of_int (10 ^ 28) :: rat)" using small n by simp
  then have "\<bar>n\<bar> < 10 ^ 28" by (simp only: of_int_less_iff)
  then show ?thesis using n
    by (simp add: cents_of_def dec_quantize_def Let_def DEFAULT_PREC_def)
qed

section \<open>The machine\<close>

definition scenario_empty :: "target_db \<Rightarrow> bool" where
  "scenario_empty db \<longleftrightarrow> td_scenarios db = [] \<and> td_rows db = [] \<and> td_targets db = []"

inductive scenario_step :: "target_db \<Rightarrow> target_db \<Rightarrow> bool" where
  ss_save: "save_draft_scenario fresh sc rows expected now db = Inr (db', i) \<Longrightarrow> scenario_step db db'"
| ss_update: "update_final_targets i edits expected actor now db = Inr (db', n) \<Longrightarrow> scenario_step db db'"
| ss_finalize: "finalize_scenario i expected now db = Inr (db', b) \<Longrightarrow> scenario_step db db'"
| ss_import: "upsert_store_targets targets src now db = Inr (db', n) \<Longrightarrow> scenario_step db db'"

inductive_cases scenario_stepE: "scenario_step db db'"

text \<open>A write under an expected revision that its caller is told has succeeded.\<close>

inductive scenario_write :: "target_db \<Rightarrow> nat \<Rightarrow> int \<Rightarrow> target_db \<Rightarrow> bool" where
  sw_save: "save_draft_scenario fresh sc rows (Some e) now db = Inr (db', i) \<Longrightarrow> scenario_write db i e db'"
| sw_update: "update_final_targets i edits e actor now db = Inr (db', length edits) \<Longrightarrow> edits \<noteq> []
    \<Longrightarrow> scenario_write db i e db'"
| sw_finalize: "finalize_scenario i e now db = Inr (db', True) \<Longrightarrow> scenario_write db i e db'"

definition balanced :: "scenario \<Rightarrow> scenario_row list \<Rightarrow> bool" where
  "balanced s rows \<longleftrightarrow> (\<forall>r \<in> set rows. final_target r \<noteq> None) \<and> final_total rows = total_target s"

definition scenario_ok :: "target_db \<Rightarrow> scenario \<Rightarrow> bool" where
  "scenario_ok db s \<longleftrightarrow> 1 \<le> sc_revision s \<and> fits 14 (total_target s)
     \<and> (sc_status s = Finalized \<longleftrightarrow> finalized_at s \<noteq> None)
     \<and> (sc_status s = Finalized \<longrightarrow> balanced s (rows_of (sc_id s) db))"

definition row_ok :: "target_db \<Rightarrow> scenario_row \<Rightarrow> bool" where
  "row_ok db r \<longleftrightarrow> scenario_id r \<in> sc_id ` set (td_scenarios db) \<and> site_code r \<in> set (td_stores db)
     \<and> (\<forall>v. final_target r = Some v \<longrightarrow> fits 12 v)
     \<and> (manager_override_target r \<noteq> None \<longrightarrow> manager_override_target r = final_target r)"

definition scenario_inv :: "target_db \<Rightarrow> bool" where
  "scenario_inv db \<longleftrightarrow> distinct (map sc_id (td_scenarios db)) \<and> distinct (map target_month (td_scenarios db))
     \<and> distinct (map row_key (td_rows db)) \<and> distinct (map target_key (td_targets db))
     \<and> (\<forall>s \<in> set (td_scenarios db). scenario_ok db s) \<and> (\<forall>r \<in> set (td_rows db). row_ok db r)"

lemma scenario_invD:
  assumes "scenario_inv db"
  shows "distinct (map sc_id (td_scenarios db))" and "distinct (map target_month (td_scenarios db))"
    and "distinct (map row_key (td_rows db))" and "distinct (map target_key (td_targets db))"
    and "s \<in> set (td_scenarios db) \<Longrightarrow> scenario_ok db s" and "r \<in> set (td_rows db) \<Longrightarrow> row_ok db r"
  using assms by (auto simp: scenario_inv_def)

lemma scenario_inv_empty: "scenario_empty db \<Longrightarrow> scenario_inv db"
  by (simp add: scenario_empty_def scenario_inv_def)

section \<open>What each operation does\<close>

lemma get_scenarioD: "get_scenario i db = Some s \<Longrightarrow> s \<in> set (td_scenarios db) \<and> sc_id s = i"
  unfolding get_scenario_def by (rule row_by_SomeD)

lemma scenario_of_monthD: "scenario_of_month m db = Some s \<Longrightarrow> s \<in> set (td_scenarios db) \<and> target_month s = m"
  unfolding scenario_of_month_def by (rule row_by_SomeD)

lemma get_scenario_mem:
  "scenario_inv db \<Longrightarrow> s \<in> set (td_scenarios db) \<Longrightarrow> get_scenario (sc_id s) db = Some s"
  unfolding get_scenario_def by (rule row_by_unique) (auto dest: scenario_invD)

lemma update_scenario_simps [simp]:
  "td_scenarios (update_scenario i f db) = upd_where (\<lambda>s. sc_id s = i) f (td_scenarios db)"
  "td_rows (update_scenario i f db) = td_rows db" "td_stores (update_scenario i f db) = td_stores db"
  "td_targets (update_scenario i f db) = td_targets db"
  "rows_of j (update_scenario i f db) = rows_of j db"
  by (simp_all add: update_scenario_def rows_of_def)

lemma row_identities [simp]:
  "sc_id (redraft sc rv now s) = sc_id s" "target_month (redraft sc rv now s) = target_month s"
  "sc_revision (redraft sc rv now s) = rv" "sc_status (redraft sc rv now s) = sc_status s"
  "finalized_at (redraft sc rv now s) = finalized_at s" "total_target (redraft sc rv now s) = total_target sc"
  "sc_id (bump_revision rv now s) = sc_id s" "target_month (bump_revision rv now s) = target_month s"
  "sc_revision (bump_revision rv now s) = rv" "sc_status (bump_revision rv now s) = sc_status s"
  "finalized_at (bump_revision rv now s) = finalized_at s" "total_target (bump_revision rv now s) = total_target s"
  "sc_id (finalize_row rv now s) = sc_id s" "target_month (finalize_row rv now s) = target_month s"
  "sc_revision (finalize_row rv now s) = rv" "sc_status (finalize_row rv now s) = Finalized"
  "finalized_at (finalize_row rv now s) = Some now" "total_target (finalize_row rv now s) = total_target s"
  by (simp_all add: redraft_def bump_revision_def finalize_row_def)

text \<open>A new row of a draft.\<close>

definition fresh_row :: "string list \<Rightarrow> nat \<Rightarrow> scenario_row \<Rightarrow> bool" where
  "fresh_row stores i r \<longleftrightarrow> scenario_id r = i \<and> site_code r \<in> set stores
     \<and> final_target r = None \<and> manager_override_target r = None"

lemma new_row_fields:
  "new_row i now r = Inr row \<Longrightarrow> scenario_id row = i \<and> site_code row = site_code r
     \<and> final_target row = None \<and> manager_override_target row = None"
  by (auto simp: new_row_def res_simps row_input.defs scenario_row.defs)

lemma insert_rows_appends:
  assumes "insert_rows stores i now rs t = Inr t'" and "distinct (map row_key t)"
  shows "\<exists>new. t' = t @ new \<and> distinct (map row_key t') \<and> (\<forall>r \<in> set new. fresh_row stores i r)
    \<and> map site_code new = map site_code rs"
  using assms
proof (induction rs arbitrary: t)
  case (Cons r rs)
  from Cons.prems(1) obtain row where row: "new_row i now r = Inr row"
    and ok: "site_code row \<in> set stores" "row_key row \<notin> row_key ` set t"
    and rest: "insert_rows stores i now rs (t @ [row]) = Inr t'"
    by (auto simp: res_simps split: if_splits)
  have "distinct (map row_key (t @ [row]))" using Cons.prems(2) ok(2) by auto
  from Cons.IH [OF rest this] obtain new where
    "t' = t @ [row] @ new" "distinct (map row_key t')" "\<forall>r \<in> set new. fresh_row stores i r"
    "map site_code new = map site_code rs" by auto
  then show ?case
    using ok(1) new_row_fields [OF row] by (intro exI [of _ "row # new"]) (auto simp: fresh_row_def)
qed simp

text \<open>
  The row edits of one save run one after the other; on distinct stores they are one simultaneous
  edit, \<open>edited\<close>.
\<close>

definition stored_value :: "rat option \<Rightarrow> rat option" where
  "stored_value v = (case sql_numeric_opt 12 2 v of Inl _ \<Rightarrow> None | Inr y \<Rightarrow> y)"

definition edit_by :: "string option \<Rightarrow> int \<Rightarrow> instant \<Rightarrow> final_edit \<Rightarrow> scenario_row \<Rightarrow> scenario_row" where
  "edit_by actor rv now e = edit_row (fe_final_target e) (stored_value (fe_final_target e))
     (py_or (fe_override_reason e) (fe_note e)) actor rv now"

definition edited :: "nat \<Rightarrow> string option \<Rightarrow> int \<Rightarrow> instant \<Rightarrow> final_edit list \<Rightarrow> scenario_row \<Rightarrow> scenario_row" where
  "edited i actor rv now edits r = (if scenario_id r \<noteq> i then r else
     case row_by fe_site_code (site_code r) edits of None \<Rightarrow> r | Some e \<Rightarrow> edit_by actor rv now e r)"

lemma edit_row_fields [simp]:
  "row_key (edit_row v st rs ac rv now r) = row_key r" "scenario_id (edit_row v st rs ac rv now r) = scenario_id r"
  "site_code (edit_row v st rs ac rv now r) = site_code r" "final_target (edit_row v st rs ac rv now r) = st"
  "proposed_target (edit_row v st rs ac rv now r) = proposed_target r"
  by (simp_all add: edit_row_def row_key_def Let_def)

lemma edited_key [simp]:
  "row_key (edited i actor rv now edits r) = row_key r"
  "scenario_id (edited i actor rv now edits r) = scenario_id r"
  "site_code (edited i actor rv now edits r) = site_code r"
  by (auto simp: edited_def edit_by_def split: option.splits)

lemma edited_other: "scenario_id r \<noteq> i \<Longrightarrow> edited i actor rv now edits r = r"
  by (simp add: edited_def)

lemma edit_rows_simultaneous:
  assumes "distinct (map fe_site_code edits)"
  shows "edit_rows i actor rv now edits t =
    (if \<forall>e \<in> set edits. is_ok (sql_numeric_opt 12 2 (fe_final_target e))
     then Inr (map (edited i actor rv now edits) t) else Inl NumericOverflow)"
  using assms
proof (induction edits arbitrary: t)
  case Nil
  then show ?case by (simp add: edited_def map_idI)
next
  case (Cons e es)
  show ?case
  proof (cases "sql_numeric_opt 12 2 (fe_final_target e)")
    case (Inl x)
    then have "x = NumericOverflow"
      by (auto simp: sql_numeric_opt_def sql_numeric_def Let_def res_simps split: option.splits if_splits)
    with Inl show ?thesis by simp
  next
    case (Inr stored)
    let ?one = "edit_row (fe_final_target e) stored (py_or (fe_override_reason e) (fe_note e)) actor rv now"
    have one: "?one = edit_by actor rv now e"
      by (rule ext) (simp add: edit_by_def stored_value_def Inr)
    have absent: "row_by fe_site_code (fe_site_code e) es = None"
      using Cons.prems unfolding row_by_None_iff by (metis distinct.simps(2) image_eqI list.map(2) set_map)
    have "map (edited i actor rv now es) (upd_where (\<lambda>r. row_key r = (i, fe_site_code e)) ?one t)
        = map (edited i actor rv now (e # es)) t"
      unfolding upd_where_def one using absent
      by (auto simp: edited_def row_key_def edit_by_def split: option.splits)
    then show ?thesis using Cons.IH Cons.prems Inr by simp
  qed
qed

lemma rows_of_sites:
  assumes "distinct (map row_key (td_rows db))"
  shows "distinct (map site_code (rows_of i db))"
  using assms by (auto simp: distinct_map rows_of_def inj_on_def row_key_def)

text \<open>The count that the code compares is the number of edits only when the edited stores are distinct.\<close>

lemma edits_belong:
  assumes "distinct (map site_code rows)"
    and "length (filter (\<lambda>r. site_code r \<in> set (map fe_site_code edits)) rows) = length edits"
  shows "distinct (map fe_site_code edits)" and "fe_site_code ` set edits \<subseteq> site_code ` set rows"
proof -
  let ?S = "set (map fe_site_code edits)" and ?hits = "map site_code (filter (\<lambda>r. site_code r \<in> set (map fe_site_code edits)) rows)"
  have "distinct ?hits" using assms(1) by (simp add: distinct_map_filter)
  then have card: "card (set ?hits) = length edits" using assms(2) by (metis distinct_card length_map)
  have sub: "set ?hits \<subseteq> ?S" by auto
  then have "card (set ?hits) \<le> card ?S" by (intro card_mono) auto
  moreover have "card ?S \<le> length edits" by (metis card_length length_map)
  ultimately have eq: "card ?S = length (map fe_site_code edits)" using card by simp
  then show "distinct (map fe_site_code edits)" by (rule card_distinct)
  have "set ?hits = ?S" using sub card eq by (intro card_subset_eq) auto
  then show "fe_site_code ` set edits \<subseteq> site_code ` set rows" by auto
qed

lemma update_final_targets_cases:
  assumes "scenario_inv db" and "update_final_targets i edits e actor now db = Inr (db', n)"
  obtains (ignored) "db' = db" and "n = length edits \<longrightarrow> edits = []"
  | (edited) s where "get_scenario i db = Some s" and "sc_status s = Draft" and "sc_revision s = e"
      and "edits \<noteq> []" and "n = length edits" and "distinct (map fe_site_code edits)"
      and "fe_site_code ` set edits \<subseteq> site_code ` set (rows_of i db)"
      and "db' = update_scenario i (bump_revision (e + 1) now)
        (db\<lparr>td_rows := map (edited i actor (e + 1) now edits) (td_rows db)\<rparr>)"
proof (cases "get_scenario i db")
  case None
  then show ?thesis using assms(2) by (intro ignored) (auto simp: update_final_targets_def split: if_splits)
next
  case (Some s)
  let ?n = "length (filter (\<lambda>r. site_code r \<in> set (map fe_site_code edits)) (rows_of i db))"
  show ?thesis
  proof (cases "edits \<noteq> [] \<and> sc_status s = Draft \<and> ?n = length edits")
    case False
    then show ?thesis using assms(2) Some
      by (intro ignored) (auto simp: update_final_targets_def Let_def split: if_splits)
  next
    case True
    note belong = edits_belong [OF rows_of_sites [OF scenario_invD(3) [OF assms(1)], of i]]
    have d: "distinct (map fe_site_code edits)" using True by (intro belong(1)) simp
    have sub: "fe_site_code ` set edits \<subseteq> site_code ` set (rows_of i db)"
      using True by (intro belong(2)) simp
    from assms(2) True Some have "sc_revision s = e" and "n = length edits"
      and "db' = update_scenario i (bump_revision (e + 1) now)
        (db\<lparr>td_rows := map (edited i actor (e + 1) now edits) (td_rows db)\<rparr>)"
      by (auto simp: update_final_targets_def Let_def res_simps edit_rows_simultaneous [OF d] split: if_splits)
    with True Some d sub show ?thesis by (intro edited) auto
  qed
qed

lemma stored_input_fields:
  assumes "stored_input sc = Inr sc'"
  shows "fits 14 (total_target sc')" and "target_month sc' = target_month sc"
    and "calculation_method sc' = calculation_method sc"
  using assms by (auto simp: stored_input_def res_simps split: if_splits dest: sql_numeric_fits)

definition new_scenario :: "scenario_input \<Rightarrow> nat \<Rightarrow> instant \<Rightarrow> scenario" where
  "new_scenario sc i now = scenario_input.extend sc (scenario.fields i Draft 1 now now None)"

lemma new_scenario_fields [simp]:
  "sc_id (new_scenario sc i now) = i" "sc_status (new_scenario sc i now) = Draft"
  "sc_revision (new_scenario sc i now) = 1" "finalized_at (new_scenario sc i now) = None"
  "target_month (new_scenario sc i now) = target_month sc" "total_target (new_scenario sc i now) = total_target sc"
  by (simp_all add: new_scenario_def scenario_input.defs scenario.defs)

lemma replace_scenario_rows_Inr:
  assumes "replace_scenario_rows i rows now db = Inr db'" and "distinct (map row_key (td_rows db))"
  obtains new where "db' = db\<lparr>td_rows := filter (\<lambda>r. scenario_id r \<noteq> i) (td_rows db) @ new\<rparr>"
    and "distinct (map row_key (filter (\<lambda>r. scenario_id r \<noteq> i) (td_rows db) @ new))"
    and "\<forall>r \<in> set new. fresh_row (td_stores db) i r" and "map site_code new = map site_code rows"
proof -
  let ?t = "filter (\<lambda>r. scenario_id r \<noteq> i) (td_rows db)"
  from assms(1) obtain t where t: "insert_rows (td_stores db) i now rows ?t = Inr t" "db' = db\<lparr>td_rows := t\<rparr>"
    by (auto simp: replace_scenario_rows_def res_simps)
  have "distinct (map row_key ?t)" using assms(2) by (rule distinct_map_filter)
  from insert_rows_appends [OF t(1) this] t(2) show ?thesis using that by blast
qed

lemma save_draft_cases:
  assumes "distinct (map row_key (td_rows db))"
    and "save_draft_scenario fresh sc rows expected now db = Inr (db', i)"
  obtains (redrafted) s sc' new where "scenario_of_month (target_month sc) db = Some s" and "sc_id s = i"
      and "sc_status s = Draft" and "expected = Some (sc_revision s)" and "stored_input sc = Inr sc'"
      and "calculation_method s = calculation_method sc"
      and "db' = update_scenario i (redraft sc' (sc_revision s + 1) now)
        (db\<lparr>td_rows := filter (\<lambda>r. scenario_id r \<noteq> i) (td_rows db) @ new\<rparr>)"
      and "distinct (map row_key (filter (\<lambda>r. scenario_id r \<noteq> i) (td_rows db) @ new))"
      and "\<forall>r \<in> set new. fresh_row (td_stores db) i r" and "map site_code new = map site_code rows"
  | (inserted) sc' new where "scenario_of_month (target_month sc) db = None" and "get_scenario i db = None"
      and "expected = None" and "i = fresh" and "stored_input sc = Inr sc'"
      and "db' = db\<lparr>td_scenarios := td_scenarios db @ [new_scenario sc' i now],
        td_rows := filter (\<lambda>r. scenario_id r \<noteq> i) (td_rows db) @ new\<rparr>"
      and "distinct (map row_key (filter (\<lambda>r. scenario_id r \<noteq> i) (td_rows db) @ new))"
      and "\<forall>r \<in> set new. fresh_row (td_stores db) i r" and "map site_code new = map site_code rows"
proof (cases "scenario_of_month (target_month sc) db")
  case (Some s)
  from assms(2) Some obtain sc' db1 where ok: "sc_status s = Draft" "calculation_method s = calculation_method sc"
    "expected = Some (sc_revision s)" "stored_input sc = Inr sc'" "sc_id s = i"
    and db1: "db1 = update_scenario i (redraft sc' (sc_revision s + 1) now) db"
    and rep: "replace_scenario_rows i rows now db1 = Inr db'"
    by (auto simp: save_draft_scenario_def update_existing_draft_def res_simps case_prod_beta split: if_splits)
  have "distinct (map row_key (td_rows db1))" using assms(1) db1 by simp
  with rep show ?thesis
    by (rule replace_scenario_rows_Inr)
      (rule redrafted [OF Some ok(5,1,3,4,2)]; simp add: db1 update_scenario_def)
next
  case None
  from assms(2) None obtain sc' where ok: "get_scenario i db = None" "expected = None" "i = fresh"
    "stored_input sc = Inr sc'"
    and rep: "replace_scenario_rows i rows now
      (db\<lparr>td_scenarios := td_scenarios db @ [new_scenario sc' i now]\<rparr>) = Inr db'"
    by (auto simp: save_draft_scenario_def insert_draft_def res_simps case_prod_beta new_scenario_def split: if_splits)
  have "distinct (map row_key (td_rows (db\<lparr>td_scenarios := td_scenarios db @ [new_scenario sc' i now]\<rparr>)))"
    using assms(1) by simp
  with rep show ?thesis
    by (rule replace_scenario_rows_Inr) (rule inserted [OF None ok]; simp)
qed

lemma finalize_cases:
  assumes "finalize_scenario i e now db = Inr (db', b)"
  obtains (refused) "db' = db" and "\<not> b"
  | (finalized) s ft where "get_scenario i db = Some s" and "sc_status s = Draft" and "sc_revision s = e" and b
      and "pending_count (rows_of i db) = 0" and "cents_of (final_total (rows_of i db)) = Inr ft"
      and "cents_of (total_target s) = Inr ft"
      and "db' = update_scenario i (finalize_row (e + 1) now)
        (db\<lparr>td_targets := publish_targets (target_month s) i now (rows_of i db) (td_targets db)\<rparr>)"
proof (cases "get_scenario i db")
  case None
  then show ?thesis using assms by (intro refused) (auto simp: finalize_scenario_def)
next
  case (Some s)
  show ?thesis
  proof (cases b)
    case False
    with assms Some have "db' = db" by (auto simp: finalize_scenario_def res_simps split: if_splits)
    with False show ?thesis by (intro refused)
  next
    case True
    with assms Some obtain ft where "sc_status s = Draft" "sc_revision s = e" "pending_count (rows_of i db) = 0"
      "cents_of (final_total (rows_of i db)) = Inr ft" "cents_of (total_target s) = Inr ft"
      "db' = update_scenario i (finalize_row (e + 1) now)
        (db\<lparr>td_targets := publish_targets (target_month s) i now (rows_of i db) (td_targets db)\<rparr>)"
      by (auto simp: finalize_scenario_def res_simps split: if_splits)
    with True Some show ?thesis by (intro finalized)
  qed
qed

section \<open>The invariant\<close>

lemma rows_of_replaced:
  assumes "\<forall>r \<in> set new. fresh_row stores i r" and "j \<noteq> i"
  shows "filter (\<lambda>r. scenario_id r = j) (filter (\<lambda>r. scenario_id r \<noteq> i) t @ new) = filter (\<lambda>r. scenario_id r = j) t"
proof -
  have "filter (\<lambda>r. scenario_id r = j) new = []"
    using assms by (auto simp: filter_empty_conv fresh_row_def)
  moreover have "filter (\<lambda>r. scenario_id r = j) (filter (\<lambda>r. scenario_id r \<noteq> i) t) = filter (\<lambda>r. scenario_id r = j) t"
    using assms(2) by (simp add: filter_filter) (metis (mono_tags, lifting))
  ultimately show ?thesis by simp
qed

lemma filter_edited:
  "filter (\<lambda>r. scenario_id r = j) (map (edited i actor rv now edits) t)
     = map (edited i actor rv now edits) (filter (\<lambda>r. scenario_id r = j) t)"
  by (induction t) auto

lemma rows_of_edited:
  "j \<noteq> i \<Longrightarrow> filter (\<lambda>r. scenario_id r = j) (map (edited i actor rv now edits) t) = filter (\<lambda>r. scenario_id r = j) t"
  unfolding filter_edited by (rule map_idI) (auto simp: edited_other)

lemma upsert_target_keys:
  "set (map target_key (upsert_target t ts)) = insert (target_key t) (set (map target_key ts))"
  "distinct (map target_key ts) \<Longrightarrow> distinct (map target_key (upsert_target t ts))"
proof -
  have keep: "map target_key (upd_where (\<lambda>u. target_key u = target_key t)
      (\<lambda>u. u\<lparr>target_value := a, source_file := b, st_created_at := c\<rparr>) ts) = map target_key ts" for a b c
    by (rule map_upd_where_key) (simp add: target_key_def)
  show "set (map target_key (upsert_target t ts)) = insert (target_key t) (set (map target_key ts))"
    unfolding upsert_target_def by (cases "target_key t \<in> target_key ` set ts") (simp_all only: if_True if_False keep, auto)
  show "distinct (map target_key (upsert_target t ts))" if "distinct (map target_key ts)"
    using that unfolding upsert_target_def
    by (cases "target_key t \<in> target_key ` set ts") (simp_all only: if_True if_False keep, auto)
qed

lemma distinct_fold_upsert:
  "distinct (map target_key ts) \<Longrightarrow> distinct (map target_key (fold (\<lambda>r. upsert_target (f r)) rs ts))"
  by (induction rs arbitrary: ts) (auto intro: upsert_target_keys)

lemma distinct_publish:
  "distinct (map target_key ts) \<Longrightarrow> distinct (map target_key (publish_targets m i now rows ts))"
  unfolding publish_targets_def by (intro distinct_fold_upsert distinct_map_filter)

lemma distinct_upsert_all:
  "upsert_all stores src now xs ts = Inr ts' \<Longrightarrow> distinct (map target_key ts) \<Longrightarrow> distinct (map target_key ts')"
  by (induction stores src now xs ts rule: upsert_all.induct)
    (auto simp: res_simps split: if_splits dest: upsert_target_keys(2))

lemma stored_value_fits: "stored_value v = Some x \<Longrightarrow> fits 12 x"
  unfolding stored_value_def by (auto split: sum.splits dest: sql_numeric_opt_fits)

lemma row_ok_edited:
  assumes "row_ok db r" and "td_stores db' = td_stores db"
    and "sc_id ` set (td_scenarios db') = sc_id ` set (td_scenarios db)"
  shows "row_ok db' (edited i actor rv now edits r)"
  using assms unfolding row_ok_def edited_def edit_by_def
  by (auto simp: edit_row_def Let_def stored_value_fits split: option.splits if_splits)

lemma pending_count_0: "pending_count rows = 0 \<longleftrightarrow> (\<forall>r \<in> set rows. final_target r \<noteq> None)"
  by (simp add: pending_count_def filter_empty_conv)

lemma final_total_cents: "\<forall>r \<in> set rows. row_ok db r \<Longrightarrow> is_cents (final_total rows)"
  unfolding final_total_def
  by (rule is_cents_sum_list) (auto simp: row_ok_def fits_def split: option.splits)

lemma rows_of_ok: "scenario_inv db \<Longrightarrow> \<forall>r \<in> set (rows_of i db). row_ok db r"
  by (auto simp: rows_of_def dest: scenario_invD)

lemma scenario_ok_other:
  "scenario_ok db s \<Longrightarrow> rows_of (sc_id s) db' = rows_of (sc_id s) db \<Longrightarrow> scenario_ok db' s"
  by (simp add: scenario_ok_def)

lemma scenario_inv_updI:
  assumes inv: "scenario_inv db" and s: "get_scenario i db = Some s"
    and keep: "\<And>s. sc_id (f s) = sc_id s" "\<And>s. target_month (f s) = target_month s"
    and scs: "td_scenarios db' = upd_where (\<lambda>s. sc_id s = i) f (td_scenarios db)"
    and rows: "distinct (map row_key (td_rows db'))" and targets: "distinct (map target_key (td_targets db'))"
    and others: "\<And>j. j \<noteq> i \<Longrightarrow> rows_of j db' = rows_of j db"
    and ok: "scenario_ok db' (f s)" "\<And>r. r \<in> set (td_rows db') \<Longrightarrow> row_ok db' r"
  shows "scenario_inv db'"
proof -
  have "scenario_ok db' u" if "u \<in> set (td_scenarios db')" for u
    using that unfolding scs
  proof (rule mem_upd_whereE)
    fix v assume "v \<in> set (td_scenarios db)" "sc_id v = i" "u = f v"
    moreover from this have "v = s" using get_scenario_mem [OF inv] s by force
    ultimately show ?thesis using ok(1) by simp
  next
    assume "u \<in> set (td_scenarios db)" "sc_id u \<noteq> i"
    then show ?thesis using others by (intro scenario_ok_other [OF scenario_invD(5) [OF inv]]) auto
  qed
  moreover have "map sc_id (td_scenarios db') = map sc_id (td_scenarios db)"
    "map target_month (td_scenarios db') = map target_month (td_scenarios db)"
    unfolding scs using keep by (auto intro: map_upd_where_key)
  ultimately show ?thesis
    using scenario_invD(1,2) [OF inv] rows targets ok(2) by (simp add: scenario_inv_def)
qed

lemma ids_upd_where:
  "(\<And>s. sc_id (f s) = sc_id s) \<Longrightarrow> sc_id ` set (upd_where P f t) = sc_id ` set t"
  by (metis (no_types) map_upd_where_key set_map)

lemma get_by_month:
  assumes "scenario_inv db" and "scenario_of_month m db = Some s"
  shows "get_scenario (sc_id s) db = Some s"
  using assms by (auto intro: get_scenario_mem dest: scenario_of_monthD)

lemma row_ok_cong:
  "row_ok db r \<Longrightarrow> td_stores db' = td_stores db \<Longrightarrow>
    sc_id ` set (td_scenarios db) \<subseteq> sc_id ` set (td_scenarios db') \<Longrightarrow> row_ok db' r"
  unfolding row_ok_def by (simp add: subset_iff)

lemma row_ok_fresh:
  "fresh_row (td_stores db') i r \<Longrightarrow> i \<in> sc_id ` set (td_scenarios db') \<Longrightarrow> row_ok db' r"
  by (auto simp: fresh_row_def row_ok_def)

lemma row_ok_replaced:
  assumes "scenario_inv db" and st: "td_stores db' = td_stores db"
    and "insert i (sc_id ` set (td_scenarios db)) \<subseteq> sc_id ` set (td_scenarios db')"
    and "\<forall>r \<in> set new. fresh_row (td_stores db) i r" and "r \<in> set (td_rows db) \<union> set new"
  shows "row_ok db' r"
  using assms row_ok_fresh [of db' i r] row_ok_cong [OF scenario_invD(6) [OF assms(1)] st] by auto

lemma inv_save_draft:
  assumes inv: "scenario_inv db" and "save_draft_scenario fresh sc rows expected now db = Inr (db', i)"
  shows "scenario_inv db'"
  using scenario_invD(3) [OF inv] assms(2)
proof (cases rule: save_draft_cases)
  case (redrafted s sc' new)
  have s: "get_scenario i db = Some s" using get_by_month [OF inv redrafted(1)] redrafted(2) by simp
  have ids: "sc_id ` set (td_scenarios db') = sc_id ` set (td_scenarios db)"
    by (simp add: redrafted(7) ids_upd_where)
  have ok: "scenario_ok db s" using get_scenarioD [OF s] scenario_invD(5) [OF inv] by simp
  show ?thesis
  proof (rule scenario_inv_updI [OF inv s])
    show "td_scenarios db' = upd_where (\<lambda>s. sc_id s = i) (redraft sc' (sc_revision s + 1) now) (td_scenarios db)"
      by (simp add: redrafted(7))
    show "scenario_ok db' (redraft sc' (sc_revision s + 1) now s)"
      using ok redrafted(3) stored_input_fields(1) [OF redrafted(5)] by (auto simp: scenario_ok_def)
    show "rows_of j db' = rows_of j db" if "j \<noteq> i" for j
      using rows_of_replaced [OF redrafted(9) that] by (simp add: redrafted(7) rows_of_def)
    show "row_ok db' r" if "r \<in> set (td_rows db')" for r
      by (rule row_ok_replaced [OF inv _ _ redrafted(9)])
        (use that get_scenarioD [OF s] ids in \<open>auto simp: redrafted(7)\<close>)
  qed (use redrafted(7,8) scenario_invD(4) [OF inv] in auto)
next
  case (inserted sc' new)
  have fresh: "i \<notin> sc_id ` set (td_scenarios db)" "target_month sc' \<notin> target_month ` set (td_scenarios db)"
    using inserted(1,2) stored_input_fields(2) [OF inserted(5)]
    by (auto simp: get_scenario_def scenario_of_month_def row_by_None_iff)
  have others: "rows_of j db' = rows_of j db" if "j \<noteq> i" for j
    using rows_of_replaced [OF inserted(8) that] by (simp add: inserted(6) rows_of_def)
  have "scenario_ok db' s" if "s \<in> set (td_scenarios db)" for s
    using that fresh(1) by (intro scenario_ok_other [OF scenario_invD(5) [OF inv that]] others) auto
  moreover have "scenario_ok db' (new_scenario sc' i now)"
    using stored_input_fields(1) [OF inserted(5)] by (simp add: scenario_ok_def)
  moreover have "row_ok db' r" if "r \<in> set (td_rows db')" for r
    by (rule row_ok_replaced [OF inv _ _ inserted(8)]) (use that in \<open>auto simp: inserted(6)\<close>)
  ultimately show ?thesis
    using scenario_invD(1,2,4) [OF inv] fresh inserted(6,7) by (auto simp: scenario_inv_def)
qed

lemma inv_update_final:
  assumes inv: "scenario_inv db" and "update_final_targets i edits e actor now db = Inr (db', n)"
  shows "scenario_inv db'"
  using assms
proof (cases rule: update_final_targets_cases)
  case (edited s)
  have ok: "scenario_ok db s" using get_scenarioD [OF edited(1)] scenario_invD(5) [OF inv] by simp
  have ids: "sc_id ` set (td_scenarios db') = sc_id ` set (td_scenarios db)"
    by (simp add: edited(8) ids_upd_where)
  show ?thesis
  proof (rule scenario_inv_updI [OF inv edited(1)])
    show "td_scenarios db' = upd_where (\<lambda>s. sc_id s = i) (bump_revision (e + 1) now) (td_scenarios db)"
      by (simp add: edited(8))
    show "scenario_ok db' (bump_revision (e + 1) now s)"
      using ok edited(2,3) by (auto simp: scenario_ok_def)
    show "rows_of j db' = rows_of j db" if "j \<noteq> i" for j
      using rows_of_edited [OF that] by (simp add: edited(8) rows_of_def)
    show "row_ok db' r" if "r \<in> set (td_rows db')" for r
      using that row_ok_edited [OF scenario_invD(6) [OF inv] _ ids] by (auto simp: edited(8))
    show "distinct (map row_key (td_rows db'))"
      using scenario_invD(3) [OF inv] by (simp add: edited(8) comp_def)
  qed (use edited(8) scenario_invD(4) [OF inv] in auto)
qed (use inv in simp)

lemma inv_finalize:
  assumes inv: "scenario_inv db" and "finalize_scenario i e now db = Inr (db', b)"
  shows "scenario_inv db'"
  using assms(2)
proof (cases rule: finalize_cases)
  case (finalized s ft)
  have ok: "scenario_ok db s" using get_scenarioD [OF finalized(1)] scenario_invD(5) [OF inv] by simp
  have "final_total (rows_of i db) = total_target s"
    using cents_of_Inr [OF final_total_cents [OF rows_of_ok [OF inv]] finalized(6)]
      cents_of_Inr [OF _ finalized(7)] ok by (simp add: scenario_ok_def fits_def)
  then have "balanced s (rows_of i db)" using finalized(5) by (simp add: balanced_def pending_count_0)
  moreover have rows: "rows_of j db' = rows_of j db" for j by (simp add: finalized(8) rows_of_def)
  ultimately have "scenario_ok db' (finalize_row (e + 1) now s)"
    using ok finalized(3) get_scenarioD [OF finalized(1)] by (simp add: scenario_ok_def balanced_def)
  moreover have "row_ok db' r" if "r \<in> set (td_rows db')" for r
    using that by (intro row_ok_cong [OF scenario_invD(6) [OF inv]]) (auto simp: finalized(8) ids_upd_where)
  ultimately show ?thesis
    using rows by (intro scenario_inv_updI [OF inv finalized(1), of "finalize_row (e + 1) now"])
      (use finalized(8) scenario_invD(3,4) [OF inv] in \<open>auto intro: distinct_publish\<close>)
qed (use inv in simp)

lemma inv_import:
  assumes inv: "scenario_inv db" and "upsert_store_targets targets src now db = Inr (db', n)"
  shows "scenario_inv db'"
proof -
  from assms(2) obtain ts where ts: "db' = db\<lparr>td_targets := ts\<rparr>"
    and "ts = td_targets db \<or> upsert_all (td_stores db) src now targets (td_targets db) = Inr ts"
  proof (cases "targets = []")
    case True
    then show ?thesis using assms(2) by (intro that [of "td_targets db"]) (auto simp: upsert_store_targets_def)
  qed (use assms(2) in \<open>auto simp: upsert_store_targets_def res_simps\<close>)
  then have "distinct (map target_key ts)" using scenario_invD(4) [OF inv] distinct_upsert_all by blast
  with inv show ?thesis by (simp add: scenario_inv_def ts scenario_ok_def row_ok_def rows_of_def)
qed

lemma inv_scenario_step: "scenario_inv db \<Longrightarrow> scenario_step db db' \<Longrightarrow> scenario_inv db'"
  by (erule scenario_stepE) (auto intro: inv_save_draft inv_update_final inv_finalize inv_import)

section \<open>Revisions\<close>

definition revision_of :: "target_db \<Rightarrow> nat \<Rightarrow> int" where
  "revision_of db i = (case get_scenario i db of None \<Rightarrow> 0 | Some s \<Rightarrow> sc_revision s)"

lemma get_scenario_update:
  assumes "\<And>s. sc_id (f s) = sc_id s"
  shows "get_scenario j (update_scenario i f db)
    = map_option (\<lambda>s. if sc_id s = i then f s else s) (get_scenario j db)"
  unfolding get_scenario_def by (simp add: row_by_upd_where assms)

lemma get_scenario_rows_irrelevant [simp]:
  "get_scenario j (db\<lparr>td_rows := t\<rparr>) = get_scenario j db" "get_scenario j (db\<lparr>td_targets := ts\<rparr>) = get_scenario j db"
  by (simp_all add: get_scenario_def)

text \<open>One transaction changes at most one scenario, which it found as a draft, or adds one.\<close>

lemma step_scenario:
  assumes inv: "scenario_inv db" and step: "scenario_step db db'" and s: "get_scenario j db = Some s"
  obtains (kept) "get_scenario j db' = Some s" and "rows_of j db' = rows_of j db"
  | (changed) s' where "get_scenario j db' = Some s'" and "sc_status s = Draft"
      and "sc_revision s' = sc_revision s + 1" and "target_month s' = target_month s"
  using step
proof cases
  case (ss_save fresh sc rows expected now i)
  from scenario_invD(3) [OF inv] this show ?thesis
  proof (cases rule: save_draft_cases)
    case (redrafted u sc' new)
    have u: "get_scenario i db = Some u" using get_by_month [OF inv redrafted(1)] redrafted(2) by simp
    show ?thesis
    proof (cases "j = i")
      case True
      with u s redrafted show ?thesis
        by (intro changed [of "redraft sc' (sc_revision u + 1) now u"]) (simp_all add: get_scenario_update)
    next
      case False
      with s get_scenarioD [OF s] rows_of_replaced [OF redrafted(9) False] show ?thesis
        by (intro kept) (simp_all add: get_scenario_update rows_of_def redrafted(7))
    qed
  next
    case (inserted sc' new)
    have "j \<noteq> i" using s inserted(2) by auto
    with s rows_of_replaced [OF inserted(8)] show ?thesis
      by (intro kept) (simp_all add: inserted(6) get_scenario_def rows_of_def row_by_append)
  qed
next
  case (ss_update i edits expected actor now n)
  from inv this show ?thesis
  proof (cases rule: update_final_targets_cases)
    case (edited u)
    show ?thesis
    proof (cases "j = i")
      case True
      with s edited show ?thesis
        by (intro changed [of "bump_revision (expected + 1) now u"]) (simp_all add: get_scenario_update get_scenarioD)
    next
      case False
      with s get_scenarioD [OF s] rows_of_edited [OF False] show ?thesis
        by (intro kept) (simp_all add: get_scenario_update edited(8) rows_of_def)
    qed
  qed (use s kept in auto)
next
  case (ss_finalize i expected now b)
  then show ?thesis
  proof (cases rule: finalize_cases)
    case (finalized u ft)
    show ?thesis
    proof (cases "j = i")
      case True
      with s finalized show ?thesis
        by (intro changed [of "finalize_row (expected + 1) now u"]) (simp_all add: get_scenario_update get_scenarioD)
    next
      case False
      with s get_scenarioD [OF s] show ?thesis
        by (intro kept) (simp_all add: get_scenario_update finalized(8) rows_of_def)
    qed
  qed (use s kept in auto)
next
  case (ss_import targets src now n)
  then show ?thesis using s
    by (intro kept) (auto simp: upsert_store_targets_def res_simps rows_of_def split: if_splits)
qed

lemma revision_mono: "scenario_inv db \<Longrightarrow> scenario_step db db' \<Longrightarrow> revision_of db i \<le> revision_of db' i"
proof -
  assume inv: "scenario_inv db" and step: "scenario_step db db'"
  show ?thesis
  proof (cases "get_scenario i db")
    case None
    have "0 \<le> revision_of db' i"
      using scenario_invD(5) [OF inv_scenario_step [OF inv step]]
      by (force simp: revision_of_def scenario_ok_def split: option.splits dest: get_scenarioD)
    with None show ?thesis by (simp add: revision_of_def)
  next
    case (Some s)
    with inv step show ?thesis
      by (rule step_scenario) (use Some in \<open>auto simp: revision_of_def\<close>)
  qed
qed

lemma write_revision:
  assumes inv: "scenario_inv db" and "scenario_write db i e db'"
  shows "revision_of db i = e \<and> revision_of db' i = e + 1"
  using assms(2)
proof cases
  case (sw_save fresh sc rows now)
  from scenario_invD(3) [OF inv] this show ?thesis
  proof (cases rule: save_draft_cases)
    case (redrafted s sc' new)
    then have "get_scenario i db = Some s" using get_by_month [OF inv redrafted(1)] by simp
    with redrafted show ?thesis by (simp add: revision_of_def get_scenario_update)
  qed simp
next
  case (sw_update edits actor now)
  from inv this(1) show ?thesis
    by (cases rule: update_final_targets_cases)
      (use sw_update(2) in \<open>auto simp: revision_of_def get_scenario_update dest: get_scenarioD\<close>)
next
  case (sw_finalize now)
  then show ?thesis
    by (cases rule: finalize_cases) (auto simp: revision_of_def get_scenario_update dest: get_scenarioD)
qed

lemma write_step: "scenario_write db i e db' \<Longrightarrow> scenario_step db db'"
  by (erule scenario_write.cases) (auto intro: scenario_step.intros)

interpretation sv: versioned_store scenario_empty scenario_step scenario_inv revision_of scenario_write
  by unfold_locales
    (auto intro: scenario_inv_empty inv_scenario_step revision_mono write_step dest: write_revision)

text \<open>A finalized scenario and its rows never change.\<close>

definition frozen_as :: "scenario \<Rightarrow> scenario_row list \<Rightarrow> target_db \<Rightarrow> bool" where
  "frozen_as s rows db \<longleftrightarrow> get_scenario (sc_id s) db = Some s \<and> sc_status s = Finalized \<and> rows_of (sc_id s) db = rows"

lemma frozen_step:
  "scenario_inv db \<Longrightarrow> scenario_step db db' \<Longrightarrow> frozen_as s rows db \<Longrightarrow> frozen_as s rows db'"
  unfolding frozen_as_def by (elim conjE, erule (2) step_scenario) auto

lemma frozen_steps:
  "scenario_step\<^sup>*\<^sup>* db u \<Longrightarrow> scenario_inv db \<Longrightarrow> frozen_as s rows db \<Longrightarrow> frozen_as s rows u"
  by (rule sv.stable_steps [where Q = "frozen_as s rows"]) (auto intro: frozen_step)

text \<open>What a writer whose revision is stale is answered.\<close>

lemma stale_answers:
  assumes inv: "scenario_inv db" and stale: "revision_of db i \<noteq> e"
  shows "update_final_targets i edits e actor now db \<in> {Inl TargetScenarioVersionConflict, Inr (db, 0)}"
    and "finalize_scenario i e now db \<in> {Inl TargetScenarioVersionConflict, Inr (db, False)}"
    and "save_draft_scenario fresh sc rows (Some e) now db \<noteq> Inr (db', i)"
proof -
  show "update_final_targets i edits e actor now db \<in> {Inl TargetScenarioVersionConflict, Inr (db, 0)}"
    "finalize_scenario i e now db \<in> {Inl TargetScenarioVersionConflict, Inr (db, False)}"
    using stale by (auto simp: update_final_targets_def finalize_scenario_def revision_of_def split: option.splits)
  show "save_draft_scenario fresh sc rows (Some e) now db \<noteq> Inr (db', i)"
    using write_revision [OF inv sw_save] stale by blast
qed

end
