(* ===== verification/Scenario_Correctness.thy ===== *)
theory Scenario_Correctness
  imports Scenario_Lifecycle
begin

text \<open>
  The properties of target scenarios: the invariant of every reachable database, optimistic
  locking, immutability of finalized scenarios, the effect of the managers' edits and of
  finalization on the official targets.
\<close>

section \<open>Publication\<close>

lemma upsert_target_set:
  "set (upsert_target t ts) = insert t {u \<in> set ts. target_key u \<noteq> target_key t}"
proof (cases "target_key t \<in> target_key ` set ts")
  case True
  have "u\<lparr>target_value := target_value t, source_file := source_file t, st_created_at := st_created_at t\<rparr> = t"
    if "target_key u = target_key t" for u
    using that by (cases u; cases t) (simp add: target_key_def)
  with True show ?thesis
    by (auto simp: upsert_target_def set_upd_where image_iff split: if_splits)
next
  case False
  then show ?thesis by (auto simp: upsert_target_def image_iff)
qed

lemma fold_upsert_set:
  assumes "distinct (map (\<lambda>r. target_key (p r)) rows)"
  shows "set (fold (\<lambda>r. upsert_target (p r)) rows ts)
    = p ` set rows \<union> {u \<in> set ts. target_key u \<notin> target_key ` p ` set rows}"
  using assms
proof (induction rows arbitrary: ts)
  case (Cons r rows)
  then have "target_key (p r) \<notin> target_key ` p ` set rows" by (force simp: image_iff)
  with Cons show ?case by (auto simp: upsert_target_set)
qed simp

lemma published_key: "target_key (published m i now r) = (m, site_code r)"
  by (simp add: published_def target_key_def)

text \<open>The official targets of the month are exactly the published rows.\<close>

lemma publish_month:
  assumes "distinct (map site_code rows)"
  shows "set (filter (\<lambda>t. import_month t = m) (publish_targets m i now rows ts)) = published m i now ` set rows"
proof -
  have "distinct (map (\<lambda>r. target_key (published m i now r)) rows)"
    using assms by (simp add: published_key distinct_map inj_on_def)
  note all = fold_upsert_set [OF this]
  have "u \<notin> set ts" if "import_month u = m" "target_key u \<notin> target_key ` published m i now ` set rows"
    "\<not> (import_month u = m \<and> st_site_code u \<notin> site_code ` set rows)" for u
  proof -
    from that(1,3) obtain r where "r \<in> set rows" "st_site_code u = site_code r" by auto
    then have "target_key u = target_key (published m i now r)"
      using that(1) by (simp add: published_key) (simp add: target_key_def)
    with \<open>r \<in> set rows\<close> that(2) show ?thesis by blast
  qed
  then show ?thesis
    unfolding publish_targets_def all set_filter by (auto simp: published_def)
qed

lemma upsert_other:
  assumes "\<And>u. P u = Q (import_month u)" and "\<not> P t"
  shows "filter P (upsert_target t ts) = filter P ts"
proof -
  have "filter P (upd_where (\<lambda>u. target_key u = target_key t)
      (\<lambda>u. u\<lparr>target_value := a, source_file := b, st_created_at := c\<rparr>) ts) = filter P ts" for a b c
    using assms by (induction ts) (auto simp: target_key_def)
  then show ?thesis using assms(2) by (simp add: upsert_target_def)
qed

lemma publish_other_months:
  "filter (\<lambda>t. import_month t \<noteq> m) (publish_targets m i now rows ts) = filter (\<lambda>t. import_month t \<noteq> m) ts"
proof -
  have "filter (\<lambda>t. import_month t \<noteq> m) (fold (\<lambda>r. upsert_target (published m i now r)) rs us)
      = filter (\<lambda>t. import_month t \<noteq> m) us" for rs us
    by (induction rs arbitrary: us) (simp_all add: upsert_other [of _ "\<lambda>k. k \<noteq> m"] published_def)
  then show ?thesis unfolding publish_targets_def by (simp add: filter_filter) (metis (mono_tags, lifting))
qed

lemma publish_sum:
  assumes "distinct (map site_code rows)" and "distinct (map target_key ts)"
  shows "sum_list (map target_value (filter (\<lambda>t. import_month t = m) (publish_targets m i now rows ts)))
    = final_total rows"
proof -
  let ?ts = "filter (\<lambda>t. import_month t = m) (publish_targets m i now rows ts)"
  have "distinct ?ts" using distinct_publish [OF assms(2)] by (auto simp: distinct_map)
  then have "sum_list (map target_value ?ts) = sum target_value (published m i now ` set rows)"
    by (simp only: sum_list_distinct_conv_sum_set publish_month [OF assms(1)])
  also have "\<dots> = sum (\<lambda>r. target_value (published m i now r)) (set rows)"
    using assms(1) by (intro sum.reindex_cong [OF _ refl refl])
      (auto simp: distinct_map inj_on_def published_def)
  also have "\<dots> = final_total rows"
    using assms(1) by (simp add: final_total_def published_def sum_list_distinct_conv_sum_set distinct_map)
  finally show ?thesis .
qed

text \<open>Fewer than \<open>10 ^ 16\<close> rows have a total that the Decimal context can hold.\<close>

lemma final_total_bound:
  "\<forall>r \<in> set rows. row_ok db r \<Longrightarrow> \<bar>final_total rows\<bar> \<le> of_nat (length rows) * 10 ^ 10"
proof (induction rows)
  case (Cons r rows)
  have "\<bar>case final_target r of None \<Rightarrow> 0 | Some v \<Rightarrow> v\<bar> \<le> (10 ^ 10 :: rat)"
    using Cons.prems by (auto simp: row_ok_def fits_def abs_mult split: option.splits)
  with Cons show ?case
    by (simp add: final_total_def algebra_simps del: of_nat_Suc) (simp add: algebra_simps)
qed (simp add: final_total_def)

lemma finalize_ready:
  assumes inv: "scenario_inv db" and s: "get_scenario i db = Some s" and draft: "sc_status s = Draft"
    and rv: "sc_revision s < 2147483647" and few: "length (rows_of i db) < 10 ^ 16"
  shows "finalize_scenario i (sc_revision s) now db = (if balanced s (rows_of i db)
    then Inr (update_scenario i (finalize_row (sc_revision s + 1) now)
      (db\<lparr>td_targets := publish_targets (target_month s) i now (rows_of i db) (td_targets db)\<rparr>), True)
    else Inr (db, False))"
proof -
  have ok: "scenario_ok db s" using get_scenarioD [OF s] scenario_invD(5) [OF inv] by simp
  have "\<bar>final_total (rows_of i db)\<bar> \<le> of_nat (length (rows_of i db)) * 10 ^ 10"
    by (rule final_total_bound [OF rows_of_ok [OF inv]])
  also have "\<dots> < of_nat (10 ^ 16) * 10 ^ 10" using few by (simp only: of_nat_less_iff mult_less_cancel_right) simp
  finally have "cents_of (final_total (rows_of i db)) = Inr (final_total (rows_of i db))"
    by (intro cents_of_ok final_total_cents [OF rows_of_ok [OF inv]]) simp
  moreover have "cents_of (total_target s) = Inr (total_target s)"
    using ok by (intro cents_of_ok) (auto simp: scenario_ok_def fits_def abs_mult)
  moreover have "sql_integer (sc_revision s + 1) = Inr (sc_revision s + 1)"
    using ok rv by (simp add: scenario_ok_def)
  ultimately show ?thesis
    using s draft pending_count_0 [of "rows_of i db"]
    by (auto simp: finalize_scenario_def balanced_def sql_integer_def)
qed

section \<open>A month from proposal to official targets\<close>

definition sample_input :: scenario_input where
  "sample_input = \<lparr>target_month = ''2026-08'', cohort_month = ''2026-07'', total_target = 300, min_floor = 50,
     previous_month_floor_pct = 9/10, calculation_method = ''seasonal_blended_multiyear_v2_ruleset'',
     source_months = ''[]'', sc_warnings = ''[]'', calculation_params = ''{}'', rule_set_id = None,
     rule_set_hash = None, rule_set_snapshot = None, calculation_input_sha256 = None,
     profitability_input_sha256 = None\<rparr>"

definition sample_row :: "string \<Rightarrow> rat \<Rightarrow> row_input" where
  "sample_row site v = \<lparr>site_code = site, locatie = site, firma = ''F'', regional = ''R'', asm = ''M'',
     calculated_weight = v, floor_target = 50, cap_target = None, proposed_target = v, is_floor_limited = False,
     is_cap_limited = False, history = ''[]'', calculation_details = ''{}'', profitability_snapshot = None\<rparr>"

definition sample_start :: target_db where
  "sample_start = \<lparr>td_stores = [''A'', ''B''], td_scenarios = [], td_rows = [], td_targets = []\<rparr>"

definition sample_edits :: "final_edit list" where
  "sample_edits = [\<lparr>fe_site_code = ''B'', fe_final_target = Some 180, fe_override_reason = Some ''zone'', fe_note = None\<rparr>,
     \<lparr>fe_site_code = ''A'', fe_final_target = Some 120, fe_override_reason = None, fe_note = None\<rparr>]"

definition run_db :: "(scenario_error, target_db \<times> 'a) result \<Rightarrow> target_db" where
  "run_db x = (case x of Inr (db, _) \<Rightarrow> db | Inl _ \<Rightarrow> sample_start)"

definition sample_draft :: target_db where
  "sample_draft = run_db (save_draft_scenario 1 sample_input [sample_row ''A'' 120, sample_row ''B'' 179] None 10 sample_start)"

definition sample_edited :: target_db where
  "sample_edited = run_db (update_final_targets 1 sample_edits 1 (Some ''ana'') 20 sample_draft)"

definition sample_final :: target_db where
  "sample_final = run_db (finalize_scenario 1 2 30 sample_edited)"

lemma sample_run:
  "is_ok (save_draft_scenario 1 sample_input [sample_row ''A'' 120, sample_row ''B'' 179] None 10 sample_start)"
  "is_ok (update_final_targets 1 sample_edits 1 (Some ''ana'') 20 sample_draft)"
  "is_ok (finalize_scenario 1 2 30 sample_edited)"
  by code_simp+

lemma run_db_Inr: "is_ok x \<Longrightarrow> \<exists>y. x = Inr (run_db x, y)"
  by (auto simp: is_ok_iff run_db_def)

lemma sample_reachable:
  "reachable_from scenario_empty scenario_step sample_start"
  "reachable_from scenario_empty scenario_step sample_draft"
  "reachable_from scenario_empty scenario_step sample_edited"
  "reachable_from scenario_empty scenario_step sample_final"
proof -
  show start: "reachable_from scenario_empty scenario_step sample_start"
    by (rule reach_init) (simp add: scenario_empty_def sample_start_def)
  show draft: "reachable_from scenario_empty scenario_step sample_draft"
    using reach_step [OF start ss_save] run_db_Inr [OF sample_run(1)] by (auto simp: sample_draft_def)
  show edited: "reachable_from scenario_empty scenario_step sample_edited"
    using reach_step [OF draft ss_update] run_db_Inr [OF sample_run(2)] by (auto simp: sample_edited_def)
  show "reachable_from scenario_empty scenario_step sample_final"
    using reach_step [OF edited ss_finalize] run_db_Inr [OF sample_run(3)] by (auto simp: sample_final_def)
qed

definition sample_scenario :: scenario where
  "sample_scenario = new_scenario sample_input 1 10"

lemma sample_edited_scenario:
  "get_scenario 1 sample_draft = Some sample_scenario"
  "get_scenario 1 sample_edited = Some (bump_revision 2 20 sample_scenario)"
  "get_scenario 1 sample_final = Some (finalize_row 3 30 (bump_revision 2 20 sample_scenario))"
  by code_simp+

section \<open>Properties\<close>

text \<open>
  C11: in every database the transactions can lead to there is one scenario per month, a scenario's
  stores are distinct and known, its revision is positive and its money fits its columns, and a
  finalized scenario has a final value for every store, which add up to its budget to the cent.
\<close>

theorem scenario_invariant:
  assumes "reachable_from scenario_empty scenario_step db"
  shows "distinct (map target_month (td_scenarios db)) \<and> distinct (map row_key (td_rows db))
    \<and> distinct (map target_key (td_targets db))
    \<and> (\<forall>r \<in> set (td_rows db). site_code r \<in> set (td_stores db) \<and> get_scenario (scenario_id r) db \<noteq> None
        \<and> (\<forall>v. final_target r = Some v \<longrightarrow> fits 12 v))
    \<and> (\<forall>s \<in> set (td_scenarios db). 1 \<le> sc_revision s \<and> fits 14 (total_target s)
        \<and> (sc_status s = Finalized \<longleftrightarrow> finalized_at s \<noteq> None)
        \<and> (sc_status s = Finalized \<longrightarrow> balanced s (rows_of (sc_id s) db)))"
proof -
  have inv: "scenario_inv db" using assms by (rule sv.reachable_inv)
  have "get_scenario (scenario_id r) db \<noteq> None" if "r \<in> set (td_rows db)" for r
    using scenario_invD(6) [OF inv that] get_scenario_mem [OF inv] by (auto simp: row_ok_def)
  with inv show ?thesis by (auto simp: scenario_inv_def scenario_ok_def row_ok_def)
qed

theorem scenario_invariant_witness:
  "distinct (map target_month (td_scenarios sample_final))
    \<and> (\<exists>s \<in> set (td_scenarios sample_final). sc_status s = Finalized \<and> balanced s (rows_of (sc_id s) sample_final))"
proof -
  let ?s = "finalize_row 3 30 (bump_revision 2 20 sample_scenario)"
  have mem: "?s \<in> set (td_scenarios sample_final)" using get_scenarioD [OF sample_edited_scenario(3)] by simp
  have fin: "sc_status ?s = Finalized" by simp
  from mem fin show ?thesis
    using scenario_invariant [OF sample_reachable(4)] by blast
qed

text \<open>
  Optimistic locking loses no update. Once a write under a revision of a scenario has succeeded,
  no call that carries the same revision changes that scenario, whatever transactions come in between: it
  is answered with a version conflict, or as a call on a finalized scenario.
\<close>

theorem stale_revision_changes_nothing:
  assumes "reachable_from scenario_empty scenario_step db" and "scenario_write db i e db'"
    and "scenario_step\<^sup>*\<^sup>* db' u"
  shows "update_final_targets i edits e actor now u \<in> {Inl TargetScenarioVersionConflict, Inr (u, 0)}
    \<and> finalize_scenario i e now u \<in> {Inl TargetScenarioVersionConflict, Inr (u, False)}
    \<and> save_draft_scenario fresh sc rows (Some e) now u \<noteq> Inr (u', i)
    \<and> e < revision_of u i"
proof -
  have inv: "scenario_inv db" using assms(1) by (rule sv.reachable_inv)
  have inv': "scenario_inv db'" using inv_scenario_step [OF inv write_step [OF assms(2)]] .
  have "e < revision_of u i"
    using write_revision [OF inv assms(2)] sv.counter_mono_steps [OF assms(3) inv', of i] by simp
  moreover have "scenario_inv u" using inv' assms(3) by (rule sv.inv_steps [rotated])
  ultimately show ?thesis using stale_answers [of u i e] by blast
qed

theorem stale_revision_changes_nothing_witness:
  "update_final_targets 1 sample_edits 1 None 40 sample_final
    \<in> {Inl TargetScenarioVersionConflict, Inr (sample_final, 0)}"
proof -
  have "update_final_targets 1 sample_edits 1 (Some ''ana'') 20 sample_draft
      = Inr (sample_edited, length sample_edits)" by code_simp
  then have w: "scenario_write sample_draft 1 1 sample_edited"
    by (rule sw_update) (simp add: sample_edits_def)
  have "scenario_step sample_edited sample_final"
    using ss_finalize run_db_Inr [OF sample_run(3)] by (auto simp: sample_final_def)
  then show ?thesis
    using stale_revision_changes_nothing [OF sample_reachable(2) w, of sample_final sample_edits None 40] by blast
qed

text \<open>
  A finalized scenario is immutable: after any transactions its header and its rows are what they
  were, so its final values still add up to its budget.
\<close>

theorem finalized_scenario_immutable:
  assumes "reachable_from scenario_empty scenario_step db" and "get_scenario i db = Some s"
    and "sc_status s = Finalized" and "scenario_step\<^sup>*\<^sup>* db u"
  shows "get_scenario i u = Some s \<and> rows_of i u = rows_of i db \<and> balanced s (rows_of i u)"
proof -
  have inv: "scenario_inv db" using assms(1) by (rule sv.reachable_inv)
  have i: "sc_id s = i" and ok: "scenario_ok db s"
    using get_scenarioD [OF assms(2)] scenario_invD(5) [OF inv] by auto
  have "frozen_as s (rows_of i db) db" using assms(2,3) i by (simp add: frozen_as_def)
  then have "frozen_as s (rows_of i db) u" by (rule frozen_steps [OF assms(4) inv])
  with ok i assms(3) show ?thesis by (simp add: frozen_as_def scenario_ok_def)
qed

definition sample_reimport :: target_db where
  "sample_reimport = run_db (upsert_store_targets [(''A'', ''2026-08'', 99)] ''file.xlsx'' 50 sample_final)"

theorem finalized_scenario_immutable_witness:
  "get_scenario 1 sample_reimport = get_scenario 1 sample_final \<and> rows_of 1 sample_reimport = rows_of 1 sample_final"
proof -
  have "is_ok (upsert_store_targets [(''A'', ''2026-08'', 99)] ''file.xlsx'' 50 sample_final)" by code_simp
  then have "scenario_step sample_final sample_reimport"
    using ss_import run_db_Inr by (fastforce simp: sample_reimport_def)
  then have "scenario_step\<^sup>*\<^sup>* sample_final sample_reimport" by (rule r_into_rtranclp)
  then show ?thesis
    using finalized_scenario_immutable [OF sample_reachable(4) sample_edited_scenario(3), of sample_reimport]
      sample_edited_scenario(3) by simp
qed

text \<open>
  C9: finalization of a draft under its current revision succeeds exactly when every store has a final
  value and the values add up to the budget, and is otherwise without effect. When it succeeds the official
  targets of the month are exactly the scenario's stores with their final values, which add up to the
  budget, the targets of other months stay, and the scenario is finalized under the next revision.
\<close>

theorem finalize_publishes_budget:
  assumes "reachable_from scenario_empty scenario_step db" and "get_scenario i db = Some s"
    and "sc_status s = Draft" and "sc_revision s < 2147483647" and "length (rows_of i db) < 10 ^ 16"
  shows "\<exists>db' b. finalize_scenario i (sc_revision s) now db = Inr (db', b)
    \<and> (b \<longleftrightarrow> (\<forall>r \<in> set (rows_of i db). final_target r \<noteq> None) \<and> final_total (rows_of i db) = total_target s)
    \<and> (\<not> b \<longrightarrow> db' = db)
    \<and> (b \<longrightarrow> (let month = filter (\<lambda>t. import_month t = target_month s) (td_targets db') in
         (\<lambda>t. (st_site_code t, Some (target_value t))) ` set month
           = (\<lambda>r. (site_code r, final_target r)) ` set (rows_of i db)
         \<and> distinct (map st_site_code month) \<and> sum_list (map target_value month) = total_target s)
       \<and> filter (\<lambda>t. import_month t \<noteq> target_month s) (td_targets db')
           = filter (\<lambda>t. import_month t \<noteq> target_month s) (td_targets db)
       \<and> get_scenario i db' = Some (finalize_row (sc_revision s + 1) now s))"
proof (cases "balanced s (rows_of i db)")
  case False
  have inv: "scenario_inv db" using assms(1) by (rule sv.reachable_inv)
  show ?thesis using finalize_ready [OF inv assms(2-5), of now] False
    by (intro exI [of _ db] exI [of _ False]) (simp add: balanced_def)
next
  case True
  have inv: "scenario_inv db" using assms(1) by (rule sv.reachable_inv)
  let ?rows = "rows_of i db" and ?m = "target_month s"
  let ?ts = "publish_targets ?m i now ?rows (td_targets db)"
  let ?month = "filter (\<lambda>t. import_month t = ?m) ?ts"
  have sites: "distinct (map site_code ?rows)" by (rule rows_of_sites [OF scenario_invD(3) [OF inv]])
  have "distinct (map st_site_code ?month)"
    using distinct_publish [OF scenario_invD(4) [OF inv], of ?m i now ?rows]
    by (auto simp: distinct_map inj_on_def target_key_def)
  moreover have "(\<lambda>t. (st_site_code t, Some (target_value t))) ` set ?month
      = (\<lambda>r. (site_code r, final_target r)) ` set ?rows"
    unfolding publish_month [OF sites] image_image using True
    by (intro image_cong refl) (auto simp: published_def balanced_def)
  moreover have "sum_list (map target_value ?month) = total_target s"
    using publish_sum [OF sites scenario_invD(4) [OF inv]] True by (simp add: balanced_def)
  ultimately show ?thesis
    using finalize_ready [OF inv assms(2-5), of now] True assms(2) get_scenarioD [OF assms(2)]
    by (intro exI) (rule conjI, simp, simp add: balanced_def Let_def publish_other_months get_scenario_update)
qed

theorem finalize_publishes_budget_witness:
  "\<exists>db'. finalize_scenario 1 2 30 sample_edited = Inr (db', True)
    \<and> sum_list (map target_value (filter (\<lambda>t. import_month t = ''2026-08'') (td_targets db'))) = 300"
proof -
  have s: "sc_status (bump_revision 2 20 sample_scenario) = Draft"
    "sc_revision (bump_revision 2 20 sample_scenario) = 2"
    "target_month (bump_revision 2 20 sample_scenario) = ''2026-08''"
    "total_target (bump_revision 2 20 sample_scenario) = 300"
    "length (rows_of 1 sample_edited) = 2"
    "(\<forall>r \<in> set (rows_of 1 sample_edited). final_target r \<noteq> None) \<and> final_total (rows_of 1 sample_edited) = 300"
    by code_simp+
  have few: "length (rows_of 1 sample_edited) < 10 ^ 16" unfolding s(5) by simp
  show ?thesis
    using finalize_publishes_budget [OF sample_reachable(3) sample_edited_scenario(2) s(1) _ few, of 30] s
    by (auto simp: Let_def)
qed

lemma edits_counted:
  assumes "distinct (map site_code rows)" and "distinct (map fe_site_code edits)"
    and "fe_site_code ` set edits \<subseteq> site_code ` set rows"
  shows "length (filter (\<lambda>r. site_code r \<in> set (map fe_site_code edits)) rows) = length edits"
proof -
  let ?hits = "map site_code (filter (\<lambda>r. site_code r \<in> set (map fe_site_code edits)) rows)"
  have "set ?hits = site_code ` set rows \<inter> fe_site_code ` set edits" by auto
  then have "set ?hits = set (map fe_site_code edits)" using assms(3) by auto
  moreover have "distinct ?hits" using assms(1) by (rule distinct_map_filter)
  ultimately have "length ?hits = length (map fe_site_code edits)" using assms(2) by (metis distinct_card)
  then show ?thesis by simp
qed

text \<open>
  Saving final values on a draft under its current revision. When the edited stores are distinct
  and belong to the scenario, the row updates, which run one after the other, equal one simultaneous
  edit of those rows: all other rows and every proposed value stay, and the revision grows by one. A value
  too large for its column refuses the whole save, and edits of repeated or foreign stores change
  nothing and are reported by a count that is not the number of edits.
\<close>

theorem final_edits_simultaneous:
  assumes "reachable_from scenario_empty scenario_step db" and "get_scenario i db = Some s"
    and "sc_status s = Draft" and "sc_revision s < 2147483647" and "edits \<noteq> []"
  shows "let outcome = update_final_targets i edits (sc_revision s) actor now db in
    if distinct (map fe_site_code edits) \<and> fe_site_code ` set edits \<subseteq> site_code ` set (rows_of i db)
    then if \<forall>e \<in> set edits. is_ok (sql_numeric_opt 12 2 (fe_final_target e))
      then \<exists>db'. outcome = Inr (db', length edits)
        \<and> rows_of i db' = map (edited i actor (sc_revision s + 1) now edits) (rows_of i db)
        \<and> map proposed_target (rows_of i db') = map proposed_target (rows_of i db)
        \<and> filter (\<lambda>r. scenario_id r \<noteq> i) (td_rows db') = filter (\<lambda>r. scenario_id r \<noteq> i) (td_rows db)
        \<and> td_targets db' = td_targets db
        \<and> get_scenario i db' = Some (bump_revision (sc_revision s + 1) now s)
      else outcome = Inl NumericOverflow
    else \<exists>k. k \<noteq> length edits \<and> outcome = Inr (db, k)"
proof -
  have inv: "scenario_inv db" using assms(1) by (rule sv.reachable_inv)
  have ok: "scenario_ok db s" using get_scenarioD [OF assms(2)] scenario_invD(5) [OF inv] by simp
  have rv: "sql_integer (sc_revision s + 1) = Inr (sc_revision s + 1)"
    using ok assms(4) by (simp add: scenario_ok_def)
  let ?n = "length (filter (\<lambda>r. site_code r \<in> set (map fe_site_code edits)) (rows_of i db))"
  let ?member = "distinct (map fe_site_code edits) \<and> fe_site_code ` set edits \<subseteq> site_code ` set (rows_of i db)"
  have count: "?n = length edits \<longleftrightarrow> ?member"
    using edits_counted edits_belong rows_of_sites [OF scenario_invD(3) [OF inv]] by metis
  have "update_final_targets i edits (sc_revision s) actor now db = (if ?n \<noteq> length edits then Inr (db, ?n)
      else res_bind (edit_rows i actor (sc_revision s + 1) now edits (td_rows db)) (\<lambda>t.
        Inr (update_scenario i (bump_revision (sc_revision s + 1) now) (db\<lparr>td_rows := t\<rparr>), ?n)))"
    using assms(2,3,5) by (simp add: update_final_targets_def rv Let_def)
  note result = this [unfolded count]
  have keeps: "proposed_target (edited i actor v now edits r) = proposed_target r" for v r
    by (simp add: edited_def edit_by_def split: option.split)
  have others: "filter (\<lambda>r. scenario_id r \<noteq> i) (map (edited i actor v now edits) t)
      = filter (\<lambda>r. scenario_id r \<noteq> i) t" for v t
    by (induction t) (auto simp: edited_other)
  show ?thesis
    unfolding Let_def result using assms(2) get_scenarioD [OF assms(2)] count
    by (simp add: edit_rows_simultaneous rows_of_def filter_edited keeps others comp_def get_scenario_update)
qed

theorem final_edits_simultaneous_witness:
  "\<exists>db'. update_final_targets 1 sample_edits 1 (Some ''ana'') 20 sample_draft = Inr (db', 2)
    \<and> rows_of 1 db' = map (edited 1 (Some ''ana'') 2 20 sample_edits) (rows_of 1 sample_draft)"
proof -
  have s: "sc_status sample_scenario = Draft" "sc_revision sample_scenario = 1" "length sample_edits = 2"
    "distinct (map fe_site_code sample_edits)"
    "fe_site_code ` set sample_edits \<subseteq> site_code ` set (rows_of 1 sample_draft)"
    "\<forall>e \<in> set sample_edits. is_ok (sql_numeric_opt 12 2 (fe_final_target e))"
    by code_simp+
  then have "sample_edits \<noteq> []" by auto
  then show ?thesis
    using final_edits_simultaneous [OF sample_reachable(2) sample_edited_scenario(1) s(1) _, of sample_edits "Some ''ana''" 20] s
    by (auto simp: Let_def)
qed

end
