(* ===== verification/Sales_Stage.thy ===== *)
theory Sales_Stage
  imports Decimal_Arith
begin

text \<open>
  The staged rows of a sales generation and their canonical text
  (\<^verbatim>\<open>services/sales_generation.py\<close>): the rows of the parsed workbook, the records copied to
  \<^verbatim>\<open>sales_import_stage_rows\<close>, and the text that Python and the database digest to bind a manifest
  to its rows (\<^verbatim>\<open>canonical_sales_stage_rows_sha256\<close> and \<^verbatim>\<open>sales_stage_rows_sha256\<close> of migration
  037). Strings stand for UTF-8 texts, so their length is the number of octets.
\<close>

section \<open>Amounts and dates\<close>

text \<open>A Decimal has a sign and a magnitude; a zero can be negative.\<close>

type_synonym dec_amount = "bool \<times> rat"

type_synonym sale_day = "nat \<times> nat \<times> nat"

definition sales_money :: "dec_amount \<Rightarrow> bool \<times> nat" where
  "sales_money v = (fst v, nat (round_half_even (snd v * 100)))"

text \<open>\<^verbatim>\<open>quantize\<close> raises \<^verbatim>\<open>InvalidOperation\<close> when the result needs more digits than the context has.\<close>

definition money_fits :: "dec_amount \<Rightarrow> bool" where
  "money_fits v \<longleftrightarrow> int (snd (sales_money v)) < 10 ^ DEFAULT_PREC"

definition money_text :: "bool \<times> nat \<Rightarrow> string" where
  "money_text v = (if fst v then ''-'' else '''') @ nat_digits (snd v div 100) @ CHR ''.'' # zero_padded 2 (int (snd v mod 100))"

text \<open>A \<^verbatim>\<open>NUMERIC(10, 2)\<close> column holds cents and has no negative zero.\<close>

definition numeric_cents :: "bool \<times> nat \<Rightarrow> int" where
  "numeric_cents v = (if fst v then - int (snd v) else int (snd v))"

definition numeric_text :: "int \<Rightarrow> string" where
  "numeric_text c = money_text (c < 0, nat \<bar>c\<bar>)"

definition iso_date :: "sale_day \<Rightarrow> string" where
  "iso_date d = (case d of (y, m, k) \<Rightarrow>
     zero_padded 4 (int y) @ CHR ''-'' # zero_padded 2 (int m) @ CHR ''-'' # zero_padded 2 (int k))"

definition bool_text :: "bool \<Rightarrow> string" where
  "bool_text b = (if b then ''true'' else ''false'')"

section \<open>Rows\<close>

record sales_line =
  Data :: sale_day
  SiteCode :: string
  Locatie :: string
  Firma :: string
  Regional :: string
  ASM :: string
  Nr :: string
  ItemCode :: string
  ItemName :: string
  Brand :: "string option"
  Categorie :: "string option"
  SubCategorie :: "string option"
  Cantitate :: int
  Pret :: dec_amount
  Valoare :: dec_amount
  Agent :: string
  is_cartela :: bool
  is_return :: bool

record stage_row =
  snapshot_id :: nat
  row_number :: nat
  st_import_month :: string
  sale_date :: sale_day
  st_site :: string
  st_locatie :: string
  st_firma :: string
  st_regional :: string
  st_asm :: string
  bon_nr :: string
  item_code :: string
  item_name :: string
  brand :: "string option"
  category :: "string option"
  subcategory :: "string option"
  quantity :: int
  unit_price :: int
  total_value :: int
  st_agent :: string
  st_is_cartela :: bool
  st_is_return :: bool

text \<open>The record of a row that \<^verbatim>\<open>stage_sales_generation_rows\<close> copies.\<close>

definition stage_record :: "nat \<Rightarrow> string \<Rightarrow> nat \<Rightarrow> sales_line \<Rightarrow> stage_row" where
  "stage_record i month n l = \<lparr>snapshot_id = i, row_number = n, st_import_month = month, sale_date = Data l,
     st_site = SiteCode l, st_locatie = Locatie l, st_firma = Firma l, st_regional = Regional l, st_asm = ASM l,
     bon_nr = Nr l, item_code = ItemCode l, item_name = ItemName l, brand = Brand l, category = Categorie l,
     subcategory = SubCategorie l, quantity = Cantitate l, unit_price = numeric_cents (sales_money (Pret l)),
     total_value = numeric_cents (sales_money (Valoare l)), st_agent = Agent l,
     st_is_cartela = is_cartela l, st_is_return = is_return l\<rparr>"

definition stage_records :: "nat \<Rightarrow> string \<Rightarrow> sales_line list \<Rightarrow> stage_row list" where
  "stage_records i month ls = map (\<lambda>(n, l). stage_record i month n l) (enumerate 1 ls)"

section \<open>Canonical text\<close>

definition stage_digest_scalar :: "string option \<Rightarrow> string" where
  "stage_digest_scalar v = (case v of None \<Rightarrow> ''N''
     | Some t \<Rightarrow> CHR ''V'' # nat_digits (length t) @ CHR '':'' # t)"

definition line_fields :: "string \<Rightarrow> nat \<Rightarrow> sales_line \<Rightarrow> string option list" where
  "line_fields month n l =
     [Some (nat_digits n), Some month, Some (iso_date (Data l)), Some (SiteCode l), Some (Locatie l), Some (Firma l),
      Some (Regional l), Some (ASM l), Some (Nr l), Some (ItemCode l), Some (ItemName l), Brand l, Categorie l,
      SubCategorie l, Some (int_text (Cantitate l)), Some (money_text (sales_money (Pret l))),
      Some (money_text (sales_money (Valoare l))), Some (Agent l), Some (bool_text (is_cartela l)),
      Some (bool_text (is_return l))]"

definition stage_fields :: "stage_row \<Rightarrow> string option list" where
  "stage_fields r =
     [Some (nat_digits (row_number r)), Some (st_import_month r), Some (iso_date (sale_date r)), Some (st_site r),
      Some (st_locatie r), Some (st_firma r), Some (st_regional r), Some (st_asm r), Some (bon_nr r),
      Some (item_code r), Some (item_name r), brand r, category r, subcategory r, Some (int_text (quantity r)),
      Some (numeric_text (unit_price r)), Some (numeric_text (total_value r)), Some (st_agent r),
      Some (bool_text (st_is_cartela r)), Some (bool_text (st_is_return r))]"

fun joined :: "char \<Rightarrow> string list \<Rightarrow> string" where
  "joined c [] = []"
| "joined c [x] = x"
| "joined c (x # y # zs) = x @ c # joined c (y # zs)"

definition row_text :: "string option list \<Rightarrow> string" where
  "row_text fs = joined (char_of (31 :: nat)) (map stage_digest_scalar fs)"

definition rows_text :: "string option list list \<Rightarrow> string" where
  "rows_text rows = joined (char_of (30 :: nat)) (map row_text rows)"

text \<open>The text Python digests, and the text the database digests over a snapshot's rows.\<close>

definition canonical_sales_stage_rows :: "sales_line list \<Rightarrow> string \<Rightarrow> string" where
  "canonical_sales_stage_rows ls month = rows_text (map (\<lambda>(n, l). line_fields month n l) (enumerate 1 ls))"

definition sales_stage_rows :: "stage_row list \<Rightarrow> string" where
  "sales_stage_rows rows = rows_text (map stage_fields (sort_key row_number rows))"

section \<open>The text determines the rows\<close>

lemma digits_then_colon:
  "nat_digits m @ CHR '':'' # xs = nat_digits n @ CHR '':'' # ys \<Longrightarrow> m = n \<and> xs = ys"
proof -
  assume eq: "nat_digits m @ CHR '':'' # xs = nat_digits n @ CHR '':'' # ys"
  have colon: "\<not> is_digit_char CHR '':''" by (simp add: is_digit_char_def)
  have take: "takeWhile is_digit_char (nat_digits k @ CHR '':'' # zs) = nat_digits k" for k zs
    using colon by (simp add: takeWhile_append2 nat_digits_all_digits)
  from eq have "nat_digits m = nat_digits n" by (metis take)
  with eq show ?thesis by simp
qed

lemma scalar_prefix:
  "stage_digest_scalar a @ xs = stage_digest_scalar b @ ys \<Longrightarrow> a = b \<and> xs = ys"
  by (auto simp: stage_digest_scalar_def split: option.splits dest!: digits_then_colon)

lemma row_prefix:
  assumes "length fs = length gs" and "row_text fs @ xs = row_text gs @ ys"
  shows "fs = gs \<and> xs = ys"
  using assms unfolding row_text_def
proof (induction fs gs rule: list_induct2)
  case (Cons f fs g gs)
  show ?case
  proof (cases fs)
    case Nil
    with Cons show ?thesis by (auto dest: scalar_prefix)
  next
    case (Cons f' fs')
    with \<open>length fs = length gs\<close> obtain g' gs' where gs: "gs = g' # gs'" by (cases gs) auto
    from Cons.prems [unfolded Cons gs] have "f = g"
      and "joined (char_of (31 :: nat)) (map stage_digest_scalar fs) @ xs
         = joined (char_of (31 :: nat)) (map stage_digest_scalar gs) @ ys"
      unfolding Cons gs by (auto dest: scalar_prefix)
    with Cons.IH show ?thesis by simp
  qed
qed simp

lemma row_text_nonempty: "fs \<noteq> [] \<Longrightarrow> row_text fs \<noteq> []"
  by (cases fs; cases "tl fs") (auto simp: row_text_def stage_digest_scalar_def split: option.splits)

lemma rows_text_inject:
  assumes "\<forall>fs \<in> set rows \<union> set rows'. length fs = 20" and "rows_text rows = rows_text rows'"
  shows "rows = rows'"
  using assms unfolding rows_text_def
proof (induction rows arbitrary: rows')
  case Nil
  show ?case
  proof (cases rows')
    case (Cons s ss)
    then have "row_text s \<noteq> []" using Nil.prems(1) by (intro row_text_nonempty) auto
    then show ?thesis using Nil.prems(2) Cons by (cases ss) auto
  qed simp
next
  case (Cons r rows)
  have "row_text r \<noteq> []" using Cons.prems(1) by (intro row_text_nonempty) auto
  then obtain s rows'' where rows': "rows' = s # rows''"
    using Cons.prems(2) by (cases rows'; cases rows) auto
  let ?tail = "\<lambda>rs. if rs = [] then [] else char_of (30 :: nat) # joined (char_of (30 :: nat)) (map row_text rs)"
  have split: "joined (char_of (30 :: nat)) (map row_text (q # qs)) = row_text q @ ?tail qs" for q qs
    by (cases qs) auto
  have "length r = length s" using Cons.prems(1) rows' by simp
  moreover have "row_text r @ ?tail rows = row_text s @ ?tail rows''"
    using Cons.prems(2) unfolding rows' split .
  ultimately have "r = s \<and> ?tail rows = ?tail rows''" by (rule row_prefix)
  moreover from this have "rows = rows''"
    using Cons.prems(1) rows' by (cases "rows = []"; cases "rows'' = []") (auto intro: Cons.IH)
  ultimately show ?case using rows' by simp
qed

lemma stage_fields_length [simp]: "length (stage_fields r) = 20" "length (line_fields m n l) = 20"
  by (simp_all add: stage_fields_def line_fields_def)

lemma dot_split:
  assumes "list_all is_digit_char xs" and "list_all is_digit_char ys" and "xs @ CHR ''.'' # us = ys @ CHR ''.'' # vs"
  shows "xs = ys \<and> us = vs"
proof -
  have dot: "\<not> is_digit_char CHR ''.''" by (simp add: is_digit_char_def)
  have take: "takeWhile is_digit_char (zs @ CHR ''.'' # ws) = zs" if "list_all is_digit_char zs" for zs ws
    using that dot by (simp add: takeWhile_append2 list_all_iff)
  have "xs = ys" using take [OF assms(1)] take [OF assms(2)] assms(3) by metis
  with assms(3) show ?thesis by simp
qed

lemma money_text_inject [simp]: "money_text v = money_text w \<longleftrightarrow> v = w"
proof
  assume eq: "money_text v = money_text w"
  have digits: "list_all is_digit_char (nat_digits k)" for k
    by (simp add: list_all_iff nat_digits_all_digits)
  have sign: "fst v = fst w"
    using eq by (auto simp: money_text_def append_eq_Cons_conv Cons_eq_append_conv nat_digits_nonempty nat_digits_no_sign
        split: if_splits)
  with eq have "nat_digits (snd v div 100) @ CHR ''.'' # zero_padded 2 (int (snd v mod 100))
      = nat_digits (snd w div 100) @ CHR ''.'' # zero_padded 2 (int (snd w mod 100))"
    by (simp add: money_text_def)
  from dot_split [OF digits digits this] have "snd v div 100 = snd w div 100" "snd v mod 100 = snd w mod 100"
    by (simp_all add: zero_padded_inject)
  then have "snd v = snd w" by (metis div_mult_mod_eq)
  with sign show "v = w" by (simp add: prod_eq_iff)
qed simp

lemma numeric_text_inject [simp]: "numeric_text c = numeric_text d \<longleftrightarrow> c = d"
  unfolding numeric_text_def by auto

lemma bool_text_inject [simp]: "bool_text b = bool_text c \<longleftrightarrow> b = c"
  by (simp add: bool_text_def)

lemma hyphen_split:
  assumes "list_all is_digit_char xs" and "list_all is_digit_char ys" and "xs @ CHR ''-'' # us = ys @ CHR ''-'' # vs"
  shows "xs = ys \<and> us = vs"
proof -
  have take: "takeWhile is_digit_char (zs @ CHR ''-'' # ws) = zs" if "list_all is_digit_char zs" for zs ws
    using that by (simp add: takeWhile_append2 list_all_iff is_digit_char_def)
  have "xs = ys" using take [OF assms(1)] take [OF assms(2)] assms(3) by metis
  with assms(3) show ?thesis by simp
qed

lemma iso_date_inject [simp]: "iso_date d = iso_date e \<longleftrightarrow> d = e"
proof
  assume eq: "iso_date d = iso_date e"
  obtain y m k y' m' k' where d: "d = (y, m, k)" and e: "e = (y', m', k')" by (metis prod_cases3)
  have digits: "list_all is_digit_char (zero_padded w (int n))" for w n by (simp add: zero_padded_digits)
  from hyphen_split [OF digits digits eq [unfolded iso_date_def d e prod.case]]
  have "y = y'" and rest: "zero_padded 2 (int m) @ CHR ''-'' # zero_padded 2 (int k)
      = zero_padded 2 (int m') @ CHR ''-'' # zero_padded 2 (int k')"
    by (simp_all add: zero_padded_inject)
  with hyphen_split [OF digits digits rest] show "d = e" by (simp add: d e zero_padded_inject)
qed simp

lemma stage_fields_inject:
  "stage_fields r = stage_fields s \<longleftrightarrow> r\<lparr>snapshot_id := 0\<rparr> = s\<lparr>snapshot_id := 0\<rparr>"
  by (cases r; cases s) (auto simp: stage_fields_def)

section \<open>Properties\<close>

text \<open>
  C31: the canonical text of staged rows determines every row with its order and multiplicity: two
  snapshots with the same text have the same rows, so a digest without collisions binds a manifest to
  exactly one sequence of rows.
\<close>

theorem stage_text_determines_rows:
  "sales_stage_rows rows = sales_stage_rows rows' \<longleftrightarrow>
     map (\<lambda>r. r\<lparr>snapshot_id := 0\<rparr>) (sort_key row_number rows) = map (\<lambda>r. r\<lparr>snapshot_id := 0\<rparr>) (sort_key row_number rows')"
proof -
  have fields: "map stage_fields rs = map stage_fields ss \<longleftrightarrow>
      map (\<lambda>r. r\<lparr>snapshot_id := 0\<rparr>) rs = map (\<lambda>r. r\<lparr>snapshot_id := 0\<rparr>) ss" for rs ss
  proof (induction rs arbitrary: ss)
    case (Cons r rs)
    then show ?case by (cases ss) (simp_all add: stage_fields_inject)
  qed simp
  have "sales_stage_rows rows = sales_stage_rows rows' \<longleftrightarrow>
      map stage_fields (sort_key row_number rows) = map stage_fields (sort_key row_number rows')"
    unfolding sales_stage_rows_def by (rule iffI, rule rows_text_inject) auto
  then show ?thesis unfolding fields .
qed

lemma stage_records_sorted: "sort_key row_number (stage_records i month ls) = stage_records i month ls"
proof (rule sort_key_id_if_sorted)
  have "row_number \<circ> (\<lambda>(n, l). stage_record i month n l) = fst"
    by (auto simp: fun_eq_iff stage_record_def)
  then have "map row_number (stage_records i month ls) = map fst (enumerate 1 ls)"
    by (simp only: stage_records_def map_map)
  then show "sorted (map row_number (stage_records i month ls))"
    by (simp only: map_fst_enumerate sorted_upt)
qed

definition negative_zero :: "dec_amount \<Rightarrow> bool" where
  "negative_zero v \<longleftrightarrow> sales_money v = (True, 0)"

lemma numeric_text_money: "numeric_text (numeric_cents w) = money_text w \<longleftrightarrow> w \<noteq> (True, 0)"
  by (cases w) (auto simp: numeric_text_def numeric_cents_def)

lemma record_fields:
  "stage_fields (stage_record i month n l) = line_fields month n l \<longleftrightarrow> \<not> negative_zero (Pret l) \<and> \<not> negative_zero (Valoare l)"
  by (simp add: stage_fields_def line_fields_def stage_record_def negative_zero_def numeric_text_money)

text \<open>
  C32: the database digests the same text as Python exactly when no price and no value of a line rounds to a
  negative zero; such an amount is written as \<open>-0.00\<close> by Python and as \<open>0.00\<close> by the database, and the
  generation is then refused as not matching its rows.
\<close>

theorem stage_texts_agree:
  "sales_stage_rows (stage_records i month ls) = canonical_sales_stage_rows ls month \<longleftrightarrow>
     (\<forall>l \<in> set ls. \<not> negative_zero (Pret l) \<and> \<not> negative_zero (Valoare l))"
proof -
  let ?db = "map stage_fields (stage_records i month ls)" and ?py = "map (\<lambda>(n, l). line_fields month n l) (enumerate 1 ls)"
  have "sales_stage_rows (stage_records i month ls) = canonical_sales_stage_rows ls month \<longleftrightarrow> ?db = ?py"
    unfolding sales_stage_rows_def canonical_sales_stage_rows_def stage_records_sorted
    by (rule iffI, rule rows_text_inject) auto
  also have "\<dots> \<longleftrightarrow> (\<forall>l \<in> snd ` set (enumerate 1 ls). \<not> negative_zero (Pret l) \<and> \<not> negative_zero (Valoare l))"
    unfolding stage_records_def map_map map_eq_conv comp_def by (simp add: record_fields case_prod_beta)
  also have "snd ` set (enumerate 1 ls) = set ls" by (metis map_snd_enumerate set_map)
  finally show ?thesis .
qed

definition sample_line :: "dec_amount \<Rightarrow> sales_line" where
  "sample_line v = \<lparr>Data = (2026, 7, 14), SiteCode = ''S1'', Locatie = ''L'', Firma = ''F'', Regional = ''R'', ASM = ''M'',
     Nr = ''17'', ItemCode = ''I'', ItemName = ''Item'', Brand = None, Categorie = None, SubCategorie = None,
     Cantitate = 1, Pret = v, Valoare = v, Agent = ''Ana'', is_cartela = True, is_return = False\<rparr>"

theorem stage_texts_agree_witness:
  "sales_stage_rows (stage_records 1 ''2026-07'' [sample_line (False, 5)]) = canonical_sales_stage_rows [sample_line (False, 5)] ''2026-07''
   \<and> sales_stage_rows (stage_records 1 ''2026-07'' [sample_line (True, 1/1000)])
       \<noteq> canonical_sales_stage_rows [sample_line (True, 1/1000)] ''2026-07''"
proof -
  have "\<not> negative_zero (False, 5)" "negative_zero (True, 1/1000)" by code_simp+
  then show ?thesis using stage_texts_agree [of 1 "''2026-07''"] by (simp add: sample_line_def)
qed

end
