(* ===== verification/Sales_Manifest.thy ===== *)
theory Sales_Manifest
  imports Sales_Stage
begin

text \<open>
  The manifest of a sales generation (\<^verbatim>\<open>services/sales_generation.py\<close>): control totals and days per
  store of the imported lines, the comparison with the promoted generation, and the anomalies that
  block a promotion. The digest function, the JSON text of a row and the Unicode normalization of an
  agent's name are arguments.
\<close>

section \<open>Anomalies\<close>

datatype anomaly_class = Informational | StructuralContradiction

record anomaly =
  an_code :: string
  an_class :: anomaly_class
  an_details :: "string list"

definition blocking :: "anomaly \<Rightarrow> bool" where
  "blocking a \<longleftrightarrow> an_class a = StructuralContradiction"

definition informational :: "string \<Rightarrow> string list \<Rightarrow> anomaly" where
  "informational c ds = \<lparr>an_code = c, an_class = Informational, an_details = ds\<rparr>"

section \<open>Manifest\<close>

record site_day =
  sd_site :: string
  sd_date :: sale_day
  sd_rows :: nat
  sd_receipts :: nat
  sd_quantity :: int
  sd_value :: int

datatype gen_state = Validated | Promoting | Promoted

record sales_manifest =
  mf_import_month :: string
  mf_source_sha256 :: string
  mf_cutoff_date :: sale_day
  mf_max_sale_date :: sale_day
  mf_rows_in_file :: int
  mf_rows_imported :: int
  mf_rows_filtered :: int
  mf_store_count :: nat
  mf_agent_count :: nat
  mf_receipt_count :: nat
  mf_total_value :: int
  mf_total_quantity :: int
  mf_site_day_sha256 :: string
  mf_site_days :: "site_day list"
  mf_business_sha256 :: string
  mf_anomalies :: "anomaly list"
  generation_state :: "gen_state option"
  mf_stage_rows_sha256 :: "string option"
  rollback_of_snapshot_id :: "nat option"
  rollback_source_snapshot_id :: "nat option"

datatype sales_error =
    SalesGenerationConflictError
  | SalesGenerationValidationError
  | SalesPolicyValidationError string
  | SalesValueError
  | ImportAlreadyRunningError
  | SalesPostgresError
  | SalesArtifactError
  | SalesOutboxError
  | SalesInvalidOperation

definition month_text :: "sale_day \<Rightarrow> string" where
  "month_text d = (case d of (y, m, _) \<Rightarrow> zero_padded 4 (int y) @ CHR ''-'' # zero_padded 2 (int m))"

type_synonym receipt_key = "sale_day \<times> string \<times> string \<times> string"

definition receipt_of :: "(string \<Rightarrow> string) \<Rightarrow> sales_line \<Rightarrow> receipt_key" where
  "receipt_of norm_agent l = (Data l, SiteCode l, norm_agent (Agent l), Nr l)"

definition line_value :: "sales_line \<Rightarrow> int" where
  "line_value l = numeric_cents (sales_money (Valoare l))"

text \<open>The accumulators of the loop over the rows: one entry per store and day, in order of first appearance.\<close>

record day_total =
  dt_rows :: nat
  dt_receipts :: "receipt_key list"
  dt_quantity :: int
  dt_value :: int

definition add_to_day :: "(string \<Rightarrow> string) \<Rightarrow> sales_line \<Rightarrow> day_total \<Rightarrow> day_total" where
  "add_to_day norm_agent l t = \<lparr>dt_rows = dt_rows t + 1, dt_receipts = List.insert (receipt_of norm_agent l) (dt_receipts t),
     dt_quantity = dt_quantity t + Cantitate l, dt_value = dt_value t + line_value l\<rparr>"

definition day_key :: "sales_line \<Rightarrow> string \<times> sale_day" where
  "day_key l = (SiteCode l, Data l)"

definition add_line :: "(string \<Rightarrow> string) \<Rightarrow> ((string \<times> sale_day) \<times> day_total) list \<Rightarrow> sales_line
    \<Rightarrow> ((string \<times> sale_day) \<times> day_total) list" where
  "add_line norm_agent days l =
     (let t = (case map_of days (day_key l) of None \<Rightarrow> \<lparr>dt_rows = 0, dt_receipts = [], dt_quantity = 0, dt_value = 0\<rparr> | Some t \<Rightarrow> t)
      in dict_set (day_key l) (add_to_day norm_agent l t) days)"

definition site_days_of :: "(string \<Rightarrow> string) \<Rightarrow> sales_line list \<Rightarrow> ((string \<times> sale_day) \<times> day_total) list" where
  "site_days_of norm_agent ls = foldl (add_line norm_agent) [] ls"

definition site_day_row :: "(string \<times> sale_day) \<times> day_total \<Rightarrow> site_day" where
  "site_day_row e = \<lparr>sd_site = fst (fst e), sd_date = snd (fst e), sd_rows = dt_rows (snd e),
     sd_receipts = length (dt_receipts (snd e)), sd_quantity = dt_quantity (snd e), sd_value = dt_value (snd e)\<rparr>"

definition max_day :: "sale_day list \<Rightarrow> sale_day" where
  "max_day ds = foldl max (hd ds) (tl ds)"

definition build_sales_generation_manifest ::
  "(string \<Rightarrow> string) \<Rightarrow> (string \<Rightarrow> string) \<Rightarrow> (sales_line \<Rightarrow> string) \<Rightarrow> (site_day list \<Rightarrow> string)
    \<Rightarrow> sales_line list \<Rightarrow> string \<Rightarrow> sale_day \<Rightarrow> int \<Rightarrow> int \<Rightarrow> (sales_error, sales_manifest) result" where
  "build_sales_generation_manifest sha norm_agent row_json days_json ls source_sha256 cutoff_date rows_in_file rows_filtered =
     (if \<not> is_sha256 source_sha256 then Inl (SalesPolicyValidationError ''invalid_source_sha256'')
      else if ls = [] then Inl (SalesPolicyValidationError ''empty_generation'')
      else let months = remdups (map (\<lambda>l. month_text (Data l)) ls) in
      if length months \<noteq> 1 then Inl (SalesPolicyValidationError ''mixed_import_months'')
      else let import_month = hd months in
      if month_text cutoff_date \<noteq> import_month then Inl (SalesPolicyValidationError ''cutoff_month_mismatch'')
      else let maximum_sale_date = max_day (map Data ls) in
      if cutoff_date < maximum_sale_date then Inl (SalesPolicyValidationError ''row_after_cutoff'')
      else if \<not> list_all (\<lambda>l. money_fits (Pret l) \<and> money_fits (Valoare l)) ls then Inl SalesInvalidOperation
      else let site_days = site_days_of norm_agent ls;
               site_day_rows = map site_day_row (sort_key fst site_days)
      in Inr \<lparr>mf_import_month = import_month, mf_source_sha256 = source_sha256, mf_cutoff_date = cutoff_date,
           mf_max_sale_date = maximum_sale_date, mf_rows_in_file = rows_in_file, mf_rows_imported = int (length ls),
           mf_rows_filtered = rows_filtered, mf_store_count = length (remdups (map SiteCode ls)),
           mf_agent_count = length (remdups (map Agent ls)),
           mf_receipt_count = length (remdups (map (receipt_of norm_agent) ls)),
           mf_total_value = sum_list (map line_value ls), mf_total_quantity = sum_list (map Cantitate ls),
           mf_site_day_sha256 = sha (days_json site_day_rows), mf_site_days = site_day_rows,
           mf_business_sha256 = sha (joined (CHR 0x0A) (sort (map row_json ls))),
           mf_anomalies = [], generation_state = None, mf_stage_rows_sha256 = None,
           rollback_of_snapshot_id = None, rollback_source_snapshot_id = None\<rparr>)"

section \<open>Comparison with the promoted generation\<close>

definition DEFAULT_ROW_REGRESSION_PCT :: rat where "DEFAULT_ROW_REGRESSION_PCT = 5"

definition DEFAULT_RECEIPT_REGRESSION_PCT :: rat where "DEFAULT_RECEIPT_REGRESSION_PCT = 5"

definition DEFAULT_VALUE_REGRESSION_PCT :: rat where "DEFAULT_VALUE_REGRESSION_PCT = 10"

definition DEFAULT_QUANTITY_REGRESSION_PCT :: rat where "DEFAULT_QUANTITY_REGRESSION_PCT = 10"

definition drop_pct :: "rat \<Rightarrow> rat \<Rightarrow> rat" where
  "drop_pct current previous = (if previous \<le> 0 \<or> previous \<le> current then 0
     else let q = dec_ctx DEFAULT_PREC (dec_ctx DEFAULT_PREC (dec_ctx DEFAULT_PREC (previous - current) * 100) / previous)
     in of_int (round_half_even (q * 100)) / 100)"

definition regression :: "string \<Rightarrow> rat \<Rightarrow> rat \<Rightarrow> rat \<Rightarrow> anomaly list" where
  "regression code threshold current old = (if threshold < drop_pct current old then [informational code []] else [])"

definition classify_authoritative_replace_anomalies :: "sales_manifest \<Rightarrow> sales_manifest option \<Rightarrow> anomaly list" where
  "classify_authoritative_replace_anomalies incoming prev = (case prev of
     None \<Rightarrow> [informational ''first_generation_review'' []]
   | Some previous \<Rightarrow>
       (if mf_cutoff_date incoming < mf_cutoff_date previous
          then [informational ''cutoff_regression'' [iso_date (mf_cutoff_date previous), iso_date (mf_cutoff_date incoming)]] else [])
     @ (let old_days = map (\<lambda>d. (sd_site d, iso_date (sd_date d)))
              (filter (\<lambda>d. sd_date d \<le> mf_cutoff_date incoming) (mf_site_days previous));
            new_days = map (\<lambda>d. (sd_site d, iso_date (sd_date d))) (mf_site_days incoming);
            missing = sort (remdups (filter (\<lambda>k. k \<notin> set new_days) old_days))
        in if missing = [] then [] else [informational ''site_day_disappeared'' (map (\<lambda>(s, d). s @ CHR '':'' # d) missing)])
     @ regression ''rows_imported_regression'' DEFAULT_ROW_REGRESSION_PCT
         (of_int (mf_rows_imported incoming)) (of_int (mf_rows_imported previous))
     @ regression ''receipt_count_regression'' DEFAULT_RECEIPT_REGRESSION_PCT
         (of_nat (mf_receipt_count incoming)) (of_nat (mf_receipt_count previous))
     @ regression ''total_value_regression'' DEFAULT_VALUE_REGRESSION_PCT
         (of_int (mf_total_value incoming) / 100) (of_int (mf_total_value previous) / 100)
     @ regression ''total_quantity_regression'' DEFAULT_QUANTITY_REGRESSION_PCT
         (of_int (mf_total_quantity incoming)) (of_int (mf_total_quantity previous)))"

definition manifest_has_structural_contradictions :: "sales_manifest \<Rightarrow> bool" where
  "manifest_has_structural_contradictions m \<longleftrightarrow> list_ex blocking (mf_anomalies m)"

end
