(* ===== verification/Sales_Flow.thy ===== *)
theory Sales_Flow
  imports Sales_Manifest Outbox_Repository
begin

text \<open>
  The lifecycle of a sales generation: reservation (\<^verbatim>\<open>services/sales_import_storage.py\<close>), staging and
  validation (\<^verbatim>\<open>services/importer.py\<close>, \<^verbatim>\<open>services/sales_generation.py\<close>), the retained source
  (\<^verbatim>\<open>services/sales_generation_artifacts.py\<close>), claims, promotion and failure
  (\<^verbatim>\<open>services/sales_generation_flow.py\<close>), rollback (\<^verbatim>\<open>services/sales_generation_rollback.py\<close>) and the
  recovery of interrupted work (\<^verbatim>\<open>services/sales_import_recovery.py\<close>), over the tables they write, with
  the triggers of migrations 037, 040 and 043 and the functions the promotion calls.

  Arguments stand for what the code reads elsewhere: \<open>sha\<close> is the digest of a text, \<open>now\<close> the instant of
  the transaction, identifiers come from sequences and \<^verbatim>\<open>uuid4\<close>, \<open>artifact_ok\<close> is the outcome of the file
  checks of \<^verbatim>\<open>verify_sales_import_artifact\<close>. The reporting tables that a promotion rebuilds are left out;
  \<open>reporting_ok\<close> tells whether their rebuilding raised.
\<close>

section \<open>Tables\<close>

datatype import_status = Processing_import | Completed_import | Failed_import

datatype artifact_state = Retaining | Retained | RecoveryRequired

record snapshot =
  sn_id :: nat
  sn_import_month :: string
  sn_filename :: string
  rows_in_file :: int
  rows_imported :: "int option"
  sn_status :: import_status
  is_month_final :: bool
  source_sha256 :: "string option"
  cutoff_date :: "sale_day option"
  manifest :: "sales_manifest option"
  manifest_sha256 :: "string option"
  generation_token :: string
  owner_id :: string
  lease_until :: "instant option"
  heartbeat_at :: instant
  created_at :: instant
  expected_head_revision :: nat
  previous_snapshot_id :: "nat option"
  coverage_report :: string
  source_spool_path :: "string option"
  source_artifact_required :: bool
  source_artifact_state :: "artifact_state option"
  source_artifact_sha256 :: "string option"
  source_artifact_bytes :: "int option"
  source_artifact_retained_at :: "instant option"
  source_artifact_retained_path :: "string option"
  stage_rows_sha256 :: "string option"
  promoted_at :: "instant option"
  approved_by_sub :: "string option"
  override_reason :: "string option"
  finished_at :: "instant option"
  error_message :: "string option"

record sales_head =
  hd_import_month :: string
  hd_snapshot_id :: nat
  hd_revision :: nat

record promotion =
  pm_import_month :: string
  from_snapshot_id :: "nat option"
  to_snapshot_id :: nat
  head_revision :: nat
  pm_action :: string
  requested_by_sub :: string
  pm_override_reason :: "string option"

record live_row =
  lv_import_month :: string
  lv_sale_date :: sale_day
  lv_site :: string
  lv_bon_nr :: string
  lv_item_code :: string
  lv_item_name :: string
  lv_brand :: "string option"
  lv_category :: "string option"
  lv_subcategory :: "string option"
  lv_quantity :: int
  lv_unit_price :: int
  lv_total_value :: int
  lv_agent :: string
  lv_is_cartela :: bool
  lv_is_return :: bool
  lv_snapshot_id :: nat

record store_info =
  si_site :: string
  si_locatie :: string
  si_firma :: string
  si_regional :: string
  si_asm :: string
  first_seen_month :: string
  last_seen_month :: string
  is_active :: bool

record sales_db =
  s_snapshots :: "snapshot list"
  s_stage :: "stage_row list"
  s_heads :: "sales_head list"
  s_promotions :: "promotion list"
  s_live :: "live_row list"
  s_stores :: "store_info list"
  s_outbox :: outbox_db

definition get_snapshot :: "nat \<Rightarrow> sales_db \<Rightarrow> snapshot option" where
  "get_snapshot i db = row_by sn_id i (s_snapshots db)"

definition staged :: "nat \<Rightarrow> sales_db \<Rightarrow> stage_row list" where
  "staged i db = sort_key row_number (filter (\<lambda>r. snapshot_id r = i) (s_stage db))"

definition head_of :: "string \<Rightarrow> sales_db \<Rightarrow> sales_head option" where
  "head_of m db = row_by hd_import_month m (s_heads db)"

text \<open>\<^verbatim>\<open>sales_stage_rows_sha256(snapshot_id)\<close>\<close>

definition stage_digest :: "(string \<Rightarrow> string) \<Rightarrow> nat \<Rightarrow> sales_db \<Rightarrow> string" where
  "stage_digest sha i db = sha (sales_stage_rows (filter (\<lambda>r. snapshot_id r = i) (s_stage db)))"

section \<open>Constraints and triggers of the snapshots\<close>

text \<open>The pattern \<^verbatim>\<open>[0-9]{4}-[0-9]{2}\<close> of the month columns of migration 033.\<close>

definition year_month_check :: "string \<Rightarrow> bool" where
  "year_month_check s \<longleftrightarrow> length s = 7 \<and> list_all is_digit_char (take 4 s) \<and> s ! 4 = CHR ''-'' \<and> list_all is_digit_char (drop 5 s)"

definition opt_sha :: "string option \<Rightarrow> bool" where
  "opt_sha v = (case v of None \<Rightarrow> True | Some t \<Rightarrow> is_sha256 t)"

definition snapshot_checks :: "snapshot \<Rightarrow> bool" where
  "snapshot_checks s \<longleftrightarrow> opt_sha (source_sha256 s) \<and> opt_sha (manifest_sha256 s) \<and> opt_sha (stage_rows_sha256 s)
     \<and> opt_sha (source_artifact_sha256 s)
     \<and> (case source_artifact_bytes s of None \<Rightarrow> True | Some b \<Rightarrow> 0 \<le> b)
     \<and> (case approved_by_sub s of None \<Rightarrow> True | Some t \<Rightarrow> 1 \<le> length (sql_btrim t) \<and> length (sql_btrim t) \<le> 256)"

definition manifest_digest :: "sales_manifest option \<Rightarrow> string option" where
  "manifest_digest m = (case m of None \<Rightarrow> None | Some x \<Rightarrow> mf_stage_rows_sha256 x)"

definition without_state :: "sales_manifest option \<Rightarrow> sales_manifest option" where
  "without_state m = map_option (\<lambda>x. x\<lparr>generation_state := None\<rparr>) m"

text \<open>\<^verbatim>\<open>guard_import_snapshot_sales_provenance\<close>\<close>

definition guard_provenance :: "(string \<Rightarrow> string) \<Rightarrow> sales_db \<Rightarrow> snapshot \<Rightarrow> snapshot \<Rightarrow> (sales_error, snapshot) result" where
  "guard_provenance sha db old new =
     (let actual = stage_digest sha (sn_id new) db; rows = staged (sn_id new) db in
      if manifest_sha256 old = None \<and> manifest_sha256 new \<noteq> None then
        (if rows = [] then Inl SalesPostgresError
         else if manifest_digest (manifest new) \<noteq> Some actual \<or> \<not> is_sha256 actual then Inl SalesPostgresError
         else Inr (new\<lparr>stage_rows_sha256 := Some actual\<rparr>))
      else if manifest_sha256 old \<noteq> None then
        (if sn_import_month new \<noteq> sn_import_month old \<or> source_sha256 new \<noteq> source_sha256 old
            \<or> cutoff_date new \<noteq> cutoff_date old \<or> manifest_sha256 new \<noteq> manifest_sha256 old
            \<or> generation_token new \<noteq> generation_token old
            \<or> without_state (manifest new) \<noteq> without_state (manifest old) then Inl SalesPostgresError
         else if stage_rows_sha256 new \<noteq> stage_rows_sha256 old then
           (if stage_rows_sha256 old \<noteq> None then Inl SalesPostgresError
            else case manifest new of None \<Rightarrow> Inl SalesPostgresError
              | Some m \<Rightarrow> (case rollback_source_snapshot_id m of None \<Rightarrow> Inl SalesPostgresError
                | Some j \<Rightarrow> let source_digest = (case get_snapshot j db of None \<Rightarrow> None | Some s \<Rightarrow> stage_rows_sha256 s) in
                    if rows = [] \<or> source_digest = None \<or> stage_rows_sha256 new \<noteq> source_digest
                       \<or> Some actual \<noteq> source_digest
                    then Inl SalesPostgresError else Inr new))
         else Inr new)
      else Inr new)"

text \<open>\<^verbatim>\<open>guard_sales_source_artifact_lifecycle\<close>\<close>

definition artifact_exact :: "snapshot \<Rightarrow> bool" where
  "artifact_exact s \<longleftrightarrow> source_artifact_state s = Some Retained \<and> source_artifact_sha256 s = source_sha256 s
     \<and> source_artifact_bytes s \<noteq> None \<and> source_artifact_retained_at s \<noteq> None \<and> source_artifact_retained_path s \<noteq> None"

definition same_artifact_facts :: "snapshot \<Rightarrow> snapshot \<Rightarrow> bool" where
  "same_artifact_facts old new \<longleftrightarrow> source_artifact_state new = source_artifact_state old
     \<and> source_artifact_sha256 new = source_artifact_sha256 old \<and> source_artifact_bytes new = source_artifact_bytes old
     \<and> source_artifact_retained_at new = source_artifact_retained_at old
     \<and> source_artifact_retained_path new = source_artifact_retained_path old"

definition guard_artifact :: "snapshot option \<Rightarrow> snapshot \<Rightarrow> bool" where
  "guard_artifact prev new \<longleftrightarrow>
     (source_artifact_required new \<and> sn_status new = Completed_import \<longrightarrow> artifact_exact new)
   \<and> (case prev of None \<Rightarrow> True | Some old \<Rightarrow>
        (source_artifact_required old \<longrightarrow> source_artifact_required new)
      \<and> (source_artifact_state old = Some Retained
          \<and> \<not> (source_artifact_state new = Some RecoveryRequired \<and> sn_status new = Failed_import)
          \<longrightarrow> same_artifact_facts old new))
   \<and> (source_artifact_state new = Some Retained \<longrightarrow> artifact_exact new)"

definition guard_snapshot :: "(string \<Rightarrow> string) \<Rightarrow> sales_db \<Rightarrow> snapshot \<Rightarrow> snapshot \<Rightarrow> (sales_error, snapshot) result" where
  "guard_snapshot sha db old new = res_bind (guard_provenance sha db old new) (\<lambda>n.
     if guard_artifact (Some old) n \<and> snapshot_checks n then Inr n else Inl SalesPostgresError)"

fun map_rows :: "('r \<Rightarrow> ('e, 'r) result) \<Rightarrow> 'r list \<Rightarrow> ('e, 'r list) result" where
  "map_rows g [] = Inr []"
| "map_rows g (r # rs) = res_bind (g r) (\<lambda>r'. res_bind (map_rows g rs) (\<lambda>rs'. Inr (r' # rs')))"

text \<open>An UPDATE of the snapshots, and one whose \<^verbatim>\<open>RETURNING id\<close> must not be empty.\<close>

definition update_snapshots ::
  "(string \<Rightarrow> string) \<Rightarrow> (snapshot \<Rightarrow> bool) \<Rightarrow> (snapshot \<Rightarrow> snapshot) \<Rightarrow> sales_db \<Rightarrow> (sales_error, sales_db) result" where
  "update_snapshots sha P f db =
     res_bind (map_rows (\<lambda>s. if P s then guard_snapshot sha db s (f s) else Inr s) (s_snapshots db))
       (\<lambda>t. Inr (db\<lparr>s_snapshots := t\<rparr>))"

definition fenced_update ::
  "(string \<Rightarrow> string) \<Rightarrow> (snapshot \<Rightarrow> bool) \<Rightarrow> (snapshot \<Rightarrow> snapshot) \<Rightarrow> sales_db \<Rightarrow> (sales_error, sales_db) result" where
  "fenced_update sha P f db =
     (if list_ex P (s_snapshots db) then update_snapshots sha P f db else Inl SalesGenerationConflictError)"

definition insert_snapshot :: "snapshot \<Rightarrow> sales_db \<Rightarrow> (sales_error, sales_db) result" where
  "insert_snapshot s db =
     (if sn_id s \<in> sn_id ` set (s_snapshots db) \<or> generation_token s \<in> generation_token ` set (s_snapshots db)
         \<or> (sn_status s = Processing_import
             \<and> list_ex (\<lambda>u. sn_status u = Processing_import \<and> sn_import_month u = sn_import_month s) (s_snapshots db))
         \<or> (case previous_snapshot_id s of None \<Rightarrow> False | Some j \<Rightarrow> j \<notin> sn_id ` set (s_snapshots db))
         \<or> \<not> guard_artifact None s \<or> \<not> snapshot_checks s
      then Inl SalesPostgresError else Inr (db\<lparr>s_snapshots := s_snapshots db @ [s]\<rparr>))"

section \<open>Reservation\<close>

definition state_of :: "snapshot \<Rightarrow> gen_state option" where
  "state_of s = (case manifest s of None \<Rightarrow> None | Some m \<Rightarrow> generation_state m)"

definition set_state :: "gen_state \<Rightarrow> snapshot \<Rightarrow> snapshot" where
  "set_state g s = s\<lparr>manifest := map_option (\<lambda>m. m\<lparr>generation_state := Some g\<rparr>) (manifest s)\<rparr>"

definition lease_lost :: "instant \<Rightarrow> snapshot \<Rightarrow> bool" where
  "lease_lost now s \<longleftrightarrow> (case lease_until s of Some l \<Rightarrow> l \<le> now | None \<Rightarrow> heartbeat_at s < now - seconds 3600)"

definition open_generation :: "snapshot \<Rightarrow> bool" where
  "open_generation s \<longleftrightarrow> state_of s = Some Validated \<or> state_of s = Some Promoting"

definition abandoned :: "instant \<Rightarrow> string \<Rightarrow> snapshot \<Rightarrow> bool" where
  "abandoned now month s \<longleftrightarrow> sn_import_month s = month \<and> sn_status s = Processing_import
     \<and> \<not> open_generation s \<and> lease_lost now s"

definition close_row :: "string \<Rightarrow> instant \<Rightarrow> snapshot \<Rightarrow> snapshot" where
  "close_row msg now s = s\<lparr>sn_status := Failed_import, rows_imported := Some 0, error_message := Some msg,
     heartbeat_at := now, finished_at := Some now\<rparr>"

record sales_reservation =
  rv_filename :: string
  rv_rows_in_file :: int
  rv_source_sha256 :: "string option"
  rv_cutoff_date :: "sale_day option"
  rv_token :: string
  rv_owner :: string
  rv_artifact_required :: bool
  rv_artifact_path :: "string option"
  rv_artifact_bytes :: "int option"
  rv_lease_seconds :: int

definition reserved_snapshot :: "nat \<Rightarrow> string \<Rightarrow> sales_reservation \<Rightarrow> bool \<Rightarrow> sales_head option \<Rightarrow> instant \<Rightarrow> snapshot" where
  "reserved_snapshot i month rv final head now = \<lparr>sn_id = i, sn_import_month = month, sn_filename = rv_filename rv,
     rows_in_file = rv_rows_in_file rv, rows_imported = None, sn_status = Processing_import, is_month_final = final,
     source_sha256 = rv_source_sha256 rv, cutoff_date = rv_cutoff_date rv, manifest = None, manifest_sha256 = None,
     generation_token = rv_token rv, owner_id = rv_owner rv, lease_until = Some (now + seconds (rv_lease_seconds rv)),
     heartbeat_at = now, created_at = now,
     expected_head_revision = (case head of None \<Rightarrow> 0 | Some h \<Rightarrow> hd_revision h),
     previous_snapshot_id = map_option hd_snapshot_id head, coverage_report = ''{}'',
     source_spool_path = rv_artifact_path rv, source_artifact_required = rv_artifact_required rv,
     source_artifact_state = (if rv_artifact_required rv then Some Retaining else None),
     source_artifact_sha256 = (if rv_artifact_required rv then rv_source_sha256 rv else None),
     source_artifact_bytes = rv_artifact_bytes rv, source_artifact_retained_at = None,
     source_artifact_retained_path = None, stage_rows_sha256 = None, promoted_at = None, approved_by_sub = None,
     override_reason = None, finished_at = None, error_message = None\<rparr>"

text \<open>
  The refusal of a second import comes after the transaction that closed abandoned reservations has
  been committed; a month with a reservation left has none that was closed, so nothing changed.
\<close>

definition reserve_snapshot ::
  "(string \<Rightarrow> string) \<Rightarrow> nat \<Rightarrow> string \<Rightarrow> sales_reservation \<Rightarrow> bool \<Rightarrow> instant \<Rightarrow> sales_db \<Rightarrow> (sales_error, sales_db \<times> nat) result" where
  "reserve_snapshot sha i month rv final now db =
     (if rv_lease_seconds rv < 60 then Inl SalesValueError
      else if rv_artifact_required rv \<and> (rv_artifact_path rv = None \<or> rv_artifact_path rv = Some []
          \<or> rv_source_sha256 rv = None \<or> (case rv_artifact_bytes rv of None \<Rightarrow> True | Some b \<Rightarrow> b < 0))
        then Inl SalesValueError
      else res_bind (update_snapshots sha (abandoned now month)
          (close_row ''Import processing abandonat si inchis automat'' now) db) (\<lambda>db1.
        if list_ex (\<lambda>u. sn_status u = Processing_import \<and> sn_import_month u = month) (s_snapshots db1)
        then Inl ImportAlreadyRunningError
        else res_bind (insert_snapshot (reserved_snapshot i month rv final (head_of month db1) now) db1)
          (\<lambda>db2. Inr (db2, i))))"

definition record_coverage_report :: "(string \<Rightarrow> string) \<Rightarrow> nat \<Rightarrow> string \<Rightarrow> instant \<Rightarrow> sales_db \<Rightarrow> (sales_error, sales_db) result" where
  "record_coverage_report sha i report now db = update_snapshots sha
     (\<lambda>s. sn_id s = i \<and> sn_status s = Processing_import) (\<lambda>s. s\<lparr>coverage_report := report, heartbeat_at := now\<rparr>) db"

section \<open>Staging and validation\<close>

definition owned :: "nat \<Rightarrow> string \<Rightarrow> string \<Rightarrow> snapshot \<Rightarrow> bool" where
  "owned i tk ow s \<longleftrightarrow> sn_id s = i \<and> generation_token s = tk \<and> owner_id s = ow \<and> sn_status s = Processing_import"

definition leased_to :: "nat \<Rightarrow> string \<Rightarrow> string \<Rightarrow> instant \<Rightarrow> snapshot \<Rightarrow> bool" where
  "leased_to i tk ow now s \<longleftrightarrow> owned i tk ow s \<and> (case lease_until s of None \<Rightarrow> False | Some l \<Rightarrow> now < l)"

definition fenced_generation_heartbeat ::
  "(string \<Rightarrow> string) \<Rightarrow> nat \<Rightarrow> string \<Rightarrow> string \<Rightarrow> int \<Rightarrow> instant \<Rightarrow> sales_db \<Rightarrow> (sales_error, sales_db) result" where
  "fenced_generation_heartbeat sha i tk ow lease_seconds now db = fenced_update sha (leased_to i tk ow now)
     (\<lambda>s. s\<lparr>heartbeat_at := now, lease_until := Some (now + seconds lease_seconds)\<rparr>) db"

text \<open>Rows inserted into the stage table, under \<^verbatim>\<open>guard_sales_stage_mutation\<close> and the table's constraints.\<close>

definition stage_row_checks :: "stage_row \<Rightarrow> bool" where
  "stage_row_checks r \<longleftrightarrow> 0 < row_number r \<and> year_month_check (st_import_month r)
     \<and> - 2147483648 \<le> quantity r \<and> quantity r \<le> 2147483647 \<and> \<bar>unit_price r\<bar> < 10 ^ 10 \<and> \<bar>total_value r\<bar> < 10 ^ 10"

definition guard_stage_row :: "sales_db \<Rightarrow> stage_row \<Rightarrow> bool" where
  "guard_stage_row db r = (case get_snapshot (snapshot_id r) db of None \<Rightarrow> False
     | Some s \<Rightarrow> sn_status s = Processing_import \<and> sn_import_month s = st_import_month r \<and> stage_rows_sha256 s = None)"

definition stage_key :: "stage_row \<Rightarrow> nat \<times> nat" where
  "stage_key r = (snapshot_id r, row_number r)"

definition insert_stage :: "stage_row list \<Rightarrow> sales_db \<Rightarrow> (sales_error, sales_db) result" where
  "insert_stage rows db =
     (if list_all (guard_stage_row db) rows \<and> list_all stage_row_checks rows
         \<and> distinct (map stage_key rows) \<and> list_all (\<lambda>r. stage_key r \<notin> stage_key ` set (s_stage db)) rows
      then Inr (db\<lparr>s_stage := s_stage db @ rows\<rparr>) else Inl SalesPostgresError)"

definition stage_sales_generation_rows :: "nat \<Rightarrow> string \<Rightarrow> sales_line list \<Rightarrow> sales_db \<Rightarrow> (sales_error, sales_db \<times> nat) result" where
  "stage_sales_generation_rows i month ls db =
     res_bind (insert_stage (stage_records i month ls) db) (\<lambda>db'. Inr (db', length ls))"

definition persist_validated_sales_generation ::
  "(string \<Rightarrow> string) \<Rightarrow> nat \<Rightarrow> string \<Rightarrow> string \<Rightarrow> sales_manifest \<Rightarrow> string \<Rightarrow> string \<Rightarrow> instant \<Rightarrow> sales_db \<Rightarrow> (sales_error, sales_db) result" where
  "persist_validated_sales_generation sha i tk ow m m_sha report now db = fenced_update sha (leased_to i tk ow now)
     (\<lambda>s. s\<lparr>manifest := Some m, manifest_sha256 := Some m_sha, coverage_report := report,
        rows_imported := Some (mf_rows_imported m), heartbeat_at := now\<rparr>) db"

definition completed_rank :: "snapshot \<Rightarrow> nat \<times> int \<times> int" where
  "completed_rank s = (case promoted_at s of None \<Rightarrow> (1, 0, - created_at s) | Some t \<Rightarrow> (0, - t, - created_at s))"

definition load_current_sales_manifest :: "string \<Rightarrow> sales_db \<Rightarrow> (nat \<times> sales_manifest option) option" where
  "load_current_sales_manifest month db = (case head_of month db of
     Some h \<Rightarrow> map_option (\<lambda>s. (sn_id s, manifest s)) (get_snapshot (hd_snapshot_id h) db)
   | None \<Rightarrow> (case sort_key completed_rank (filter (\<lambda>s. sn_import_month s = month \<and> sn_status s = Completed_import
        \<and> manifest s \<noteq> None) (s_snapshots db)) of [] \<Rightarrow> None | s # _ \<Rightarrow> Some (sn_id s, manifest s)))"

record import_env =
  env_sha :: "string \<Rightarrow> string"
  env_norm :: "string \<Rightarrow> string"
  env_row_json :: "sales_line \<Rightarrow> string"
  env_days_json :: "site_day list \<Rightarrow> string"
  env_manifest_json :: "sales_manifest \<Rightarrow> string"

text \<open>The manifest with its anomalies; \<open>coverage\<close> are those of the coverage report.\<close>

definition validated_manifest ::
  "import_env \<Rightarrow> sales_line list \<Rightarrow> string \<Rightarrow> string \<Rightarrow> sale_day \<Rightarrow> int \<Rightarrow> int \<Rightarrow> anomaly list \<Rightarrow> sales_db
    \<Rightarrow> (sales_error, sales_manifest) result" where
  "validated_manifest env ls month digest cutoff rows_in rows_out coverage db =
     res_bind (build_sales_generation_manifest (env_sha env) (env_norm env) (env_row_json env) (env_days_json env)
       ls digest cutoff rows_in rows_out) (\<lambda>m.
       let prev = (case load_current_sales_manifest month db of None \<Rightarrow> None | Some (_, pm) \<Rightarrow> pm) in
       Inr (m\<lparr>mf_anomalies := classify_authoritative_replace_anomalies m prev
           @ (if rows_out \<noteq> 0 then [informational ''rows_filtered'' [int_text rows_out]] else []) @ coverage,
         generation_state := Some Validated,
         mf_stage_rows_sha256 := Some (env_sha env (canonical_sales_stage_rows ls month))\<rparr>))"

definition validate_and_stage_generation ::
  "import_env \<Rightarrow> sales_line list \<Rightarrow> string \<Rightarrow> sale_day \<Rightarrow> string \<Rightarrow> int \<Rightarrow> int \<Rightarrow> nat \<Rightarrow> string \<Rightarrow> string \<Rightarrow> anomaly list \<Rightarrow> string
    \<Rightarrow> instant \<Rightarrow> sales_db \<Rightarrow> (sales_error, sales_db \<times> nat \<times> sales_manifest \<times> string) result" where
  "validate_and_stage_generation env ls month cutoff digest rows_in rows_out i tk ow coverage report now db =
     res_bind (validated_manifest env ls month digest cutoff rows_in rows_out coverage db) (\<lambda>m.
       let m_sha = env_sha env (env_manifest_json env m) in
       res_bind (fenced_generation_heartbeat (env_sha env) i tk ow (2 * 60 * 60) now db) (\<lambda>db1.
       res_bind (stage_sales_generation_rows i month ls db1) (\<lambda>(db2, n).
       res_bind (persist_validated_sales_generation (env_sha env) i tk ow m m_sha report now db2) (\<lambda>db3.
         Inr (db3, n, m, m_sha)))))"

definition fail_sales_generation ::
  "(string \<Rightarrow> string) \<Rightarrow> nat \<Rightarrow> string \<Rightarrow> string \<Rightarrow> string \<Rightarrow> instant \<Rightarrow> sales_db \<Rightarrow> (sales_error, sales_db) result" where
  "fail_sales_generation sha i tk ow msg now db = fenced_update sha (leased_to i tk ow now)
     (\<lambda>s. (close_row (take 500 msg) now s)\<lparr>lease_until := Some now\<rparr>) db"

section \<open>The retained source\<close>

definition attach_sales_generation_source ::
  "(string \<Rightarrow> string) \<Rightarrow> nat \<Rightarrow> string \<Rightarrow> string \<Rightarrow> string \<Rightarrow> string option \<Rightarrow> int option \<Rightarrow> instant \<Rightarrow> sales_db \<Rightarrow> (sales_error, sales_db) result" where
  "attach_sales_generation_source sha i tk ow path src bytes now db = fenced_update sha
     (\<lambda>s. owned i tk ow s \<and> state_of s = Some Validated)
     (\<lambda>s. s\<lparr>source_spool_path := Some path, source_artifact_state := Some Retaining,
        source_artifact_sha256 := (if src = None then source_sha256 s else src),
        source_artifact_bytes := (if bytes = None then source_artifact_bytes s else bytes), heartbeat_at := now\<rparr>) db"

definition retained_row :: "string \<Rightarrow> string \<Rightarrow> int \<Rightarrow> instant \<Rightarrow> snapshot \<Rightarrow> snapshot" where
  "retained_row path src bytes now s = s\<lparr>source_spool_path := Some path, source_artifact_retained_path := Some path,
     source_artifact_state := Some Retained, source_artifact_sha256 := Some src, source_artifact_bytes := Some bytes,
     source_artifact_retained_at := (if source_artifact_retained_at s = None then Some now else source_artifact_retained_at s),
     heartbeat_at := now\<rparr>"

definition mark_sales_generation_artifact_retained ::
  "(string \<Rightarrow> string) \<Rightarrow> nat \<Rightarrow> string \<Rightarrow> string \<Rightarrow> string \<Rightarrow> string \<Rightarrow> int \<Rightarrow> instant \<Rightarrow> sales_db \<Rightarrow> (sales_error, sales_db) result" where
  "mark_sales_generation_artifact_retained sha i tk ow path src bytes now db = fenced_update sha
     (\<lambda>s. owned i tk ow s \<and> (source_artifact_state s = Some Retaining
        \<or> source_artifact_state s = Some Retained \<and> source_artifact_retained_path s = Some path
            \<and> source_artifact_sha256 s = Some src \<and> source_artifact_bytes s = Some bytes))
     (retained_row path src bytes now) db"

definition find_recoverable_sales_generation_for_artifact_retain ::
  "string \<Rightarrow> string \<Rightarrow> string \<Rightarrow> int \<Rightarrow> sale_day option \<Rightarrow> sales_db \<Rightarrow> (sales_error, snapshot option) result" where
  "find_recoverable_sales_generation_for_artifact_retain queued retained src bytes cutoff db =
     (case filter (\<lambda>s. sn_status s = Processing_import \<and> state_of s = Some Validated \<and> source_artifact_required s
          \<and> source_sha256 s = Some src \<and> source_artifact_sha256 s = Some src \<and> source_artifact_bytes s = Some bytes
          \<and> (source_artifact_state s = Some Retaining \<or> source_artifact_state s = Some Retained)
          \<and> (source_spool_path s = Some queued \<or> source_spool_path s = Some retained
              \<or> source_artifact_retained_path s = Some retained)
          \<and> cutoff_date s = cutoff) (s_snapshots db) of
       [] \<Rightarrow> Inr None | [s] \<Rightarrow> Inr (Some s) | _ \<Rightarrow> Inl SalesGenerationConflictError)"

section \<open>Claims\<close>

definition claim_validated_sales_generation ::
  "(string \<Rightarrow> string) \<Rightarrow> nat \<Rightarrow> string \<Rightarrow> string \<Rightarrow> string \<Rightarrow> int \<Rightarrow> instant \<Rightarrow> sales_db \<Rightarrow> (sales_error, sales_db \<times> string) result" where
  "claim_validated_sales_generation sha i tk m_sha new_owner lease_seconds now db =
     (if lease_seconds < 60 then Inl SalesValueError
      else let P = (\<lambda>s. sn_id s = i \<and> generation_token s = tk \<and> manifest_sha256 s = Some m_sha
            \<and> sn_status s = Processing_import \<and> state_of s = Some Validated
            \<and> (\<not> source_artifact_required s \<or> source_artifact_state s = Some Retained))
      in case List.find P (s_snapshots db) of None \<Rightarrow> Inl SalesGenerationConflictError
       | Some c \<Rightarrow> res_bind (update_snapshots sha P
           (\<lambda>s. set_state Promoting (s\<lparr>owner_id := new_owner, heartbeat_at := now,
              lease_until := Some (now + seconds lease_seconds)\<rparr>)) db) (\<lambda>db'. Inr (db', owner_id c)))"

definition restore_sales_generation_claim ::
  "(string \<Rightarrow> string) \<Rightarrow> nat \<Rightarrow> string \<Rightarrow> string \<Rightarrow> string \<Rightarrow> instant \<Rightarrow> sales_db \<Rightarrow> (sales_error, sales_db) result" where
  "restore_sales_generation_claim sha i tk current previous now db = fenced_update sha
     (\<lambda>s. owned i tk current s \<and> state_of s = Some Promoting)
     (\<lambda>s. set_state Validated (s\<lparr>owner_id := previous, heartbeat_at := now\<rparr>)) db"

section \<open>Promotion\<close>

record stage_controls =
  ct_row_count :: nat
  ct_store_count :: nat
  ct_total_quantity :: int
  ct_total_value :: int
  ct_max_sale_date :: "sale_day option"

definition controls_of :: "stage_row list \<Rightarrow> stage_controls" where
  "controls_of rows = \<lparr>ct_row_count = length rows, ct_store_count = length (remdups (map st_site rows)),
     ct_total_quantity = sum_list (map quantity rows), ct_total_value = sum_list (map total_value rows),
     ct_max_sale_date = (if rows = [] then None else Some (max_day (map sale_date rows)))\<rparr>"

definition controls_match :: "sales_manifest \<Rightarrow> stage_controls \<Rightarrow> bool" where
  "controls_match m c \<longleftrightarrow> int (ct_row_count c) = mf_rows_imported m \<and> ct_store_count c = mf_store_count m
     \<and> ct_total_quantity c = mf_total_quantity m \<and> ct_total_value c = mf_total_value m
     \<and> ct_max_sale_date c = Some (mf_max_sale_date m)"

text \<open>\<^verbatim>\<open>advance_sales_generation_head\<close>, with the triggers on the heads: compare and swap of the revision.\<close>

definition advance_sales_generation_head ::
  "(string \<Rightarrow> string) \<Rightarrow> string \<Rightarrow> nat \<Rightarrow> string \<Rightarrow> string \<Rightarrow> nat \<Rightarrow> instant \<Rightarrow> sales_db
    \<Rightarrow> (sales_error, sales_db \<times> nat option \<times> nat) result" where
  "advance_sales_generation_head sha month i tk ow expected now db =
     (if \<not> year_month_check month then Inl SalesPostgresError else
      case List.find (\<lambda>s. leased_to i tk ow now s \<and> sn_import_month s = month) (s_snapshots db) of
        None \<Rightarrow> Inl SalesPostgresError
      | Some s \<Rightarrow> (case manifest s of None \<Rightarrow> Inl SalesPostgresError | Some m \<Rightarrow>
          let actual = stage_digest sha i db in
          if state_of s = Some Promoted \<or> stage_rows_sha256 s \<noteq> Some actual \<or> mf_stage_rows_sha256 m \<noteq> Some actual
             \<or> \<not> controls_match m (controls_of (staged i db)) \<or> list_ex blocking (mf_anomalies m)
             \<or> staged i db = [] \<or> (source_artifact_required s \<and> \<not> artifact_exact s)
          then Inl SalesPostgresError
          else case head_of month db of
            None \<Rightarrow> if expected \<noteq> 0 then Inl SalesPostgresError
              else Inr (db\<lparr>s_heads := s_heads db @ [\<lparr>hd_import_month = month, hd_snapshot_id = i, hd_revision = 1\<rparr>]\<rparr>, None, 1)
          | Some h \<Rightarrow> if hd_revision h \<noteq> expected then Inl SalesPostgresError
              else Inr (db\<lparr>s_heads := upd_where (\<lambda>g. hd_import_month g = month)
                (\<lambda>g. g\<lparr>hd_snapshot_id := i, hd_revision := hd_revision h + 1\<rparr>) (s_heads db)\<rparr>,
                Some (hd_snapshot_id h), hd_revision h + 1)))"

definition advance_sales_head ::
  "(string \<Rightarrow> string) \<Rightarrow> string \<Rightarrow> nat \<Rightarrow> string \<Rightarrow> string \<Rightarrow> nat \<Rightarrow> instant \<Rightarrow> sales_db
    \<Rightarrow> (sales_error, sales_db \<times> nat option \<times> nat) result" where
  "advance_sales_head sha month i tk ow expected now db =
     (case advance_sales_generation_head sha month i tk ow expected now db of
        Inl _ \<Rightarrow> Inl SalesGenerationConflictError | Inr x \<Rightarrow> Inr x)"

definition upsert_store :: "string \<Rightarrow> bool \<Rightarrow> stage_row \<Rightarrow> store_info list \<Rightarrow> store_info list" where
  "upsert_store month current r stores = (if st_site r \<in> si_site ` set stores
     then upd_where (\<lambda>s. si_site s = st_site r)
       (\<lambda>s. s\<lparr>si_locatie := (if current then st_locatie r else si_locatie s), si_firma := (if current then st_firma r else si_firma s),
          si_regional := (if current then st_regional r else si_regional s), si_asm := (if current then st_asm r else si_asm s),
          first_seen_month := min (first_seen_month s) month, last_seen_month := max (last_seen_month s) month\<rparr>) stores
     else stores @ [\<lparr>si_site = st_site r, si_locatie = st_locatie r, si_firma = st_firma r, si_regional = st_regional r,
       si_asm = st_asm r, first_seen_month = month, last_seen_month = month, is_active = current\<rparr>])"

definition first_rows :: "stage_row list \<Rightarrow> stage_row list" where
  "first_rows rows = List.map_filter (\<lambda>c. List.find (\<lambda>r. st_site r = c) rows) (remdups (map st_site rows))"

definition latest_completed_month :: "sales_db \<Rightarrow> string option" where
  "latest_completed_month db = (case map sn_import_month (filter (\<lambda>s. sn_status s = Completed_import) (s_snapshots db)) of
     [] \<Rightarrow> None | m # ms \<Rightarrow> Some (fold max ms m))"

definition upsert_stores_from_stage :: "nat \<Rightarrow> string \<Rightarrow> sales_db \<Rightarrow> sales_db" where
  "upsert_stores_from_stage i month db =
     (let current = (case latest_completed_month db of None \<Rightarrow> True | Some m \<Rightarrow> m \<le> month)
      in db\<lparr>s_stores := fold (upsert_store month current) (first_rows (staged i db)) (s_stores db)\<rparr>)"

definition live_of :: "stage_row \<Rightarrow> live_row" where
  "live_of r = \<lparr>lv_import_month = st_import_month r, lv_sale_date = sale_date r, lv_site = st_site r, lv_bon_nr = bon_nr r,
     lv_item_code = item_code r, lv_item_name = item_name r, lv_brand = brand r, lv_category = category r,
     lv_subcategory = subcategory r, lv_quantity = quantity r, lv_unit_price = unit_price r, lv_total_value = total_value r,
     lv_agent = st_agent r, lv_is_cartela = st_is_cartela r, lv_is_return = st_is_return r, lv_snapshot_id = snapshot_id r\<rparr>"

definition copy_staged_generation_to_live :: "nat \<Rightarrow> string \<Rightarrow> sales_db \<Rightarrow> sales_db \<times> nat" where
  "copy_staged_generation_to_live i month db =
     (let rows = filter (\<lambda>r. st_import_month r = month) (staged i db)
      in (db\<lparr>s_live := s_live db @ map live_of rows\<rparr>, length rows))"

definition promoted_row :: "int \<Rightarrow> nat option \<Rightarrow> string \<Rightarrow> string option \<Rightarrow> instant \<Rightarrow> snapshot \<Rightarrow> snapshot" where
  "promoted_row n prev actor reason now s = set_state Promoted (s\<lparr>sn_status := Completed_import, rows_imported := Some n,
     previous_snapshot_id := prev, approved_by_sub := Some actor, override_reason := reason, promoted_at := Some now,
     heartbeat_at := now, finished_at := Some now, lease_until := Some now, error_message := None\<rparr>)"

text \<open>\<^verbatim>\<open>record_sales_generation_promotion\<close> under \<^verbatim>\<open>guard_sales_generation_promotion_mutation\<close>.\<close>

definition promotion_checks :: "promotion \<Rightarrow> sales_db \<Rightarrow> bool" where
  "promotion_checks p db \<longleftrightarrow>
     (case head_of (pm_import_month p) db of None \<Rightarrow> False
      | Some h \<Rightarrow> hd_snapshot_id h = to_snapshot_id p \<and> hd_revision h = head_revision p)
   \<and> (case get_snapshot (to_snapshot_id p) db of None \<Rightarrow> False
      | Some s \<Rightarrow> sn_import_month s = pm_import_month p \<and> sn_status s = Completed_import
          \<and> previous_snapshot_id s = from_snapshot_id p
          \<and> (let of_id = (case manifest s of None \<Rightarrow> None | Some m \<Rightarrow> rollback_of_snapshot_id m);
                 src = (case manifest s of None \<Rightarrow> None | Some m \<Rightarrow> rollback_source_snapshot_id m)
             in if pm_action p = ''promote'' then of_id = None \<and> src = None
                else pm_action p = ''rollback'' \<and> of_id = from_snapshot_id p \<and> src \<noteq> None
                  \<and> (case from_snapshot_id p of None \<Rightarrow> None
                     | Some j \<Rightarrow> (case get_snapshot j db of None \<Rightarrow> None | Some f \<Rightarrow> previous_snapshot_id f)) = src))
   \<and> 1 \<le> length (sql_btrim (requested_by_sub p)) \<and> length (sql_btrim (requested_by_sub p)) \<le> 256"

definition record_sales_generation_promotion :: "promotion \<Rightarrow> sales_db \<Rightarrow> (sales_error, sales_db) result" where
  "record_sales_generation_promotion p db = (if promotion_checks p db
     then Inr (db\<lparr>s_promotions := s_promotions db @ [p]\<rparr>) else Inl SalesPostgresError)"

record promotion_request =
  pr_snapshot_id :: nat
  pr_token :: string
  pr_owner :: string
  pr_manifest_sha256 :: string
  pr_requested_by :: string
  pr_override_reason :: "string option"
  pr_action :: string

text \<open>What a promotion takes from outside: digests, the time zone, the file checks, the event's identity and time.\<close>

record promotion_env =
  pe_sha :: "string \<Rightarrow> string"
  pe_payload_sha :: "outbox_payload \<Rightarrow> string"
  pe_bucharest_midnight :: "sale_day \<Rightarrow> instant"
  pe_artifact_ok :: bool
  pe_reporting_ok :: bool
  pe_event_id :: nat
  pe_occurred_at :: instant
  pe_now :: instant

definition artifact_ready :: "promotion_env \<Rightarrow> snapshot \<Rightarrow> (sales_error, unit) result" where
  "artifact_ready env s =
     (if \<not> source_artifact_required s then Inr ()
      else if source_artifact_state s \<noteq> Some Retained \<or> source_artifact_sha256 s \<noteq> source_sha256 s
         \<or> source_artifact_bytes s = None \<or> source_artifact_retained_path s = None \<or> source_artifact_retained_path s = Some []
        then Inl SalesGenerationValidationError
      else if \<not> pe_artifact_ok env then Inl SalesArtifactError else Inr ())"

definition verify_stage_controls :: "nat \<Rightarrow> sales_manifest \<Rightarrow> sales_db \<Rightarrow> (sales_error, unit) result" where
  "verify_stage_controls i m db =
     (if controls_match m (controls_of (staged i db)) then Inr () else Inl SalesGenerationValidationError)"

definition replace_live :: "promotion_env \<Rightarrow> nat \<Rightarrow> string \<Rightarrow> sales_manifest \<Rightarrow> sales_db \<Rightarrow> (sales_error, sales_db \<times> nat) result" where
  "replace_live env i month m db =
     (let db1 = upsert_stores_from_stage i month db;
          db2 = db1\<lparr>s_live := filter (\<lambda>r. lv_import_month r \<noteq> month) (s_live db1)\<rparr>;
          (db3, n) = copy_staged_generation_to_live i month db2
      in if int n \<noteq> mf_rows_imported m then Inl SalesGenerationValidationError
         else if \<not> pe_reporting_ok env then Inl SalesPostgresError else Inr (db3, n))"

definition sales_event_cutoff :: "promotion_env \<Rightarrow> snapshot \<Rightarrow> (sales_error, instant) result" where
  "sales_event_cutoff env s = (case cutoff_date s of None \<Rightarrow> Inl SalesGenerationValidationError
     | Some d \<Rightarrow> Inr (pe_bucharest_midnight env d))"

definition emit_promotion :: "promotion_env \<Rightarrow> snapshot \<Rightarrow> string \<Rightarrow> nat \<Rightarrow> sales_db \<Rightarrow> (sales_error, sales_db) result" where
  "emit_promotion env s m_sha revision db = res_bind (sales_event_cutoff env s) (\<lambda>cutoff.
     case emit_sales_generation_promoted (pe_payload_sha env) (pe_event_id env) (pe_now env)
       (''sales-'' @ sn_import_month s) m_sha (case source_sha256 s of None \<Rightarrow> ''None'' | Some h \<Rightarrow> h)
       (Aware cutoff) (sn_import_month s) (int revision) (Aware (pe_occurred_at env)) (s_outbox db) of
       Inl _ \<Rightarrow> Inl SalesOutboxError
     | Inr (ob, _) \<Rightarrow> Inr (db\<lparr>s_outbox := ob\<rparr>))"

definition promote_sales_generation ::
  "promotion_env \<Rightarrow> promotion_request \<Rightarrow> sales_db \<Rightarrow> (sales_error, sales_db \<times> nat \<times> nat) result" where
  "promote_sales_generation env rq db =
     (let actor = py_strip (pr_requested_by rq); i = pr_snapshot_id rq; now = pe_now env;
          reason = (case pr_override_reason rq of None \<Rightarrow> None | Some [] \<Rightarrow> None | Some t \<Rightarrow> Some (py_strip t)) in
      if actor = [] then Inl SalesValueError
      else if pr_action rq \<notin> {''promote'', ''rollback''} then Inl SalesValueError
      else case List.find (leased_to i (pr_token rq) (pr_owner rq) now) (s_snapshots db) of
        None \<Rightarrow> Inl SalesGenerationConflictError
      | Some s \<Rightarrow>
          if manifest_sha256 s \<noteq> Some (pr_manifest_sha256 rq) then Inl SalesGenerationConflictError
          else res_bind (artifact_ready env s) (\<lambda>_.
          case manifest s of None \<Rightarrow> Inl SalesValueError | Some m \<Rightarrow>
            if manifest_has_structural_contradictions m then Inl SalesGenerationValidationError
            else res_bind (verify_stage_controls i m db) (\<lambda>_.
            let month = sn_import_month s in
            res_bind (advance_sales_head (pe_sha env) month i (pr_token rq) (pr_owner rq) (expected_head_revision s) now db)
              (\<lambda>(db1, prev, revision).
            res_bind (replace_live env i month m db1) (\<lambda>(db2, n).
            res_bind (fenced_update (pe_sha env) (leased_to i (pr_token rq) (pr_owner rq) now)
              (promoted_row (int n) prev actor reason now) db2) (\<lambda>db3.
            res_bind (record_sales_generation_promotion \<lparr>pm_import_month = month, from_snapshot_id = prev, to_snapshot_id = i,
              head_revision = revision, pm_action = pr_action rq, requested_by_sub = actor, pm_override_reason = reason\<rparr> db3) (\<lambda>db4.
            res_bind (emit_promotion env s (pr_manifest_sha256 rq) revision db4) (\<lambda>db5.
              Inr (db5, n, revision)))))))))"

section \<open>Rollback\<close>

record rollback_request =
  rb_current_snapshot_id :: nat
  rb_current_token :: string
  rb_manifest_sha256 :: string
  rb_requested_by :: string
  rb_reason :: string

record rollback_ids =
  ri_snapshot_id :: nat
  ri_token :: string
  ri_owner :: string
  ri_manifest_json :: "sales_manifest \<Rightarrow> string"

definition operator_rollback :: anomaly where
  "operator_rollback = informational ''operator_rollback'' []"

definition rollback_manifest :: "sales_manifest \<Rightarrow> string \<Rightarrow> nat \<Rightarrow> nat \<Rightarrow> sales_manifest" where
  "rollback_manifest m digest current target = m\<lparr>generation_state := Some Validated, mf_stage_rows_sha256 := Some digest,
     rollback_of_snapshot_id := Some current, rollback_source_snapshot_id := Some target,
     mf_anomalies := [operator_rollback]\<rparr>"

definition rollback_snapshot ::
  "rollback_ids \<Rightarrow> nat \<Rightarrow> string \<Rightarrow> nat \<Rightarrow> snapshot \<Rightarrow> sales_manifest \<Rightarrow> string \<Rightarrow> instant \<Rightarrow> snapshot" where
  "rollback_snapshot ids current month revision source m m_sha now = source\<lparr>sn_id := ri_snapshot_id ids, sn_import_month := month,
     sn_filename := ''rollback:'' @ nat_digits current @ ''->'' @ nat_digits (sn_id source) @ CHR '':'' # sn_filename source,
     rows_in_file := (if rows_in_file source \<noteq> 0 then rows_in_file source else mf_rows_imported m),
     rows_imported := Some (mf_rows_imported m), sn_status := Processing_import,
     manifest := Some m, manifest_sha256 := Some m_sha, generation_token := ri_token ids, owner_id := ri_owner ids,
     lease_until := Some (now + seconds (2 * 60 * 60)), heartbeat_at := now, created_at := now,
     expected_head_revision := revision, previous_snapshot_id := Some current, stage_rows_sha256 := None,
     promoted_at := None, approved_by_sub := None, override_reason := None, finished_at := None, error_message := None\<rparr>"

text \<open>Copies of the retained rows under the new snapshot.\<close>

definition copied_stage :: "nat \<Rightarrow> nat \<Rightarrow> sales_db \<Rightarrow> stage_row list" where
  "copied_stage new target db = map (\<lambda>r. r\<lparr>snapshot_id := new\<rparr>) (staged target db)"

definition clone_generation ::
  "(string \<Rightarrow> string) \<Rightarrow> rollback_ids \<Rightarrow> nat \<Rightarrow> sales_head \<Rightarrow> snapshot \<Rightarrow> sales_manifest \<Rightarrow> string \<Rightarrow> string \<Rightarrow> instant \<Rightarrow> sales_db
    \<Rightarrow> (sales_error, sales_db) result" where
  "clone_generation sha ids current h source m m_sha digest now db =
     res_bind (insert_snapshot (rollback_snapshot ids current (hd_import_month h) (hd_revision h) source m m_sha now) db) (\<lambda>db1.
     res_bind (insert_stage (copied_stage (ri_snapshot_id ids) (sn_id source) db1) db1) (\<lambda>db2.
       update_snapshots sha (\<lambda>s. sn_id s = ri_snapshot_id ids \<and> stage_rows_sha256 s = None)
         (\<lambda>s. s\<lparr>stage_rows_sha256 := Some digest\<rparr>) db2))"

definition rollback_sales_generation ::
  "promotion_env \<Rightarrow> rollback_ids \<Rightarrow> rollback_request \<Rightarrow> sales_db \<Rightarrow> (sales_error, sales_db \<times> nat \<times> nat \<times> nat) result" where
  "rollback_sales_generation env ids rq db =
     (let actor = py_strip (rb_requested_by rq); reason = py_strip (rb_reason rq); cur = rb_current_snapshot_id rq in
      if actor = [] then Inl SalesValueError
      else if length reason < 10 then Inl SalesValueError
      else case (List.find (\<lambda>h. hd_snapshot_id h = cur) (s_heads db), get_snapshot cur db) of
        (Some h, Some c) \<Rightarrow>
          if generation_token c \<noteq> rb_current_token rq then Inl SalesGenerationConflictError
          else if manifest_sha256 c \<noteq> Some (rb_manifest_sha256 rq) then Inl SalesGenerationConflictError
          else (case previous_snapshot_id c of None \<Rightarrow> Inl SalesGenerationValidationError | Some target \<Rightarrow>
          (case get_snapshot target db of None \<Rightarrow> Inl SalesGenerationValidationError | Some source \<Rightarrow>
            if sn_import_month source \<noteq> hd_import_month h \<or> sn_status source \<noteq> Completed_import \<or> staged target db = []
            then Inl SalesGenerationValidationError
            else (case stage_rows_sha256 source of None \<Rightarrow> Inl SalesGenerationValidationError | Some digest \<Rightarrow>
              if length digest \<noteq> 64 then Inl SalesGenerationValidationError
              else (case manifest source of None \<Rightarrow> Inl SalesValueError | Some m0 \<Rightarrow>
                let m = rollback_manifest m0 digest cur target; m_sha = pe_sha env (ri_manifest_json ids m) in
                res_bind (clone_generation (pe_sha env) ids cur h source m m_sha digest (pe_now env) db) (\<lambda>db1.
                res_bind (promote_sales_generation env \<lparr>pr_snapshot_id = ri_snapshot_id ids, pr_token = ri_token ids,
                    pr_owner = ri_owner ids, pr_manifest_sha256 = m_sha, pr_requested_by = actor,
                    pr_override_reason = Some reason, pr_action = ''rollback''\<rparr> db1) (\<lambda>(db2, n, revision).
                  Inr (db2, ri_snapshot_id ids, n, revision)))))))
      | _ \<Rightarrow> Inl SalesGenerationConflictError)"

section \<open>Recovery at startup\<close>

text \<open>
  \<^verbatim>\<open>_IMPORT_RECOVERY_SQL_1\<close> and \<^verbatim>\<open>_2\<close>: an expired claim goes back to validated under a fresh owner, an
  expired staging is closed. \<open>uuid\<close> gives each row its new owner.
\<close>

definition recover_claims :: "(string \<Rightarrow> string) \<Rightarrow> (nat \<Rightarrow> string) \<Rightarrow> instant \<Rightarrow> sales_db \<Rightarrow> (sales_error, sales_db) result" where
  "recover_claims sha uuid now db = update_snapshots sha
     (\<lambda>s. sn_status s = Processing_import \<and> state_of s = Some Promoting \<and> source_artifact_state s = None \<and> lease_lost now s)
     (\<lambda>s. set_state Validated (s\<lparr>owner_id := uuid (sn_id s), lease_until := Some (now + seconds (2 * 60 * 60)),
        heartbeat_at := now, finished_at := None,
        error_message := Some ''Promovarea a fost intrerupta de restart; retry permis'',
        rows_imported := (case manifest s of None \<Rightarrow> rows_imported s | Some m \<Rightarrow> Some (mf_rows_imported m))\<rparr>)) db"

definition close_interrupted :: "(string \<Rightarrow> string) \<Rightarrow> instant \<Rightarrow> sales_db \<Rightarrow> (sales_error, sales_db) result" where
  "close_interrupted sha now db = update_snapshots sha
     (\<lambda>s. sn_status s = Processing_import \<and> \<not> open_generation s
        \<and> source_artifact_state s \<noteq> Some Retaining \<and> source_artifact_state s \<noteq> Some Retained \<and> lease_lost now s)
     (close_row ''Import intrerupt de restartul workerului; retry permis'' now) db"

definition reconcile_interrupted_imports :: "(string \<Rightarrow> string) \<Rightarrow> (nat \<Rightarrow> string) \<Rightarrow> instant \<Rightarrow> sales_db \<Rightarrow> (sales_error, sales_db) result" where
  "reconcile_interrupted_imports sha uuid now db = res_bind (recover_claims sha uuid now db) (close_interrupted sha now)"

text \<open>The outcome of retaining the source of an interrupted import again, for one candidate.\<close>

datatype retain_outcome = RetainedAt string int | ArtifactBroken string | FilesystemBusy string

definition has_artifact :: "snapshot \<Rightarrow> bool" where
  "has_artifact s \<longleftrightarrow> source_artifact_state s = Some Retaining \<or> source_artifact_state s = Some Retained"

definition back_to_validated :: "snapshot \<Rightarrow> snapshot" where
  "back_to_validated s = (if state_of s = Some Promoting then set_state Validated s else s)"

definition recover_retained :: "string \<Rightarrow> string \<Rightarrow> int \<Rightarrow> instant \<Rightarrow> snapshot \<Rightarrow> snapshot" where
  "recover_retained path src bytes now s =
     (let r = retained_row path src bytes now (back_to_validated s) in
      if open_generation s then r\<lparr>lease_until := Some (now + seconds (2 * 60 * 60))\<rparr>
      else r\<lparr>sn_status := Failed_import, rows_imported := Some 0,
        error_message := Some ''Import interrupted before validation; exact-source retry permitted'',
        finished_at := Some now, lease_until := Some now\<rparr>)"

definition recover_broken :: "string \<Rightarrow> instant \<Rightarrow> snapshot \<Rightarrow> snapshot" where
  "recover_broken msg now s = s\<lparr>sn_status := Failed_import, rows_imported := Some 0, error_message := Some msg,
     finished_at := Some now, heartbeat_at := now, lease_until := Some now, source_artifact_state := Some RecoveryRequired\<rparr>"

definition recover_busy :: "string \<Rightarrow> instant \<Rightarrow> snapshot \<Rightarrow> snapshot" where
  "recover_busy msg now s =
     (let keep = (source_artifact_state s = Some Retained) in
      (back_to_validated s)\<lparr>source_artifact_state := (if keep then source_artifact_state s else None),
        source_artifact_sha256 := (if keep then source_artifact_sha256 s else None),
        source_artifact_bytes := (if keep then source_artifact_bytes s else None),
        source_artifact_retained_at := (if keep then source_artifact_retained_at s else None),
        source_artifact_retained_path := (if keep then source_artifact_retained_path s else None),
        error_message := Some msg, heartbeat_at := now, lease_until := Some now\<rparr>)"

definition reconcile_sales_artifact ::
  "(string \<Rightarrow> string) \<Rightarrow> snapshot \<Rightarrow> retain_outcome \<Rightarrow> instant \<Rightarrow> sales_db \<Rightarrow> (sales_error, sales_db) result" where
  "reconcile_sales_artifact sha c oc now db =
     (let own = owned (sn_id c) (generation_token c) (owner_id c) in
      case oc of
        RetainedAt path bytes \<Rightarrow> update_snapshots sha (\<lambda>s. own s \<and> has_artifact s)
          (recover_retained path (case source_sha256 c of None \<Rightarrow> ''None'' | Some h \<Rightarrow> h) bytes now) db
      | ArtifactBroken kind \<Rightarrow> update_snapshots sha own (recover_broken (''Sales artifact recovery required: '' @ kind) now) db
      | FilesystemBusy kind \<Rightarrow> update_snapshots sha own (recover_busy (''Sales artifact retain retryable: '' @ kind) now) db)"

section \<open>Lineage of derived work\<close>

datatype lineage = Current | Superseded

definition guard_sales_generation_lineage :: "string \<Rightarrow> string \<Rightarrow> int \<Rightarrow> sales_db \<Rightarrow> (string, lineage) result" where
  "guard_sales_generation_lineage month generation_hash sales_revision db =
     (case head_of month db of None \<Rightarrow> Inl ''Authoritative sales generation is unavailable''
      | Some h \<Rightarrow> (case get_snapshot (hd_snapshot_id h) db of
          None \<Rightarrow> Inl ''Authoritative sales generation is unavailable''
        | Some s \<Rightarrow>
            let current_hash = (case manifest_sha256 s of None \<Rightarrow> [] | Some x \<Rightarrow> x); current_revision = int (hd_revision h) in
            if sales_revision < current_revision then Inr Superseded
            else if current_revision < sales_revision then Inl ''Requested sales generation is ahead of the head''
            else if current_hash \<noteq> generation_hash then Inl ''Sales generation hash differs at the same revision''
            else Inr Current))"

end
