(* ===== verification/Sales_Invariants.thy ===== *)
theory Sales_Invariants
  imports Sales_Flow Outbox_Correctness
begin

text \<open>
  The machine of the sales generations, whose steps are the transactions of \<^verbatim>\<open>Sales_Flow\<close> and those of
  the outbox, and its invariant: the live sales of a month are the staged rows of its head, the ledger
  counts the head's revisions, and every promotion has its event.
\<close>

section \<open>The machine\<close>

definition sales_empty :: "sales_db \<Rightarrow> bool" where
  "sales_empty db \<longleftrightarrow> s_snapshots db = [] \<and> s_stage db = [] \<and> s_heads db = [] \<and> s_promotions db = [] \<and> s_live db = []
     \<and> outbox_empty (s_outbox db)"

inductive sales_step :: "(string \<Rightarrow> string) \<Rightarrow> sales_db \<Rightarrow> sales_db \<Rightarrow> bool" for sha where
  sg_reserve: "reserve_snapshot sha i month rv final now db = Inr (db', j) \<Longrightarrow> sales_step sha db db'"
| sg_coverage: "record_coverage_report sha i report now db = Inr db' \<Longrightarrow> sales_step sha db db'"
| sg_heartbeat: "fenced_generation_heartbeat sha i tk ow secs now db = Inr db' \<Longrightarrow> sales_step sha db db'"
| sg_validate: "validate_and_stage_generation env ls month cutoff digest n k i tk ow cov report now db = Inr (db', x)
    \<Longrightarrow> env_sha env = sha \<Longrightarrow> sales_step sha db db'"
| sg_fail: "fail_sales_generation sha i tk ow msg now db = Inr db' \<Longrightarrow> sales_step sha db db'"
| sg_attach: "attach_sales_generation_source sha i tk ow path src bytes now db = Inr db' \<Longrightarrow> sales_step sha db db'"
| sg_retained: "mark_sales_generation_artifact_retained sha i tk ow path src b now db = Inr db' \<Longrightarrow> sales_step sha db db'"
| sg_claim: "claim_validated_sales_generation sha i tk m_sha ow secs now db = Inr (db', prev) \<Longrightarrow> sales_step sha db db'"
| sg_restore: "restore_sales_generation_claim sha i tk ow prev now db = Inr db' \<Longrightarrow> sales_step sha db db'"
| sg_promote: "promote_sales_generation penv rq db = Inr (db', x) \<Longrightarrow> pe_sha penv = sha \<Longrightarrow> pr_action rq = ''promote''
    \<Longrightarrow> sales_step sha db db'"
| sg_rollback: "rollback_sales_generation penv ids rb db = Inr (db', x) \<Longrightarrow> pe_sha penv = sha \<Longrightarrow> sales_step sha db db'"
| sg_reconcile: "reconcile_interrupted_imports sha uuid now db = Inr db' \<Longrightarrow> sales_step sha db db'"
| sg_artifact: "reconcile_sales_artifact sha c oc now db = Inr db' \<Longrightarrow> sales_step sha db db'"
| sg_outbox: "outbox_step (s_outbox db) ob \<Longrightarrow> sales_step sha db (db\<lparr>s_outbox := ob\<rparr>)"

section \<open>The invariant\<close>

definition head_ok :: "sales_db \<Rightarrow> sales_head \<Rightarrow> bool" where
  "head_ok db h \<longleftrightarrow> (\<exists>s. get_snapshot (hd_snapshot_id h) db = Some s \<and> sn_import_month s = hd_import_month h
       \<and> sn_status s = Completed_import \<and> stage_rows_sha256 s \<noteq> None)
     \<and> (\<forall>r \<in> set (staged (hd_snapshot_id h) db). st_import_month r = hd_import_month h)
     \<and> filter (\<lambda>r. lv_import_month r = hd_import_month h) (s_live db) = map live_of (staged (hd_snapshot_id h) db)"

definition ledger_of :: "string \<Rightarrow> sales_db \<Rightarrow> promotion list" where
  "ledger_of m db = filter (\<lambda>p. pm_import_month p = m) (s_promotions db)"

definition head_revision_of :: "sales_db \<Rightarrow> string \<Rightarrow> nat" where
  "head_revision_of db m = (case head_of m db of None \<Rightarrow> 0 | Some h \<Rightarrow> hd_revision h)"

definition ledger_ok :: "sales_db \<Rightarrow> string \<Rightarrow> bool" where
  "ledger_ok db m \<longleftrightarrow> map head_revision (ledger_of m db) = [1..<Suc (head_revision_of db m)]
     \<and> (case head_of m db of None \<Rightarrow> True | Some h \<Rightarrow> ledger_of m db \<noteq> [] \<and> to_snapshot_id (last (ledger_of m db)) = hd_snapshot_id h)"

definition announced :: "sales_db \<Rightarrow> promotion \<Rightarrow> bool" where
  "announced db p \<longleftrightarrow> (\<exists>s. get_snapshot (to_snapshot_id p) db = Some s \<and> sn_status s = Completed_import
     \<and> (\<exists>e \<in> set (db_events (s_outbox db)). ev_aggregate_id e = ''sales-'' @ pm_import_month p
       \<and> ev_revision e = int (head_revision p) \<and> manifest_sha256 s = Some (ev_generation_hash e)))"

definition snapshot_ok :: "(string \<Rightarrow> string) \<Rightarrow> sales_db \<Rightarrow> snapshot \<Rightarrow> bool" where
  "snapshot_ok sha db s \<longleftrightarrow> (\<forall>d. stage_rows_sha256 s = Some d \<longrightarrow> d = stage_digest sha (sn_id s) db)"

definition processing_months :: "snapshot list \<Rightarrow> string list" where
  "processing_months ss = map sn_import_month (filter (\<lambda>s. sn_status s = Processing_import) ss)"

definition sales_inv :: "(string \<Rightarrow> string) \<Rightarrow> sales_db \<Rightarrow> bool" where
  "sales_inv sha db \<longleftrightarrow> distinct (map sn_id (s_snapshots db)) \<and> distinct (processing_months (s_snapshots db))
     \<and> distinct (map hd_import_month (s_heads db)) \<and> distinct (map stage_key (s_stage db))
     \<and> (\<forall>s \<in> set (s_snapshots db). snapshot_ok sha db s)
     \<and> (\<forall>r \<in> set (s_stage db). snapshot_id r \<in> sn_id ` set (s_snapshots db))
     \<and> (\<forall>h \<in> set (s_heads db). head_ok db h)
     \<and> (\<forall>r \<in> set (s_live db). lv_import_month r \<in> hd_import_month ` set (s_heads db))
     \<and> (\<forall>m. ledger_ok db m) \<and> (\<forall>p \<in> set (s_promotions db). announced db p)"

lemma sales_invD:
  assumes "sales_inv sha db"
  shows "distinct (map sn_id (s_snapshots db))" and "distinct (processing_months (s_snapshots db))"
    and "distinct (map hd_import_month (s_heads db))" and "distinct (map stage_key (s_stage db))"
    and "s \<in> set (s_snapshots db) \<Longrightarrow> snapshot_ok sha db s"
    and "r \<in> set (s_stage db) \<Longrightarrow> snapshot_id r \<in> sn_id ` set (s_snapshots db)"
    and "h \<in> set (s_heads db) \<Longrightarrow> head_ok db h"
    and "lr \<in> set (s_live db) \<Longrightarrow> lv_import_month lr \<in> hd_import_month ` set (s_heads db)"
    and "ledger_ok db m" and "p \<in> set (s_promotions db) \<Longrightarrow> announced db p"
  using assms by (auto simp: sales_inv_def)

lemma sales_inv_empty: "sales_empty db \<Longrightarrow> sales_inv sha db"
  by (auto simp: sales_empty_def sales_inv_def processing_months_def ledger_ok_def ledger_of_def head_revision_of_def head_of_def)

section \<open>Updates of snapshots\<close>

text \<open>What an update does to a row: only rows in processing change, and a digest set is that of the staged rows.\<close>

definition row_step :: "(string \<Rightarrow> string) \<Rightarrow> sales_db \<Rightarrow> snapshot \<Rightarrow> snapshot \<Rightarrow> bool" where
  "row_step sha db s t \<longleftrightarrow> t = s \<or> sn_status s = Processing_import \<and> sn_id t = sn_id s \<and> sn_import_month t = sn_import_month s
     \<and> (stage_rows_sha256 t = stage_rows_sha256 s \<or> stage_rows_sha256 t = Some (stage_digest sha (sn_id s) db))"

definition quiet :: "(snapshot \<Rightarrow> bool) \<Rightarrow> (snapshot \<Rightarrow> snapshot) \<Rightarrow> bool" where
  "quiet P f \<longleftrightarrow> (\<forall>s. P s \<longrightarrow> sn_status s = Processing_import \<and> sn_id (f s) = sn_id s \<and> sn_import_month (f s) = sn_import_month s
     \<and> (stage_rows_sha256 (f s) = stage_rows_sha256 s \<or> manifest_sha256 s \<noteq> None))"

lemma guard_snapshot_Inr:
  assumes "guard_snapshot sha db old new = Inr n"
  shows "n = new \<or> n = new\<lparr>stage_rows_sha256 := Some (stage_digest sha (sn_id new) db)\<rparr>"
    and "stage_rows_sha256 new \<noteq> stage_rows_sha256 old \<Longrightarrow> manifest_sha256 old \<noteq> None
      \<Longrightarrow> stage_rows_sha256 n = Some (stage_digest sha (sn_id new) db)"
  using assms
  by (auto simp: guard_snapshot_def guard_provenance_def Let_def res_simps split: if_splits option.splits)

lemma map_rows_Inr: "map_rows g rs = Inr rs' \<longleftrightarrow> list_all2 (\<lambda>r r'. g r = Inr r') rs rs'"
proof (induction rs arbitrary: rs')
  case Nil
  then show ?case by (cases rs') auto
next
  case (Cons r rs)
  then show ?case by (cases rs') (auto simp: res_simps)
qed

lemma update_snapshots_rows:
  assumes "update_snapshots sha P f db = Inr db'"
  obtains t where "db' = db\<lparr>s_snapshots := t\<rparr>"
    and "list_all2 (\<lambda>s s'. if P s then guard_snapshot sha db s (f s) = Inr s' else s' = s) (s_snapshots db) t"
proof -
  from assms obtain t where t: "map_rows (\<lambda>s. if P s then guard_snapshot sha db s (f s) else Inr s) (s_snapshots db) = Inr t"
    "db' = db\<lparr>s_snapshots := t\<rparr>" by (auto simp: update_snapshots_def res_simps)
  have "list_all2 (\<lambda>s s'. if P s then guard_snapshot sha db s (f s) = Inr s' else s' = s) (s_snapshots db) t"
    using t(1) unfolding map_rows_Inr by (rule list_all2_mono) (auto split: if_splits)
  with t(2) show ?thesis using that by blast
qed

lemma quiet_update:
  assumes "update_snapshots sha P f db = Inr db'" and "quiet P f"
  obtains t where "db' = db\<lparr>s_snapshots := t\<rparr>" and "list_all2 (row_step sha db) (s_snapshots db) t"
proof -
  from assms(1) obtain t where t: "db' = db\<lparr>s_snapshots := t\<rparr>"
    and rel: "list_all2 (\<lambda>s s'. if P s then guard_snapshot sha db s (f s) = Inr s' else s' = s) (s_snapshots db) t"
    by (rule update_snapshots_rows)
  have "row_step sha db s s'" if "if P s then guard_snapshot sha db s (f s) = Inr s' else s' = s" for s s'
  proof (cases "P s")
    case True
    with assms(2) have q: "sn_status s = Processing_import" "sn_id (f s) = sn_id s" "sn_import_month (f s) = sn_import_month s"
      "stage_rows_sha256 (f s) = stage_rows_sha256 s \<or> manifest_sha256 s \<noteq> None"
      by (auto simp: quiet_def)
    from that True have g: "guard_snapshot sha db s (f s) = Inr s'" by simp
    from guard_snapshot_Inr(1) [OF g] have "sn_id s' = sn_id s" "sn_import_month s' = sn_import_month s" using q by auto
    moreover from guard_snapshot_Inr [OF g] q
    have "stage_rows_sha256 s' = stage_rows_sha256 s \<or> stage_rows_sha256 s' = Some (stage_digest sha (sn_id s) db)" by auto
    ultimately show ?thesis using q by (simp add: row_step_def)
  qed (use that in \<open>simp add: row_step_def\<close>)
  with rel have "list_all2 (row_step sha db) (s_snapshots db) t" by (rule list_all2_mono)
  with t show ?thesis using that by blast
qed

section \<open>Frame lemmas\<close>

text \<open>Completed snapshots are kept with their staged rows: what heads and the ledger rest on.\<close>

definition keeps_done :: "sales_db \<Rightarrow> sales_db \<Rightarrow> bool" where
  "keeps_done db db' \<longleftrightarrow> (\<forall>i s. get_snapshot i db = Some s \<longrightarrow> sn_status s = Completed_import
     \<longrightarrow> get_snapshot i db' = Some s \<and> (stage_rows_sha256 s \<noteq> None \<longrightarrow> staged i db' = staged i db))"

lemma head_ok_frame:
  assumes "head_ok db h" and "keeps_done db db'"
    and "filter (\<lambda>r. lv_import_month r = hd_import_month h) (s_live db') = filter (\<lambda>r. lv_import_month r = hd_import_month h) (s_live db)"
  shows "head_ok db' h"
proof -
  from assms(1) obtain s where s: "get_snapshot (hd_snapshot_id h) db = Some s" "sn_status s = Completed_import"
    "stage_rows_sha256 s \<noteq> None" by (auto simp: head_ok_def)
  with assms(2) have "get_snapshot (hd_snapshot_id h) db' = Some s" "staged (hd_snapshot_id h) db' = staged (hd_snapshot_id h) db"
    by (auto simp: keeps_done_def)
  with assms(1,3) s show ?thesis by (auto simp: head_ok_def)
qed

lemma announced_frame:
  assumes "announced db p" and "keeps_done db db'"
    and "\<And>e. e \<in> set (db_events (s_outbox db)) \<Longrightarrow> \<exists>e' \<in> set (db_events (s_outbox db')). same_identity e e'"
  shows "announced db' p"
proof -
  from assms(1) obtain s e where s: "get_snapshot (to_snapshot_id p) db = Some s" "sn_status s = Completed_import"
    and e: "e \<in> set (db_events (s_outbox db))" "ev_aggregate_id e = ''sales-'' @ pm_import_month p"
      "ev_revision e = int (head_revision p)" "manifest_sha256 s = Some (ev_generation_hash e)"
    by (auto simp: announced_def)
  from assms(3) [OF e(1)] obtain e' where "e' \<in> set (db_events (s_outbox db'))" "same_identity e e'" by blast
  moreover from s assms(2) have "get_snapshot (to_snapshot_id p) db' = Some s" by (auto simp: keeps_done_def)
  ultimately show ?thesis using s e by (auto simp: announced_def same_identity_def)
qed

lemma ledger_ok_same: "s_promotions db' = s_promotions db \<Longrightarrow> s_heads db' = s_heads db \<Longrightarrow> ledger_ok db' m = ledger_ok db m"
  by (simp add: ledger_ok_def ledger_of_def head_revision_of_def head_of_def cong: option.case_cong del: upt_Suc)

lemma row_step_fields:
  assumes "row_step sha db s t"
  shows "sn_id t = sn_id s" and "sn_import_month t = sn_import_month s"
    and "sn_status t = Processing_import \<Longrightarrow> sn_status s = Processing_import"
    and "sn_status s = Completed_import \<Longrightarrow> t = s"
  using assms by (auto simp: row_step_def)

lemma rows_ids: "list_all2 (row_step sha db) ss ts \<Longrightarrow> map sn_id ts = map sn_id ss"
  by (induction rule: list_all2_induct) (auto simp: row_step_fields)

lemma processing_months_Cons: "processing_months (s # ss) =
    (if sn_status s = Processing_import then sn_import_month s # processing_months ss else processing_months ss)"
  by (simp add: processing_months_def)

lemma rows_processing:
  "list_all2 (row_step sha db) ss ts \<Longrightarrow> distinct (processing_months ss)
    \<Longrightarrow> distinct (processing_months ts) \<and> set (processing_months ts) \<subseteq> set (processing_months ss)"
proof (induction rule: list_all2_induct)
  case (Cons s ss t ts)
  then show ?case using row_step_fields(2,3) [of sha db s t]
    by (cases "sn_status t = Processing_import") (auto simp: processing_months_Cons split: if_splits)
qed simp

lemma rows_get:
  assumes "list_all2 (row_step sha db) ss ts" and "row_by sn_id i ss = Some s"
  shows "\<exists>t. row_by sn_id i ts = Some t \<and> row_step sha db s t"
  by (rule row_by_list_all2 [OF assms(1) _ assms(2)]) (rule row_step_fields(1))

text \<open>The row that an update writes for a snapshot it selects.\<close>

lemma updated_row:
  assumes "update_snapshots sha P f db = Inr db'" and "get_snapshot i db = Some s" and "P s" and "\<And>u. sn_id (f u) = sn_id u"
  shows "\<exists>t. get_snapshot i db' = Some t \<and> guard_snapshot sha db s (f s) = Inr t"
proof -
  let ?R = "\<lambda>s s'. if P s then guard_snapshot sha db s (f s) = Inr s' else s' = s"
  from assms(1) obtain t where t: "db' = db\<lparr>s_snapshots := t\<rparr>" "list_all2 ?R (s_snapshots db) t"
    by (rule update_snapshots_rows)
  have "sn_id u' = sn_id u" if r: "?R u u'" for u u'
  proof (cases "P u")
    case True
    with r have "guard_snapshot sha db u (f u) = Inr u'" by simp
    from guard_snapshot_Inr(1) [OF this] assms(4) [of u] show ?thesis by auto
  qed (use r in simp)
  then have "\<exists>u. row_by sn_id i t = Some u \<and> ?R s u"
    by (rule row_by_list_all2 [OF t(2)]) (use assms(2) in \<open>simp_all add: get_snapshot_def\<close>)
  then obtain u where "row_by sn_id i t = Some u" "?R s u" by blast
  with assms(3) show ?thesis by (simp add: get_snapshot_def t(1))
qed

lemma keeps_done_rows:
  assumes "list_all2 (row_step sha db0) (s_snapshots db) (s_snapshots db')" and "s_stage db' = s_stage db"
  shows "keeps_done db db'"
  using rows_get [OF assms(1)] assms(2)
  by (fastforce simp: keeps_done_def get_snapshot_def staged_def dest: row_step_fields(4))

lemma snapshot_ok_row: "row_step sha db s t \<Longrightarrow> snapshot_ok sha db s \<Longrightarrow> s_stage db' = s_stage db \<Longrightarrow> snapshot_ok sha db' t"
  by (auto simp: snapshot_ok_def row_step_def stage_digest_def)

lemma inv_rows:
  assumes inv: "sales_inv sha db" and rows: "list_all2 (row_step sha db) (s_snapshots db) t"
  shows "sales_inv sha (db\<lparr>s_snapshots := t\<rparr>)"
proof -
  let ?db' = "db\<lparr>s_snapshots := t\<rparr>"
  note old = sales_invD [OF inv]
  have kd: "keeps_done db ?db'" by (rule keeps_done_rows) (use rows in auto)
  have ids: "map sn_id t = map sn_id (s_snapshots db)" by (rule rows_ids [OF rows])
  then have ids': "sn_id ` set t = sn_id ` set (s_snapshots db)" by (metis set_map)
  have "snapshot_ok sha ?db' s'" if "s' \<in> set t" for s'
  proof -
    from that rows obtain s where "s \<in> set (s_snapshots db)" "row_step sha db s s'"
      by (metis in_set_conv_nth list_all2_conv_all_nth)
    then show ?thesis using snapshot_ok_row [of sha db s s' ?db'] old(5) by simp
  qed
  moreover have "head_ok ?db' h" if "h \<in> set (s_heads db)" for h
    using head_ok_frame [OF old(7) [OF that] kd] by simp
  moreover have "announced ?db' p" if "p \<in> set (s_promotions db)" for p
    by (rule announced_frame [OF old(10) [OF that] kd]) (auto intro: same_identity_refl)
  moreover have "ledger_ok ?db' m" for m
    using old(9) [of m] ledger_ok_same [of ?db' db m] by simp
  ultimately show ?thesis
    using old(1,3,4,6,8) ids ids' rows_processing [OF rows old(2)] by (simp add: sales_inv_def)
qed

lemma sales_inv_update: "update_snapshots sha P f db = Inr db' \<Longrightarrow> quiet P f \<Longrightarrow> sales_inv sha db \<Longrightarrow> sales_inv sha db'"
  by (erule quiet_update) (auto intro: inv_rows)

lemma inv_fenced: "fenced_update sha P f db = Inr db' \<Longrightarrow> quiet P f \<Longrightarrow> sales_inv sha db \<Longrightarrow> sales_inv sha db'"
  by (auto simp: fenced_update_def split: if_splits intro: sales_inv_update)

section \<open>Insertions\<close>

lemma insert_snapshot_Inr:
  assumes "insert_snapshot s db = Inr db'"
  shows "db' = db\<lparr>s_snapshots := s_snapshots db @ [s]\<rparr>" and "sn_id s \<notin> sn_id ` set (s_snapshots db)"
    and "sn_status s = Processing_import \<Longrightarrow> sn_import_month s \<notin> set (processing_months (s_snapshots db))"
  using assms by (auto simp: insert_snapshot_def processing_months_def list_ex_iff split: if_splits)

lemma inv_insert_snapshot:
  assumes inv: "sales_inv sha db" and ins: "insert_snapshot s db = Inr db'" and "stage_rows_sha256 s = None"
  shows "sales_inv sha db'"
proof -
  note old = sales_invD [OF inv] and ins = insert_snapshot_Inr [OF ins]
  have kd: "keeps_done db db'"
    by (auto simp: keeps_done_def get_snapshot_def row_by_append ins(1) staged_def split: option.splits)
  have "head_ok db' h" if "h \<in> set (s_heads db)" for h
    using head_ok_frame [OF old(7) [OF that] kd] ins(1) by simp
  moreover have "announced db' p" if "p \<in> set (s_promotions db)" for p
    by (rule announced_frame [OF old(10) [OF that] kd]) (auto simp: ins(1) intro: same_identity_refl)
  moreover have "ledger_ok db' m" for m
    using old(9) [of m] ledger_ok_same [of db' db m] ins(1) by simp
  moreover have "snapshot_ok sha db' u" if "u \<in> set (s_snapshots db')" for u
    using that old(5) [of u] assms(3) ins(1) by (auto simp: snapshot_ok_def stage_digest_def)
  ultimately show ?thesis
    using old(1,2,3,4,6,8) ins(2,3) by (auto simp: sales_inv_def ins(1) processing_months_def)
qed

lemma insert_stage_Inr:
  assumes "insert_stage rows db = Inr db'"
  shows "db' = db\<lparr>s_stage := s_stage db @ rows\<rparr>" and "distinct (map stage_key rows)"
    and "stage_key ` set rows \<inter> stage_key ` set (s_stage db) = {}" and "r \<in> set rows \<Longrightarrow> guard_stage_row db r"
proof -
  from assms have "db' = db\<lparr>s_stage := s_stage db @ rows\<rparr> \<and> distinct (map stage_key rows) \<and> list_all (guard_stage_row db) rows
      \<and> list_all (\<lambda>r. stage_key r \<notin> stage_key ` set (s_stage db)) rows"
    by (simp add: insert_stage_def split: if_splits)
  then show "db' = db\<lparr>s_stage := s_stage db @ rows\<rparr>" and "distinct (map stage_key rows)"
    and "stage_key ` set rows \<inter> stage_key ` set (s_stage db) = {}" and "r \<in> set rows \<Longrightarrow> guard_stage_row db r"
    unfolding list_all_iff by blast+
qed

lemma guard_stage_rowD:
  assumes "guard_stage_row db r"
  shows "\<exists>s. get_snapshot (snapshot_id r) db = Some s \<and> sn_status s = Processing_import \<and> stage_rows_sha256 s = None"
  using assms by (auto simp: guard_stage_row_def split: option.splits)

lemma staged_other:
  assumes "\<forall>r \<in> set rows. snapshot_id r = i" and "j \<noteq> i"
  shows "staged j (db\<lparr>s_stage := s_stage db @ rows\<rparr>) = staged j db"
    and "stage_digest sha j (db\<lparr>s_stage := s_stage db @ rows\<rparr>) = stage_digest sha j db"
proof -
  have "filter (\<lambda>r. snapshot_id r = j) rows = []" using assms by (auto simp: filter_empty_conv)
  then show "staged j (db\<lparr>s_stage := s_stage db @ rows\<rparr>) = staged j db"
    and "stage_digest sha j (db\<lparr>s_stage := s_stage db @ rows\<rparr>) = stage_digest sha j db"
    by (simp_all add: staged_def stage_digest_def)
qed

lemma inv_insert_stage:
  assumes inv: "sales_inv sha db" and ins: "insert_stage rows db = Inr db'" and rows: "\<forall>r \<in> set rows. snapshot_id r = i"
  shows "sales_inv sha db'"
proof (cases "rows = []")
  case True
  with insert_stage_Inr(1) [OF ins] inv show ?thesis by simp
next
  case False
  note old = sales_invD [OF inv]
  note db' = insert_stage_Inr(1) [OF ins] and keys = insert_stage_Inr(2,3) [OF ins]
  from False rows insert_stage_Inr(4) [OF ins, of "hd rows"] guard_stage_rowD [of db "hd rows"]
  obtain s where s: "get_snapshot i db = Some s" "sn_status s = Processing_import" "stage_rows_sha256 s = None" by auto
  have other: "j \<noteq> i \<Longrightarrow> staged j db' = staged j db \<and> stage_digest sha j db' = stage_digest sha j db" for j
    using staged_other [OF rows] db' by blast
  have snap: "get_snapshot j db' = get_snapshot j db" for j by (simp add: db' get_snapshot_def)
  have kd: "keeps_done db db'"
    using other s by (auto simp: keeps_done_def snap) (metis import_status.distinct(1) option.inject)
  have "head_ok db' h" if "h \<in> set (s_heads db)" for h
    using head_ok_frame [OF old(7) [OF that] kd] db' by simp
  moreover have "announced db' p" if "p \<in> set (s_promotions db)" for p
    by (rule announced_frame [OF old(10) [OF that] kd]) (auto simp: db' intro: same_identity_refl)
  moreover have "ledger_ok db' m" for m
    using old(9) [of m] ledger_ok_same [of db' db m] db' by simp
  moreover have "snapshot_ok sha db' u" if u: "u \<in> set (s_snapshots db)" for u
  proof (cases "sn_id u = i")
    case True
    with u s old(1) have "u = s" unfolding get_snapshot_def
      by (metis row_by_unique option.inject)
    with s show ?thesis by (simp add: snapshot_ok_def)
  next
    case False
    then show ?thesis using old(5) [OF u] other by (simp add: snapshot_ok_def)
  qed
  moreover have "i \<in> sn_id ` set (s_snapshots db)" using s row_by_SomeD [of sn_id i "s_snapshots db" s]
    by (auto simp: get_snapshot_def)
  ultimately show ?thesis
    using old(1,2,3,4,6,8) keys rows by (auto simp: sales_inv_def db')
qed

section \<open>Promotion, taken apart\<close>

text \<open>The heads after an advance: the head of the month is replaced, the others stay.\<close>

definition head_moved :: "string \<Rightarrow> nat \<Rightarrow> sales_db \<Rightarrow> sales_head list \<Rightarrow> bool" where
  "head_moved month i db hs \<longleftrightarrow>
     (let new = \<lparr>hd_import_month = month, hd_snapshot_id = i, hd_revision = Suc (head_revision_of db month)\<rparr> in
      set hs = insert new {h \<in> set (s_heads db). hd_import_month h \<noteq> month} \<and> distinct (map hd_import_month hs))"

lemma head_moved_lookup:
  assumes "head_moved month i db hs" and "distinct (map hd_import_month (s_heads db))" and "s_heads db' = hs"
  shows "head_of m db' = (if m = month
    then Some \<lparr>hd_import_month = month, hd_snapshot_id = i, hd_revision = Suc (head_revision_of db month)\<rparr> else head_of m db)"
proof (cases "m = month")
  case True
  with assms(1,3) show ?thesis unfolding head_of_def
    by (auto simp: head_moved_def Let_def intro!: row_by_unique)
next
  case False
  show ?thesis
  proof (cases "head_of m db")
    case None
    then have "\<forall>h \<in> set (s_heads db). hd_import_month h \<noteq> m" by (simp add: head_of_def row_by_None_iff)
    with False assms(1,3) have "row_by hd_import_month m (s_heads db') = None"
      by (auto simp: row_by_None_iff head_moved_def Let_def)
    with None False show ?thesis by (simp add: head_of_def)
  next
    case (Some h)
    then have "h \<in> set (s_heads db)" "hd_import_month h = m" by (auto simp: head_of_def dest: row_by_SomeD)
    with False assms(1,3) have "row_by hd_import_month m hs = Some h"
      by (intro row_by_unique) (auto simp: head_moved_def Let_def)
    with Some False assms(3) show ?thesis by (simp add: head_of_def)
  qed
qed

lemma head_updated:
  assumes h: "head_of month db = Some h" and d: "distinct (map hd_import_month (s_heads db))"
  shows "head_moved month i db (upd_where (\<lambda>g. hd_import_month g = month)
    (\<lambda>g. g\<lparr>hd_snapshot_id := i, hd_revision := hd_revision h + 1\<rparr>) (s_heads db))"
proof -
  from h have mem: "h \<in> set (s_heads db)" "hd_import_month h = month" by (auto simp: head_of_def dest: row_by_SomeD)
  have only: "g = h" if "g \<in> set (s_heads db)" "hd_import_month g = month" for g
    using row_by_unique [OF d that] h by (simp add: head_of_def)
  let ?new = "\<lparr>hd_import_month = month, hd_snapshot_id = i, hd_revision = Suc (hd_revision h)\<rparr>"
  let ?f = "\<lambda>g. g\<lparr>hd_snapshot_id := i, hd_revision := hd_revision h + 1\<rparr>"
  have new: "?f h = ?new" using mem by simp
  have "{g \<in> set (s_heads db). hd_import_month g = month} = {h}" using mem only by blast
  then have "?f ` {g \<in> set (s_heads db). hd_import_month g = month} = {?new}" using new by simp
  then have "set (upd_where (\<lambda>g. hd_import_month g = month) ?f (s_heads db)) =
      insert ?new {g \<in> set (s_heads db). hd_import_month g \<noteq> month}"
    by (simp add: set_upd_where_split)
  moreover have "map hd_import_month (upd_where (\<lambda>g. hd_import_month g = month) ?f (s_heads db)) = map hd_import_month (s_heads db)"
    by (rule map_upd_where_key) simp
  ultimately show ?thesis using d h by (simp add: head_moved_def Let_def head_revision_of_def)
qed

lemma head_inserted:
  assumes "head_of month db = None" and "distinct (map hd_import_month (s_heads db))"
  shows "head_moved month i db (s_heads db @ [\<lparr>hd_import_month = month, hd_snapshot_id = i, hd_revision = 1\<rparr>])"
proof -
  from assms(1) have "head_revision_of db month = 0" by (simp add: head_revision_of_def)
  with assms show ?thesis by (auto simp: head_moved_def Let_def head_of_def row_by_None_iff)
qed

lemma advance_Inr:
  assumes "advance_sales_head sha month i tk ow e now db = Inr (db1, prev, revision)"
    and "distinct (map hd_import_month (s_heads db))"
  obtains s hs where "List.find (\<lambda>s. leased_to i tk ow now s \<and> sn_import_month s = month) (s_snapshots db) = Some s"
    and "stage_rows_sha256 s = Some (stage_digest sha i db)"
    and "db1 = db\<lparr>s_heads := hs\<rparr>" and "head_moved month i db hs" and "revision = Suc (head_revision_of db month)"
    and "prev = map_option hd_snapshot_id (head_of month db)" and "head_revision_of db month = e"
proof -
  from assms(1) have "advance_sales_generation_head sha month i tk ow e now db = Inr (db1, prev, revision)"
    by (auto simp: advance_sales_head_def split: sum.splits)
  then obtain s where s: "List.find (\<lambda>s. leased_to i tk ow now s \<and> sn_import_month s = month) (s_snapshots db) = Some s"
    "stage_rows_sha256 s = Some (stage_digest sha i db)"
    and alt: "head_of month db = None \<and> e = 0 \<and> prev = None \<and> revision = 1
          \<and> db1 = db\<lparr>s_heads := s_heads db @ [\<lparr>hd_import_month = month, hd_snapshot_id = i, hd_revision = 1\<rparr>]\<rparr>
        \<or> (\<exists>h. head_of month db = Some h \<and> hd_revision h = e \<and> prev = Some (hd_snapshot_id h) \<and> revision = hd_revision h + 1
          \<and> db1 = db\<lparr>s_heads := upd_where (\<lambda>g. hd_import_month g = month)
            (\<lambda>g. g\<lparr>hd_snapshot_id := i, hd_revision := hd_revision h + 1\<rparr>) (s_heads db)\<rparr>)"
    by (auto simp: advance_sales_generation_head_def Let_def split: if_splits option.splits)
  from alt show ?thesis
  proof (elim disjE conjE exE)
    assume "head_of month db = None" "e = 0" "prev = None" "revision = 1"
      "db1 = db\<lparr>s_heads := s_heads db @ [\<lparr>hd_import_month = month, hd_snapshot_id = i, hd_revision = 1\<rparr>]\<rparr>"
    then show ?thesis
      by (intro that [OF s _ head_inserted [OF _ assms(2)]]) (auto simp: head_revision_of_def)
  next
    fix h
    assume "head_of month db = Some h" "hd_revision h = e" "prev = Some (hd_snapshot_id h)" "revision = hd_revision h + 1"
      "db1 = db\<lparr>s_heads := upd_where (\<lambda>g. hd_import_month g = month)
        (\<lambda>g. g\<lparr>hd_snapshot_id := i, hd_revision := hd_revision h + 1\<rparr>) (s_heads db)\<rparr>"
    then show ?thesis
      by (intro that [OF s _ head_updated [OF _ assms(2)]]) (auto simp: head_revision_of_def)
  qed
qed

lemma replace_live_Inr:
  assumes "replace_live env i month m db = Inr (db', n)"
  shows "db' = db\<lparr>s_stores := s_stores db', s_live := filter (\<lambda>r. lv_import_month r \<noteq> month) (s_live db)
      @ map live_of (filter (\<lambda>r. st_import_month r = month) (staged i db))\<rparr>"
    and "int (length (filter (\<lambda>r. st_import_month r = month) (staged i db))) = mf_rows_imported m"
    and "n = length (filter (\<lambda>r. st_import_month r = month) (staged i db))"
  using assms
  by (auto simp: replace_live_def upsert_stores_from_stage_def copy_staged_generation_to_live_def staged_def Let_def split: if_splits)

lemma filter_all_of_length: "length (filter P xs) = length xs \<Longrightarrow> filter P xs = xs"
  by (metis filter_True length_filter_less not_less_iff_gr_or_eq)

lemma emit_promotion_Inr:
  assumes "emit_promotion env s m_sha revision db = Inr db'"
  obtains ob where "db' = db\<lparr>s_outbox := ob\<rparr>" and "outbox_step (s_outbox db) ob"
    and "\<exists>e \<in> set (db_events ob). ev_aggregate_id e = ''sales-'' @ sn_import_month s \<and> ev_revision e = int revision
      \<and> ev_generation_hash e = m_sha"
proof -
  let ?emit = "\<lambda>cutoff. emit_sales_generation_promoted (pe_payload_sha env) (pe_event_id env) (pe_now env)
       (''sales-'' @ sn_import_month s) m_sha (case source_sha256 s of None \<Rightarrow> ''None'' | Some h \<Rightarrow> h)
       (Aware cutoff) (sn_import_month s) (int revision) (Aware (pe_occurred_at env)) (s_outbox db)"
  from assms obtain cutoff where "(case ?emit cutoff of Inl _ \<Rightarrow> Inl SalesOutboxError | Inr (ob, _) \<Rightarrow> Inr (db\<lparr>s_outbox := ob\<rparr>)) = Inr db'"
    unfolding emit_promotion_def res_bind_Inr by blast
  then obtain ob j where em: "?emit cutoff = Inr (ob, j)" and db': "db' = db\<lparr>s_outbox := ob\<rparr>"
    by (cases "?emit cutoff") auto
  from em obtain p where p: "emit_event_internal (pe_payload_sha env) (pe_event_id env) (pe_now env) p (s_outbox db) = Inr (ob, j)"
    and fields: "pl_aggregate_id p = ''sales-'' @ sn_import_month s" "pl_generation_hash p = m_sha" "pl_revision p = int revision"
    by (auto simp: emit_sales_generation_promoted_def res_simps)
  from emit_emitted_as [OF p] fields
  have "\<exists>e \<in> set (db_events ob). ev_aggregate_id e = ''sales-'' @ sn_import_month s \<and> ev_revision e = int revision
      \<and> ev_generation_hash e = m_sha" by (auto simp: emitted_as_def)
  with db' step_emit [OF p] show ?thesis by (rule that)
qed

lemma find_get:
  assumes "List.find P (s_snapshots db) = Some s" and "\<And>u. P u \<Longrightarrow> sn_id u = i" and "distinct (map sn_id (s_snapshots db))"
  shows "P s" and "get_snapshot i db = Some s"
proof -
  from assms(1) have "P s" "s \<in> set (s_snapshots db)" by (auto simp: find_Some_iff)
  with assms(2,3) show "P s" and "get_snapshot i db = Some s"
    unfolding get_snapshot_def by (auto intro: row_by_unique)
qed

lemma leased_toD: "leased_to i tk ow now s \<Longrightarrow> sn_id s = i \<and> sn_status s = Processing_import"
  by (simp add: leased_to_def owned_def)

text \<open>The row a promotion completes keeps what it was validated with.\<close>

lemma promoted_guard:
  assumes "guard_snapshot sha db s (promoted_row n prev actor reason now s) = Inr s'" and "manifest_sha256 s \<noteq> None"
  shows "s' = promoted_row n prev actor reason now s"
proof -
  let ?p = "promoted_row n prev actor reason now s"
  have same: "manifest_sha256 ?p = manifest_sha256 s" "stage_rows_sha256 ?p = stage_rows_sha256 s"
    by (simp_all add: promoted_row_def set_state_def)
  from assms(1) obtain q where "guard_provenance sha db s ?p = Inr q" "s' = q"
    by (auto simp: guard_snapshot_def res_simps split: if_splits)
  with assms(2) same show ?thesis by (auto simp: guard_provenance_def Let_def split: if_splits)
qed

lemma promote_update:
  assumes u: "fenced_update sha (leased_to i tk ow now) (promoted_row n prev actor reason now) db = Inr db'"
    and s: "get_snapshot i db = Some s" "leased_to i tk ow now s" "manifest_sha256 s \<noteq> None"
  obtains t where "db' = db\<lparr>s_snapshots := t\<rparr>" and "list_all2 (row_step sha db) (s_snapshots db) t"
    and "row_by sn_id i t = Some (promoted_row n prev actor reason now s)"
proof -
  let ?P = "leased_to i tk ow now" and ?f = "promoted_row n prev actor reason now"
  have q: "quiet ?P ?f" by (auto simp: quiet_def promoted_row_def set_state_def dest: leased_toD)
  from u have u': "update_snapshots sha ?P ?f db = Inr db'" by (auto simp: fenced_update_def split: if_splits)
  from quiet_update [OF u' q] obtain t where t: "db' = db\<lparr>s_snapshots := t\<rparr>" "list_all2 (row_step sha db) (s_snapshots db) t" .
  from updated_row [OF u' s(1,2)] promoted_guard [OF _ s(3)] have "get_snapshot i db' = Some (?f s)"
    by (auto simp: promoted_row_def set_state_def)
  with t that show ?thesis by (simp add: get_snapshot_def)
qed

text \<open>What a promotion of snapshot \<open>s\<close> to \<open>revision\<close> leaves, table by table.\<close>

definition promotion_effect :: "promotion_env \<Rightarrow> promotion_request \<Rightarrow> snapshot \<Rightarrow> nat \<Rightarrow> sales_db \<Rightarrow> sales_db \<Rightarrow> bool" where
  "promotion_effect env rq s revision db db' \<longleftrightarrow>
     (let i = pr_snapshot_id rq; month = sn_import_month s; prev = map_option hd_snapshot_id (head_of month db);
          actor = py_strip (pr_requested_by rq) in
      revision = Suc (head_revision_of db month) \<and> head_moved month i db (s_heads db') \<and> s_stage db' = s_stage db
    \<and> list_all2 (row_step (pe_sha env) db) (s_snapshots db) (s_snapshots db')
    \<and> (\<forall>r \<in> set (staged i db). st_import_month r = month)
    \<and> s_live db' = filter (\<lambda>r. lv_import_month r \<noteq> month) (s_live db) @ map live_of (staged i db)
    \<and> outbox_step (s_outbox db) (s_outbox db')
    \<and> (\<exists>e \<in> set (db_events (s_outbox db')). ev_aggregate_id e = ''sales-'' @ month \<and> ev_revision e = int revision
         \<and> ev_generation_hash e = pr_manifest_sha256 rq)
    \<and> (\<exists>reason. get_snapshot i db' = Some (promoted_row (int (length (staged i db))) prev actor reason (pe_now env) s)
        \<and> s_promotions db' = s_promotions db @ [\<lparr>pm_import_month = month, from_snapshot_id = prev, to_snapshot_id = i,
            head_revision = revision, pm_action = pr_action rq, requested_by_sub = actor, pm_override_reason = reason\<rparr>]))"

text \<open>The promotion as the sequence of its statements.\<close>

lemma promote_statements:
  assumes "promote_sales_generation env rq db = Inr (db', n, revision)" and "distinct (map sn_id (s_snapshots db))"
  obtains s m prev reason db1 db2 db3 db4 where "get_snapshot (pr_snapshot_id rq) db = Some s"
    and "leased_to (pr_snapshot_id rq) (pr_token rq) (pr_owner rq) (pe_now env) s"
    and "manifest_sha256 s = Some (pr_manifest_sha256 rq)" and "manifest s = Some m"
    and "controls_match m (controls_of (staged (pr_snapshot_id rq) db))"
    and "advance_sales_head (pe_sha env) (sn_import_month s) (pr_snapshot_id rq) (pr_token rq) (pr_owner rq)
      (expected_head_revision s) (pe_now env) db = Inr (db1, prev, revision)"
    and "replace_live env (pr_snapshot_id rq) (sn_import_month s) m db1 = Inr (db2, n)"
    and "fenced_update (pe_sha env) (leased_to (pr_snapshot_id rq) (pr_token rq) (pr_owner rq) (pe_now env))
      (promoted_row (int n) prev (py_strip (pr_requested_by rq)) reason (pe_now env)) db2 = Inr db3"
    and "record_sales_generation_promotion \<lparr>pm_import_month = sn_import_month s, from_snapshot_id = prev,
      to_snapshot_id = pr_snapshot_id rq, head_revision = revision, pm_action = pr_action rq,
      requested_by_sub = py_strip (pr_requested_by rq), pm_override_reason = reason\<rparr> db3 = Inr db4"
    and "emit_promotion env s (pr_manifest_sha256 rq) revision db4 = Inr db'"
proof -
  from assms(1) obtain s m where f: "List.find (leased_to (pr_snapshot_id rq) (pr_token rq) (pr_owner rq) (pe_now env)) (s_snapshots db) = Some s"
    and s: "manifest_sha256 s = Some (pr_manifest_sha256 rq)" "manifest s = Some m"
    by (auto simp: promote_sales_generation_def Let_def res_simps split: if_splits option.splits)
  from find_get [OF f _ assms(2)] have g: "get_snapshot (pr_snapshot_id rq) db = Some s"
    "leased_to (pr_snapshot_id rq) (pr_token rq) (pr_owner rq) (pe_now env) s" by (auto dest: leased_toD)
  from assms(1) f s show ?thesis
    by (auto simp: promote_sales_generation_def Let_def res_simps verify_stage_controls_def split: if_splits
        intro!: that [OF g s])
qed

lemma promote_effect:
  assumes p: "promote_sales_generation env rq db = Inr (db', n, revision)"
    and ids: "distinct (map sn_id (s_snapshots db))" and heads: "distinct (map hd_import_month (s_heads db))"
  obtains s where "get_snapshot (pr_snapshot_id rq) db = Some s"
    and "leased_to (pr_snapshot_id rq) (pr_token rq) (pr_owner rq) (pe_now env) s"
    and "manifest_sha256 s = Some (pr_manifest_sha256 rq)"
    and "stage_rows_sha256 s = Some (stage_digest (pe_sha env) (pr_snapshot_id rq) db)"
    and "expected_head_revision s = head_revision_of db (sn_import_month s)"
    and "n = length (staged (pr_snapshot_id rq) db)"
    and "promotion_effect env rq s revision db db'"
proof -
  let ?i = "pr_snapshot_id rq" and ?L = "leased_to (pr_snapshot_id rq) (pr_token rq) (pr_owner rq) (pe_now env)"
  from p ids obtain s m prev reason db1 db2 db3 db4 where s: "get_snapshot ?i db = Some s" "?L s"
      "manifest_sha256 s = Some (pr_manifest_sha256 rq)" "controls_match m (controls_of (staged ?i db))"
    and adv: "advance_sales_head (pe_sha env) (sn_import_month s) ?i (pr_token rq) (pr_owner rq)
      (expected_head_revision s) (pe_now env) db = Inr (db1, prev, revision)"
    and live: "replace_live env ?i (sn_import_month s) m db1 = Inr (db2, n)"
    and upd: "fenced_update (pe_sha env) ?L (promoted_row (int n) prev (py_strip (pr_requested_by rq)) reason (pe_now env)) db2 = Inr db3"
    and rec: "record_sales_generation_promotion \<lparr>pm_import_month = sn_import_month s, from_snapshot_id = prev,
      to_snapshot_id = ?i, head_revision = revision, pm_action = pr_action rq,
      requested_by_sub = py_strip (pr_requested_by rq), pm_override_reason = reason\<rparr> db3 = Inr db4"
    and em: "emit_promotion env s (pr_manifest_sha256 rq) revision db4 = Inr db'"
    by (rule promote_statements)
  from adv heads obtain u hs where u: "List.find (\<lambda>s'. ?L s' \<and> sn_import_month s' = sn_import_month s) (s_snapshots db) = Some u"
      "stage_rows_sha256 u = Some (stage_digest (pe_sha env) ?i db)"
    and db1: "db1 = db\<lparr>s_heads := hs\<rparr>" and hs: "head_moved (sn_import_month s) ?i db hs"
    and facts: "revision = Suc (head_revision_of db (sn_import_month s))" "prev = map_option hd_snapshot_id (head_of (sn_import_month s) db)"
      "head_revision_of db (sn_import_month s) = expected_head_revision s"
    by (rule advance_Inr)
  have "get_snapshot ?i db = Some u" by (rule find_get(2) [OF u(1) _ ids]) (auto dest: leased_toD)
  with s u(2) have dig: "stage_rows_sha256 s = Some (stage_digest (pe_sha env) ?i db)" by simp
  have st1: "staged ?i db1 = staged ?i db" by (simp add: db1 staged_def)
  note lv = replace_live_Inr [OF live, unfolded st1]
  from lv(2) s(4) have "filter (\<lambda>r. st_import_month r = sn_import_month s) (staged ?i db) = staged ?i db"
    by (intro filter_all_of_length) (simp add: controls_match_def controls_of_def)
  then have all: "\<forall>r \<in> set (staged ?i db). st_import_month r = sn_import_month s"
    and lv': "s_live db2 = filter (\<lambda>r. lv_import_month r \<noteq> sn_import_month s) (s_live db) @ map live_of (staged ?i db)"
      "n = length (staged ?i db)"
    using lv(3) by (auto simp: filter_id_conv) (subst lv(1), simp add: db1)
  have tabs2: "s_stage db2 = s_stage db" "s_snapshots db2 = s_snapshots db" "s_heads db2 = hs"
      "s_promotions db2 = s_promotions db" "s_outbox db2 = s_outbox db"
    by (subst lv(1), simp add: db1)+
  from upd obtain t where t: "db3 = db2\<lparr>s_snapshots := t\<rparr>" "list_all2 (row_step (pe_sha env) db2) (s_snapshots db2) t"
      "row_by sn_id ?i t = Some (promoted_row (int n) prev (py_strip (pr_requested_by rq)) reason (pe_now env) s)"
    by (rule promote_update) (use s tabs2 in \<open>auto simp: get_snapshot_def\<close>)
  from rec have db4: "db4 = db3\<lparr>s_promotions := s_promotions db3 @ [\<lparr>pm_import_month = sn_import_month s, from_snapshot_id = prev,
      to_snapshot_id = ?i, head_revision = revision, pm_action = pr_action rq,
      requested_by_sub = py_strip (pr_requested_by rq), pm_override_reason = reason\<rparr>]\<rparr>"
    by (auto simp: record_sales_generation_promotion_def split: if_splits)
  from em obtain ob where ob: "db' = db4\<lparr>s_outbox := ob\<rparr>" "outbox_step (s_outbox db4) ob"
      "\<exists>e \<in> set (db_events ob). ev_aggregate_id e = ''sales-'' @ sn_import_month s \<and> ev_revision e = int revision
        \<and> ev_generation_hash e = pr_manifest_sha256 rq"
    by (rule emit_promotion_Inr)
  have rows: "row_step (pe_sha env) db2 = row_step (pe_sha env) db"
    by (intro ext) (simp add: row_step_def stage_digest_def tabs2)
  have "promotion_effect env rq s revision db db'"
    using facts hs all lv' tabs2 t ob by (simp add: promotion_effect_def Let_def db4 rows get_snapshot_def)
  with s dig facts lv'(2) show ?thesis by (intro that) auto
qed

section \<open>A promotion keeps the invariant\<close>

lemma promotion_effectD:
  assumes "promotion_effect env rq s revision db db'" and "i = pr_snapshot_id rq" and "m = sn_import_month s"
  shows "revision = Suc (head_revision_of db m)" and "head_moved m i db (s_heads db')" and "s_stage db' = s_stage db"
    and "list_all2 (row_step (pe_sha env) db) (s_snapshots db) (s_snapshots db')"
    and "\<forall>r \<in> set (staged i db). st_import_month r = m"
    and "s_live db' = filter (\<lambda>r. lv_import_month r \<noteq> m) (s_live db) @ map live_of (staged i db)"
    and "outbox_step (s_outbox db) (s_outbox db')"
    and "\<exists>e \<in> set (db_events (s_outbox db')). ev_aggregate_id e = ''sales-'' @ m \<and> ev_revision e = int revision
         \<and> ev_generation_hash e = pr_manifest_sha256 rq"
    and "\<exists>k actor reason. get_snapshot i db' = Some (promoted_row k (map_option hd_snapshot_id (head_of m db)) actor reason (pe_now env) s)"
    and "\<exists>p. s_promotions db' = s_promotions db @ [p] \<and> pm_import_month p = m \<and> to_snapshot_id p = i \<and> head_revision p = revision
      \<and> from_snapshot_id p = map_option hd_snapshot_id (head_of m db) \<and> pm_action p = pr_action rq"
  using assms unfolding promotion_effect_def Let_def by (auto 0 4)

lemma promoted_row_fields [simp]:
  "sn_id (promoted_row k prev actor reason now s) = sn_id s"
  "sn_status (promoted_row k prev actor reason now s) = Completed_import"
  "sn_import_month (promoted_row k prev actor reason now s) = sn_import_month s"
  "stage_rows_sha256 (promoted_row k prev actor reason now s) = stage_rows_sha256 s"
  "manifest_sha256 (promoted_row k prev actor reason now s) = manifest_sha256 s"
  "previous_snapshot_id (promoted_row k prev actor reason now s) = prev"
  by (simp_all add: promoted_row_def set_state_def)

lemma live_of_month [simp]: "lv_import_month (live_of r) = st_import_month r"
  by (simp add: live_of_def)

lemma staged_same: "s_stage db' = s_stage db \<Longrightarrow> staged i db' = staged i db"
  by (simp add: staged_def)

lemma effect_head:
  assumes eff: "promotion_effect env rq s revision db db'" and "stage_rows_sha256 s \<noteq> None"
    and old: "\<And>h. h \<in> set (s_heads db) \<Longrightarrow> head_ok db h" and h: "h \<in> set (s_heads db')"
  shows "head_ok db' h"
proof (cases "hd_import_month h = sn_import_month s")
  case True
  note e = promotion_effectD [OF eff refl refl]
  from e(2) h True have new: "hd_snapshot_id h = pr_snapshot_id rq" by (auto simp: head_moved_def Let_def)
  have none: "filter (\<lambda>r. lv_import_month r = sn_import_month s) (filter (\<lambda>r. lv_import_month r \<noteq> sn_import_month s) xs) = []" for xs
    by (auto simp: filter_empty_conv)
  have "filter (\<lambda>r. lv_import_month r = sn_import_month s) (map live_of (staged (pr_snapshot_id rq) db))
      = map live_of (staged (pr_snapshot_id rq) db)"
    using e(5) by (intro filter_True) auto
  then show ?thesis
    using e(5,6,9) assms(2) True new none staged_same [OF e(3)] by (auto simp: head_ok_def)
next
  case False
  note e = promotion_effectD [OF eff refl refl]
  from e(2) h False have "h \<in> set (s_heads db)" by (auto simp: head_moved_def Let_def)
  moreover have "filter (\<lambda>r. lv_import_month r = hd_import_month h) (map live_of (staged (pr_snapshot_id rq) db)) = []"
    using e(5) False by (auto simp: filter_empty_conv)
  moreover have "filter (\<lambda>r. lv_import_month r = hd_import_month h) (filter (\<lambda>r. lv_import_month r \<noteq> sn_import_month s) (s_live db))
      = filter (\<lambda>r. lv_import_month r = hd_import_month h) (s_live db)"
    using False by (auto simp: conj_commute intro: filter_cong)
  ultimately show ?thesis
    using e(6) keeps_done_rows [OF e(4,3)] by (intro head_ok_frame [OF old]) auto
qed

lemma effect_ledger:
  assumes eff: "promotion_effect env rq s revision db db'" and d: "distinct (map hd_import_month (s_heads db))"
    and old: "ledger_ok db m"
  shows "ledger_ok db' m"
proof -
  note e = promotion_effectD [OF eff refl refl]
  note look = head_moved_lookup [OF e(2) d refl]
  from e(10) obtain p where p: "s_promotions db' = s_promotions db @ [p]" "pm_import_month p = sn_import_month s"
    "to_snapshot_id p = pr_snapshot_id rq" "head_revision p = revision" by blast
  show ?thesis
  proof (cases "m = sn_import_month s")
    case True
    with p have "ledger_of m db' = ledger_of m db @ [p]" by (simp add: ledger_of_def)
    moreover from look True have "head_of m db' = Some \<lparr>hd_import_month = m, hd_snapshot_id = pr_snapshot_id rq, hd_revision = revision\<rparr>"
      using e(1) by simp
    ultimately show ?thesis
      using old True p e(1) by (simp add: ledger_ok_def head_revision_of_def)
  next
    case False
    with p have "ledger_of m db' = ledger_of m db" by (simp add: ledger_of_def)
    moreover from look False have "head_of m db' = head_of m db" by simp
    ultimately show ?thesis
      using old by (simp add: ledger_ok_def head_revision_of_def cong: option.case_cong del: upt_Suc)
  qed
qed

lemma effect_announced:
  assumes eff: "promotion_effect env rq s revision db db'" and s: "manifest_sha256 s = Some (pr_manifest_sha256 rq)"
    and old: "\<And>p. p \<in> set (s_promotions db) \<Longrightarrow> announced db p" and p: "p \<in> set (s_promotions db')"
  shows "announced db' p"
proof -
  note e = promotion_effectD [OF eff refl refl]
  from e(10) p consider "p \<in> set (s_promotions db)"
    | "pm_import_month p = sn_import_month s" "to_snapshot_id p = pr_snapshot_id rq" "head_revision p = revision"
    by auto
  then show ?thesis
  proof cases
    case 1
    then show ?thesis
      by (rule announced_frame [OF old keeps_done_rows [OF e(4,3)]]) (rule events_kept_step [OF e(7)])
  next
    case 2
    with e(8,9) s show ?thesis by (fastforce simp: announced_def)
  qed
qed

lemma inv_promote:
  assumes inv: "sales_inv (pe_sha env) db" and p: "promote_sales_generation env rq db = Inr (db', n, revision)"
  shows "sales_inv (pe_sha env) db'"
proof -
  note old = sales_invD [OF inv]
  from promote_effect [OF p old(1,3)] obtain s where s: "stage_rows_sha256 s \<noteq> None" "manifest_sha256 s = Some (pr_manifest_sha256 rq)"
    and eff: "promotion_effect env rq s revision db db'" by (metis option.distinct(1))
  note e = promotion_effectD [OF eff refl refl]
  from inv_rows [OF inv e(4)] have rows: "distinct (map sn_id (s_snapshots db'))" "distinct (processing_months (s_snapshots db'))"
    "\<forall>u \<in> set (s_snapshots db'). snapshot_ok (pe_sha env) db' u"
    "\<forall>r \<in> set (s_stage db). snapshot_id r \<in> sn_id ` set (s_snapshots db')"
    by (simp_all add: sales_inv_def snapshot_ok_def stage_digest_def e(3))
  have "hd_import_month ` set (s_heads db') = insert (sn_import_month s) (hd_import_month ` set (s_heads db))"
    using e(2) by (auto simp: head_moved_def Let_def)
  with e(5,6) old(8) have live: "\<forall>r \<in> set (s_live db'). lv_import_month r \<in> hd_import_month ` set (s_heads db')" by auto
  have "distinct (map hd_import_month (s_heads db'))" using e(2) by (simp add: head_moved_def Let_def)
  with rows live old(4) e(3) show ?thesis
    using effect_head [OF eff s(1) old(7)] effect_ledger [OF eff old(3,9)] effect_announced [OF eff s(2) old(10)]
    by (simp add: sales_inv_def)
qed

end
