(* ===== verification/Sales_Lifecycle.thy ===== *)
theory Sales_Lifecycle
  imports Sales_Invariants
begin

text \<open>
  Every transaction of the sales machine keeps its invariant, only promotions and rollbacks touch what is
  published, and the head of a month is a store written under an expected revision.
\<close>

section \<open>Transactions outside a promotion\<close>

definition same_published :: "sales_db \<Rightarrow> sales_db \<Rightarrow> bool" where
  "same_published db db' \<longleftrightarrow> s_heads db' = s_heads db \<and> s_promotions db' = s_promotions db \<and> s_live db' = s_live db
     \<and> s_stores db' = s_stores db \<and> s_outbox db' = s_outbox db"

definition silent :: "(string \<Rightarrow> string) \<Rightarrow> sales_db \<Rightarrow> sales_db \<Rightarrow> bool" where
  "silent sha db db' \<longleftrightarrow> (sales_inv sha db \<longrightarrow> sales_inv sha db') \<and> same_published db db'"

lemma silent_refl: "silent sha db db"
  by (simp add: silent_def same_published_def)

lemma silent_trans [trans]: "silent sha a b \<Longrightarrow> silent sha b c \<Longrightarrow> silent sha a c"
  by (simp add: silent_def same_published_def)

lemma silent_update: "update_snapshots sha P f db = Inr db' \<Longrightarrow> quiet P f \<Longrightarrow> silent sha db db'"
  using sales_inv_update [of sha P f db db'] by (auto simp: silent_def same_published_def elim: update_snapshots_rows)

lemma silent_fenced: "fenced_update sha P f db = Inr db' \<Longrightarrow> quiet P f \<Longrightarrow> silent sha db db'"
  by (auto simp: fenced_update_def split: if_splits intro: silent_update)

lemma silent_insert: "insert_snapshot s db = Inr db' \<Longrightarrow> stage_rows_sha256 s = None \<Longrightarrow> silent sha db db'"
  using inv_insert_snapshot [of sha db s db'] insert_snapshot_Inr(1) [of s db db'] by (auto simp: silent_def same_published_def)

lemma silent_stage: "insert_stage rows db = Inr db' \<Longrightarrow> (\<forall>r \<in> set rows. snapshot_id r = i) \<Longrightarrow> silent sha db db'"
  using inv_insert_stage [of sha db rows db' i] insert_stage_Inr(1) [of rows db db'] by (auto simp: silent_def same_published_def)

lemmas quiet_defs = quiet_def owned_def leased_to_def close_row_def set_state_def retained_row_def abandoned_def
  back_to_validated_def recover_retained_def recover_broken_def recover_busy_def Let_def

lemma stage_records_snapshot: "r \<in> set (stage_records i month ls) \<Longrightarrow> snapshot_id r = i"
  by (auto simp: stage_records_def stage_record_def set_zip)

lemma silent_reserve:
  assumes "reserve_snapshot sha i month rv final now db = Inr (db', j)"
  shows "silent sha db db'"
proof -
  from assms obtain db1 where u: "update_snapshots sha (abandoned now month)
      (close_row ''Import processing abandonat si inchis automat'' now) db = Inr db1"
    and ins: "insert_snapshot (reserved_snapshot i month rv final (head_of month db1) now) db1 = Inr db'"
    by (auto simp: reserve_snapshot_def res_simps split: if_splits)
  have "silent sha db db1" by (rule silent_update [OF u]) (auto simp: quiet_defs)
  also have "silent sha db1 db'" by (rule silent_insert [OF ins]) (simp add: reserved_snapshot_def)
  finally show ?thesis .
qed

lemma silent_validate:
  assumes "validate_and_stage_generation env ls month cutoff digest n k i tk ow cov report now db = Inr (db', x)"
  shows "silent (env_sha env) db db'"
proof -
  from assms obtain m db1 db2 where h: "fenced_generation_heartbeat (env_sha env) i tk ow (2 * 60 * 60) now db = Inr db1"
    and st: "insert_stage (stage_records i month ls) db1 = Inr db2"
    and p: "persist_validated_sales_generation (env_sha env) i tk ow m (env_sha env (env_manifest_json env m)) report now db2 = Inr db'"
    by (auto simp: validate_and_stage_generation_def stage_sales_generation_rows_def Let_def res_simps)
  have "silent (env_sha env) db db1"
    by (rule silent_fenced [OF h [unfolded fenced_generation_heartbeat_def]]) (auto simp: quiet_defs)
  also have "silent (env_sha env) db1 db2"
    by (rule silent_stage [OF st, of i]) (auto dest: stage_records_snapshot)
  also have "silent (env_sha env) db2 db'"
    by (rule silent_fenced [OF p [unfolded persist_validated_sales_generation_def]]) (auto simp: quiet_defs)
  finally show ?thesis .
qed

lemma silent_claim:
  assumes "claim_validated_sales_generation sha i tk m_sha ow secs now db = Inr (db', prev)"
  shows "silent sha db db'"
proof -
  from assms obtain P where "update_snapshots sha P (\<lambda>s. set_state Promoting (s\<lparr>owner_id := ow, heartbeat_at := now,
      lease_until := Some (now + seconds secs)\<rparr>)) db = Inr db'" and "\<And>s. P s \<Longrightarrow> sn_status s = Processing_import"
    by (auto simp: claim_validated_sales_generation_def Let_def res_simps split: if_splits option.splits)
  then show ?thesis by (intro silent_update) (auto simp: quiet_defs)
qed

lemma silent_reconcile:
  assumes "reconcile_interrupted_imports sha uuid now db = Inr db'"
  shows "silent sha db db'"
proof -
  from assms obtain db1 where a: "recover_claims sha uuid now db = Inr db1" and b: "close_interrupted sha now db1 = Inr db'"
    by (auto simp: reconcile_interrupted_imports_def res_simps)
  have "silent sha db db1" by (rule silent_update [OF a [unfolded recover_claims_def]]) (auto simp: quiet_defs)
  also have "silent sha db1 db'" by (rule silent_update [OF b [unfolded close_interrupted_def]]) (auto simp: quiet_defs)
  finally show ?thesis .
qed

lemma silent_artifact:
  assumes "reconcile_sales_artifact sha c oc now db = Inr db'"
  shows "silent sha db db'"
proof (cases oc)
  case (RetainedAt path bytes)
  with assms have u: "update_snapshots sha (\<lambda>s. owned (sn_id c) (generation_token c) (owner_id c) s \<and> has_artifact s)
      (recover_retained path (case source_sha256 c of None \<Rightarrow> ''None'' | Some h \<Rightarrow> h) bytes now) db = Inr db'"
    by (simp add: reconcile_sales_artifact_def)
  show ?thesis by (rule silent_update [OF u]) (auto simp: quiet_defs)
next
  case (ArtifactBroken kind)
  with assms show ?thesis unfolding reconcile_sales_artifact_def
    by (simp add: Let_def) (erule silent_update, auto simp: quiet_defs)
next
  case (FilesystemBusy kind)
  with assms show ?thesis unfolding reconcile_sales_artifact_def
    by (simp add: Let_def) (erule silent_update, auto simp: quiet_defs)
qed

lemma update_snapshots_cong:
  assumes "\<And>s. s \<in> set (s_snapshots db) \<Longrightarrow> P s = Q s"
  shows "update_snapshots sha P f db = update_snapshots sha Q f db"
proof -
  have "(\<And>s. s \<in> set ss \<Longrightarrow> g s = h s) \<Longrightarrow> map_rows g ss = map_rows h ss" for ss and g h :: "snapshot \<Rightarrow> (sales_error, snapshot) result"
    by (induction ss) auto
  from this [of "s_snapshots db" "\<lambda>s. if P s then guard_snapshot sha db s (f s) else Inr s"
      "\<lambda>s. if Q s then guard_snapshot sha db s (f s) else Inr s"] assms
  show ?thesis by (simp add: update_snapshots_def)
qed

lemma clone_statements:
  assumes "clone_generation sha ids current h source m m_sha digest now db = Inr db'"
  obtains s db1 db2 P f where "s = rollback_snapshot ids current (hd_import_month h) (hd_revision h) source m m_sha now"
    and "insert_snapshot s db = Inr db1"
    and "insert_stage (copied_stage (ri_snapshot_id ids) (sn_id source) db1) db1 = Inr db2"
    and "update_snapshots sha P f db2 = Inr db'" and "quiet P f"
proof -
  let ?i = "ri_snapshot_id ids"
  let ?P = "\<lambda>s. sn_id s = ?i \<and> stage_rows_sha256 s = None"
  let ?f = "\<lambda>s. s\<lparr>stage_rows_sha256 := Some digest\<rparr>"
  let ?s = "rollback_snapshot ids current (hd_import_month h) (hd_revision h) source m m_sha now"
  from assms obtain db1 db2 where ins: "insert_snapshot ?s db = Inr db1"
    and st: "insert_stage (copied_stage ?i (sn_id source) db1) db1 = Inr db2"
    and up: "update_snapshots sha ?P ?f db2 = Inr db'"
    by (auto simp: clone_generation_def res_simps)
  have i: "sn_id ?s = ?i" by (simp add: rollback_snapshot_def)
  from st have "s_snapshots db2 = s_snapshots db1" by (auto dest: insert_stage_Inr(1))
  moreover from ins have "s_snapshots db1 = s_snapshots db @ [?s]" by (auto dest: insert_snapshot_Inr(1))
  moreover from insert_snapshot_Inr(2) [OF ins] have "?i \<notin> sn_id ` set (s_snapshots db)" unfolding i .
  ultimately have "\<And>s. s \<in> set (s_snapshots db2) \<Longrightarrow> sn_id s = ?i \<Longrightarrow> s = ?s"
    by (metis UnE empty_iff imageI list.set(1) set_ConsD set_append)
  then have "update_snapshots sha ?P ?f db2 = update_snapshots sha (\<lambda>s. ?P s \<and> s = ?s) ?f db2"
    by (intro update_snapshots_cong) blast
  with up have "update_snapshots sha (\<lambda>s. ?P s \<and> s = ?s) ?f db2 = Inr db'" by simp
  moreover have "quiet (\<lambda>s. ?P s \<and> s = ?s) ?f" by (auto simp: quiet_def rollback_snapshot_def)
  ultimately show ?thesis by (rule that [OF refl ins st])
qed

lemma silent_clone:
  assumes "clone_generation sha ids current h source m m_sha digest now db = Inr db'"
  shows "silent sha db db'"
  using assms
proof (rule clone_statements)
  fix s db1 db2 P f
  assume s: "s = rollback_snapshot ids current (hd_import_month h) (hd_revision h) source m m_sha now"
    and ins: "insert_snapshot s db = Inr db1"
    and st: "insert_stage (copied_stage (ri_snapshot_id ids) (sn_id source) db1) db1 = Inr db2"
    and up: "update_snapshots sha P f db2 = Inr db'" "quiet P f"
  have "silent sha db db1" by (rule silent_insert [OF ins]) (simp add: s rollback_snapshot_def)
  also have "silent sha db1 db2" by (rule silent_stage [OF st, of "ri_snapshot_id ids"]) (auto simp: copied_stage_def)
  also have "silent sha db2 db'" by (rule silent_update [OF up])
  finally show ?thesis .
qed

section \<open>Rollback\<close>

text \<open>A rollback clones the predecessor of the head and promotes the clone.\<close>

definition rollback_promotion :: "rollback_ids \<Rightarrow> rollback_request \<Rightarrow> string \<Rightarrow> promotion_request" where
  "rollback_promotion ids rb m_sha = \<lparr>pr_snapshot_id = ri_snapshot_id ids, pr_token = ri_token ids, pr_owner = ri_owner ids,
     pr_manifest_sha256 = m_sha, pr_requested_by = py_strip (rb_requested_by rb), pr_override_reason = Some (py_strip (rb_reason rb)),
     pr_action = ''rollback''\<rparr>"

lemma rollback_statements:
  assumes "rollback_sales_generation env ids rb db = Inr (db', j, n, revision)"
  obtains h c target source digest m0 m_sha db1 where "List.find (\<lambda>h. hd_snapshot_id h = rb_current_snapshot_id rb) (s_heads db) = Some h"
    and "get_snapshot (rb_current_snapshot_id rb) db = Some c" and "previous_snapshot_id c = Some target"
    and "get_snapshot target db = Some source" and "sn_import_month source = hd_import_month h"
    and "sn_status source = Completed_import" and "stage_rows_sha256 source = Some digest" and "manifest source = Some m0"
    and "clone_generation (pe_sha env) ids (rb_current_snapshot_id rb) h source
      (rollback_manifest m0 digest (rb_current_snapshot_id rb) target) m_sha digest (pe_now env) db = Inr db1"
    and "promote_sales_generation env (rollback_promotion ids rb m_sha) db1 = Inr (db', n, revision)"
    and "j = ri_snapshot_id ids"
  using assms unfolding rollback_sales_generation_def rollback_promotion_def
  by (fastforce simp: Let_def res_simps split: if_splits option.split_asm prod.split_asm)

lemma inv_rollback:
  assumes "sales_inv (pe_sha env) db" and r: "rollback_sales_generation env ids rb db = Inr (db', x)"
  shows "sales_inv (pe_sha env) db'"
proof -
  obtain j n revision where x: "x = (j, n, revision)" by (cases x)
  from r [unfolded x] show ?thesis
  proof (rule rollback_statements)
    fix h source m m_sha digest db1 n revision cur
    assume c: "clone_generation (pe_sha env) ids cur h source m m_sha digest (pe_now env) db = Inr db1"
      and p: "promote_sales_generation env (rollback_promotion ids rb m_sha) db1 = Inr (db', n, revision)"
    from silent_clone [OF c] assms(1) have "sales_inv (pe_sha env) db1" by (simp add: silent_def)
    then show ?thesis by (rule inv_promote [OF _ p])
  qed
qed

section \<open>The machine\<close>

lemma inv_outbox: "sales_inv sha db \<Longrightarrow> outbox_step (s_outbox db) ob \<Longrightarrow> sales_inv sha (db\<lparr>s_outbox := ob\<rparr>)"
proof -
  assume inv: "sales_inv sha db" and st: "outbox_step (s_outbox db) ob"
  let ?db' = "db\<lparr>s_outbox := ob\<rparr>"
  note old = sales_invD [OF inv]
  have kd: "keeps_done db ?db'" by (auto simp: keeps_done_def get_snapshot_def staged_def)
  have "announced ?db' p" if "p \<in> set (s_promotions db)" for p
    by (rule announced_frame [OF old(10) [OF that] kd]) (use events_kept_step [OF st] in simp)
  moreover have "head_ok ?db' h" if "h \<in> set (s_heads db)" for h
    using head_ok_frame [OF old(7) [OF that] kd] by simp
  moreover have "ledger_ok ?db' m" for m using old(9) [of m] ledger_ok_same [of ?db' db m] by simp
  ultimately show ?thesis
    using inv by (simp add: sales_inv_def snapshot_ok_def stage_digest_def)
qed

text \<open>The transactions of a step: a silent one, a promotion, a rollback or one of the outbox.\<close>

lemma sales_step_cases:
  assumes "sales_step sha db db'"
  obtains (silent) "silent sha db db'"
  | (promote) env rq n revision where "pe_sha env = sha" and "pr_action rq = ''promote''"
      and "promote_sales_generation env rq db = Inr (db', n, revision)"
  | (rollback) env ids rb j n revision where "pe_sha env = sha" and "rollback_sales_generation env ids rb db = Inr (db', j, n, revision)"
  | (outbox) ob where "outbox_step (s_outbox db) ob" and "db' = db\<lparr>s_outbox := ob\<rparr>"
  using assms
proof cases
  case (sg_reserve i month rv final now j)
  then show ?thesis by (intro silent) (rule silent_reserve)
next
  case (sg_coverage i report now)
  have "silent sha db db'"
    by (rule silent_update [OF sg_coverage [unfolded record_coverage_report_def]]) (auto simp: quiet_defs)
  then show ?thesis by (rule silent)
next
  case (sg_heartbeat i tk ow secs now)
  have "silent sha db db'"
    by (rule silent_fenced [OF sg_heartbeat [unfolded fenced_generation_heartbeat_def]]) (auto simp: quiet_defs)
  then show ?thesis by (rule silent)
next
  case sg_validate
  then show ?thesis by (intro silent) (metis silent_validate)
next
  case (sg_fail i tk ow msg now)
  have "silent sha db db'"
    by (rule silent_fenced [OF sg_fail [unfolded fail_sales_generation_def]]) (auto simp: quiet_defs)
  then show ?thesis by (rule silent)
next
  case (sg_attach i tk ow path src bytes now)
  have "silent sha db db'"
    by (rule silent_fenced [OF sg_attach [unfolded attach_sales_generation_source_def]]) (auto simp: quiet_defs)
  then show ?thesis by (rule silent)
next
  case (sg_retained i tk ow path src b now)
  have "silent sha db db'"
    by (rule silent_fenced [OF sg_retained [unfolded mark_sales_generation_artifact_retained_def]]) (auto simp: quiet_defs)
  then show ?thesis by (rule silent)
next
  case sg_claim
  then show ?thesis by (intro silent) (rule silent_claim)
next
  case (sg_restore i tk ow prev now)
  have "silent sha db db'"
    by (rule silent_fenced [OF sg_restore [unfolded restore_sales_generation_claim_def]]) (auto simp: quiet_defs)
  then show ?thesis by (rule silent)
next
  case (sg_promote env rq x)
  then show ?thesis by (cases x) (auto intro: promote)
next
  case (sg_rollback env ids rb x)
  then show ?thesis by (cases x) (auto intro: rollback)
next
  case sg_reconcile
  then show ?thesis by (intro silent) (rule silent_reconcile)
next
  case sg_artifact
  then show ?thesis by (intro silent) (rule silent_artifact)
next
  case sg_outbox
  then show ?thesis by (intro outbox) auto
qed

lemma inv_sales_step: "sales_inv sha db \<Longrightarrow> sales_step sha db db' \<Longrightarrow> sales_inv sha db'"
  by (erule sales_step_cases) (auto simp: silent_def intro: inv_promote inv_rollback inv_outbox)

section \<open>The head as a versioned store\<close>

lemma revision_promote:
  assumes "sales_inv (pe_sha env) db" and "promote_sales_generation env rq db = Inr (db', n, revision)"
  shows "\<exists>s. get_snapshot (pr_snapshot_id rq) db = Some s \<and> revision = Suc (expected_head_revision s)
    \<and> expected_head_revision s = head_revision_of db (sn_import_month s)
    \<and> (\<forall>m. head_revision_of db' m = (if m = sn_import_month s then revision else head_revision_of db m))"
proof -
  note old = sales_invD [OF assms(1)]
  from promote_effect [OF assms(2) old(1,3)] obtain s where s: "get_snapshot (pr_snapshot_id rq) db = Some s"
      "expected_head_revision s = head_revision_of db (sn_import_month s)"
    and eff: "promotion_effect env rq s revision db db'" by metis
  note e = promotion_effectD [OF eff refl refl]
  have "head_revision_of db' m = (if m = sn_import_month s then revision else head_revision_of db m)" for m
    using head_moved_lookup [OF e(2) old(3) refl, of m] e(1) by (simp add: head_revision_of_def)
  with s e(1) show ?thesis by auto
qed

definition head_counter :: "sales_db \<Rightarrow> string \<Rightarrow> int" where
  "head_counter db m = int (head_revision_of db m)"

definition promotes :: "(string \<Rightarrow> string) \<Rightarrow> sales_db \<Rightarrow> string \<Rightarrow> int \<Rightarrow> sales_db \<Rightarrow> bool" where
  "promotes sha db month e db' \<longleftrightarrow> (\<exists>env rq s n revision. pe_sha env = sha \<and> pr_action rq = ''promote''
     \<and> promote_sales_generation env rq db = Inr (db', n, revision) \<and> get_snapshot (pr_snapshot_id rq) db = Some s
     \<and> sn_import_month s = month \<and> int (expected_head_revision s) = e)"

lemma promote_mono:
  assumes "sales_inv (pe_sha env) db" and "promote_sales_generation env rq db = Inr (db', n, revision)"
  shows "head_revision_of db m \<le> head_revision_of db' m"
  using revision_promote [OF assms] by auto

lemma head_counter_mono:
  assumes inv: "sales_inv sha db" and st: "sales_step sha db db'"
  shows "head_counter db m \<le> head_counter db' m"
  using st
proof (cases rule: sales_step_cases)
  case silent
  then show ?thesis by (simp add: silent_def same_published_def head_counter_def head_revision_of_def head_of_def)
next
  case promote
  with inv show ?thesis by (auto simp: head_counter_def intro: promote_mono)
next
  case (rollback env ids rb j n revision)
  from rollback(2) show ?thesis
  proof (rule rollback_statements)
    fix h source mf m_sha digest db1 n revision cur
    assume "clone_generation (pe_sha env) ids cur h source mf m_sha digest (pe_now env) db = Inr db1"
      and p: "promote_sales_generation env (rollback_promotion ids rb m_sha) db1 = Inr (db', n, revision)"
    then have s: "silent sha db db1" using rollback(1) by (blast dest: silent_clone)
    with inv have "sales_inv (pe_sha env) db1" using rollback(1) by (simp add: silent_def)
    from promote_mono [OF this p, of m] s show ?thesis
      by (simp add: silent_def same_published_def head_counter_def head_revision_of_def head_of_def)
  qed
next
  case outbox
  then show ?thesis by (simp add: head_counter_def head_revision_of_def head_of_def)
qed

interpretation sg: versioned_store sales_empty "sales_step sha" "sales_inv sha" head_counter "promotes sha" for sha
proof unfold_locales
  fix s t k e
  assume "promotes sha s k e t"
  then show "sales_step sha s t" unfolding promotes_def by (blast intro: sg_promote)
next
  fix s t k e
  assume inv: "sales_inv sha s" and "promotes sha s k e t"
  then obtain env rq u n revision where p: "pe_sha env = sha" "promote_sales_generation env rq s = Inr (t, n, revision)"
    and u: "get_snapshot (pr_snapshot_id rq) s = Some u" "sn_import_month u = k" "int (expected_head_revision u) = e"
    by (auto simp: promotes_def)
  from revision_promote [OF _ p(2)] inv p(1) u show "head_counter s k = e \<and> e < head_counter t k"
    by (auto simp: head_counter_def)
qed (auto intro: sales_inv_empty inv_sales_step head_counter_mono)

end
