(* ===== verification/Sales_Sample.thy ===== *)
theory Sales_Sample
  imports Sales_Lifecycle
begin

text \<open>
  A concrete run of the sales machine: two imports of July 2026 are staged, validated and promoted one after
  the other, the second is rolled back and the rollback is rolled back again. The witnesses of the sales
  guarantees are evaluated on its states.
\<close>

definition run_sha :: string where
  "run_sha = replicate 64 (CHR ''a'')"

abbreviation text_sha :: "string \<Rightarrow> string" where
  "text_sha \<equiv> (\<lambda>_. run_sha)"

definition run_env :: import_env where
  "run_env = \<lparr>env_sha = text_sha, env_norm = id, env_row_json = (\<lambda>_. []), env_days_json = (\<lambda>_. []),
     env_manifest_json = (\<lambda>_. [])\<rparr>"

definition run_reservation :: "string \<Rightarrow> sales_reservation" where
  "run_reservation tk = \<lparr>rv_filename = ''iulie.xlsx'', rv_rows_in_file = 1, rv_source_sha256 = Some run_sha,
     rv_cutoff_date = Some (2026, 7, 31), rv_token = tk, rv_owner = ''w1'', rv_artifact_required = False,
     rv_artifact_path = None, rv_artifact_bytes = None, rv_lease_seconds = 7200\<rparr>"

definition run_penv :: "nat \<Rightarrow> instant \<Rightarrow> promotion_env" where
  "run_penv i now = \<lparr>pe_sha = text_sha, pe_payload_sha = (\<lambda>p. text_sha (pl_month p)), pe_bucharest_midnight = (\<lambda>_. 0),
     pe_artifact_ok = True, pe_reporting_ok = True, pe_event_id = i, pe_occurred_at = now, pe_now = now\<rparr>"

definition run_request :: "nat \<Rightarrow> string \<Rightarrow> promotion_request" where
  "run_request i tk = \<lparr>pr_snapshot_id = i, pr_token = tk, pr_owner = ''w1'', pr_manifest_sha256 = run_sha,
     pr_requested_by = ''admin'', pr_override_reason = None, pr_action = ''promote''\<rparr>"

definition run_outbox :: "outbox_event list \<Rightarrow> outbox_db" where
  "run_outbox es = \<lparr>db_events = es, db_receipts = [], db_replays = []\<rparr>"

definition run_empty :: sales_db where
  "run_empty = \<lparr>s_snapshots = [], s_stage = [], s_heads = [], s_promotions = [], s_live = [], s_stores = [],
     s_outbox = run_outbox []\<rparr>"

definition run_lines :: "rat \<Rightarrow> sales_line list" where
  "run_lines v = [sample_line (False, v)]"

text \<open>The transactions of the run, one after the other.\<close>

definition run_reserve :: "nat \<Rightarrow> string \<Rightarrow> sales_db \<Rightarrow> (sales_error, sales_db \<times> nat) result" where
  "run_reserve i tk db = reserve_snapshot text_sha i ''2026-07'' (run_reservation tk) False 1000 db"

definition run_validate :: "nat \<Rightarrow> string \<Rightarrow> rat \<Rightarrow> sales_db \<Rightarrow> (sales_error, sales_db \<times> nat \<times> sales_manifest \<times> string) result" where
  "run_validate i tk v db = validate_and_stage_generation run_env (run_lines v) ''2026-07'' (2026, 7, 31) run_sha 1 0
     i tk ''w1'' [] ''{}'' 2000 db"

definition run_promote :: "nat \<Rightarrow> string \<Rightarrow> sales_db \<Rightarrow> (sales_error, sales_db \<times> nat \<times> nat) result" where
  "run_promote i tk db = promote_sales_generation (run_penv i 3000) (run_request i tk) db"

definition run_rollback :: "nat \<Rightarrow> nat \<Rightarrow> string \<Rightarrow> sales_db \<Rightarrow> (sales_error, sales_db \<times> nat \<times> nat \<times> nat) result" where
  "run_rollback i cur tk db = rollback_sales_generation (run_penv i 4000)
     \<lparr>ri_snapshot_id = i, ri_token = CHR ''r'' # tk, ri_owner = ''w2'', ri_manifest_json = (\<lambda>_. [])\<rparr>
     \<lparr>rb_current_snapshot_id = cur, rb_current_token = tk, rb_manifest_sha256 = run_sha, rb_requested_by = ''admin'',
       rb_reason = ''wrong workbook''\<rparr> db"

text \<open>The states of the run.\<close>

definition run_manifest :: "int \<Rightarrow> anomaly list \<Rightarrow> sales_manifest" where
  "run_manifest v an = \<lparr>mf_import_month = ''2026-07'', mf_source_sha256 = run_sha, mf_cutoff_date = (2026, 7, 31),
     mf_max_sale_date = (2026, 7, 14), mf_rows_in_file = 1, mf_rows_imported = 1, mf_rows_filtered = 0, mf_store_count = 1,
     mf_agent_count = 1, mf_receipt_count = 1, mf_total_value = v, mf_total_quantity = 1, mf_site_day_sha256 = run_sha,
     mf_site_days = [\<lparr>sd_site = ''S1'', sd_date = (2026, 7, 14), sd_rows = 1, sd_receipts = 1, sd_quantity = 1, sd_value = v\<rparr>],
     mf_business_sha256 = run_sha, mf_anomalies = an, generation_state = Some Validated, mf_stage_rows_sha256 = Some run_sha,
     rollback_of_snapshot_id = None, rollback_source_snapshot_id = None\<rparr>"

definition run_head :: "nat \<Rightarrow> sales_head" where
  "run_head i = \<lparr>hd_import_month = ''2026-07'', hd_snapshot_id = i, hd_revision = i\<rparr>"

definition run_reserved :: "nat \<Rightarrow> string \<Rightarrow> sales_head option \<Rightarrow> snapshot" where
  "run_reserved i tk head = reserved_snapshot i ''2026-07'' (run_reservation tk) False head 1000"

definition run_validated :: "nat \<Rightarrow> string \<Rightarrow> sales_head option \<Rightarrow> sales_manifest \<Rightarrow> snapshot" where
  "run_validated i tk head m = (run_reserved i tk head)\<lparr>manifest := Some m, manifest_sha256 := Some run_sha,
     rows_imported := Some 1, lease_until := Some (2000 + seconds 7200), heartbeat_at := 2000, stage_rows_sha256 := Some run_sha\<rparr>"

definition run_a :: sales_db where
  "run_a = run_empty\<lparr>s_snapshots := [run_reserved 1 ''t1'' None]\<rparr>"

definition run_v1_manifest :: sales_manifest where
  "run_v1_manifest = run_manifest 500 [informational ''first_generation_review'' []]"

definition run_v1 :: snapshot where
  "run_v1 = run_validated 1 ''t1'' None run_v1_manifest"

definition run_rows :: "nat \<Rightarrow> rat \<Rightarrow> stage_row list" where
  "run_rows i v = stage_records i ''2026-07'' (run_lines v)"

definition run_b :: sales_db where
  "run_b = run_a\<lparr>s_snapshots := [run_v1], s_stage := run_rows 1 5\<rparr>"

definition run_event :: "nat \<Rightarrow> instant \<Rightarrow> outbox_event" where
  "run_event i now = new_event (\<lambda>_. run_sha) i \<lparr>pl_event_schema = ''retail.sales_generation_promoted.v1'',
     pl_aggregate_type = ''sales_generation'', pl_aggregate_id = ''sales-2026-07'', pl_generation_hash = run_sha,
     pl_source_hash = run_sha, pl_cutoff = Some 0, pl_month = ''2026-07'', pl_revision = int i, pl_occurred_at = now\<rparr> i now"

definition run_promotion :: "nat option \<Rightarrow> nat \<Rightarrow> string \<Rightarrow> string option \<Rightarrow> promotion" where
  "run_promotion prev i act reason = \<lparr>pm_import_month = ''2026-07'', from_snapshot_id = prev, to_snapshot_id = i, head_revision = i,
     pm_action = act, requested_by_sub = ''admin'', pm_override_reason = reason\<rparr>"

definition run_store :: store_info where
  "run_store = \<lparr>si_site = ''S1'', si_locatie = ''L'', si_firma = ''F'', si_regional = ''R'', si_asm = ''M'',
     first_seen_month = ''2026-07'', last_seen_month = ''2026-07'', is_active = True\<rparr>"

text \<open>The state after the promotion of generation \<open>i\<close>, over the snapshots and staged rows so far.\<close>

definition run_published :: "nat \<Rightarrow> rat \<Rightarrow> snapshot list \<Rightarrow> stage_row list \<Rightarrow> promotion list \<Rightarrow> outbox_event list \<Rightarrow> sales_db" where
  "run_published i v ss st ps es = \<lparr>s_snapshots = ss, s_stage = st, s_heads = [run_head i], s_promotions = ps,
     s_live = map live_of (run_rows i v), s_stores = [run_store], s_outbox = run_outbox es\<rparr>"

definition run_p1 :: snapshot where
  "run_p1 = promoted_row 1 None ''admin'' None 3000 run_v1"

definition run_c :: sales_db where
  "run_c = run_published 1 5 [run_p1] (run_rows 1 5) [run_promotion None 1 ''promote'' None] [run_event 1 3000]"

definition run_d :: sales_db where
  "run_d = run_c\<lparr>s_snapshots := [run_p1, run_reserved 2 ''t2'' (Some (run_head 1))]\<rparr>"

definition run_v2_manifest :: sales_manifest where
  "run_v2_manifest = run_manifest 700 []"

definition run_v2 :: snapshot where
  "run_v2 = run_validated 2 ''t2'' (Some (run_head 1)) run_v2_manifest"

definition run_e :: sales_db where
  "run_e = run_d\<lparr>s_snapshots := [run_p1, run_v2], s_stage := run_rows 1 5 @ run_rows 2 7\<rparr>"

definition run_p2 :: snapshot where
  "run_p2 = promoted_row 1 (Some 1) ''admin'' None 3000 run_v2"

definition run_promotions :: "promotion list" where
  "run_promotions = [run_promotion None 1 ''promote'' None, run_promotion (Some 1) 2 ''promote'' None]"

definition run_f :: sales_db where
  "run_f = run_published 2 7 [run_p1, run_p2] (run_rows 1 5 @ run_rows 2 7) run_promotions [run_event 1 3000, run_event 2 3000]"

text \<open>The clone that a rollback of \<open>cur\<close> promotes.\<close>

definition run_clone :: "nat \<Rightarrow> nat \<Rightarrow> string \<Rightarrow> snapshot \<Rightarrow> sales_manifest \<Rightarrow> snapshot" where
  "run_clone i cur tk source m = (rollback_snapshot \<lparr>ri_snapshot_id = i, ri_token = tk, ri_owner = ''w2'', ri_manifest_json = (\<lambda>_. [])\<rparr>
     cur ''2026-07'' cur source (rollback_manifest m run_sha cur (sn_id source)) run_sha 4000)\<lparr>stage_rows_sha256 := Some run_sha\<rparr>"

definition run_p3 :: snapshot where
  "run_p3 = promoted_row 1 (Some 2) ''admin'' (Some ''wrong workbook'') 4000 (run_clone 3 2 ''rt2'' run_p1 run_v1_manifest)"

definition run_g :: sales_db where
  "run_g = run_published 3 5 [run_p1, run_p2, run_p3] (run_rows 1 5 @ run_rows 2 7 @ run_rows 3 5)
     (run_promotions @ [run_promotion (Some 2) 3 ''rollback'' (Some ''wrong workbook'')])
     [run_event 1 3000, run_event 2 3000, run_event 3 4000]"

definition run_p4 :: snapshot where
  "run_p4 = promoted_row 1 (Some 3) ''admin'' (Some ''wrong workbook'') 4000 (run_clone 4 3 ''rrt2'' run_p2 run_v2_manifest)"

definition run_h :: sales_db where
  "run_h = run_published 4 7 [run_p1, run_p2, run_p3, run_p4] (run_rows 1 5 @ run_rows 2 7 @ run_rows 3 5 @ run_rows 4 7)
     (run_promotions @ [run_promotion (Some 2) 3 ''rollback'' (Some ''wrong workbook''),
       run_promotion (Some 3) 4 ''rollback'' (Some ''wrong workbook'')])
     [run_event 1 3000, run_event 2 3000, run_event 3 4000, run_event 4 4000]"

section \<open>Evaluation\<close>

lemma run_sha_ok [simp]: "is_sha256 run_sha" by code_simp
lemma run_sha_length [simp]: "length run_sha = 64" by (simp add: run_sha_def)

lemma run_month [simp]: "year_month_check ''2026-07''" by code_simp

lemma run_cents [simp]: "numeric_cents (sales_money (False, 5)) = 500" "numeric_cents (sales_money (False, 7)) = 700"
  by code_simp+

lemma run_row: "run_rows i v = [stage_record i ''2026-07'' 1 (sample_line (False, v))]"
  by (simp add: run_rows_def stage_records_def run_lines_def)

lemmas run_defs = run_empty_def run_reserved_def reserved_snapshot_def run_validated_def run_reservation_def run_manifest_def run_head_def
  run_promotion_def run_store_def run_penv_def run_request_def run_row stage_record_def sample_line_def seconds_def

lemmas guard_defs = update_snapshots_def fenced_update_def guard_snapshot_def guard_provenance_def guard_artifact_def snapshot_checks_def
  opt_sha_def Let_def leased_to_def owned_def manifest_digest_def without_state_def set_state_def state_of_def open_generation_def
  get_snapshot_def head_of_def staged_def stage_digest_def

lemmas stage_defs = insert_stage_def guard_stage_row_def stage_row_checks_def stage_key_def

lemmas promote_defs = promote_sales_generation_def artifact_ready_def verify_stage_controls_def controls_match_def controls_of_def
  max_day_def advance_sales_head_def advance_sales_generation_head_def manifest_has_structural_contradictions_def blocking_def
  informational_def replace_live_def upsert_stores_from_stage_def latest_completed_month_def first_rows_def upsert_store_def
  copy_staged_generation_to_live_def live_of_def promoted_row_def record_sales_generation_promotion_def promotion_checks_def
  emit_promotion_def sales_event_cutoff_def

lemma run_a_step: "run_reserve 1 ''t1'' run_empty = Inr (run_a, 1)"
  by (simp add: run_reserve_def reserve_snapshot_def insert_snapshot_def run_a_def run_defs guard_defs)

lemma run_manifest_1: "validated_manifest run_env (run_lines 5) ''2026-07'' run_sha (2026, 7, 31) 1 0 [] run_a = Inr run_v1_manifest"
  by code_simp

lemma run_manifest_2: "validated_manifest run_env (run_lines 7) ''2026-07'' run_sha (2026, 7, 31) 1 0 [] run_d = Inr run_v2_manifest"
  by code_simp

abbreviation run_emit :: "nat \<Rightarrow> int \<Rightarrow> int \<Rightarrow> outbox_event list \<Rightarrow> (outbox_error, outbox_db \<times> nat) result" where
  "run_emit i k now es \<equiv> emit_sales_generation_promoted (\<lambda>_. run_sha) i now ''sales-2026-07'' run_sha run_sha (Aware 0) ''2026-07''
     k (Aware now) (run_outbox es)"

lemma run_emits:
  "run_emit 1 1 3000 [] = Inr (run_outbox [run_event 1 3000], 1)"
  "run_emit 2 2 3000 [run_event 1 3000] = Inr (run_outbox [run_event 1 3000, run_event 2 3000], 2)"
  "run_emit 3 3 4000 [run_event 1 3000, run_event 2 3000] = Inr (run_outbox [run_event 1 3000, run_event 2 3000, run_event 3 4000], 3)"
  "run_emit 4 4 4000 [run_event 1 3000, run_event 2 3000, run_event 3 4000]
     = Inr (run_outbox [run_event 1 3000, run_event 2 3000, run_event 3 4000, run_event 4 4000], 4)"
  by code_simp+

lemma run_texts [simp]: "py_strip ''admin'' = ''admin''" "sql_btrim ''admin'' = ''admin''" "py_strip ''wrong workbook'' = ''wrong workbook''"
  by code_simp+

lemma run_lines_length [simp]: "length (run_lines v) = 1" by (simp add: run_lines_def)

lemmas run_snapshots = run_v1_def run_p1_def run_v2_def run_p2_def run_v1_manifest_def run_v2_manifest_def run_published_def run_promotions_def

lemmas validate_defs = run_env_def fenced_generation_heartbeat_def stage_sales_generation_rows_def persist_validated_sales_generation_def
  run_rows_def [symmetric]

lemma run_b_step: "run_validate 1 ''t1'' 5 run_a = Inr (run_b, 1, run_v1_manifest, run_sha)"
  by (simp add: run_validate_def validate_and_stage_generation_def run_manifest_1)
    (simp add: run_a_def run_b_def run_snapshots validate_defs run_defs guard_defs stage_defs)

lemma run_c_step: "run_promote 1 ''t1'' run_b = Inr (run_c, 1, 1)"
  by (simp add: run_promote_def promote_defs run_a_def run_b_def run_c_def run_snapshots run_defs guard_defs
      run_emits [unfolded One_nat_def])

lemma run_d_step: "run_reserve 2 ''t2'' run_c = Inr (run_d, 2)"
  by (simp add: run_reserve_def reserve_snapshot_def insert_snapshot_def abandoned_def promoted_row_def
      run_c_def run_d_def run_snapshots run_defs guard_defs)

lemma run_e_step: "run_validate 2 ''t2'' 7 run_d = Inr (run_e, 1, run_v2_manifest, run_sha)"
  by (simp add: run_validate_def validate_and_stage_generation_def run_manifest_2)
    (simp add: run_c_def run_d_def run_e_def promoted_row_def run_snapshots validate_defs run_defs guard_defs stage_defs)

lemma run_f_step: "run_promote 2 ''t2'' run_e = Inr (run_f, 1, 2)"
  by (simp add: run_promote_def promote_defs run_c_def run_d_def run_e_def run_f_def run_snapshots run_defs guard_defs
      run_emits [unfolded One_nat_def])

lemmas rollback_defs = run_rollback_def rollback_sales_generation_def clone_generation_def rollback_snapshot_def rollback_manifest_def
  operator_rollback_def insert_snapshot_def copied_stage_def run_clone_def

lemma run_g_step: "run_rollback 3 2 ''t2'' run_f = Inr (run_g, 3, 1, 3)"
  by (simp add: rollback_defs promote_defs run_f_def run_g_def run_p3_def run_snapshots run_defs guard_defs stage_defs
      run_emits [unfolded One_nat_def])

lemma run_h_step: "run_rollback 4 3 ''rt2'' run_g = Inr (run_h, 4, 1, 4)"
  by (simp add: rollback_defs promote_defs run_g_def run_h_def run_p3_def run_p4_def run_snapshots run_defs guard_defs stage_defs
      run_emits [unfolded One_nat_def])

lemma run_steps:
  "sales_step text_sha run_empty run_a" "sales_step text_sha run_a run_b" "sales_step text_sha run_b run_c"
  "sales_step text_sha run_c run_d" "sales_step text_sha run_d run_e" "sales_step text_sha run_e run_f"
proof -
  have env: "env_sha run_env = text_sha" "pe_sha (run_penv i now) = text_sha" "pr_action (run_request i tk) = ''promote''" for i now tk
    by (simp_all add: run_env_def run_penv_def run_request_def)
  show "sales_step text_sha run_empty run_a" by (rule sg_reserve [OF run_a_step [unfolded run_reserve_def]])
  show "sales_step text_sha run_a run_b" by (rule sg_validate [OF run_b_step [unfolded run_validate_def] env(1)])
  show "sales_step text_sha run_b run_c" by (rule sg_promote [OF run_c_step [unfolded run_promote_def] env(2,3)])
  show "sales_step text_sha run_c run_d" by (rule sg_reserve [OF run_d_step [unfolded run_reserve_def]])
  show "sales_step text_sha run_d run_e" by (rule sg_validate [OF run_e_step [unfolded run_validate_def] env(1)])
  show "sales_step text_sha run_e run_f" by (rule sg_promote [OF run_f_step [unfolded run_promote_def] env(2,3)])
qed

lemma run_empty_state: "reachable_from sales_empty (sales_step text_sha) run_empty"
  by (rule reach_init) (simp add: sales_empty_def outbox_empty_def run_empty_def run_outbox_def)

lemma run_reachable:
  "reachable_from sales_empty (sales_step text_sha) run_b" "reachable_from sales_empty (sales_step text_sha) run_e"
  "reachable_from sales_empty (sales_step text_sha) run_f" "reachable_from sales_empty (sales_step text_sha) run_c"
proof -
  have a: "reachable_from sales_empty (sales_step text_sha) run_a" by (rule reach_step, rule run_empty_state, rule run_steps)
  show b: "reachable_from sales_empty (sales_step text_sha) run_b" by (rule reach_step, rule a, rule run_steps)
  show c: "reachable_from sales_empty (sales_step text_sha) run_c" by (rule reach_step, rule b, rule run_steps)
  have d: "reachable_from sales_empty (sales_step text_sha) run_d" by (rule reach_step, rule c, rule run_steps)
  show e: "reachable_from sales_empty (sales_step text_sha) run_e" by (rule reach_step, rule d, rule run_steps)
  show "reachable_from sales_empty (sales_step text_sha) run_f" by (rule reach_step, rule e, rule run_steps)
qed

end
