(* ===== verification/Sales_Correctness.thy ===== *)
theory Sales_Correctness
  imports Sales_Sample
begin

text \<open>
  The guarantees of the sales generations: what is published in every reachable state, what a promotion
  and a rollback change, and that the totals of a manifest are those of its staged rows.
\<close>

section \<open>Totals of the manifest\<close>

lemma map_stage_records: "(\<And>n l. f (stage_record i month n l) = g l) \<Longrightarrow> map f (stage_records i month ls) = map g ls"
proof -
  assume f: "\<And>n l. f (stage_record i month n l) = g l"
  have "map f (stage_records i month ls) = map (g \<circ> snd) (enumerate 1 ls)"
    by (auto simp: stage_records_def f)
  also have "\<dots> = map g ls" by (metis map_map map_snd_enumerate)
  finally show ?thesis .
qed

lemma build_manifest_Inr:
  assumes "build_sales_generation_manifest sha na rj dj ls src cutoff rows_in rows_out = Inr m"
  shows "ls \<noteq> []" and "mf_rows_imported m = int (length ls)" and "mf_store_count m = length (remdups (map SiteCode ls))"
    and "mf_total_quantity m = sum_list (map Cantitate ls)" and "mf_total_value m = sum_list (map line_value ls)"
    and "mf_max_sale_date m = max_day (map Data ls)"
    and "mf_site_days m = map site_day_row (sort_key fst (site_days_of na ls))"
  using assms by (auto simp: build_sales_generation_manifest_def Let_def split: if_splits)

text \<open>
  The controls that the database computes over the staged rows (\<^verbatim>\<open>_verify_stage_controls\<close>) are those
  that Python computed over the lines of the workbook: a generation whose manifest could be built never
  fails these checks on its own rows.
\<close>

theorem manifest_matches_stage:
  assumes "build_sales_generation_manifest sha na rj dj ls src cutoff rows_in rows_out = Inr m"
  shows "controls_match m (controls_of (stage_records i month ls))"
proof -
  have len: "length (stage_records i month ls) = length ls" by (simp add: stage_records_def)
  have "map st_site (stage_records i month ls) = map SiteCode ls" "map quantity (stage_records i month ls) = map Cantitate ls"
    "map total_value (stage_records i month ls) = map line_value ls" "map sale_date (stage_records i month ls) = map Data ls"
    by (rule map_stage_records, simp add: stage_record_def line_value_def)+
  moreover have "stage_records i month ls \<noteq> []" using len build_manifest_Inr(1) [OF assms] by auto
  ultimately show ?thesis
    using build_manifest_Inr [OF assms] by (simp add: controls_match_def controls_of_def len)
qed

theorem manifest_matches_stage_witness:
  "\<exists>m. build_sales_generation_manifest text_sha id (\<lambda>_. []) (\<lambda>_. []) (run_lines 5) run_sha (2026, 7, 31) 1 0 = Inr m
    \<and> controls_match m (controls_of (stage_records 1 ''2026-07'' (run_lines 5)))"
proof -
  have "is_ok (build_sales_generation_manifest text_sha id (\<lambda>_. []) (\<lambda>_. []) (run_lines 5) run_sha (2026, 7, 31) 1 0)" by code_simp
  then show ?thesis using manifest_matches_stage by (force simp: is_ok_iff)
qed

section \<open>Days per store\<close>

lemma site_days_snoc: "site_days_of na (ls @ [l]) = add_line na (site_days_of na ls) l"
  by (simp add: site_days_of_def)

lemma site_days_keys: "distinct (map fst (site_days_of na ls))"
proof (induction ls rule: rev_induct)
  case (snoc l ls)
  then show ?case by (simp add: site_days_snoc add_line_def Let_def dict_set_keys)
qed (simp add: site_days_of_def)

lemma site_days_sum:
  assumes zero: "f \<lparr>dt_rows = 0, dt_receipts = [], dt_quantity = 0, dt_value = 0\<rparr> = 0"
    and add: "\<And>l t. f (add_to_day na l t) = f t + g l"
  shows "sum_list (map (\<lambda>e. f (snd e)) (site_days_of na ls)) = (sum_list (map g ls) :: int)"
proof (induction ls rule: rev_induct)
  case (snoc l ls)
  then show ?case
    by (simp add: site_days_snoc add_line_def Let_def dict_set_sum [OF site_days_keys] add zero split: option.split)
qed (simp add: site_days_of_def)

text \<open>
  The days per store of a manifest partition the generation: their rows, quantities and values add up
  to the manifest's totals, whatever the order of the lines.
\<close>

theorem site_days_partition:
  assumes "build_sales_generation_manifest sha na rj dj ls src cutoff rows_in rows_out = Inr m"
  shows "sum_list (map (int \<circ> sd_rows) (mf_site_days m)) = mf_rows_imported m
    \<and> sum_list (map sd_quantity (mf_site_days m)) = mf_total_quantity m
    \<and> sum_list (map sd_value (mf_site_days m)) = mf_total_value m"
proof -
  note m = build_manifest_Inr [OF assms]
  have "sum_list (map (int \<circ> sd_rows) (mf_site_days m)) = sum_list (map (\<lambda>e. int (dt_rows (snd e))) (site_days_of na ls))"
    by (simp add: m(7) comp_def site_day_row_def sum_list_sort_key)
  also have "\<dots> = sum_list (map (\<lambda>l. 1) ls)" by (rule site_days_sum) (simp_all add: add_to_day_def)
  finally have rows: "sum_list (map (int \<circ> sd_rows) (mf_site_days m)) = mf_rows_imported m"
    by (simp add: m(2) sum_list_triv)
  have "sum_list (map sd_quantity (mf_site_days m)) = sum_list (map (\<lambda>e. dt_quantity (snd e)) (site_days_of na ls))"
    by (simp add: m(7) comp_def site_day_row_def sum_list_sort_key)
  also have "\<dots> = mf_total_quantity m" unfolding m(4) by (rule site_days_sum) (simp_all add: add_to_day_def)
  finally have qty: "sum_list (map sd_quantity (mf_site_days m)) = mf_total_quantity m" .
  have "sum_list (map sd_value (mf_site_days m)) = sum_list (map (\<lambda>e. dt_value (snd e)) (site_days_of na ls))"
    by (simp add: m(7) comp_def site_day_row_def sum_list_sort_key)
  also have "\<dots> = mf_total_value m" unfolding m(5) by (rule site_days_sum) (simp_all add: add_to_day_def)
  finally show ?thesis using rows qty by simp
qed

theorem site_days_partition_witness:
  "\<exists>m. build_sales_generation_manifest text_sha id (\<lambda>_. []) (\<lambda>_. []) [sample_line (False, 5), sample_line (True, 2)] run_sha (2026, 7, 31) 2 0 = Inr m
    \<and> sum_list (map sd_value (mf_site_days m)) = mf_total_value m"
proof -
  have "is_ok (build_sales_generation_manifest text_sha id (\<lambda>_. []) (\<lambda>_. []) [sample_line (False, 5), sample_line (True, 2)] run_sha (2026, 7, 31) 2 0)"
    by code_simp
  then show ?thesis using site_days_partition by (force simp: is_ok_iff)
qed

section \<open>What is published\<close>

definition live_of_month :: "string \<Rightarrow> sales_db \<Rightarrow> live_row list" where
  "live_of_month m db = filter (\<lambda>r. lv_import_month r = m) (s_live db)"

lemma live_of_head:
  assumes "sales_inv sha db" and "head_of m db = Some h"
  shows "live_of_month m db = map live_of (staged (hd_snapshot_id h) db)"
proof -
  from assms(2) have "h \<in> set (s_heads db)" "hd_import_month h = m" by (auto simp: head_of_def dest: row_by_SomeD)
  with sales_invD(7) [OF assms(1)] show ?thesis by (auto simp: head_ok_def live_of_month_def)
qed

text \<open>
  C2: in every state reached by any interleaving of imports, claims, promotions, rollbacks, recoveries and
  deliveries, the live sales of a month are exactly the staged rows of its head in their order, and a month
  without a head has none; the promotions recorded for a month number the revisions of its head from one
  without a gap, the last of them to the head; the digest bound to a generation is that of its staged rows;
  and at most one import of a month is in progress.
\<close>

theorem published_sales_invariant:
  assumes "reachable_from sales_empty (sales_step sha) db"
  shows "live_of_month m db = (case head_of m db of None \<Rightarrow> [] | Some h \<Rightarrow> map live_of (staged (hd_snapshot_id h) db))
    \<and> map head_revision (ledger_of m db) = [1..<Suc (head_revision_of db m)]
    \<and> (\<forall>h. head_of m db = Some h \<longrightarrow> to_snapshot_id (last (ledger_of m db)) = hd_snapshot_id h)
    \<and> (\<forall>s \<in> set (s_snapshots db). \<forall>d. stage_rows_sha256 s = Some d \<longrightarrow> d = stage_digest sha (sn_id s) db)
    \<and> distinct (processing_months (s_snapshots db))"
proof -
  have inv: "sales_inv sha db" by (rule sg.reachable_inv [OF assms])
  note i = sales_invD [OF inv]
  have "live_of_month m db = []" if "head_of m db = None"
    using that i(8) by (fastforce simp: live_of_month_def filter_empty_conv head_of_def row_by_None_iff)
  moreover from i(9) [of m] have "\<forall>h. head_of m db = Some h \<longrightarrow> to_snapshot_id (last (ledger_of m db)) = hd_snapshot_id h"
    "map head_revision (ledger_of m db) = [1..<Suc (head_revision_of db m)]"
    by (auto simp: ledger_ok_def simp del: upt_Suc)
  ultimately show ?thesis
    using live_of_head [OF inv] i(2,5) by (auto simp: snapshot_ok_def split: option.splits simp del: upt_Suc)
qed

theorem published_sales_invariant_witness:
  "live_of_month ''2026-07'' run_f = map live_of (run_rows 2 7) \<and> map head_revision (ledger_of ''2026-07'' run_f) = [1, 2]"
proof -
  have h: "head_of ''2026-07'' run_f = Some (run_head 2)" by (simp add: head_of_def run_f_def run_published_def run_head_def)
  have st: "staged 2 run_f = run_rows 2 7" by (simp add: staged_def run_f_def run_published_def run_defs)
  have "head_revision_of run_f ''2026-07'' = 2" by (simp add: head_revision_of_def h run_head_def)
  moreover have "hd_snapshot_id (run_head 2) = 2" by (simp add: run_head_def)
  ultimately show ?thesis
    using published_sales_invariant [OF run_reachable(3), of "''2026-07''"] by (simp add: h st upt_rec)
qed

lemma effect_live:
  assumes "promotion_effect env rq s revision db db'"
  shows "live_of_month m db' = (if m = sn_import_month s then map live_of (staged (pr_snapshot_id rq) db) else live_of_month m db)"
  using promotion_effectD(5,6) [OF assms refl refl]
  by (auto simp: live_of_month_def filter_empty_conv intro!: filter_cong)

lemma effect_lookup:
  assumes "promotion_effect env rq s revision db db'" and "distinct (map hd_import_month (s_heads db))"
  shows "head_of m db' = (if m = sn_import_month s
    then Some \<lparr>hd_import_month = m, hd_snapshot_id = pr_snapshot_id rq, hd_revision = revision\<rparr> else head_of m db)"
  using head_moved_lookup [OF promotion_effectD(2) [OF assms(1) refl refl] assms(2) refl, of m]
    promotion_effectD(1) [OF assms(1) refl refl] by simp

text \<open>
  C3: a promotion publishes one generation atomically. When it succeeds, its worker held an unexpired lease
  and the head still had the revision the import had read; the live sales of the month are then the staged
  rows, every other month keeps its sales and its head, the head of the month has the next revision, the
  ledger has one entry more, whose predecessor is the head that was replaced, and the outbox holds the event
  of this revision and manifest, written by a transaction of the outbox itself.
\<close>

theorem promotion_publishes_generation:
  assumes "reachable_from sales_empty (sales_step (pe_sha env)) db"
    and "promote_sales_generation env rq db = Inr (db', n, revision)"
  shows "\<exists>s. get_snapshot (pr_snapshot_id rq) db = Some s
    \<and> leased_to (pr_snapshot_id rq) (pr_token rq) (pr_owner rq) (pe_now env) s
    \<and> expected_head_revision s = head_revision_of db (sn_import_month s) \<and> revision = Suc (expected_head_revision s)
    \<and> n = length (staged (pr_snapshot_id rq) db)
    \<and> (\<forall>m. live_of_month m db' = (if m = sn_import_month s then map live_of (staged (pr_snapshot_id rq) db) else live_of_month m db)
         \<and> head_of m db' = (if m = sn_import_month s
             then Some \<lparr>hd_import_month = m, hd_snapshot_id = pr_snapshot_id rq, hd_revision = revision\<rparr> else head_of m db))
    \<and> (\<exists>p. s_promotions db' = s_promotions db @ [p] \<and> to_snapshot_id p = pr_snapshot_id rq \<and> head_revision p = revision
         \<and> from_snapshot_id p = map_option hd_snapshot_id (head_of (sn_import_month s) db))
    \<and> outbox_step (s_outbox db) (s_outbox db')
    \<and> (\<exists>e \<in> set (db_events (s_outbox db')). ev_aggregate_id e = ''sales-'' @ sn_import_month s
         \<and> ev_revision e = int revision \<and> ev_generation_hash e = pr_manifest_sha256 rq)"
proof -
  have inv: "sales_inv (pe_sha env) db" by (rule sg.reachable_inv [OF assms(1)])
  note old = sales_invD [OF inv]
  from promote_effect [OF assms(2) old(1,3)] obtain s where s: "get_snapshot (pr_snapshot_id rq) db = Some s"
      "leased_to (pr_snapshot_id rq) (pr_token rq) (pr_owner rq) (pe_now env) s"
      "expected_head_revision s = head_revision_of db (sn_import_month s)" "n = length (staged (pr_snapshot_id rq) db)"
    and eff: "promotion_effect env rq s revision db db'" .
  note e = promotion_effectD [OF eff refl refl]
  show ?thesis
    using s e(1,7,8,10) effect_live [OF eff] effect_lookup [OF eff old(3)] by (intro exI [of _ s]) auto
qed

theorem promotion_publishes_generation_witness:
  "\<exists>env rq db db' n revision. reachable_from sales_empty (sales_step (pe_sha env)) db
    \<and> promote_sales_generation env rq db = Inr (db', n, revision) \<and> outbox_step (s_outbox db) (s_outbox db')"
proof -
  have r: "reachable_from sales_empty (sales_step (pe_sha (run_penv 2 3000))) run_e"
    using run_reachable(2) by (simp add: run_penv_def)
  note p = run_f_step [unfolded run_promote_def]
  from promotion_publishes_generation [OF r p] r p show ?thesis by blast
qed

text \<open>
  C17: of two imports of a month that read the same revision of its head, at most one is promoted, whatever
  transactions run between them.
\<close>

theorem concurrent_promotions_exclusive:
  assumes "reachable_from sales_empty (sales_step sha) db" and "promotes sha db month e db1"
    and "(sales_step sha)\<^sup>*\<^sup>* db1 db2"
  shows "\<not> promotes sha db2 month e db3"
  using sg.no_lost_update [OF sg.reachable_inv [OF assms(1)] assms(2,3)] .

theorem concurrent_promotions_exclusive_witness:
  "promotes text_sha run_b ''2026-07'' 0 run_c \<and> (\<forall>db. \<not> promotes text_sha run_f ''2026-07'' 0 db)"
proof -
  have snap: "get_snapshot 1 run_b = Some run_v1" by (simp add: get_snapshot_def run_b_def run_v1_def run_defs)
  have first: "promotes text_sha run_b ''2026-07'' 0 run_c"
    unfolding promotes_def
    by (rule exI [of _ "run_penv 1 3000"], rule exI [of _ "run_request 1 ''t1''"])
      (use run_c_step snap in \<open>simp add: run_promote_def run_penv_def run_request_def run_v1_def run_defs\<close>)
  have later: "(sales_step text_sha)\<^sup>*\<^sup>* run_c run_f"
    using run_steps by (meson rtranclp.rtrancl_into_rtrancl rtranclp.rtrancl_refl)
  from concurrent_promotions_exclusive [OF run_reachable(1) first later] first show ?thesis by blast
qed

section \<open>Rollback\<close>

lemma staged_copied:
  assumes inv: "sales_inv sha db" and fresh: "new \<notin> sn_id ` set (s_snapshots db)" and st: "s_stage db1 = s_stage db"
  shows "staged new (db1\<lparr>s_stage := s_stage db1 @ copied_stage new target db1\<rparr>) = map (\<lambda>r. r\<lparr>snapshot_id := new\<rparr>) (staged target db)"
proof -
  have none: "filter (\<lambda>r. snapshot_id r = new) (s_stage db) = []"
    using sales_invD(6) [OF inv] fresh by (auto simp: filter_empty_conv)
  have copies: "filter (\<lambda>r. snapshot_id r = new) (map (\<lambda>r. r\<lparr>snapshot_id := new\<rparr>) rs) = map (\<lambda>r. r\<lparr>snapshot_id := new\<rparr>) rs" for rs
    by (induction rs) auto
  have "sorted (map row_number (staged target db))" by (simp add: staged_def)
  then have "sort_key row_number (map (\<lambda>r. r\<lparr>snapshot_id := new\<rparr>) (staged target db)) = map (\<lambda>r. r\<lparr>snapshot_id := new\<rparr>) (staged target db)"
    by (intro sort_key_id_if_sorted) (simp add: comp_def)
  moreover have "copied_stage new target db1 = map (\<lambda>r. r\<lparr>snapshot_id := new\<rparr>) (staged target db)"
    using st by (simp add: copied_stage_def staged_def)
  ultimately show ?thesis by (simp add: staged_def st none copies)
qed

text \<open>What the clone of a generation leaves before it is promoted.\<close>

lemma clone_effect:
  assumes inv: "sales_inv sha db" and c: "clone_generation sha ids current h source m m_sha digest now db = Inr db'"
  shows "\<exists>s. get_snapshot (ri_snapshot_id ids) db' = Some s \<and> sn_import_month s = hd_import_month h"
    and "staged (ri_snapshot_id ids) db' = map (\<lambda>r. r\<lparr>snapshot_id := ri_snapshot_id ids\<rparr>) (staged (sn_id source) db)"
    and "k \<noteq> ri_snapshot_id ids \<Longrightarrow> staged k db' = staged k db"
    and "ri_snapshot_id ids \<notin> sn_id ` set (s_snapshots db)"
proof -
  let ?i = "ri_snapshot_id ids"
  from c obtain s db1 db2 P f where s: "s = rollback_snapshot ids current (hd_import_month h) (hd_revision h) source m m_sha now"
    and ins: "insert_snapshot s db = Inr db1" and st: "insert_stage (copied_stage ?i (sn_id source) db1) db1 = Inr db2"
    and up: "update_snapshots sha P f db2 = Inr db'" "quiet P f" by (rule clone_statements)
  have i: "sn_id s = ?i" "sn_import_month s = hd_import_month h" by (simp_all add: s rollback_snapshot_def)
  note ins' = insert_snapshot_Inr [OF ins, unfolded i]
  then show fresh: "?i \<notin> sn_id ` set (s_snapshots db)" by simp
  from st have db2: "db2 = db1\<lparr>s_stage := s_stage db1 @ copied_stage ?i (sn_id source) db1\<rparr>" by (auto dest: insert_stage_Inr(1))
  from quiet_update [OF up] obtain t where t: "db' = db2\<lparr>s_snapshots := t\<rparr>" "list_all2 (row_step sha db2) (s_snapshots db2) t" .
  have db1_st: "s_stage db1 = s_stage db" by (simp add: ins'(1))
  have st1: "staged k db' = staged k db2" for k by (simp add: t(1) staged_def)
  show "staged ?i db' = map (\<lambda>r. r\<lparr>snapshot_id := ?i\<rparr>) (staged (sn_id source) db)"
    unfolding st1 db2 by (rule staged_copied [OF inv fresh db1_st])
  show "staged k db' = staged k db" if "k \<noteq> ?i"
    unfolding st1 db2 using staged_other(1) [OF _ that, of "copied_stage ?i (sn_id source) db1" db1] staged_same [OF db1_st]
    by (simp add: copied_stage_def)
  have "row_by sn_id ?i (s_snapshots db) = None" using fresh by (force simp: row_by_None_iff)
  then have "row_by sn_id ?i (s_snapshots db2) = Some s" by (simp add: db2 ins'(1) row_by_append i)
  with rows_get [OF t(2)] row_step_fields(2) i(2)
  show "\<exists>s. get_snapshot ?i db' = Some s \<and> sn_import_month s = hd_import_month h"
    by (fastforce simp: get_snapshot_def t(1))
qed

lemma head_by_snapshot:
  assumes "sales_inv sha db" and "List.find (\<lambda>h. hd_snapshot_id h = cur) (s_heads db) = Some h"
  shows "hd_snapshot_id h = cur" and "head_of (hd_import_month h) db = Some h"
proof -
  from assms(2) have "h \<in> set (s_heads db)" "hd_snapshot_id h = cur" by (auto simp: find_Some_iff)
  with sales_invD(3) [OF assms(1)] show "hd_snapshot_id h = cur" and "head_of (hd_import_month h) db = Some h"
    by (auto simp: head_of_def intro: row_by_unique)
qed

text \<open>The outcome of a rollback of head \<open>h\<close> to the generation \<open>target\<close>, as the new generation \<open>new\<close>.\<close>

definition rolled_back :: "sales_head \<Rightarrow> nat \<Rightarrow> nat \<Rightarrow> sales_db \<Rightarrow> sales_db \<Rightarrow> bool" where
  "rolled_back h target new db db' \<longleftrightarrow>
     (\<forall>m. live_of_month m db' = (if m = hd_import_month h
        then map (\<lambda>r. live_of (r\<lparr>snapshot_id := new\<rparr>)) (staged target db) else live_of_month m db))
   \<and> head_of (hd_import_month h) db' = Some \<lparr>hd_import_month = hd_import_month h, hd_snapshot_id = new, hd_revision = Suc (hd_revision h)\<rparr>
   \<and> (\<exists>s. get_snapshot new db' = Some s \<and> previous_snapshot_id s = Some (hd_snapshot_id h))
   \<and> (\<forall>k \<in> sn_id ` set (s_snapshots db). k \<noteq> new \<and> staged k db' = staged k db)"

lemma rollback_effect:
  assumes inv: "sales_inv (pe_sha env) db" and r: "rollback_sales_generation env ids rb db = Inr (db', j, n, revision)"
  obtains h c target where "head_of (hd_import_month h) db = Some h" and "hd_snapshot_id h = rb_current_snapshot_id rb"
    and "get_snapshot (rb_current_snapshot_id rb) db = Some c" and "previous_snapshot_id c = Some target"
    and "rolled_back h target j db db'"
  using r
proof (rule rollback_statements)
  fix h c target source digest m0 m_sha db1
  let ?cur = "rb_current_snapshot_id rb" and ?i = "ri_snapshot_id ids"
  assume f: "List.find (\<lambda>h. hd_snapshot_id h = ?cur) (s_heads db) = Some h"
    and c: "get_snapshot ?cur db = Some c" "previous_snapshot_id c = Some target" and src: "get_snapshot target db = Some source"
    and cl: "clone_generation (pe_sha env) ids ?cur h source (rollback_manifest m0 digest ?cur target) m_sha digest (pe_now env) db = Inr db1"
    and p: "promote_sales_generation env (rollback_promotion ids rb m_sha) db1 = Inr (db', n, revision)" and j: "j = ?i"
  note hd = head_by_snapshot [OF inv f] and cl' = clone_effect [OF inv cl]
  from silent_clone [OF cl] inv have inv1: "sales_inv (pe_sha env) db1" and pub: "same_published db db1" by (auto simp: silent_def)
  have id: "sn_id source = target" using src by (auto simp: get_snapshot_def dest: row_by_SomeD)
  have rq: "pr_snapshot_id (rollback_promotion ids rb m_sha) = ?i" by (simp add: rollback_promotion_def)
  from promote_effect [OF p sales_invD(1,3) [OF inv1], unfolded rq] obtain s where s: "get_snapshot ?i db1 = Some s"
    and eff: "promotion_effect env (rollback_promotion ids rb m_sha) s revision db1 db'" .
  note e = promotion_effectD [OF eff refl refl, unfolded rq]
  have month: "sn_import_month s = hd_import_month h" using cl'(1) s by auto
  have heads1: "head_of m db1 = head_of m db" "head_revision_of db1 m = head_revision_of db m" for m
    using pub by (simp_all add: same_published_def head_of_def head_revision_of_def)
  have live: "live_of_month m db' = (if m = hd_import_month h
      then map (\<lambda>r. live_of (r\<lparr>snapshot_id := ?i\<rparr>)) (staged target db) else live_of_month m db)" for m
    using effect_live [OF eff, of m] pub cl'(2) by (simp add: rq month id comp_def live_of_month_def same_published_def)
  have "staged k db' = staged k db" if "k \<noteq> ?i" for k
    using cl'(3) [OF that] staged_same [OF e(3)] by simp
  with cl'(4) have kept: "\<forall>k \<in> sn_id ` set (s_snapshots db). k \<noteq> ?i \<and> staged k db' = staged k db" by metis
  have "rolled_back h target ?i db db'"
    unfolding rolled_back_def
  proof (intro conjI allI)
    show "head_of (hd_import_month h) db' = Some \<lparr>hd_import_month = hd_import_month h, hd_snapshot_id = ?i, hd_revision = Suc (hd_revision h)\<rparr>"
      using effect_lookup [OF eff sales_invD(3) [OF inv1], of "hd_import_month h"] e(1) hd(2) heads1
      by (simp add: rq month head_revision_of_def)
    show "\<exists>s. get_snapshot ?i db' = Some s \<and> previous_snapshot_id s = Some (hd_snapshot_id h)"
      using e(9) hd(2) heads1 by (auto simp: month)
  qed (use live kept in auto)
  with hd c j show ?thesis by (intro that) auto
qed

text \<open>
  A rollback restores the generation before the head. It publishes, as a new generation at the next
  revision, copies of the rows that the predecessor of the head had staged; other months and all earlier
  generations are unchanged, and the generation that was rolled back becomes the predecessor of the new head.
\<close>

theorem rollback_restores_predecessor:
  assumes "reachable_from sales_empty (sales_step (pe_sha env)) db"
    and "rollback_sales_generation env ids rb db = Inr (db', j, n, revision)"
  shows "\<exists>h c target. head_of (hd_import_month h) db = Some h \<and> hd_snapshot_id h = rb_current_snapshot_id rb
    \<and> get_snapshot (rb_current_snapshot_id rb) db = Some c \<and> previous_snapshot_id c = Some target
    \<and> rolled_back h target j db db'"
  using rollback_effect [OF sg.reachable_inv [OF assms(1)] assms(2)] by blast

theorem rollback_restores_predecessor_witness:
  "\<exists>env ids rb. \<exists>h c. rollback_sales_generation env ids rb run_f = Inr (run_g, 3, 1, 3) \<and> get_snapshot 2 run_f = Some c
    \<and> previous_snapshot_id c = Some 1 \<and> hd_snapshot_id h = 2 \<and> rolled_back h 1 3 run_f run_g"
proof -
  have r: "reachable_from sales_empty (sales_step (pe_sha (run_penv 3 4000))) run_f"
    using run_reachable(3) by (simp add: run_penv_def)
  have c: "get_snapshot 2 run_f = Some run_p2" "previous_snapshot_id run_p2 = Some 1"
    by (simp_all add: get_snapshot_def run_f_def run_published_def run_snapshots promoted_row_def run_defs set_state_def)
  note rb = run_g_step [unfolded run_rollback_def]
  from rollback_restores_predecessor [OF r rb] c rb show ?thesis by (auto 0 4)
qed

text \<open>The content of a live row, without the generation it came from.\<close>

definition sale_content :: "live_row \<Rightarrow> live_row" where
  "sale_content r = r\<lparr>lv_snapshot_id := 0\<rparr>"

lemma content_of_copy: "sale_content (live_of (r\<lparr>snapshot_id := j\<rparr>)) = sale_content (live_of r)"
  by (simp add: sale_content_def live_of_def)

lemma head_snapshot:
  assumes "sales_inv sha db" and "head_of m db = Some h"
  shows "\<exists>s. get_snapshot (hd_snapshot_id h) db = Some s \<and> sn_import_month s = m"
proof -
  from assms(2) have "h \<in> set (s_heads db)" "hd_import_month h = m" by (auto simp: head_of_def dest: row_by_SomeD)
  with sales_invD(7) [OF assms(1)] show ?thesis by (auto simp: head_ok_def)
qed

text \<open>
  C18: rolling a rollback back returns to the sales that were live before: every month shows the same rows in
  the same order, at a revision higher by two.
\<close>

theorem rollback_twice:
  assumes reach: "reachable_from sales_empty (sales_step sha) db" and sha: "pe_sha env = sha" "pe_sha env' = sha"
    and r1: "rollback_sales_generation env ids rb db = Inr (db1, j, n, revision)"
    and r2: "rollback_sales_generation env' ids' rb' db1 = Inr (db2, j', n', revision')"
    and again: "rb_current_snapshot_id rb' = j"
  shows "map sale_content (live_of_month m db2) = map sale_content (live_of_month m db)
    \<and> (\<exists>h. head_of (hd_import_month h) db = Some h \<and> hd_snapshot_id h = rb_current_snapshot_id rb
         \<and> head_of (hd_import_month h) db2 = Some \<lparr>hd_import_month = hd_import_month h, hd_snapshot_id = j', hd_revision = hd_revision h + 2\<rparr>)"
proof -
  have inv: "sales_inv (pe_sha env) db" using sg.reachable_inv [OF reach] sha by simp
  have inv1: "sales_inv (pe_sha env') db1" using inv_rollback [OF inv r1] sha by simp
  from inv r1 obtain h target where h: "head_of (hd_import_month h) db = Some h" "hd_snapshot_id h = rb_current_snapshot_id rb"
    and rb1: "rolled_back h target j db db1" by (rule rollback_effect)
  from inv1 r2 obtain h' c' target' where h': "head_of (hd_import_month h') db1 = Some h'" "hd_snapshot_id h' = j"
      "get_snapshot j db1 = Some c'" "previous_snapshot_id c' = Some target'" and rb2: "rolled_back h' target' j' db1 db2"
    unfolding again [symmetric] by (rule rollback_effect)
  have t': "target' = hd_snapshot_id h" using rb1 h'(3,4) by (auto simp: rolled_back_def)
  let ?new = "\<lparr>hd_import_month = hd_import_month h, hd_snapshot_id = j, hd_revision = Suc (hd_revision h)\<rparr>"
  have new: "head_of (hd_import_month h) db1 = Some ?new" using rb1 by (simp add: rolled_back_def)
  have month: "hd_import_month h' = hd_import_month h"
    using head_snapshot [OF inv1 new] head_snapshot [OF inv1 h'(1)] h'(2) by auto
  with new h'(1) have h'_eq: "h' = ?new" by simp
  have "hd_snapshot_id h \<in> sn_id ` set (s_snapshots db)"
    using head_snapshot [OF inv h(1)] by (force simp: get_snapshot_def dest: row_by_SomeD)
  then have kept: "staged (hd_snapshot_id h) db1 = staged (hd_snapshot_id h) db" using rb1 unfolding rolled_back_def by blast
  have "map sale_content (live_of_month m db2) = map sale_content (live_of_month m db)"
    using rb1 rb2 kept live_of_head [OF inv h(1)]
    by (auto simp: rolled_back_def month t' comp_def content_of_copy)
  with h rb2 h'_eq show ?thesis by (auto simp: rolled_back_def)
qed

theorem rollback_twice_witness:
  "map sale_content (live_of_month ''2026-07'' run_h) = map sale_content (live_of_month ''2026-07'' run_f)
    \<and> live_of_month ''2026-07'' run_g \<noteq> live_of_month ''2026-07'' run_f"
proof -
  have "map sale_content (live_of_month ''2026-07'' run_h) = map sale_content (live_of_month ''2026-07'' run_f)"
    using rollback_twice [OF run_reachable(3) _ _ run_g_step [unfolded run_rollback_def] run_h_step [unfolded run_rollback_def]]
    by (simp add: run_penv_def)
  moreover have "live_of_month ''2026-07'' run_g \<noteq> live_of_month ''2026-07'' run_f"
    by (simp add: live_of_month_def run_f_def run_g_def run_published_def live_of_def run_defs)
  ultimately show ?thesis by simp
qed

section \<open>Recovery at startup\<close>

text \<open>
  C33: the startup recovery of retained sources closes an import that has not been validated yet even while its
  worker holds an unexpired lease: when the source could be retained and the update is accepted, the import is
  failed and the worker's lease is gone.
\<close>

theorem recovery_closes_live_import:
  assumes s: "get_snapshot i db = Some s" and live: "leased_to i (generation_token s) (owner_id s) now s"
    and art: "has_artifact s" and early: "\<not> open_generation s"
    and rec: "reconcile_sales_artifact sha s (RetainedAt path bytes) now db = Inr db'"
  shows "\<exists>s'. get_snapshot i db' = Some s' \<and> sn_status s' = Failed_import
    \<and> \<not> leased_to i (generation_token s) (owner_id s) now s'"
proof -
  let ?P = "\<lambda>u. owned (sn_id s) (generation_token s) (owner_id s) u \<and> has_artifact u"
  let ?f = "recover_retained path (case source_sha256 s of None \<Rightarrow> ''None'' | Some h \<Rightarrow> h) bytes now"
  from rec have u: "update_snapshots sha ?P ?f db = Inr db'" by (simp add: reconcile_sales_artifact_def Let_def)
  have P: "?P s" using live art by (simp add: leased_to_def owned_def)
  have same: "sn_id (?f v) = sn_id v" for v
    by (simp add: recover_retained_def retained_row_def back_to_validated_def set_state_def Let_def)
  have failed: "sn_status (?f s) = Failed_import" using early by (simp add: recover_retained_def Let_def)
  from updated_row [OF u s P same] obtain t where t: "get_snapshot i db' = Some t" "guard_snapshot sha db s (?f s) = Inr t" by blast
  from guard_snapshot_Inr(1) [OF t(2)] failed have "sn_status t = Failed_import" by auto
  with t(1) show ?thesis by (simp add: leased_to_def owned_def)
qed

definition retaining_snapshot :: snapshot where
  "retaining_snapshot = reserved_snapshot 1 ''2026-07'' ((run_reservation ''t1'')\<lparr>rv_artifact_required := True,
     rv_artifact_path := Some ''spool/1'', rv_artifact_bytes := Some 9\<rparr>) False None 1000"

theorem recovery_closes_live_import_witness:
  "\<exists>db db' s'. reachable_from sales_empty (sales_step text_sha) db \<and> get_snapshot 1 db = Some retaining_snapshot
    \<and> leased_to 1 ''t1'' ''w1'' 2000 retaining_snapshot
    \<and> reconcile_sales_artifact text_sha retaining_snapshot (RetainedAt ''kept/1'' 9) 2000 db = Inr db'
    \<and> get_snapshot 1 db' = Some s' \<and> sn_status s' = Failed_import"
proof -
  let ?db = "run_empty\<lparr>s_snapshots := [retaining_snapshot]\<rparr>" and ?rv = "(run_reservation ''t1'')\<lparr>rv_artifact_required := True,
     rv_artifact_path := Some ''spool/1'', rv_artifact_bytes := Some 9\<rparr>"
  have "reserve_snapshot text_sha 1 ''2026-07'' ?rv False 1000 run_empty = Inr (?db, 1)"
    by (simp add: reserve_snapshot_def insert_snapshot_def retaining_snapshot_def run_defs guard_defs)
  then have reach: "reachable_from sales_empty (sales_step text_sha) ?db"
    using run_empty_state by (blast intro: reach_step sg_reserve)
  have get: "get_snapshot 1 ?db = Some retaining_snapshot"
    and lease: "leased_to 1 (generation_token retaining_snapshot) (owner_id retaining_snapshot) 2000 retaining_snapshot"
    and art: "has_artifact retaining_snapshot" "\<not> open_generation retaining_snapshot"
    and names: "generation_token retaining_snapshot = ''t1''" "owner_id retaining_snapshot = ''w1''"
    by (simp_all add: retaining_snapshot_def run_defs guard_defs has_artifact_def)
  have "is_ok (reconcile_sales_artifact text_sha retaining_snapshot (RetainedAt ''kept/1'' 9) 2000 ?db)"
    by (simp add: reconcile_sales_artifact_def recover_retained_def retained_row_def back_to_validated_def artifact_exact_def
        has_artifact_def retaining_snapshot_def run_defs guard_defs)
  then obtain db' where rec: "reconcile_sales_artifact text_sha retaining_snapshot (RetainedAt ''kept/1'' 9) 2000 ?db = Inr db'"
    by (auto simp: is_ok_iff)
  from recovery_closes_live_import [OF get lease art rec] reach get lease rec names show ?thesis by auto
qed

end
