(* ===== verification/Sales_Import.thy ===== *)
theory Sales_Import
  imports Sales_Correctness
begin

text \<open>
  The import of a sales workbook end to end (\<^verbatim>\<open>import_sales_dataframe\<close> of \<^verbatim>\<open>services/importer.py\<close> with the
  filters of \<^verbatim>\<open>services/sales_import_parsing.py\<close>): reservation, validation with staging, and promotion are
  separate transactions, so that an error leaves what was committed before it. The lines are those of a
  workbook that \<^verbatim>\<open>validate_sales_dataframe\<close> accepted.
\<close>

section \<open>The import\<close>

definition valid_asm :: "sales_line \<Rightarrow> bool" where
  "valid_asm l \<longleftrightarrow> py_strip (ASM l) \<notin> {'''', ''-''}"

definition filter_asm_rows :: "sales_line list \<Rightarrow> sales_line list \<times> nat" where
  "filter_asm_rows ls = (let filtered = filter valid_asm ls in (filtered, length ls - length filtered))"

definition detect_month :: "sales_line list \<Rightarrow> (sales_error, string) result" where
  "detect_month ls = (case remdups (map (\<lambda>l. month_text (Data l)) ls) of
     [m] \<Rightarrow> Inr m | _ \<Rightarrow> Inl (SalesPolicyValidationError ''mixed_import_months''))"

definition is_month_final_at :: "string \<Rightarrow> string \<Rightarrow> bool" where
  "is_month_final_at current import_month \<longleftrightarrow> import_month < current"

record import_request =
  ir_filename :: string
  ir_source_sha256 :: "string option"
  ir_cutoff_date :: "sale_day option"
  ir_stage_only :: bool
  ir_requested_by :: string
  ir_override_reason :: "string option"
  ir_artifact_required :: bool
  ir_artifact_path :: "string option"
  ir_artifact_bytes :: "int option"

text \<open>What the import takes from outside: identifiers, the business month, the coverage report and the instants.\<close>

record import_context =
  ic_snapshot_id :: nat
  ic_token :: string
  ic_owner :: string
  ic_current_month :: string
  ic_row_digest :: string
  ic_coverage :: "anomaly list"
  ic_report :: string
  ic_reserved_at :: instant
  ic_validated_at :: instant
  ic_failed_at :: instant

record import_result =
  rs_import_month :: string
  rs_rows_in_file :: nat
  rs_rows_imported :: nat
  rs_rows_filtered :: nat
  rs_snapshot_id :: nat
  rs_generation_state :: gen_state
  rs_manifest_sha256 :: string

definition import_reservation :: "import_context \<Rightarrow> import_request \<Rightarrow> nat \<Rightarrow> string \<Rightarrow> sale_day \<Rightarrow> sales_reservation" where
  "import_reservation ic rq n digest cutoff = \<lparr>rv_filename = ir_filename rq, rv_rows_in_file = int n, rv_source_sha256 = Some digest,
     rv_cutoff_date = Some cutoff, rv_token = ic_token ic, rv_owner = ic_owner ic, rv_artifact_required = ir_artifact_required rq,
     rv_artifact_path = ir_artifact_path rq, rv_artifact_bytes = ir_artifact_bytes rq, rv_lease_seconds = 2 * 60 * 60\<rparr>"

definition import_promotion :: "import_context \<Rightarrow> import_request \<Rightarrow> string \<Rightarrow> promotion_request" where
  "import_promotion ic rq m_sha = \<lparr>pr_snapshot_id = ic_snapshot_id ic, pr_token = ic_token ic, pr_owner = ic_owner ic,
     pr_manifest_sha256 = m_sha, pr_requested_by = ir_requested_by rq, pr_override_reason = ir_override_reason rq,
     pr_action = ''promote''\<rparr>"

text \<open>The error of a failed validation is raised again, unless closing the import fails itself.\<close>

definition close_failed_import ::
  "import_env \<Rightarrow> import_context \<Rightarrow> (sales_error \<Rightarrow> string) \<Rightarrow> sales_error \<Rightarrow> sales_db \<Rightarrow> sales_db \<times> (sales_error, 'r) result" where
  "close_failed_import env ic text e db =
     (case fail_sales_generation (env_sha env) (ic_snapshot_id ic) (ic_token ic) (ic_owner ic) (text e) (ic_failed_at ic) db of
        Inl e' \<Rightarrow> (db, Inl e') | Inr db' \<Rightarrow> (db', Inl e))"

definition import_sales_dataframe ::
  "import_env \<Rightarrow> promotion_env \<Rightarrow> import_context \<Rightarrow> (sales_error \<Rightarrow> string) \<Rightarrow> import_request \<Rightarrow> sales_line list \<Rightarrow> sales_db
    \<Rightarrow> sales_db \<times> (sales_error, import_result) result" where
  "import_sales_dataframe env penv ic text rq ls db =
     (let (kept, rows_filtered) = filter_asm_rows ls; i = ic_snapshot_id ic in
      if kept = [] then (db, Inl (SalesPolicyValidationError ''empty_after_filter''))
      else case detect_month kept of Inl e \<Rightarrow> (db, Inl e) | Inr month \<Rightarrow>
        let cutoff = (case ir_cutoff_date rq of Some d \<Rightarrow> d | None \<Rightarrow> max_day (map Data kept));
            digest = (case ir_source_sha256 rq of None \<Rightarrow> ic_row_digest ic | Some [] \<Rightarrow> ic_row_digest ic | Some h \<Rightarrow> h) in
        (case reserve_snapshot (env_sha env) i month (import_reservation ic rq (length ls) digest cutoff)
            (is_month_final_at (ic_current_month ic) month) (ic_reserved_at ic) db of
          Inl e \<Rightarrow> (db, Inl e)
        | Inr (db1, _) \<Rightarrow>
          (case validate_and_stage_generation env kept month cutoff digest (int (length ls)) (int rows_filtered) i
              (ic_token ic) (ic_owner ic) (ic_coverage ic) (ic_report ic) (ic_validated_at ic) db1 of
            Inl e \<Rightarrow> close_failed_import env ic text e db1
          | Inr (db2, n, m, m_sha) \<Rightarrow>
              let result = \<lparr>rs_import_month = month, rs_rows_in_file = length ls, rs_rows_imported = n, rs_rows_filtered = rows_filtered,
                rs_snapshot_id = i, rs_generation_state = Validated, rs_manifest_sha256 = m_sha\<rparr> in
              if ir_stage_only rq then (db2, Inr result)
              else (case promote_sales_generation penv (import_promotion ic rq m_sha) db2 of
                Inl e \<Rightarrow> (db2, Inl e)
              | Inr (db3, k, _) \<Rightarrow> (db3, Inr (result\<lparr>rs_rows_imported := k, rs_generation_state := Promoted\<rparr>))))))"

section \<open>The transactions of an import\<close>

lemma import_cases:
  assumes "import_sales_dataframe env penv ic text rq ls db = (db', r)"
  obtains (refused) e where "db' = db" and "r = Inl e"
  | (failed) month rv final j db1 e where "reserve_snapshot (env_sha env) (ic_snapshot_id ic) month rv final (ic_reserved_at ic) db = Inr (db1, j)"
      and "close_failed_import env ic text e db1 = (db', r)"
  | (staged) month rv final j db1 cutoff digest db2 n m m_sha
      where "detect_month (filter valid_asm ls) = Inr month"
      and "reserve_snapshot (env_sha env) (ic_snapshot_id ic) month rv final (ic_reserved_at ic) db = Inr (db1, j)"
      and "validate_and_stage_generation env (filter valid_asm ls) month cutoff digest (int (length ls))
        (int (length ls - length (filter valid_asm ls))) (ic_snapshot_id ic) (ic_token ic) (ic_owner ic)
        (ic_coverage ic) (ic_report ic) (ic_validated_at ic) db1 = Inr (db2, n, m, m_sha)"
      and "ir_stage_only rq \<and> db' = db2 \<and> is_ok r
        \<or> \<not> ir_stage_only rq \<and> db' = db2 \<and> (\<exists>e. promote_sales_generation penv (import_promotion ic rq m_sha) db2 = Inl e \<and> r = Inl e)
        \<or> \<not> ir_stage_only rq \<and> (\<exists>k rev res. promote_sales_generation penv (import_promotion ic rq m_sha) db2 = Inr (db', k, rev)
            \<and> r = Inr res \<and> rs_rows_imported res = k \<and> rs_import_month res = month)"
proof -
  let ?kept = "filter valid_asm ls"
  let ?cutoff = "case ir_cutoff_date rq of Some d \<Rightarrow> d | None \<Rightarrow> max_day (map Data ?kept)"
  let ?digest = "case ir_source_sha256 rq of None \<Rightarrow> ic_row_digest ic | Some [] \<Rightarrow> ic_row_digest ic | Some h \<Rightarrow> h"
  let ?reserve = "\<lambda>month. reserve_snapshot (env_sha env) (ic_snapshot_id ic) month (import_reservation ic rq (length ls) ?digest ?cutoff)
    (is_month_final_at (ic_current_month ic) month) (ic_reserved_at ic) db"
  let ?validate = "\<lambda>month. validate_and_stage_generation env ?kept month ?cutoff ?digest (int (length ls))
    (int (length ls - length ?kept)) (ic_snapshot_id ic) (ic_token ic) (ic_owner ic) (ic_coverage ic) (ic_report ic) (ic_validated_at ic)"
  note def = assms [unfolded import_sales_dataframe_def filter_asm_rows_def Let_def prod.case]
  consider "?kept = []" | e where "?kept \<noteq> []" "detect_month ?kept = Inl e"
    | month e where "?kept \<noteq> []" "detect_month ?kept = Inr month" "?reserve month = Inl e"
    | month db1 j e where "?kept \<noteq> []" "detect_month ?kept = Inr month" "?reserve month = Inr (db1, j)" "?validate month db1 = Inl e"
    | month db1 j db2 n m m_sha where "?kept \<noteq> []" "detect_month ?kept = Inr month" "?reserve month = Inr (db1, j)"
        "?validate month db1 = Inr (db2, n, m, m_sha)"
    by (metis old.sum.exhaust prod.exhaust)
  then show ?thesis
  proof cases
    case (4 month db1 j e)
    with def have "close_failed_import env ic text e db1 = (db', r)" by simp
    with 4 show ?thesis by (intro failed)
  next
    case (5 month db1 j db2 n m m_sha)
    have "ir_stage_only rq \<and> db' = db2 \<and> is_ok r
        \<or> \<not> ir_stage_only rq \<and> db' = db2 \<and> (\<exists>e. promote_sales_generation penv (import_promotion ic rq m_sha) db2 = Inl e \<and> r = Inl e)
        \<or> \<not> ir_stage_only rq \<and> (\<exists>k rev res. promote_sales_generation penv (import_promotion ic rq m_sha) db2 = Inr (db', k, rev)
            \<and> r = Inr res \<and> rs_rows_imported res = k \<and> rs_import_month res = month)"
      using def 5 by (cases "ir_stage_only rq"; cases "promote_sales_generation penv (import_promotion ic rq m_sha) db2") auto
    with 5 show ?thesis by (intro staged)
  qed (use def in \<open>auto intro: refused\<close>)
qed

section \<open>End to end\<close>

lemma update_keeps:
  assumes "update_snapshots sha P f db = Inr db'" and "quiet P f"
  shows "s_stage db' = s_stage db" and "sn_id ` set (s_snapshots db') = sn_id ` set (s_snapshots db)"
    and "get_snapshot i db = Some s \<Longrightarrow> \<exists>s'. get_snapshot i db' = Some s' \<and> sn_import_month s' = sn_import_month s"
proof -
  from quiet_update [OF assms] obtain t where t: "db' = db\<lparr>s_snapshots := t\<rparr>" "list_all2 (row_step sha db) (s_snapshots db) t" .
  show "s_stage db' = s_stage db" by (simp add: t(1))
  have "set (map sn_id t) = set (map sn_id (s_snapshots db))" using rows_ids [OF t(2)] by simp
  then show "sn_id ` set (s_snapshots db') = sn_id ` set (s_snapshots db)" by (simp add: t(1))
  show "\<exists>s'. get_snapshot i db' = Some s' \<and> sn_import_month s' = sn_import_month s" if "get_snapshot i db = Some s"
    using rows_get [OF t(2)] that row_step_fields(2) by (fastforce simp: get_snapshot_def t(1))
qed

lemma fenced_keeps:
  assumes "fenced_update sha P f db = Inr db'" and "quiet P f"
  shows "s_stage db' = s_stage db"
    and "get_snapshot i db = Some s \<Longrightarrow> \<exists>s'. get_snapshot i db' = Some s' \<and> sn_import_month s' = sn_import_month s"
  using update_keeps [OF _ assms(2)] assms(1) by (auto simp: fenced_update_def split: if_splits)

lemma reserve_fresh:
  assumes "reserve_snapshot sha i month rv final now db = Inr (db1, j)"
  shows "i \<notin> sn_id ` set (s_snapshots db)" and "s_stage db1 = s_stage db"
    and "\<exists>s. get_snapshot i db1 = Some s \<and> sn_import_month s = month"
proof -
  from assms obtain dba where u: "update_snapshots sha (abandoned now month)
      (close_row ''Import processing abandonat si inchis automat'' now) db = Inr dba"
    and ins: "insert_snapshot (reserved_snapshot i month rv final (head_of month dba) now) dba = Inr db1"
    by (auto simp: reserve_snapshot_def res_simps split: if_splits)
  have keep: "s_stage dba = s_stage db" "sn_id ` set (s_snapshots dba) = sn_id ` set (s_snapshots db)"
    by (rule update_keeps [OF u], simp add: quiet_defs)+
  let ?s = "reserved_snapshot i month rv final (head_of month dba) now"
  have s: "sn_id ?s = i" "sn_import_month ?s = month" by (simp_all add: reserved_snapshot_def)
  note ins' = insert_snapshot_Inr [OF ins, unfolded s]
  show fresh: "i \<notin> sn_id ` set (s_snapshots db)" using ins'(2) keep(2) by simp
  show "s_stage db1 = s_stage db" using ins'(1) keep(1) by simp
  have "row_by sn_id i (s_snapshots dba) = None" using ins'(2) by (force simp: row_by_None_iff)
  then show "\<exists>s. get_snapshot i db1 = Some s \<and> sn_import_month s = month"
    using s by (simp add: get_snapshot_def ins'(1) row_by_append)
qed

lemma validate_statements:
  assumes "validate_and_stage_generation env ls month cutoff digest n k i tk ow cov report now db = Inr (db', x)"
  obtains m m_sha dba dbb where "fenced_generation_heartbeat (env_sha env) i tk ow (2 * 60 * 60) now db = Inr dba"
    and "insert_stage (stage_records i month ls) dba = Inr dbb"
    and "persist_validated_sales_generation (env_sha env) i tk ow m m_sha report now dbb = Inr db'"
  using assms by (auto simp: validate_and_stage_generation_def stage_sales_generation_rows_def Let_def res_simps)

lemma stage_of_import:
  assumes inv: "sales_inv (env_sha env) db"
    and r: "reserve_snapshot (env_sha env) i month rv final t db = Inr (db1, j)"
    and v: "validate_and_stage_generation env ls month cutoff digest n k i tk ow cov report now db1 = Inr (db2, x)"
  shows "staged i db2 = stage_records i month ls" and "\<exists>s. get_snapshot i db2 = Some s \<and> sn_import_month s = month"
proof -
  note fresh = reserve_fresh [OF r]
  from v obtain m m_sha dba dbb where h: "fenced_generation_heartbeat (env_sha env) i tk ow (2 * 60 * 60) now db1 = Inr dba"
    and st: "insert_stage (stage_records i month ls) dba = Inr dbb"
    and p: "persist_validated_sales_generation (env_sha env) i tk ow m m_sha report now dbb = Inr db2"
    by (rule validate_statements)
  note h' = fenced_keeps [OF h [unfolded fenced_generation_heartbeat_def]]
    and p' = fenced_keeps [OF p [unfolded persist_validated_sales_generation_def]]
  have q: "s_stage dba = s_stage db1" "s_stage db2 = s_stage dbb" by (rule h'(1) p'(1), simp add: quiet_defs)+
  have none: "filter (\<lambda>r. snapshot_id r = i) (s_stage db) = []"
    using sales_invD(6) [OF inv] fresh(1) by (auto simp: filter_empty_conv)
  have all: "filter (\<lambda>r. snapshot_id r = i) (stage_records i month ls) = stage_records i month ls"
    by (auto simp: filter_id_conv dest: stage_records_snapshot)
  show "staged i db2 = stage_records i month ls"
    using fresh(2) none all q insert_stage_Inr(1) [OF st] by (simp add: staged_def stage_records_sorted)
  from fresh(3) obtain s where "get_snapshot i db1 = Some s" "sn_import_month s = month" by blast
  with h'(2) obtain sa where sa: "get_snapshot i dba = Some sa" "sn_import_month sa = month" by (fastforce simp: quiet_defs)
  then have "get_snapshot i dbb = Some sa" using insert_stage_Inr(1) [OF st] by (simp add: get_snapshot_def)
  with p'(2) sa(2) show "\<exists>s. get_snapshot i db2 = Some s \<and> sn_import_month s = month" by (fastforce simp: quiet_defs)
qed

lemma silent_close: "close_failed_import env ic text e db = (db', r) \<Longrightarrow> silent (env_sha env) db db' \<and> \<not> is_ok r"
proof -
  let ?fail = "fail_sales_generation (env_sha env) (ic_snapshot_id ic) (ic_token ic) (ic_owner ic) (text e) (ic_failed_at ic) db"
  assume c: "close_failed_import env ic text e db = (db', r)"
  show ?thesis
  proof (cases ?fail)
    case (Inl e')
    with c show ?thesis by (auto simp: close_failed_import_def silent_refl)
  next
    case (Inr db1)
    have "silent (env_sha env) db db1"
      by (rule silent_fenced [OF Inr [unfolded fail_sales_generation_def]]) (auto simp: quiet_defs)
    with c Inr show ?thesis by (auto simp: close_failed_import_def)
  qed
qed

text \<open>The sales of \<open>month\<close> replaced by the lines \<open>ls\<close> as generation \<open>i\<close>, those of other months kept.\<close>

definition month_replaced :: "nat \<Rightarrow> string \<Rightarrow> sales_line list \<Rightarrow> sales_db \<Rightarrow> sales_db \<Rightarrow> bool" where
  "month_replaced i month ls db db' \<longleftrightarrow>
     (\<forall>m. live_of_month m db' = (if m = month then map live_of (stage_records i m ls) else live_of_month m db))"

text \<open>
  C1: an import that returns without staging only has made the sales of its month exactly the rows of the
  workbook that have an area manager, in their order, each under the new generation, and reports their
  number; an import that raises, and one that only stages, leaves the published sales, heads, ledger, stores
  and outbox as they were. This holds in every reachable state, whatever was imported before.
\<close>

theorem import_replaces_month:
  assumes "reachable_from sales_empty (sales_step sha) db" and "env_sha env = sha" and "pe_sha penv = sha"
    and imp: "import_sales_dataframe env penv ic text rq ls db = (db', r)"
  shows "(case r of
      Inr res \<Rightarrow> ir_stage_only rq
        \<or> detect_month (filter valid_asm ls) = Inr (rs_import_month res) \<and> rs_rows_imported res = length (filter valid_asm ls)
          \<and> month_replaced (ic_snapshot_id ic) (rs_import_month res) (filter valid_asm ls) db db'
    | Inl e \<Rightarrow> same_published db db') \<and> (ir_stage_only rq \<longrightarrow> same_published db db')"
proof -
  have inv: "sales_inv (env_sha env) db" using sg.reachable_inv [OF assms(1)] assms(2) by simp
  from imp show ?thesis
  proof (cases rule: import_cases)
    case refused
    then show ?thesis by (simp add: same_published_def)
  next
    case (failed month rv final j db1 e)
    from silent_reserve [OF failed(1)] silent_close [OF failed(2)] have "silent (env_sha env) db db' \<and> \<not> is_ok r"
      by (blast intro: silent_trans)
    then show ?thesis by (cases r) (auto simp: silent_def)
  next
    case (staged month rv final j db1 cutoff digest db2 n m m_sha)
    let ?kept = "filter valid_asm ls" and ?i = "ic_snapshot_id ic"
    have sil: "silent (env_sha env) db db2"
      using silent_trans [OF silent_reserve [OF staged(2)] silent_validate [OF staged(3)]] .
    then have pub: "same_published db db2" and inv2: "sales_inv (pe_sha penv) db2"
      using inv assms(2,3) by (auto simp: silent_def)
    note st = stage_of_import [OF inv staged(2,3)]
    from staged(4) consider "db' = db2" "ir_stage_only rq" "is_ok r" | e where "db' = db2" "r = Inl e"
      | k rev res where "\<not> ir_stage_only rq" "promote_sales_generation penv (import_promotion ic rq m_sha) db2 = Inr (db', k, rev)"
          "r = Inr res" "rs_rows_imported res = k" "rs_import_month res = month"
      by blast
    then show ?thesis
    proof cases
      case (3 k rev res)
      have i: "pr_snapshot_id (import_promotion ic rq m_sha) = ?i" by (simp add: import_promotion_def)
      from promote_effect [OF 3(2) sales_invD(1,3) [OF inv2], unfolded i] obtain s where s: "get_snapshot ?i db2 = Some s"
          "k = length (staged ?i db2)" and eff: "promotion_effect penv (import_promotion ic rq m_sha) s rev db2 db'" .
      from st(2) s(1) have "sn_import_month s = month" by auto
      with effect_live [OF eff] st(1) i pub
      have "live_of_month x db' = (if x = month then map live_of (stage_records ?i x ?kept) else live_of_month x db)" for x
        by (auto simp: live_of_month_def same_published_def)
      with 3 staged(1) s(2) st(1) show ?thesis by (simp add: month_replaced_def stage_records_def)
    qed (use pub in \<open>auto split: sum.splits\<close>)
  qed
qed

definition import_run :: import_context where
  "import_run = \<lparr>ic_snapshot_id = 2, ic_token = ''t2'', ic_owner = ''w1'', ic_current_month = ''2026-07'', ic_row_digest = run_sha,
     ic_coverage = [], ic_report = ''{}'', ic_reserved_at = 1000, ic_validated_at = 2000, ic_failed_at = 2000\<rparr>"

definition import_run_request :: import_request where
  "import_run_request = \<lparr>ir_filename = ''iulie.xlsx'', ir_source_sha256 = Some run_sha, ir_cutoff_date = Some (2026, 7, 31),
     ir_stage_only = False, ir_requested_by = ''admin'', ir_override_reason = None, ir_artifact_required = False,
     ir_artifact_path = None, ir_artifact_bytes = None\<rparr>"

theorem import_replaces_month_witness:
  "\<exists>res. import_sales_dataframe run_env (run_penv 2 3000) import_run (\<lambda>_. []) import_run_request (run_lines 7) run_c = (run_f, Inr res)
    \<and> rs_rows_imported res = 1 \<and> month_replaced 2 ''2026-07'' (run_lines 7) run_c run_f"
proof -
  have kept: "filter valid_asm (run_lines 7) = run_lines 7" and month: "detect_month (run_lines 7) = Inr ''2026-07''"
    and final: "\<not> is_month_final_at ''2026-07'' ''2026-07''" and ne: "run_lines 7 \<noteq> []"
    by (simp_all add: run_lines_def valid_asm_def sample_line_def is_month_final_at_def) code_simp+
  have rv: "import_reservation import_run import_run_request 1 run_sha (2026, 7, 31) = run_reservation ''t2''"
    by (simp add: import_reservation_def import_run_def import_run_request_def run_reservation_def)
  have pr: "import_promotion import_run import_run_request run_sha = run_request 2 ''t2''"
    by (simp add: import_promotion_def import_run_def import_run_request_def run_request_def)
  have sha: "(case ir_source_sha256 import_run_request of None \<Rightarrow> ic_row_digest import_run | Some [] \<Rightarrow> ic_row_digest import_run | Some h \<Rightarrow> h) = run_sha"
    by (simp add: import_run_request_def import_run_def split: list.split)
  have env: "env_sha run_env = text_sha" by (simp add: run_env_def)
  have fields: "ic_snapshot_id import_run = 2" "ic_token import_run = ''t2''" "ic_owner import_run = ''w1''" "ic_coverage import_run = []"
    "ic_report import_run = ''{}''" "ic_current_month import_run = ''2026-07''" "ic_reserved_at import_run = 1000"
    "ic_validated_at import_run = 2000" "ir_cutoff_date import_run_request = Some (2026, 7, 31)" "\<not> ir_stage_only import_run_request"
    by (simp_all add: import_run_def import_run_request_def)
  have "\<exists>res. import_sales_dataframe run_env (run_penv 2 3000) import_run (\<lambda>_. []) import_run_request (run_lines 7) run_c = (run_f, Inr res)"
    using run_d_step run_e_step run_f_step
    by (simp add: import_sales_dataframe_def filter_asm_rows_def Let_def kept month ne final sha fields rv [simplified] pr env
        run_reserve_def run_validate_def run_promote_def)
  then obtain res where imp: "import_sales_dataframe run_env (run_penv 2 3000) import_run (\<lambda>_. []) import_run_request (run_lines 7) run_c = (run_f, Inr res)"
    by blast
  have "pe_sha (run_penv 2 3000) = text_sha" by (simp add: run_penv_def)
  from import_replaces_month [OF run_reachable(4) env this imp] imp show ?thesis
    by (auto simp: kept month import_run_def import_run_request_def)
qed

end
