(* ===== verification/Aggregation.thy ===== *)
theory Aggregation
  imports Retail_Prelude
begin

text \<open>
  \<^verbatim>\<open>GROUP BY\<close> over tables kept as lists of rows, and the interface of a table built by one: each
  group becomes a row that carries the group's key, and an additive column is the sum of a
  measure of the group's members. Whatever is derived group by group from such a table agrees with the
  members it was built from. The order of a query's groups is not observable; here it is that of the last occurrence of
  each key.
\<close>

section \<open>Groups\<close>

definition group_rows :: "('a \<Rightarrow> 'k) \<Rightarrow> 'a list \<Rightarrow> ('k \<times> 'a list) list" where
  "group_rows key xs = map (\<lambda>k. (k, filter (\<lambda>x. key x = k) xs)) (remdups (map key xs))"

text \<open>\<^verbatim>\<open>SELECT row(...) FROM xs GROUP BY key\<close>\<close>

definition rollup_rows :: "('a \<Rightarrow> 'k) \<Rightarrow> ('k \<Rightarrow> 'a list \<Rightarrow> 'r) \<Rightarrow> 'a list \<Rightarrow> 'r list" where
  "rollup_rows key row xs = map (\<lambda>(k, g). row k g) (group_rows key xs)"

text \<open>\<^verbatim>\<open>COUNT(DISTINCT e) FILTER (WHERE P)\<close>\<close>

definition count_distinct :: "('a \<Rightarrow> 'b) \<Rightarrow> ('a \<Rightarrow> bool) \<Rightarrow> 'a list \<Rightarrow> int" where
  "count_distinct e P xs = int (length (remdups (map e (filter P xs))))"

lemma count_distinct_card: "count_distinct e P xs = int (card (e ` {x \<in> set xs. P x}))"
  by (simp add: count_distinct_def length_remdups_card_conv)

lemma group_rows_Nil [simp]: "group_rows key [] = []"
  by (simp add: group_rows_def)

lemma map_fst_group_rows [simp]: "map fst (group_rows key xs) = remdups (map key xs)"
  by (simp add: group_rows_def comp_def)

lemma mem_group_rows: "(k, g) \<in> set (group_rows key xs) \<longleftrightarrow> k \<in> key ` set xs \<and> g = filter (\<lambda>x. key x = k) xs"
  by (auto simp: group_rows_def)

lemma group_nonempty: "(k, g) \<in> set (group_rows key xs) \<Longrightarrow> g \<noteq> [] \<and> (\<forall>x \<in> set g. key x = k \<and> x \<in> set xs)"
  by (auto simp: mem_group_rows filter_empty_conv)

lemma sum_key_fibres:
  fixes f :: "'a \<Rightarrow> int"
  assumes "finite K" and "key ` set xs \<subseteq> K"
  shows "(\<Sum>k \<in> K. sum_list (map f (filter (\<lambda>x. key x = k) xs))) = sum_list (map f xs)"
  using assms
proof (induction xs)
  case (Cons x xs)
  have "(\<Sum>k \<in> K. sum_list (map f (filter (\<lambda>y. key y = k) (x # xs))))
      = (\<Sum>k \<in> K. (if k = key x then f x else 0) + sum_list (map f (filter (\<lambda>y. key y = k) xs)))"
    by (rule sum.cong) auto
  also have "\<dots> = f x + sum_list (map f xs)"
    using Cons by (simp add: sum.distrib)
  finally show ?case by simp
qed simp

text \<open>The groups whose key satisfies \<open>P\<close> hold exactly the members whose key does.\<close>

lemma group_total_where:
  fixes f :: "'a \<Rightarrow> int"
  shows "sum_list (map (\<lambda>p. sum_list (map f (snd p))) (filter (\<lambda>p. P (fst p)) (group_rows key xs)))
    = sum_list (map f (filter (\<lambda>x. P (key x)) xs))"
proof -
  let ?K = "key ` set (filter (\<lambda>x. P (key x)) xs)"
  let ?ks = "filter P (remdups (map key xs))"
  have part: "filter (\<lambda>p. P (fst p)) (group_rows key xs) = map (\<lambda>k. (k, filter (\<lambda>x. key x = k) xs)) ?ks"
    by (simp add: group_rows_def filter_map comp_def)
  have sub: "filter (\<lambda>x. key x = k) xs = filter (\<lambda>x. key x = k) (filter (\<lambda>x. P (key x)) xs)" if "P k" for k
    using that by (auto intro: filter_cong)
  have "sum_list (map (\<lambda>p. sum_list (map f (snd p))) (filter (\<lambda>p. P (fst p)) (group_rows key xs)))
      = sum_list (map (\<lambda>k. sum_list (map f (filter (\<lambda>x. key x = k) xs))) ?ks)"
    by (simp add: part comp_def)
  also have "\<dots> = (\<Sum>k \<in> set ?ks. sum_list (map f (filter (\<lambda>x. key x = k) xs)))"
    by (rule sum_list_distinct_conv_sum_set) simp
  also have "\<dots> = (\<Sum>k \<in> set ?ks. sum_list (map f (filter (\<lambda>x. key x = k) (filter (\<lambda>x. P (key x)) xs))))"
    by (rule sum.cong [OF refl], subst sub) auto
  also have "\<dots> = sum_list (map f (filter (\<lambda>x. P (key x)) xs))"
    by (rule sum_key_fibres) auto
  finally show ?thesis .
qed

lemma rollup_nonempty_iff: "rollup_rows key row xs = [] \<longleftrightarrow> xs = []"
  by (simp add: rollup_rows_def group_rows_def)

lemma mem_rollup: "r \<in> set (rollup_rows key row xs) \<longleftrightarrow> (\<exists>k \<in> key ` set xs. r = row k (filter (\<lambda>x. key x = k) xs))"
  by (auto simp: rollup_rows_def group_rows_def)

text \<open>A column bounded by a weight of its group's members is bounded in total by the weight of all.\<close>

lemma rollup_weight:
  fixes w :: "'a \<Rightarrow> int"
  assumes "\<And>k g. \<bar>column (row k g)\<bar> \<le> sum_list (map w g)"
  shows "sum_list (map (\<lambda>r. \<bar>column r\<bar>) (rollup_rows key row xs)) \<le> sum_list (map w xs)"
proof -
  have "sum_list (map (\<lambda>r. \<bar>column r\<bar>) (rollup_rows key row xs)) \<le> sum_list (map (\<lambda>p. sum_list (map w (snd p))) (group_rows key xs))"
    using assms by (auto simp: rollup_rows_def comp_def case_prod_unfold intro!: sum_list_mono)
  also have "\<dots> = sum_list (map w xs)" using group_total_where [of w "\<lambda>_. True" key xs] by simp
  finally show ?thesis .
qed

lemma member_abs_le_sum:
  fixes c :: "'r \<Rightarrow> int"
  assumes "r \<in> set rs"
  shows "\<bar>c r\<bar> \<le> sum_list (map (\<lambda>r. \<bar>c r\<bar>) rs)"
  by (rule member_le_sum_list) (use assms in auto)

lemma abs_sum_list: "\<bar>sum_list (map f xs)\<bar> \<le> sum_list (map (\<lambda>x. \<bar>f x\<bar>) xs)" for f :: "'a \<Rightarrow> int"
  by (induction xs) (auto intro: order_trans [OF abs_triangle_ineq])

lemma sum_filter_le:
  fixes f :: "'a \<Rightarrow> int"
  assumes "\<And>x. x \<in> set xs \<Longrightarrow> 0 \<le> f x"
  shows "sum_list (map f (filter P xs)) \<le> sum_list (map f xs)"
  using assms by (induction xs) (auto intro: add_increasing)

lemma count_distinct_bound: "\<bar>count_distinct e P xs\<bar> \<le> sum_list (map (\<lambda>_. 1) xs)"
proof -
  have "length (remdups (map e (filter P xs))) \<le> length xs"
    by (metis dual_order.trans length_filter_le length_map length_remdups_leq)
  then show ?thesis by (simp add: count_distinct_def sum_list_triv)
qed

section \<open>The interface of a rolled-up table\<close>

locale rollup =
  fixes key :: "'a \<Rightarrow> 'k"
    and row :: "'k \<Rightarrow> 'a list \<Rightarrow> 'r"
    and row_key :: "'r \<Rightarrow> 'k"
  assumes key_of_row: "row_key (row k g) = k"
begin

lemma keys: "map row_key (rollup_rows key row xs) = remdups (map key xs)"
  by (simp add: rollup_rows_def group_rows_def comp_def case_prod_unfold key_of_row)

lemma keys_distinct: "distinct (map row_key (rollup_rows key row xs))"
  by (simp add: keys)

lemma keys_set: "row_key ` set (rollup_rows key row xs) = key ` set xs"
proof -
  have "set (map row_key (rollup_rows key row xs)) = set (remdups (map key xs))" by (simp only: keys)
  then show ?thesis by simp
qed

lemma filter_rows: "filter (\<lambda>r. P (row_key r)) (rollup_rows key row xs) = map (\<lambda>(k, g). row k g) (filter (\<lambda>p. P (fst p)) (group_rows key xs))"
  by (simp add: rollup_rows_def filter_map comp_def case_prod_unfold key_of_row)

lemma image_keys_distinct:
  assumes "inj_on h (key ` set xs)"
  shows "distinct (map (\<lambda>r. h (row_key r)) (rollup_rows key row xs))"
proof -
  have "map (\<lambda>r. h (row_key r)) (rollup_rows key row xs) = map h (remdups (map key xs))"
    unfolding keys [symmetric] by simp
  with assms show ?thesis by (simp add: distinct_map)
qed

lemma row_unique: "r \<in> set (rollup_rows key row xs) \<Longrightarrow> r = row (row_key r) (filter (\<lambda>x. key x = row_key r) xs)"
  by (auto simp: mem_rollup key_of_row)

end

locale rollup_sum = rollup key row row_key
  for key :: "'a \<Rightarrow> 'k" and row :: "'k \<Rightarrow> 'a list \<Rightarrow> 'r" and row_key :: "'r \<Rightarrow> 'k" +
  fixes measure :: "'a \<Rightarrow> int" and column :: "'r \<Rightarrow> int"
  assumes column_of_row: "column (row k g) = sum_list (map measure g)"
begin

lemma total_where:
  "sum_list (map column (filter (\<lambda>r. P (row_key r)) (rollup_rows key row xs))) = sum_list (map measure (filter (\<lambda>x. P (key x)) xs))"
  using group_total_where [of measure P key xs]
  by (simp add: filter_rows comp_def case_prod_unfold column_of_row)

lemma grand_total: "sum_list (map column (rollup_rows key row xs)) = sum_list (map measure xs)"
  using total_where [of "\<lambda>_. True" xs] by simp

end

end
