(* ===== verification/Reporting_Month.thy ===== *)
theory Reporting_Month
  imports Sales_Flow Aggregation
begin

text \<open>
  The reporting tables of a month (\<^verbatim>\<open>services/reporting_refresh_month.py\<close>): rebuilt from the live sales
  in the transaction that promotes a generation. Each \<^verbatim>\<open>INSERT ... SELECT ... GROUP BY\<close> is a rollup
  of the joined rows; its casts and primary keys can refuse the statement. \<^verbatim>\<open>MAX\<close> over texts follows the database's
  collation and is an argument.
\<close>

section \<open>Rows of the tables\<close>

text \<open>The columns shared by the tables: the month, the store as it is now, and the agent.\<close>

record report_scope =
  rp_import_month :: string
  rp_site :: string
  rp_locatie :: string
  rp_firma :: string
  rp_regional :: string
  rp_asm :: string
  rp_agent :: string

record cartela_day =
  cd_import_month :: string
  cd_sale_date :: sale_day
  cd_site :: string
  cd_agent :: string
  cd_total_quantity :: int

record receipt_total =
  rc_import_month :: string
  rc_sale_date :: sale_day
  rc_site :: string
  rc_agent :: string
  rc_bon_nr :: string
  rc_net_quantity :: int

record agent_day =
  ad_scope :: report_scope
  ad_sale_date :: sale_day
  ad_total_sales :: int
  ad_total_quantity :: int
  ad_focus_quantity :: int
  ad_receipt_count :: int
  ad_receipt_2plus_count :: int
  ad_receipt_1_count :: int
  ad_receipt_2_count :: int
  ad_receipt_3_count :: int
  ad_receipt_4plus_count :: int

record agent_month =
  am_scope :: report_scope
  am_total_sales :: int
  am_total_quantity :: int
  am_focus_quantity :: int
  am_receipt_count :: int
  am_receipt_2plus_count :: int
  am_receipt_1_count :: int
  am_receipt_2_count :: int
  am_receipt_3_count :: int
  am_receipt_4plus_count :: int
  am_working_days :: int

record item_day =
  it_scope :: report_scope
  it_sale_date :: sale_day
  it_item_code :: string
  it_item_name :: string
  it_total_sales :: int
  it_net_quantity :: int
  it_positive_quantity :: int
  it_return_quantity :: int
  it_receipt_count :: int

record item_month =
  im_scope :: report_scope
  im_item_code :: string
  im_item_name :: string
  im_total_sales :: int
  im_net_quantity :: int
  im_positive_quantity :: int
  im_return_quantity :: int
  im_receipt_count :: int

record focus_item_month =
  fm_scope :: report_scope
  fm_item_code :: string
  fm_item_name :: string
  fm_focus_subcategory :: string
  fm_total_sales :: int
  fm_total_quantity :: int

record category_month =
  cm_scope :: report_scope
  cm_category :: string
  cm_subcategory :: string
  cm_brand_group :: string
  cm_total_sales :: int
  cm_total_quantity :: int

record focus_product =
  fp_item_code :: string
  fp_item_name :: "string option"

datatype reporting_error = NumericOutOfRange | UniqueViolation | PremiumGlassError

section \<open>Joins and texts\<close>

type_synonym sale_line = "live_row \<times> store_info"

text \<open>\<^verbatim>\<open>s.locatie ILIKE 'TR %'\<close>\<close>

definition distribution_location :: "string \<Rightarrow> bool" where
  "distribution_location locatie \<longleftrightarrow> take 3 (casefold locatie) = ''tr ''"

definition sales_join :: "string \<Rightarrow> live_row list \<Rightarrow> store_info list \<Rightarrow> sale_line list" where
  "sales_join month live stores = concat (map (\<lambda>t. map (Pair t) (filter (\<lambda>s. si_site s = lv_site t) stores))
     (filter (\<lambda>t. lv_import_month t = month) live))"

definition retail_lines :: "string \<Rightarrow> live_row list \<Rightarrow> store_info list \<Rightarrow> sale_line list" where
  "retail_lines month live stores = filter (\<lambda>(t, s). \<not> distribution_location (si_locatie s) \<and> \<not> lv_is_cartela t)
     (sales_join month live stores)"

definition left_join :: "('a \<Rightarrow> 'b \<Rightarrow> bool) \<Rightarrow> 'b list \<Rightarrow> 'a list \<Rightarrow> ('a \<times> 'b option) list" where
  "left_join on ys xs = concat (map (\<lambda>x. case filter (on x) ys of [] \<Rightarrow> [(x, None)] | ms \<Rightarrow> map (\<lambda>y. (x, Some y)) ms) xs)"

definition nonblank :: "string option \<Rightarrow> string option" where
  "nonblank v = (case v of None \<Rightarrow> None | Some t \<Rightarrow> if sql_btrim t = [] then None else Some (sql_btrim t))"

definition first_text :: "string option list \<Rightarrow> string \<Rightarrow> string" where
  "first_text vs dflt = (case List.find (\<lambda>v. v \<noteq> None) vs of Some (Some t) \<Rightarrow> t | _ \<Rightarrow> dflt)"

text \<open>\<^verbatim>\<open>MAX(text)\<close> ignores NULL; \<open>hi\<close> is the collation's maximum of a non-empty list.\<close>

definition max_text :: "(string list \<Rightarrow> string) \<Rightarrow> string option list \<Rightarrow> string option" where
  "max_text hi vs = (case List.map_filter id vs of [] \<Rightarrow> None | ts \<Rightarrow> Some (hi ts))"

definition brand_group :: "string \<Rightarrow> string" where
  "brand_group name = (let n = casefold name in
     if contains_text ''apple'' n \<or> contains_text ''iphone'' n then ''Apple''
     else if contains_text ''samsung'' n then ''Samsung''
     else if contains_text ''honor'' n then ''Honor''
     else if contains_text ''xiaomi'' n then ''Xiaomi''
     else if contains_text ''huawei'' n then ''Huawei''
     else if contains_text ''motorola'' n then ''Motorola''
     else ''Altele'')"

definition scope_of :: "sale_line \<Rightarrow> report_scope" where
  "scope_of l = (case l of (t, s) \<Rightarrow> \<lparr>rp_import_month = lv_import_month t, rp_site = lv_site t, rp_locatie = si_locatie s,
     rp_firma = si_firma s, rp_regional = si_regional s, rp_asm = si_asm s, rp_agent = lv_agent t\<rparr>)"

section \<open>Rows of the groups\<close>

definition cartela_key :: "sale_line \<Rightarrow> string \<times> sale_day \<times> string \<times> string" where
  "cartela_key l = (lv_import_month (fst l), lv_sale_date (fst l), lv_site (fst l), lv_agent (fst l))"

definition cartela_row :: "string \<times> sale_day \<times> string \<times> string \<Rightarrow> sale_line list \<Rightarrow> cartela_day" where
  "cartela_row k g = (case k of (m, d, site, agent) \<Rightarrow> \<lparr>cd_import_month = m, cd_sale_date = d, cd_site = site, cd_agent = agent,
     cd_total_quantity = sum_list (map (\<lambda>l. lv_quantity (fst l)) g)\<rparr>)"

definition report_receipt_key :: "sale_line \<Rightarrow> string \<times> sale_day \<times> string \<times> string \<times> string" where
  "report_receipt_key l = (lv_import_month (fst l), lv_sale_date (fst l), lv_site (fst l), lv_agent (fst l), lv_bon_nr (fst l))"

definition report_receipt_row :: "string \<times> sale_day \<times> string \<times> string \<times> string \<Rightarrow> sale_line list \<Rightarrow> receipt_total" where
  "report_receipt_row k g = (case k of (m, d, site, agent, bon) \<Rightarrow> \<lparr>rc_import_month = m, rc_sale_date = d, rc_site = site, rc_agent = agent,
     rc_bon_nr = bon, rc_net_quantity = sum_list (map (\<lambda>l. lv_quantity (fst l)) g)\<rparr>)"

definition receipt_row_key :: "receipt_total \<Rightarrow> string \<times> sale_day \<times> string \<times> string \<times> string" where
  "receipt_row_key r = (rc_import_month r, rc_sale_date r, rc_site r, rc_agent r, rc_bon_nr r)"

text \<open>A line with its focus product and its receipt.\<close>

type_synonym joined_line = "(sale_line \<times> focus_product option) \<times> receipt_total option"

definition joined_sale :: "joined_line \<Rightarrow> live_row" where
  "joined_sale x = fst (fst (fst x))"

definition joined_net :: "(int \<Rightarrow> bool) \<Rightarrow> joined_line \<Rightarrow> bool" where
  "joined_net P x = (case snd x of None \<Rightarrow> False | Some r \<Rightarrow> P (rc_net_quantity r))"

definition agent_day_key :: "joined_line \<Rightarrow> report_scope \<times> sale_day" where
  "agent_day_key x = (scope_of (fst (fst x)), lv_sale_date (joined_sale x))"

definition focus_quantity :: "joined_line \<Rightarrow> int" where
  "focus_quantity x = (if snd (fst x) \<noteq> None then lv_quantity (joined_sale x) else 0)"

definition receipts_with :: "(int \<Rightarrow> bool) \<Rightarrow> joined_line list \<Rightarrow> int" where
  "receipts_with P g = count_distinct (\<lambda>x. lv_bon_nr (joined_sale x)) (joined_net P) g"

definition agent_day_row :: "report_scope \<times> sale_day \<Rightarrow> joined_line list \<Rightarrow> agent_day" where
  "agent_day_row k g = \<lparr>ad_scope = fst k, ad_sale_date = snd k,
     ad_total_sales = sum_list (map (\<lambda>x. lv_total_value (joined_sale x)) g),
     ad_total_quantity = sum_list (map (\<lambda>x. lv_quantity (joined_sale x)) g),
     ad_focus_quantity = sum_list (map focus_quantity g),
     ad_receipt_count = receipts_with (\<lambda>n. 0 < n) g, ad_receipt_2plus_count = receipts_with (\<lambda>n. 2 \<le> n) g,
     ad_receipt_1_count = receipts_with (\<lambda>n. n = 1) g, ad_receipt_2_count = receipts_with (\<lambda>n. n = 2) g,
     ad_receipt_3_count = receipts_with (\<lambda>n. n = 3) g, ad_receipt_4plus_count = receipts_with (\<lambda>n. 4 \<le> n) g\<rparr>"

definition agent_month_row :: "report_scope \<Rightarrow> agent_day list \<Rightarrow> agent_month" where
  "agent_month_row k g = \<lparr>am_scope = k,
     am_total_sales = sum_list (map ad_total_sales g), am_total_quantity = sum_list (map ad_total_quantity g),
     am_focus_quantity = sum_list (map ad_focus_quantity g), am_receipt_count = sum_list (map ad_receipt_count g),
     am_receipt_2plus_count = sum_list (map ad_receipt_2plus_count g), am_receipt_1_count = sum_list (map ad_receipt_1_count g),
     am_receipt_2_count = sum_list (map ad_receipt_2_count g), am_receipt_3_count = sum_list (map ad_receipt_3_count g),
     am_receipt_4plus_count = sum_list (map ad_receipt_4plus_count g), am_working_days = int (length g)\<rparr>"

definition report_item_key :: "sale_line \<Rightarrow> report_scope \<times> sale_day \<times> string" where
  "report_item_key l = (scope_of l, lv_sale_date (fst l), lv_item_code (fst l))"

definition item_day_row :: "(string list \<Rightarrow> string) \<Rightarrow> report_scope \<times> sale_day \<times> string \<Rightarrow> sale_line list \<Rightarrow> item_day" where
  "item_day_row hi k g = (case k of (sc, d, code) \<Rightarrow> \<lparr>it_scope = sc, it_sale_date = d, it_item_code = code,
     it_item_name = first_text [max_text hi (map (\<lambda>l. Some (lv_item_name (fst l))) g)] code,
     it_total_sales = sum_list (map (\<lambda>l. lv_total_value (fst l)) g),
     it_net_quantity = sum_list (map (\<lambda>l. lv_quantity (fst l)) g),
     it_positive_quantity = sum_list (map (\<lambda>l. max 0 (lv_quantity (fst l))) g),
     it_return_quantity = sum_list (map (\<lambda>l. min 0 (lv_quantity (fst l))) g),
     it_receipt_count = count_distinct (\<lambda>l. lv_bon_nr (fst l)) (\<lambda>l. \<not> lv_is_return (fst l) \<and> 0 < lv_quantity (fst l)) g\<rparr>)"

definition item_month_row :: "(string list \<Rightarrow> string) \<Rightarrow> report_scope \<times> string \<Rightarrow> item_day list \<Rightarrow> item_month" where
  "item_month_row hi k g = \<lparr>im_scope = fst k, im_item_code = snd k,
     im_item_name = first_text [max_text hi (map (\<lambda>r. Some (it_item_name r)) g)] [],
     im_total_sales = sum_list (map it_total_sales g), im_net_quantity = sum_list (map it_net_quantity g),
     im_positive_quantity = sum_list (map it_positive_quantity g), im_return_quantity = sum_list (map it_return_quantity g),
     im_receipt_count = sum_list (map it_receipt_count g)\<rparr>"

text \<open>The inner join with the focus products.\<close>

definition focus_join :: "focus_product list \<Rightarrow> sale_line list \<Rightarrow> (sale_line \<times> focus_product) list" where
  "focus_join fps ls = concat (map (\<lambda>l. map (Pair l) (filter (\<lambda>f. fp_item_code f = lv_item_code (fst l)) fps)) ls)"

definition focus_key :: "sale_line \<times> focus_product \<Rightarrow> report_scope \<times> string" where
  "focus_key x = (scope_of (fst x), lv_item_code (fst (fst x)))"

definition focus_row :: "(string list \<Rightarrow> string) \<Rightarrow> report_scope \<times> string \<Rightarrow> (sale_line \<times> focus_product) list \<Rightarrow> focus_item_month" where
  "focus_row hi k g = \<lparr>fm_scope = fst k, fm_item_code = snd k,
     fm_item_name = first_text [max_text hi (map (\<lambda>x. fp_item_name (snd x)) g),
       max_text hi (map (\<lambda>x. Some (lv_item_name (fst (fst x)))) g)] (snd k),
     fm_focus_subcategory = first_text [nonblank (max_text hi (map (\<lambda>x. lv_subcategory (fst (fst x))) g)),
       nonblank (max_text hi (map (\<lambda>x. lv_category (fst (fst x))) g))] ''Necategorizat'',
     fm_total_sales = sum_list (map (\<lambda>x. lv_total_value (fst (fst x))) g),
     fm_total_quantity = sum_list (map (\<lambda>x. lv_quantity (fst (fst x))) g)\<rparr>"

definition category_of :: "live_row \<Rightarrow> string" where
  "category_of t = first_text [nonblank (lv_category t)] ''Necategorizat''"

definition subcategory_of :: "live_row \<Rightarrow> string" where
  "subcategory_of t = first_text [nonblank (lv_subcategory t), nonblank (lv_category t)] ''Necategorizat''"

definition category_key :: "sale_line \<Rightarrow> report_scope \<times> string \<times> string \<times> string" where
  "category_key l = (scope_of l, category_of (fst l), subcategory_of (fst l), brand_group (lv_item_name (fst l)))"

definition category_row :: "report_scope \<times> string \<times> string \<times> string \<Rightarrow> sale_line list \<Rightarrow> category_month" where
  "category_row k g = (case k of (sc, c, sub, b) \<Rightarrow> \<lparr>cm_scope = sc, cm_category = c, cm_subcategory = sub, cm_brand_group = b,
     cm_total_sales = sum_list (map (\<lambda>l. lv_total_value (fst l)) g),
     cm_total_quantity = sum_list (map (\<lambda>l. lv_quantity (fst l)) g)\<rparr>)"

section \<open>Statements\<close>

text \<open>\<^verbatim>\<open>::INT\<close> and \<^verbatim>\<open>::NUMERIC(12, 2)\<close> (in cents)\<close>

definition int4 :: "int \<Rightarrow> bool" where
  "int4 n \<longleftrightarrow> - (2 ^ 31) \<le> n \<and> n < 2 ^ 31"

definition numeric_12_2 :: "int \<Rightarrow> bool" where
  "numeric_12_2 c \<longleftrightarrow> \<bar>c\<bar> < 10 ^ 12"

definition insert_report :: "('r \<Rightarrow> 'k) \<Rightarrow> ('r \<Rightarrow> bool) \<Rightarrow> 'r list \<Rightarrow> 'r list \<Rightarrow> (reporting_error, 'r list) result" where
  "insert_report pk fits rows t =
     (if \<not> list_all fits rows then Inl NumericOutOfRange
      else if \<not> distinct (map pk (t @ rows)) then Inl UniqueViolation else Inr (t @ rows))"

definition agent_day_fits :: "agent_day \<Rightarrow> bool" where
  "agent_day_fits r \<longleftrightarrow> numeric_12_2 (ad_total_sales r) \<and> list_all (\<lambda>f. int4 (f r)) [ad_total_quantity, ad_focus_quantity,
     ad_receipt_count, ad_receipt_2plus_count, ad_receipt_1_count, ad_receipt_2_count, ad_receipt_3_count, ad_receipt_4plus_count]"

definition agent_month_fits :: "agent_month \<Rightarrow> bool" where
  "agent_month_fits r \<longleftrightarrow> numeric_12_2 (am_total_sales r) \<and> list_all (\<lambda>f. int4 (f r)) [am_total_quantity, am_focus_quantity,
     am_receipt_count, am_receipt_2plus_count, am_receipt_1_count, am_receipt_2_count, am_receipt_3_count, am_receipt_4plus_count, am_working_days]"

definition item_day_fits :: "item_day \<Rightarrow> bool" where
  "item_day_fits r \<longleftrightarrow> numeric_12_2 (it_total_sales r)
     \<and> list_all (\<lambda>f. int4 (f r)) [it_net_quantity, it_positive_quantity, it_return_quantity, it_receipt_count]"

definition item_month_fits :: "item_month \<Rightarrow> bool" where
  "item_month_fits r \<longleftrightarrow> numeric_12_2 (im_total_sales r)
     \<and> list_all (\<lambda>f. int4 (f r)) [im_net_quantity, im_positive_quantity, im_return_quantity, im_receipt_count]"

definition agent_pk :: "report_scope \<Rightarrow> string \<times> string \<times> string" where
  "agent_pk k = (rp_import_month k, rp_site k, rp_agent k)"

record reporting_db =
  r_cartela_day :: "cartela_day list"
  r_agent_day :: "agent_day list"
  r_agent_month :: "agent_month list"
  r_item_day :: "item_day list"
  r_item_month :: "item_month list"
  r_focus_item_month :: "focus_item_month list"
  r_category_month :: "category_month list"

text \<open>What a rebuild reads besides the sales: the focus products, the collation, and the outcome of the premium glass table.\<close>

record reporting_env =
  re_focus_products :: "focus_product list"
  re_top :: "string list \<Rightarrow> string"
  re_premium_ok :: bool

definition rebuild_reporting_cartela_month ::
  "string \<Rightarrow> live_row list \<Rightarrow> store_info list \<Rightarrow> cartela_day list \<Rightarrow> (reporting_error, cartela_day list) result" where
  "rebuild_reporting_cartela_month month live stores t =
     insert_report (\<lambda>r. (cd_import_month r, cd_sale_date r, cd_site r, cd_agent r)) (\<lambda>r. int4 (cd_total_quantity r))
       (rollup_rows cartela_key cartela_row (filter (\<lambda>(t, s). lv_is_cartela t \<and> \<not> distribution_location (si_locatie s))
         (sales_join month live stores)))
       (filter (\<lambda>r. cd_import_month r \<noteq> month) t)"

definition tmp_reporting_receipts :: "sale_line list \<Rightarrow> (reporting_error, receipt_total list) result" where
  "tmp_reporting_receipts ls = (let rows = rollup_rows report_receipt_key report_receipt_row ls in
     if list_all (\<lambda>r. int4 (rc_net_quantity r)) rows then Inr rows else Inl NumericOutOfRange)"

definition joined_lines :: "focus_product list \<Rightarrow> receipt_total list \<Rightarrow> sale_line list \<Rightarrow> joined_line list" where
  "joined_lines fps receipts ls = left_join (\<lambda>x r. receipt_row_key r = report_receipt_key (fst x)) receipts
     (left_join (\<lambda>l f. fp_item_code f = lv_item_code (fst l)) fps ls)"

definition insert_agent_day :: "focus_product list \<Rightarrow> sale_line list \<Rightarrow> agent_day list \<Rightarrow> (reporting_error, agent_day list) result" where
  "insert_agent_day fps ls t = res_bind (tmp_reporting_receipts ls) (\<lambda>receipts.
     insert_report (\<lambda>r. (agent_pk (ad_scope r), ad_sale_date r)) agent_day_fits
       (rollup_rows agent_day_key agent_day_row (joined_lines fps receipts ls)) t)"

definition insert_agent_month :: "string \<Rightarrow> agent_day list \<Rightarrow> agent_month list \<Rightarrow> (reporting_error, agent_month list) result" where
  "insert_agent_month month days t = insert_report (\<lambda>r. agent_pk (am_scope r)) agent_month_fits
     (rollup_rows ad_scope agent_month_row (filter (\<lambda>r. rp_import_month (ad_scope r) = month) days)) t"

definition insert_item_day :: "(string list \<Rightarrow> string) \<Rightarrow> sale_line list \<Rightarrow> item_day list \<Rightarrow> (reporting_error, item_day list) result" where
  "insert_item_day hi ls t = insert_report (\<lambda>r. (agent_pk (it_scope r), it_sale_date r, it_item_code r)) item_day_fits
     (rollup_rows report_item_key (item_day_row hi) ls) t"

definition insert_focus_item_month ::
  "(string list \<Rightarrow> string) \<Rightarrow> focus_product list \<Rightarrow> sale_line list \<Rightarrow> focus_item_month list \<Rightarrow> (reporting_error, focus_item_month list) result" where
  "insert_focus_item_month hi fps ls t = insert_report (\<lambda>r. (agent_pk (fm_scope r), fm_item_code r))
     (\<lambda>r. numeric_12_2 (fm_total_sales r) \<and> int4 (fm_total_quantity r)) (rollup_rows focus_key (focus_row hi) (focus_join fps ls)) t"

definition insert_item_month :: "(string list \<Rightarrow> string) \<Rightarrow> string \<Rightarrow> item_day list \<Rightarrow> item_month list \<Rightarrow> (reporting_error, item_month list) result" where
  "insert_item_month hi month days t = insert_report (\<lambda>r. (agent_pk (im_scope r), im_item_code r)) item_month_fits
     (rollup_rows (\<lambda>r. (it_scope r, it_item_code r)) (item_month_row hi) (filter (\<lambda>r. rp_import_month (it_scope r) = month) days)) t"

definition insert_category_month :: "sale_line list \<Rightarrow> category_month list \<Rightarrow> (reporting_error, category_month list) result" where
  "insert_category_month ls t = insert_report (\<lambda>r. (agent_pk (cm_scope r), cm_category r, cm_subcategory r, cm_brand_group r))
     (\<lambda>r. numeric_12_2 (cm_total_sales r) \<and> int4 (cm_total_quantity r)) (rollup_rows category_key category_row ls) t"

definition other_month :: "('r \<Rightarrow> report_scope) \<Rightarrow> string \<Rightarrow> 'r list \<Rightarrow> 'r list" where
  "other_month sc month t = filter (\<lambda>r. rp_import_month (sc r) \<noteq> month) t"

definition rebuild_reporting_month ::
  "reporting_env \<Rightarrow> string \<Rightarrow> live_row list \<Rightarrow> store_info list \<Rightarrow> reporting_db \<Rightarrow> (reporting_error, reporting_db) result" where
  "rebuild_reporting_month env month live stores db =
     (let ls = retail_lines month live stores; fps = re_focus_products env; hi = re_top env in
      res_bind (rebuild_reporting_cartela_month month live stores (r_cartela_day db)) (\<lambda>cartela.
      res_bind (insert_agent_day fps ls (other_month ad_scope month (r_agent_day db))) (\<lambda>agent_days.
      res_bind (insert_agent_month month agent_days (other_month am_scope month (r_agent_month db))) (\<lambda>agent_months.
      res_bind (insert_item_day hi ls (other_month it_scope month (r_item_day db))) (\<lambda>item_days.
      res_bind (insert_focus_item_month hi fps ls (other_month fm_scope month (r_focus_item_month db))) (\<lambda>focus.
      res_bind (insert_item_month hi month item_days (other_month im_scope month (r_item_month db))) (\<lambda>item_months.
      res_bind (insert_category_month ls (other_month cm_scope month (r_category_month db))) (\<lambda>categories.
        if \<not> re_premium_ok env then Inl PremiumGlassError
        else Inr \<lparr>r_cartela_day = cartela, r_agent_day = agent_days, r_agent_month = agent_months, r_item_day = item_days,
          r_item_month = item_months, r_focus_item_month = focus, r_category_month = categories\<rparr>))))))))"

end
