(* ===== verification/Reporting_Correctness.thy ===== *)
theory Reporting_Correctness
  imports Reporting_Month
begin

text \<open>
  The reporting tables against the sales they are built from: joins that neither lose nor repeat a
  line, every table an interpretation of the rollup interface, totals that agree between the tables,
  receipts counted once, and a rebuild that succeeds within the widths of the columns.
\<close>

section \<open>Joins\<close>

text \<open>The retail sales of a month: no SIM cards, no distribution locations.\<close>

definition retail_sale :: "string \<Rightarrow> store_info list \<Rightarrow> live_row \<Rightarrow> bool" where
  "retail_sale month stores t \<longleftrightarrow> lv_import_month t = month \<and> \<not> lv_is_cartela t
     \<and> (case row_by si_site (lv_site t) stores of None \<Rightarrow> False | Some s \<Rightarrow> \<not> distribution_location (si_locatie s))"

definition retail_sales :: "string \<Rightarrow> store_info list \<Rightarrow> live_row list \<Rightarrow> live_row list" where
  "retail_sales month stores live = filter (retail_sale month stores) live"

lemma filter_unique_key:
  assumes "distinct (map key ys)"
  shows "filter (\<lambda>y. key y = k) ys = (case row_by key k ys of None \<Rightarrow> [] | Some y \<Rightarrow> [y])"
  using assms by (induction ys) (auto simp: filter_empty_conv image_iff split: option.splits, metis row_by_SomeD)

lemma sales_join_unique:
  assumes "distinct (map si_site stores)"
  shows "sales_join month live stores = concat (map (\<lambda>t. case row_by si_site (lv_site t) stores of None \<Rightarrow> [] | Some s \<Rightarrow> [(t, s)])
    (filter (\<lambda>t. lv_import_month t = month) live))"
  unfolding sales_join_def
  by (intro arg_cong [where f = concat] map_cong [OF refl]) (simp add: filter_unique_key [OF assms] split: option.splits)

lemma retail_lines_sales:
  assumes "distinct (map si_site stores)"
  shows "map fst (retail_lines month live stores) = retail_sales month stores live"
proof (induction live)
  case (Cons t live)
  then show ?case
    by (auto simp: retail_lines_def sales_join_unique [OF assms] retail_sales_def retail_sale_def split: option.splits)
qed (simp add: retail_lines_def sales_join_def retail_sales_def)

lemma retail_lines_mem:
  assumes "l \<in> set (retail_lines month live stores)"
  shows "lv_import_month (fst l) = month \<and> snd l \<in> set stores \<and> si_site (snd l) = lv_site (fst l)"
  using assms by (auto simp: retail_lines_def sales_join_def)

lemma left_join_unique:
  assumes "\<And>x. x \<in> set xs \<Longrightarrow> length (filter (on x) ys) \<le> 1"
  shows "left_join on ys xs = map (\<lambda>x. (x, List.find (on x) ys)) xs"
proof -
  have "(case filter (on x) ys of [] \<Rightarrow> [(x, None)] | ms \<Rightarrow> map (\<lambda>y. (x, Some y)) ms) = [(x, List.find (on x) ys)]"
    if "x \<in> set xs" for x
  proof (cases "filter (on x) ys")
    case Nil
    then have "List.find (on x) ys = None" by (simp add: find_None_iff filter_empty_conv)
    then show ?thesis using Nil by simp
  next
    case (Cons y ms)
    then have "ms = []" using assms [OF that] by simp
    moreover have "List.find (on x) ys = Some y" using Cons by (induction ys) (auto split: if_splits)
    ultimately show ?thesis using Cons by simp
  qed
  then have "left_join on ys xs = concat (map (\<lambda>x. [(x, List.find (on x) ys)]) xs)"
    unfolding left_join_def by (intro arg_cong [where f = concat] map_cong [OF refl])
  then show ?thesis by (induction xs) auto
qed

lemma unique_key_matches:
  assumes "distinct (map key ys)"
  shows "length (filter (\<lambda>y. key y = k) ys) \<le> 1"
  by (simp add: filter_unique_key [OF assms] split: option.splits)

section \<open>The tables as rollups\<close>

interpretation rc: rollup report_receipt_key report_receipt_row receipt_row_key
  by unfold_locales (auto simp: report_receipt_row_def receipt_row_key_def)

interpretation rc_net: rollup_sum report_receipt_key report_receipt_row receipt_row_key "\<lambda>l. lv_quantity (fst l)" rc_net_quantity
  by unfold_locales (auto simp: report_receipt_row_def)

definition agent_day_row_key :: "agent_day \<Rightarrow> report_scope \<times> sale_day" where
  "agent_day_row_key r = (ad_scope r, ad_sale_date r)"

interpretation ad_sales: rollup_sum agent_day_key agent_day_row agent_day_row_key "\<lambda>x. lv_total_value (joined_sale x)" ad_total_sales
  by unfold_locales (auto simp: agent_day_row_def agent_day_row_key_def)

interpretation ad_qty: rollup_sum agent_day_key agent_day_row agent_day_row_key "\<lambda>x. lv_quantity (joined_sale x)" ad_total_quantity
  by unfold_locales (auto simp: agent_day_row_def)

interpretation ad_focus: rollup_sum agent_day_key agent_day_row agent_day_row_key focus_quantity ad_focus_quantity
  by unfold_locales (auto simp: agent_day_row_def)

interpretation am_sales: rollup_sum ad_scope agent_month_row am_scope ad_total_sales am_total_sales
  by unfold_locales (auto simp: agent_month_row_def)

interpretation am_qty: rollup_sum ad_scope agent_month_row am_scope ad_total_quantity am_total_quantity
  by unfold_locales (auto simp: agent_month_row_def)

interpretation am_focus: rollup_sum ad_scope agent_month_row am_scope ad_focus_quantity am_focus_quantity
  by unfold_locales (auto simp: agent_month_row_def)

interpretation am_days: rollup_sum ad_scope agent_month_row am_scope "\<lambda>_. 1" am_working_days
  by unfold_locales (auto simp: agent_month_row_def sum_list_triv)

definition item_day_row_key :: "item_day \<Rightarrow> report_scope \<times> sale_day \<times> string" where
  "item_day_row_key r = (it_scope r, it_sale_date r, it_item_code r)"

interpretation it_sales: rollup_sum report_item_key "item_day_row hi" item_day_row_key "\<lambda>l. lv_total_value (fst l)" it_total_sales for hi
  by unfold_locales (auto simp: item_day_row_def item_day_row_key_def)

interpretation it_net: rollup_sum report_item_key "item_day_row hi" item_day_row_key "\<lambda>l. lv_quantity (fst l)" it_net_quantity for hi
  by unfold_locales (auto simp: item_day_row_def)

definition item_month_row_key :: "item_month \<Rightarrow> report_scope \<times> string" where
  "item_month_row_key r = (im_scope r, im_item_code r)"

interpretation im_sales: rollup_sum "\<lambda>r. (it_scope r, it_item_code r)" "item_month_row hi" item_month_row_key it_total_sales im_total_sales for hi
  by unfold_locales (auto simp: item_month_row_def item_month_row_key_def)

interpretation im_net: rollup_sum "\<lambda>r. (it_scope r, it_item_code r)" "item_month_row hi" item_month_row_key it_net_quantity im_net_quantity for hi
  by unfold_locales (auto simp: item_month_row_def)

definition category_row_key :: "category_month \<Rightarrow> report_scope \<times> string \<times> string \<times> string" where
  "category_row_key r = (cm_scope r, cm_category r, cm_subcategory r, cm_brand_group r)"

interpretation cm_sales: rollup_sum category_key category_row category_row_key "\<lambda>l. lv_total_value (fst l)" cm_total_sales
  by unfold_locales (auto simp: category_row_def category_row_key_def)

interpretation cm_qty: rollup_sum category_key category_row category_row_key "\<lambda>l. lv_quantity (fst l)" cm_total_quantity
  by unfold_locales (auto simp: category_row_def)

section \<open>Totals\<close>

text \<open>What was sold at the stores and by the agents selected by \<open>P\<close>, and what a table reports for them.\<close>

definition sold :: "(live_row \<Rightarrow> int) \<Rightarrow> (string \<Rightarrow> string \<Rightarrow> bool) \<Rightarrow> live_row list \<Rightarrow> int" where
  "sold f P ts = sum_list (map f (filter (\<lambda>t. P (lv_site t) (lv_agent t)) ts))"

definition reported :: "('r \<Rightarrow> report_scope) \<Rightarrow> ('r \<Rightarrow> int) \<Rightarrow> string \<Rightarrow> (string \<Rightarrow> string \<Rightarrow> bool) \<Rightarrow> 'r list \<Rightarrow> int" where
  "reported sc c month P t =
     sum_list (map c (filter (\<lambda>r. rp_import_month (sc r) = month \<and> P (rp_site (sc r)) (rp_agent (sc r))) t))"

lemma insert_report_Inr: "insert_report pk fits rows t = Inr t' \<longleftrightarrow> list_all fits rows \<and> distinct (map pk (t @ rows)) \<and> t' = t @ rows"
  by (auto simp: insert_report_def)

lemma reported_new:
  assumes "\<And>r. r \<in> set rows \<Longrightarrow> rp_import_month (sc r) = month"
  shows "reported sc c month P (other_month sc month t @ rows) = sum_list (map c (filter (\<lambda>r. P (rp_site (sc r)) (rp_agent (sc r))) rows))"
    and "other_month sc month (other_month sc month t @ rows) = other_month sc month t"
    and "filter (\<lambda>r. rp_import_month (sc r) = month) (other_month sc month t @ rows) = rows"
proof -
  have old: "filter (\<lambda>r. rp_import_month (sc r) = month \<and> Q r) (other_month sc month t) = []" for Q
    by (auto simp: other_month_def filter_empty_conv)
  have new: "filter (\<lambda>r. rp_import_month (sc r) = month \<and> Q r) rows = filter Q rows" for Q
    using assms by (auto intro: filter_cong)
  show "reported sc c month P (other_month sc month t @ rows) = sum_list (map c (filter (\<lambda>r. P (rp_site (sc r)) (rp_agent (sc r))) rows))"
    by (simp add: reported_def old new)
  have "filter (\<lambda>r. rp_import_month (sc r) \<noteq> month) rows = []" using assms by (auto simp: filter_empty_conv)
  then show "other_month sc month (other_month sc month t @ rows) = other_month sc month t"
    by (simp add: other_month_def)
  show "filter (\<lambda>r. rp_import_month (sc r) = month) (other_month sc month t @ rows) = rows"
    using old [of "\<lambda>_. True"] new [of "\<lambda>_. True"] by simp
qed

lemma scope_of_simps [simp]:
  "rp_import_month (scope_of l) = lv_import_month (fst l)" "rp_site (scope_of l) = lv_site (fst l)"
  "rp_agent (scope_of l) = lv_agent (fst l)"
  by (simp_all add: scope_of_def case_prod_unfold)

lemma sold_lines:
  assumes "distinct (map si_site stores)"
  shows "sum_list (map (\<lambda>l. f (fst l)) (filter (\<lambda>l. P (lv_site (fst l)) (lv_agent (fst l))) (retail_lines month live stores)))
    = sold f P (retail_sales month stores live)"
proof -
  have "sold f P (map fst (retail_lines month live stores))
      = sum_list (map (\<lambda>l. f (fst l)) (filter (\<lambda>l. P (lv_site (fst l)) (lv_agent (fst l))) (retail_lines month live stores)))"
    by (simp add: sold_def filter_map comp_def)
  then show ?thesis by (simp add: retail_lines_sales [OF assms])
qed

text \<open>Joining the focus products and the receipts keeps the lines as they are.\<close>

lemma joined_lines_sales:
  assumes "distinct (map fp_item_code fps)" and "distinct (map receipt_row_key receipts)"
  shows "map (\<lambda>x. fst (fst x)) (joined_lines fps receipts ls) = ls"
    and "joined_lines fps receipts ls = map (\<lambda>l. ((l, row_by fp_item_code (lv_item_code (fst l)) fps), row_by receipt_row_key (report_receipt_key l) receipts)) ls"
proof -
  show "joined_lines fps receipts ls = map (\<lambda>l. ((l, row_by fp_item_code (lv_item_code (fst l)) fps), row_by receipt_row_key (report_receipt_key l) receipts)) ls"
    using unique_key_matches [OF assms(1)] unique_key_matches [OF assms(2)]
    by (simp add: joined_lines_def left_join_unique row_by_def)
  then show "map (\<lambda>x. fst (fst x)) (joined_lines fps receipts ls) = ls" by (simp add: comp_def)
qed

lemma joined_lines_sum:
  assumes "distinct (map fp_item_code fps)" and "distinct (map receipt_row_key receipts)"
  shows "sum_list (map (\<lambda>x. f (joined_sale x)) (filter (\<lambda>x. P (fst (fst x))) (joined_lines fps receipts ls)))
    = sum_list (map (\<lambda>l. f (fst l)) (filter P ls))"
  by (simp add: joined_lines_sales(2) [OF assms] filter_map comp_def joined_sale_def)

text \<open>The lines of the day's query, with the receipts as the temporary table holds them.\<close>

definition day_lines :: "reporting_env \<Rightarrow> sale_line list \<Rightarrow> joined_line list" where
  "day_lines env ls = joined_lines (re_focus_products env) (rollup_rows report_receipt_key report_receipt_row ls) ls"

lemma day_lines_map:
  assumes "distinct (map fp_item_code (re_focus_products env))"
  shows "day_lines env ls = map (\<lambda>l. ((l, row_by fp_item_code (lv_item_code (fst l)) (re_focus_products env)),
    row_by receipt_row_key (report_receipt_key l) (rollup_rows report_receipt_key report_receipt_row ls))) ls"
  unfolding day_lines_def by (rule joined_lines_sales(2) [OF assms rc.keys_distinct])

text \<open>The rows a rebuild writes for the month, table by table.\<close>

lemma rebuild_rows:
  assumes "rebuild_reporting_month env month live stores db = Inr db'"
  defines "ls \<equiv> retail_lines month live stores"
  shows "r_agent_day db' = other_month ad_scope month (r_agent_day db) @ rollup_rows agent_day_key agent_day_row (day_lines env ls)"
    and "r_agent_month db' = other_month am_scope month (r_agent_month db)
      @ rollup_rows ad_scope agent_month_row (filter (\<lambda>r. rp_import_month (ad_scope r) = month) (r_agent_day db'))"
    and "r_item_day db' = other_month it_scope month (r_item_day db) @ rollup_rows report_item_key (item_day_row (re_top env)) ls"
    and "r_item_month db' = other_month im_scope month (r_item_month db) @ rollup_rows (\<lambda>r. (it_scope r, it_item_code r))
      (item_month_row (re_top env)) (filter (\<lambda>r. rp_import_month (it_scope r) = month) (r_item_day db'))"
    and "r_category_month db' = other_month cm_scope month (r_category_month db) @ rollup_rows category_key category_row ls"
    and "r_focus_item_month db' = other_month fm_scope month (r_focus_item_month db)
      @ rollup_rows focus_key (focus_row (re_top env)) (focus_join (re_focus_products env) ls)"
proof -
  from assms(1) obtain cartela where "\<not> \<not> re_premium_ok env"
    and ad: "insert_agent_day (re_focus_products env) ls (other_month ad_scope month (r_agent_day db)) = Inr (r_agent_day db')"
    and am: "insert_agent_month month (r_agent_day db') (other_month am_scope month (r_agent_month db)) = Inr (r_agent_month db')"
    and it: "insert_item_day (re_top env) ls (other_month it_scope month (r_item_day db)) = Inr (r_item_day db')"
    and fm: "insert_focus_item_month (re_top env) (re_focus_products env) ls (other_month fm_scope month (r_focus_item_month db)) = Inr (r_focus_item_month db')"
    and im: "insert_item_month (re_top env) month (r_item_day db') (other_month im_scope month (r_item_month db)) = Inr (r_item_month db')"
    and cm: "insert_category_month ls (other_month cm_scope month (r_category_month db)) = Inr (r_category_month db')"
    unfolding rebuild_reporting_month_def Let_def res_bind_Inr ls_def [symmetric]
    by (elim exE conjE) (simp split: if_splits, force)
  from ad show "r_agent_day db' = other_month ad_scope month (r_agent_day db) @ rollup_rows agent_day_key agent_day_row (day_lines env ls)"
    by (auto simp: insert_agent_day_def res_bind_Inr insert_report_Inr tmp_reporting_receipts_def Let_def day_lines_def split: if_splits)
  from am show "r_agent_month db' = other_month am_scope month (r_agent_month db)
      @ rollup_rows ad_scope agent_month_row (filter (\<lambda>r. rp_import_month (ad_scope r) = month) (r_agent_day db'))"
    by (simp add: insert_agent_month_def insert_report_Inr)
  from it show "r_item_day db' = other_month it_scope month (r_item_day db) @ rollup_rows report_item_key (item_day_row (re_top env)) ls"
    by (simp add: insert_item_day_def insert_report_Inr)
  from im show "r_item_month db' = other_month im_scope month (r_item_month db) @ rollup_rows (\<lambda>r. (it_scope r, it_item_code r))
      (item_month_row (re_top env)) (filter (\<lambda>r. rp_import_month (it_scope r) = month) (r_item_day db'))"
    by (simp add: insert_item_month_def insert_report_Inr)
  from cm show "r_category_month db' = other_month cm_scope month (r_category_month db) @ rollup_rows category_key category_row ls"
    by (simp add: insert_category_month_def insert_report_Inr)
  from fm show "r_focus_item_month db' = other_month fm_scope month (r_focus_item_month db)
      @ rollup_rows focus_key (focus_row (re_top env)) (focus_join (re_focus_products env) ls)"
    by (simp add: insert_focus_item_month_def insert_report_Inr)
qed

lemma month_rows:
  assumes db: "rebuild_reporting_month env month live stores db = Inr db'" and fps: "distinct (map fp_item_code (re_focus_products env))"
  defines "ls \<equiv> retail_lines month live stores"
  shows "filter (\<lambda>r. rp_import_month (ad_scope r) = month) (r_agent_day db') = rollup_rows agent_day_key agent_day_row (day_lines env ls)"
    and "filter (\<lambda>r. rp_import_month (am_scope r) = month) (r_agent_month db')
      = rollup_rows ad_scope agent_month_row (filter (\<lambda>r. rp_import_month (ad_scope r) = month) (r_agent_day db'))"
    and "filter (\<lambda>r. rp_import_month (it_scope r) = month) (r_item_day db') = rollup_rows report_item_key (item_day_row (re_top env)) ls"
    and "filter (\<lambda>r. rp_import_month (im_scope r) = month) (r_item_month db') = rollup_rows (\<lambda>r. (it_scope r, it_item_code r))
      (item_month_row (re_top env)) (filter (\<lambda>r. rp_import_month (it_scope r) = month) (r_item_day db'))"
    and "filter (\<lambda>r. rp_import_month (cm_scope r) = month) (r_category_month db') = rollup_rows category_key category_row ls"
proof -
  note t = rebuild_rows [OF db, folded ls_def]
  have ls: "lv_import_month (fst l) = month" if "l \<in> set ls" for l using retail_lines_mem that by (auto simp: ls_def)
  show "filter (\<lambda>r. rp_import_month (ad_scope r) = month) (r_agent_day db') = rollup_rows agent_day_key agent_day_row (day_lines env ls)"
    unfolding t(1) by (rule reported_new(3)) (auto simp: mem_rollup agent_day_row_def agent_day_key_def day_lines_map [OF fps] dest: ls)
  show "filter (\<lambda>r. rp_import_month (am_scope r) = month) (r_agent_month db')
      = rollup_rows ad_scope agent_month_row (filter (\<lambda>r. rp_import_month (ad_scope r) = month) (r_agent_day db'))"
    by (subst t(2), rule reported_new(3)) (auto simp: mem_rollup agent_month_row_def)
  show "filter (\<lambda>r. rp_import_month (it_scope r) = month) (r_item_day db') = rollup_rows report_item_key (item_day_row (re_top env)) ls"
    unfolding t(3) by (rule reported_new(3)) (auto simp: mem_rollup item_day_row_def report_item_key_def dest: ls)
  show "filter (\<lambda>r. rp_import_month (im_scope r) = month) (r_item_month db') = rollup_rows (\<lambda>r. (it_scope r, it_item_code r))
      (item_month_row (re_top env)) (filter (\<lambda>r. rp_import_month (it_scope r) = month) (r_item_day db'))"
    by (subst t(4), rule reported_new(3)) (auto simp: mem_rollup item_month_row_def)
  show "filter (\<lambda>r. rp_import_month (cm_scope r) = month) (r_category_month db') = rollup_rows category_key category_row ls"
    unfolding t(5) by (rule reported_new(3)) (auto simp: mem_rollup category_row_def category_key_def dest: ls)
qed

lemma reported_month: "reported sc c month P t = sum_list (map c (filter (\<lambda>r. P (rp_site (sc r)) (rp_agent (sc r))) (filter (\<lambda>r. rp_import_month (sc r) = month) t)))"
  by (simp add: reported_def conj_commute)

text \<open>A column that sums a measure of the sales reports what was sold, in the daily table and in the monthly one built from it.\<close>

lemma agent_tables_report:
  assumes db: "rebuild_reporting_month env month live stores db = Inr db'"
    and fps: "distinct (map fp_item_code (re_focus_products env))" and st: "distinct (map si_site stores)"
    and d: "rollup_sum agent_day_row agent_day_row_key (\<lambda>x. f (joined_sale x)) dc" and m: "rollup_sum agent_month_row am_scope dc mc"
  shows "reported ad_scope dc month P (r_agent_day db') = sold f P (retail_sales month stores live)"
    and "reported am_scope mc month P (r_agent_month db') = sold f P (retail_sales month stores live)"
proof -
  let ?ls = "retail_lines month live stores"
  note rows = month_rows [OF db fps]
  show day: "reported ad_scope dc month P (r_agent_day db') = sold f P (retail_sales month stores live)"
    unfolding reported_month rows(1) sold_lines [OF st, symmetric]
    using rollup_sum.total_where [OF d, where P = "\<lambda>k. P (rp_site (fst k)) (rp_agent (fst k))" and key = agent_day_key and xs = "day_lines env ?ls"]
    by (simp add: agent_day_row_key_def agent_day_key_def day_lines_map [OF fps] filter_map comp_def joined_sale_def)
  show "reported am_scope mc month P (r_agent_month db') = sold f P (retail_sales month stores live)"
    using rollup_sum.total_where [OF m, where P = "\<lambda>k. P (rp_site k) (rp_agent k)" and key = ad_scope
        and xs = "filter (\<lambda>r. rp_import_month (ad_scope r) = month) (r_agent_day db')"] day
    unfolding reported_month rows(2) by (simp only:)
qed

lemma item_tables_report:
  assumes db: "rebuild_reporting_month env month live stores db = Inr db'"
    and fps: "distinct (map fp_item_code (re_focus_products env))" and st: "distinct (map si_site stores)"
    and d: "rollup_sum (item_day_row (re_top env)) item_day_row_key (\<lambda>l. f (fst l)) dc"
    and m: "rollup_sum (item_month_row (re_top env)) item_month_row_key dc mc"
  shows "reported it_scope dc month P (r_item_day db') = sold f P (retail_sales month stores live)"
    and "reported im_scope mc month P (r_item_month db') = sold f P (retail_sales month stores live)"
proof -
  let ?ls = "retail_lines month live stores"
  note rows = month_rows [OF db fps]
  show day: "reported it_scope dc month P (r_item_day db') = sold f P (retail_sales month stores live)"
    unfolding reported_month rows(3) sold_lines [OF st, symmetric]
    using rollup_sum.total_where [OF d, where P = "\<lambda>k. P (rp_site (fst k)) (rp_agent (fst k))" and key = report_item_key and xs = ?ls]
    by (simp add: item_day_row_key_def report_item_key_def)
  show "reported im_scope mc month P (r_item_month db') = sold f P (retail_sales month stores live)"
    using rollup_sum.total_where [OF m, where P = "\<lambda>k. P (rp_site (fst k)) (rp_agent (fst k))" and key = "\<lambda>r. (it_scope r, it_item_code r)"
        and xs = "filter (\<lambda>r. rp_import_month (it_scope r) = month) (r_item_day db')"] day
    unfolding reported_month rows(4) by (simp only: item_month_row_key_def fst_conv)
qed

lemma category_table_reports:
  assumes db: "rebuild_reporting_month env month live stores db = Inr db'"
    and fps: "distinct (map fp_item_code (re_focus_products env))" and st: "distinct (map si_site stores)"
    and d: "rollup_sum category_row category_row_key (\<lambda>l. f (fst l)) dc"
  shows "reported cm_scope dc month P (r_category_month db') = sold f P (retail_sales month stores live)"
  unfolding reported_month month_rows(5) [OF db fps] sold_lines [OF st, symmetric]
  using rollup_sum.total_where [OF d, where P = "\<lambda>k. P (rp_site (fst k)) (rp_agent (fst k))" and key = category_key
      and xs = "retail_lines month live stores"]
  by (simp add: category_row_key_def category_key_def)

section \<open>Receipts\<close>

text \<open>
  A receipt is the day, the store, the agent and the number; its net quantity sums all its lines. The receipts of an agent at
  a store whose net quantity satisfies \<open>P\<close>:
\<close>

definition receipt_net :: "live_row list \<Rightarrow> sale_day \<Rightarrow> string \<Rightarrow> string \<Rightarrow> string \<Rightarrow> int" where
  "receipt_net ts d site agent bon = sum_list (map lv_quantity
     (filter (\<lambda>t. lv_sale_date t = d \<and> lv_site t = site \<and> lv_agent t = agent \<and> lv_bon_nr t = bon) ts))"

definition receipts_of :: "(int \<Rightarrow> bool) \<Rightarrow> live_row list \<Rightarrow> string \<Rightarrow> string \<Rightarrow> (sale_day \<times> string) set" where
  "receipts_of P ts site agent = {(d, b). (\<exists>t \<in> set ts. lv_sale_date t = d \<and> lv_bon_nr t = b \<and> lv_site t = site \<and> lv_agent t = agent)
     \<and> P (receipt_net ts d site agent b)}"

lemma finite_receipts_of: "finite (receipts_of P ts site agent)"
  by (rule finite_subset [of _ "(\<lambda>t. (lv_sale_date t, lv_bon_nr t)) ` set ts"]) (force simp: receipts_of_def, simp)

lemma receipt_key_net:
  assumes st: "distinct (map si_site stores)" and l: "l \<in> set (retail_lines month live stores)"
  shows "sum_list (map (\<lambda>l. lv_quantity (fst l)) (filter (\<lambda>x. report_receipt_key x = report_receipt_key l) (retail_lines month live stores)))
    = receipt_net (retail_sales month stores live) (lv_sale_date (fst l)) (lv_site (fst l)) (lv_agent (fst l)) (lv_bon_nr (fst l))"
proof -
  let ?ls = "retail_lines month live stores"
  have "filter (\<lambda>x. report_receipt_key x = report_receipt_key l) ?ls = filter (\<lambda>x. lv_sale_date (fst x) = lv_sale_date (fst l) \<and> lv_site (fst x) = lv_site (fst l)
      \<and> lv_agent (fst x) = lv_agent (fst l) \<and> lv_bon_nr (fst x) = lv_bon_nr (fst l)) ?ls"
    using retail_lines_mem [OF l] by (intro filter_cong [OF refl]) (auto simp: report_receipt_key_def dest: retail_lines_mem)
  then show ?thesis
    unfolding receipt_net_def retail_lines_sales [OF st, symmetric] by (simp add: filter_map comp_def)
qed

lemma receipt_found:
  assumes "l \<in> set ls"
  shows "row_by receipt_row_key (report_receipt_key l) (rollup_rows report_receipt_key report_receipt_row ls)
    = Some (report_receipt_row (report_receipt_key l) (filter (\<lambda>x. report_receipt_key x = report_receipt_key l) ls))"
  by (rule row_by_unique [OF rc.keys_distinct]) (use assms in \<open>auto simp: mem_rollup rc.key_of_row\<close>)

lemma scope_eq_iff:
  assumes st: "distinct (map si_site stores)"
    and "l \<in> set (retail_lines month live stores)" and "l' \<in> set (retail_lines month live stores)"
  shows "scope_of l = scope_of l' \<longleftrightarrow> lv_site (fst l) = lv_site (fst l') \<and> lv_agent (fst l) = lv_agent (fst l')"
proof -
  have "snd l = snd l'" if "lv_site (fst l) = lv_site (fst l')"
    using distinct_key_eq [OF st, of "snd l" "snd l'"] retail_lines_mem [OF assms(2)] retail_lines_mem [OF assms(3)] that by simp
  moreover have "lv_import_month (fst l) = lv_import_month (fst l')" using retail_lines_mem [OF assms(2)] retail_lines_mem [OF assms(3)] by simp
  ultimately show ?thesis by (auto simp: scope_of_def case_prod_unfold)
qed

lemma day_receipts:
  assumes st: "distinct (map si_site stores)" and fps: "distinct (map fp_item_code (re_focus_products env))"
    and l: "l \<in> set (retail_lines month live stores)"
  defines "g \<equiv> filter (\<lambda>x. agent_day_key x = (scope_of l, lv_sale_date (fst l))) (day_lines env (retail_lines month live stores))"
  shows "receipts_with P g = int (card {b. (lv_sale_date (fst l), b) \<in> receipts_of P (retail_sales month stores live) (lv_site (fst l)) (lv_agent (fst l))})"
proof -
  let ?ls = "retail_lines month live stores" and ?ts = "retail_sales month stores live"
  have g: "set g = (\<lambda>m. ((m, row_by fp_item_code (lv_item_code (fst m)) (re_focus_products env)),
      row_by receipt_row_key (report_receipt_key m) (rollup_rows report_receipt_key report_receipt_row ?ls))) `
      {m \<in> set ?ls. scope_of m = scope_of l \<and> lv_sale_date (fst m) = lv_sale_date (fst l)}"
    by (auto simp: g_def day_lines_map [OF fps] agent_day_key_def joined_sale_def)
  have net: "joined_net P ((m, f), row_by receipt_row_key (report_receipt_key m) (rollup_rows report_receipt_key report_receipt_row ?ls))
      \<longleftrightarrow> P (receipt_net ?ts (lv_sale_date (fst m)) (lv_site (fst m)) (lv_agent (fst m)) (lv_bon_nr (fst m)))" if "m \<in> set ?ls" for m f
    using that by (simp add: receipt_found joined_net_def report_receipt_row_def receipt_key_net [OF st] split: prod.splits)
  have "(\<lambda>x. lv_bon_nr (joined_sale x)) ` {x \<in> set g. joined_net P x}
      = (\<lambda>m. lv_bon_nr (fst m)) ` {m \<in> set ?ls. lv_site (fst m) = lv_site (fst l) \<and> lv_agent (fst m) = lv_agent (fst l)
          \<and> lv_sale_date (fst m) = lv_sale_date (fst l)
          \<and> P (receipt_net ?ts (lv_sale_date (fst m)) (lv_site (fst m)) (lv_agent (fst m)) (lv_bon_nr (fst m)))}"
    unfolding g using net scope_eq_iff [OF st _ l] by (force simp: joined_sale_def)
  also have "\<dots> = {b. (lv_sale_date (fst l), b) \<in> receipts_of P ?ts (lv_site (fst l)) (lv_agent (fst l))}"
    unfolding receipts_of_def retail_lines_sales [OF st, symmetric] by force
  finally show ?thesis by (simp add: receipts_with_def count_distinct_card)
qed

lemma card_slices:
  assumes "finite R" and "finite D" and "fst ` R \<subseteq> D"
  shows "card R = (\<Sum>d \<in> D. card {b. (d, b) \<in> R})"
proof -
  have slice: "finite {b. (d, b) \<in> R}" for d
  proof (rule finite_subset)
    show "{b. (d, b) \<in> R} \<subseteq> snd ` R" by force
  qed (simp add: assms(1))
  have "R = (SIGMA d:D. {b. (d, b) \<in> R})" using assms(3) by force
  then have "card R = card (SIGMA d:D. {b. (d, b) \<in> R})" by simp
  also have "\<dots> = (\<Sum>d \<in> D. card {b. (d, b) \<in> R})" using assms(2) slice by (simp add: card_SigmaI)
  finally show ?thesis .
qed

lemma retail_sales_mem: "distinct (map si_site stores) \<Longrightarrow> t \<in> set (retail_sales month stores live) \<longleftrightarrow> t \<in> fst ` set (retail_lines month live stores)"
  by (simp add: retail_lines_sales [symmetric])

text \<open>A daily column that counts receipts, and the monthly column that sums it.\<close>

definition counts_receipts :: "(agent_day \<Rightarrow> int) \<Rightarrow> (int \<Rightarrow> bool) \<Rightarrow> bool" where
  "counts_receipts c P \<longleftrightarrow> (\<forall>k g. c (agent_day_row k g) = receipts_with P g)"

lemma counts_receipts_columns:
  "counts_receipts ad_receipt_count (\<lambda>n. 0 < n)" "counts_receipts ad_receipt_2plus_count (\<lambda>n. 2 \<le> n)"
  "counts_receipts ad_receipt_1_count (\<lambda>n. n = 1)" "counts_receipts ad_receipt_2_count (\<lambda>n. n = 2)"
  "counts_receipts ad_receipt_3_count (\<lambda>n. n = 3)" "counts_receipts ad_receipt_4plus_count (\<lambda>n. 4 \<le> n)"
  by (simp_all add: counts_receipts_def agent_day_row_def)

lemma agent_day_receipts:
  assumes db: "rebuild_reporting_month env month live stores db = Inr db'"
    and fps: "distinct (map fp_item_code (re_focus_products env))" and st: "distinct (map si_site stores)"
    and r: "r \<in> set (r_agent_day db')" "rp_import_month (ad_scope r) = month" and c: "counts_receipts c P"
  shows "c r = int (card {b. (ad_sale_date r, b) \<in> receipts_of P (retail_sales month stores live) (rp_site (ad_scope r)) (rp_agent (ad_scope r))})"
proof -
  let ?ls = "retail_lines month live stores"
  have "r \<in> set (filter (\<lambda>r. rp_import_month (ad_scope r) = month) (r_agent_day db'))" using r by simp
  then obtain l where l: "l \<in> set ?ls"
    and rr: "r = agent_day_row (scope_of l, lv_sale_date (fst l)) (filter (\<lambda>x. agent_day_key x = (scope_of l, lv_sale_date (fst l))) (day_lines env ?ls))"
    unfolding month_rows(1) [OF db fps] by (auto simp: mem_rollup day_lines_map [OF fps] agent_day_key_def joined_sale_def)
  have key: "ad_scope r = scope_of l" "ad_sale_date r = lv_sale_date (fst l)" by (simp_all add: rr agent_day_row_def)
  have "c r = receipts_with P (filter (\<lambda>x. agent_day_key x = (scope_of l, lv_sale_date (fst l))) (day_lines env ?ls))"
    using c unfolding counts_receipts_def by (subst rr) (simp only:)
  then show ?thesis unfolding day_receipts [OF st fps l] key by simp
qed

lemma agent_month_receipts:
  assumes db: "rebuild_reporting_month env month live stores db = Inr db'"
    and fps: "distinct (map fp_item_code (re_focus_products env))" and st: "distinct (map si_site stores)"
    and r: "r \<in> set (r_agent_month db')" "rp_import_month (am_scope r) = month"
    and c: "counts_receipts c P" and m: "rollup_sum agent_month_row am_scope c mc"
  shows "mc r = int (card (receipts_of P (retail_sales month stores live) (rp_site (am_scope r)) (rp_agent (am_scope r))))"
proof -
  let ?ls = "retail_lines month live stores" and ?ts = "retail_sales month stores live"
  let ?days = "filter (\<lambda>r. rp_import_month (ad_scope r) = month) (r_agent_day db')"
  let ?g = "filter (\<lambda>d. ad_scope d = am_scope r) ?days"
  let ?R = "receipts_of P ?ts (rp_site (am_scope r)) (rp_agent (am_scope r))"
  note day = month_rows(1) [OF db fps]
  have "r \<in> set (filter (\<lambda>r. rp_import_month (am_scope r) = month) (r_agent_month db'))" using r by simp
  then have mem: "r \<in> set (rollup_rows ad_scope agent_month_row ?days)" unfolding month_rows(2) [OF db fps] .
  then have "r = agent_month_row (am_scope r) ?g" by (rule am_sales.row_unique)
  then have sum: "mc r = sum_list (map c ?g)" using rollup_sum.column_of_row [OF m] by metis
  have "map c ?g = map (\<lambda>d. int (card {b. (d, b) \<in> ?R})) (map ad_sale_date ?g)"
    by (auto simp: agent_day_receipts [OF db fps st _ _ c])
  moreover have dist: "distinct (map ad_sale_date ?g)"
  proof -
    have "distinct (map agent_day_row_key ?days)" unfolding day by (rule ad_sales.keys_distinct)
    then have "distinct (map agent_day_row_key ?g)" by (rule distinct_map_filter)
    then show ?thesis by (auto simp: distinct_map inj_on_def agent_day_row_key_def)
  qed
  ultimately have "mc r = (\<Sum>d \<in> set (map ad_sale_date ?g). int (card {b. (d, b) \<in> ?R}))"
    unfolding sum by (simp only: sum_list_distinct_conv_sum_set)
  also have "\<dots> = int (card ?R)"
  proof -
    have "fst ` ?R \<subseteq> set (map ad_sale_date ?g)"
    proof
      fix d assume "d \<in> fst ` ?R"
      then obtain l where l: "l \<in> set ?ls" "lv_sale_date (fst l) = d" "lv_site (fst l) = rp_site (am_scope r)" "lv_agent (fst l) = rp_agent (am_scope r)"
        using retail_sales_mem [OF st, of _ month live] by (auto simp: receipts_of_def)
      obtain l' where l': "l' \<in> set ?ls" "am_scope r = scope_of l'"
      proof -
        have "am_scope r \<in> ad_scope ` set ?days" using imageI [OF mem, of am_scope] by (simp only: am_sales.keys_set)
        then obtain e where e: "e \<in> set ?days" "ad_scope e = am_scope r" by auto
        have "agent_day_row_key e \<in> agent_day_key ` set (day_lines env ?ls)"
          using imageI [OF e(1), of agent_day_row_key] unfolding day by (simp only: ad_sales.keys_set)
        then show thesis using e(2) that by (auto simp: day_lines_map [OF fps] agent_day_key_def agent_day_row_key_def)
      qed
      have sc: "scope_of l = am_scope r" using scope_eq_iff [OF st l(1) l'(1)] l l' by simp
      have "(scope_of l, d) \<in> agent_day_row_key ` set ?days"
        unfolding day ad_sales.keys_set day_lines_map [OF fps] using l(1,2)
        by (simp add: image_image agent_day_key_def joined_sale_def) (rule image_eqI [of _ _ l], simp_all)
      then show "d \<in> set (map ad_sale_date ?g)" using sc by (auto simp: agent_day_row_key_def)
    qed
    then show ?thesis using card_slices [OF finite_receipts_of, of "set (map ad_sale_date ?g)"] by simp
  qed
  finally show ?thesis .
qed

lemma receipts_split:
  assumes "\<And>n. P n \<longleftrightarrow> Q n \<or> Q' n" and "\<And>n. \<not> (Q n \<and> Q' n)"
  shows "card (receipts_of P ts site agent) = card (receipts_of Q ts site agent) + card (receipts_of Q' ts site agent)"
proof -
  have "receipts_of P ts site agent = receipts_of Q ts site agent \<union> receipts_of Q' ts site agent"
    using assms(1) by (auto simp: receipts_of_def)
  moreover have "receipts_of Q ts site agent \<inter> receipts_of Q' ts site agent = {}" using assms(2) by (auto simp: receipts_of_def)
  ultimately show ?thesis by (simp add: card_Un_disjoint finite_receipts_of)
qed

section \<open>A rebuild succeeds\<close>

lemma insert_month_ok:
  assumes "distinct (map pk t)" and "distinct (map pk rows)"
    and "\<And>r. r \<in> set rows \<Longrightarrow> fits r \<and> rp_import_month (sc r) = month"
    and "\<And>q r. pk q = pk r \<Longrightarrow> rp_import_month (sc q) = rp_import_month (sc r)"
  shows "insert_report pk fits rows (other_month sc month t) = Inr (other_month sc month t @ rows)"
proof -
  have "pk ` set (other_month sc month t) \<inter> pk ` set rows = {}"
  proof (rule equals0I, elim IntE imageE)
    fix q r y assume "y = pk q" "q \<in> set (other_month sc month t)" "y = pk r" "r \<in> set rows"
    with assms(3) [of r] assms(4) [of q r] show False by (simp add: other_month_def)
  qed
  moreover have "distinct (map pk (other_month sc month t))"
    using assms(1) by (simp add: other_month_def distinct_map_filter)
  ultimately show ?thesis
    using assms(2,3) by (auto simp: insert_report_Inr list_all_iff)
qed

text \<open>The widths: what the month's sales may add up to.\<close>

definition within_widths :: "live_row list \<Rightarrow> bool" where
  "within_widths ts \<longleftrightarrow> sum_list (map (\<lambda>t. \<bar>lv_total_value t\<bar>) ts) < 10 ^ 12 \<and> sum_list (map (\<lambda>t. \<bar>lv_quantity t\<bar>) ts) < 2 ^ 31
     \<and> length ts < 2 ^ 31"

lemma int4_of_bound: "\<bar>n\<bar> \<le> b \<Longrightarrow> b < 2 ^ 31 \<Longrightarrow> int4 n"
  by (auto simp: int4_def)

lemma join_weight:
  fixes w :: "live_row \<Rightarrow> int"
  assumes "distinct (map si_site stores)" and "\<And>t. 0 \<le> w t"
  shows "sum_list (map (\<lambda>l. w (fst l)) (sales_join month live stores)) \<le> sum_list (map w (filter (\<lambda>t. lv_import_month t = month) live))"
proof -
  have "sum_list (map (\<lambda>l. w (fst l)) (concat (map (\<lambda>t. case row_by si_site (lv_site t) stores of None \<Rightarrow> [] | Some s \<Rightarrow> [(t, s)]) ts)))
      \<le> sum_list (map w ts)" for ts
    using assms(2) by (induction ts) (auto split: option.splits intro: add_increasing)
  then show ?thesis by (simp add: sales_join_unique [OF assms(1)])
qed

lemma line_weights:
  assumes st: "distinct (map si_site stores)" and w: "within_widths (filter (\<lambda>t. lv_import_month t = month) live)"
    and ls: "ls = filter P (sales_join month live stores)"
  shows "sum_list (map (\<lambda>l. \<bar>lv_total_value (fst l)\<bar>) ls) < 10 ^ 12" "sum_list (map (\<lambda>l. \<bar>lv_quantity (fst l)\<bar>) ls) < 2 ^ 31"
    "sum_list (map (\<lambda>_. 1) ls) < (2 ^ 31 :: int)"
proof -
  let ?ts = "filter (\<lambda>t. lv_import_month t = month) live"
  have le: "sum_list (map (\<lambda>l. f (fst l)) ls) \<le> sum_list (map f ?ts)" if "\<And>t. 0 \<le> f t" for f :: "live_row \<Rightarrow> int"
    unfolding ls using join_weight [OF st, where w = f and month = month and live = live] that
    by (intro order_trans [OF sum_filter_le]) auto
  show "sum_list (map (\<lambda>l. \<bar>lv_total_value (fst l)\<bar>) ls) < 10 ^ 12" using le [of "\<lambda>t. \<bar>lv_total_value t\<bar>"] w by (simp add: within_widths_def)
  show "sum_list (map (\<lambda>l. \<bar>lv_quantity (fst l)\<bar>) ls) < 2 ^ 31" using le [of "\<lambda>t. \<bar>lv_quantity t\<bar>"] w by (simp add: within_widths_def)
  have "sum_list (map (\<lambda>_. 1) ?ts) < (2 ^ 31 :: int)" using w by (simp add: within_widths_def sum_list_triv)
  then show "sum_list (map (\<lambda>_. 1) ls) < (2 ^ 31 :: int)" using le [of "\<lambda>_. 1"] by simp
qed

lemma retail_lines_filter: "retail_lines month live stores = filter (\<lambda>(t, s). \<not> distribution_location (si_locatie s) \<and> \<not> lv_is_cartela t) (sales_join month live stores)"
  by (simp add: retail_lines_def)

lemma agent_pk_inj:
  assumes "distinct (map si_site stores)"
  shows "inj_on agent_pk (scope_of ` set (retail_lines month live stores))"
proof (rule inj_onI)
  fix a b assume "a \<in> scope_of ` set (retail_lines month live stores)" "b \<in> scope_of ` set (retail_lines month live stores)"
    and eq: "agent_pk a = agent_pk b"
  then obtain l l' where "l \<in> set (retail_lines month live stores)" "l' \<in> set (retail_lines month live stores)"
    "a = scope_of l" "b = scope_of l'" by blast
  with eq show "a = b" using scope_eq_iff [OF assms, of l month live l'] by (simp add: agent_pk_def)
qed

interpretation cd_qty: rollup_sum cartela_key cartela_row
  "\<lambda>r. (cd_import_month r, cd_sale_date r, cd_site r, cd_agent r)" "\<lambda>l. lv_quantity (fst l)" cd_total_quantity
  by unfold_locales (auto simp: cartela_row_def)

definition focus_row_key :: "focus_item_month \<Rightarrow> report_scope \<times> string" where
  "focus_row_key r = (fm_scope r, fm_item_code r)"

interpretation fm_sales: rollup_sum focus_key "focus_row hi" focus_row_key "\<lambda>x. lv_total_value (fst (fst x))" fm_total_sales for hi
  by unfold_locales (auto simp: focus_row_def focus_row_key_def)

interpretation fm_qty: rollup_sum focus_key "focus_row hi" focus_row_key "\<lambda>x. lv_quantity (fst (fst x))" fm_total_quantity for hi
  by unfold_locales (auto simp: focus_row_def)

text \<open>A sum column stays below what the absolute values of its measure add up to.\<close>

lemma column_bound:
  assumes "rollup_sum row row_key m c" and "r \<in> set (rollup_rows key row xs)"
  shows "\<bar>c r\<bar> \<le> sum_list (map (\<lambda>x. \<bar>m x\<bar>) xs)"
proof -
  have "\<bar>c (row k g)\<bar> \<le> sum_list (map (\<lambda>x. \<bar>m x\<bar>) g)" for k g
    unfolding rollup_sum.column_of_row [OF assms(1)] by (rule abs_sum_list)
  then have "sum_list (map (\<lambda>r. \<bar>c r\<bar>) (rollup_rows key row xs)) \<le> sum_list (map (\<lambda>x. \<bar>m x\<bar>) xs)" by (rule rollup_weight)
  with member_abs_le_sum [OF assms(2), of c] show ?thesis by simp
qed

lemma cartela_ok:
  assumes st: "distinct (map si_site stores)" and w: "within_widths (filter (\<lambda>t. lv_import_month t = month) live)"
    and pk: "distinct (map (\<lambda>r. (cd_import_month r, cd_sale_date r, cd_site r, cd_agent r)) t)"
  shows "is_ok (rebuild_reporting_cartela_month month live stores t)"
proof -
  let ?ls = "filter (\<lambda>(t, s). lv_is_cartela t \<and> \<not> distribution_location (si_locatie s)) (sales_join month live stores)"
  let ?rows = "rollup_rows cartela_key cartela_row ?ls" and ?pk = "\<lambda>r. (cd_import_month r, cd_sale_date r, cd_site r, cd_agent r)"
  note weights = line_weights [OF st w refl]
  have "int4 (cd_total_quantity r)" if "r \<in> set ?rows" for r
    by (rule int4_of_bound [OF column_bound [OF cd_qty.rollup_sum_axioms that]], rule weights(2))
  moreover have "cd_import_month r = month" if "r \<in> set ?rows" for r
    using that by (auto simp: mem_rollup cartela_row_def cartela_key_def sales_join_def)
  then have "?pk ` set (filter (\<lambda>r. cd_import_month r \<noteq> month) t) \<inter> ?pk ` set ?rows = {}" by auto
  ultimately show ?thesis
    using distinct_map_filter [OF pk, of "\<lambda>r. cd_import_month r \<noteq> month"] cd_qty.keys_distinct [of ?ls]
    by (simp add: rebuild_reporting_cartela_month_def insert_report_def list_all_iff)
qed

lemma day_lines_weight:
  assumes "distinct (map fp_item_code (re_focus_products env))"
  shows "sum_list (map (\<lambda>x. w (joined_sale x)) (day_lines env ls)) = sum_list (map (\<lambda>l. w (fst l)) ls)"
  by (simp add: day_lines_map [OF assms] comp_def joined_sale_def)

text \<open>The weight of a daily column is bounded by that of the lines.\<close>

definition day_columns :: "(agent_day \<Rightarrow> int) list" where
  "day_columns = [ad_total_quantity, ad_focus_quantity, ad_receipt_count, ad_receipt_2plus_count, ad_receipt_1_count, ad_receipt_2_count,
     ad_receipt_3_count, ad_receipt_4plus_count]"

lemma day_columns_weight:
  assumes fps: "distinct (map fp_item_code (re_focus_products env))" and c: "c \<in> set day_columns"
    and q: "sum_list (map (\<lambda>l. \<bar>lv_quantity (fst l)\<bar>) ls) < 2 ^ 31" and n: "sum_list (map (\<lambda>_. 1) ls) < (2 ^ 31 :: int)"
  shows "sum_list (map (\<lambda>r. \<bar>c r\<bar>) (rollup_rows agent_day_key agent_day_row (day_lines env ls))) < 2 ^ 31"
proof -
  let ?q = "\<lambda>x. \<bar>lv_quantity (joined_sale x)\<bar>"
  have foc: "sum_list (map (\<lambda>x. \<bar>focus_quantity x\<bar>) g) \<le> sum_list (map ?q g)" for g
    by (rule sum_list_mono) (simp add: focus_quantity_def)
  consider "c = ad_total_quantity \<or> c = ad_focus_quantity" | "\<exists>P. \<forall>k g. c (agent_day_row k g) = receipts_with P g"
    using c counts_receipts_columns unfolding day_columns_def counts_receipts_def by auto
  then show ?thesis
  proof cases
    case 1
    then have "\<bar>c (agent_day_row k g)\<bar> \<le> sum_list (map ?q g)" for k g
      using abs_sum_list [of "\<lambda>x. lv_quantity (joined_sale x)" g] order_trans [OF abs_sum_list [of focus_quantity g] foc]
      by (auto simp: agent_day_row_def)
    from rollup_weight [of c agent_day_row ?q, OF this, of agent_day_key "day_lines env ls"] q show ?thesis
      using day_lines_weight [OF fps, of "\<lambda>t. \<bar>lv_quantity t\<bar>" ls] by simp
  next
    case 2
    then obtain P where "\<forall>k g. c (agent_day_row k g) = receipts_with P g" by blast
    then have "\<bar>c (agent_day_row k g)\<bar> \<le> sum_list (map (\<lambda>_. 1) g)" for k g
      unfolding receipts_with_def using count_distinct_bound by metis
    from rollup_weight [of c agent_day_row "\<lambda>_. 1", OF this, of agent_day_key "day_lines env ls"] n show ?thesis
      using day_lines_weight [OF fps, of "\<lambda>_. 1 :: int" ls] by simp
  qed
qed

lemma agent_day_ok:
  assumes st: "distinct (map si_site stores)" and fps: "distinct (map fp_item_code (re_focus_products env))"
    and w: "within_widths (filter (\<lambda>t. lv_import_month t = month) live)"
    and pk: "distinct (map (\<lambda>r. (agent_pk (ad_scope r), ad_sale_date r)) t)"
  defines "ls \<equiv> retail_lines month live stores"
  shows "insert_agent_day (re_focus_products env) ls (other_month ad_scope month t)
    = Inr (other_month ad_scope month t @ rollup_rows agent_day_key agent_day_row (day_lines env ls))"
proof -
  let ?rows = "rollup_rows agent_day_key agent_day_row (day_lines env ls)"
  note weights = line_weights [OF st w retail_lines_filter, folded ls_def]
  have "int4 (rc_net_quantity r)" if "r \<in> set (rollup_rows report_receipt_key report_receipt_row ls)" for r
    by (rule int4_of_bound [OF column_bound [OF rc_net.rollup_sum_axioms that] weights(2)])
  then have tmp: "tmp_reporting_receipts ls = Inr (rollup_rows report_receipt_key report_receipt_row ls)"
    by (simp add: tmp_reporting_receipts_def Let_def list_all_iff)
  have "insert_report (\<lambda>r. (agent_pk (ad_scope r), ad_sale_date r)) agent_day_fits ?rows (other_month ad_scope month t)
      = Inr (other_month ad_scope month t @ ?rows)"
  proof (rule insert_month_ok [OF pk])
    have "inj_on (\<lambda>k. (agent_pk (fst k), snd k)) (agent_day_key ` set (day_lines env ls))"
      using agent_pk_inj [OF st, of month live] unfolding inj_on_def
      by (auto simp: day_lines_map [OF fps] agent_day_key_def ls_def)
    from ad_sales.image_keys_distinct [OF this] show "distinct (map (\<lambda>r. (agent_pk (ad_scope r), ad_sale_date r)) ?rows)"
      by (simp add: agent_day_row_key_def)
    fix r assume r: "r \<in> set ?rows"
    have "int4 (c r)" if "c \<in> set day_columns" for c
      using day_columns_weight [OF fps that weights(2,3)] member_abs_le_sum [OF r, of c] by (blast intro: int4_of_bound)
    moreover have "numeric_12_2 (ad_total_sales r)"
      using column_bound [OF ad_sales.rollup_sum_axioms r] weights(1) day_lines_weight [OF fps, of "\<lambda>t. \<bar>lv_total_value t\<bar>" ls]
      by (simp add: numeric_12_2_def)
    moreover have "rp_import_month (ad_scope r) = month"
      using r retail_lines_mem [of _ month live stores] by (auto simp: mem_rollup agent_day_row_def agent_day_key_def day_lines_map [OF fps] ls_def)
    ultimately show "agent_day_fits r \<and> rp_import_month (ad_scope r) = month" by (simp add: agent_day_fits_def day_columns_def)
  qed (auto simp: agent_pk_def)
  then show ?thesis by (simp add: insert_agent_day_def tmp day_lines_def)
qed

text \<open>Each monthly column with the daily one it sums.\<close>

definition month_columns :: "((agent_day \<Rightarrow> int) \<times> (agent_month \<Rightarrow> int)) list" where
  "month_columns = [(ad_total_quantity, am_total_quantity), (ad_focus_quantity, am_focus_quantity), (ad_receipt_count, am_receipt_count),
     (ad_receipt_2plus_count, am_receipt_2plus_count), (ad_receipt_1_count, am_receipt_1_count), (ad_receipt_2_count, am_receipt_2_count),
     (ad_receipt_3_count, am_receipt_3_count), (ad_receipt_4plus_count, am_receipt_4plus_count)]"

lemma month_rollup: "(\<And>k g. mc (agent_month_row k g) = sum_list (map c g)) \<Longrightarrow> rollup_sum agent_month_row am_scope c mc"
  by unfold_locales

lemma month_columns_sum: "(c, mc) \<in> set month_columns \<Longrightarrow> c \<in> set day_columns \<and> rollup_sum agent_month_row am_scope c mc"
  by (rule conjI, force simp: month_columns_def day_columns_def, rule month_rollup) (auto simp: month_columns_def agent_month_row_def)

lemma agent_month_ok:
  assumes st: "distinct (map si_site stores)" and fps: "distinct (map fp_item_code (re_focus_products env))"
    and w: "within_widths (filter (\<lambda>t. lv_import_month t = month) live)" and pk: "distinct (map (\<lambda>r. agent_pk (am_scope r)) t)"
    and days: "filter (\<lambda>r. rp_import_month (ad_scope r) = month) days = rollup_rows agent_day_key agent_day_row (day_lines env (retail_lines month live stores))"
  shows "is_ok (insert_agent_month month days (other_month am_scope month t))"
proof -
  let ?ls = "retail_lines month live stores"
  let ?days = "rollup_rows agent_day_key agent_day_row (day_lines env ?ls)" and ?rows = "rollup_rows ad_scope agent_month_row"
  note weights = line_weights [OF st w retail_lines_filter]
  have scopes: "ad_scope ` set ?days = scope_of ` set ?ls"
  proof -
    have "ad_scope ` set ?days = fst ` agent_day_row_key ` set ?days" by (simp add: image_image agent_day_row_key_def)
    also have "\<dots> = scope_of ` set ?ls"
      unfolding ad_sales.keys_set by (simp add: day_lines_map [OF fps] image_image agent_day_key_def)
    finally show ?thesis .
  qed
  have "insert_report (\<lambda>r. agent_pk (am_scope r)) agent_month_fits (?rows ?days) (other_month am_scope month t) = Inr (other_month am_scope month t @ ?rows ?days)"
  proof (rule insert_month_ok [OF pk])
    have "inj_on agent_pk (ad_scope ` set ?days)" unfolding scopes by (rule agent_pk_inj [OF st])
    from am_sales.image_keys_distinct [OF this] show "distinct (map (\<lambda>r. agent_pk (am_scope r)) (?rows ?days))" .
    fix r assume r: "r \<in> set (?rows ?days)"
    have col: "int4 (mc r)" if "(c, mc) \<in> set month_columns" for c mc
      using int4_of_bound [OF column_bound [of agent_month_row am_scope c mc, OF _ r] day_columns_weight [OF fps _ weights(2,3)]]
        month_columns_sum [OF that] by blast
    have "list_all (\<lambda>p. int4 (snd p r)) month_columns" using col by (auto simp: list_all_iff)
    moreover have "int4 (am_working_days r)"
    proof (rule int4_of_bound [OF column_bound [OF am_days.rollup_sum_axioms r]])
      have "length ?days \<le> length ?ls"
        using length_remdups_leq [of "map agent_day_key (day_lines env ?ls)"] by (simp add: rollup_rows_def group_rows_def day_lines_map [OF fps])
      then show "sum_list (map (\<lambda>x. \<bar>1\<bar>) ?days) < (2 ^ 31 :: int)" using weights(3) by (simp add: sum_list_triv)
    qed
    moreover have "numeric_12_2 (am_total_sales r)"
    proof -
      have "\<bar>ad_total_sales (agent_day_row k g)\<bar> \<le> sum_list (map (\<lambda>x. \<bar>lv_total_value (joined_sale x)\<bar>) g)" for k g
        unfolding ad_sales.column_of_row by (rule abs_sum_list)
      from rollup_weight [of ad_total_sales agent_day_row, OF this, where key = agent_day_key and xs = "day_lines env ?ls"]
      show ?thesis using column_bound [OF am_sales.rollup_sum_axioms r] weights(1) day_lines_weight [OF fps, of "\<lambda>t. \<bar>lv_total_value t\<bar>" ?ls]
        by (simp add: numeric_12_2_def)
    qed
    moreover have "rp_import_month (am_scope r) = month"
    proof -
      have "am_scope r \<in> scope_of ` set ?ls" using imageI [OF r, of am_scope] unfolding am_sales.keys_set scopes .
      then show ?thesis using retail_lines_mem [of _ month live stores] by auto
    qed
    ultimately show "agent_month_fits r \<and> rp_import_month (am_scope r) = month" by (simp add: agent_month_fits_def month_columns_def)
  qed (auto simp: agent_pk_def)
  then show ?thesis by (simp add: insert_agent_month_def days)
qed

lemma item_columns_weight:
  assumes "c \<in> {it_net_quantity, it_positive_quantity, it_return_quantity, it_receipt_count}"
    and "sum_list (map (\<lambda>l. \<bar>lv_quantity (fst l)\<bar>) ls) < 2 ^ 31" and "sum_list (map (\<lambda>_. 1) ls) < (2 ^ 31 :: int)"
  shows "sum_list (map (\<lambda>r. \<bar>c r\<bar>) (rollup_rows report_item_key (item_day_row hi) ls)) < 2 ^ 31"
proof (cases "c = it_receipt_count")
  case True
  have "\<bar>it_receipt_count (item_day_row hi k g)\<bar> \<le> sum_list (map (\<lambda>_. 1) g)" for k g
    by (cases k) (simp add: item_day_row_def count_distinct_bound)
  from rollup_weight [of it_receipt_count "item_day_row hi", OF this, where key = report_item_key and xs = ls] assms(3) show ?thesis unfolding True by simp
next
  case False
  then have "\<exists>f. (\<forall>n. \<bar>f n\<bar> \<le> \<bar>n\<bar>) \<and> (\<forall>k g. c (item_day_row hi k g) = sum_list (map (\<lambda>l. f (lv_quantity (fst l))) g))"
    using assms(1) by (auto simp: item_day_row_def intro: exI [of _ "\<lambda>n. n"] exI [of _ "max 0"] exI [of _ "min 0"])
  then obtain f :: "int \<Rightarrow> int" where f: "\<And>n. \<bar>f n\<bar> \<le> \<bar>n\<bar>"
    and c: "\<And>k g. c (item_day_row hi k g) = sum_list (map (\<lambda>l. f (lv_quantity (fst l))) g)" by blast
  have "\<bar>c (item_day_row hi k g)\<bar> \<le> sum_list (map (\<lambda>l. \<bar>lv_quantity (fst l)\<bar>) g)" for k g
    unfolding c by (rule order_trans [OF abs_sum_list], rule sum_list_mono, rule f)
  from rollup_weight [of c "item_day_row hi", OF this, where key = report_item_key and xs = ls] assms(2) show ?thesis by simp
qed

lemma item_day_ok:
  assumes st: "distinct (map si_site stores)" and w: "within_widths (filter (\<lambda>t. lv_import_month t = month) live)"
    and pk: "distinct (map (\<lambda>r. (agent_pk (it_scope r), it_sale_date r, it_item_code r)) t)"
  defines "ls \<equiv> retail_lines month live stores"
  shows "insert_item_day hi ls (other_month it_scope month t) = Inr (other_month it_scope month t @ rollup_rows report_item_key (item_day_row hi) ls)"
proof -
  let ?rows = "rollup_rows report_item_key (item_day_row hi) ls"
  note weights = line_weights [OF st w retail_lines_filter, folded ls_def]
  show ?thesis unfolding insert_item_day_def
  proof (rule insert_month_ok [OF pk])
    have "inj_on (\<lambda>k. (agent_pk (fst k), snd k)) (report_item_key ` set ls)"
      using agent_pk_inj [OF st, of month live] unfolding inj_on_def by (auto simp: report_item_key_def ls_def)
    from it_sales.image_keys_distinct [OF this] show "distinct (map (\<lambda>r. (agent_pk (it_scope r), it_sale_date r, it_item_code r)) ?rows)"
      by (simp add: item_day_row_key_def)
    fix r assume r: "r \<in> set ?rows"
    have "int4 (c r)" if "c \<in> {it_net_quantity, it_positive_quantity, it_return_quantity, it_receipt_count}" for c
      using item_columns_weight [OF that weights(2,3)] member_abs_le_sum [OF r, of c] by (blast intro: int4_of_bound)
    moreover have "numeric_12_2 (it_total_sales r)"
      using column_bound [OF it_sales.rollup_sum_axioms r] weights(1) by (simp add: numeric_12_2_def)
    moreover have "rp_import_month (it_scope r) = month"
      using r retail_lines_mem [of _ month live stores] by (auto simp: mem_rollup item_day_row_def report_item_key_def ls_def)
    ultimately show "item_day_fits r \<and> rp_import_month (it_scope r) = month" by (simp add: item_day_fits_def)
  qed (auto simp: agent_pk_def)
qed

lemma category_ok:
  assumes st: "distinct (map si_site stores)" and w: "within_widths (filter (\<lambda>t. lv_import_month t = month) live)"
    and pk: "distinct (map (\<lambda>r. (agent_pk (cm_scope r), cm_category r, cm_subcategory r, cm_brand_group r)) t)"
  shows "is_ok (insert_category_month (retail_lines month live stores) (other_month cm_scope month t))"
proof -
  let ?ls = "retail_lines month live stores"
  let ?rows = "rollup_rows category_key category_row ?ls"
  note weights = line_weights [OF st w retail_lines_filter]
  have "insert_category_month ?ls (other_month cm_scope month t) = Inr (other_month cm_scope month t @ ?rows)"
    unfolding insert_category_month_def
  proof (rule insert_month_ok [OF pk])
    have "inj_on (\<lambda>k. (agent_pk (fst k), snd k)) (category_key ` set ?ls)"
      using agent_pk_inj [OF st, of month live] unfolding inj_on_def by (auto simp: category_key_def)
    from cm_sales.image_keys_distinct [OF this]
    show "distinct (map (\<lambda>r. (agent_pk (cm_scope r), cm_category r, cm_subcategory r, cm_brand_group r)) ?rows)"
      by (simp add: category_row_key_def)
    fix r assume r: "r \<in> set ?rows"
    have "int4 (cm_total_quantity r)" by (rule int4_of_bound [OF column_bound [OF cm_qty.rollup_sum_axioms r] weights(2)])
    moreover have "numeric_12_2 (cm_total_sales r)"
      using column_bound [OF cm_sales.rollup_sum_axioms r] weights(1) by (simp add: numeric_12_2_def)
    moreover have "rp_import_month (cm_scope r) = month"
      using r retail_lines_mem [of _ month live stores] by (auto simp: mem_rollup category_row_def category_key_def)
    ultimately show "(numeric_12_2 (cm_total_sales r) \<and> int4 (cm_total_quantity r)) \<and> rp_import_month (cm_scope r) = month" by simp
  qed (auto simp: agent_pk_def)
  then show ?thesis by simp
qed

lemma item_month_ok:
  assumes st: "distinct (map si_site stores)" and w: "within_widths (filter (\<lambda>t. lv_import_month t = month) live)"
    and pk: "distinct (map (\<lambda>r. (agent_pk (im_scope r), im_item_code r)) t)"
    and days: "filter (\<lambda>r. rp_import_month (it_scope r) = month) days = rollup_rows report_item_key (item_day_row hi) (retail_lines month live stores)"
  shows "is_ok (insert_item_month hi month days (other_month im_scope month t))"
proof -
  let ?ls = "retail_lines month live stores"
  let ?days = "rollup_rows report_item_key (item_day_row hi) ?ls" and ?key = "\<lambda>r. (it_scope r, it_item_code r)"
  let ?rows = "rollup_rows ?key (item_month_row hi) ?days"
  note weights = line_weights [OF st w retail_lines_filter]
  have scopes: "?key ` set ?days = (\<lambda>l. (scope_of l, lv_item_code (fst l))) ` set ?ls"
  proof -
    have "?key ` set ?days = (\<lambda>(s, d, c). (s, c)) ` item_day_row_key ` set ?days" by (simp add: image_image item_day_row_key_def)
    also have "\<dots> = (\<lambda>l. (scope_of l, lv_item_code (fst l))) ` set ?ls"
      unfolding it_sales.keys_set by (simp add: image_image report_item_key_def)
    finally show ?thesis .
  qed
  have col: "int4 (mc r)" if r: "r \<in> set ?rows" and c: "c \<in> {it_net_quantity, it_positive_quantity, it_return_quantity, it_receipt_count}"
    and m: "\<And>k g. mc (item_month_row hi k g) = sum_list (map c g)" for r c mc
  proof -
    have "rollup_sum (item_month_row hi) item_month_row_key c mc" using m by unfold_locales
    from int4_of_bound [OF column_bound [OF this r] item_columns_weight [OF c weights(2,3)]] show ?thesis .
  qed
  have "insert_report (\<lambda>r. (agent_pk (im_scope r), im_item_code r)) item_month_fits ?rows (other_month im_scope month t)
      = Inr (other_month im_scope month t @ ?rows)"
  proof (rule insert_month_ok [OF pk])
    have "inj_on (\<lambda>k. (agent_pk (fst k), snd k)) (?key ` set ?days)"
      unfolding scopes using agent_pk_inj [OF st, of month live] unfolding inj_on_def by auto
    from im_sales.image_keys_distinct [OF this] show "distinct (map (\<lambda>r. (agent_pk (im_scope r), im_item_code r)) ?rows)"
      by (simp add: item_month_row_key_def)
    fix r assume r: "r \<in> set ?rows"
    have "numeric_12_2 (im_total_sales r)"
    proof -
      have "\<bar>it_total_sales (item_day_row hi k g)\<bar> \<le> sum_list (map (\<lambda>l. \<bar>lv_total_value (fst l)\<bar>) g)" for k g
        unfolding it_sales.column_of_row by (rule abs_sum_list)
      from rollup_weight [of it_total_sales "item_day_row hi", OF this, where key = report_item_key and xs = ?ls]
      show ?thesis using column_bound [OF im_sales.rollup_sum_axioms r] weights(1) by (simp add: numeric_12_2_def)
    qed
    moreover have "int4 (im_net_quantity r)" "int4 (im_positive_quantity r)" "int4 (im_return_quantity r)" "int4 (im_receipt_count r)"
      by (rule col [OF r, of it_net_quantity] col [OF r, of it_positive_quantity] col [OF r, of it_return_quantity]
        col [OF r, of it_receipt_count]; simp add: item_month_row_def)+
    moreover have "rp_import_month (im_scope r) = month"
    proof -
      have "item_month_row_key r \<in> (\<lambda>l. (scope_of l, lv_item_code (fst l))) ` set ?ls"
        using imageI [OF r, of item_month_row_key] unfolding im_sales.keys_set scopes .
      then show ?thesis using retail_lines_mem [of _ month live stores] by (auto simp: item_month_row_key_def)
    qed
    ultimately show "item_month_fits r \<and> rp_import_month (im_scope r) = month" by (simp add: item_month_fits_def)
  qed (auto simp: agent_pk_def)
  then show ?thesis by (simp add: insert_item_month_def days)
qed

lemma focus_join_unique:
  assumes "distinct (map fp_item_code fps)"
  shows "focus_join fps ls = concat (map (\<lambda>l. case row_by fp_item_code (lv_item_code (fst l)) fps of None \<Rightarrow> [] | Some f \<Rightarrow> [(l, f)]) ls)"
  unfolding focus_join_def
  by (intro arg_cong [where f = concat] map_cong [OF refl]) (simp add: filter_unique_key [OF assms] split: option.splits)

lemma focus_join_weight:
  fixes w :: "sale_line \<Rightarrow> int"
  assumes "distinct (map fp_item_code fps)" and "\<And>l. 0 \<le> w l"
  shows "sum_list (map (\<lambda>x. w (fst x)) (focus_join fps ls)) \<le> sum_list (map w ls)"
  unfolding focus_join_unique [OF assms(1)] using assms(2) by (induction ls) (auto split: option.splits intro: add_increasing)

lemma focus_ok:
  assumes st: "distinct (map si_site stores)" and fps: "distinct (map fp_item_code fps)"
    and w: "within_widths (filter (\<lambda>t. lv_import_month t = month) live)"
    and pk: "distinct (map (\<lambda>r. (agent_pk (fm_scope r), fm_item_code r)) t)"
  shows "is_ok (insert_focus_item_month hi fps (retail_lines month live stores) (other_month fm_scope month t))"
proof -
  let ?ls = "retail_lines month live stores"
  let ?fs = "focus_join fps ?ls" and ?rows = "rollup_rows focus_key (focus_row hi) (focus_join fps ?ls)"
  note weights = line_weights [OF st w retail_lines_filter]
  have mem: "fst x \<in> set ?ls" if "x \<in> set ?fs" for x using that by (auto simp: focus_join_def)
  have "insert_focus_item_month hi fps ?ls (other_month fm_scope month t) = Inr (other_month fm_scope month t @ ?rows)"
    unfolding insert_focus_item_month_def
  proof (rule insert_month_ok [OF pk])
    have "inj_on (\<lambda>k. (agent_pk (fst k), snd k)) (focus_key ` set ?fs)"
      using agent_pk_inj [OF st, of month live] mem unfolding inj_on_def by (auto simp: focus_key_def)
    from fm_sales.image_keys_distinct [OF this] show "distinct (map (\<lambda>r. (agent_pk (fm_scope r), fm_item_code r)) ?rows)"
      by (simp add: focus_row_key_def)
    fix r assume r: "r \<in> set ?rows"
    have "\<bar>fm_total_quantity r\<bar> \<le> sum_list (map (\<lambda>l. \<bar>lv_quantity (fst l)\<bar>) ?ls)"
      using column_bound [OF fm_qty.rollup_sum_axioms r] focus_join_weight [OF fps, of "\<lambda>l. \<bar>lv_quantity (fst l)\<bar>" ?ls] by simp
    moreover have "\<bar>fm_total_sales r\<bar> \<le> sum_list (map (\<lambda>l. \<bar>lv_total_value (fst l)\<bar>) ?ls)"
      using column_bound [OF fm_sales.rollup_sum_axioms r] focus_join_weight [OF fps, of "\<lambda>l. \<bar>lv_total_value (fst l)\<bar>" ?ls] by simp
    moreover have "rp_import_month (fm_scope r) = month"
      using r retail_lines_mem [OF mem] by (auto simp: mem_rollup focus_row_def focus_key_def)
    ultimately show "(numeric_12_2 (fm_total_sales r) \<and> int4 (fm_total_quantity r)) \<and> rp_import_month (fm_scope r) = month"
      using weights by (auto simp: numeric_12_2_def int4_def)
  qed (auto simp: agent_pk_def)
  then show ?thesis by simp
qed

text \<open>The primary keys of the tables.\<close>

definition reporting_keys :: "reporting_db \<Rightarrow> bool" where
  "reporting_keys db \<longleftrightarrow> distinct (map (\<lambda>r. (cd_import_month r, cd_sale_date r, cd_site r, cd_agent r)) (r_cartela_day db))
     \<and> distinct (map (\<lambda>r. (agent_pk (ad_scope r), ad_sale_date r)) (r_agent_day db)) \<and> distinct (map (\<lambda>r. agent_pk (am_scope r)) (r_agent_month db))
     \<and> distinct (map (\<lambda>r. (agent_pk (it_scope r), it_sale_date r, it_item_code r)) (r_item_day db))
     \<and> distinct (map (\<lambda>r. (agent_pk (im_scope r), im_item_code r)) (r_item_month db))
     \<and> distinct (map (\<lambda>r. (agent_pk (fm_scope r), fm_item_code r)) (r_focus_item_month db))
     \<and> distinct (map (\<lambda>r. (agent_pk (cm_scope r), cm_category r, cm_subcategory r, cm_brand_group r)) (r_category_month db))"

lemma rebuild_succeeds:
  assumes st: "distinct (map si_site stores)" and fps: "distinct (map fp_item_code (re_focus_products env))"
    and w: "within_widths (filter (\<lambda>t. lv_import_month t = month) live)" and pk: "reporting_keys db" and prem: "re_premium_ok env"
  shows "is_ok (rebuild_reporting_month env month live stores db)"
proof -
  let ?ls = "retail_lines month live stores"
  let ?ad = "other_month ad_scope month (r_agent_day db) @ rollup_rows agent_day_key agent_day_row (day_lines env ?ls)"
  let ?it = "other_month it_scope month (r_item_day db) @ rollup_rows report_item_key (item_day_row (re_top env)) ?ls"
  have "filter (\<lambda>r. rp_import_month (ad_scope r) = month) ?ad = rollup_rows agent_day_key agent_day_row (day_lines env ?ls)"
    by (rule reported_new(3)) (auto simp: mem_rollup agent_day_row_def agent_day_key_def day_lines_map [OF fps] dest: retail_lines_mem)
  then have am: "is_ok (insert_agent_month month ?ad (other_month am_scope month (r_agent_month db)))"
    using pk by (intro agent_month_ok [OF st fps w]) (auto simp: reporting_keys_def)
  have "filter (\<lambda>r. rp_import_month (it_scope r) = month) ?it = rollup_rows report_item_key (item_day_row (re_top env)) ?ls"
    by (rule reported_new(3)) (auto simp: mem_rollup item_day_row_def report_item_key_def dest: retail_lines_mem)
  then have im: "is_ok (insert_item_month (re_top env) month ?it (other_month im_scope month (r_item_month db)))"
    using pk by (intro item_month_ok [OF st w]) (auto simp: reporting_keys_def)
  have ad: "insert_agent_day (re_focus_products env) ?ls (other_month ad_scope month (r_agent_day db)) = Inr ?ad"
    using pk by (intro agent_day_ok [OF st fps w]) (auto simp: reporting_keys_def)
  have it: "insert_item_day (re_top env) ?ls (other_month it_scope month (r_item_day db)) = Inr ?it"
    using pk by (intro item_day_ok [OF st w]) (auto simp: reporting_keys_def)
  have rest: "is_ok (rebuild_reporting_cartela_month month live stores (r_cartela_day db))"
    "is_ok (insert_focus_item_month (re_top env) (re_focus_products env) ?ls (other_month fm_scope month (r_focus_item_month db)))"
    "is_ok (insert_category_month ?ls (other_month cm_scope month (r_category_month db)))"
    using pk by (intro cartela_ok [OF st w] focus_ok [OF st fps w] category_ok [OF st w]; simp add: reporting_keys_def)+
  from am im rest show ?thesis
    by (auto simp: is_ok_iff rebuild_reporting_month_def Let_def ad it prem)
qed

lemma other_months_kept:
  assumes db: "rebuild_reporting_month env month live stores db = Inr db'" and fps: "distinct (map fp_item_code (re_focus_products env))"
  shows "other_month ad_scope month (r_agent_day db') = other_month ad_scope month (r_agent_day db)"
    and "other_month am_scope month (r_agent_month db') = other_month am_scope month (r_agent_month db)"
    and "other_month it_scope month (r_item_day db') = other_month it_scope month (r_item_day db)"
    and "other_month im_scope month (r_item_month db') = other_month im_scope month (r_item_month db)"
    and "other_month cm_scope month (r_category_month db') = other_month cm_scope month (r_category_month db)"
proof -
  note t = rebuild_rows [OF db]
  show "other_month ad_scope month (r_agent_day db') = other_month ad_scope month (r_agent_day db)"
    unfolding t(1)
    by (rule reported_new(2)) (auto simp: mem_rollup agent_day_row_def agent_day_key_def day_lines_map [OF fps] dest: retail_lines_mem)
  show "other_month am_scope month (r_agent_month db') = other_month am_scope month (r_agent_month db)"
    by (subst t(2), rule reported_new(2)) (auto simp: mem_rollup agent_month_row_def)
  show "other_month it_scope month (r_item_day db') = other_month it_scope month (r_item_day db)"
    unfolding t(3) by (rule reported_new(2)) (auto simp: mem_rollup item_day_row_def report_item_key_def dest: retail_lines_mem)
  show "other_month im_scope month (r_item_month db') = other_month im_scope month (r_item_month db)"
    by (subst t(4), rule reported_new(2)) (auto simp: mem_rollup item_month_row_def)
  show "other_month cm_scope month (r_category_month db') = other_month cm_scope month (r_category_month db)"
    unfolding t(5) by (rule reported_new(2)) (auto simp: mem_rollup category_row_def category_key_def dest: retail_lines_mem)
qed

end
