(* ===== verification/Reporting_Theorems.thy ===== *)
theory Reporting_Theorems
  imports Reporting_Correctness Sales_Correctness
begin

text \<open>
  What the reporting tables promise to the dashboards, with concrete months that satisfy the hypotheses.
\<close>

section \<open>Totals\<close>

text \<open>
  C5: a rebuild of a month succeeds when the month's sales stay within the widths of the columns, and then all
  tables tell the same story: for every choice of stores and agents, the daily and monthly tables
  per agent, per item and per category report exactly the value and the quantity of the retail sales (no SIM
  cards, no distribution locations), and the rows of other months are left alone.
\<close>

theorem reporting_tables_agree:
  assumes "distinct (map si_site stores)" and "distinct (map fp_item_code (re_focus_products env))"
    and "within_widths (filter (\<lambda>t. lv_import_month t = month) live)" and "reporting_keys db" and "re_premium_ok env"
  shows "\<exists>db'. rebuild_reporting_month env month live stores db = Inr db'
    \<and> (\<forall>P. let v = sold lv_total_value P (retail_sales month stores live); q = sold lv_quantity P (retail_sales month stores live) in
         reported ad_scope ad_total_sales month P (r_agent_day db') = v \<and> reported ad_scope ad_total_quantity month P (r_agent_day db') = q
       \<and> reported am_scope am_total_sales month P (r_agent_month db') = v \<and> reported am_scope am_total_quantity month P (r_agent_month db') = q
       \<and> reported it_scope it_total_sales month P (r_item_day db') = v \<and> reported it_scope it_net_quantity month P (r_item_day db') = q
       \<and> reported im_scope im_total_sales month P (r_item_month db') = v \<and> reported im_scope im_net_quantity month P (r_item_month db') = q
       \<and> reported cm_scope cm_total_sales month P (r_category_month db') = v \<and> reported cm_scope cm_total_quantity month P (r_category_month db') = q)
    \<and> other_month ad_scope month (r_agent_day db') = other_month ad_scope month (r_agent_day db)
    \<and> other_month am_scope month (r_agent_month db') = other_month am_scope month (r_agent_month db)
    \<and> other_month it_scope month (r_item_day db') = other_month it_scope month (r_item_day db)
    \<and> other_month im_scope month (r_item_month db') = other_month im_scope month (r_item_month db)
    \<and> other_month cm_scope month (r_category_month db') = other_month cm_scope month (r_category_month db)"
proof -
  obtain db' where db': "rebuild_reporting_month env month live stores db = Inr db'"
    using rebuild_succeeds [OF assms] by (auto simp: is_ok_iff)
  note agents = agent_tables_report [OF db' assms(2,1)] and items = item_tables_report [OF db' assms(2,1)]
    and cats = category_table_reports [OF db' assms(2,1)]
  show ?thesis
    using agents [OF ad_sales.rollup_sum_axioms am_sales.rollup_sum_axioms] agents [OF ad_qty.rollup_sum_axioms am_qty.rollup_sum_axioms]
      items [OF it_sales.rollup_sum_axioms im_sales.rollup_sum_axioms] items [OF it_net.rollup_sum_axioms im_net.rollup_sum_axioms]
      cats [OF cm_sales.rollup_sum_axioms] cats [OF cm_qty.rollup_sum_axioms] other_months_kept [OF db' assms(2)] db'
    by (intro exI [of _ db']) (simp add: Let_def)
qed

definition sample_store :: "string \<Rightarrow> string \<Rightarrow> store_info" where
  "sample_store site loc = \<lparr>si_site = site, si_locatie = loc, si_firma = ''F'', si_regional = ''R'', si_asm = ''A'',
     first_seen_month = ''2026-01'', last_seen_month = ''2026-07'', is_active = True\<rparr>"

definition sample_sale :: "string \<Rightarrow> nat \<Rightarrow> string \<Rightarrow> int \<Rightarrow> int \<Rightarrow> live_row" where
  "sample_sale site d bon qty cents = \<lparr>lv_import_month = ''2026-07'', lv_sale_date = (2026, 7, d), lv_site = site, lv_bon_nr = bon,
     lv_item_code = ''i1'', lv_item_name = ''Husa Samsung'', lv_brand = None, lv_category = Some ''Huse'', lv_subcategory = None,
     lv_quantity = qty, lv_unit_price = 500, lv_total_value = cents, lv_agent = ''ana'', lv_is_cartela = False, lv_is_return = qty < 0,
     lv_snapshot_id = 1\<rparr>"

definition sample_month :: "live_row list" where
  "sample_month = [sample_sale ''S1'' 1 ''7'' 2 1000, sample_sale ''S1'' 1 ''7'' (-1) (-500), sample_sale ''S1'' 2 ''8'' 3 1500,
     sample_sale ''S2'' 2 ''9'' 4 2000]"

definition sample_report_stores :: "store_info list" where
  "sample_report_stores = [sample_store ''S1'' ''Mall'', sample_store ''S2'' ''TR depozit'']"

definition sample_report_env :: reporting_env where
  "sample_report_env = \<lparr>re_focus_products = [\<lparr>fp_item_code = ''i1'', fp_item_name = None\<rparr>], re_top = hd, re_premium_ok = True\<rparr>"

definition empty_reports :: reporting_db where
  "empty_reports = \<lparr>r_cartela_day = [], r_agent_day = [], r_agent_month = [], r_item_day = [], r_item_month = [], r_focus_item_month = [],
     r_category_month = []\<rparr>"

lemmas sample_report_defs = sample_month_def sample_sale_def sample_report_stores_def sample_store_def sample_report_env_def empty_reports_def

theorem reporting_tables_agree_witness:
  "\<exists>db'. rebuild_reporting_month sample_report_env ''2026-07'' sample_month sample_report_stores empty_reports = Inr db'
    \<and> reported am_scope am_total_sales ''2026-07'' (\<lambda>site agent. True) (r_agent_month db') = 2000
    \<and> reported cm_scope cm_total_quantity ''2026-07'' (\<lambda>site agent. site = ''S1'') (r_category_month db') = 4"
proof -
  let ?P = "\<lambda>site agent :: string. True" and ?Q = "\<lambda>site (agent :: string). site = ''S1''"
  let ?ts = "retail_sales ''2026-07'' sample_report_stores sample_month"
  have "distinct (map si_site sample_report_stores)" "distinct (map fp_item_code (re_focus_products sample_report_env))"
    "within_widths (filter (\<lambda>t. lv_import_month t = ''2026-07'') sample_month)" "reporting_keys empty_reports" "re_premium_ok sample_report_env"
    by (simp_all add: sample_report_defs within_widths_def reporting_keys_def)
  from reporting_tables_agree [OF this] obtain db' where
    "rebuild_reporting_month sample_report_env ''2026-07'' sample_month sample_report_stores empty_reports = Inr db'"
    and t: "\<forall>P. reported am_scope am_total_sales ''2026-07'' P (r_agent_month db') = sold lv_total_value P ?ts
      \<and> reported cm_scope cm_total_quantity ''2026-07'' P (r_category_month db') = sold lv_quantity P ?ts"
    unfolding Let_def by blast
  moreover have "sold lv_total_value ?P ?ts = 2000" "sold lv_quantity ?Q ?ts = 4"
    by code_simp+
  ultimately show ?thesis by metis
qed

section \<open>Receipts\<close>

text \<open>
  C34: the receipts of an agent's month are counted once. A receipt is a day, a store, an agent and a
  number, and its net quantity sums all its lines, returns included; the monthly table counts the receipts with a positive net
  quantity and those of each class, one unit, two, three, four or more, and two or more; the classes add up without gap or overlap.
\<close>

theorem agent_receipts_exact:
  assumes "distinct (map si_site stores)" and "distinct (map fp_item_code (re_focus_products env))"
    and "rebuild_reporting_month env month live stores db = Inr db'"
    and "r \<in> set (r_agent_month db')" and "rp_import_month (am_scope r) = month"
  shows "am_receipt_count r
      = int (card (receipts_of (\<lambda>n. 0 < n) (retail_sales month stores live) (rp_site (am_scope r)) (rp_agent (am_scope r))))
    \<and> am_receipt_2plus_count r
      = int (card (receipts_of (\<lambda>n. 2 \<le> n) (retail_sales month stores live) (rp_site (am_scope r)) (rp_agent (am_scope r))))
    \<and> am_receipt_1_count r
      = int (card (receipts_of (\<lambda>n. n = 1) (retail_sales month stores live) (rp_site (am_scope r)) (rp_agent (am_scope r))))
    \<and> am_receipt_2_count r
      = int (card (receipts_of (\<lambda>n. n = 2) (retail_sales month stores live) (rp_site (am_scope r)) (rp_agent (am_scope r))))
    \<and> am_receipt_3_count r
      = int (card (receipts_of (\<lambda>n. n = 3) (retail_sales month stores live) (rp_site (am_scope r)) (rp_agent (am_scope r))))
    \<and> am_receipt_4plus_count r
      = int (card (receipts_of (\<lambda>n. 4 \<le> n) (retail_sales month stores live) (rp_site (am_scope r)) (rp_agent (am_scope r))))
    \<and> am_receipt_count r = am_receipt_1_count r + am_receipt_2plus_count r
    \<and> am_receipt_2plus_count r = am_receipt_2_count r + am_receipt_3_count r + am_receipt_4plus_count r"
proof -
  let ?n = "\<lambda>P. card (receipts_of P (retail_sales month stores live) (rp_site (am_scope r)) (rp_agent (am_scope r)))"
  note count = agent_month_receipts [OF assms(3,2,1,4,5)]
  have counts: "am_receipt_count r = int (?n (\<lambda>n. 0 < n))" "am_receipt_2plus_count r = int (?n (\<lambda>n. 2 \<le> n))"
    "am_receipt_1_count r = int (?n (\<lambda>n. n = 1))" "am_receipt_2_count r = int (?n (\<lambda>n. n = 2))"
    "am_receipt_3_count r = int (?n (\<lambda>n. n = 3))" "am_receipt_4plus_count r = int (?n (\<lambda>n. 4 \<le> n))"
    by (rule count [OF counts_receipts_columns(1)] count [OF counts_receipts_columns(2)] count [OF counts_receipts_columns(3)]
      count [OF counts_receipts_columns(4)] count [OF counts_receipts_columns(5)] count [OF counts_receipts_columns(6)];
      rule month_rollup, simp add: agent_month_row_def)+
  have "?n (\<lambda>n. 0 < n) = ?n (\<lambda>n. n = 1) + ?n (\<lambda>n. 2 \<le> n)" by (rule receipts_split) auto
  moreover have "?n (\<lambda>n. 2 \<le> n) = ?n (\<lambda>n. n = 2) + ?n (\<lambda>n. 3 \<le> n)" by (rule receipts_split) auto
  moreover have "?n (\<lambda>n. 3 \<le> n) = ?n (\<lambda>n. n = 3) + ?n (\<lambda>n. 4 \<le> n)" by (rule receipts_split) auto
  ultimately show ?thesis using counts by simp
qed

theorem agent_receipts_exact_witness:
  "\<exists>db' r. rebuild_reporting_month sample_report_env ''2026-07'' sample_month sample_report_stores empty_reports = Inr db'
    \<and> r \<in> set (r_agent_month db') \<and> am_receipt_count r = am_receipt_1_count r + am_receipt_2plus_count r"
proof -
  have h: "distinct (map si_site sample_report_stores)" "distinct (map fp_item_code (re_focus_products sample_report_env))"
    "within_widths (filter (\<lambda>t. lv_import_month t = ''2026-07'') sample_month)" "reporting_keys empty_reports" "re_premium_ok sample_report_env"
    by (simp_all add: sample_report_defs within_widths_def reporting_keys_def)
  obtain db' where db': "rebuild_reporting_month sample_report_env ''2026-07'' sample_month sample_report_stores empty_reports = Inr db'"
    using rebuild_succeeds [OF h] by (auto simp: is_ok_iff)
  have "retail_lines ''2026-07'' sample_month sample_report_stores \<noteq> []" by code_simp
  then have "filter (\<lambda>r. rp_import_month (am_scope r) = ''2026-07'') (r_agent_month db') \<noteq> []"
    unfolding month_rows(1,2) [OF db' h(2)] rollup_nonempty_iff by (simp add: day_lines_map [OF h(2)])
  then obtain r where "r \<in> set (r_agent_month db')" "rp_import_month (am_scope r) = ''2026-07''"
    by (auto simp: filter_empty_conv)
  with agent_receipts_exact [OF h(1,2) db' this] db' show ?thesis by blast
qed

section \<open>Promotions and reports\<close>

lemma retail_sales_month: "retail_sales month stores live = retail_sales month stores (filter (\<lambda>t. lv_import_month t = month) live)"
  by (auto simp: retail_sales_def retail_sale_def intro: filter_cong)

text \<open>
  C4: promotion and reports compose. When a promotion succeeds and the tables are rebuilt from the sales it
  published, what the agents' month reports is exactly the retail part of the generation that was staged and
  approved, for every choice of stores and agents.
\<close>

theorem promotion_reports_generation:
  assumes "reachable_from sales_empty (sales_step (pe_sha env)) db"
    and "promote_sales_generation env rq db = Inr (db', n, revision)" and "get_snapshot (pr_snapshot_id rq) db = Some s"
    and "distinct (map si_site (s_stores db'))" and "distinct (map fp_item_code (re_focus_products renv))"
    and "rebuild_reporting_month renv (sn_import_month s) (s_live db') (s_stores db') reports = Inr reports'"
  shows "reported am_scope am_total_sales (sn_import_month s) P (r_agent_month reports')
    = sold lv_total_value P (retail_sales (sn_import_month s) (s_stores db') (map live_of (staged (pr_snapshot_id rq) db)))"
proof -
  have inv: "sales_inv (pe_sha env) db" by (rule sg.reachable_inv [OF assms(1)])
  note old = sales_invD [OF inv]
  from promote_effect [OF assms(2) old(1,3)] obtain s' where s': "get_snapshot (pr_snapshot_id rq) db = Some s'"
    and eff: "promotion_effect env rq s' revision db db'" by metis
  have [simp]: "s' = s" using s' assms(3) by simp
  have "filter (\<lambda>t. lv_import_month t = sn_import_month s) (s_live db') = map live_of (staged (pr_snapshot_id rq) db)"
    using effect_live [OF eff, of "sn_import_month s"] by (simp add: live_of_month_def)
  then have "retail_sales (sn_import_month s) (s_stores db') (s_live db')
      = retail_sales (sn_import_month s) (s_stores db') (map live_of (staged (pr_snapshot_id rq) db))"
    using retail_sales_month [of "sn_import_month s" "s_stores db'" "s_live db'"] by simp
  then show ?thesis
    using agent_tables_report(2) [OF assms(6,5,4) ad_sales.rollup_sum_axioms am_sales.rollup_sum_axioms] by simp
qed

definition run_report_env :: reporting_env where
  "run_report_env = \<lparr>re_focus_products = [], re_top = hd, re_premium_ok = True\<rparr>"

theorem promotion_reports_generation_witness:
  "\<exists>reports'. rebuild_reporting_month run_report_env ''2026-07'' (s_live run_f) (s_stores run_f) empty_reports = Inr reports'
    \<and> reported am_scope am_total_sales ''2026-07'' (\<lambda>site agent. True) (r_agent_month reports')
      = sold lv_total_value (\<lambda>site agent. True) (retail_sales ''2026-07'' (s_stores run_f) (map live_of (staged 2 run_e)))"
proof -
  have r: "reachable_from sales_empty (sales_step (pe_sha (run_penv 2 3000))) run_e"
    using run_reachable(2) by (simp add: run_penv_def)
  note p = run_f_step [unfolded run_promote_def]
  have s: "get_snapshot 2 run_e = Some run_v2" "sn_import_month run_v2 = ''2026-07''"
    by (simp_all add: get_snapshot_def run_e_def run_d_def run_snapshots run_defs)
  have h: "distinct (map si_site (s_stores run_f))" "distinct (map fp_item_code (re_focus_products run_report_env))"
    "within_widths (filter (\<lambda>t. lv_import_month t = ''2026-07'') (s_live run_f))" "reporting_keys empty_reports" "re_premium_ok run_report_env"
    by (simp_all add: run_f_def run_published_def run_report_env_def reporting_keys_def empty_reports_def within_widths_def run_defs live_of_def)
  obtain reports' where rep: "rebuild_reporting_month run_report_env ''2026-07'' (s_live run_f) (s_stores run_f) empty_reports = Inr reports'"
    using rebuild_succeeds [OF h] by (auto simp: is_ok_iff)
  have i: "pr_snapshot_id (run_request 2 ''t2'') = 2" by (simp add: run_request_def)
  show ?thesis
    using promotion_reports_generation [OF r p, unfolded i, OF s(1), unfolded s(2), OF h(1,2) rep] rep by blast
qed

end
