(* ===== verification/Months.thy ===== *)
theory Months
  imports Retail_Prelude
begin

text \<open>
  Months as the texts the tables hold and as the indices the queries count with
  (\<^verbatim>\<open>_MONTH_INDEX_SQL\<close> of \<^verbatim>\<open>services/reporting_refresh_premium.py\<close>): for valid months both are ordered alike.
\<close>

text \<open>
  \<^verbatim>\<open>split_part(m, '-', 1)::INT * 12 + split_part(m, '-', 2)::INT\<close>; a part that is not an integer refuses the statement.
\<close>

definition month_index :: "string \<Rightarrow> int option" where
  "month_index m = (let y = takeWhile (\<lambda>c. c \<noteq> CHR ''-'') m; rest = drop (Suc (length y)) m;
       k = takeWhile (\<lambda>c. c \<noteq> CHR ''-'') rest
     in case (py_int y, py_int k) of (Some a, Some b) \<Rightarrow> Some (a * 12 + b) | _ \<Rightarrow> None)"

definition index_of :: "string \<Rightarrow> int" where
  "index_of m = (case month_index m of None \<Rightarrow> 0 | Some n \<Rightarrow> n)"

section \<open>Months in order\<close>

lemma list_less_append:
  fixes xs ys us vs :: string
  assumes "length xs = length ys"
  shows "xs @ us < ys @ vs \<longleftrightarrow> xs < ys \<or> xs = ys \<and> us < vs"
  using assms by (induction xs ys rule: list_induct2) auto

lemma digits_value_from: "foldl (\<lambda>v c. 10 * v + (of_char c - 48)) v ds = v * 10 ^ length ds + digits_value ds"
proof (induction ds arbitrary: v)
  case (Cons d ds)
  show ?case
    using Cons [of "10 * v + (of_char d - 48)"] Cons [of "of_char d - 48"] by (simp add: digits_value_def algebra_simps)
qed (simp add: digits_value_def)

lemma digits_value_Cons: "digits_value (d # ds) = (of_char d - 48) * 10 ^ length ds + digits_value ds"
  using digits_value_from [of "of_char d - 48" ds] by (simp add: digits_value_def)

lemma digit_of_char: "is_digit_char c \<Longrightarrow> 48 \<le> (of_char c :: nat) \<and> (of_char c :: nat) \<le> 57"
  by (simp add: is_digit_char_def less_eq_char_def)

lemma digits_value_bound: "list_all is_digit_char ds \<Longrightarrow> digits_value ds < 10 ^ length ds"
proof (induction ds)
  case (Cons d ds)
  then have "digits_value ds < 10 ^ length ds" "of_char d - 48 \<le> (9 :: nat)" using digit_of_char [of d] by auto
  then have "(of_char d - 48) * 10 ^ length ds + digits_value ds < 9 * 10 ^ length ds + 10 ^ length ds"
    by (intro add_le_less_mono mult_right_mono) auto
  then show ?case by (simp add: digits_value_Cons)
qed (simp add: digits_value_def)

lemma digits_less:
  assumes "length xs = length ys" and "list_all is_digit_char xs" and "list_all is_digit_char ys"
  shows "xs < ys \<longleftrightarrow> digits_value xs < digits_value ys"
  using assms
proof (induction xs ys rule: list_induct2)
  case (Cons x xs y ys)
  let ?a = "of_char x - 48 :: nat" and ?b = "of_char y - 48 :: nat" and ?p = "10 ^ length ys :: nat"
  have v: "digits_value xs < ?p" "digits_value ys < ?p" using digits_value_bound [of xs] digits_value_bound [of ys] Cons by auto
  have d: "x < y \<longleftrightarrow> ?a < ?b" "x = y \<longleftrightarrow> ?a = ?b"
    using digit_of_char [of x] digit_of_char [of y] Cons.prems by (auto simp: less_char_def) (metis char_of_char diff_add_inverse2 le_add_diff_inverse2)
  have step: "?a * ?p + digits_value xs < ?b * ?p + digits_value ys" if "?a < ?b"
  proof -
    have "(?a + 1) * ?p \<le> ?b * ?p" using that by (intro mult_right_mono) auto
    with v show ?thesis by simp
  qed
  have step': "\<not> ?a * ?p + digits_value xs < ?b * ?p + digits_value ys" if "?b < ?a"
  proof -
    have "(?b + 1) * ?p \<le> ?a * ?p" using that by (intro mult_right_mono) auto
    with v show ?thesis by simp
  qed
  consider "?a < ?b" | "?a = ?b" | "?b < ?a" by linarith
  then show ?case
  proof cases
    case 1
    then show ?thesis using step d Cons.hyps by (simp add: digits_value_Cons)
  next
    case 2
    then show ?thesis using d Cons by (simp add: digits_value_Cons)
  next
    case 3
    then have "\<not> x < y" "x \<noteq> y" using d by linarith+
    then show ?thesis using step' [OF 3] Cons.hyps by (simp add: digits_value_Cons)
  qed
qed (simp add: digits_value_def)

lemma month_parts:
  assumes "month_check m"
  shows "m = take 4 m @ CHR ''-'' # drop 5 m" and "list_all is_digit_char (take 4 m)" and "list_all is_digit_char (drop 5 m)"
    and "length (take 4 m) = 4" and "length (drop 5 m) = 2" and "1 \<le> digits_value (drop 5 m)" and "digits_value (drop 5 m) \<le> 12"
proof -
  have len: "length m = 7" and h: "m ! 4 = CHR ''-''" and y: "list_all is_digit_char (take 4 m)"
    and k: "m ! 5 = CHR ''0'' \<and> CHR ''1'' \<le> m ! 6 \<and> m ! 6 \<le> CHR ''9'' \<or> m ! 5 = CHR ''1'' \<and> CHR ''0'' \<le> m ! 6 \<and> m ! 6 \<le> CHR ''2''"
    using assms by (auto simp: month_check_def)
  have d4: "drop 4 m = m ! 4 # drop 5 m" using len Cons_nth_drop_Suc [of 4 m] by simp
  then show "m = take 4 m @ CHR ''-'' # drop 5 m" using append_take_drop_id [of 4 m] h by simp
  have d5: "drop 5 m = [m ! 5, m ! 6]" using len Cons_nth_drop_Suc [of 5 m] Cons_nth_drop_Suc [of 6 m] by simp
  show "list_all is_digit_char (take 4 m)" "length (take 4 m) = 4" "length (drop 5 m) = 2" using y len by simp_all
  have "is_digit_char (m ! 5)" "is_digit_char (m ! 6)" using k by (auto simp: is_digit_char_def less_eq_char_def)
  then show "list_all is_digit_char (drop 5 m)" by (simp add: d5)
  show "1 \<le> digits_value (drop 5 m)" "digits_value (drop 5 m) \<le> 12"
    unfolding d5 digits_value_def using k by (auto simp: less_eq_char_def)
qed

lemma month_index_valid:
  assumes "month_check m"
  shows "month_index m = Some (int (digits_value (take 4 m)) * 12 + int (digits_value (drop 5 m)))"
proof -
  note p = month_parts [OF assms]
  have y: "takeWhile (\<lambda>c. c \<noteq> CHR ''-'') m = take 4 m"
  proof -
    have "takeWhile (\<lambda>c. c \<noteq> CHR ''-'') (take 4 m @ CHR ''-'' # drop 5 m) = take 4 m"
      using p(2) no_hyphen [OF p(2)] by (subst takeWhile_append2) auto
    then show ?thesis using p(1) by simp
  qed
  have k: "takeWhile (\<lambda>c. c \<noteq> CHR ''-'') (drop 5 m) = drop 5 m"
    using no_hyphen [OF p(3)] by (auto simp: takeWhile_eq_all_conv)
  have ne: "take 4 m \<noteq> []" "drop 5 m \<noteq> []" using p(4,5) by (auto simp del: length_take)
  have five: "Suc (length (take 4 m)) = 5" using p(4) by simp
  show ?thesis
    unfolding month_index_def Let_def y five k by (simp add: py_int_digits [OF ne(1) p(2)] py_int_digits [OF ne(2) p(3)])
qed

lemma index_less:
  assumes "month_check a" and "month_check b"
  shows "a < b \<longleftrightarrow> index_of a < index_of b"
proof -
  note p = month_parts [OF assms(1)] and q = month_parts [OF assms(2)]
  have "a < b \<longleftrightarrow> take 4 a @ CHR ''-'' # drop 5 a < take 4 b @ CHR ''-'' # drop 5 b" using p(1) q(1) by metis
  also have "\<dots> \<longleftrightarrow> take 4 a < take 4 b \<or> take 4 a = take 4 b \<and> drop 5 a < drop 5 b"
    by (subst list_less_append) (use p(4) q(4) in simp_all)
  also have "\<dots> \<longleftrightarrow> digits_value (take 4 a) < digits_value (take 4 b)
      \<or> digits_value (take 4 a) = digits_value (take 4 b) \<and> digits_value (drop 5 a) < digits_value (drop 5 b)"
    using digits_less [of "take 4 a" "take 4 b"] digits_less [of "take 4 b" "take 4 a"] digits_less [of "drop 5 a" "drop 5 b"] p(2-5) q(2-5)
    by (metis linorder_neqE order_less_irrefl)
  also have "\<dots> \<longleftrightarrow> index_of a < index_of b"
    using p(6,7) q(6,7) by (auto simp: index_of_def month_index_valid assms)
  finally show ?thesis .
qed

lemma index_eq: "month_check a \<Longrightarrow> month_check b \<Longrightarrow> index_of a = index_of b \<longleftrightarrow> a = b"
  by (metis index_less linorder_neqE order_less_irrefl)

end
