(* ===== verification/Reporting_Lifecycle.thy ===== *)
theory Reporting_Lifecycle
  imports Reporting_Correctness Months
begin

text \<open>
  The life of an agent across months (\<^verbatim>\<open>services/reporting_refresh_lifecycle.py\<close>): the months in which it sold, with
  the previous one and the gap between them, and the profile with its streaks of consecutive months.
\<close>

section \<open>Rows\<close>

record lifecycle_month =
  lm_import_month :: string
  lm_agent :: string
  lm_total_sales :: int
  lm_total_quantity :: int
  lm_receipt_count :: int
  lm_working_days :: int
  lm_active_store_count :: int
  lm_active_firma_count :: int
  lm_active_regional_count :: int
  lm_active_asm_count :: int
  lm_first_seen_month :: string
  lm_prev_active_month :: "string option"
  lm_gap_since_prev_active_months :: int
  lm_is_new :: bool
  lm_is_reactivated :: bool

datatype agent_status = Agent_active | Agent_inactive_recent | Agent_churned

record agent_profile =
  pf_agent :: string
  pf_first_seen_month :: string
  pf_last_seen_month :: string
  pf_active_months_count :: int
  pf_distinct_store_count :: int
  pf_distinct_firma_count :: int
  pf_distinct_regional_count :: int
  pf_distinct_asm_count :: int
  pf_months_since_last_seen :: int
  pf_reactivation_count :: int
  pf_longest_active_streak :: int
  pf_career_total_sales :: int
  pf_career_total_quantity :: int
  pf_avg_monthly_sales :: int
  pf_best_month :: string
  pf_best_month_sales :: int
  pf_current_status :: agent_status

section \<open>Months\<close>

text \<open>\<^verbatim>\<open>LAG(import_month) OVER (PARTITION BY agent ORDER BY import_month)\<close> over an agent's months\<close>

definition lag_month :: "string list \<Rightarrow> string \<Rightarrow> string option" where
  "lag_month ms m = (case filter (\<lambda>x. x < m) (sort ms) of [] \<Rightarrow> None | xs \<Rightarrow> Some (last xs))"

section \<open>The lifecycle table\<close>

definition lifecycle_base :: "agent_month list \<Rightarrow> ((string \<times> string) \<times> agent_month list) list" where
  "lifecycle_base t = group_rows (\<lambda>r. (rp_import_month (am_scope r), rp_agent (am_scope r))) t"

definition count_of :: "(report_scope \<Rightarrow> string) \<Rightarrow> agent_month list \<Rightarrow> int" where
  "count_of f g = count_distinct (\<lambda>r. f (am_scope r)) (\<lambda>_. True) g"

definition gap_months :: "string \<Rightarrow> string option \<Rightarrow> int" where
  "gap_months m prev = (case prev of None \<Rightarrow> 0 | Some p \<Rightarrow> max (index_of m - index_of p - 1) 0)"

definition lifecycle_row :: "string list \<Rightarrow> (string \<times> string) \<Rightarrow> agent_month list \<Rightarrow> lifecycle_month" where
  "lifecycle_row months k g = (let prev = lag_month months (fst k); gap = gap_months (fst k) prev in
     \<lparr>lm_import_month = fst k, lm_agent = snd k, lm_total_sales = sum_list (map am_total_sales g),
      lm_total_quantity = sum_list (map am_total_quantity g), lm_receipt_count = sum_list (map am_receipt_count g),
      lm_working_days = sum_list (map am_working_days g), lm_active_store_count = count_of rp_site g,
      lm_active_firma_count = count_of rp_firma g, lm_active_regional_count = count_of rp_regional g, lm_active_asm_count = count_of rp_asm g,
      lm_first_seen_month = Min (set months), lm_prev_active_month = prev, lm_gap_since_prev_active_months = gap,
      lm_is_new = (prev = None), lm_is_reactivated = (prev \<noteq> None \<and> 2 \<le> gap)\<rparr>)"

text \<open>The months of an agent in the base.\<close>

definition agent_months :: "string \<Rightarrow> agent_month list \<Rightarrow> string list" where
  "agent_months a t = map (\<lambda>p. fst (fst p)) (filter (\<lambda>p. snd (fst p) = a) (lifecycle_base t))"

definition lifecycle_rows :: "agent_month list \<Rightarrow> lifecycle_month list" where
  "lifecycle_rows t = map (\<lambda>(k, g). lifecycle_row (agent_months (snd k) t) k g) (lifecycle_base t)"

definition lifecycle_fits :: "lifecycle_month \<Rightarrow> bool" where
  "lifecycle_fits r \<longleftrightarrow> numeric_12_2 (lm_total_sales r) \<and> list_all (\<lambda>f. int4 (f r)) [lm_total_quantity, lm_receipt_count, lm_working_days,
     lm_active_store_count, lm_active_firma_count, lm_active_regional_count, lm_active_asm_count, lm_gap_since_prev_active_months]"

datatype lifecycle_error = LifecycleInvalidMonth | LifecycleOutOfRange

text \<open>The index of a month is computed only against a previous one.\<close>

definition insert_lifecycle :: "agent_month list \<Rightarrow> (lifecycle_error, lifecycle_month list) result" where
  "insert_lifecycle t = (let rows = lifecycle_rows t in
     if \<exists>r \<in> set rows. case lm_prev_active_month r of None \<Rightarrow> False | Some p \<Rightarrow> month_index (lm_import_month r) = None \<or> month_index p = None
     then Inl LifecycleInvalidMonth
     else if \<not> list_all lifecycle_fits rows then Inl LifecycleOutOfRange else Inr rows)"

section \<open>The profile\<close>

text \<open>\<^verbatim>\<open>ROW_NUMBER() OVER (PARTITION BY agent ORDER BY import_month)\<close>\<close>

definition row_num :: "lifecycle_month list \<Rightarrow> lifecycle_month \<Rightarrow> int" where
  "row_num ls r = int (length (filter (\<lambda>x. lm_agent x = lm_agent r \<and> lm_import_month x \<le> lm_import_month r) ls))"

definition streak_group :: "lifecycle_month list \<Rightarrow> lifecycle_month \<Rightarrow> string \<times> int" where
  "streak_group ls r = (lm_agent r, index_of (lm_import_month r) - row_num ls r)"

definition streaks :: "lifecycle_month list \<Rightarrow> (string \<times> int) list" where
  "streaks ls = rollup_rows (streak_group ls) (\<lambda>k g. (fst k, int (length g))) ls"

text \<open>\<^verbatim>\<open>DISTINCT ON (agent) ... ORDER BY agent, total_sales DESC, import_month DESC\<close>\<close>

definition best_of :: "lifecycle_month list \<Rightarrow> lifecycle_month option" where
  "best_of g = (case sort_key (\<lambda>r. (lm_total_sales r, lm_import_month r)) g of [] \<Rightarrow> None | xs \<Rightarrow> Some (last xs))"

text \<open>A row of the lifecycle joined with one streak of its agent.\<close>

type_synonym profile_line = "lifecycle_month \<times> (string \<times> int) option"

definition profile_lines :: "lifecycle_month list \<Rightarrow> profile_line list" where
  "profile_lines ls = left_join (\<lambda>r s. fst s = lm_agent r) (streaks ls) ls"

definition months_since :: "string \<Rightarrow> string \<Rightarrow> int" where
  "months_since latest m = max (index_of latest - index_of m) 0"

definition status_of :: "int \<Rightarrow> agent_status" where
  "status_of n = (if 2 \<le> n then Agent_churned else if n = 1 then Agent_inactive_recent else Agent_active)"

text \<open>
  \<^verbatim>\<open>ROUND(SUM(...) / COUNT(*), 2)\<close>: half away from zero; the quotient carries digits enough that
  rounding it first does not move a half.
\<close>

definition avg_cents :: "int \<Rightarrow> int \<Rightarrow> int" where
  "avg_cents s n = (if 0 < n then round_half_up (of_int s / of_int n) else 0)"

definition profile_row :: "agent_month list \<Rightarrow> lifecycle_month list \<Rightarrow> string \<Rightarrow> profile_line list \<Rightarrow> agent_profile" where
  "profile_row t ls a g = (let rows = map fst g; last_seen = Max (set (map lm_import_month rows));
       latest = Max (set (map lm_import_month ls)); since = months_since latest last_seen;
       scope = filter (\<lambda>r. rp_agent (am_scope r) = a) t; career = sum_list (map lm_total_sales rows);
       best = best_of (filter (\<lambda>r. lm_agent r = a) ls) in
     \<lparr>pf_agent = a, pf_first_seen_month = Min (set (map lm_first_seen_month rows)), pf_last_seen_month = last_seen,
      pf_active_months_count = int (length g), pf_distinct_store_count = count_of rp_site scope,
      pf_distinct_firma_count = count_of rp_firma scope, pf_distinct_regional_count = count_of rp_regional scope,
      pf_distinct_asm_count = count_of rp_asm scope, pf_months_since_last_seen = since,
      pf_reactivation_count = int (length (filter lm_is_reactivated rows)),
      pf_longest_active_streak = (case sql_max (List.map_filter (\<lambda>x. map_option snd (snd x)) g) of None \<Rightarrow> 0 | Some n \<Rightarrow> n),
      pf_career_total_sales = career, pf_career_total_quantity = sum_list (map lm_total_quantity rows),
      pf_avg_monthly_sales = avg_cents career (int (length g)),
      pf_best_month = (case best of None \<Rightarrow> [] | Some r \<Rightarrow> lm_import_month r),
      pf_best_month_sales = (case best of None \<Rightarrow> 0 | Some r \<Rightarrow> lm_total_sales r), pf_current_status = status_of since\<rparr>)"

definition profile_rows :: "agent_month list \<Rightarrow> lifecycle_month list \<Rightarrow> agent_profile list" where
  "profile_rows t ls = rollup_rows (\<lambda>x. lm_agent (fst x)) (profile_row t ls) (profile_lines ls)"

definition profile_fits :: "agent_profile \<Rightarrow> bool" where
  "profile_fits r \<longleftrightarrow> list_all (\<lambda>f. numeric_12_2 (f r)) [pf_career_total_sales, pf_avg_monthly_sales, pf_best_month_sales]
     \<and> list_all (\<lambda>f. int4 (f r)) [pf_active_months_count, pf_distinct_store_count, pf_distinct_firma_count, pf_distinct_regional_count,
        pf_distinct_asm_count, pf_months_since_last_seen, pf_reactivation_count, pf_longest_active_streak, pf_career_total_quantity]"

definition insert_profile :: "agent_month list \<Rightarrow> lifecycle_month list \<Rightarrow> (lifecycle_error, agent_profile list) result" where
  "insert_profile t ls =
     (if \<exists>r \<in> set ls. month_index (lm_import_month r) = None then Inl LifecycleInvalidMonth
      else if \<not> list_all profile_fits (profile_rows t ls) then Inl LifecycleOutOfRange else Inr (profile_rows t ls))"

definition rebuild_agent_lifecycle_reporting ::
  "agent_month list \<Rightarrow> (lifecycle_error, lifecycle_month list \<times> agent_profile list) result" where
  "rebuild_agent_lifecycle_reporting t = res_bind (insert_lifecycle t) (\<lambda>ls. res_bind (insert_profile t ls) (\<lambda>ps. Inr (ls, ps)))"

text \<open>
  \<^verbatim>\<open>rebuild_reporting_all\<close>: each month in a transaction of its own, the lifecycle in the last one. A failure leaves the
  transactions before it in place.
\<close>

fun rebuild_months :: "reporting_env \<Rightarrow> live_row list \<Rightarrow> store_info list \<Rightarrow> string list \<Rightarrow> reporting_db \<Rightarrow> reporting_db \<times> reporting_error option" where
  "rebuild_months env live stores [] db = (db, None)"
| "rebuild_months env live stores (m # ms) db = (case rebuild_reporting_month env m live stores db of
     Inl e \<Rightarrow> (db, Some e) | Inr db' \<Rightarrow> rebuild_months env live stores ms db')"

definition list_completed_import_months :: "snapshot list \<Rightarrow> string list" where
  "list_completed_import_months snapshots = sort (remdups (map sn_import_month (filter (\<lambda>s. sn_status s = Completed_import) snapshots)))"

definition target_months :: "string list option \<Rightarrow> snapshot list \<Rightarrow> string list" where
  "target_months months snapshots = (case months of Some ms \<Rightarrow> ms | None \<Rightarrow> list_completed_import_months snapshots)"

definition rebuild_reporting_all ::
  "reporting_env \<Rightarrow> live_row list \<Rightarrow> store_info list \<Rightarrow> snapshot list \<Rightarrow> string list option
   \<Rightarrow> reporting_db \<times> lifecycle_month list \<times> agent_profile list
   \<Rightarrow> (reporting_db \<times> lifecycle_month list \<times> agent_profile list) \<times> (reporting_error + lifecycle_error, string list) result" where
  "rebuild_reporting_all env live stores snapshots months st = (let ms = target_months months snapshots in
     case rebuild_months env live stores ms (fst st) of
       (db, Some e) \<Rightarrow> ((db, snd st), Inl (Inl e))
     | (db, None) \<Rightarrow> (case rebuild_agent_lifecycle_reporting (r_agent_month db) of
          Inl e \<Rightarrow> ((db, snd st), Inl (Inr e)) | Inr career \<Rightarrow> ((db, career), Inr ms)))"

end
