(* ===== verification/Islands.thy ===== *)
theory Islands
  imports Retail_Prelude
begin

text \<open>
  Gaps and islands: among the months of an agent, the index of a month minus its rank is constant exactly on a run of
  consecutive months. The queries that look for streaks group by that value.
\<close>

text \<open>The rank of a month among the months of an agent, and the value that groups its streaks.\<close>

definition rank_in :: "int set \<Rightarrow> int \<Rightarrow> int" where
  "rank_in S x = int (card {y \<in> S. y \<le> x})"

definition island :: "int set \<Rightarrow> int \<Rightarrow> int" where
  "island S x = x - rank_in S x"

definition island_starts :: "int set \<Rightarrow> int set" where
  "island_starts S = {x \<in> S. x - 1 \<notin> S}"

lemma rank_diff:
  assumes "finite S" and "x \<le> y"
  shows "rank_in S y - rank_in S x = int (card {z \<in> S. x < z \<and> z \<le> y})"
proof -
  have "{z \<in> S. z \<le> y} = {z \<in> S. z \<le> x} \<union> {z \<in> S. x < z \<and> z \<le> y}" using assms(2) by auto
  moreover have "{z \<in> S. z \<le> x} \<inter> {z \<in> S. x < z \<and> z \<le> y} = {}" by auto
  ultimately have "card {z \<in> S. z \<le> y} = card {z \<in> S. z \<le> x} + card {z \<in> S. x < z \<and> z \<le> y}"
    using assms(1) by (simp add: card_Un_disjoint)
  then show ?thesis by (simp add: rank_in_def)
qed

lemma island_mono:
  assumes "finite S" and "x \<le> y"
  shows "island S x \<le> island S y" and "island S x = island S y \<longleftrightarrow> {x<..y} \<subseteq> S"
proof -
  have sub: "{z \<in> S. x < z \<and> z \<le> y} \<subseteq> {x<..y}" by auto
  have size: "card {x<..y} = nat (y - x)" by simp
  have "card {z \<in> S. x < z \<and> z \<le> y} \<le> nat (y - x)" using card_mono [OF _ sub] size by simp
  then show "island S x \<le> island S y" using rank_diff [OF assms] assms(2) by (simp add: island_def)
  have "island S x = island S y \<longleftrightarrow> int (card {z \<in> S. x < z \<and> z \<le> y}) = y - x"
    unfolding island_def using rank_diff [OF assms] by linarith
  also have "\<dots> \<longleftrightarrow> card {z \<in> S. x < z \<and> z \<le> y} = card {x<..y}"
    unfolding size using assms(2) by linarith
  also have "\<dots> \<longleftrightarrow> {z \<in> S. x < z \<and> z \<le> y} = {x<..y}"
    using card_subset_eq [OF finite_greaterThanAtMost_int sub] by metis
  also have "\<dots> \<longleftrightarrow> {x<..y} \<subseteq> S" by auto
  finally show "island S x = island S y \<longleftrightarrow> {x<..y} \<subseteq> S" .
qed

lemma island_values:
  assumes "finite S"
  shows "card (island S ` S) = card (island_starts S)"
proof -
  have "inj_on (island S) (island_starts S)"
  proof (rule linorder_inj_onI)
    fix x y assume "x < y" "x \<in> island_starts S" "y \<in> island_starts S"
    then have "\<not> {x<..y} \<subseteq> S" if "y - 1 \<in> {x<..y} \<union> {x}" using that by (auto simp: island_starts_def subset_iff)
    moreover have "y - 1 \<in> {x<..y} \<union> {x}" using \<open>x < y\<close> by auto
    ultimately show "island S x \<noteq> island S y"
      using island_mono(2) [OF assms, of x y] \<open>x < y\<close> by simp
  qed auto
  moreover have "island S ` island_starts S = island S ` S"
  proof
    show "island S ` S \<subseteq> island S ` island_starts S"
    proof
      fix v assume "v \<in> island S ` S"
      then have ne: "{x \<in> S. island S x = v} \<noteq> {}" by auto
      let ?m = "Min {x \<in> S. island S x = v}"
      have m: "?m \<in> S" "island S ?m = v" using Min_in [OF _ ne] assms by auto
      have "?m - 1 \<notin> S"
      proof
        assume "?m - 1 \<in> S"
        moreover have "{?m - 1<..?m} = {?m}" by auto
        then have "{?m - 1<..?m} \<subseteq> S" using m(1) by simp
        then have "island S (?m - 1) = v" using island_mono(2) [OF assms, of "?m - 1" ?m] m(2) by simp
        ultimately show False using Min_le [of "{x \<in> S. island S x = v}" "?m - 1"] assms by auto
      qed
      then have "?m \<in> island_starts S" using m(1) by (simp add: island_starts_def)
      then show "v \<in> island S ` island_starts S" using m(2) by (rule rev_image_eqI [OF _ sym])
    qed
  qed (auto simp: island_starts_def)
  ultimately show ?thesis by (metis card_image)
qed

text \<open>An island is a run of consecutive months, and every run lies in one island.\<close>

lemma island_is_run:
  assumes "finite S" and "v \<in> island S ` S"
  defines "I \<equiv> {x \<in> S. island S x = v}"
  shows "\<exists>a. I = {a..<a + int (card I)}"
proof -
  have ne: "I \<noteq> {}" "finite I" using assms by (auto simp: I_def)
  have mem: "Min I \<in> I" "Max I \<in> I" using ne by simp_all
  have "I = {Min I..Max I}"
  proof
    show "{Min I..Max I} \<subseteq> I"
    proof
      fix x assume x: "x \<in> {Min I..Max I}"
      have "{Min I<..Max I} \<subseteq> S"
        using island_mono(2) [OF assms(1), of "Min I" "Max I"] mem x by (auto simp: I_def)
      then have "{Min I<..x} \<subseteq> S" "x \<in> S" using x mem(1) by (auto simp: I_def) (metis atLeastAtMost_iff greaterThanAtMost_iff order_le_less subsetD)
      then show "x \<in> I" using island_mono(2) [OF assms(1), of "Min I" x] mem(1) x by (auto simp: I_def)
    qed
  qed (use ne in auto)
  moreover have "{Min I..Max I} = {Min I..<Min I + int (card {Min I..Max I})}"
    using mem Min_le [OF ne(2) mem(2)] by auto
  ultimately show ?thesis by metis
qed

lemma run_in_island:
  assumes "finite S" and "{a..<a + int n} \<subseteq> S" and "0 < n"
  shows "n \<le> card {x \<in> S. island S x = island S a}"
proof -
  have "{a..<a + int n} \<subseteq> {x \<in> S. island S x = island S a}"
  proof
    fix x assume x: "x \<in> {a..<a + int n}"
    then have "{a<..x} \<subseteq> S" using assms(2) by auto
    then show "x \<in> {x \<in> S. island S x = island S a}" using island_mono(2) [OF assms(1), of a x] x assms(2) by auto
  qed
  from card_mono [OF _ this] assms(1) show ?thesis by simp
qed

section \<open>The longest run\<close>

definition longest_run :: "int set \<Rightarrow> nat" where
  "longest_run S = Max {n. \<exists>a. {a..<a + int n} \<subseteq> S}"

text \<open>The largest island is the longest run.\<close>

lemma longest_run_islands:
  assumes "finite S" and "S \<noteq> {}"
  shows "Max ((\<lambda>v. card {x \<in> S. island S x = v}) ` island S ` S) = longest_run S"
proof -
  let ?C = "(\<lambda>v. card {x \<in> S. island S x = v}) ` island S ` S" and ?R = "{n. \<exists>a. {a..<a + int n} \<subseteq> S}"
  have fin: "finite ?C" "?C \<noteq> {}" using assms by auto
  have "?R \<subseteq> {..card S}"
  proof
    fix n assume "n \<in> ?R"
    then obtain a where "{a..<a + int n} \<subseteq> S" by blast
    from card_mono [OF assms(1) this] show "n \<in> {..card S}" by simp
  qed
  then have finR: "finite ?R" by (rule finite_subset) simp
  have "?C \<subseteq> ?R"
  proof
    fix n assume "n \<in> ?C"
    then obtain v where v: "v \<in> island S ` S" "n = card {x \<in> S. island S x = v}" by auto
    from island_is_run [OF assms(1) v(1)] obtain a where "{x \<in> S. island S x = v} = {a..<a + int n}" unfolding v(2) by blast
    then have "{a..<a + int n} \<subseteq> S" by (metis (no_types, lifting) mem_Collect_eq subsetI)
    then show "n \<in> ?R" by blast
  qed
  moreover have "n \<le> Max ?C" if "n \<in> ?R" for n
  proof (cases "n = 0")
    case False
    from that obtain a where a: "{a..<a + int n} \<subseteq> S" by blast
    then have "a \<in> S" using False by auto
    then have "card {x \<in> S. island S x = island S a} \<in> ?C" by blast
    then show ?thesis using run_in_island [OF assms(1) a] False Max_ge [OF fin(1)] by (meson le_trans bot_nat_0.not_eq_extremum)
  qed simp
  ultimately have "Max ?C \<in> ?R" "\<And>n. n \<in> ?R \<Longrightarrow> n \<le> Max ?C" using Max_in [OF fin] by blast+
  then show ?thesis unfolding longest_run_def using Max_eqI [OF finR, of "Max ?C"] by simp
qed

end
