(* ===== verification/Reporting_Career.thy ===== *)
theory Reporting_Career
  imports Reporting_Lifecycle Islands
begin

text \<open>
  The lifecycle against the months in which an agent sold: the order of months as texts is that of their
  indices, an index minus its rank is constant exactly on a run of consecutive months, and the profile repeats
  every month once per run.
\<close>

section \<open>The lifecycle of an agent\<close>

text \<open>The months in which an agent sold, and the rows of the lifecycle that are its own.\<close>

definition months_of :: "string \<Rightarrow> agent_month list \<Rightarrow> string set" where
  "months_of a t = {rp_import_month (am_scope r) | r. r \<in> set t \<and> rp_agent (am_scope r) = a}"

definition valid_months :: "agent_month list \<Rightarrow> bool" where
  "valid_months t \<longleftrightarrow> (\<forall>r \<in> set t. month_check (rp_import_month (am_scope r)))"

lemma finite_months_of: "finite (months_of a t)"
proof -
  have "months_of a t \<subseteq> (\<lambda>r. rp_import_month (am_scope r)) ` set t" by (auto simp: months_of_def)
  then show ?thesis by (rule finite_subset) simp
qed

lemma months_of_valid: "valid_months t \<Longrightarrow> m \<in> months_of a t \<Longrightarrow> month_check m"
  by (auto simp: valid_months_def months_of_def)

lemma index_inj: "valid_months t \<Longrightarrow> inj_on index_of (months_of a t)"
  by (rule inj_onI) (simp add: index_eq months_of_valid)


lemma lifecycle_keys: "map (\<lambda>r. (lm_import_month r, lm_agent r)) (lifecycle_rows t) = map fst (lifecycle_base t)"
  by (simp add: lifecycle_rows_def lifecycle_row_def Let_def case_prod_unfold)

lemma lifecycle_keys_distinct: "distinct (map (\<lambda>r. (lm_import_month r, lm_agent r)) (lifecycle_rows t))"
  by (simp add: lifecycle_keys lifecycle_base_def)

lemma lifecycle_mem:
  assumes "r \<in> set (lifecycle_rows t)"
  shows "lm_import_month r \<in> months_of (lm_agent r) t"
    and "r = lifecycle_row (agent_months (lm_agent r) t) (lm_import_month r, lm_agent r)
      (filter (\<lambda>x. (rp_import_month (am_scope x), rp_agent (am_scope x)) = (lm_import_month r, lm_agent r)) t)"
  using assms by (auto simp: lifecycle_rows_def lifecycle_base_def group_rows_def lifecycle_row_def Let_def months_of_def)

lemma agent_rows_months: "lm_import_month ` {r \<in> set (lifecycle_rows t). lm_agent r = a} = months_of a t"
proof -
  have "(\<lambda>r. (lm_import_month r, lm_agent r)) ` set (lifecycle_rows t) = fst ` set (lifecycle_base t)"
    using arg_cong [OF lifecycle_keys, of set] by simp
  also have "\<dots> = (\<lambda>r. (rp_import_month (am_scope r), rp_agent (am_scope r))) ` set t"
    by (auto simp: lifecycle_base_def group_rows_def image_image)
  finally have eq: "(\<lambda>r. (lm_import_month r, lm_agent r)) ` set (lifecycle_rows t) = \<dots>" .
  have "m \<in> lm_import_month ` {r \<in> set (lifecycle_rows t). lm_agent r = a} \<longleftrightarrow> (m, a) \<in> (\<lambda>r. (lm_import_month r, lm_agent r)) ` set (lifecycle_rows t)" for m
    by auto
  moreover have "m \<in> months_of a t \<longleftrightarrow> (m, a) \<in> (\<lambda>r. (rp_import_month (am_scope r), rp_agent (am_scope r))) ` set t" for m
    by (auto simp: months_of_def)
  ultimately show ?thesis unfolding eq by blast
qed

lemma agent_rows_inj: "inj_on lm_import_month {r \<in> set (lifecycle_rows t). lm_agent r = a}"
  using lifecycle_keys_distinct [of t] by (auto simp: distinct_map inj_on_def)

lemma agent_rows_distinct: "distinct (lifecycle_rows t)"
  using lifecycle_keys_distinct [of t] by (simp add: distinct_map)

lemma agent_rows_count: "length (filter (\<lambda>r. lm_agent r = a) (lifecycle_rows t)) = card (months_of a t)"
proof -
  have "length (filter (\<lambda>r. lm_agent r = a) (lifecycle_rows t)) = card {r \<in> set (lifecycle_rows t). lm_agent r = a}"
    using distinct_card [of "filter (\<lambda>r. lm_agent r = a) (lifecycle_rows t)"] agent_rows_distinct by simp
  then show ?thesis using card_image [OF agent_rows_inj] agent_rows_months by metis
qed

section \<open>Gaps\<close>





section \<open>Streaks\<close>

text \<open>The indices of the months in which an agent sold.\<close>

definition active_indices :: "string \<Rightarrow> agent_month list \<Rightarrow> int set" where
  "active_indices a t = index_of ` months_of a t"

definition row_index :: "lifecycle_month \<Rightarrow> int" where
  "row_index r = index_of (lm_import_month r)"

lemma finite_active: "finite (active_indices a t)"
  by (simp add: active_indices_def finite_months_of)

lemma card_active: "valid_months t \<Longrightarrow> card (active_indices a t) = card (months_of a t)"
  unfolding active_indices_def by (rule card_image [OF index_inj])

lemma row_index_bij:
  assumes "valid_months t"
  shows "bij_betw row_index {r \<in> set (lifecycle_rows t). lm_agent r = a} (active_indices a t)"
proof (rule bij_betw_imageI)
  have "inj_on (index_of \<circ> lm_import_month) {r \<in> set (lifecycle_rows t). lm_agent r = a}"
    using agent_rows_inj index_inj [OF assms] by (intro comp_inj_on) (simp_all add: agent_rows_months)
  then show "inj_on row_index {r \<in> set (lifecycle_rows t). lm_agent r = a}" by (simp add: comp_def row_index_def [abs_def])
  show "row_index ` {r \<in> set (lifecycle_rows t). lm_agent r = a} = active_indices a t"
    unfolding active_indices_def agent_rows_months [symmetric] by (simp add: image_image row_index_def [abs_def])
qed

text \<open>Rows of an agent selected by their index are as many as the indices.\<close>

lemma agent_rows_card:
  assumes "valid_months t"
  shows "length (filter (\<lambda>r. lm_agent r = a \<and> Q (row_index r)) (lifecycle_rows t)) = card {x \<in> active_indices a t. Q x}"
proof -
  let ?A = "{r \<in> set (lifecycle_rows t). lm_agent r = a \<and> Q (row_index r)}"
  have "length (filter (\<lambda>r. lm_agent r = a \<and> Q (row_index r)) (lifecycle_rows t)) = card ?A"
    using distinct_card [of "filter (\<lambda>r. lm_agent r = a \<and> Q (row_index r)) (lifecycle_rows t)"] agent_rows_distinct by simp
  also have "\<dots> = card (row_index ` ?A)"
    by (rule card_image [symmetric], rule inj_on_subset [OF bij_betw_imp_inj_on [OF row_index_bij [OF assms, of a]]]) auto
  also have "row_index ` ?A = {x \<in> active_indices a t. Q x}"
    unfolding bij_betw_imp_surj_on [OF row_index_bij [OF assms, of a], symmetric] by auto
  finally show ?thesis .
qed

lemma row_num_rank:
  assumes "valid_months t" and "r \<in> set (lifecycle_rows t)"
  shows "row_num (lifecycle_rows t) r = rank_in (active_indices (lm_agent r) t) (row_index r)"
proof -
  have "lm_import_month x \<le> lm_import_month r \<longleftrightarrow> row_index x \<le> row_index r"
    if "x \<in> set (lifecycle_rows t)" "lm_agent x = lm_agent r" for x
  proof -
    have "month_check (lm_import_month x)" "month_check (lm_import_month r)"
      using lifecycle_mem(1) [OF that(1)] lifecycle_mem(1) [OF assms(2)] months_of_valid [OF assms(1)] by auto
    from index_less [OF this(2,1)] show ?thesis by (auto simp: row_index_def not_less [symmetric])
  qed
  then have "filter (\<lambda>x. lm_agent x = lm_agent r \<and> lm_import_month x \<le> lm_import_month r) (lifecycle_rows t)
      = filter (\<lambda>x. lm_agent x = lm_agent r \<and> row_index x \<le> row_index r) (lifecycle_rows t)"
    by (intro filter_cong) auto
  then show ?thesis using agent_rows_card [OF assms(1), of "lm_agent r" "\<lambda>x. x \<le> row_index r"] by (simp add: row_num_def rank_in_def)
qed

lemma streak_group_island:
  assumes "valid_months t" and "r \<in> set (lifecycle_rows t)"
  shows "streak_group (lifecycle_rows t) r = (lm_agent r, island (active_indices (lm_agent r) t) (row_index r))"
  using row_num_rank [OF assms] by (simp add: streak_group_def island_def row_index_def)

lemma agent_streaks:
  fixes a :: string
  assumes v: "valid_months t"
  defines "S \<equiv> active_indices a t"
  shows "length (filter (\<lambda>s. fst s = a) (streaks (lifecycle_rows t))) = card (island_starts S)"
    and "snd ` set (filter (\<lambda>s. fst s = a) (streaks (lifecycle_rows t))) = (\<lambda>v. int (card {x \<in> S. island S x = v})) ` island S ` S"
proof -
  let ?ls = "lifecycle_rows t"
  let ?ks = "filter (\<lambda>k. fst k = a) (remdups (map (streak_group ?ls) ?ls))"
  have st: "filter (\<lambda>s. fst s = a) (streaks ?ls) = map (\<lambda>k. (fst k, int (length (filter (\<lambda>r. streak_group ?ls r = k) ?ls)))) ?ks"
    by (simp add: streaks_def rollup_rows_def group_rows_def filter_map comp_def)
  have "set ?ks = streak_group ?ls ` {r \<in> set ?ls. lm_agent r = a}" by (auto simp: streak_group_def)
  also have "\<dots> = (\<lambda>r. (a, island S (row_index r))) ` {r \<in> set ?ls. lm_agent r = a}"
    by (rule image_cong) (auto simp: streak_group_island [OF v] S_def)
  also have "\<dots> = Pair a ` island S ` row_index ` {r \<in> set ?ls. lm_agent r = a}" by (simp add: image_image)
  finally have ks: "set ?ks = Pair a ` island S ` S" unfolding S_def bij_betw_imp_surj_on [OF row_index_bij [OF v, of a]] .
  have "length ?ks = card (set ?ks)" by (rule distinct_card [symmetric]) simp
  also have "\<dots> = card (island S ` S)" unfolding ks by (rule card_image) (simp add: inj_on_def)
  finally show "length (filter (\<lambda>s. fst s = a) (streaks ?ls)) = card (island_starts S)"
    using island_values [of S] finite_active by (simp add: st S_def)
  have len: "length (filter (\<lambda>r. streak_group ?ls r = (a, u)) ?ls) = card {x \<in> S. island S x = u}" for u
  proof -
    have "filter (\<lambda>r. streak_group ?ls r = (a, u)) ?ls = filter (\<lambda>r. lm_agent r = a \<and> island S (row_index r) = u) ?ls"
      by (rule filter_cong) (auto simp: streak_group_island [OF v] S_def)
    then show ?thesis using agent_rows_card [OF v, of a "\<lambda>x. island S x = u"] by (simp add: S_def)
  qed
  show "snd ` set (filter (\<lambda>s. fst s = a) (streaks ?ls)) = (\<lambda>v. int (card {x \<in> S. island S x = v})) ` island S ` S"
    unfolding st set_map ks by (simp add: image_image len)
qed

section \<open>The profile\<close>

lemma profile_lines_agent:
  assumes v: "valid_months t"
  shows "filter (\<lambda>x. lm_agent (fst x) = a) (profile_lines (lifecycle_rows t))
    = concat (map (\<lambda>r. map (\<lambda>s. (r, Some s)) (filter (\<lambda>s. fst s = a) (streaks (lifecycle_rows t)))) (filter (\<lambda>r. lm_agent r = a) (lifecycle_rows t)))"
proof -
  let ?ls = "lifecycle_rows t" and ?st = "\<lambda>a. filter (\<lambda>s. fst s = a) (streaks (lifecycle_rows t))"
  have "?st (lm_agent r) \<noteq> []" if "r \<in> set ?ls" for r
  proof
    assume e: "?st (lm_agent r) = []"
    have "active_indices (lm_agent r) t = {}"
      using agent_streaks(2) [OF v, of "lm_agent r"] unfolding e by simp
    with lifecycle_mem(1) [OF that] show False by (simp add: active_indices_def)
  qed
  then have "profile_lines ?ls = concat (map (\<lambda>r. map (\<lambda>s. (r, Some s)) (?st (lm_agent r))) ?ls)"
    unfolding profile_lines_def left_join_def by (intro arg_cong [where f = concat] map_cong [OF refl]) (auto split: list.splits)
  moreover have "filter (\<lambda>x. lm_agent (fst x) = a) (concat (map (\<lambda>r. map (\<lambda>s. (r, Some s)) (?st (lm_agent r))) rs))
      = concat (map (\<lambda>r. map (\<lambda>s. (r, Some s)) (?st a)) (filter (\<lambda>r. lm_agent r = a) rs))" for rs
    by (induction rs) (auto simp: filter_map comp_def)
  ultimately show ?thesis by simp
qed

lemma sum_concat_const:
  "sum_list (map f (concat (map (\<lambda>r. map (\<lambda>s. (r, Some s)) ss) rs))) = sum_list (map (\<lambda>r. sum_list (map (\<lambda>s. f (r, Some s)) ss)) rs)"
  by (induction rs) (auto simp: comp_def)

lemma profile_sum:
  fixes f :: "lifecycle_month \<Rightarrow> int"
  assumes "valid_months t"
  shows "sum_list (map (\<lambda>x. f (fst x)) (filter (\<lambda>x. lm_agent (fst x) = a) (profile_lines (lifecycle_rows t))))
    = int (card (island_starts (active_indices a t))) * sum_list (map f (filter (\<lambda>r. lm_agent r = a) (lifecycle_rows t)))"
  unfolding profile_lines_agent [OF assms] sum_concat_const
  by (simp add: sum_list_triv agent_streaks(1) [OF assms] sum_list_const_mult)

lemma count_as_sum: "int (length (filter P xs)) = sum_list (map (\<lambda>x. if P x then 1 else 0) xs)"
  by (induction xs) auto

lemma career_sales: "sum_list (map lm_total_sales (filter (\<lambda>r. lm_agent r = a) (lifecycle_rows t)))
    = sum_list (map am_total_sales (filter (\<lambda>r. rp_agent (am_scope r) = a) t))"
  using group_total_where [of am_total_sales "\<lambda>k. snd k = a" "\<lambda>r. (rp_import_month (am_scope r), rp_agent (am_scope r))" t]
  by (simp add: lifecycle_rows_def lifecycle_base_def filter_map comp_def case_prod_unfold lifecycle_row_def Let_def)

lemma profile_longest:
  assumes v: "valid_months t" and S: "active_indices a t \<noteq> {}"
  shows "sql_max (List.map_filter (\<lambda>x. map_option snd (snd x)) (filter (\<lambda>x. lm_agent (fst x) = a) (profile_lines (lifecycle_rows t))))
    = Some (int (longest_run (active_indices a t)))"
proof -
  let ?S = "active_indices a t" and ?st = "filter (\<lambda>s. fst s = a) (streaks (lifecycle_rows t))" and ?A = "filter (\<lambda>r. lm_agent r = a) (lifecycle_rows t)"
  let ?xs = "List.map_filter (\<lambda>x. map_option snd (snd x)) (filter (\<lambda>x. lm_agent (fst x) = a) (profile_lines (lifecycle_rows t)))"
  have "?xs = concat (map (\<lambda>r. map snd ?st) ?A)"
  proof -
    have "List.map_filter (\<lambda>x. map_option snd (snd x)) (concat (map (\<lambda>r. map (\<lambda>s. (r, Some s)) ss) rs)) = concat (map (\<lambda>r. map snd ss) rs)" for ss rs
    proof (induction rs)
      case (Cons r rs)
      have "List.map_filter (\<lambda>x. map_option snd (snd x)) (map (\<lambda>s. (r, Some s)) ss @ ys) = map snd ss @ List.map_filter (\<lambda>x. map_option snd (snd x)) ys" for ys
        by (induction ss) (simp_all add: List.map_filter_simps)
      with Cons show ?case by simp
    qed (simp add: List.map_filter_simps)
    then show ?thesis unfolding profile_lines_agent [OF v] .
  qed
  moreover have "?A \<noteq> []"
  proof
    assume "?A = []"
    then have "{r \<in> set (lifecycle_rows t). lm_agent r = a} = {}" by (auto simp: filter_empty_conv)
    then show False using S bij_betw_imp_surj_on [OF row_index_bij [OF v, of a]] by auto
  qed
  ultimately have set: "set ?xs = int ` (\<lambda>u. card {x \<in> ?S. island ?S x = u}) ` island ?S ` ?S"
    using agent_streaks(2) [OF v, of a] by (auto simp: image_image)
  have fin: "finite ((\<lambda>u. card {x \<in> ?S. island ?S x = u}) ` island ?S ` ?S)" by (simp add: finite_active)
  obtain m where m: "sql_max ?xs = Some m"
  proof (cases "sql_max ?xs")
    case None
    then have "?xs = []" by (simp only: sql_max_None)
    then have "set ?xs = {}" by (simp only: list.set)
    then show thesis using set S by simp
  qed
  from sql_max_Some [OF m] have "m \<in> set ?xs" "\<forall>x \<in> set ?xs. x \<le> m" by blast+
  then have "m = Max (set ?xs)" by (intro Max_eqI [symmetric]) auto
  also have "\<dots> = int (Max ((\<lambda>u. card {x \<in> ?S. island ?S x = u}) ` island ?S ` ?S))"
    unfolding set using fin S by (intro mono_Max_commute [symmetric]) (auto simp: mono_def)
  also have "\<dots> = int (longest_run ?S)" using longest_run_islands [OF finite_active S] by simp
  finally show ?thesis using m by simp
qed

text \<open>
  C36: the profile of an agent. Its longest streak is the longest run of consecutive months with sales. But the join with the streaks
  repeats every month once per streak, so the number of active months, the reactivations and the
  career sales come out as the true figures times the number of streaks: they are right only for an agent that never paused.
\<close>

theorem profile_repeats_months:
  assumes "valid_months t" and "rebuild_agent_lifecycle_reporting t = Inr (ls, ps)" and "p \<in> set ps"
  shows "let S = active_indices (pf_agent p) t; k = int (card (island_starts S)) in
      pf_longest_active_streak p = int (longest_run S) \<and> pf_active_months_count p = k * int (card S)
    \<and> pf_career_total_sales p = k * sum_list (map am_total_sales (filter (\<lambda>r. rp_agent (am_scope r) = pf_agent p) t))
    \<and> pf_reactivation_count p = k * int (length (filter (\<lambda>r. lm_agent r = pf_agent p \<and> lm_is_reactivated r) ls))"
proof -
  have ls: "ls = lifecycle_rows t" and ps: "ps = profile_rows t ls"
    using assms(2) by (auto simp: rebuild_agent_lifecycle_reporting_def res_bind_Inr insert_lifecycle_def insert_profile_def Let_def split: if_splits)
  obtain a where a: "a \<in> (\<lambda>x. lm_agent (fst x)) ` set (profile_lines ls)"
    and p: "p = profile_row t ls a (filter (\<lambda>x. lm_agent (fst x) = a) (profile_lines ls))"
    using assms(3) by (auto simp: ps profile_rows_def mem_rollup)
  let ?g = "filter (\<lambda>x. lm_agent (fst x) = a) (profile_lines (lifecycle_rows t))" and ?k = "int (card (island_starts (active_indices a t)))"
  have ag: "pf_agent p = a" by (simp add: p profile_row_def Let_def)
  have "fst ` set (profile_lines ls) \<subseteq> set ls" by (auto simp: profile_lines_def left_join_def split: list.splits)
  then have "\<exists>r \<in> set (lifecycle_rows t). lm_agent r = a" using a ls by auto
  then have S: "active_indices a t \<noteq> {}" using lifecycle_mem(1) by (force simp: active_indices_def)
  have "pf_longest_active_streak p = int (longest_run (active_indices a t))"
    using profile_longest [OF assms(1) S] by (simp add: p profile_row_def Let_def ls)
  moreover have "pf_active_months_count p = ?k * int (card (active_indices a t))"
    using profile_sum [OF assms(1), of "\<lambda>_. 1" a] by (simp add: p profile_row_def Let_def ls sum_list_triv agent_rows_count card_active [OF assms(1)])
  moreover have "pf_career_total_sales p = ?k * sum_list (map am_total_sales (filter (\<lambda>r. rp_agent (am_scope r) = a) t))"
    using profile_sum [OF assms(1), of lm_total_sales a] by (simp add: p profile_row_def Let_def ls comp_def career_sales)
  moreover have "pf_reactivation_count p = ?k * int (length (filter (\<lambda>r. lm_agent r = a \<and> lm_is_reactivated r) ls))"
  proof -
    have "pf_reactivation_count p = sum_list (map (\<lambda>x. if lm_is_reactivated (fst x) then 1 else 0) ?g)"
      by (simp add: p profile_row_def Let_def ls count_as_sum comp_def)
    also have "\<dots> = ?k * sum_list (map (\<lambda>r. if lm_is_reactivated r then 1 else 0) (filter (\<lambda>r. lm_agent r = a) ls))"
      unfolding ls by (rule profile_sum [OF assms(1), of "\<lambda>r. if lm_is_reactivated r then 1 else 0"])
    also have "\<dots> = ?k * int (length (filter lm_is_reactivated (filter (\<lambda>r. lm_agent r = a) ls)))"
      by (simp only: count_as_sum)
    finally show ?thesis by (simp add: conj_commute)
  qed
  ultimately show ?thesis unfolding ag Let_def by blast
qed

section \<open>An agent that paused\<close>

text \<open>An agent with sales in January and in March: two streaks of one month.\<close>

definition sample_agent_month :: "string \<Rightarrow> int \<Rightarrow> agent_month" where
  "sample_agent_month m cents = \<lparr>am_scope = \<lparr>rp_import_month = m, rp_site = ''S1'', rp_locatie = ''Mall'', rp_firma = ''F'', rp_regional = ''R'',
      rp_asm = ''A'', rp_agent = ''ana''\<rparr>, am_total_sales = cents, am_total_quantity = 2, am_focus_quantity = 0, am_receipt_count = 1,
     am_receipt_2plus_count = 1, am_receipt_1_count = 0, am_receipt_2_count = 1, am_receipt_3_count = 0, am_receipt_4plus_count = 0,
     am_working_days = 1\<rparr>"

definition paused_agent :: "agent_month list" where
  "paused_agent = [sample_agent_month ''2026-01'' 1000, sample_agent_month ''2026-03'' 3000]"

definition fresh_agent :: "agent_month list" where
  "fresh_agent = [sample_agent_month ''2026-01'' 1000, sample_agent_month ''2026-04'' 3000]"

lemma sample_valid_months: "valid_months paused_agent" "valid_months fresh_agent"
  by (simp_all add: valid_months_def paused_agent_def fresh_agent_def sample_agent_month_def) code_simp+

lemma paused_agent_rebuilt:
  "map_sum id (\<lambda>(ls, ps). map pf_active_months_count ps) (rebuild_agent_lifecycle_reporting paused_agent) = Inr [4]"
  by code_simp



theorem profile_repeats_months_witness:
  "\<exists>ls p. rebuild_agent_lifecycle_reporting paused_agent = Inr (ls, [p]) \<and> pf_active_months_count p = 4
    \<and> pf_active_months_count p = int (card (island_starts (active_indices (pf_agent p) paused_agent))) * int (card (active_indices (pf_agent p) paused_agent))"
proof -
  obtain ls p where lp: "rebuild_agent_lifecycle_reporting paused_agent = Inr (ls, [p])" and c: "pf_active_months_count p = 4"
    using paused_agent_rebuilt by (cases "rebuild_agent_lifecycle_reporting paused_agent") (auto simp: map_eq_Cons_conv)
  with profile_repeats_months [OF sample_valid_months(1) lp, of p] show ?thesis by (auto simp: Let_def)
qed

end
