(* ===== verification/Filter_Scope.thy ===== *)
theory Filter_Scope
  imports Reporting_Month
begin

text \<open>
  The filters of the dashboards (\<^verbatim>\<open>domain/filter_scope.py\<close>, \<^verbatim>\<open>retail_filters.py\<close>): the values of a request,
  the parameters they bind and the SQL clauses that refer to them by position. A clause has a text and a meaning over the columns of a row;
  evaluation is partial, undefined where PostgreSQL would refuse the statement. Texts are Latin-1; the three sentinels outside
  Latin-1 (one Romanian spelling, two of its damaged forms) match none of them.
\<close>

section \<open>Values of a request\<close>

definition FILTER_SENTINELS :: "string list" where
  "FILTER_SENTINELS = map casefold ['''', ''Toate'', ''Toti'']"

datatype filter_input = No_filter | One_filter string | Many_filters "string list"

fun raw_values :: "filter_input \<Rightarrow> string list" where
  "raw_values No_filter = []"
| "raw_values (One_filter v) = [v]"
| "raw_values (Many_filters vs) = vs"

definition normalize_filter :: "string option \<Rightarrow> string option" where
  "normalize_filter v = (case v of None \<Rightarrow> None
     | Some t \<Rightarrow> let cleaned = py_strip t in if casefold cleaned \<in> set FILTER_SENTINELS then None else Some cleaned)"

fun collect_filters :: "string list \<Rightarrow> string list \<Rightarrow> string list" where
  "collect_filters [] acc = acc"
| "collect_filters (r # rs) acc = (case normalize_filter (Some r) of
     None \<Rightarrow> collect_filters rs acc
   | Some i \<Rightarrow> collect_filters rs (if i \<in> set acc then acc else acc @ [i]))"

definition normalize_filter_values :: "filter_input \<Rightarrow> string list option" where
  "normalize_filter_values v = (let vs = collect_filters (raw_values v) [] in if vs = [] then None else Some vs)"

record filter_scope =
  fs_firma :: filter_input
  fs_regional :: filter_input
  fs_asm :: filter_input
  fs_site_code :: filter_input
  fs_agent :: filter_input

section \<open>Parameters\<close>

datatype sql_param = Text_param string | Date_param sale_day | Texts_param "string list" | Ints_param "int list"

type_synonym positions = "string \<rightharpoonup> nat"

fun bind_param :: "sql_param list \<times> positions \<Rightarrow> string \<times> string list option \<Rightarrow> sql_param list \<times> positions" where
  "bind_param (params, pos) (key, None) = (params, pos)"
| "bind_param (params, pos) (key, Some vs) = (params @ [Texts_param vs], pos(key \<mapsto> length params + 1))"

definition build_scoped_params :: "sql_param list \<Rightarrow> filter_scope \<Rightarrow> sql_param list \<times> positions" where
  "build_scoped_params initial_params f =
     (let site = normalize_filter_values (fs_site_code f);
          unless_site = (\<lambda>v. if site \<noteq> None then None else normalize_filter_values v) in
      foldl bind_param (initial_params, Map.empty)
        [(''firma'', unless_site (fs_firma f)), (''regional'', unless_site (fs_regional f)), (''asm'', unless_site (fs_asm f)),
         (''site_code'', site), (''agent'', normalize_filter_values (fs_agent f))])"

definition base_filter_values :: "string \<Rightarrow> filter_scope \<Rightarrow> sql_param list \<times> positions" where
  "base_filter_values month f = build_scoped_params [Text_param month] f"

section \<open>Clauses\<close>

type_synonym sql_column = "string \<times> string"

datatype sql_clause =
    Retail_location sql_column
  | Not_cartela sql_column
  | Equals_param sql_column nat
  | Any_of_param sql_column nat
  | Either_of_param sql_column sql_column nat
  | Is_true sql_column

definition col :: "sql_column \<Rightarrow> string" where
  "col c = (if fst c = [] then snd c else fst c @ ''.'' @ snd c)"

definition any_text :: "sql_column \<Rightarrow> nat \<Rightarrow> string" where
  "any_text c n = col c @ '' = ANY($'' @ int_text (int n) @ ''::TEXT[])''"

fun clause_text :: "sql_clause \<Rightarrow> string" where
  "clause_text (Retail_location c) = col c @ '' NOT ILIKE '' @ [CHR 0x27] @ ''TR %'' @ [CHR 0x27]"
| "clause_text (Not_cartela c) = ''NOT '' @ col c"
| "clause_text (Equals_param c n) = col c @ '' = $'' @ int_text (int n)"
| "clause_text (Any_of_param c n) = any_text c n"
| "clause_text (Either_of_param c d n) = ''('' @ any_text c n @ '' OR '' @ any_text d n @ '')''"
| "clause_text (Is_true c) = col c @ '' = true''"

definition any_clause :: "positions \<Rightarrow> string \<Rightarrow> sql_column \<Rightarrow> sql_clause list" where
  "any_clause pos key c = (case pos key of None \<Rightarrow> [] | Some n \<Rightarrow> [Any_of_param c n])"

definition scoped_clauses :: "positions \<Rightarrow> string \<Rightarrow> string \<Rightarrow> string option \<Rightarrow> (sql_column \<times> nat) option \<Rightarrow> bool \<Rightarrow> sql_clause list" where
  "scoped_clauses pos site_alias store_alias agent_alias month include_cartela_filter =
     [Retail_location (store_alias, ''locatie'')]
     @ (case month of None \<Rightarrow> [] | Some (c, n) \<Rightarrow> [Equals_param c n])
     @ (if include_cartela_filter then [Not_cartela (site_alias, ''is_cartela'')] else [])
     @ (if pos ''site_code'' \<noteq> None then []
        else any_clause pos ''firma'' (store_alias, ''firma'') @ any_clause pos ''regional'' (store_alias, ''regional'')
          @ any_clause pos ''asm'' (store_alias, ''asm''))
     @ any_clause pos ''site_code'' (site_alias, ''site_code'')
     @ (case agent_alias of None \<Rightarrow> [] | Some a \<Rightarrow> any_clause pos ''agent'' (a, ''agent''))"

definition where_clauses :: "string \<Rightarrow> filter_scope \<Rightarrow> bool \<Rightarrow> sql_clause list \<times> sql_param list" where
  "where_clauses month f include_agent = (let (params, pos) = base_filter_values month f in
     (scoped_clauses pos '''' '''' (if include_agent then Some '''' else None) (Some (('''', ''import_month''), 1)) False, params))"

definition transaction_filter_parts :: "string \<Rightarrow> filter_scope \<Rightarrow> sql_clause list \<times> sql_param list" where
  "transaction_filter_parts month f = (let (params, pos) = base_filter_values month f in
     (scoped_clauses pos ''st'' ''s'' (Some ''st'') (Some ((''st'', ''import_month''), 1)) True, params))"

text \<open>\<^verbatim>\<open>_expand_current_manager_scope\<close> of \<^verbatim>\<open>services/dashboard/utils.py\<close> and \<^verbatim>\<open>_promo_scope_clauses\<close> of \<^verbatim>\<open>services/promo_copurchase.py\<close>\<close>

definition expand_current_manager_scope :: "sql_clause list \<Rightarrow> positions \<Rightarrow> string \<Rightarrow> sql_clause list" where
  "expand_current_manager_scope clauses pos store_alias = (case pos ''regional'' of
     None \<Rightarrow> clauses
   | Some n \<Rightarrow> if pos ''asm'' \<noteq> None \<or> pos ''site_code'' \<noteq> None then clauses
      else map (\<lambda>c. if c = Any_of_param (store_alias, ''regional'') n
        then Either_of_param (store_alias, ''regional'') (store_alias, ''asm'') n else c) clauses)"

definition promo_scope_clauses :: "positions \<Rightarrow> string \<Rightarrow> string option \<Rightarrow> bool \<Rightarrow> bool \<Rightarrow> bool \<Rightarrow> sql_clause list" where
  "promo_scope_clauses pos site_alias agent_alias current_scope include_closed_stores include_cartela_filter =
     (let clauses = scoped_clauses pos site_alias ''s'' agent_alias None include_cartela_filter in
      if current_scope
      then expand_current_manager_scope clauses pos ''s'' @ (if include_closed_stores then [] else [Is_true (''s'', ''is_active'')])
      else clauses)"

section \<open>Meaning\<close>

datatype sql_value = Text_value string | Bool_value bool

type_synonym sql_row = "sql_column \<Rightarrow> sql_value option"

definition param_at :: "sql_param list \<Rightarrow> nat \<Rightarrow> sql_param option" where
  "param_at params n = (if 1 \<le> n \<and> n \<le> length params then Some (params ! (n - 1)) else None)"

definition any_of :: "sql_row \<Rightarrow> sql_param list \<Rightarrow> sql_column \<Rightarrow> nat \<Rightarrow> bool option" where
  "any_of row params c n = (case (row c, param_at params n) of
     (Some (Text_value t), Some (Texts_param vs)) \<Rightarrow> Some (t \<in> set vs) | _ \<Rightarrow> None)"

fun eval_clause :: "sql_row \<Rightarrow> sql_param list \<Rightarrow> sql_clause \<Rightarrow> bool option" where
  "eval_clause row params (Retail_location c) = (case row c of Some (Text_value t) \<Rightarrow> Some (\<not> distribution_location t) | _ \<Rightarrow> None)"
| "eval_clause row params (Not_cartela c) = (case row c of Some (Bool_value v) \<Rightarrow> Some (\<not> v) | _ \<Rightarrow> None)"
| "eval_clause row params (Equals_param c n) = (case (row c, param_at params n) of
     (Some (Text_value t), Some (Text_param v)) \<Rightarrow> Some (t = v) | _ \<Rightarrow> None)"
| "eval_clause row params (Any_of_param c n) = any_of row params c n"
| "eval_clause row params (Either_of_param c d n) = (case (any_of row params c n, any_of row params d n) of
     (Some x, Some y) \<Rightarrow> Some (x \<or> y) | _ \<Rightarrow> None)"
| "eval_clause row params (Is_true c) = (case row c of Some (Bool_value v) \<Rightarrow> Some v | _ \<Rightarrow> None)"

definition where_true :: "sql_row \<Rightarrow> sql_param list \<Rightarrow> sql_clause list \<Rightarrow> bool" where
  "where_true row params cs \<longleftrightarrow> list_all (\<lambda>c. eval_clause row params c = Some True) cs"

fun placeholders :: "sql_clause \<Rightarrow> nat list" where
  "placeholders (Equals_param c n) = [n]"
| "placeholders (Any_of_param c n) = [n]"
| "placeholders (Either_of_param c d n) = [n]"
| "placeholders _ = []"

text \<open>The columns of \<^verbatim>\<open>sales_transactions st JOIN stores s\<close>, and of a table with the columns of a reporting scope.\<close>

fun transaction_row :: "sale_line \<Rightarrow> sql_row" where
  "transaction_row (t, s) c =
     (if c = (''st'', ''import_month'') then Some (Text_value (lv_import_month t))
      else if c = (''st'', ''site_code'') then Some (Text_value (lv_site t))
      else if c = (''st'', ''agent'') then Some (Text_value (lv_agent t))
      else if c = (''st'', ''is_cartela'') then Some (Bool_value (lv_is_cartela t))
      else if c = (''s'', ''locatie'') then Some (Text_value (si_locatie s))
      else if c = (''s'', ''firma'') then Some (Text_value (si_firma s))
      else if c = (''s'', ''regional'') then Some (Text_value (si_regional s))
      else if c = (''s'', ''asm'') then Some (Text_value (si_asm s))
      else if c = (''s'', ''is_active'') then Some (Bool_value (is_active s)) else None)"

text \<open>The columns of \<^verbatim>\<open>actuals a JOIN stores s\<close>\<close>

definition actuals_row :: "string \<times> store_info \<Rightarrow> sql_row" where
  "actuals_row r c =
     (if c = (''a'', ''site_code'') then Some (Text_value (fst r))
      else if c = (''s'', ''locatie'') then Some (Text_value (si_locatie (snd r)))
      else if c = (''s'', ''firma'') then Some (Text_value (si_firma (snd r)))
      else if c = (''s'', ''regional'') then Some (Text_value (si_regional (snd r)))
      else if c = (''s'', ''asm'') then Some (Text_value (si_asm (snd r)))
      else if c = (''s'', ''is_active'') then Some (Bool_value (is_active (snd r))) else None)"

definition reporting_row :: "report_scope \<Rightarrow> sql_row" where
  "reporting_row r c =
     (if c = ('''', ''import_month'') then Some (Text_value (rp_import_month r))
      else if c = ('''', ''site_code'') then Some (Text_value (rp_site r))
      else if c = ('''', ''agent'') then Some (Text_value (rp_agent r))
      else if c = ('''', ''locatie'') then Some (Text_value (rp_locatie r))
      else if c = ('''', ''firma'') then Some (Text_value (rp_firma r))
      else if c = ('''', ''regional'') then Some (Text_value (rp_regional r))
      else if c = ('''', ''asm'') then Some (Text_value (rp_asm r)) else None)"

section \<open>Normalization\<close>

lemma normalize_filter_Some: "normalize_filter (Some t) = Some i \<longleftrightarrow> i = py_strip t \<and> casefold i \<notin> set FILTER_SENTINELS"
  by (auto simp: normalize_filter_def Let_def)

lemma collect_filters_set: "set (collect_filters rs acc) = set acc \<union> {i. \<exists>r \<in> set rs. normalize_filter (Some r) = Some i}"
  by (induction rs acc rule: collect_filters.induct) (auto split: option.splits)

lemma collect_filters_distinct: "distinct acc \<Longrightarrow> distinct (collect_filters rs acc)"
  by (induction rs acc rule: collect_filters.induct) (auto split: option.splits)

definition matches :: "filter_input \<Rightarrow> string \<Rightarrow> bool" where
  "matches v x \<longleftrightarrow> (case normalize_filter_values v of None \<Rightarrow> True | Some vs \<Rightarrow> x \<in> set vs)"

text \<open>What a request selects: stores when stores are named, else companies, regions and managers; and agents.\<close>

definition in_scope :: "filter_scope \<Rightarrow> string \<Rightarrow> string \<Rightarrow> string \<Rightarrow> string \<Rightarrow> string \<Rightarrow> bool" where
  "in_scope f firma regional asm site agent \<longleftrightarrow>
     (case normalize_filter_values (fs_site_code f) of
        Some sites \<Rightarrow> site \<in> set sites
      | None \<Rightarrow> matches (fs_firma f) firma \<and> matches (fs_regional f) regional \<and> matches (fs_asm f) asm)
     \<and> matches (fs_agent f) agent"

section \<open>Bound parameters\<close>

lemma param_at_prefix: "n \<le> length ps \<Longrightarrow> param_at (ps @ qs) n = param_at ps n"
  by (auto simp: param_at_def nth_append)

lemma param_at_last [simp]: "param_at (ps @ [p]) (Suc (length ps)) = Some p"
  by (simp add: param_at_def)

lemma bind_params:
  assumes "foldl bind_param (ps, pos) kvs = (ps', pos')" and "distinct (map fst kvs)"
  shows "\<exists>qs. ps' = ps @ qs"
    and "k \<notin> fst ` set kvs \<Longrightarrow> pos' k = pos k"
    and "(k, None) \<in> set kvs \<Longrightarrow> pos' k = pos k"
    and "(k, Some vs) \<in> set kvs \<Longrightarrow> \<exists>n. pos' k = Some n \<and> length ps < n \<and> n \<le> length ps' \<and> param_at ps' n = Some (Texts_param vs)"
    and "{length ps <.. length ps'} = {n. \<exists>k vs. (k, Some vs) \<in> set kvs \<and> pos' k = Some n}"
proof -
  have "(\<exists>qs. ps' = ps @ qs) \<and> (\<forall>k. k \<notin> fst ` set kvs \<longrightarrow> pos' k = pos k) \<and> (\<forall>k. (k, None) \<in> set kvs \<longrightarrow> pos' k = pos k)
    \<and> (\<forall>k vs. (k, Some vs) \<in> set kvs \<longrightarrow> (\<exists>n. pos' k = Some n \<and> length ps < n \<and> n \<le> length ps' \<and> param_at ps' n = Some (Texts_param vs)))
    \<and> {length ps <.. length ps'} = {n. \<exists>k vs. (k, Some vs) \<in> set kvs \<and> pos' k = Some n}"
    using assms
  proof (induction kvs arbitrary: ps pos)
    case (Cons kv kvs)
    obtain k v where kv: "kv = (k, v)" by fastforce
    show ?case
    proof (cases v)
      case None
      have ih: "(\<exists>qs. ps' = ps @ qs) \<and> (\<forall>k. k \<notin> fst ` set kvs \<longrightarrow> pos' k = pos k) \<and> (\<forall>k. (k, None) \<in> set kvs \<longrightarrow> pos' k = pos k)
          \<and> (\<forall>k vs. (k, Some vs) \<in> set kvs \<longrightarrow> (\<exists>n. pos' k = Some n \<and> length ps < n \<and> n \<le> length ps' \<and> param_at ps' n = Some (Texts_param vs)))
          \<and> {length ps <.. length ps'} = {n. \<exists>k vs. (k, Some vs) \<in> set kvs \<and> pos' k = Some n}"
      proof (rule Cons.IH)
        show "foldl bind_param (ps, pos) kvs = (ps', pos')" using Cons.prems(1) by (simp add: kv None)
        show "distinct (map fst kvs)" using Cons.prems(2) by simp
      qed
      have mem: "(k', Some v') \<in> set (kv # kvs) \<longleftrightarrow> (k', Some v') \<in> set kvs" for k' v' using kv None by auto
      have "pos' k = pos k" using ih Cons.prems(2) kv by simp
      then have "\<forall>k'. (k', None) \<in> set (kv # kvs) \<longrightarrow> pos' k' = pos k'" using ih kv by auto
      with ih show ?thesis unfolding mem by simp
    next
      case (Some vs)
      let ?ps = "ps @ [Texts_param vs]" and ?pos = "pos(k \<mapsto> length ps + 1)"
      have step: "foldl bind_param (?ps, ?pos) kvs = (ps', pos')" using Cons.prems(1) by (simp add: kv Some)
      have d: "distinct (map fst kvs)" using Cons.prems(2) by simp
      have ih: "\<exists>qs. ps' = ?ps @ qs" "\<And>k'. k' \<notin> fst ` set kvs \<Longrightarrow> pos' k' = ?pos k'" "\<And>k'. (k', None) \<in> set kvs \<Longrightarrow> pos' k' = ?pos k'"
        "\<And>k' ws. (k', Some ws) \<in> set kvs \<Longrightarrow> \<exists>n. pos' k' = Some n \<and> length ?ps < n \<and> n \<le> length ps' \<and> param_at ps' n = Some (Texts_param ws)"
        "{length ?ps <.. length ps'} = {n. \<exists>k vs. (k, Some vs) \<in> set kvs \<and> pos' k = Some n}"
        using Cons.IH [OF step d] by blast+
      have k: "pos' k = Some (length ps + 1)" using ih(2) [of k] Cons.prems(2) kv by simp
      obtain qs where qs: "ps' = ?ps @ qs" using ih(1) by blast
      have "param_at ps' (length ps + 1) = Some (Texts_param vs)" unfolding qs by (subst param_at_prefix) simp_all
      then have at: "length ps < length ps + 1 \<and> length ps + 1 \<le> length ps' \<and> param_at ps' (length ps + 1) = Some (Texts_param vs)"
        using qs by simp
      have fresh: "k \<notin> fst ` set kvs" using Cons.prems(2) kv by simp
      have mem: "(k', v') \<in> set (kv # kvs) \<longleftrightarrow> (k' = k \<and> v' = Some vs) \<or> (k', v') \<in> set kvs" for k' v' using kv Some by auto
      have "\<exists>n. pos' k' = Some n \<and> length ps < n \<and> n \<le> length ps' \<and> param_at ps' n = Some (Texts_param ws)"
        if "(k', Some ws) \<in> set (kv # kvs)" for k' ws
      proof (cases "k' = k \<and> ws = vs")
        case True
        with k at show ?thesis by blast
      next
        case False
        then have "(k', Some ws) \<in> set kvs" using that [unfolded mem] by blast
        from ih(4) [OF this] show ?thesis by (metis Suc_lessD length_append_singleton)
      qed
      moreover have "pos' k' = pos k'" if "(k', None) \<in> set (kv # kvs)" for k'
        using that [unfolded mem] ih(3) [of k'] fresh by (cases "k' = k") (auto simp: rev_image_eqI)
      moreover have "{length ps <.. length ps'} = insert (length ps + 1) {length ?ps <.. length ps'}" using qs by auto
      then have "{length ps <.. length ps'} = {n. \<exists>k vs. (k, Some vs) \<in> set (kv # kvs) \<and> pos' k = Some n}"
        unfolding ih(5) mem using k by auto
      moreover have "pos' k' = pos k'" if "k' \<notin> fst ` set (kv # kvs)" for k' using that ih(2) [of k'] kv by simp
      ultimately show ?thesis using qs by (intro conjI) auto
    qed
  qed (auto simp: param_at_def)
  then show "\<exists>qs. ps' = ps @ qs" "k \<notin> fst ` set kvs \<Longrightarrow> pos' k = pos k" "(k, None) \<in> set kvs \<Longrightarrow> pos' k = pos k"
    "(k, Some vs) \<in> set kvs \<Longrightarrow> \<exists>n. pos' k = Some n \<and> length ps < n \<and> n \<le> length ps' \<and> param_at ps' n = Some (Texts_param vs)"
    "{length ps <.. length ps'} = {n. \<exists>k vs. (k, Some vs) \<in> set kvs \<and> pos' k = Some n}"
    by blast+
qed

text \<open>What a key binds.\<close>

definition scope_value :: "filter_scope \<Rightarrow> string \<Rightarrow> string list option" where
  "scope_value f k = (let site = normalize_filter_values (fs_site_code f) in
     if k = ''site_code'' then site else if k = ''agent'' then normalize_filter_values (fs_agent f)
     else if site \<noteq> None then None
     else if k = ''firma'' then normalize_filter_values (fs_firma f)
     else if k = ''regional'' then normalize_filter_values (fs_regional f)
     else if k = ''asm'' then normalize_filter_values (fs_asm f) else None)"

definition scope_keys :: "string list" where
  "scope_keys = [''firma'', ''regional'', ''asm'', ''site_code'', ''agent'']"

lemma build_scoped_params_fold:
  "build_scoped_params ps f = foldl bind_param (ps, Map.empty) (map (\<lambda>k. (k, scope_value f k)) scope_keys)"
  by (simp add: build_scoped_params_def scope_value_def scope_keys_def Let_def)

lemma scope_value_other: "k \<notin> set scope_keys \<Longrightarrow> scope_value f k = None"
  by (auto simp: scope_value_def scope_keys_def)

lemma scoped_params:
  assumes "build_scoped_params ps f = (ps', pos)"
  shows "\<exists>qs. ps' = ps @ qs"
    and "pos k = None \<longleftrightarrow> scope_value f k = None"
    and "pos k = Some n \<Longrightarrow> n \<le> length ps' \<and> (\<exists>vs. scope_value f k = Some vs \<and> param_at ps' n = Some (Texts_param vs))"
    and "{length ps <.. length ps'} = {n. \<exists>k \<in> set scope_keys. pos k = Some n}"
proof -
  let ?kvs = "map (\<lambda>k. (k, scope_value f k)) scope_keys"
  have d: "distinct (map fst ?kvs)" by (simp add: scope_keys_def comp_def)
  note b = bind_params [OF assms [unfolded build_scoped_params_fold] d]
  show "\<exists>qs. ps' = ps @ qs" by (rule b(1))
  have none: "pos k = None" if "scope_value f k = None" for k
    using b(2) [of k] b(3) [of k] that by (cases "k \<in> set scope_keys") (force simp: image_iff)+
  have some: "\<exists>n. pos k = Some n \<and> length ps < n \<and> n \<le> length ps' \<and> param_at ps' n = Some (Texts_param vs)" if "scope_value f k = Some vs" for k vs
    using b(4) [of k vs] that scope_value_other [of k f] by fastforce
  show "pos k = None \<longleftrightarrow> scope_value f k = None" using none [of k] some [of k] by (cases "scope_value f k") auto
  show "n \<le> length ps' \<and> (\<exists>vs. scope_value f k = Some vs \<and> param_at ps' n = Some (Texts_param vs))" if "pos k = Some n"
    using that none [of k] some [of k] by (cases "scope_value f k") auto
  have "(\<exists>k vs. (k, Some vs) \<in> set ?kvs \<and> pos k = Some n) \<longleftrightarrow> (\<exists>k \<in> set scope_keys. pos k = Some n)" for n
  proof
    assume "\<exists>k \<in> set scope_keys. pos k = Some n"
    then obtain k where k: "k \<in> set scope_keys" "pos k = Some n" by blast
    then obtain vs where "scope_value f k = Some vs" using none [of k] by (cases "scope_value f k") auto
    with k show "\<exists>k vs. (k, Some vs) \<in> set ?kvs \<and> pos k = Some n" by force
  qed auto
  then show "{length ps <.. length ps'} = {n. \<exists>k \<in> set scope_keys. pos k = Some n}" using b(5) by simp
qed

section \<open>Well-typed clauses\<close>

datatype column_type = Text_column | Bool_column

fun value_type :: "sql_value \<Rightarrow> column_type" where
  "value_type (Text_value t) = Text_column"
| "value_type (Bool_value v) = Bool_column"

definition texts_at :: "sql_param list \<Rightarrow> nat \<Rightarrow> bool" where
  "texts_at params n \<longleftrightarrow> (\<exists>vs. param_at params n = Some (Texts_param vs))"

text \<open>A clause fits the columns of a table and the bound parameters.\<close>

fun clause_typed :: "(sql_column \<Rightarrow> column_type option) \<Rightarrow> sql_param list \<Rightarrow> sql_clause \<Rightarrow> bool" where
  "clause_typed T ps (Retail_location c) \<longleftrightarrow> T c = Some Text_column"
| "clause_typed T ps (Not_cartela c) \<longleftrightarrow> T c = Some Bool_column"
| "clause_typed T ps (Equals_param c n) \<longleftrightarrow> T c = Some Text_column \<and> (\<exists>v. param_at ps n = Some (Text_param v))"
| "clause_typed T ps (Any_of_param c n) \<longleftrightarrow> T c = Some Text_column \<and> texts_at ps n"
| "clause_typed T ps (Either_of_param c d n) \<longleftrightarrow> T c = Some Text_column \<and> T d = Some Text_column \<and> texts_at ps n"
| "clause_typed T ps (Is_true c) \<longleftrightarrow> T c = Some Bool_column"

definition row_typed :: "(sql_column \<Rightarrow> column_type option) \<Rightarrow> sql_row \<Rightarrow> bool" where
  "row_typed T row \<longleftrightarrow> (\<forall>c t. T c = Some t \<longrightarrow> (\<exists>v. row c = Some v \<and> value_type v = t))"

lemma row_typedD:
  "row_typed T row \<Longrightarrow> T c = Some Text_column \<Longrightarrow> \<exists>t. row c = Some (Text_value t)"
  "row_typed T row \<Longrightarrow> T c = Some Bool_column \<Longrightarrow> \<exists>v. row c = Some (Bool_value v)"
  unfolding row_typed_def by (metis column_type.distinct(1) value_type.elims)+

lemma any_of_typed: "row_typed T row \<Longrightarrow> T c = Some Text_column \<Longrightarrow> texts_at ps n \<Longrightarrow> \<exists>v. any_of row ps c n = Some v"
  by (drule row_typedD(1), assumption) (auto simp: any_of_def texts_at_def)

lemma typed_not_stuck:
  assumes r: "row_typed T row" and c: "clause_typed T ps c"
  shows "\<exists>v. eval_clause row ps c = Some v"
proof (cases c)
  case (Retail_location c)
  with c row_typedD(1) [OF r, of c] show ?thesis by auto
next
  case (Not_cartela c)
  with c row_typedD(2) [OF r, of c] show ?thesis by auto
next
  case (Equals_param c n)
  with c row_typedD(1) [OF r, of c] show ?thesis by auto
next
  case (Any_of_param c n)
  with c any_of_typed [OF r] show ?thesis by auto
next
  case (Either_of_param c d n)
  with c any_of_typed [OF r, of c ps n] any_of_typed [OF r, of d ps n] show ?thesis by auto
next
  case (Is_true c)
  with c row_typedD(2) [OF r, of c] show ?thesis by auto
qed

text \<open>The columns the filters use.\<close>

definition transaction_columns :: "sql_column \<Rightarrow> column_type option" where
  "transaction_columns c =
     (if c = (''st'', ''import_month'') then Some Text_column
      else if c = (''st'', ''site_code'') then Some Text_column
      else if c = (''st'', ''agent'') then Some Text_column
      else if c = (''st'', ''is_cartela'') then Some Bool_column
      else if c = (''s'', ''locatie'') then Some Text_column
      else if c = (''s'', ''firma'') then Some Text_column
      else if c = (''s'', ''regional'') then Some Text_column
      else if c = (''s'', ''asm'') then Some Text_column
      else if c = (''s'', ''is_active'') then Some Bool_column else None)"

definition actuals_columns :: "sql_column \<Rightarrow> column_type option" where
  "actuals_columns c =
     (if c = (''a'', ''site_code'') then Some Text_column
      else if c = (''s'', ''locatie'') then Some Text_column
      else if c = (''s'', ''firma'') then Some Text_column
      else if c = (''s'', ''regional'') then Some Text_column
      else if c = (''s'', ''asm'') then Some Text_column
      else if c = (''s'', ''is_active'') then Some Bool_column else None)"

definition reporting_columns :: "sql_column \<Rightarrow> column_type option" where
  "reporting_columns c = (if fst c = '''' \<and> snd c \<in> {''import_month'', ''site_code'', ''agent'', ''locatie'', ''firma'', ''regional'', ''asm''}
     then Some Text_column else None)"

lemma transaction_row_typed: "row_typed transaction_columns (transaction_row r)"
proof -
  have "transaction_columns c = map_option value_type (transaction_row r c)" for c
    unfolding transaction_columns_def by (cases r) (simp only: transaction_row.simps if_distrib [of "map_option value_type"] option.map value_type.simps)
  then show ?thesis by (auto simp: row_typed_def)
qed

lemma actuals_row_typed: "row_typed actuals_columns (actuals_row r)"
proof -
  have "actuals_columns c = map_option value_type (actuals_row r c)" for c
    unfolding actuals_columns_def actuals_row_def by (simp only: if_distrib [of "map_option value_type"] option.map value_type.simps)
  then show ?thesis by (auto simp: row_typed_def)
qed

lemma reporting_row_typed: "row_typed reporting_columns (reporting_row r)"
  by (auto simp: row_typed_def reporting_columns_def reporting_row_def split: if_split_asm)

lemma any_clause_typed:
  assumes "build_scoped_params ps f = (ps', pos)" and "T c = Some Text_column"
  shows "list_all (clause_typed T ps') (any_clause pos k c)"
  using scoped_params(3) [OF assms(1), of k] assms(2) by (auto simp: any_clause_def texts_at_def split: option.splits)

definition scope_columns :: "(sql_column \<Rightarrow> column_type option) \<Rightarrow> string \<Rightarrow> string \<Rightarrow> string option \<Rightarrow> bool" where
  "scope_columns T site_alias store_alias agent_alias \<longleftrightarrow>
     list_all (\<lambda>n. T (store_alias, n) = Some Text_column) [''locatie'', ''firma'', ''regional'', ''asm''] \<and> T (site_alias, ''site_code'') = Some Text_column
     \<and> (case agent_alias of None \<Rightarrow> True | Some a \<Rightarrow> T (a, ''agent'') = Some Text_column)"

lemma scoped_clauses_typed:
  assumes "build_scoped_params ps f = (ps', pos)" and "scope_columns T site_alias store_alias agent_alias"
    and "case month of None \<Rightarrow> True | Some (c, n) \<Rightarrow> clause_typed T ps' (Equals_param c n)"
    and "cartela \<longrightarrow> T (site_alias, ''is_cartela'') = Some Bool_column"
  shows "list_all (clause_typed T ps') (scoped_clauses pos site_alias store_alias agent_alias month cartela)"
  using assms any_clause_typed [OF assms(1)] by (auto simp: scoped_clauses_def scope_columns_def split: option.splits)

lemma expand_typed:
  assumes "build_scoped_params ps f = (ps', pos)" and "list_all (clause_typed T ps') cs"
    and "T (a, ''regional'') = Some Text_column" and "T (a, ''asm'') = Some Text_column"
  shows "list_all (clause_typed T ps') (expand_current_manager_scope cs pos a)"
  using assms scoped_params(3) [OF assms(1), of "''regional''"]
  by (auto simp: expand_current_manager_scope_def list_all_iff texts_at_def split: option.splits)

section \<open>Placeholders\<close>

definition used :: "sql_clause list \<Rightarrow> nat set" where
  "used cs = set (concat (map placeholders cs))"

lemma used_simps [simp]: "used [] = {}" "used (c # cs) = set (placeholders c) \<union> used cs" "used (cs @ ds) = used cs \<union> used ds"
  by (auto simp: used_def)

lemma used_any: "used (any_clause pos k c) = {n. pos k = Some n}"
  by (auto simp: any_clause_def split: option.splits)

lemma used_expand: "used (expand_current_manager_scope cs pos a) = used cs"
proof -
  have "map placeholders (map (\<lambda>c. if c = Any_of_param r n then Either_of_param r d n else c) cs) = map placeholders cs" for r d n
    by simp
  then show ?thesis unfolding expand_current_manager_scope_def used_def by (auto split: option.splits)
qed

lemma used_scoped:
  assumes b: "build_scoped_params ps f = (ps', pos)"
  shows "used (scoped_clauses pos site_alias store_alias agent_alias month cartela)
    = (case month of None \<Rightarrow> {} | Some (c, n) \<Rightarrow> {n}) \<union> {n. \<exists>k \<in> set scope_keys. pos k = Some n \<and> (k = ''agent'' \<longrightarrow> agent_alias \<noteq> None)}"
proof -
  have "pos k = None" if "pos ''site_code'' \<noteq> None" "k \<in> {''firma'', ''regional'', ''asm''}" for k
    using that scoped_params(2) [OF b] by (auto simp: scope_value_def Let_def)
  then show ?thesis by (auto simp: scoped_clauses_def scope_keys_def used_any split: option.splits)
qed

section \<open>Filters in use\<close>

lemma base_bound: "base_filter_values month f = (ps, pos) \<Longrightarrow> param_at ps 1 = Some (Text_param month)"
  using scoped_params(1) [of "[Text_param month]" f ps pos] by (auto simp: base_filter_values_def param_at_def)

lemma bound_range:
  assumes "base_filter_values month f = (ps, pos)"
  shows "insert 1 {n. \<exists>k \<in> set scope_keys. pos k = Some n} = {1..length ps}"
proof -
  note b = assms [unfolded base_filter_values_def]
  have "1 \<le> length ps" using scoped_params(1) [OF b] by auto
  then show ?thesis unfolding scoped_params(4) [OF b, symmetric] by auto
qed

lemma typed_progress: "row_typed T row \<Longrightarrow> list_all (clause_typed T ps) cs \<Longrightarrow> list_all (\<lambda>c. eval_clause row ps c \<noteq> None) cs"
  using typed_not_stuck by (fastforce simp: list_all_iff)

lemma transaction_scope: "scope_columns transaction_columns ''st'' ''s'' (Some ''st'')" "scope_columns transaction_columns ''st'' ''s'' None"
  "transaction_columns (''st'', ''is_cartela'') = Some Bool_column" "transaction_columns (''st'', ''import_month'') = Some Text_column"
  "transaction_columns (''s'', ''is_active'') = Some Bool_column" "transaction_columns (''s'', ''regional'') = Some Text_column"
  "transaction_columns (''s'', ''asm'') = Some Text_column"
  by (simp_all add: scope_columns_def transaction_columns_def)

lemma reporting_scope: "scope_columns reporting_columns '''' '''' (Some '''')" "scope_columns reporting_columns '''' '''' None"
  "reporting_columns ('''', ''import_month'') = Some Text_column"
  by (simp_all add: scope_columns_def reporting_columns_def)

lemma actuals_scope: "scope_columns actuals_columns ''a'' ''s'' None" "actuals_columns (''s'', ''is_active'') = Some Bool_column"
  "actuals_columns (''s'', ''regional'') = Some Text_column" "actuals_columns (''s'', ''asm'') = Some Text_column"
  by (simp_all add: scope_columns_def actuals_columns_def)

lemma transaction_parts_typed:
  assumes "transaction_filter_parts month f = (cs, ps)"
  shows "list_all (clause_typed transaction_columns ps) cs" and "used cs = {1..length ps}"
proof -
  obtain pos where b: "base_filter_values month f = (ps, pos)"
    and cs: "cs = scoped_clauses pos ''st'' ''s'' (Some ''st'') (Some ((''st'', ''import_month''), 1)) True"
    using assms by (auto simp: transaction_filter_parts_def split: prod.splits)
  note b' = b [unfolded base_filter_values_def]
  show "list_all (clause_typed transaction_columns ps) cs"
    unfolding cs by (rule scoped_clauses_typed [OF b' transaction_scope(1)]) (simp_all add: base_bound [OF b, unfolded One_nat_def] transaction_scope)
  show "used cs = {1..length ps}" unfolding cs used_scoped [OF b'] bound_range [OF b, symmetric] by auto
qed

lemma where_parts_typed:
  assumes "where_clauses month f include_agent = (cs, ps)"
  shows "list_all (clause_typed reporting_columns ps) cs"
    and "include_agent \<or> normalize_filter_values (fs_agent f) = None \<Longrightarrow> used cs = {1..length ps}"
proof -
  obtain pos where b: "base_filter_values month f = (ps, pos)"
    and cs: "cs = scoped_clauses pos '''' '''' (if include_agent then Some '''' else None) (Some (('''', ''import_month''), 1)) False"
    using assms by (auto simp: where_clauses_def split: prod.splits)
  note b' = b [unfolded base_filter_values_def]
  have "scope_columns reporting_columns '''' '''' (if include_agent then Some '''' else None)" using reporting_scope by simp
  from scoped_clauses_typed [OF b' this, of "Some (('''', ''import_month''), 1)" False] show "list_all (clause_typed reporting_columns ps) cs"
    unfolding cs by (simp add: base_bound [OF b, unfolded One_nat_def] reporting_scope)
  assume "include_agent \<or> normalize_filter_values (fs_agent f) = None"
  then have "include_agent \<or> pos ''agent'' = None" using scoped_params(2) [OF b', of "''agent''"] by (simp add: scope_value_def Let_def)
  then have "(\<exists>k \<in> set scope_keys. pos k = Some n \<and> (k = ''agent'' \<longrightarrow> include_agent)) \<longleftrightarrow> (\<exists>k \<in> set scope_keys. pos k = Some n)" for n by auto
  then show "used cs = {1..length ps}" unfolding cs used_scoped [OF b'] bound_range [OF b, symmetric] by (auto simp: if_split_eq1)
qed

lemma promo_parts_typed:
  assumes b: "build_scoped_params ps0 f = (ps, pos)"
  shows "list_all (clause_typed transaction_columns ps) (promo_scope_clauses pos ''st'' (Some ''st'') current closed_too cartela)"
    and "used (promo_scope_clauses pos ''st'' (Some ''st'') current closed_too cartela) = {length ps0 <.. length ps}"
proof -
  have t: "list_all (clause_typed transaction_columns ps) (scoped_clauses pos ''st'' ''s'' (Some ''st'') None cartela)"
    by (rule scoped_clauses_typed [OF b transaction_scope(1)]) (simp_all add: transaction_scope)
  show "list_all (clause_typed transaction_columns ps) (promo_scope_clauses pos ''st'' (Some ''st'') current closed_too cartela)"
    using t expand_typed [OF b t, of "''s''"] by (simp add: promo_scope_clauses_def Let_def transaction_scope)
  show "used (promo_scope_clauses pos ''st'' (Some ''st'') current closed_too cartela) = {length ps0 <.. length ps}"
    using used_scoped [OF b, of "''st''" "''s''" "Some ''st''" None cartela]
    by (auto simp: promo_scope_clauses_def Let_def used_expand scoped_params(4) [OF b])
qed

lemma actuals_parts_typed:
  assumes b: "build_scoped_params ps0 f = (ps, pos)" and agent: "normalize_filter_values (fs_agent f) = None"
  shows "list_all (clause_typed actuals_columns ps) (promo_scope_clauses pos ''a'' None current closed_too False)"
    and "used (promo_scope_clauses pos ''a'' None current closed_too False) = {length ps0 <.. length ps}"
proof -
  have t: "list_all (clause_typed actuals_columns ps) (scoped_clauses pos ''a'' ''s'' None None False)"
    by (rule scoped_clauses_typed [OF b actuals_scope(1)]) simp_all
  show "list_all (clause_typed actuals_columns ps) (promo_scope_clauses pos ''a'' None current closed_too False)"
    using t expand_typed [OF b t, of "''s''"] by (simp add: promo_scope_clauses_def Let_def actuals_scope)
  have none: "pos ''agent'' = None" using agent scoped_params(2) [OF b, of "''agent''"] by (simp add: scope_value_def Let_def)
  then have "(\<exists>k \<in> set scope_keys. pos k = Some n \<and> k \<noteq> ''agent'') \<longleftrightarrow> (\<exists>k \<in> set scope_keys. pos k = Some n)" for n by auto
  then show "used (promo_scope_clauses pos ''a'' None current closed_too False) = {length ps0 <.. length ps}"
    using used_scoped [OF b, of "''a''" "''s''" None None False]
    by (auto simp: promo_scope_clauses_def Let_def used_expand scoped_params(4) [OF b])
qed

text \<open>
  C16: the clauses of a filter fit the statement they are put in. Whatever the request and the row, every
  clause evaluates: the columns exist with the type used, and every placeholder refers to a bound parameter of the right type. The
  placeholders are exactly the numbers of the bound parameters, so a statement is never sent with one too many or too few;
  the agent's values may be bound without their clause only where a caller passes no agent.
\<close>

theorem filter_placeholders_typed:
  "(let (cs, ps) = transaction_filter_parts month f in
      list_all (\<lambda>c. eval_clause (transaction_row r) ps c \<noteq> None) cs \<and> used cs = {1..length ps})
   \<and> (let (cs, ps) = where_clauses month f True in
      list_all (\<lambda>c. eval_clause (reporting_row scope) ps c \<noteq> None) cs \<and> used cs = {1..length ps})
   \<and> (let (cs, ps) = where_clauses month (f\<lparr>fs_agent := No_filter\<rparr>) False in
      list_all (\<lambda>c. eval_clause (reporting_row scope) ps c \<noteq> None) cs \<and> used cs = {1..length ps})
   \<and> (let (ps, pos) = build_scoped_params initial f; cs = promo_scope_clauses pos ''st'' (Some ''st'') current closed_too True in
      list_all (\<lambda>c. eval_clause (transaction_row r) ps c \<noteq> None) cs \<and> used cs = {length initial <.. length ps})
   \<and> (let (ps, pos) = build_scoped_params initial (f\<lparr>fs_agent := No_filter\<rparr>); cs = promo_scope_clauses pos ''a'' None current closed_too False in
      list_all (\<lambda>c. eval_clause (actuals_row x) ps c \<noteq> None) cs \<and> used cs = {length initial <.. length ps})"
proof -
  have "normalize_filter_values No_filter = None" by (simp add: normalize_filter_values_def)
  then show ?thesis
    using typed_progress [OF transaction_row_typed transaction_parts_typed(1)] transaction_parts_typed(2)
      typed_progress [OF reporting_row_typed where_parts_typed(1)] where_parts_typed(2) promo_parts_typed
      typed_progress [OF transaction_row_typed promo_parts_typed(1)] typed_progress [OF actuals_row_typed actuals_parts_typed(1)] actuals_parts_typed(2)
    by (auto split: prod.splits simp: Let_def)
qed

section \<open>Rows in scope\<close>

lemma where_true_simps [simp]:
  "where_true row ps []" "where_true row ps (c # cs) \<longleftrightarrow> eval_clause row ps c = Some True \<and> where_true row ps cs"
  "where_true row ps (cs @ ds) \<longleftrightarrow> where_true row ps cs \<and> where_true row ps ds"
  by (auto simp: where_true_def)

lemma any_clause_true:
  assumes "build_scoped_params ps0 f = (ps, pos)" and "row c = Some (Text_value t)"
  shows "where_true row ps (any_clause pos k c) \<longleftrightarrow> (case scope_value f k of None \<Rightarrow> True | Some vs \<Rightarrow> t \<in> set vs)"
  using scoped_params(2,3) [OF assms(1), of k] assms(2) by (cases "pos k") (auto simp: any_clause_def any_of_def)

lemma scoped_true:
  assumes b: "build_scoped_params ps0 f = (ps, pos)"
    and row: "row (store_alias, ''locatie'') = Some (Text_value locatie)" "row (store_alias, ''firma'') = Some (Text_value firma)"
      "row (store_alias, ''regional'') = Some (Text_value regional)" "row (store_alias, ''asm'') = Some (Text_value asm)"
      "row (site_alias, ''site_code'') = Some (Text_value site)" "row (agent_alias, ''agent'') = Some (Text_value agent)"
  shows "where_true row ps (scoped_clauses pos site_alias store_alias (Some agent_alias) month cartela) \<longleftrightarrow>
    \<not> distribution_location locatie \<and> (case month of None \<Rightarrow> True | Some (c, n) \<Rightarrow> eval_clause row ps (Equals_param c n) = Some True)
    \<and> (cartela \<longrightarrow> eval_clause row ps (Not_cartela (site_alias, ''is_cartela'')) = Some True) \<and> in_scope f firma regional asm site agent"
proof -
  note any = any_clause_true [OF b, of row]
  show ?thesis
    by (cases "normalize_filter_values (fs_site_code f)")
      (auto simp: scoped_clauses_def any row scoped_params(2) [OF b, of "''site_code''"] scope_value_def in_scope_def matches_def Let_def
        split: option.splits)
qed

text \<open>
  C37: what the filters select. The clauses of a month's transactions hold of a sale exactly when it is of
  the month, of a retail location, no phone card, and in the scope of the request: when stores are named these alone decide, and otherwise
  company, region and manager; then the agent. A value that is blank or a sentinel selects everything, and names are compared after
  trimming.
\<close>

theorem filter_selects_scope:
  "(let (cs, ps) = transaction_filter_parts month f in where_true (transaction_row (t, s)) ps cs)
     \<longleftrightarrow> lv_import_month t = month \<and> \<not> distribution_location (si_locatie s) \<and> \<not> lv_is_cartela t
       \<and> in_scope f (si_firma s) (si_regional s) (si_asm s) (lv_site t) (lv_agent t)"
proof -
  obtain ps pos where b: "base_filter_values month f = (ps, pos)" by fastforce
  show ?thesis
    using scoped_true [OF b [unfolded base_filter_values_def], of "transaction_row (t, s)" "''s''" "si_locatie s" "si_firma s" "si_regional s" "si_asm s" "''st''" "lv_site t" "''st''" "lv_agent t"
      "Some ((''st'', ''import_month''), 1)" True] base_bound [OF b]
    by (auto simp: transaction_filter_parts_def b)
qed

end
