(* ===== verification/Promo_Rules.thy ===== *)
theory Promo_Rules
  imports Filter_Scope Promo_Allocation
begin

text \<open>
  The rules of promotions (\<^verbatim>\<open>services/promo_copurchase.py\<close>, \<^verbatim>\<open>services/promo_same_model.py\<close>, \<^verbatim>\<open>services/promo_types.py\<close>): the
  receipts that qualify for a discount and the one unit of each that is discounted. Prices are cents; sales are listed by \<^verbatim>\<open>id\<close>, so that the stable
  sort breaks the last tie as the statements do. The collation of item codes is an argument.
\<close>

section \<open>Results\<close>

type_synonym unit_key = "string \<times> string \<times> string"

record promo_result =
  qualifying_bons :: int
  discounted_units :: int
  active_stores :: int
  active_agents :: int
  excluded_units :: "(unit_key \<times> int) list"
  excluded_discount_values :: "(unit_key \<times> rat) list"

definition empty_promo_result :: promo_result where
  "empty_promo_result = \<lparr>qualifying_bons = 0, discounted_units = 0, active_stores = 0, active_agents = 0,
     excluded_units = [], excluded_discount_values = []\<rparr>"

definition dict_value :: "'k \<Rightarrow> 'v \<Rightarrow> ('k \<times> 'v) list \<Rightarrow> 'v" where
  "dict_value k dflt d = (case map_of d k of None \<Rightarrow> dflt | Some v \<Rightarrow> v)"

definition result_from_metrics :: "(unit_key \<times> int) list \<Rightarrow> (unit_key \<times> rat) list \<Rightarrow> promo_result" where
  "result_from_metrics units discounts =
     (let total_units = sum_list (map snd units) in
      \<lparr>qualifying_bons = total_units, discounted_units = total_units,
       active_stores = int (card (set (map (\<lambda>((site, agent, item), n). site) units))),
       active_agents = int (card (set (filter (\<lambda>a. a \<noteq> '''' \<and> a \<noteq> ''-'') (map (\<lambda>((site, agent, item), n). agent) units)))),
       excluded_units = units, excluded_discount_values = discounts\<rparr>)"

definition excluded_by_site_item :: "promo_result \<Rightarrow> ((string \<times> string) \<times> int) list" where
  "excluded_by_site_item r = fold (\<lambda>((site, agent, item), n) d. dict_set (site, item) (dict_value (site, item) 0 d + n) d) (excluded_units r) []"

text \<open>Sums of decimals round to the context.\<close>

definition add_discount :: "unit_key \<Rightarrow> rat \<Rightarrow> (unit_key \<times> rat) list \<Rightarrow> (unit_key \<times> rat) list" where
  "add_discount k v d = dict_set k (dec_ctx DEFAULT_PREC (dict_value k 0 d + v)) d"

definition add_units :: "unit_key \<Rightarrow> int \<Rightarrow> (unit_key \<times> int) list \<Rightarrow> (unit_key \<times> int) list" where
  "add_units k n d = dict_set k (dict_value k 0 d + n) d"

definition discount_value :: "promo_result \<Rightarrow> rat" where
  "discount_value r = foldl (\<lambda>acc v. dec_ctx DEFAULT_PREC (acc + v)) 0 (map snd (excluded_discount_values r))"

definition merge_promo_results :: "promo_result option list \<Rightarrow> promo_result" where
  "merge_promo_results results =
     (let rs = List.map_filter id results in
      result_from_metrics (fold (\<lambda>r d. fold (\<lambda>(k, n). add_units k n) (excluded_units r) d) rs [])
        (fold (\<lambda>r d. fold (\<lambda>(k, v). add_discount k v) (excluded_discount_values r) d) rs []))"

section \<open>Lines\<close>

record promo_query =
  pq_month :: string
  pq_start :: sale_day
  pq_end :: sale_day
  pq_scope :: filter_scope
  pq_current_scope :: bool
  pq_include_closed_stores :: bool
  pq_discount_rate :: rat

definition promo_where :: "promo_query \<Rightarrow> sql_param list \<Rightarrow> sale_line \<Rightarrow> bool" where
  "promo_where q initial l = (let (params, pos) = build_scoped_params initial (pq_scope q) in
     where_true (transaction_row l) params
       (promo_scope_clauses pos ''st'' (Some ''st'') (pq_current_scope q) (pq_include_closed_stores q) True))"

definition promo_lines :: "promo_query \<Rightarrow> sql_param list \<Rightarrow> (string \<Rightarrow> bool) \<Rightarrow> live_row list \<Rightarrow> store_info list \<Rightarrow> sale_line list" where
  "promo_lines q codes item_ok live stores =
     filter (\<lambda>l. pq_start q \<le> lv_sale_date (fst l) \<and> lv_sale_date (fst l) \<le> pq_end q \<and> \<not> lv_is_return (fst l) \<and> item_ok (lv_item_code (fst l))
         \<and> promo_where q ([Text_param (pq_month q), Date_param (pq_start q), Date_param (pq_end q)] @ codes) l)
       (sales_join (pq_month q) live stores)"

type_synonym bon_key = "sale_day \<times> string \<times> string \<times> string"

definition bon_of :: "sale_line \<Rightarrow> bon_key" where
  "bon_of l = (lv_sale_date (fst l), lv_site (fst l), lv_agent (fst l), lv_bon_nr (fst l))"

definition unit_of :: "sale_line \<Rightarrow> unit_key" where
  "unit_of l = (lv_site (fst l), lv_agent (fst l), lv_item_code (fst l))"

definition item_in :: "string list \<Rightarrow> sale_line \<Rightarrow> bool" where
  "item_in codes l \<longleftrightarrow> lv_item_code (fst l) \<in> set codes"

definition pos_qty :: "sale_line \<Rightarrow> int" where
  "pos_qty l = (if 0 < lv_quantity (fst l) then lv_quantity (fst l) else 0)"

section \<open>One discounted unit per receipt\<close>

definition bon_totals :: "(sale_line list \<Rightarrow> bool) \<Rightarrow> sale_line list \<Rightarrow> bon_key list" where
  "bon_totals qualifies ls = map fst (filter (\<lambda>(k, g). qualifies g) (group_rows bon_of ls))"

text \<open>\<^verbatim>\<open>DISTINCT ON (bon) ... ORDER BY bon, unit_price, item_code, id\<close>\<close>

definition discounted :: "(string \<Rightarrow> string) \<Rightarrow> (sale_line list \<Rightarrow> bool) \<Rightarrow> (sale_line \<Rightarrow> bool) \<Rightarrow> sale_line list \<Rightarrow> sale_line list" where
  "discounted collate qualifies selected ls =
     rollup_rows bon_of (\<lambda>k g. hd (sort_key (\<lambda>l. (lv_unit_price (fst l), collate (lv_item_code (fst l)))) g))
       (filter (\<lambda>l. bon_of l \<in> set (bon_totals qualifies ls) \<and> selected l \<and> 0 < pos_qty l) ls)"

type_synonym discounted_row = "unit_key \<times> int \<times> int"

definition discounted_rows :: "sale_line list \<Rightarrow> discounted_row list" where
  "discounted_rows ls = rollup_rows unit_of (\<lambda>k g. (k, int (length g), sum_list (map (\<lambda>l. lv_unit_price (fst l)) g))) ls"

fun result_loop :: "rat \<Rightarrow> discounted_row list \<Rightarrow> (unit_key \<times> int) list \<Rightarrow> (unit_key \<times> rat) list
   \<Rightarrow> (decimal_error, (unit_key \<times> int) list \<times> (unit_key \<times> rat) list) result" where
  "result_loop rate [] us vs = Inr (us, vs)"
| "result_loop rate ((k, n, gross) # rows) us vs =
     res_bind (dec_quantize round_half_up 2 (dec_ctx DEFAULT_PREC (of_int gross / 100 * rate))) (\<lambda>v.
       result_loop rate rows (dict_set k n us) (dict_set k v vs))"

definition result_from_discounted_rows :: "rat \<Rightarrow> discounted_row list \<Rightarrow> (decimal_error, promo_result) result" where
  "result_from_discounted_rows rate rows = res_bind (result_loop rate rows [] []) (\<lambda>(us, vs). Inr (result_from_metrics us vs))"

definition copurchase_qualifies :: "string list \<Rightarrow> sale_line list \<Rightarrow> bool" where
  "copurchase_qualifies codes g \<longleftrightarrow> 1 \<le> sum_list (map pos_qty (filter (item_in codes) g)) \<and> 2 \<le> sum_list (map pos_qty g)"

definition compute_promo_copurchase ::
  "(string \<Rightarrow> string) \<Rightarrow> live_row list \<Rightarrow> store_info list \<Rightarrow> promo_query \<Rightarrow> string list \<Rightarrow> (decimal_error, promo_result) result" where
  "compute_promo_copurchase collate live stores q item_codes =
     (if item_codes = [] then Inr empty_promo_result
      else result_from_discounted_rows (pq_discount_rate q) (discounted_rows
        (discounted collate (copurchase_qualifies item_codes) (item_in item_codes)
          (promo_lines q [Texts_param item_codes] (\<lambda>_. True) live stores))))"

definition trigger_qualifies :: "string list \<Rightarrow> string list \<Rightarrow> sale_line list \<Rightarrow> bool" where
  "trigger_qualifies triggers reduced g \<longleftrightarrow>
     1 \<le> sum_list (map pos_qty (filter (item_in triggers) g)) \<and> 1 \<le> sum_list (map pos_qty (filter (item_in reduced) g))"

definition compute_promo_trigger_discounted ::
  "(string \<Rightarrow> string) \<Rightarrow> live_row list \<Rightarrow> store_info list \<Rightarrow> promo_query \<Rightarrow> string list \<Rightarrow> string list \<Rightarrow> (decimal_error, promo_result) result" where
  "compute_promo_trigger_discounted collate live stores q trigger_codes discounted_codes =
     (if trigger_codes = [] \<or> discounted_codes = [] then Inr empty_promo_result
      else result_from_discounted_rows (pq_discount_rate q) (discounted_rows
        (discounted collate (trigger_qualifies trigger_codes discounted_codes) (item_in discounted_codes)
          (promo_lines q [Texts_param trigger_codes, Texts_param discounted_codes]
            (\<lambda>c. c \<in> set trigger_codes \<or> c \<in> set discounted_codes) live stores))))"

section \<open>Screen and camera of the same model\<close>

type_synonym code_models = "(string \<times> string list) list"

record model_receipt =
  screen_models :: "string list"
  camera_lines :: "(int \<times> string \<times> string list) list"

definition add_model_row :: "code_models \<Rightarrow> code_models \<Rightarrow> (bon_key \<times> model_receipt) list \<Rightarrow> sale_line \<Rightarrow> (bon_key \<times> model_receipt) list" where
  "add_model_row screens cameras receipts l =
     (if lv_quantity (fst l) \<le> 0 then receipts
      else let item = lv_item_code (fst l); r = dict_value (bon_of l) \<lparr>screen_models = [], camera_lines = []\<rparr> receipts;
               models = dict_value item [] cameras in
        dict_set (bon_of l)
          \<lparr>screen_models = screen_models r @ dict_value item [] screens,
           camera_lines = camera_lines r @ (if models = [] then [] else [(lv_unit_price (fst l), item, models)])\<rparr> receipts)"

definition same_model_receipts :: "sale_line list \<Rightarrow> code_models \<Rightarrow> code_models \<Rightarrow> (bon_key \<times> model_receipt) list" where
  "same_model_receipts rows screens cameras = foldl (add_model_row screens cameras) [] rows"

definition model_candidates :: "model_receipt \<Rightarrow> (int \<times> string \<times> string list) list" where
  "model_candidates r = filter (\<lambda>(price, item, models). set (screen_models r) \<inter> set models \<noteq> {}) (camera_lines r)"

text \<open>The identifier of a row, the last component of the key of \<^verbatim>\<open>min\<close>, never changes the price and the item that are found.\<close>

definition first_min :: "(int \<times> string \<times> string list) list \<Rightarrow> int \<times> string \<times> string list" where
  "first_min xs = hd (sort_key (\<lambda>(price, item, models). (price, item)) xs)"

definition add_model_discount :: "(unit_key \<times> int \<times> int) list \<Rightarrow> bon_key \<times> model_receipt \<Rightarrow> (unit_key \<times> int \<times> int) list" where
  "add_model_discount aggregated kr = (case kr of ((day, site, agent, bon), r) \<Rightarrow>
     (case model_candidates r of [] \<Rightarrow> aggregated
      | cs \<Rightarrow> (case first_min cs of (price, item, models) \<Rightarrow>
          let (units, gross) = dict_value (site, agent, item) (0, 0) aggregated in
          dict_set (site, agent, item) (units + 1, gross + price) aggregated)))"

definition same_model_discounted_rows :: "(bon_key \<times> model_receipt) list \<Rightarrow> discounted_row list" where
  "same_model_discounted_rows receipts = foldl add_model_discount [] receipts"

definition compute_promo_same_model_pair ::
  "live_row list \<Rightarrow> store_info list \<Rightarrow> promo_query \<Rightarrow> code_models \<Rightarrow> code_models \<Rightarrow> (decimal_error, promo_result) result" where
  "compute_promo_same_model_pair live stores q screens cameras =
     (if concat (map snd screens) = [] \<or> concat (map snd cameras) = [] then Inr empty_promo_result
      else let screen_codes = sort (map fst screens); camera_codes = sort (map fst cameras) in
        result_from_discounted_rows (pq_discount_rate q) (same_model_discounted_rows (same_model_receipts
          (promo_lines q [Texts_param screen_codes, Texts_param camera_codes]
            (\<lambda>c. c \<in> set screen_codes \<or> c \<in> set camera_codes) live stores) screens cameras)))"

end
