(* ===== verification/Promo_Evaluation.thy ===== *)
theory Promo_Evaluation
  imports Promo_Rules Grile_Domain
begin

text \<open>
  Confirmed promotion units and the evaluation of a promotion (\<^verbatim>\<open>services/promo_actuals.py\<close>, the report side of
  \<^verbatim>\<open>services/promo_copurchase.py\<close>, \<^verbatim>\<open>services/promotion_evaluation.py\<close>). A report covers the days up to a cutoff; the rule of the
  promotion is evaluated on the days after it. Files, JSON decoding and SHA-256 are arguments, as are the product lists of a
  promotion. The configured source is one optional name, empty names counting as none.
\<close>

section \<open>Material\<close>

datatype actuals_error = ActualsUnreadable | ActualsHashMismatch | ActualsInvalid

text \<open>A row of the JSON material after decoding: texts as \<^verbatim>\<open>str(... or "")\<close> gives them, the quantity when it is an integer, the value when \<^verbatim>\<open>Decimal\<close> accepts it and it is finite.\<close>

record material_row =
  mr_site_code :: string
  mr_item_code :: string
  mr_quantity :: "int option"
  mr_value :: "rat option"

record material =
  mt_version :: "int option"
  mt_source_sha256 :: "string option"
  mt_rows :: "material_row list option"
  mt_cutoff_date :: "string option"
  mt_report_rows :: "int option"
  mt_promo_units :: "int option"

type_synonym site_item = "string \<times> string"

definition validated_material_row :: "material_row \<Rightarrow> (actuals_error, site_item \<times> int \<times> rat) result" where
  "validated_material_row r =
     (let site = py_strip (mr_site_code r); item = py_strip (mr_item_code r) in
      case mr_quantity r of
        None \<Rightarrow> Inl ActualsInvalid
      | Some n \<Rightarrow>
          if n = 0 \<or> site = [] \<or> item = [] then Inl ActualsInvalid
          else (case mr_value r of None \<Rightarrow> Inl ActualsInvalid | Some v \<Rightarrow> Inr ((site, item), n, v)))"

fun material_loop :: "material_row list \<Rightarrow> (site_item \<times> int) list \<Rightarrow> (site_item \<times> rat) list
   \<Rightarrow> (actuals_error, (site_item \<times> int) list \<times> (site_item \<times> rat) list) result" where
  "material_loop [] us vs = Inr (us, vs)"
| "material_loop (r # rs) us vs = res_bind (validated_material_row r) (\<lambda>(k, n, v).
     if k \<in> fst ` set us then Inl ActualsInvalid
     else (case dec_quantize round_half_up 2 v of Inl e \<Rightarrow> Inl ActualsInvalid
       | Inr c \<Rightarrow> material_loop rs (dict_set k n us) (dict_set k c vs)))"

definition parsed_material_rows :: "material \<Rightarrow> string \<Rightarrow> string \<Rightarrow> (actuals_error, (site_item \<times> int) list \<times> (site_item \<times> rat) list) result" where
  "parsed_material_rows m source_hash configured_cutoff =
     (if mt_version m \<noteq> Some 1 \<or> mt_source_sha256 m \<noteq> Some source_hash then Inl ActualsInvalid
      else case mt_rows m of None \<Rightarrow> Inl ActualsInvalid
      | Some rows \<Rightarrow>
          if configured_cutoff \<noteq> [] \<and> mt_cutoff_date m \<noteq> Some configured_cutoff then Inl ActualsInvalid
          else res_bind (material_loop rows [] []) (\<lambda>(us, vs).
            if mt_report_rows m \<noteq> Some (int (length us)) then Inl ActualsInvalid
            else if mt_promo_units m \<noteq> Some (sum_list (map snd us)) then Inl ActualsInvalid
            else Inr (us, vs)))"

section \<open>Definitions of promotions\<close>

datatype promo_rule = Selected_item_copurchase | Trigger_discounted | Same_model_screen_camera

record promo_products =
  item_codes :: "string list"
  trigger_codes :: "string list"
  discounted_codes :: "string list"
  trigger_code_models :: code_models
  discounted_code_models :: code_models

text \<open>
  The products of a promotion are what \<^verbatim>\<open>load_promotion_rule_products\<close> reads, from the product fields of the
  definition alone, when it reports no error.
\<close>

record promo_definition =
  pd_start_date :: sale_day
  pd_end_date :: sale_day
  pd_actuals_file :: "string option"
  pd_material_file :: "string option"
  pd_source_sha256 :: string
  pd_material_sha256 :: string
  pd_cutoff_text :: string
  pd_rule_type :: promo_rule
  pd_discount_rate :: rat
  pd_products :: "promo_products option"

text \<open>
  What is read from outside: the bytes of a file when it can be read, SHA-256, the decoded JSON object, \<^verbatim>\<open>date.fromisoformat\<close>, the
  day before a file was last changed when it exists.
\<close>

record actuals_env =
  ae_read :: "string \<Rightarrow> string option"
  ae_sha256 :: "string \<Rightarrow> string"
  ae_json :: "string \<Rightarrow> material option"
  ae_iso_day :: "string \<Rightarrow> sale_day option"
  ae_file_day :: "string \<Rightarrow> sale_day option"

definition read_promo_material :: "actuals_env \<Rightarrow> promo_definition \<Rightarrow> string \<Rightarrow> (actuals_error, string) result" where
  "read_promo_material env d source_file =
     (case pd_material_file d of None \<Rightarrow> Inl ActualsUnreadable
      | Some material_file \<Rightarrow>
          if length (pd_source_sha256 d) \<noteq> 64 \<or> length (pd_material_sha256 d) \<noteq> 64 then Inl ActualsUnreadable
          else (case (ae_read env source_file, ae_read env material_file) of
              (Some source, Some bytes) \<Rightarrow>
                if ae_sha256 env source \<noteq> pd_source_sha256 d then Inl ActualsHashMismatch
                else if ae_sha256 env bytes \<noteq> pd_material_sha256 d then Inl ActualsHashMismatch
                else Inr bytes
            | _ \<Rightarrow> Inl ActualsUnreadable))"

definition load_promo_actuals_material ::
  "actuals_env \<Rightarrow> promo_definition \<Rightarrow> (actuals_error, ((site_item \<times> int) list \<times> (site_item \<times> rat) list) option) result" where
  "load_promo_actuals_material env d = (case pd_actuals_file d of
     None \<Rightarrow> Inr None
   | Some source_file \<Rightarrow> res_bind (read_promo_material env d source_file) (\<lambda>bytes.
       case ae_json env bytes of None \<Rightarrow> Inl ActualsInvalid
       | Some m \<Rightarrow> res_bind (parsed_material_rows m (pd_source_sha256 d) (pd_cutoff_text d)) (\<lambda>uv. Inr (Some uv))))"

text \<open>The cache of parsed materials: its key holds the names, the times of change and the configured digests of the two files.\<close>

type_synonym material_result = "(actuals_error, ((site_item \<times> int) list \<times> (site_item \<times> rat) list) option) result"

type_synonym material_key = "(string \<times> nat) \<times> (string \<times> nat) \<times> string \<times> string"

definition parse_material :: "actuals_env \<Rightarrow> promo_definition \<Rightarrow> string \<Rightarrow> material_result" where
  "parse_material env d bytes = (case ae_json env bytes of None \<Rightarrow> Inl ActualsInvalid
     | Some m \<Rightarrow> res_bind (parsed_material_rows m (pd_source_sha256 d) (pd_cutoff_text d)) (\<lambda>uv. Inr (Some uv)))"

definition material_cache_key :: "(string \<Rightarrow> nat) \<Rightarrow> promo_definition \<Rightarrow> string \<Rightarrow> string \<Rightarrow> material_key" where
  "material_cache_key mtime d source_file material_file =
     ((source_file, mtime source_file), (material_file, mtime material_file), pd_source_sha256 d, pd_material_sha256 d)"

definition load_material_cached ::
  "actuals_env \<Rightarrow> (string \<Rightarrow> nat) \<Rightarrow> (material_key \<times> material_result) list \<Rightarrow> promo_definition \<Rightarrow> (material_key \<times> material_result) list \<times> material_result" where
  "load_material_cached env mtime cache d = (case (pd_actuals_file d, pd_material_file d) of
     (None, _) \<Rightarrow> (cache, Inr None)
   | (Some source_file, None) \<Rightarrow> (cache, Inl ActualsUnreadable)
   | (Some source_file, Some material_file) \<Rightarrow> (case read_promo_material env d source_file of
       Inl e \<Rightarrow> (cache, Inl e)
     | Inr bytes \<Rightarrow> let k = material_cache_key mtime d source_file material_file in
         (case map_of cache k of Some r \<Rightarrow> (cache, r)
          | None \<Rightarrow> let r = parse_material env d bytes in (dict_set k r cache, r))))"

definition filtered_promo_actuals ::
  "actuals_env \<Rightarrow> promo_definition \<Rightarrow> string list \<Rightarrow> (actuals_error, ((site_item \<times> int) list \<times> (site_item \<times> rat) list) option) result" where
  "filtered_promo_actuals env d codes = res_bind (load_promo_actuals_material env d) (\<lambda>material. case material of
     None \<Rightarrow> Inr None
   | Some (us, vs) \<Rightarrow>
       let allowed = filter (\<lambda>c. c \<noteq> []) (map py_strip codes);
           actual_units = filter (\<lambda>((site, item), n). item \<in> set allowed \<and> 0 < n) us
       in Inr (Some (actual_units, map (\<lambda>(k, n). (k, dict_value k 0 vs)) actual_units)))"

definition load_promo_actual_units :: "actuals_env \<Rightarrow> promo_definition \<Rightarrow> string list \<Rightarrow> (actuals_error, (site_item \<times> int) list option) result" where
  "load_promo_actual_units env d codes = res_bind (load_promo_actuals_material env d) (\<lambda>material. case material of
     None \<Rightarrow> Inr None
   | Some (us, vs) \<Rightarrow>
       let allowed = filter (\<lambda>c. c \<noteq> []) (map py_strip codes) in
       if allowed = [] then Inr (Some []) else Inr (Some (filter (\<lambda>((site, item), n). item \<in> set allowed \<and> 0 < n) us)))"

definition load_promo_actual_values :: "actuals_env \<Rightarrow> promo_definition \<Rightarrow> string list \<Rightarrow> (actuals_error, (site_item \<times> rat) list option) result" where
  "load_promo_actual_values env d codes = res_bind (load_promo_actual_units env d codes) (\<lambda>us. case us of
     None \<Rightarrow> Inr None
   | Some us \<Rightarrow> res_bind (load_promo_actuals_material env d) (\<lambda>material. case material of
       None \<Rightarrow> Inr None | Some (all_units, vs) \<Rightarrow> Inr (Some (map (\<lambda>(k, n). (k, dict_value k 0 vs)) us))))"

definition promo_actuals_cutoff_date :: "actuals_env \<Rightarrow> promo_definition \<Rightarrow> sale_day option" where
  "promo_actuals_cutoff_date env d = (case pd_actuals_file d of
     None \<Rightarrow> None
   | Some f \<Rightarrow> if pd_cutoff_text d \<noteq> [] then ae_iso_day env (pd_cutoff_text d) else ae_file_day env f)"

definition scope_promotion_definition_to_interval :: "actuals_env \<Rightarrow> promo_definition \<Rightarrow> sale_day \<Rightarrow> sale_day \<Rightarrow> promo_definition" where
  "scope_promotion_definition_to_interval env d first_day last_day =
     (let scoped = d\<lparr>pd_start_date := first_day, pd_end_date := last_day\<rparr> in
      if pd_actuals_file d = None then scoped
      else let use_actuals = (case promo_actuals_cutoff_date env d of
             Some cutoff \<Rightarrow> cutoff < first_day \<or> (first_day \<le> pd_start_date d \<and> cutoff \<le> last_day)
           | None \<Rightarrow> first_day \<le> pd_start_date d \<and> pd_end_date d \<le> last_day)
        in if use_actuals then scoped else scoped\<lparr>pd_actuals_file := None\<rparr>)"

section \<open>Confirmed units of a scope\<close>

definition actual_source_vectors :: "(site_item \<times> int) list \<Rightarrow> string list \<times> string list \<times> int list" where
  "actual_source_vectors us = (let rows = sort us in (map (\<lambda>((site, item), n). site) rows, map (\<lambda>((site, item), n). item) rows, map snd rows))"

definition scoped_actuals :: "promo_query \<Rightarrow> store_info list \<Rightarrow> (site_item \<times> int) list \<Rightarrow> (site_item \<times> int) list" where
  "scoped_actuals q stores us =
     (let (sites, codes, units) = actual_source_vectors us;
          (params, pos) = build_scoped_params [Text_param (pq_month q), Texts_param sites, Texts_param codes, Ints_param units,
            Date_param (pq_start q), Date_param (pq_end q)] ((pq_scope q)\<lparr>fs_agent := No_filter\<rparr>);
          clauses = promo_scope_clauses pos ''a'' None (pq_current_scope q) (pq_include_closed_stores q) False in
      concat (map (\<lambda>((site, item), n). map (\<lambda>s. ((site, item), n))
        (filter (\<lambda>s. si_site s = site \<and> where_true (actuals_row (site, s)) params clauses) stores)) (zip (zip sites codes) units)))"

type_synonym actual_line = "site_item \<times> int \<times> string option \<times> int"

definition actual_lines :: "promo_query \<Rightarrow> item_day list \<Rightarrow> (site_item \<times> int) list \<Rightarrow> actual_line list" where
  "actual_lines q days actuals =
     rollup_rows (\<lambda>((k, n), d). (k, n, map_option (\<lambda>d. rp_agent (it_scope d)) d))
       (\<lambda>(k, n, agent) g. (k, n, agent, sum_list (map (\<lambda>(a, d). case d of None \<Rightarrow> 0 | Some d \<Rightarrow> it_positive_quantity d) g)))
       (left_join (\<lambda>((site, item), n) d. rp_import_month (it_scope d) = pq_month q \<and> rp_site (it_scope d) = site \<and> it_item_code d = item
          \<and> pq_start q \<le> it_sale_date d \<and> it_sale_date d \<le> pq_end q) days actuals)"

record actual_candidates =
  scoped_units :: "(site_item \<times> int) list"
  scoped_values :: "(site_item \<times> rat) list"
  candidates :: "(site_item \<times> candidate list) list"

definition add_actual_line :: "(site_item \<times> rat) list \<Rightarrow> actual_candidates \<Rightarrow> actual_line \<Rightarrow> actual_candidates" where
  "add_actual_line vs c row = (case row of (k, n, agent, qty) \<Rightarrow>
     \<lparr>scoped_units = dict_set k n (scoped_units c), scoped_values = dict_set k (dict_value k 0 vs) (scoped_values c),
      candidates = (case agent of None \<Rightarrow> candidates c
        | Some a \<Rightarrow> if a \<noteq> [] \<and> 0 < qty then dict_set k (dict_value k [] (candidates c) @ [(a, qty)]) (candidates c) else candidates c)\<rparr>)"

definition actual_candidate_rows :: "actual_line list \<Rightarrow> (site_item \<times> rat) list \<Rightarrow> actual_candidates" where
  "actual_candidate_rows rows vs = foldl (add_actual_line vs) \<lparr>scoped_units = [], scoped_values = [], candidates = []\<rparr> rows"

definition agent_filter_values :: "filter_input \<Rightarrow> string list option" where
  "agent_filter_values agent = normalize_filter_values agent"

fun add_allocations :: "string list option \<Rightarrow> site_item \<Rightarrow> (string \<times> rat) list \<Rightarrow> candidate list
   \<Rightarrow> (unit_key \<times> int) list \<times> (unit_key \<times> rat) list \<Rightarrow> (unit_key \<times> int) list \<times> (unit_key \<times> rat) list" where
  "add_allocations allowed (site, item) shares [] d = d"
| "add_allocations allowed (site, item) shares ((agent, n) # rest) (us, vs) =
     (if (case allowed of None \<Rightarrow> False | Some as \<Rightarrow> agent \<notin> set as) then add_allocations allowed (site, item) shares rest (us, vs)
      else add_allocations allowed (site, item) shares rest
        (add_units (site, agent, item) n us, add_discount (site, agent, item) (dict_value agent 0 shares) vs))"

fun allocate_actuals :: "actual_candidates \<Rightarrow> string list option \<Rightarrow> rat \<Rightarrow> (site_item \<times> int) list
   \<Rightarrow> (unit_key \<times> int) list \<times> (unit_key \<times> rat) list \<Rightarrow> (decimal_error, (unit_key \<times> int) list \<times> (unit_key \<times> rat) list) result" where
  "allocate_actuals c allowed rate [] d = Inr d"
| "allocate_actuals c allowed rate ((k, n) # rest) d =
     (let allocations = allocate_units_to_agents n (dict_value k [] (candidates c)) in
      res_bind (allocate_value_to_agents (dec_ctx DEFAULT_PREC (dict_value k 0 (scoped_values c) * rate)) allocations) (\<lambda>shares.
        allocate_actuals c allowed rate rest (add_allocations allowed k shares allocations d)))"

definition allocated_actual_result :: "actual_candidates \<Rightarrow> string list option \<Rightarrow> rat \<Rightarrow> (decimal_error, promo_result) result" where
  "allocated_actual_result c allowed rate =
     res_bind (allocate_actuals c allowed rate (scoped_units c) ([], [])) (\<lambda>(us, vs). Inr (result_from_metrics us vs))"

datatype evaluation_error = PromoActualsError actuals_error | Decimal_failure decimal_error

definition compute_promo_actuals_from_report ::
  "actuals_env \<Rightarrow> store_info list \<Rightarrow> item_day list \<Rightarrow> promo_definition \<Rightarrow> promo_query \<Rightarrow> string list \<Rightarrow> (evaluation_error, promo_result option) result" where
  "compute_promo_actuals_from_report env stores days d q codes =
     (case filtered_promo_actuals env d codes of
        Inl e \<Rightarrow> Inl (PromoActualsError e)
      | Inr None \<Rightarrow> Inr None
      | Inr (Some (us, vs)) \<Rightarrow>
          if us = [] then Inr (Some empty_promo_result)
          else let cutoff = (case promo_actuals_cutoff_date env d of None \<Rightarrow> pd_end_date d | Some c \<Rightarrow> min c (pd_end_date d)) in
            if cutoff < pd_start_date d then Inr (Some empty_promo_result)
            else let q' = q\<lparr>pq_start := pd_start_date d, pq_end := cutoff\<rparr>;
                     c = actual_candidate_rows (actual_lines q' days (scoped_actuals q' stores us)) vs in
              (case allocated_actual_result c (agent_filter_values (fs_agent (pq_scope q))) (pq_discount_rate q) of
                 Inl e \<Rightarrow> Inl (Decimal_failure e) | Inr r \<Rightarrow> Inr (Some r)))"

section \<open>Evaluation\<close>

datatype evaluation_status = Promo_complete | Promo_partial | Promo_invalid

record promo_evaluation =
  pe_result :: "promo_result option"
  pe_item_codes :: "string list"
  pe_rule_type :: promo_rule
  pe_status :: evaluation_status

definition is_complete :: "promo_evaluation \<Rightarrow> bool" where
  "is_complete e \<longleftrightarrow> pe_status e = Promo_complete"

text \<open>\<^verbatim>\<open>date + timedelta(days=1)\<close>\<close>

definition next_day :: "sale_day \<Rightarrow> sale_day" where
  "next_day x = (case x of (y, m, d) \<Rightarrow>
     if int d < month_length (int y) (int m) then (y, m, d + 1) else if m < 12 then (y, m + 1, 1) else (y + 1, 1, 1))"

definition promotion_item_codes :: "promo_products \<Rightarrow> promo_rule \<Rightarrow> string list" where
  "promotion_item_codes p rule = (if rule \<in> {Same_model_screen_camera, Trigger_discounted} then discounted_codes p else item_codes p)"

definition promotion_common :: "promo_definition \<Rightarrow> promo_query \<Rightarrow> promo_query" where
  "promotion_common d q = q\<lparr>pq_start := pd_start_date d, pq_end := pd_end_date d\<rparr>"

record sales_env =
  se_live :: "live_row list"
  se_stores :: "store_info list"
  se_item_days :: "item_day list"
  se_collate :: "string \<Rightarrow> string"

definition evaluate_rule_result :: "sales_env \<Rightarrow> promo_products \<Rightarrow> promo_rule \<Rightarrow> string list \<Rightarrow> promo_query \<Rightarrow> (decimal_error, promo_result) result" where
  "evaluate_rule_result s p rule codes q = (case rule of
     Same_model_screen_camera \<Rightarrow> compute_promo_same_model_pair (se_live s) (se_stores s) q (trigger_code_models p) (discounted_code_models p)
   | Trigger_discounted \<Rightarrow> compute_promo_trigger_discounted (se_collate s) (se_live s) (se_stores s) q (trigger_codes p) (discounted_codes p)
   | Selected_item_copurchase \<Rightarrow> compute_promo_copurchase (se_collate s) (se_live s) (se_stores s) q codes)"

text \<open>
  \<^verbatim>\<open>evaluate_promotion\<close> with \<^verbatim>\<open>_actuals_with_tail\<close>, which calls it again on the days after the cutoff, without the report.
\<close>

function evaluate_promotion :: "actuals_env \<Rightarrow> sales_env \<Rightarrow> promo_query \<Rightarrow> promo_definition \<Rightarrow> (decimal_error, promo_evaluation) result" where
  "evaluate_promotion env s q0 d =
     (let rule = pd_rule_type d; q = q0\<lparr>pq_discount_rate := pd_discount_rate d\<rparr> in
      case pd_products d of
        None \<Rightarrow> Inr \<lparr>pe_result = None, pe_item_codes = [], pe_rule_type = rule, pe_status = Promo_invalid\<rparr>
      | Some p \<Rightarrow>
          let codes = promotion_item_codes p rule;
              outcome = (\<lambda>r status. \<lparr>pe_result = r, pe_item_codes = codes, pe_rule_type = rule, pe_status = status\<rparr>) in
          (case compute_promo_actuals_from_report env (se_stores s) (se_item_days s) d q codes of
             Inl (PromoActualsError e) \<Rightarrow> Inr (outcome None Promo_invalid)
           | Inl (Decimal_failure e) \<Rightarrow> Inl e
           | Inr (Some r) \<Rightarrow>
               (case promo_actuals_cutoff_date env d of
                  None \<Rightarrow> Inr (outcome (Some r) Promo_complete)
                | Some cutoff \<Rightarrow>
                    let tail_start = max (pd_start_date d) (next_day cutoff) in
                    if pd_end_date d < tail_start then Inr (outcome (Some r) Promo_complete)
                    else (case evaluate_promotion env s q0 (d\<lparr>pd_start_date := tail_start, pd_actuals_file := None\<rparr>) of
                        Inl e \<Rightarrow> Inl e
                      | Inr tail \<Rightarrow>
                          (case pe_result tail of
                             Some t \<Rightarrow> if is_complete tail then Inr (outcome (Some (merge_promo_results [Some r, Some t])) Promo_complete)
                               else Inr (outcome (Some r) Promo_partial)
                           | None \<Rightarrow> Inr (outcome (Some r) Promo_partial))))
           | Inr None \<Rightarrow>
               (case evaluate_rule_result s p rule codes (promotion_common d q) of
                  Inl e \<Rightarrow> Inl e | Inr r \<Rightarrow> Inr (outcome (Some r) Promo_complete))))"
  by pat_completeness auto

lemma no_report: "pd_actuals_file d = None \<Longrightarrow> compute_promo_actuals_from_report env stores days d q codes = Inr None"
  by (simp add: compute_promo_actuals_from_report_def filtered_promo_actuals_def load_promo_actuals_material_def)

lemma report_file: "compute_promo_actuals_from_report env stores days d q codes = Inr (Some r) \<Longrightarrow> \<exists>f. pd_actuals_file d = Some f"
  by (cases "pd_actuals_file d") (simp_all add: no_report)

termination evaluate_promotion
  by (relation "measure (\<lambda>(env, s, q, d). if pd_actuals_file d = None then 0 else 1)") (auto dest: report_file)

declare evaluate_promotion.simps [simp del]

end
