(* ===== verification/Promo_Correctness.thy ===== *)
theory Promo_Correctness
  imports Promo_Rules
begin

text \<open>
  One discounted unit per qualifying receipt, for the three rules: the statements and the loops of
  Python are implementations of one choice, the cheapest candidate line of each qualifying receipt.
\<close>

section \<open>The choice of a rule\<close>

definition bon_lines :: "sale_line list \<Rightarrow> bon_key \<Rightarrow> sale_line list" where
  "bon_lines ls k = filter (\<lambda>l. bon_of l = k) ls"

definition qualifying :: "(sale_line list \<Rightarrow> bool) \<Rightarrow> sale_line list \<Rightarrow> bon_key set" where
  "qualifying qual ls = {k \<in> bon_of ` set ls. qual (bon_lines ls k)}"

definition pick :: "(sale_line \<Rightarrow> int \<times> string) \<Rightarrow> (sale_line list \<Rightarrow> sale_line \<Rightarrow> bool) \<Rightarrow> sale_line list \<Rightarrow> bon_key \<Rightarrow> sale_line" where
  "pick rank cand ls k = hd (sort_key rank (filter (cand (bon_lines ls k)) (bon_lines ls k)))"

definition price_of :: "sale_line \<Rightarrow> int" where
  "price_of l = lv_unit_price (fst l)"

definition units_sold_of :: "sale_line list \<Rightarrow> unit_key \<Rightarrow> int" where
  "units_sold_of ls u = sum_list (map pos_qty (filter (\<lambda>l. unit_of l = u) ls))"

definition picks_of :: "bon_key set \<Rightarrow> (bon_key \<Rightarrow> sale_line) \<Rightarrow> unit_key \<Rightarrow> bon_key set" where
  "picks_of Q p u = {k \<in> Q. unit_of (p k) = u}"

text \<open>Rows that count the picked lines by store, agent and item.\<close>

definition counts_picks :: "discounted_row list \<Rightarrow> bon_key set \<Rightarrow> (bon_key \<Rightarrow> sale_line) \<Rightarrow> bool" where
  "counts_picks rows Q p \<longleftrightarrow> distinct (map fst rows) \<and> (\<forall>u. map_of rows u =
     (if picks_of Q p u = {} then None else Some (int (card (picks_of Q p u)), \<Sum>k \<in> picks_of Q p u. price_of (p k))))"

lemma pos_qty_nonneg: "0 \<le> pos_qty l"
  by (simp add: pos_qty_def)

lemma finite_qualifying: "finite (qualifying qual ls)"
  by (simp add: qualifying_def)

lemma sort_key_hd:
  assumes "xs \<noteq> []"
  shows "hd (sort_key f xs) \<in> set xs" and "\<forall>x \<in> set xs. f (hd (sort_key f xs)) \<le> f x"
proof -
  obtain y ys where s: "sort_key f xs = y # ys" using assms by (cases "sort_key f xs") (metis list.size(3) length_0_conv length_sort, auto)
  have set: "set xs = insert y (set ys)" using arg_cong [OF s, of set] by simp
  have "sorted (map f (y # ys))" unfolding s [symmetric] by simp
  with set show "hd (sort_key f xs) \<in> set xs" "\<forall>x \<in> set xs. f (hd (sort_key f xs)) \<le> f x" by (auto simp: s)
qed

text \<open>A rule: which receipts qualify, which of their lines are candidates, and an order in which the price decides first.\<close>

locale discount_rule =
  fixes qual :: "sale_line list \<Rightarrow> bool" and cand :: "sale_line list \<Rightarrow> sale_line \<Rightarrow> bool" and rank :: "sale_line \<Rightarrow> int \<times> string"
  assumes has_candidate: "qual g \<Longrightarrow> \<exists>l \<in> set g. cand g l"
    and candidate_sold: "cand g l \<Longrightarrow> 0 < pos_qty l"
    and price_first: "fst (rank l) = price_of l"
begin

lemma pick_spec:
  assumes "k \<in> qualifying qual ls"
  shows "pick rank cand ls k \<in> set ls" and "bon_of (pick rank cand ls k) = k" and "cand (bon_lines ls k) (pick rank cand ls k)"
    and "0 < pos_qty (pick rank cand ls k)"
    and "\<forall>l \<in> set (bon_lines ls k). cand (bon_lines ls k) l \<longrightarrow> price_of (pick rank cand ls k) \<le> price_of l"
proof -
  let ?c = "filter (cand (bon_lines ls k)) (bon_lines ls k)"
  have "?c \<noteq> []" using has_candidate [of "bon_lines ls k"] assms by (auto simp: qualifying_def filter_empty_conv)
  note h = sort_key_hd [OF this, of rank]
  show m: "cand (bon_lines ls k) (pick rank cand ls k)" "pick rank cand ls k \<in> set ls" "bon_of (pick rank cand ls k) = k"
    using h(1) by (auto simp: pick_def bon_lines_def)
  show "0 < pos_qty (pick rank cand ls k)" by (rule candidate_sold [OF m(1)])
  have "price_of (pick rank cand ls k) \<le> price_of l" if "l \<in> set ?c" for l
    using bspec [OF h(2) that] unfolding pick_def [symmetric] price_first [symmetric] by (auto simp: less_eq_prod_def)
  then show "\<forall>l \<in> set (bon_lines ls k). cand (bon_lines ls k) l \<longrightarrow> price_of (pick rank cand ls k) \<le> price_of l" by simp
qed

text \<open>No more units are discounted than were sold.\<close>

lemma units_bound: "int (card (picks_of (qualifying qual ls) (pick rank cand ls) u)) \<le> units_sold_of ls u"
proof -
  let ?K = "picks_of (qualifying qual ls) (pick rank cand ls) u" and ?U = "filter (\<lambda>l. unit_of l = u) ls"
  have fin: "finite ?K" using finite_qualifying by (simp add: picks_of_def)
  have one: "1 \<le> sum_list (map pos_qty (filter (\<lambda>l. bon_of l = k) ?U))" if k: "k \<in> ?K" for k
  proof -
    note s = pick_spec [of k ls]
    have "pick rank cand ls k \<in> set (filter (\<lambda>l. bon_of l = k) ?U)" using s k by (auto simp: picks_of_def)
    then have "pos_qty (pick rank cand ls k) \<le> sum_list (map pos_qty (filter (\<lambda>l. bon_of l = k) ?U))"
      by (intro member_le_sum_list) (auto simp: pos_qty_nonneg)
    moreover have "0 < pos_qty (pick rank cand ls k)" using s(4) k by (simp add: picks_of_def)
    ultimately show ?thesis by linarith
  qed
  have "int (card ?K) = (\<Sum>k \<in> ?K. 1)" by simp
  also have "\<dots> \<le> (\<Sum>k \<in> ?K. sum_list (map pos_qty (filter (\<lambda>l. bon_of l = k) ?U)))" by (rule sum_mono) (rule one)
  also have "\<dots> \<le> (\<Sum>k \<in> ?K \<union> bon_of ` set ?U. sum_list (map pos_qty (filter (\<lambda>l. bon_of l = k) ?U)))"
    using fin by (intro sum_mono2) (auto intro!: sum_list_nonneg simp: pos_qty_nonneg)
  also have "\<dots> = units_sold_of ls u" unfolding units_sold_of_def by (rule sum_key_fibres) (use fin in auto)
  finally show ?thesis .
qed

end

section \<open>The statements\<close>

lemma picks_of_empty [simp]: "picks_of {} p u = {}"
  by (simp add: picks_of_def)

lemma rows_count_picks:
  assumes "distinct ks"
  shows "counts_picks (discounted_rows (map p ks)) (set ks) p"
proof -
  let ?f = "\<lambda>u. filter (\<lambda>k. unit_of (p k) = u) ks"
  have set: "set (?f u) = picks_of (set ks) p u" for u by (auto simp: picks_of_def)
  have rows: "discounted_rows (map p ks)
      = map (\<lambda>u. (u, int (card (picks_of (set ks) p u)), \<Sum>k \<in> picks_of (set ks) p u. price_of (p k))) (remdups (map (\<lambda>k. unit_of (p k)) ks))"
    unfolding discounted_rows_def rollup_rows_def group_rows_def map_map comp_def
  proof (rule map_cong, goal_cases)
    case (2 u)
    have "int (length (?f u)) = int (card (picks_of (set ks) p u))" using distinct_card [of "?f u"] assms by (simp only: set distinct_filter)
    moreover have "sum_list (map (\<lambda>k. price_of (p k)) (?f u)) = (\<Sum>k \<in> picks_of (set ks) p u. price_of (p k))"
      unfolding set [symmetric] by (rule sum_list_distinct_conv_sum_set) (simp add: assms)
    ultimately show ?case by (simp add: filter_map comp_def price_of_def)
  qed simp
  have "map_of (map (\<lambda>u. (u, g u)) us) u = (if u \<in> set us then Some (g u) else None)" for g :: "unit_key \<Rightarrow> int \<times> int" and us u
    by (induction us) auto
  moreover have "u \<in> set (remdups (map (\<lambda>k. unit_of (p k)) ks)) \<longleftrightarrow> picks_of (set ks) p u \<noteq> {}" for u
    unfolding picks_of_def set_remdups set_map by blast
  ultimately show ?thesis unfolding counts_picks_def rows by (simp add: comp_def)
qed

definition sql_rank :: "(string \<Rightarrow> string) \<Rightarrow> sale_line \<Rightarrow> int \<times> string" where
  "sql_rank collate l = (lv_unit_price (fst l), collate (lv_item_code (fst l)))"

definition sql_candidate :: "string list \<Rightarrow> sale_line list \<Rightarrow> sale_line \<Rightarrow> bool" where
  "sql_candidate codes g l \<longleftrightarrow> item_in codes l \<and> 0 < pos_qty l"

lemma sum_pos_candidate: "1 \<le> sum_list (map pos_qty (filter (item_in codes) g)) \<Longrightarrow> \<exists>l \<in> set g. sql_candidate codes g l"
proof (rule ccontr)
  assume a: "1 \<le> sum_list (map pos_qty (filter (item_in codes) g))" and "\<not> (\<exists>l \<in> set g. sql_candidate codes g l)"
  then have "map pos_qty (filter (item_in codes) g) = map (\<lambda>_. 0) (filter (item_in codes) g)"
    using order.antisym [OF _ pos_qty_nonneg] by (intro map_cong) (auto simp: sql_candidate_def not_less)
  with a show False by (simp only: sum_list_0)
qed

interpretation copurchase: discount_rule "copurchase_qualifies codes" "sql_candidate codes" "sql_rank collate" for codes collate
  proof unfold_locales
  show "copurchase_qualifies codes g \<Longrightarrow> \<exists>l \<in> set g. sql_candidate codes g l" for g
    by (rule sum_pos_candidate) (simp add: copurchase_qualifies_def)
qed (simp_all add: sql_candidate_def sql_rank_def price_of_def)

interpretation trigger: discount_rule "trigger_qualifies triggers codes" "sql_candidate codes" "sql_rank collate" for triggers codes collate
  proof unfold_locales
  show "trigger_qualifies triggers codes g \<Longrightarrow> \<exists>l \<in> set g. sql_candidate codes g l" for g
    by (rule sum_pos_candidate) (simp add: trigger_qualifies_def)
qed (simp_all add: sql_candidate_def sql_rank_def price_of_def)

lemma bon_totals_qualifying: "set (bon_totals qual ls) = qualifying qual ls"
proof -
  have "set (bon_totals qual ls) = {k. \<exists>g. (k, g) \<in> set (group_rows bon_of ls) \<and> qual g}" by (force simp: bon_totals_def)
  then show ?thesis unfolding mem_group_rows qualifying_def bon_lines_def by blast
qed

lemma discounted_picks:
  assumes "discount_rule qual (sql_candidate codes) (sql_rank collate)"
  shows "\<exists>ks. distinct ks \<and> set ks = qualifying qual ls
    \<and> discounted collate qual (item_in codes) ls = map (pick (sql_rank collate) (sql_candidate codes) ls) ks"
proof -
  let ?c = "filter (\<lambda>l. bon_of l \<in> set (bon_totals qual ls) \<and> item_in codes l \<and> 0 < pos_qty l) ls"
  note spec = discount_rule.pick_spec [OF assms]
  have ks: "set (remdups (map bon_of ?c)) = qualifying qual ls"
  proof
    show "qualifying qual ls \<subseteq> set (remdups (map bon_of ?c))"
    proof
      fix k assume k: "k \<in> qualifying qual ls"
      then have "pick (sql_rank collate) (sql_candidate codes) ls k \<in> set ?c"
        using spec(1-3) [OF k] by (simp add: bon_totals_qualifying sql_candidate_def)
      then have "bon_of (pick (sql_rank collate) (sql_candidate codes) ls k) \<in> bon_of ` set ?c" by blast
      then show "k \<in> set (remdups (map bon_of ?c))" using spec(2) [OF k] by simp
    qed
  qed (auto simp: bon_totals_qualifying)
  have "filter (\<lambda>l. bon_of l = k) ?c = filter (sql_candidate codes (bon_lines ls k)) (bon_lines ls k)" if "k \<in> qualifying qual ls" for k
    using that by (auto simp: bon_lines_def sql_candidate_def bon_totals_qualifying intro: filter_cong)
  then have "discounted collate qual (item_in codes) ls = map (pick (sql_rank collate) (sql_candidate codes) ls) (remdups (map bon_of ?c))"
    unfolding discounted_def rollup_rows_def group_rows_def pick_def sql_rank_def [abs_def] map_map comp_def
    by (intro map_cong [OF refl]) (use ks in auto)
  with ks show ?thesis by (intro exI [of _ "remdups (map bon_of ?c)"]) simp
qed

section \<open>The loops\<close>

lemma map_of_dict_set: "map_of (dict_set k v d) = (map_of d)(k \<mapsto> v)"
proof (induction d)
  case (Cons p d)
  have "map_of (map (\<lambda>(k', v'). if k' = k then (k, v) else (k', v')) d) x = map_of d x" if "x \<noteq> k" for d :: "('a \<times> 'b) list" and x
    using that by (induction d) auto
  with Cons show ?case by (cases p) (auto simp: dict_set_Cons fun_eq_iff)
qed (simp add: dict_set_def)

lemma picks_insert: "k \<notin> Q \<Longrightarrow> picks_of (insert k Q) p u = (if unit_of (p k) = u then insert k (picks_of Q p u) else picks_of Q p u)"
  by (auto simp: picks_of_def)

lemma counts_insert:
  assumes c: "counts_picks d Q p" and k: "k \<notin> Q" and fin: "finite Q" and u: "u = unit_of (p k)"
    and g: "dict_value u (0, 0) d = (n, gross)"
  shows "counts_picks (dict_set u (n + 1, gross + price_of (p k)) d) (insert k Q) p"
proof -
  let ?P = "picks_of Q p u"
  have f: "finite ?P" "k \<notin> ?P" using fin k by (auto simp: picks_of_def)
  have "(n, gross) = (int (card ?P), \<Sum>k \<in> ?P. price_of (p k))"
    using g c unfolding counts_picks_def dict_value_def by (cases "?P = {}") (simp_all del: map_of_eq_None_iff map_of_eq_Some_iff)
  then have "map_of (dict_set u (n + 1, gross + price_of (p k)) d) u' = (if picks_of (insert k Q) p u' = {} then None
      else Some (int (card (picks_of (insert k Q) p u')), \<Sum>k \<in> picks_of (insert k Q) p u'. price_of (p k)))" for u'
    using c f u unfolding counts_picks_def map_of_dict_set picks_insert [OF k]
    by (auto simp: add.commute simp del: split_paired_All map_of_eq_None_iff map_of_eq_Some_iff)
  moreover have "distinct (map fst (dict_set u (n + 1, gross + price_of (p k)) d))"
    using c dict_set_keys [of d u] by (simp add: counts_picks_def)
  ultimately show ?thesis by (simp add: counts_picks_def)
qed

text \<open>The lines of a receipt that the loops of Python collect, and its candidates.\<close>

definition line_models :: "code_models \<Rightarrow> sale_line \<Rightarrow> string list" where
  "line_models models l = dict_value (lv_item_code (fst l)) [] models"

definition screens_of :: "code_models \<Rightarrow> sale_line list \<Rightarrow> string list" where
  "screens_of screens g = concat (map (line_models screens) (filter (\<lambda>l. 0 < pos_qty l) g))"

definition model_candidate :: "code_models \<Rightarrow> code_models \<Rightarrow> sale_line list \<Rightarrow> sale_line \<Rightarrow> bool" where
  "model_candidate screens cameras g l \<longleftrightarrow> 0 < pos_qty l \<and> set (screens_of screens g) \<inter> set (line_models cameras l) \<noteq> {}"

definition model_qualifies :: "code_models \<Rightarrow> code_models \<Rightarrow> sale_line list \<Rightarrow> bool" where
  "model_qualifies screens cameras g \<longleftrightarrow> (\<exists>l \<in> set g. model_candidate screens cameras g l)"

definition model_rank :: "sale_line \<Rightarrow> int \<times> string" where
  "model_rank l = (price_of l, lv_item_code (fst l))"

interpretation same_model: discount_rule "model_qualifies screens cameras" "model_candidate screens cameras" model_rank for screens cameras
  by unfold_locales (simp_all add: model_qualifies_def model_candidate_def model_rank_def)

definition camera_of :: "code_models \<Rightarrow> sale_line \<Rightarrow> int \<times> string \<times> string list" where
  "camera_of cameras l = (price_of l, lv_item_code (fst l), line_models cameras l)"

definition receipt_of_lines :: "code_models \<Rightarrow> code_models \<Rightarrow> sale_line list \<Rightarrow> model_receipt" where
  "receipt_of_lines screens cameras g = \<lparr>screen_models = screens_of screens g,
     camera_lines = map (camera_of cameras) (filter (\<lambda>l. 0 < pos_qty l \<and> line_models cameras l \<noteq> []) g)\<rparr>"

definition sold_bons :: "sale_line list \<Rightarrow> bon_key set" where
  "sold_bons ls = bon_of ` {l \<in> set ls. 0 < pos_qty l}"

lemma receipt_of_lines_simps [simp]:
  "receipt_of_lines screens cameras [] = \<lparr>screen_models = [], camera_lines = []\<rparr>"
  "\<not> 0 < pos_qty l \<Longrightarrow> receipt_of_lines screens cameras (g @ [l]) = receipt_of_lines screens cameras g"
  "0 < pos_qty l \<Longrightarrow> receipt_of_lines screens cameras (g @ [l]) = \<lparr>screen_models = screens_of screens g @ line_models screens l,
     camera_lines = camera_lines (receipt_of_lines screens cameras g)
       @ (if line_models cameras l = [] then [] else [camera_of cameras l])\<rparr>"
  by (simp_all add: receipt_of_lines_def screens_of_def)

lemma pos_qty_iff: "lv_quantity (fst l) \<le> 0 \<longleftrightarrow> \<not> 0 < pos_qty l"
  by (auto simp: pos_qty_def)

lemma model_receipts:
  "distinct (map fst (same_model_receipts ls screens cameras))
   \<and> map_of (same_model_receipts ls screens cameras)
     = (\<lambda>k. if k \<in> sold_bons ls then Some (receipt_of_lines screens cameras (bon_lines ls k)) else None)"
proof (induction ls rule: rev_induct)
  case Nil
  then show ?case by (simp add: same_model_receipts_def sold_bons_def fun_eq_iff)
next
  case (snoc l ls)
  let ?R = "same_model_receipts ls screens cameras" and ?k = "bon_of l"
  have step: "same_model_receipts (ls @ [l]) screens cameras = add_model_row screens cameras ?R l" by (simp add: same_model_receipts_def)
  have bl: "bon_lines (ls @ [l]) k = (if k = ?k then bon_lines ls k @ [l] else bon_lines ls k)" for k by (auto simp: bon_lines_def)
  show ?case
  proof (cases "0 < pos_qty l")
    case False
    then have "add_model_row screens cameras ?R l = ?R" by (simp add: add_model_row_def pos_qty_iff)
    moreover have "sold_bons (ls @ [l]) = sold_bons ls" using False by (auto simp: sold_bons_def)
    ultimately show ?thesis using snoc False unfolding step bl by (auto simp: fun_eq_iff)
  next
    case True
    have none: "receipt_of_lines screens cameras (bon_lines ls ?k) = \<lparr>screen_models = [], camera_lines = []\<rparr>" if "?k \<notin> sold_bons ls"
    proof -
      have "filter (\<lambda>l. 0 < pos_qty l \<and> P l) (bon_lines ls ?k) = []" for P 
      proof (rule filter_False, rule ballI)
        fix x assume "x \<in> set (bon_lines ls ?k)"
        then have "x \<in> set ls" "bon_of x = ?k" by (simp_all add: bon_lines_def)
        then show "\<not> (0 < pos_qty x \<and> P x)" using that unfolding sold_bons_def by (metis (mono_tags, lifting) imageI mem_Collect_eq)
      qed
      from this [of "\<lambda>_. True"] this show ?thesis by (simp add: receipt_of_lines_def screens_of_def)
    qed
    have get: "dict_value ?k \<lparr>screen_models = [], camera_lines = []\<rparr> ?R = receipt_of_lines screens cameras (bon_lines ls ?k)"
      using snoc none by (auto simp: dict_value_def)
    have "add_model_row screens cameras ?R l = dict_set ?k (receipt_of_lines screens cameras (bon_lines ls ?k @ [l])) ?R"
      using True get by (simp add: add_model_row_def pos_qty_iff Let_def line_models_def [abs_def] camera_of_def price_of_def receipt_of_lines_def screens_of_def)
    moreover have "sold_bons (ls @ [l]) = insert ?k (sold_bons ls)" using True by (auto simp: sold_bons_def)
    ultimately show ?thesis using snoc unfolding step bl by (auto simp: map_of_dict_set fun_eq_iff dict_set_keys)
  qed
qed

lemma sort_key_map: "sort_key f (map g xs) = map g (sort_key (\<lambda>x. f (g x)) xs)"
proof -
  have "insort_key f (g x) (map g ys) = map g (insort_key (\<lambda>x. f (g x)) x ys)" for x ys by (induction ys) auto
  then show ?thesis by (induction xs) simp_all
qed

lemma model_candidates_lines:
  "model_candidates (receipt_of_lines screens cameras g) = map (camera_of cameras) (filter (model_candidate screens cameras g) g)"
proof -
  have "filter (\<lambda>(price, item, models). set (screens_of screens g) \<inter> set models \<noteq> {})
      (map (camera_of cameras) (filter (\<lambda>l. 0 < pos_qty l \<and> line_models cameras l \<noteq> []) g))
    = map (camera_of cameras) (filter (\<lambda>l. set (screens_of screens g) \<inter> set (line_models cameras l) \<noteq> {} \<and> 0 < pos_qty l \<and> line_models cameras l \<noteq> []) g)"
    by (simp add: filter_map comp_def camera_of_def conj_ac)
  also have "\<dots> = map (camera_of cameras) (filter (model_candidate screens cameras g) g)"
    by (rule arg_cong [where f = "map _"], rule filter_cong) (auto simp: model_candidate_def)
  finally show ?thesis by (simp add: model_candidates_def receipt_of_lines_def)
qed

lemma first_min_pick:
  assumes "bon_of (pick model_rank (model_candidate screens cameras) ls k) = k"
    and "filter (model_candidate screens cameras (bon_lines ls k)) (bon_lines ls k) \<noteq> []"
  shows "first_min (model_candidates (receipt_of_lines screens cameras (bon_lines ls k)))
    = camera_of cameras (pick model_rank (model_candidate screens cameras) ls k)"
proof -
  let ?c = "filter (model_candidate screens cameras (bon_lines ls k)) (bon_lines ls k)"
  have "sort_key model_rank ?c \<noteq> []" using assms(2) by (metis length_0_conv length_sort)
  moreover have "(\<lambda>x. case camera_of cameras x of (price, item, models) \<Rightarrow> (price, item)) = model_rank"
    by (auto simp: camera_of_def model_rank_def fun_eq_iff)
  ultimately show ?thesis by (simp add: first_min_def model_candidates_lines sort_key_map pick_def hd_map)
qed

lemma model_rows_count:
  "counts_picks (same_model_discounted_rows (same_model_receipts ls screens cameras)) (qualifying (model_qualifies screens cameras) ls)
     (pick model_rank (model_candidate screens cameras) ls)"
proof -
  let ?R = "same_model_receipts ls screens cameras" and ?p = "pick model_rank (model_candidate screens cameras) ls"
  let ?Q = "qualifying (model_qualifies screens cameras) ls"
  note r = model_receipts [of ls screens cameras]
  have q: "k \<in> ?Q \<longleftrightarrow> filter (model_candidate screens cameras (bon_lines ls k)) (bon_lines ls k) \<noteq> []" for k
    by (force simp: qualifying_def model_qualifies_def filter_empty_conv bon_lines_def)
  have R: "x = receipt_of_lines screens cameras (bon_lines ls k)" if "(k, x) \<in> set ?R" for k x
    using that r map_of_is_SomeI [of ?R k x] by (simp split: if_splits)
  have sub: "?Q \<subseteq> fst ` set ?R"
  proof
    fix k assume k: "k \<in> ?Q"
    then have "k \<in> sold_bons ls" using same_model.pick_spec(1,2,4) [OF k] unfolding sold_bons_def by force
    then show "k \<in> fst ` set ?R" using r by (metis (no_types, lifting) domI dom_map_of_conv_image_fst)
  qed
  have "distinct (map fst rs) \<Longrightarrow> set rs \<subseteq> set ?R \<Longrightarrow> counts_picks (foldl add_model_discount [] rs) (?Q \<inter> fst ` set rs) ?p" for rs
  proof (induction rs rule: rev_induct)
    case Nil
    then show ?case by (simp add: counts_picks_def)
  next
    case (snoc kr rs)
    obtain day site agent bon x where kr: "kr = ((day, site, agent, bon), x)" by (metis prod.exhaust)
    let ?k = "(day, site, agent, bon)" and ?d = "foldl add_model_discount [] rs"
    have ih: "counts_picks ?d (?Q \<inter> fst ` set rs) ?p" and new: "?k \<notin> fst ` set rs" using snoc kr by auto
    have x: "x = receipt_of_lines screens cameras (bon_lines ls ?k)" using R snoc.prems(2) kr by simp
    show ?case
    proof (cases "?k \<in> ?Q")
      case False
      then have "model_candidates x = []" unfolding x model_candidates_lines using q [of ?k] by simp
      then have "add_model_discount ?d kr = ?d" by (simp add: kr add_model_discount_def)
      moreover have "?Q \<inter> fst ` set (rs @ [kr]) = ?Q \<inter> fst ` set rs" using False kr by auto
      ultimately show ?thesis using ih by simp
    next
      case True
      note s = same_model.pick_spec [OF True]
      have ne: "model_candidates x \<noteq> []" unfolding x model_candidates_lines using q [of ?k] True by simp
      have min: "first_min (model_candidates x) = camera_of cameras (?p ?k)" unfolding x by (rule first_min_pick [OF s(2)]) (use q [of ?k] True in simp)
      have u: "(site, agent, lv_item_code (fst (?p ?k))) = unit_of (?p ?k)" using s(2) by (simp add: bon_of_def unit_of_def)
      obtain n gross where g: "dict_value (unit_of (?p ?k)) (0, 0) ?d = (n, gross)" by fastforce
      have "add_model_discount ?d kr = dict_set (unit_of (?p ?k)) (n + 1, gross + price_of (?p ?k)) ?d"
      proof -
        obtain c cs where cs: "model_candidates x = c # cs" using ne by (cases "model_candidates x") auto
        show ?thesis using min g by (simp add: kr add_model_discount_def cs camera_of_def u)
      qed
      moreover have "?Q \<inter> fst ` set (rs @ [kr]) = insert ?k (?Q \<inter> fst ` set rs)" using True kr by auto
      ultimately show ?thesis using counts_insert [OF ih _ _ refl g] new by simp
    qed
  qed
  from this [of ?R] r sub show ?thesis by (simp add: same_model_discounted_rows_def inf.absorb1)
qed

section \<open>Results\<close>

definition disc :: "rat \<Rightarrow> int \<Rightarrow> rat" where
  "disc rate gross = of_int (round_half_up (dec_ctx DEFAULT_PREC (of_int gross / 100 * rate) * 100)) / 100"

definition in_precision :: "rat \<Rightarrow> int \<Rightarrow> bool" where
  "in_precision rate gross \<longleftrightarrow> \<bar>round_half_up (dec_ctx DEFAULT_PREC (of_int gross / 100 * rate) * 100)\<bar> < 10 ^ DEFAULT_PREC"

lemma result_loop_rows:
  assumes "distinct (map fst us @ map fst rows)" and "map fst vs = map fst us" and "\<forall>(k, n, g) \<in> set rows. in_precision rate g"
  shows "result_loop rate rows us vs = Inr (us @ map (\<lambda>(k, n, g). (k, n)) rows, vs @ map (\<lambda>(k, n, g). (k, disc rate g)) rows)"
  using assms
proof (induction rate rows us vs rule: result_loop.induct)
  case (2 rate k n gross rows us vs)
  have "k \<notin> set (map fst us)" using "2.prems"(1) by simp
  then have "k \<notin> set (map fst us)" "k \<notin> set (map fst vs)" unfolding "2.prems"(2) by simp_all
  then have "dict_set k n us = us @ [(k, n)]" "dict_set k (disc rate gross) vs = vs @ [(k, disc rate gross)]" by (simp_all add: dict_set_def)
  moreover have "dec_quantize round_half_up 2 (dec_ctx DEFAULT_PREC (of_int gross / 100 * rate)) = Inr (disc rate gross)"
    using "2.prems"(3) by (simp add: dec_quantize_def Let_def in_precision_def disc_def)
  ultimately show ?case using "2.IH" [of "disc rate gross"] "2.prems" by simp
qed simp

lemma precision_enough:
  assumes "0 \<le> rate" and "rate \<le> 1" and "\<bar>gross\<bar> < 10 ^ 24"
  shows "in_precision rate gross"
proof -
  let ?x = "of_int gross / 100 * rate" and ?d = "dec_ctx DEFAULT_PREC (of_int gross / 100 * rate)"
  have "\<bar>?x\<bar> \<le> of_int \<bar>gross\<bar> / 100 * 1" unfolding abs_mult by (intro mult_mono) (use assms in auto)
  then have x: "\<bar>?x\<bar> \<le> 10 ^ 22" using assms(3) by (simp add: of_int_less_iff [symmetric, where ?'a = rat] del: of_int_less_iff)
  have "\<bar>?d - ?x\<bar> \<le> \<bar>?x\<bar> * 5 * 10 powi (- int DEFAULT_PREC)" by (rule dec_ctx_error) (simp add: DEFAULT_PREC_def)
  also have "\<dots> \<le> \<bar>?x\<bar> * 1" by (simp add: DEFAULT_PREC_def power_int_minus mult_left_le)
  finally have "\<bar>?d\<bar> \<le> 2 * 10 ^ 22" using x by linarith
  then have "\<bar>?d * 100\<bar> \<le> 2 * 10 ^ 24" unfolding abs_mult by simp
  moreover have "\<bar>of_int (round_half_up (?d * 100)) - ?d * 100\<bar> \<le> 1 / 2" by (rule round_half_up_near)
  ultimately have "\<bar>of_int (round_half_up (?d * 100))\<bar> \<le> (2 * 10 ^ 24 + 1 / 2 :: rat)" by linarith
  also have "\<dots> < 10 ^ 28" by simp
  finally have "\<bar>of_int (round_half_up (?d * 100))\<bar> < (10 ^ 28 :: rat)" .
  then have "of_int \<bar>round_half_up (?d * 100)\<bar> < (of_int (10 ^ 28) :: rat)" by simp
  then show ?thesis unfolding in_precision_def DEFAULT_PREC_def by (simp only: of_int_less_iff)
qed

definition one_unit_per_bon :: "rat \<Rightarrow> sale_line list \<Rightarrow> bon_key set \<Rightarrow> (bon_key \<Rightarrow> sale_line \<Rightarrow> bool) \<Rightarrow> promo_result \<Rightarrow> bool" where
  "one_unit_per_bon rate ls Q cand r \<longleftrightarrow> qualifying_bons r = int (card Q) \<and> discounted_units r = int (card Q) \<and> (\<exists>p.
     (\<forall>k \<in> Q. p k \<in> set ls \<and> bon_of (p k) = k \<and> cand k (p k)
        \<and> (\<forall>l \<in> set ls. bon_of l = k \<and> cand k l \<longrightarrow> price_of (p k) \<le> price_of l))
     \<and> (\<forall>u. dict_value u 0 (excluded_units r) = int (card (picks_of Q p u)) \<and> dict_value u 0 (excluded_units r) \<le> units_sold_of ls u
        \<and> dict_value u 0 (excluded_discount_values r) = disc rate (\<Sum>k \<in> picks_of Q p u. price_of (p k))))"

lemma counts_total:
  assumes c: "counts_picks rows Q p" and fin: "finite Q"
  shows "sum_list (map (\<lambda>(k, n, g). n) rows) = int (card Q)"
proof -
  let ?f = "\<lambda>u. case map_of rows u of None \<Rightarrow> 0 | Some (n, g) \<Rightarrow> n"
  have d: "distinct (map fst rows)" using c by (simp add: counts_picks_def)
  have dom: "fst ` set rows = (\<lambda>k. unit_of (p k)) ` Q"
  proof -
    have "u \<in> fst ` set rows \<longleftrightarrow> picks_of Q p u \<noteq> {}" for u
    proof -
      have "map_of rows u = (if picks_of Q p u = {} then None else Some (int (card (picks_of Q p u)), \<Sum>k \<in> picks_of Q p u. price_of (p k)))"
        using c unfolding counts_picks_def by blast
      then show ?thesis using map_of_eq_None_iff [of rows u] by (metis option.distinct(1))
    qed
    moreover have "picks_of Q p u \<noteq> {} \<longleftrightarrow> u \<in> (\<lambda>k. unit_of (p k)) ` Q" for u unfolding picks_of_def by blast
    ultimately show ?thesis by (intro set_eqI) simp
  qed
  have "sum_list (map (\<lambda>(k, n, g). n) rows) = sum_list (map (\<lambda>u. ?f u) (map fst rows))"
    unfolding map_map by (intro arg_cong [where f = sum_list] map_cong [OF refl]) (auto simp: map_of_is_SomeI [OF d])
  also have "\<dots> = (\<Sum>u \<in> fst ` set rows. ?f u)" using sum_list_distinct_conv_sum_set [OF d, of ?f] by simp
  also have "\<dots> = (\<Sum>u \<in> (\<lambda>k. unit_of (p k)) ` Q. \<Sum>k \<in> {k \<in> Q. unit_of (p k) = u}. 1)"
    unfolding dom
  proof (rule sum.cong [OF refl])
    fix u assume "u \<in> (\<lambda>k. unit_of (p k)) ` Q"
    then have "picks_of Q p u \<noteq> {}" unfolding picks_of_def by blast
    moreover have "map_of rows u = (if picks_of Q p u = {} then None else Some (int (card (picks_of Q p u)), \<Sum>k \<in> picks_of Q p u. price_of (p k)))"
      using c unfolding counts_picks_def by blast
    ultimately have "?f u = int (card (picks_of Q p u))" by simp
    then show "?f u = (\<Sum>k \<in> {k \<in> Q. unit_of (p k) = u}. 1)" by (simp add: picks_of_def)
  qed
  also have "\<dots> = (\<Sum>k \<in> Q. 1)" by (rule sum.image_gen [OF fin, symmetric])
  finally show ?thesis by simp
qed

lemma counts_get:
  assumes "counts_picks rows Q p"
  shows "dict_value u 0 (map (\<lambda>(k, n, g). (k, n)) rows) = int (card (picks_of Q p u))"
    and "dict_value u 0 (map (\<lambda>(k, n, g). (k, disc rate g)) rows) = disc rate (\<Sum>k \<in> picks_of Q p u. price_of (p k))"
proof -
  have m: "map_of (map (\<lambda>(k, n, g). (k, h n g)) rows) u = map_option (\<lambda>(n, g). h n g) (map_of rows u)" for h :: "int \<Rightarrow> int \<Rightarrow> 'b" and rows :: "discounted_row list"
    by (induction rows) auto
  have z: "disc rate 0 = 0" using round_half_up_of_int [of 0] by (simp add: disc_def)
  have c: "map_of rows u = (if picks_of Q p u = {} then None else Some (int (card (picks_of Q p u)), \<Sum>k \<in> picks_of Q p u. price_of (p k)))"
    using assms unfolding counts_picks_def by blast
  show "dict_value u 0 (map (\<lambda>(k, n, g). (k, n)) rows) = int (card (picks_of Q p u))"
    "dict_value u 0 (map (\<lambda>(k, n, g). (k, disc rate g)) rows) = disc rate (\<Sum>k \<in> picks_of Q p u. price_of (p k))"
    unfolding dict_value_def m c by (simp_all add: z)
qed

context discount_rule
begin

lemma gross_bound: "\<bar>\<Sum>k \<in> picks_of (qualifying qual ls) (pick rank cand ls) u. price_of (pick rank cand ls k)\<bar> \<le> sum_list (map (\<lambda>l. \<bar>price_of l\<bar>) ls)"
proof -
  let ?K = "picks_of (qualifying qual ls) (pick rank cand ls) u" and ?a = "\<lambda>l. \<bar>price_of l\<bar>"
  have fin: "finite ?K" using finite_qualifying by (simp add: picks_of_def)
  have "\<bar>\<Sum>k \<in> ?K. price_of (pick rank cand ls k)\<bar> \<le> (\<Sum>k \<in> ?K. ?a (pick rank cand ls k))" by (rule sum_abs)
  also have "\<dots> \<le> (\<Sum>k \<in> ?K. sum_list (map ?a (filter (\<lambda>l. bon_of l = k) ls)))"
  proof (rule sum_mono)
    fix k assume "k \<in> ?K"
    then have "pick rank cand ls k \<in> set (filter (\<lambda>l. bon_of l = k) ls)" using pick_spec(1,2) [of k ls] by (simp add: picks_of_def)
    then show "?a (pick rank cand ls k) \<le> sum_list (map ?a (filter (\<lambda>l. bon_of l = k) ls))" by (intro member_le_sum_list) auto
  qed
  also have "\<dots> \<le> (\<Sum>k \<in> ?K \<union> bon_of ` set ls. sum_list (map ?a (filter (\<lambda>l. bon_of l = k) ls)))"
    using fin by (intro sum_mono2) (auto intro!: sum_list_nonneg)
  also have "\<dots> = sum_list (map ?a ls)" by (rule sum_key_fibres) (use fin in auto)
  finally show ?thesis .
qed

lemma rule_result:
  assumes c: "counts_picks rows (qualifying qual ls) (pick rank cand ls)" and "0 \<le> rate" "rate \<le> 1" and "sum_list (map (\<lambda>l. \<bar>price_of l\<bar>) ls) < 10 ^ 24"
  shows "\<exists>r. result_from_discounted_rows rate rows = Inr r \<and> one_unit_per_bon rate ls (qualifying qual ls) (\<lambda>k. cand (bon_lines ls k)) r"
proof -
  let ?p = "pick rank cand ls" and ?Q = "qualifying qual ls"
  let ?us = "map (\<lambda>(k, n, g). (k, n)) rows" and ?vs = "map (\<lambda>(k, n, g). (k, disc rate g)) rows"
  have d: "distinct (map fst rows)" using c by (simp add: counts_picks_def)
  have prec: "\<forall>(k, n, g) \<in> set rows. in_precision rate g"
  proof (clarify)
    fix site agent item n g assume "((site, agent, item), n, g) \<in> set rows"
    then have "map_of rows (site, agent, item) = Some (n, g)" by (rule map_of_is_SomeI [OF d])
    then have "g = (\<Sum>k \<in> picks_of ?Q ?p (site, agent, item). price_of (?p k))"
      using c by (simp add: counts_picks_def del: map_of_eq_None_iff map_of_eq_Some_iff split: if_splits)
    then have "\<bar>g\<bar> < 10 ^ 24" using gross_bound [of ls "(site, agent, item)"] assms(4) by simp
    then show "in_precision rate g" by (rule precision_enough [OF assms(2,3)])
  qed
  have res: "result_from_discounted_rows rate rows = Inr (result_from_metrics ?us ?vs)"
    using result_loop_rows [of "[]" rows "[]" rate] d prec by (simp add: result_from_discounted_rows_def)
  have "sum_list (map snd ?us) = int (card ?Q)"
    using counts_total [OF c finite_qualifying] by (simp add: comp_def case_prod_unfold)
  moreover have "\<forall>k \<in> ?Q. ?p k \<in> set ls \<and> bon_of (?p k) = k \<and> cand (bon_lines ls k) (?p k)
      \<and> (\<forall>l \<in> set ls. bon_of l = k \<and> cand (bon_lines ls k) l \<longrightarrow> price_of (?p k) \<le> price_of l)"
    using pick_spec by (auto simp: bon_lines_def)
  moreover have "dict_value u 0 ?us = int (card (picks_of ?Q ?p u)) \<and> dict_value u 0 ?us \<le> units_sold_of ls u
      \<and> dict_value u 0 ?vs = disc rate (\<Sum>k \<in> picks_of ?Q ?p u. price_of (?p k))" for u
    using counts_get [OF c, of u] units_bound [of ls u] by simp
  ultimately have "one_unit_per_bon rate ls ?Q (\<lambda>k. cand (bon_lines ls k)) (result_from_metrics ?us ?vs)"
    unfolding one_unit_per_bon_def result_from_metrics_def Let_def promo_result.simps by blast
  with res show ?thesis by blast
qed

end

section \<open>The three rules\<close>

text \<open>
  C14: co-purchase promotions. Within 28 digits the computation succeeds, and every receipt with a
  selected product and two units in all gives exactly one discounted unit: the cheapest selected product on it. Per store, agent and product the
  discounted units never exceed those sold, and the discount is the rate on the prices of the chosen units, rounded half up to the cent.
\<close>

theorem copurchase_one_unit_per_receipt:
  assumes "ls = promo_lines q [Texts_param codes] (\<lambda>_. True) live stores"
    and "codes \<noteq> []" and "0 \<le> pq_discount_rate q" and "pq_discount_rate q \<le> 1" and "sum_list (map (\<lambda>l. \<bar>price_of l\<bar>) ls) < 10 ^ 24"
  shows "\<exists>r. compute_promo_copurchase collate live stores q codes = Inr r
    \<and> one_unit_per_bon (pq_discount_rate q) ls (qualifying (copurchase_qualifies codes) ls) (\<lambda>_ l. item_in codes l \<and> 0 < pos_qty l) r"
proof -
  obtain ks where "distinct ks" "set ks = qualifying (copurchase_qualifies codes) ls"
    "discounted collate (copurchase_qualifies codes) (item_in codes) ls = map (pick (sql_rank collate) (sql_candidate codes) ls) ks"
    using discounted_picks [OF copurchase.discount_rule_axioms] by blast
  then have "counts_picks (discounted_rows (discounted collate (copurchase_qualifies codes) (item_in codes) ls))
      (qualifying (copurchase_qualifies codes) ls) (pick (sql_rank collate) (sql_candidate codes) ls)"
    using rows_count_picks by metis
  from copurchase.rule_result [OF this assms(3-5)] show ?thesis
    using assms(2) by (simp add: compute_promo_copurchase_def assms(1) sql_candidate_def [abs_def])
qed

text \<open>
  Promotions with a trigger. Every receipt with a trigger and a reduced product gives exactly
  one discounted unit, the cheapest reduced product on it, within what was sold.
\<close>

theorem trigger_one_unit_per_receipt:
  assumes "ls = promo_lines q [Texts_param triggers, Texts_param codes] (\<lambda>c. c \<in> set triggers \<or> c \<in> set codes) live stores"
    and "triggers \<noteq> []" and "codes \<noteq> []" and "0 \<le> pq_discount_rate q" and "pq_discount_rate q \<le> 1" and "sum_list (map (\<lambda>l. \<bar>price_of l\<bar>) ls) < 10 ^ 24"
  shows "\<exists>r. compute_promo_trigger_discounted collate live stores q triggers codes = Inr r
    \<and> one_unit_per_bon (pq_discount_rate q) ls (qualifying (trigger_qualifies triggers codes) ls) (\<lambda>_ l. item_in codes l \<and> 0 < pos_qty l) r"
proof -
  obtain ks where "distinct ks" "set ks = qualifying (trigger_qualifies triggers codes) ls"
    "discounted collate (trigger_qualifies triggers codes) (item_in codes) ls = map (pick (sql_rank collate) (sql_candidate codes) ls) ks"
    using discounted_picks [OF trigger.discount_rule_axioms] by blast
  then have "counts_picks (discounted_rows (discounted collate (trigger_qualifies triggers codes) (item_in codes) ls))
      (qualifying (trigger_qualifies triggers codes) ls) (pick (sql_rank collate) (sql_candidate codes) ls)"
    using rows_count_picks by metis
  from trigger.rule_result [OF this assms(4-6)] show ?thesis
    using assms(2,3) by (simp add: compute_promo_trigger_discounted_def assms(1) sql_candidate_def [abs_def])
qed

text \<open>
  C38: screen and camera of the same model. The loops over dictionaries give exactly one discounted unit to
  every receipt that holds a camera product sharing a model with one of the receipt's screen products: the cheapest such camera product, within what
  was sold.
\<close>

theorem same_model_one_unit_per_receipt:
  assumes "ls = promo_lines q [Texts_param (sort (map fst screens)), Texts_param (sort (map fst cameras))]
      (\<lambda>c. c \<in> set (sort (map fst screens)) \<or> c \<in> set (sort (map fst cameras))) live stores"
    and "concat (map snd screens) \<noteq> []" and "concat (map snd cameras) \<noteq> []" and "0 \<le> pq_discount_rate q" and "pq_discount_rate q \<le> 1"
    and "sum_list (map (\<lambda>l. \<bar>price_of l\<bar>) ls) < 10 ^ 24"
  shows "\<exists>r. compute_promo_same_model_pair live stores q screens cameras = Inr r
    \<and> one_unit_per_bon (pq_discount_rate q) ls (qualifying (model_qualifies screens cameras) ls)
        (\<lambda>k. model_candidate screens cameras (bon_lines ls k)) r"
proof -
  have e: "(concat (map snd screens) = [] \<or> concat (map snd cameras) = []) = False" using assms(2,3) by blast
  show ?thesis
    using same_model.rule_result [OF model_rows_count assms(4-6)]
    unfolding compute_promo_same_model_pair_def e if_False Let_def assms(1) .
qed

section \<open>A receipt of three lines\<close>

definition promo_sale :: "string \<Rightarrow> int \<Rightarrow> int \<Rightarrow> live_row" where
  "promo_sale item qty cents = \<lparr>lv_import_month = ''2026-07'', lv_sale_date = (2026, 7, 3), lv_site = ''S1'', lv_bon_nr = ''7'',
     lv_item_code = item, lv_item_name = item, lv_brand = None, lv_category = None, lv_subcategory = None,
     lv_quantity = qty, lv_unit_price = cents, lv_total_value = qty * cents, lv_agent = ''ana'', lv_is_cartela = False, lv_is_return = False,
     lv_snapshot_id = 1\<rparr>"

definition promo_sales :: "live_row list" where
  "promo_sales = [promo_sale ''screen'' 1 5000, promo_sale ''camera'' 2 3000, promo_sale ''cover'' 1 2000]"

definition promo_store :: store_info where
  "promo_store = \<lparr>si_site = ''S1'', si_locatie = ''Mall'', si_firma = ''F'', si_regional = ''R'', si_asm = ''A'',
     first_seen_month = ''2026-01'', last_seen_month = ''2026-07'', is_active = True\<rparr>"

definition promo_request :: promo_query where
  "promo_request = \<lparr>pq_month = ''2026-07'', pq_start = (2026, 7, 1), pq_end = (2026, 7, 31),
     pq_scope = \<lparr>fs_firma = No_filter, fs_regional = One_filter ''Toate'', fs_asm = No_filter, fs_site_code = One_filter '' S1 '', fs_agent = No_filter\<rparr>,
     pq_current_scope = True, pq_include_closed_stores = False, pq_discount_rate = 1 / 5\<rparr>"

lemma promo_request_rate: "0 \<le> pq_discount_rate promo_request" "pq_discount_rate promo_request \<le> 1"
  by (simp_all add: promo_request_def)

lemma single_bon:
  assumes "one_unit_per_bon rate ls (qualifying qual ls) c r" and "bon_totals qual ls = [k]"
  shows "discounted_units r = 1"
proof -
  have "qualifying qual ls = {k}" using bon_totals_qualifying [of qual ls] by (simp add: assms(2))
  moreover have "discounted_units r = int (card (qualifying qual ls))" using assms(1) unfolding one_unit_per_bon_def by blast
  ultimately show ?thesis by simp
qed

theorem copurchase_one_unit_per_receipt_witness:
  "\<exists>r. compute_promo_copurchase id promo_sales [promo_store] promo_request [''cover'', ''camera''] = Inr r \<and> discounted_units r = 1"
proof -
  let ?ls = "promo_lines promo_request [Texts_param [''cover'', ''camera'']] (\<lambda>_. True) promo_sales [promo_store]"
  have b: "sum_list (map (\<lambda>l. \<bar>price_of l\<bar>) ?ls) < 10 ^ 24"
    "bon_totals (copurchase_qualifies [''cover'', ''camera'']) ?ls = [((2026, 7, 3), ''S1'', ''ana'', ''7'')]"
    by code_simp+
  from copurchase_one_unit_per_receipt [OF refl _ promo_request_rate b(1)] show ?thesis using single_bon [OF _ b(2)] by blast
qed

theorem trigger_one_unit_per_receipt_witness:
  "\<exists>r. compute_promo_trigger_discounted id promo_sales [promo_store] promo_request [''screen''] [''camera''] = Inr r \<and> discounted_units r = 1"
proof -
  let ?ls = "promo_lines promo_request [Texts_param [''screen''], Texts_param [''camera'']] (\<lambda>c. c \<in> set [''screen''] \<or> c \<in> set [''camera'']) promo_sales [promo_store]"
  have b: "sum_list (map (\<lambda>l. \<bar>price_of l\<bar>) ?ls) < 10 ^ 24" "bon_totals (trigger_qualifies [''screen''] [''camera'']) ?ls = [((2026, 7, 3), ''S1'', ''ana'', ''7'')]"
    by code_simp+
  from trigger_one_unit_per_receipt [OF refl _ _ promo_request_rate b(1)] show ?thesis using single_bon [OF _ b(2)] by blast
qed

theorem same_model_one_unit_per_receipt_witness:
  "\<exists>r. compute_promo_same_model_pair promo_sales [promo_store] promo_request [(''screen'', [''A55''])] [(''camera'', [''A54'', ''A55''])] = Inr r \<and> discounted_units r = 1"
proof -
  let ?s = "[(''screen'', [''A55''])]" and ?c = "[(''camera'', [''A54'', ''A55''])]"
  let ?ls = "promo_lines promo_request [Texts_param (sort (map fst ?s)), Texts_param (sort (map fst ?c))]
      (\<lambda>c. c \<in> set (sort (map fst ?s)) \<or> c \<in> set (sort (map fst ?c))) promo_sales [promo_store]"
  have b: "sum_list (map (\<lambda>l. \<bar>price_of l\<bar>) ?ls) < 10 ^ 24" "bon_totals (model_qualifies ?s ?c) ?ls = [((2026, 7, 3), ''S1'', ''ana'', ''7'')]"
    by code_simp+
  have n: "concat (map snd ?s) \<noteq> []" "concat (map snd ?c) \<noteq> []" by simp_all
  from same_model_one_unit_per_receipt [OF refl n promo_request_rate b(1)] show ?thesis using single_bon [OF _ b(2)] by blast
qed

end
