(* ===== verification/Promo_Merge.thy ===== *)
theory Promo_Merge
  imports Promo_Evaluation Promo_Correctness
begin

text \<open>
  The merge of promotion results (\<^verbatim>\<open>merge_promo_results\<close> of \<^verbatim>\<open>services/promo_types.py\<close>): the units and the discounts of two results are added
  key by key, and the results of rules and of reports are well formed enough for no cent to be lost.
\<close>

section \<open>Sums of dictionaries\<close>

lemma dict_value_set: "dict_value k x (dict_set k' v d) = (if k = k' then v else dict_value k x d)"
  by (simp add: dict_value_def map_of_dict_set)

lemma dict_set_fst: "map fst (dict_set k v d) = (if k \<in> fst ` set d then map fst d else map fst d @ [k])"
proof -
  have "map fst (map (\<lambda>(k', v'). if k' = k then (k, v) else (k', v')) d) = map fst d" by (auto simp: case_prod_unfold)
  then show ?thesis unfolding dict_set_def by (simp del: map_map)
qed

lemma dict_set_snd: "snd ` set (dict_set k v d) \<subseteq> insert v (snd ` set d)"
  by (force simp: dict_set_def split: if_splits)

lemma dict_value_cases: "dict_value k z d = z \<or> dict_value k z d \<in> snd ` set d"
  by (cases "map_of d k") (auto simp: dict_value_def dest!: map_of_SomeD intro: rev_image_eqI)

text \<open>
  The entries of a dictionary added to another one, with an addition that is exact on the values the dictionaries hold: integers for
  units, decimals of the context for discounts.
\<close>

locale dict_sum =
  fixes plus :: "'v \<Rightarrow> 'v \<Rightarrow> 'v" and zero :: 'v and rounded :: "'v \<Rightarrow> bool"
  assumes zero_right: "rounded v \<Longrightarrow> plus v zero = v" and zero_left: "rounded v \<Longrightarrow> plus zero v = v" and rounded_plus: "rounded (plus v w)"
begin

definition merge_in :: "('k \<times> 'v) list \<Rightarrow> ('k \<times> 'v) list \<Rightarrow> ('k \<times> 'v) list" where
  "merge_in xs d = fold (\<lambda>(k, v) d. dict_set k (plus (dict_value k zero d) v) d) xs d"

lemma merge_keys:
  "distinct (map fst xs) \<Longrightarrow> map fst (merge_in xs d) = map fst d @ filter (\<lambda>k. k \<notin> fst ` set d) (map fst xs)"
proof (induction xs arbitrary: d)
  case (Cons x xs)
  let ?d = "dict_set (fst x) (plus (dict_value (fst x) zero d) (snd x)) d"
  note k = dict_set_fst [of "fst x" _ d]
  have "fst ` set ?d = insert (fst x) (fst ` set d)" using arg_cong [OF k, of set] by auto
  moreover have "filter (\<lambda>k. k \<noteq> fst x \<and> k \<notin> fst ` set d) (map fst xs) = filter (\<lambda>k. k \<notin> fst ` set d) (map fst xs)"
    using Cons.prems by (intro filter_cong) (auto simp: image_iff)
  moreover have "fst x \<notin> fst ` set xs" "distinct (map fst xs)" using Cons.prems by auto
  ultimately show ?case using Cons.IH [of ?d] k by (simp add: merge_in_def case_prod_beta)
qed (simp add: merge_in_def)

lemma rounded_set:
  assumes "\<forall>v \<in> V \<union> snd ` set d. rounded v"
  shows "\<forall>v \<in> V \<union> snd ` set (dict_set k (plus a b) d). rounded v"
proof
  fix v assume "v \<in> V \<union> snd ` set (dict_set k (plus a b) d)"
  then have "v \<in> V \<union> snd ` set d \<or> v = plus a b" using dict_set_snd [of k "plus a b" d] by fast
  then show "rounded v" using assms rounded_plus by metis
qed

lemma merge_value:
  assumes "distinct (map fst xs)" and "\<forall>v \<in> snd ` set xs \<union> snd ` set d. rounded v"
  shows "dict_value k zero (merge_in xs d) = (if k \<in> fst ` set xs then plus (dict_value k zero d) (dict_value k zero xs) else dict_value k zero d)"
  using assms
proof (induction xs arbitrary: d)
  case (Cons x xs)
  let ?d = "dict_set (fst x) (plus (dict_value (fst x) zero d) (snd x)) d"
  have "\<forall>v \<in> snd ` set xs \<union> snd ` set ?d. rounded v" by (rule rounded_set) (use Cons.prems(2) in simp)
  then have "dict_value k zero (merge_in (x # xs) d) = (if k \<in> fst ` set xs then plus (dict_value k zero ?d) (dict_value k zero xs) else dict_value k zero ?d)"
    using Cons by (simp add: merge_in_def case_prod_beta)
  moreover have "fst x \<notin> fst ` set xs" using Cons.prems(1) by simp
  then have "k \<in> fst ` set xs \<Longrightarrow> k \<noteq> fst x" by blast
  moreover have "dict_value k zero (x # xs) = (if k = fst x then snd x else dict_value k zero xs)" by (cases x) (simp add: dict_value_def)
  ultimately show ?case by (cases "k = fst x"; cases "k \<in> fst ` set xs") (simp_all add: dict_value_set)
qed (simp add: merge_in_def)

lemma merge_empty: "distinct (map fst xs) \<Longrightarrow> \<forall>v \<in> snd ` set xs. rounded v \<Longrightarrow> merge_in xs [] = xs"
proof (induction xs rule: rev_induct)
  case (snoc x xs)
  have "fst x \<notin> fst ` set xs" using snoc.prems by auto
  moreover have "merge_in xs [] = xs" using snoc by simp
  ultimately show ?case using snoc.prems zero_left
    by (cases x) (simp add: merge_in_def dict_set_def dict_value_def map_of_eq_None_iff [THEN iffD2])
qed (simp add: merge_in_def)

lemma absent_value: "k \<notin> fst ` set d \<Longrightarrow> dict_value k zero d = zero"
  by (simp add: dict_value_def map_of_eq_None_iff [THEN iffD2])

text \<open>The value of a key is the sum of its values, absent keys counting as zero.\<close>

lemma merge_sum:
  assumes "distinct (map fst xs)" and "\<forall>v \<in> snd ` set xs \<union> snd ` set d. rounded v" and "rounded zero"
  shows "dict_value k zero (merge_in xs d) = plus (dict_value k zero d) (dict_value k zero xs)"
proof -
  have "rounded (dict_value k zero d)" using assms(2,3) dict_value_cases [of k zero d] by auto
  then show ?thesis using merge_value [OF assms(1,2)] absent_value [of k xs] zero_right by simp
qed

end

interpretation units: dict_sum "(+) :: int \<Rightarrow> int \<Rightarrow> int" 0 "\<lambda>_. True"
  by unfold_locales simp_all

interpretation discounts: dict_sum "\<lambda>v w. dec_ctx DEFAULT_PREC (v + w)" 0 "\<lambda>v. dec_ctx DEFAULT_PREC v = v"
  by unfold_locales (simp_all add: dec_ctx_idem DEFAULT_PREC_def)

section \<open>A result that accounts for two others\<close>

text \<open>
  The results of rules and of reports: counts that are those of the units, dictionaries without repeated keys, discounts that are
  whole cents of at most 28 digits.
\<close>

definition money_value :: "rat \<Rightarrow> bool" where
  "money_value v \<longleftrightarrow> dec_ctx DEFAULT_PREC v = v \<and> (\<exists>n. v = of_int n / 100)"

definition result_ok :: "promo_result \<Rightarrow> bool" where
  "result_ok r \<longleftrightarrow> r = result_from_metrics (excluded_units r) (excluded_discount_values r)
     \<and> distinct (map fst (excluded_units r)) \<and> distinct (map fst (excluded_discount_values r))
     \<and> (\<forall>v \<in> snd ` set (excluded_discount_values r). money_value v)"

definition joined_keys :: "('k \<times> 'v) list \<Rightarrow> ('k \<times> 'v) list \<Rightarrow> 'k list" where
  "joined_keys d e = map fst d @ filter (\<lambda>k. k \<notin> fst ` set d) (map fst e)"

text \<open>A result that accounts for two others: units and money per store, agent and product, and the counts.\<close>

definition accounts_for :: "promo_result \<Rightarrow> promo_result \<Rightarrow> promo_result \<Rightarrow> bool" where
  "accounts_for a t r \<longleftrightarrow>
     map fst (excluded_units r) = joined_keys (excluded_units a) (excluded_units t)
   \<and> map fst (excluded_discount_values r) = joined_keys (excluded_discount_values a) (excluded_discount_values t)
   \<and> (\<forall>k. dict_value k 0 (excluded_units r) = dict_value k 0 (excluded_units a) + dict_value k 0 (excluded_units t))
   \<and> (\<forall>k. let v = dict_value k 0 (excluded_discount_values a); w = dict_value k 0 (excluded_discount_values t) in
        dict_value k 0 (excluded_discount_values r) = dec_ctx DEFAULT_PREC (v + w)
        \<and> (\<bar>v + w\<bar> < 10 ^ 26 \<longrightarrow> dict_value k 0 (excluded_discount_values r) = v + w))
   \<and> qualifying_bons r = qualifying_bons a + qualifying_bons t \<and> discounted_units r = discounted_units a + discounted_units t
   \<and> active_stores r = int (card (fst ` (fst ` set (excluded_units a) \<union> fst ` set (excluded_units t))))
   \<and> active_agents r = int (card ((\<lambda>k. fst (snd k)) ` (fst ` set (excluded_units a) \<union> fst ` set (excluded_units t)) - {'''', ''-''}))"

lemma metrics_counts:
  "qualifying_bons (result_from_metrics us vs) = sum_list (map snd us)" "discounted_units (result_from_metrics us vs) = sum_list (map snd us)"
  "active_stores (result_from_metrics us vs) = int (card (fst ` fst ` set us))"
  "active_agents (result_from_metrics us vs) = int (card ((\<lambda>k. fst (snd k)) ` fst ` set us - {'''', ''-''}))"
  "excluded_units (result_from_metrics us vs) = us" "excluded_discount_values (result_from_metrics us vs) = vs"
proof -
  have "(\<lambda>((site, agent, item), n). agent) ` set us = (\<lambda>k. fst (snd k)) ` fst ` set us" "(\<lambda>((site, agent, item), n). site) ` set us = fst ` fst ` set us"
    by (force simp: image_image case_prod_beta)+
  then show "active_stores (result_from_metrics us vs) = int (card (fst ` fst ` set us))"
    "active_agents (result_from_metrics us vs) = int (card ((\<lambda>k. fst (snd k)) ` fst ` set us - {'''', ''-''}))"
    by (auto simp: result_from_metrics_def Let_def intro!: arg_cong [of _ _ card])
qed (simp_all add: result_from_metrics_def Let_def)

lemma result_okD:
  assumes "result_ok r"
  shows "qualifying_bons r = sum_list (map snd (excluded_units r))" "discounted_units r = sum_list (map snd (excluded_units r))"
    "active_stores r = int (card (fst ` fst ` set (excluded_units r)))"
    "active_agents r = int (card ((\<lambda>k. fst (snd k)) ` fst ` set (excluded_units r) - {'''', ''-''}))"
proof -
  have "r = result_from_metrics (excluded_units r) (excluded_discount_values r)" using assms by (simp add: result_ok_def)
  then show "qualifying_bons r = sum_list (map snd (excluded_units r))" "discounted_units r = sum_list (map snd (excluded_units r))"
    "active_stores r = int (card (fst ` fst ` set (excluded_units r)))"
    "active_agents r = int (card ((\<lambda>k. fst (snd k)) ` fst ` set (excluded_units r) - {'''', ''-''}))"
    by (metis metrics_counts(1), metis metrics_counts(2), metis metrics_counts(3), metis metrics_counts(4))
qed

lemma units_total: "distinct (map fst d) \<Longrightarrow> sum_list (map snd (units.merge_in xs d)) = sum_list (map snd d) + sum_list (map snd xs)"
proof (induction xs arbitrary: d)
  case (Cons x xs)
  let ?d = "dict_set (fst x) (dict_value (fst x) 0 d + snd x) d"
  have "sum_list (map snd ?d) = sum_list (map snd d) + snd x"
    using dict_set_sum [OF Cons.prems, of "\<lambda>v. v" "fst x" "dict_value (fst x) 0 d + snd x"] by (simp add: dict_value_def split: option.splits)
  moreover have "distinct (map fst ?d)" using dict_set_keys [OF Cons.prems] by simp
  ultimately show ?case using Cons.IH [of ?d] by (simp add: units.merge_in_def case_prod_beta)
qed (simp add: units.merge_in_def)

lemma merge_two:
  assumes "result_ok a" and "result_ok t"
  shows "merge_promo_results [Some a, Some t] = result_from_metrics (units.merge_in (excluded_units t) (excluded_units a))
    (discounts.merge_in (excluded_discount_values t) (excluded_discount_values a))"
proof -
  have "fold (\<lambda>(k, n). add_units k n) xs d = units.merge_in xs d" for xs d by (simp add: units.merge_in_def add_units_def [abs_def])
  moreover have "fold (\<lambda>(k, v). add_discount k v) xs d = discounts.merge_in xs d" for xs d by (simp add: discounts.merge_in_def add_discount_def [abs_def])
  moreover have "units.merge_in (excluded_units a) [] = excluded_units a" "discounts.merge_in (excluded_discount_values a) [] = excluded_discount_values a"
    using assms(1) by (auto simp: result_ok_def money_value_def intro: units.merge_empty discounts.merge_empty)
  ultimately show ?thesis by (simp add: merge_promo_results_def List.map_filter_simps)
qed

lemma discount_of_key:
  assumes "result_ok r"
  shows "\<exists>n. dict_value k 0 (excluded_discount_values r) = of_int n / 100"
proof -
  have "\<forall>v \<in> snd ` set (excluded_discount_values r). \<exists>n. v = of_int n / 100" using assms by (simp add: result_ok_def money_value_def)
  then show ?thesis using dict_value_cases [of k 0 "excluded_discount_values r"] by (metis div_0 of_int_0)
qed

lemma exact_sum:
  assumes "result_ok a" and "result_ok t"
    and "\<bar>dict_value k 0 (excluded_discount_values a) + dict_value k 0 (excluded_discount_values t)\<bar> < 10 ^ 26"
  shows "dec_ctx DEFAULT_PREC (dict_value k 0 (excluded_discount_values a) + dict_value k 0 (excluded_discount_values t))
    = dict_value k 0 (excluded_discount_values a) + dict_value k 0 (excluded_discount_values t)"
proof -
  obtain n m where n: "dict_value k 0 (excluded_discount_values a) = of_int n / 100" "dict_value k 0 (excluded_discount_values t) = of_int m / 100"
    using discount_of_key assms(1,2) by meson
  have s: "of_int n / 100 + of_int m / 100 = (of_int (n + m) / 100 :: rat)" by (simp add: add_divide_distrib)
  have "(of_int \<bar>n + m\<bar> :: rat) < of_int (10 ^ 28)" using assms(3) unfolding n s by simp
  then have "\<bar>n + m\<bar> < 10 ^ DEFAULT_PREC" unfolding of_int_less_iff DEFAULT_PREC_def .
  then show ?thesis unfolding n s by (rule dec_ctx_cents)
qed

lemma merge_accounts:
  assumes "result_ok a" and "result_ok t"
  shows "accounts_for a t (merge_promo_results [Some a, Some t])"
proof -
  have d: "distinct (map fst (excluded_units a))" "distinct (map fst (excluded_units t))" "distinct (map fst (excluded_discount_values t))"
    and r: "\<forall>v \<in> snd ` set (excluded_discount_values t) \<union> snd ` set (excluded_discount_values a). dec_ctx DEFAULT_PREC v = v"
    using assms by (auto simp: result_ok_def money_value_def)
  have keys: "fst ` set (units.merge_in (excluded_units t) (excluded_units a)) = fst ` set (excluded_units a) \<union> fst ` set (excluded_units t)"
    using arg_cong [OF units.merge_keys [OF d(2), of "excluded_units a"], of set] by auto
  show ?thesis unfolding accounts_for_def Let_def merge_two [OF assms] metrics_counts keys joined_keys_def
    using units.merge_keys [OF d(2)] discounts.merge_keys [OF d(3)] units.merge_sum [OF d(2)] discounts.merge_sum [OF d(3) r] units_total [OF d(1)]
      result_okD(1,2) [OF assms(1)] result_okD(1,2) [OF assms(2)] exact_sum [OF assms] by simp
qed

lemma nothing_accounts:
  assumes "result_ok a"
  shows "accounts_for a empty_promo_result a"
proof -
  have "dec_ctx DEFAULT_PREC (dict_value k 0 (excluded_discount_values a)) = dict_value k 0 (excluded_discount_values a)" for k
    using assms dict_value_cases [of k 0 "excluded_discount_values a"] by (auto simp: result_ok_def money_value_def)
  then show ?thesis using result_okD [OF assms]
    by (simp add: accounts_for_def joined_keys_def empty_promo_result_def dict_value_def [of _ _ "[]"])
qed

section \<open>Results are well formed\<close>

lemma empty_ok: "result_ok empty_promo_result"
  by (simp add: result_ok_def empty_promo_result_def result_from_metrics_def)

definition dicts_ok :: "(unit_key \<times> int) list \<times> (unit_key \<times> rat) list \<Rightarrow> bool" where
  "dicts_ok d \<longleftrightarrow> distinct (map fst (fst d)) \<and> distinct (map fst (snd d))
     \<and> (\<forall>v \<in> snd ` set (snd d). money_value v)"

lemma metrics_ok: "dicts_ok (us, vs) \<Longrightarrow> result_ok (result_from_metrics us vs)"
  by (simp add: result_ok_def dicts_ok_def metrics_counts)

lemma dicts_ok_set:
  assumes "dicts_ok (us, vs)" and "money_value v"
  shows "dicts_ok (dict_set k m us, dict_set k v vs)"
proof -
  have "\<forall>w \<in> insert v (snd ` set vs). money_value w" using assms by (simp add: dicts_ok_def)
  then have "\<forall>w \<in> snd ` set (dict_set k v vs). money_value w" using dict_set_snd [of k v vs] by blast
  moreover have "distinct (map fst (dict_set k m us))" "distinct (map fst (dict_set k v vs))" using assms(1) dict_set_keys [of us k m] dict_set_keys [of vs k v] by (simp_all add: dicts_ok_def)
  ultimately show ?thesis by (simp add: dicts_ok_def)
qed

lemma result_loop_ok: "result_loop rate rows us vs = Inr (us', vs') \<Longrightarrow> dicts_ok (us, vs) \<Longrightarrow> dicts_ok (us', vs')"
proof (induction rate rows us vs rule: result_loop.induct)
  case (2 rate k n gross rows us vs)
  then obtain v where v: "dec_quantize round_half_up 2 (dec_ctx DEFAULT_PREC (of_int gross / 100 * rate)) = Inr v"
    and rest: "result_loop rate rows (dict_set k n us) (dict_set k v vs) = Inr (us', vs')" by (auto simp: res_bind_Inr)
  let ?m = "round_half_up (dec_ctx DEFAULT_PREC (of_int gross / 100 * rate) * 10 ^ 2)"
  have m: "v = of_int ?m / 100" "\<bar>?m\<bar> < 10 ^ DEFAULT_PREC" using v by (simp_all add: dec_quantize_def Let_def split: if_splits)
  have "money_value v" unfolding money_value_def m(1) using dec_ctx_cents [OF m(2)] by blast
  then show ?case using "2.IH" [OF rest] dicts_ok_set [OF "2.prems"(2)] by blast
qed simp

lemma add_discount_ok:
  assumes "dicts_ok (us, vs)" and "v = of_int n / 100"
  shows "dicts_ok (add_units k m us, add_discount k v vs)"
proof -
  have "\<forall>w \<in> snd ` set vs. \<exists>i. w = of_int i / 100" using assms(1) by (simp add: dicts_ok_def money_value_def)
  moreover have "(0 :: rat) = of_int 0 / 100" by simp
  ultimately obtain i where "dict_value k 0 vs = of_int i / 100" using dict_value_cases [of k 0 vs] by metis
  then have "dict_value k 0 vs + v = of_int (i + n) / 100" using assms(2) by (simp add: add_divide_distrib)
  then have "\<exists>j. dec_ctx DEFAULT_PREC (dict_value k 0 vs + v) = of_int j / 100" using dec_ctx_whole_cents [of "i + n"] by (simp only:)
  then have "money_value (dec_ctx DEFAULT_PREC (dict_value k 0 vs + v))" using dec_ctx_idem [of DEFAULT_PREC] by (simp add: money_value_def DEFAULT_PREC_def)
  then show ?thesis unfolding add_units_def add_discount_def by (rule dicts_ok_set [OF assms(1)])
qed

lemma dict_of_snd: "snd ` set (dict_of kvs) \<subseteq> snd ` set kvs"
proof -
  have "snd ` set (fold (\<lambda>(k, v). dict_set k v) kvs d) \<subseteq> snd ` set kvs \<union> snd ` set d" for d
  proof (induction kvs arbitrary: d)
    case (Cons x kvs)
    show ?case using Cons.IH [of "dict_set (fst x) (snd x) d"] dict_set_snd [of "fst x" "snd x" d] by (auto simp: case_prod_beta)
  qed simp
  from this [of "[]"] show ?thesis unfolding dict_of_def by simp
qed

lemma shares_whole_cents:
  assumes "allocate_value_to_agents amount allocations = Inr shares"
  shows "\<exists>n. dict_value agent 0 shares = of_int n / 100"
proof -
  obtain ps :: "value_part list" where "shares = dict_of (map (\<lambda>p. (vp_agent p, dec_ctx DEFAULT_PREC (of_int (vp_cents p) / 100))) ps)"
  proof (cases "sum_list (map snd allocations) \<le> 0")
    case True
    then have "shares = dict_of []" using assms by (simp add: allocate_value_to_agents_def dict_of_def)
    then show ?thesis using that [of "[]"] by simp
  next
    case False
    then show ?thesis using assms that by (auto simp: allocate_value_to_agents_def Let_def res_bind_Inr)
  qed
  then have "snd ` set shares \<subseteq> snd ` set (map (\<lambda>p. (vp_agent p, dec_ctx DEFAULT_PREC (of_int (vp_cents p) / 100))) ps)"
    using dict_of_snd by metis
  also have "\<dots> = (\<lambda>p. dec_ctx DEFAULT_PREC (of_int (vp_cents p) / 100)) ` set ps" by (simp add: image_image)
  finally have "\<forall>v \<in> snd ` set shares. \<exists>n. v = of_int n / 100" using dec_ctx_whole_cents by (metis (no_types, lifting) imageE in_mono)
  moreover have "(0 :: rat) = of_int 0 / 100" by simp
  ultimately show ?thesis using dict_value_cases [of agent 0 shares] by metis
qed

lemma add_allocations_ok:
  "dicts_ok d \<Longrightarrow> (\<And>agent. \<exists>n. dict_value agent 0 shares = of_int n / 100) \<Longrightarrow> dicts_ok (add_allocations allowed k shares allocations d)"
proof (induction allowed k shares allocations d rule: add_allocations.induct)
  case (2 allowed site item shares agent n rest us vs)
  obtain i where "dict_value agent 0 shares = of_int i / 100" using "2.prems"(2) by blast
  from add_discount_ok [OF "2.prems"(1) this] show ?case using 2 by simp
qed simp

lemma allocate_actuals_ok: "allocate_actuals c allowed rate rest d = Inr d' \<Longrightarrow> dicts_ok d \<Longrightarrow> dicts_ok d'"
proof (induction c allowed rate rest d rule: allocate_actuals.induct)
  case (2 c allowed rate k n rest d)
  then show ?case by (auto simp: res_bind_Inr Let_def intro: add_allocations_ok shares_whole_cents)
qed simp

lemma no_dicts_ok: "dicts_ok ([], [])"
  by (simp add: dicts_ok_def)

lemma rule_result_ok: "evaluate_rule_result s p rule codes q = Inr r \<Longrightarrow> result_ok r"
proof -
  have "result_ok r" if "result_from_discounted_rows rate rows = Inr r" for rate rows
    using that metrics_ok [OF result_loop_ok [OF _ no_dicts_ok]] by (auto simp: result_from_discounted_rows_def res_bind_Inr)
  then show "evaluate_rule_result s p rule codes q = Inr r \<Longrightarrow> result_ok r"
    by (cases rule) (auto simp: evaluate_rule_result_def compute_promo_same_model_pair_def compute_promo_trigger_discounted_def compute_promo_copurchase_def
      Let_def empty_ok split: if_splits)
qed

lemma report_result_ok:
  assumes "compute_promo_actuals_from_report env stores days d q codes = Inr (Some r)"
  shows "result_ok r"
proof -
  have "result_ok r" if result: "allocated_actual_result c allowed rate = Inr r" for c allowed rate r
  proof -
    obtain us vs where "allocate_actuals c allowed rate (scoped_units c) ([], []) = Inr (us, vs)" "r = result_from_metrics us vs"
      using result by (auto simp: allocated_actual_result_def res_bind_Inr)
    then show ?thesis using metrics_ok allocate_actuals_ok [OF _ no_dicts_ok] by blast
  qed
  then show ?thesis using assms
    by (auto simp: compute_promo_actuals_from_report_def Let_def empty_ok split: sum.splits option.splits if_splits prod.splits)
qed

end
