(* ===== verification/Promo_Days.thy ===== *)
theory Promo_Days
  imports Promo_Merge
begin

text \<open>
  The days of a promotion: a complete evaluation is the report up to its cutoff and the rule on the sales after it, no day twice and
  none left out; and the units a report confirms are all handed out.
\<close>

section \<open>The scope of a promotion\<close>

definition promo_in_scope :: "promo_query \<Rightarrow> live_row \<Rightarrow> store_info \<Rightarrow> bool" where
  "promo_in_scope q t s \<longleftrightarrow> (let f = pq_scope q; v = scope_value f in
     \<not> distribution_location (si_locatie s) \<and> \<not> lv_is_cartela t \<and> matches (fs_agent f) (lv_agent t)
     \<and> (case v ''site_code'' of Some sites \<Rightarrow> lv_site t \<in> set sites
        | None \<Rightarrow> matches (fs_firma f) (si_firma s) \<and>
            (if pq_current_scope q \<and> v ''asm'' = None then matches (fs_regional f) (si_regional s) \<or> matches (fs_regional f) (si_asm s)
             else matches (fs_regional f) (si_regional s) \<and> matches (fs_asm f) (si_asm s)))
     \<and> (pq_current_scope q \<and> \<not> pq_include_closed_stores q \<longrightarrow> is_active s))"

lemma promo_where_iff: "promo_where q initial (t, s) \<longleftrightarrow> promo_in_scope q t s"
proof -
  let ?f = "pq_scope q"
  obtain ps pos where b: "build_scoped_params initial ?f = (ps, pos)" by fastforce
  note any = any_clause_true [OF b, of "transaction_row (t, s)"] and none = scoped_params(2) [OF b] and some = scoped_params(3) [OF b]
  let ?cs = "scoped_clauses pos ''st'' ''s'' (Some ''st'') None True"
  have plain: "where_true (transaction_row (t, s)) ps ?cs \<longleftrightarrow> \<not> distribution_location (si_locatie s) \<and> \<not> lv_is_cartela t
      \<and> in_scope ?f (si_firma s) (si_regional s) (si_asm s) (lv_site t) (lv_agent t)"
    using scoped_true [OF b, of "transaction_row (t, s)" "''s''" "si_locatie s" "si_firma s" "si_regional s" "si_asm s" "''st''" "lv_site t" "''st''" "lv_agent t" None True] by simp
  show ?thesis
  proof (cases "pq_current_scope q \<and> pos ''regional'' \<noteq> None \<and> pos ''asm'' = None \<and> pos ''site_code'' = None")
    case True
    then obtain n where n: "pos ''regional'' = Some n" by auto
    obtain vs where vs: "scope_value ?f ''regional'' = Some vs" "param_at ps n = Some (Texts_param vs)" using some [OF n] by blast
    have ne: "c \<noteq> Any_of_param (''s'', ''regional'') n" if "c \<in> set (any_clause pos k d)" "d \<noteq> (''s'', ''regional'')" for c k d
      using that by (auto simp: any_clause_def split: option.splits)
    have keep: "map (\<lambda>c. if c = Any_of_param (''s'', ''regional'') n then X else c) (any_clause pos k d) = any_clause pos k d" if "d \<noteq> (''s'', ''regional'')" for k d X
      using ne that by (intro map_idI) auto
    have "where_true (transaction_row (t, s)) ps (expand_current_manager_scope ?cs pos ''s'') \<longleftrightarrow>
        \<not> distribution_location (si_locatie s) \<and> \<not> lv_is_cartela t \<and> where_true (transaction_row (t, s)) ps (any_clause pos ''firma'' (''s'', ''firma''))
        \<and> (si_regional s \<in> set vs \<or> si_asm s \<in> set vs) \<and> where_true (transaction_row (t, s)) ps (any_clause pos ''agent'' (''st'', ''agent''))"
      using True n vs(2) by (simp add: expand_current_manager_scope_def scoped_clauses_def keep any_of_def any_clause_def [of pos "''regional''"]
        any_clause_def [of pos "''asm''"] any_clause_def [of pos "''site_code''"])
    also have "\<dots> \<longleftrightarrow> \<not> distribution_location (si_locatie s) \<and> \<not> lv_is_cartela t \<and> matches (fs_firma ?f) (si_firma s)
        \<and> (si_regional s \<in> set vs \<or> si_asm s \<in> set vs) \<and> matches (fs_agent ?f) (lv_agent t)"
      using True none [of "''site_code''"] by (simp add: any matches_def scope_value_def Let_def)
    finally have e: "where_true (transaction_row (t, s)) ps (expand_current_manager_scope ?cs pos ''s'') \<longleftrightarrow> \<dots>" .
    have "normalize_filter_values (fs_regional ?f) = Some vs" using vs(1) True none [of "''site_code''"] by (simp add: scope_value_def Let_def)
    then show ?thesis using True e none [of "''site_code''"] none [of "''asm''"]
      by (auto simp: promo_where_def b promo_scope_clauses_def Let_def promo_in_scope_def matches_def)
  next
    case False
    have "expand_current_manager_scope ?cs pos ''s'' = ?cs" if "pq_current_scope q"
      using False that by (auto simp: expand_current_manager_scope_def split: option.splits)
    moreover have "matches (fs_regional ?f) x" if "pq_current_scope q" "scope_value ?f ''site_code'' = None" "scope_value ?f ''asm'' = None" for x
      using False that none by (auto simp: matches_def scope_value_def Let_def)
    moreover have "matches (fs_asm ?f) x" if "scope_value ?f ''asm'' = None" "scope_value ?f ''site_code'' = None" for x
      using that by (auto simp: matches_def scope_value_def Let_def)
    moreover have "scope_value ?f ''site_code'' = normalize_filter_values (fs_site_code ?f)" by (simp add: scope_value_def Let_def)
    ultimately show ?thesis using plain
      by (auto simp: promo_where_def b promo_scope_clauses_def Let_def promo_in_scope_def in_scope_def split: option.splits)
  qed
qed

section \<open>Days after the cutoff\<close>

definition valid_day :: "sale_day \<Rightarrow> bool" where
  "valid_day x \<longleftrightarrow> (case x of (y, m, d) \<Rightarrow> 1 \<le> m \<and> m \<le> 12 \<and> 1 \<le> d \<and> int d \<le> month_length (int y) (int m))"

lemma next_day_le: "valid_day x \<Longrightarrow> valid_day c \<Longrightarrow> next_day c \<le> x \<longleftrightarrow> c < x"
proof -
  assume v: "valid_day x" "valid_day c"
  obtain y m d y' m' d' where e: "x = (y, m, d)" "c = (y', m', d')" by (metis prod.exhaust)
  show ?thesis using v unfolding e by (cases "y = y'"; cases "m = m'") (auto simp: valid_day_def next_day_def less_prod_def less_eq_prod_def)
qed

lemma promo_lines_scope:
  "promo_lines q codes item_ok live stores = filter (\<lambda>l. pq_start q \<le> lv_sale_date (fst l) \<and> lv_sale_date (fst l) \<le> pq_end q
     \<and> \<not> lv_is_return (fst l) \<and> item_ok (lv_item_code (fst l)) \<and> promo_in_scope q (fst l) (snd l)) (sales_join (pq_month q) live stores)"
  unfolding promo_lines_def using promo_where_iff [of q _ "fst l" "snd l" for l] by simp

lemma sales_join_filter: "sales_join month (filter P live) stores = filter (\<lambda>l. P (fst l)) (sales_join month live stores)"
  unfolding sales_join_def by (induction live) (auto simp: filter_map comp_def)

lemma sales_join_live: "l \<in> set (sales_join month live stores) \<Longrightarrow> fst l \<in> set live"
  by (auto simp: sales_join_def)

lemma tail_lines:
  assumes "list_all (\<lambda>t. valid_day (lv_sale_date t)) live" and "valid_day c"
  shows "promo_lines (q\<lparr>pq_start := max (pq_start q) (next_day c)\<rparr>) codes item_ok live stores
    = promo_lines q codes item_ok (filter (\<lambda>t. c < lv_sale_date t) live) stores"
proof -
  have days: "max (pq_start q) (next_day c) \<le> lv_sale_date (fst l) \<longleftrightarrow> c < lv_sale_date (fst l) \<and> pq_start q \<le> lv_sale_date (fst l)"
    if "l \<in> set (sales_join (pq_month q) live stores)" for l
    using next_day_le [OF _ assms(2)] assms(1) sales_join_live [OF that] by (auto simp: list_all_iff)
  have scope: "promo_in_scope (q\<lparr>pq_start := x\<rparr>) = promo_in_scope q" for x by (auto simp: promo_in_scope_def fun_eq_iff)
  show ?thesis unfolding promo_lines_scope sales_join_filter filter_filter scope
  proof (rule filter_cong)
    fix x assume x: "x \<in> set (sales_join (pq_month q) live stores)"
    have "pq_start (q\<lparr>pq_start := max (pq_start q) (next_day c)\<rparr>) = max (pq_start q) (next_day c)"
      "pq_end (q\<lparr>pq_start := max (pq_start q) (next_day c)\<rparr>) = pq_end q" by simp_all
    then show "(pq_start (q\<lparr>pq_start := max (pq_start q) (next_day c)\<rparr>) \<le> lv_sale_date (fst x)
        \<and> lv_sale_date (fst x) \<le> pq_end (q\<lparr>pq_start := max (pq_start q) (next_day c)\<rparr>) \<and> \<not> lv_is_return (fst x)
        \<and> item_ok (lv_item_code (fst x)) \<and> promo_in_scope q (fst x) (snd x)) \<longleftrightarrow> (c < lv_sale_date (fst x) \<and> pq_start q \<le> lv_sale_date (fst x)
        \<and> lv_sale_date (fst x) \<le> pq_end q \<and> \<not> lv_is_return (fst x) \<and> item_ok (lv_item_code (fst x)) \<and> promo_in_scope q (fst x) (snd x))"
      using days [OF x] by metis
  qed simp
qed

lemma rule_on_tail:
  assumes "list_all (\<lambda>t. valid_day (lv_sale_date t)) (se_live s)" and "valid_day c"
  shows "evaluate_rule_result s p rule codes (q\<lparr>pq_start := max (pq_start q) (next_day c)\<rparr>)
    = evaluate_rule_result (s\<lparr>se_live := filter (\<lambda>t. c < lv_sale_date t) (se_live s)\<rparr>) p rule codes q"
  using tail_lines [OF assms, of q]
  by (cases rule) (simp_all add: evaluate_rule_result_def compute_promo_same_model_pair_def compute_promo_trigger_discounted_def compute_promo_copurchase_def Let_def)

lemma no_lines_no_result:
  assumes "pq_end q < pq_start q"
  shows "evaluate_rule_result s p rule codes q = Inr empty_promo_result"
proof -
  have "promo_lines q cs item_ok live stores = []" for cs item_ok live stores
    unfolding promo_lines_scope filter_empty_conv using assms by auto
  moreover have "discounted f qual sel [] = []" for f qual sel by (simp add: discounted_def rollup_rows_def)
  moreover have "discounted_rows [] = []" by (simp add: discounted_rows_def rollup_rows_def)
  ultimately show ?thesis
    by (cases rule) (simp_all add: evaluate_rule_result_def compute_promo_same_model_pair_def compute_promo_trigger_discounted_def compute_promo_copurchase_def
      Let_def same_model_receipts_def same_model_discounted_rows_def result_from_discounted_rows_def result_from_metrics_def empty_promo_result_def)
qed

section \<open>Units by store and product\<close>

lemma add_units_distinct: "distinct (map fst d) \<Longrightarrow> distinct (map fst (add_units k n d))"
  by (simp add: add_units_def dict_set_keys)

lemma dict_value_sum: "distinct (map fst xs) \<Longrightarrow> sum_list (map snd (filter (\<lambda>x. fst x = k) xs)) = dict_value k (0 :: int) xs"
proof (induction xs)
  case (Cons x xs)
  have "filter (\<lambda>y. fst y = fst x) xs = []" using Cons.prems by (auto simp: filter_empty_conv image_iff)
  with Cons show ?case by (cases x) (auto simp: dict_value_def)
qed (simp add: dict_value_def)

lemma allocations_distinct:
  "distinct (map fst (fst d)) \<Longrightarrow> distinct (map fst (fst (add_allocations allowed k shares allocations d)))"
  by (induction allowed k shares allocations d rule: add_allocations.induct) (auto simp: add_units_distinct)

section \<open>Evaluation\<close>

lemma rule_evaluation:
  assumes "pd_actuals_file d = None" and "evaluate_promotion env s q d = Inr e" and "is_complete e"
  shows "\<exists>p r. pd_products d = Some p \<and> pe_result e = Some r
    \<and> evaluate_rule_result s p (pd_rule_type d) (promotion_item_codes p (pd_rule_type d)) (promotion_common d (q\<lparr>pq_discount_rate := pd_discount_rate d\<rparr>)) = Inr r"
  using assms(2,3) unfolding evaluate_promotion.simps [of env s q d] no_report [OF assms(1)]
  by (auto simp: Let_def is_complete_def split: option.splits sum.splits)

lemma evaluation_codes:
  assumes "evaluate_promotion env s q d = Inr e" and "pd_products d = Some p"
  shows "pe_item_codes e = promotion_item_codes p (pd_rule_type d) \<and> pe_rule_type e = pd_rule_type d"
  using assms(1) unfolding evaluate_promotion.simps [of env s q d]
  by (auto simp: Let_def assms(2) split: option.splits sum.splits evaluation_error.splits if_splits)

lemma report_evaluation:
  assumes "pd_actuals_file d = Some f" and "promo_actuals_cutoff_date env d = Some c"
    and "evaluate_promotion env s q d = Inr e" and "is_complete e" and "pe_result e = Some r"
  shows "\<exists>p a. pd_products d = Some p
    \<and> compute_promo_actuals_from_report env (se_stores s) (se_item_days s) d (q\<lparr>pq_discount_rate := pd_discount_rate d\<rparr>)
        (promotion_item_codes p (pd_rule_type d)) = Inr (Some a)
    \<and> (if pd_end_date d < max (pd_start_date d) (next_day c) then r = a
       else \<exists>tail t. evaluate_promotion env s q (d\<lparr>pd_start_date := max (pd_start_date d) (next_day c), pd_actuals_file := None\<rparr>) = Inr tail
         \<and> is_complete tail \<and> pe_result tail = Some t \<and> r = merge_promo_results [Some a, Some t])"
proof -
  obtain p where p: "pd_products d = Some p" using assms(3-5) by (auto simp: evaluate_promotion.simps [of env s q d] Let_def is_complete_def split: option.splits)
  let ?rep = "compute_promo_actuals_from_report env (se_stores s) (se_item_days s) d (q\<lparr>pq_discount_rate := pd_discount_rate d\<rparr>) (promotion_item_codes p (pd_rule_type d))"
  have "?rep \<noteq> Inr None"
  proof
    assume "?rep = Inr None"
    then have "load_promo_actuals_material env d = Inr None"
      by (auto simp: compute_promo_actuals_from_report_def filtered_promo_actuals_def res_bind_Inr Let_def split: sum.splits option.splits prod.splits if_splits)
        (metis option.exhaust prod.exhaust)
    then show False using assms(1) by (auto simp: load_promo_actuals_material_def res_bind_Inr split: option.splits)
  qed
  then obtain a where a: "?rep = Inr (Some a)"
    using assms(3-5) p by (cases ?rep) (auto simp: evaluate_promotion.simps [of env s q d] Let_def is_complete_def split: option.splits evaluation_error.splits)
  let ?start = "max (pd_start_date d) (next_day c)"
  let ?o = "\<lambda>r status. \<lparr>pe_result = r, pe_item_codes = promotion_item_codes p (pd_rule_type d), pe_rule_type = pd_rule_type d, pe_status = status\<rparr>"
  have ev: "evaluate_promotion env s q d = (if pd_end_date d < ?start then Inr (?o (Some a) Promo_complete)
      else (case evaluate_promotion env s q (d\<lparr>pd_start_date := ?start, pd_actuals_file := None\<rparr>) of
          Inl e \<Rightarrow> Inl e
        | Inr tail \<Rightarrow> (case pe_result tail of
            Some t \<Rightarrow> if is_complete tail then Inr (?o (Some (merge_promo_results [Some a, Some t])) Promo_complete) else Inr (?o (Some a) Promo_partial)
          | None \<Rightarrow> Inr (?o (Some a) Promo_partial))))"
    unfolding evaluate_promotion.simps [of env s q d] by (simp only: p a assms(2) Let_def option.case sum.case)
  show ?thesis
  proof (cases "pd_end_date d < ?start")
    case True
    then have "e = ?o (Some a) Promo_complete" using assms(3) unfolding ev by simp
    then show ?thesis using True p a assms(5) by simp
  next
    case False
    with assms(3) obtain tail where tail: "evaluate_promotion env s q (d\<lparr>pd_start_date := ?start, pd_actuals_file := None\<rparr>) = Inr tail"
      and e: "(case pe_result tail of
            Some t \<Rightarrow> if is_complete tail then Inr (?o (Some (merge_promo_results [Some a, Some t])) Promo_complete) else Inr (?o (Some a) Promo_partial)
          | None \<Rightarrow> Inr (?o (Some a) Promo_partial)) = (Inr e :: (decimal_error, promo_evaluation) result)"
      unfolding ev if_not_P [OF False] by (auto split: sum.splits)
    then obtain t where "pe_result tail = Some t" "is_complete tail" "e = ?o (Some (merge_promo_results [Some a, Some t])) Promo_complete"
      using assms(4) by (auto simp: is_complete_def split: option.splits if_splits)
    then show ?thesis using tail False p a assms(5) by auto
  qed
qed

text \<open>
  C15: the report and the rule share the days without overlap or gap. A complete evaluation of a promotion with a report that ends at a
  cutoff accounts for exactly two results, that of the report and that of the rule on the sales after the cutoff, whether or not any day of
  the promotion is left after it. Every store, agent and product has the units of both and the money of both (added as decimals, without
  rounding below \<open>10 ^ 26\<close>), the keys are those of the report followed by the new ones of the rule, receipts and discounted units are the sums,
  and active stores and agents are counted once.
\<close>

theorem evaluation_splits_at_cutoff:
  assumes "pd_actuals_file d = Some f" and "promo_actuals_cutoff_date env d = Some c" and "valid_day c"
    and "list_all (\<lambda>t. valid_day (lv_sale_date t)) (se_live s)"
    and "evaluate_promotion env s q d = Inr e" and "is_complete e" and "pe_result e = Some r"
  shows "\<exists>p a t. pd_products d = Some p
    \<and> compute_promo_actuals_from_report env (se_stores s) (se_item_days s) d (q\<lparr>pq_discount_rate := pd_discount_rate d\<rparr>)
        (promotion_item_codes p (pd_rule_type d)) = Inr (Some a)
    \<and> evaluate_rule_result (s\<lparr>se_live := filter (\<lambda>l. c < lv_sale_date l) (se_live s)\<rparr>) p (pd_rule_type d) (promotion_item_codes p (pd_rule_type d))
        (promotion_common d (q\<lparr>pq_discount_rate := pd_discount_rate d\<rparr>)) = Inr t
    \<and> accounts_for a t r \<and> pe_item_codes e = promotion_item_codes p (pd_rule_type d) \<and> pe_rule_type e = pd_rule_type d"
proof -
  let ?start = "max (pd_start_date d) (next_day c)" and ?q = "q\<lparr>pq_discount_rate := pd_discount_rate d\<rparr>"
  let ?d = "d\<lparr>pd_start_date := ?start, pd_actuals_file := None\<rparr>"
  obtain p a where p: "pd_products d = Some p"
    and a: "compute_promo_actuals_from_report env (se_stores s) (se_item_days s) d ?q (promotion_item_codes p (pd_rule_type d)) = Inr (Some a)"
    and r: "if pd_end_date d < ?start then r = a else \<exists>tail t. evaluate_promotion env s q ?d = Inr tail
         \<and> is_complete tail \<and> pe_result tail = Some t \<and> r = merge_promo_results [Some a, Some t]"
    using report_evaluation [OF assms(1,2,5-7)] by blast
  have common: "promotion_common ?d ?q = (promotion_common d ?q)\<lparr>pq_start := max (pq_start (promotion_common d ?q)) (next_day c)\<rparr>"
    by (simp add: promotion_common_def)
  note tail = rule_on_tail [OF assms(4,3), of p "pd_rule_type d" "promotion_item_codes p (pd_rule_type d)" "promotion_common d ?q", folded common]
  obtain t where t: "evaluate_rule_result s p (pd_rule_type d) (promotion_item_codes p (pd_rule_type d)) (promotion_common ?d ?q) = Inr t"
    and u: "accounts_for a t r"
  proof (cases "pd_end_date d < ?start")
    case True
    have "pq_end (promotion_common ?d ?q) < pq_start (promotion_common ?d ?q)" unfolding promotion_common_def using True by simp
    from that [OF no_lines_no_result [OF this]] True r nothing_accounts [OF report_result_ok [OF a]] show ?thesis by simp
  next
    case False
    then obtain tl t where tl: "evaluate_promotion env s q ?d = Inr tl" "is_complete tl" "pe_result tl = Some t" and m: "r = merge_promo_results [Some a, Some t]"
      using r by auto
    have "pd_products ?d = Some p" "pd_rule_type ?d = pd_rule_type d" "pd_discount_rate ?d = pd_discount_rate d" using p by simp_all
    then have t: "evaluate_rule_result s p (pd_rule_type d) (promotion_item_codes p (pd_rule_type d)) (promotion_common ?d ?q) = Inr t"
      using rule_evaluation [of ?d, OF _ tl(1,2)] tl(3) by auto
    show ?thesis using that [OF t] merge_accounts [OF report_result_ok [OF a] rule_result_ok [OF t]] m by simp
  qed
  show ?thesis using p a t u evaluation_codes [OF assms(5) p] unfolding tail by blast
qed

section \<open>Confirmed units\<close>

lemma allocate_total: "0 < n \<Longrightarrow> sum_list (map snd (allocate_units_to_agents n cs)) = n"
  by (cases "normalized_candidates cs = []") (simp_all add: allocate_units_sum allocate_units_trivial)

definition at_site_item :: "site_item \<Rightarrow> (unit_key \<times> int) list \<Rightarrow> int" where
  "at_site_item k us = sum_list (map snd (filter (\<lambda>((site, agent, item), n). (site, item) = k) us))"

lemma at_site_item_set:
  assumes "distinct (map fst us)"
  shows "at_site_item k (add_units (site, agent, item) n us) = at_site_item k us + (if (site, item) = k then n else 0)"
proof -
  have sum: "at_site_item k us = sum_list (map (\<lambda>e. (if (case fst e of (site, agent, item) \<Rightarrow> (site, item) = k) then snd e else 0)) us)" for us
    by (induction us) (auto simp: at_site_item_def)
  have "at_site_item k (dict_set u v us) = at_site_item k us + (if (fst u, snd (snd u)) = k then v - dict_value u 0 us else 0)" for u v
    using assms unfolding sum
  proof (induction us)
    case (Cons p us)
    then show ?case by (cases p) (auto simp: dict_set_Cons dict_overwrite_absent dict_value_def simp del: map_map)
  qed (auto simp: dict_set_def dict_value_def)
  then show ?thesis by (simp add: add_units_def)
qed

lemma add_allocations_units:
  "distinct (map fst (fst d)) \<Longrightarrow> at_site_item k' (fst (add_allocations None k shares allocations d))
    = at_site_item k' (fst d) + (if k = k' then sum_list (map snd allocations) else 0)"
  by (induction "None :: string list option" k shares allocations d rule: add_allocations.induct) (auto simp: at_site_item_set add_units_distinct)

lemma allocate_actuals_units:
  assumes "allocate_actuals c None rate rest d = Inr d'" and "distinct (map fst (fst d))" and "\<forall>(k, n) \<in> set rest. 0 < n"
  shows "at_site_item k (fst d') = at_site_item k (fst d) + sum_list (map snd (filter (\<lambda>x. fst x = k) rest))"
  using assms
proof (induction c "None :: string list option" rate rest d rule: allocate_actuals.induct)
  case (2 c rate k0 n rest d)
  let ?al = "allocate_units_to_agents n (dict_value k0 [] (candidates c))"
  obtain shares where sh: "allocate_value_to_agents (dec_ctx DEFAULT_PREC (dict_value k0 0 (scoped_values c) * rate)) ?al = Inr shares"
    and go: "allocate_actuals c None rate rest (add_allocations None k0 shares ?al d) = Inr d'"
    using "2.prems"(1) by (auto simp: Let_def res_bind_Inr)
  have "at_site_item k (fst d') = at_site_item k (fst (add_allocations None k0 shares ?al d)) + sum_list (map snd (filter (\<lambda>x. fst x = k) rest))"
    using "2.hyps" [OF refl go] "2.prems" allocations_distinct by auto
  then show ?case using add_allocations_units [OF "2.prems"(2)] allocate_total [of n] "2.prems"(3) by simp
qed simp

lemma excluded_by_site_item_units: "dict_value k 0 (excluded_by_site_item r) = at_site_item k (excluded_units r)"
proof -
  have "dict_value k 0 (fold (\<lambda>((site, agent, item), n) d. dict_set (site, item) (dict_value (site, item) 0 d + n) d) us d)
      = dict_value k 0 d + at_site_item k us" for us d
    by (induction us arbitrary: d) (auto simp: at_site_item_def dict_value_set)
  then show ?thesis by (simp add: excluded_by_site_item_def dict_value_def [of k 0 "[]"])
qed

text \<open>The units a report confirms in a scope.\<close>

lemma foldl_scoped_units:
  assumes "\<And>k n a qty. (k, n, a, qty) \<in> set rows \<Longrightarrow> (k, n) \<in> A" and "\<And>k n m. (k, n) \<in> A \<Longrightarrow> (k, m) \<in> A \<Longrightarrow> n = m"
  shows "distinct (map fst (scoped_units (actual_candidate_rows rows vs))) \<and> set (scoped_units (actual_candidate_rows rows vs)) = (\<lambda>(k, n, a, qty). (k, n)) ` set rows"
  using assms(1)
proof (induction rows rule: rev_induct)
  case Nil
  then show ?case by (simp add: actual_candidate_rows_def)
next
  case (snoc row rows)
  obtain k n a qty where row: "row = (k, n, a, qty)" by (metis prod.exhaust)
  let ?c = "scoped_units (actual_candidate_rows rows vs)"
  have step: "scoped_units (actual_candidate_rows (rows @ [row]) vs) = dict_set k n ?c"
    by (simp add: actual_candidate_rows_def row add_actual_line_def)
  have prem: "(k, n) \<in> A" if "(k, n, a, qty) \<in> set rows" for k n a qty using snoc.prems [of k n a qty] that by simp
  have ih: "distinct (map fst ?c)" "set ?c = (\<lambda>(k, n, a, qty). (k, n)) ` set rows" using snoc.IH prem by blast+
  have kA: "(k, n) \<in> A" using snoc.prems [of k n a qty] row by simp
  have sub: "set ?c \<subseteq> A" using ih(2) snoc.prems by force
  have "set (dict_set k n ?c) = insert (k, n) (set ?c)"
  proof (cases "k \<in> fst ` set ?c")
    case True
    then obtain m where m: "(k, m) \<in> set ?c" by auto
    have "m = n" using assms(2) [OF _ kA] m sub by blast
    moreover have "m' = n" if "(k, m') \<in> set ?c" for m' using assms(2) [OF _ kA] that sub by blast
    ultimately have "map (\<lambda>(k', v'). if k' = k then (k, n) else (k', v')) ?c = ?c" by (intro map_idI) auto
    then show ?thesis using True m \<open>m = n\<close> by (auto simp: dict_set_def)
  next
    case False
    then show ?thesis by (simp add: dict_set_def)
  qed
  then show ?case unfolding step using ih dict_set_keys [OF ih(1), of k n] by (simp add: row case_prod_unfold)
qed

lemma actual_lines_units: "(\<lambda>(k, n, a, qty). (k, n)) ` set (actual_lines q days actuals) = set actuals"
proof -
  let ?on = "\<lambda>((site, item), n) d. rp_import_month (it_scope d) = pq_month q \<and> rp_site (it_scope d) = site \<and> it_item_code d = item
          \<and> pq_start q \<le> it_sale_date d \<and> it_sale_date d \<le> pq_end q"
  have join: "fst ` set (left_join ?on days actuals) = set actuals"
    by (force simp: left_join_def image_iff split: list.splits)
  have "(\<lambda>(k, n, a, qty). (k, n)) ` set (actual_lines q days actuals) = (\<lambda>((k, n), d). (k, n)) ` set (left_join ?on days actuals)"
    unfolding actual_lines_def rollup_rows_def group_rows_def by (force simp: image_image case_prod_unfold)
  then show ?thesis using join by (simp add: case_prod_unfold)
qed

lemma material_loop_distinct:
  "material_loop rows us vs = Inr (us', vs') \<Longrightarrow> distinct (map fst us) \<Longrightarrow> distinct (map fst us')"
  by (induction rows us vs rule: material_loop.induct) (auto simp: res_bind_Inr dict_set_keys split: if_splits sum.splits)

lemma parsed_distinct: "parsed_material_rows m h t = Inr (us, vs) \<Longrightarrow> distinct (map fst us)"
  using material_loop_distinct [of _ "[]" "[]" us vs]
  by (auto simp: parsed_material_rows_def res_bind_Inr split: option.split_asm if_split_asm)

lemma filtered_units:
  assumes "filtered_promo_actuals env d codes = Inr (Some (us, vs))"
  shows "distinct (map fst us)" and "\<forall>(k, n) \<in> set us. 0 < n"
proof -
  let ?P = "\<lambda>((site, item), n). item \<in> set (filter (\<lambda>c. c \<noteq> []) (map py_strip codes)) \<and> 0 < n"
  obtain us0 vs0 where load: "load_promo_actuals_material env d = Inr (Some (us0, vs0))" and us: "us = filter ?P us0"
    using assms by (auto simp: filtered_promo_actuals_def res_bind_Inr Let_def split: option.splits)
  from load have "distinct (map fst us0)"
    by (auto simp: load_promo_actuals_material_def res_bind_Inr split: option.split_asm dest: parsed_distinct)
  then show "distinct (map fst us)" unfolding us by (rule distinct_map_filter)
  show "\<forall>(k, n) \<in> set us. 0 < n" by (auto simp: us)
qed

lemma zip_vectors: "actual_source_vectors us = (sites, codes, units) \<Longrightarrow> zip (zip sites codes) units = sort us"
proof -
  have "zip (zip (map (\<lambda>((site, item), n). site) xs) (map (\<lambda>((site, item), n). item) xs)) (map snd xs) = xs" for xs :: "(site_item \<times> int) list"
    by (induction xs) auto
  then show "actual_source_vectors us = (sites, codes, units) \<Longrightarrow> zip (zip sites codes) units = sort us"
    by (auto simp: actual_source_vectors_def Let_def)
qed

lemma one_store: "distinct (map si_site stores) \<Longrightarrow> length (filter (\<lambda>s. si_site s = site \<and> P s) stores) \<le> 1"
proof (induction stores)
  case (Cons s stores)
  have "filter (\<lambda>x. si_site x = si_site s \<and> P x) stores = []" using Cons.prems by (simp add: filter_empty_conv) (metis image_eqI)
  with Cons show ?case by auto
qed simp

lemma scoped_filter:
  assumes "distinct (map si_site stores)"
  shows "\<exists>P. scoped_actuals q stores us = filter P (sort us)"
proof -
  have one: "concat (map (\<lambda>((site, item), n). map (\<lambda>s. ((site, item), n)) (filter (\<lambda>s. si_site s = site \<and> R site s) stores)) xs)
      = filter (\<lambda>x. filter (\<lambda>s. si_site s = fst (fst x) \<and> R (fst (fst x)) s) stores \<noteq> []) xs" for R and xs :: "(site_item \<times> int) list"
  proof (induction xs)
    case (Cons x xs)
    obtain site item n where x: "x = ((site, item), n)" by (metis prod.exhaust)
    show ?case
    proof (cases "filter (\<lambda>s. si_site s = site \<and> R site s) stores")
      case (Cons s ss)
      then have "ss = []" using one_store [OF assms, of site "R site"] by simp
      with Cons Cons.IH show ?thesis by (simp add: x)
    qed (simp add: x Cons.IH)
  qed simp
  obtain sites codes units where v: "actual_source_vectors us = (sites, codes, units)" by (metis prod.exhaust)
  obtain ps pos where b: "build_scoped_params [Text_param (pq_month q), Texts_param sites, Texts_param codes, Ints_param units,
      Date_param (pq_start q), Date_param (pq_end q)] ((pq_scope q)\<lparr>fs_agent := No_filter\<rparr>) = (ps, pos)" by fastforce
  show ?thesis unfolding scoped_actuals_def v b Let_def case_prod_conv zip_vectors [OF v] one by blast
qed

text \<open>
  C39: a confirmed unit is never lost. For a report within its days and a request without agents, the units that
  the result attributes to the agents of a store add up, product by product, to those the report confirms for the stores in scope,
  the units beyond all recorded sales included.
\<close>

theorem confirmed_units_handed_out:
  assumes "distinct (map si_site stores)" and "filtered_promo_actuals env d codes = Inr (Some (us, vs))" and "us \<noteq> []"
    and "cutoff = (case promo_actuals_cutoff_date env d of None \<Rightarrow> pd_end_date d | Some c \<Rightarrow> min c (pd_end_date d))"
    and "pd_start_date d \<le> cutoff" and "normalize_filter_values (fs_agent (pq_scope q)) = None"
    and "compute_promo_actuals_from_report env stores days d q codes = Inr (Some r)"
  shows "dict_value k 0 (excluded_by_site_item r) = dict_value k 0 (scoped_actuals (q\<lparr>pq_start := pd_start_date d, pq_end := cutoff\<rparr>) stores us)"
proof -
  let ?q = "q\<lparr>pq_start := pd_start_date d, pq_end := cutoff\<rparr>"
  let ?A = "scoped_actuals ?q stores us" let ?c = "actual_candidate_rows (actual_lines ?q days ?A) vs"
  obtain P where A: "?A = filter P (sort us)" using scoped_filter [OF assms(1)] by blast
  have d: "distinct (map fst ?A)"
  proof -
    have "distinct (map fst (sort us))" using filtered_units(1) [OF assms(2)] by (simp add: distinct_map)
    then show ?thesis unfolding A by (rule distinct_map_filter)
  qed
  have pos: "\<forall>(k, n) \<in> set ?A. 0 < n" using filtered_units(2) [OF assms(2)] unfolding A by auto
  have c: "distinct (map fst (scoped_units ?c)) \<and> set (scoped_units ?c) = (\<lambda>(k, n, a, qty). (k, n)) ` set (actual_lines ?q days ?A)"
  proof (rule foldl_scoped_units [where A = "set ?A"])
    show "(k, n) \<in> set ?A" if "(k, n, a, qty) \<in> set (actual_lines ?q days ?A)" for k n a qty
      using that actual_lines_units [of ?q days ?A] by force
    show "n = m" if "(k, n) \<in> set ?A" "(k, m) \<in> set ?A" for k n m using that eq_key_imp_eq_value [OF d] by blast
  qed
  then have su: "distinct (map fst (scoped_units ?c))" "set (scoped_units ?c) = set ?A" unfolding actual_lines_units by simp_all
  have "allocated_actual_result ?c None (pq_discount_rate q) = Inr r"
    using assms(2,3,5-7) unfolding compute_promo_actuals_from_report_def
    by (simp add: Let_def assms(4) [symmetric] agent_filter_values_def leD split: sum.splits)
  then obtain us' vs' where go: "allocate_actuals ?c None (pq_discount_rate q) (scoped_units ?c) ([], []) = Inr (us', vs')" and r: "r = result_from_metrics us' vs'"
    by (auto simp: allocated_actual_result_def res_bind_Inr)
  have "at_site_item k us' = sum_list (map snd (filter (\<lambda>x. fst x = k) (scoped_units ?c)))"
    using allocate_actuals_units [OF go] pos su(2) by (simp add: at_site_item_def)
  also have "\<dots> = dict_value k 0 (scoped_units ?c)" by (rule dict_value_sum [OF su(1)])
  also have "\<dots> = dict_value k 0 ?A" using map_of_inject_set [OF su(1) d] su(2) by (simp add: dict_value_def)
  finally show ?thesis unfolding excluded_by_site_item_units r by (simp add: result_from_metrics_def Let_def)
qed

section \<open>A report and a day after it\<close>

definition report_sha :: string where
  "report_sha = replicate 64 (CHR ''0'')"

definition report_material :: material where
  "report_material = \<lparr>mt_version = Some 1, mt_source_sha256 = Some report_sha,
     mt_rows = Some [\<lparr>mr_site_code = ''S1 '', mr_item_code = ''cover'', mr_quantity = Some 2, mr_value = Some 40\<rparr>],
     mt_cutoff_date = Some ''2026-07-02'', mt_report_rows = Some 1, mt_promo_units = Some 2\<rparr>"

definition report_env :: actuals_env where
  "report_env = \<lparr>ae_read = Some, ae_sha256 = (\<lambda>_. report_sha), ae_json = (\<lambda>_. Some report_material),
     ae_iso_day = (\<lambda>t. if t = ''2026-07-02'' then Some (2026, 7, 2) else None), ae_file_day = (\<lambda>_. None)\<rparr>"

definition report_definition :: promo_definition where
  "report_definition = \<lparr>pd_start_date = (2026, 7, 1), pd_end_date = (2026, 7, 31), pd_actuals_file = Some ''report'', pd_material_file = Some ''material'',
     pd_source_sha256 = report_sha, pd_material_sha256 = report_sha, pd_cutoff_text = ''2026-07-02'', pd_rule_type = Selected_item_copurchase,
     pd_discount_rate = 1 / 5,
     pd_products = Some \<lparr>item_codes = [''cover'', ''camera''], trigger_codes = [], discounted_codes = [], trigger_code_models = [], discounted_code_models = []\<rparr>\<rparr>"

definition report_sales :: sales_env where
  "report_sales = \<lparr>se_live = promo_sales, se_stores = [promo_store],
     se_item_days = [\<lparr>it_scope = \<lparr>rp_import_month = ''2026-07'', rp_site = ''S1'', rp_locatie = ''Mall'', rp_firma = ''F'', rp_regional = ''R'', rp_asm = ''A'', rp_agent = ''ana''\<rparr>,
       it_sale_date = (2026, 7, 1), it_item_code = ''cover'', it_item_name = ''cover'', it_total_sales = 2000, it_net_quantity = 1, it_positive_quantity = 1,
       it_return_quantity = 0, it_receipt_count = 1\<rparr>],
     se_collate = id\<rparr>"

abbreviation report_codes :: "string list" where
  "report_codes \<equiv> [''cover'', ''camera'']"

lemma report_units:
  "map_sum id (map_option excluded_units) (compute_promo_actuals_from_report report_env [promo_store] (se_item_days report_sales) report_definition
      (promo_request\<lparr>pq_discount_rate := 1 / 5\<rparr>) report_codes) = Inr (Some [((''S1'', ''ana'', ''cover''), 1), ((''S1'', ''-'', ''cover''), 1)])"
  by code_simp

lemma report_actuals: "map_sum id (map_option fst) (filtered_promo_actuals report_env report_definition report_codes) = Inr (Some [((''S1'', ''cover''), 2)])"
  by code_simp

lemma report_scoped:
  "scoped_actuals (promo_request\<lparr>pq_start := (2026, 7, 1), pq_end := (2026, 7, 2)\<rparr>) [promo_store] [((''S1'', ''cover''), 2)] = [((''S1'', ''cover''), 2)]"
  by code_simp

lemma tail_units:
  "map_sum id excluded_units (compute_promo_copurchase id promo_sales [promo_store]
     (promo_request\<lparr>pq_discount_rate := 1 / 5, pq_start := (2026, 7, 3), pq_end := (2026, 7, 31)\<rparr>) report_codes) = Inr [((''S1'', ''ana'', ''cover''), 1)]"
  by code_simp

lemma report_facts:
  "promo_actuals_cutoff_date report_env report_definition = Some (2026, 7, 2)" "valid_day (2026, 7, 2)" "next_day (2026, 7, 2) = (2026, 7, 3)"
  "list_all (\<lambda>t. valid_day (lv_sale_date t)) (se_live report_sales)" "filter (\<lambda>l. (2026, 7, 2) < lv_sale_date l) promo_sales = promo_sales"
  "normalize_filter_values (fs_agent (pq_scope promo_request)) = None"
  by code_simp+

lemma tail_evaluated:
  "\<exists>t. compute_promo_copurchase id promo_sales [promo_store] (promo_request\<lparr>pq_discount_rate := 1 / 5, pq_start := (2026, 7, 3), pq_end := (2026, 7, 31)\<rparr>) report_codes = Inr t
    \<and> excluded_units t = [((''S1'', ''ana'', ''cover''), 1)]"
  using tail_units
  by (cases "compute_promo_copurchase id promo_sales [promo_store] (promo_request\<lparr>pq_discount_rate := 1 / 5, pq_start := (2026, 7, 3), pq_end := (2026, 7, 31)\<rparr>) report_codes") auto

lemma report_found:
  "\<exists>a. compute_promo_actuals_from_report report_env [promo_store] (se_item_days report_sales) report_definition (promo_request\<lparr>pq_discount_rate := 1 / 5\<rparr>) report_codes
      = Inr (Some a) \<and> excluded_units a = [((''S1'', ''ana'', ''cover''), 1), ((''S1'', ''-'', ''cover''), 1)]"
  using report_units
  by (cases "compute_promo_actuals_from_report report_env [promo_store] (se_item_days report_sales) report_definition (promo_request\<lparr>pq_discount_rate := 1 / 5\<rparr>) report_codes") auto

lemma report_complete: "\<exists>e r. evaluate_promotion report_env report_sales promo_request report_definition = Inr e \<and> is_complete e \<and> pe_result e = Some r"
proof -
  obtain a where a: "compute_promo_actuals_from_report report_env [promo_store] (se_item_days report_sales) report_definition (promo_request\<lparr>pq_discount_rate := 1 / 5\<rparr>)
      report_codes = Inr (Some a)" using report_found by blast
  obtain t where t: "compute_promo_copurchase id promo_sales [promo_store] (promo_request\<lparr>pq_discount_rate := 1 / 5, pq_start := (2026, 7, 3), pq_end := (2026, 7, 31)\<rparr>)
      report_codes = Inr t" using tail_evaluated by blast
  let ?d = "report_definition\<lparr>pd_start_date := (2026, 7, 3), pd_actuals_file := None\<rparr>"
  have "\<exists>e. evaluate_promotion report_env report_sales promo_request ?d = Inr e \<and> is_complete e \<and> pe_result e = Some t"
    unfolding evaluate_promotion.simps [of report_env report_sales promo_request ?d] using t
    by (simp add: report_definition_def no_report promotion_item_codes_def evaluate_rule_result_def promotion_common_def report_sales_def is_complete_def Let_def)
  then obtain e where e: "evaluate_promotion report_env report_sales promo_request ?d = Inr e" "is_complete e" "pe_result e = Some t" by blast
  obtain p where p: "pd_products report_definition = Some p" and c: "promotion_item_codes p (pd_rule_type report_definition) = report_codes"
    by (simp add: report_definition_def promotion_item_codes_def)
  have start: "max (pd_start_date report_definition) (next_day (2026, 7, 2)) = (2026, 7, 3)" and past: "(pd_end_date report_definition < (2026, 7, 3)) = False"
    by (simp_all add: report_facts(3) report_definition_def)
  have rate: "pd_discount_rate report_definition = 1 / 5" and stores: "se_stores report_sales = [promo_store]"
    by (simp_all add: report_definition_def report_sales_def)
  show ?thesis
    unfolding evaluate_promotion.simps [of report_env report_sales promo_request report_definition] Let_def p option.case c rate stores a sum.case report_facts(1) start past
      if_False e(1) e(3)
    using e(2) by (simp add: is_complete_def)
qed

theorem evaluation_splits_at_cutoff_witness:
  "\<exists>e r a. evaluate_promotion report_env report_sales promo_request report_definition = Inr e \<and> pe_result e = Some r
    \<and> compute_promo_actuals_from_report report_env [promo_store] (se_item_days report_sales) report_definition (promo_request\<lparr>pq_discount_rate := 1 / 5\<rparr>) report_codes = Inr (Some a)
    \<and> dict_value (''S1'', ''ana'', ''cover'') 0 (excluded_units r) = dict_value (''S1'', ''ana'', ''cover'') 0 (excluded_units a) + 1
    \<and> dict_value (''S1'', ''ana'', ''cover'') 0 (excluded_discount_values r)
        = dec_ctx DEFAULT_PREC (dict_value (''S1'', ''ana'', ''cover'') 0 (excluded_discount_values a) + 4)"
proof -
  obtain e r where e: "evaluate_promotion report_env report_sales promo_request report_definition = Inr e" "is_complete e" "pe_result e = Some r"
    using report_complete by blast
  have src: "pd_actuals_file report_definition = Some ''report''" by (simp add: report_definition_def)
  obtain p a t where p: "pd_products report_definition = Some p"
    and a: "compute_promo_actuals_from_report report_env (se_stores report_sales) (se_item_days report_sales) report_definition
        (promo_request\<lparr>pq_discount_rate := pd_discount_rate report_definition\<rparr>) (promotion_item_codes p (pd_rule_type report_definition)) = Inr (Some a)"
    and t: "evaluate_rule_result (report_sales\<lparr>se_live := filter (\<lambda>l. (2026, 7, 2) < lv_sale_date l) (se_live report_sales)\<rparr>) p (pd_rule_type report_definition)
        (promotion_item_codes p (pd_rule_type report_definition)) (promotion_common report_definition (promo_request\<lparr>pq_discount_rate := pd_discount_rate report_definition\<rparr>)) = Inr t"
    and u: "accounts_for a t r"
    using evaluation_splits_at_cutoff [OF src report_facts(1,2,4) e] by blast
  have codes: "promotion_item_codes p (pd_rule_type report_definition) = report_codes" using p by (auto simp: report_definition_def promotion_item_codes_def)
  have "map_sum id (\<lambda>r. (excluded_units r, excluded_discount_values r)) (compute_promo_copurchase id promo_sales [promo_store]
      (promo_request\<lparr>pq_discount_rate := 1 / 5, pq_start := (2026, 7, 1), pq_end := (2026, 7, 31)\<rparr>) report_codes)
      = Inr ([((''S1'', ''ana'', ''cover''), 1)], [((''S1'', ''ana'', ''cover''), 4)])" by code_simp
  moreover have "evaluate_rule_result (report_sales\<lparr>se_live := promo_sales\<rparr>) p Selected_item_copurchase report_codes
      (promo_request\<lparr>pq_discount_rate := 1 / 5, pq_start := (2026, 7, 1), pq_end := (2026, 7, 31)\<rparr>) = Inr t"
    using t codes report_facts(5) by (simp add: report_definition_def report_sales_def promotion_common_def)
  ultimately have "excluded_units t = [((''S1'', ''ana'', ''cover''), 1)]" "excluded_discount_values t = [((''S1'', ''ana'', ''cover''), 4)]" by (simp_all add: evaluate_rule_result_def report_sales_def)
  with u have "dict_value (''S1'', ''ana'', ''cover'') 0 (excluded_units r) = dict_value (''S1'', ''ana'', ''cover'') 0 (excluded_units a) + 1
      \<and> dict_value (''S1'', ''ana'', ''cover'') 0 (excluded_discount_values r)
        = dec_ctx DEFAULT_PREC (dict_value (''S1'', ''ana'', ''cover'') 0 (excluded_discount_values a) + 4)"
    by (simp add: accounts_for_def Let_def dict_value_def [of _ _ "[_]"])
  moreover have "se_stores report_sales = [promo_store]" "pd_discount_rate report_definition = 1 / 5" by (simp_all add: report_sales_def report_definition_def)
  note a [unfolded this codes]
  ultimately show ?thesis using e by blast
qed

theorem confirmed_units_handed_out_witness:
  "\<exists>r. compute_promo_actuals_from_report report_env [promo_store] (se_item_days report_sales) report_definition (promo_request\<lparr>pq_discount_rate := 1 / 5\<rparr>) report_codes = Inr (Some r)
    \<and> dict_value (''S1'', ''cover'') 0 (excluded_by_site_item r) = 2"
proof -
  let ?q = "promo_request\<lparr>pq_discount_rate := 1 / 5\<rparr>"
  obtain r where r: "compute_promo_actuals_from_report report_env [promo_store] (se_item_days report_sales) report_definition ?q report_codes = Inr (Some r)"
    using report_found by blast
  obtain vs where vs: "filtered_promo_actuals report_env report_definition report_codes = Inr (Some ([((''S1'', ''cover''), 2)], vs))"
    using report_actuals by (cases "filtered_promo_actuals report_env report_definition report_codes") auto
  have c: "(2026, 7, 2) = (case promo_actuals_cutoff_date report_env report_definition of None \<Rightarrow> pd_end_date report_definition
      | Some c \<Rightarrow> min c (pd_end_date report_definition))" "pd_start_date report_definition \<le> (2026, 7, 2)" "pd_start_date report_definition = (2026, 7, 1)"
    unfolding report_facts(1) by (simp_all add: report_definition_def min_def less_eq_prod_def)
  have n: "normalize_filter_values (fs_agent (pq_scope ?q)) = None" using report_facts(6) by simp
  have "?q\<lparr>pq_start := (2026, 7, 1), pq_end := (2026, 7, 2)\<rparr> = promo_request\<lparr>pq_start := (2026, 7, 1), pq_end := (2026, 7, 2)\<rparr>"
    by (simp add: promo_request_def)
  with confirmed_units_handed_out [OF _ vs _ c(1,2) n r, of "(''S1'', ''cover'')"] report_scoped c(3) r show ?thesis by (auto simp: dict_value_def)
qed

section \<open>The cache of materials\<close>

lemma cached_is_fresh: "snd (load_material_cached env mtime [] d) = load_promo_actuals_material env d"
  by (auto simp: load_material_cached_def load_promo_actuals_material_def read_promo_material_def parse_material_def Let_def split: option.splits sum.splits)

lemma read_ignores_cutoff: "read_promo_material env (d\<lparr>pd_cutoff_text := t\<rparr>) f = read_promo_material env d f"
  by (simp add: read_promo_material_def split: option.split)

lemma wrong_cutoff_invalid:
  assumes "read_promo_material env d f = Inr bytes" and "pd_actuals_file d = Some f" and "ae_json env bytes = Some m"
    and "pd_cutoff_text d \<noteq> []" and "mt_cutoff_date m \<noteq> Some (pd_cutoff_text d)"
  shows "load_promo_actuals_material env d = Inl ActualsInvalid"
  using assms by (auto simp: load_promo_actuals_material_def parsed_material_rows_def split: option.splits)

text \<open>
  C40: the cache of materials forgets the configured cutoff. After a definition was loaded, one that differs only
  in its cutoff gets the same result from the cache; yet a fresh load refuses the material when that cutoff is not the one
  the material was made for.
\<close>

theorem cached_material_ignores_cutoff:
  assumes "pd_actuals_file d = Some f" and "pd_material_file d = Some g" and "read_promo_material env d f = Inr bytes"
    and "ae_json env bytes = Some m" and "t \<noteq> []" and "mt_cutoff_date m \<noteq> Some t"
  shows "load_material_cached env mtime (fst (load_material_cached env mtime cache d)) (d\<lparr>pd_cutoff_text := t\<rparr>)
      = load_material_cached env mtime cache d
    \<and> snd (load_material_cached env mtime [] (d\<lparr>pd_cutoff_text := t\<rparr>)) = Inl ActualsInvalid"
proof
  have key: "material_cache_key mtime (d\<lparr>pd_cutoff_text := t\<rparr>) f g = material_cache_key mtime d f g" by (simp add: material_cache_key_def)
  show "load_material_cached env mtime (fst (load_material_cached env mtime cache d)) (d\<lparr>pd_cutoff_text := t\<rparr>) = load_material_cached env mtime cache d"
    using assms(1-3) by (simp add: load_material_cached_def read_ignores_cutoff key Let_def map_of_dict_set split: option.split)
  show "snd (load_material_cached env mtime [] (d\<lparr>pd_cutoff_text := t\<rparr>)) = Inl ActualsInvalid"
    unfolding cached_is_fresh by (rule wrong_cutoff_invalid [of env _ f bytes m]) (use assms in \<open>simp_all add: read_ignores_cutoff\<close>)
qed

theorem cached_material_ignores_cutoff_witness:
  "load_material_cached report_env (\<lambda>_. 0) (fst (load_material_cached report_env (\<lambda>_. 0) [] report_definition)) (report_definition\<lparr>pd_cutoff_text := ''2026-07-09''\<rparr>)
      = load_material_cached report_env (\<lambda>_. 0) [] report_definition
   \<and> snd (load_material_cached report_env (\<lambda>_. 0) [] (report_definition\<lparr>pd_cutoff_text := ''2026-07-09''\<rparr>)) = Inl ActualsInvalid"
  by (rule cached_material_ignores_cutoff [of _ "''report''" "''material''" _ "''material''" report_material])
    (simp_all add: report_definition_def report_env_def report_material_def read_promo_material_def report_sha_def)

end
