(* ===== verification/Spec2Isabelle.thy ===== *)
theory Spec2Isabelle
  imports Outbox_Worker Export_Lifecycle Grile_Reservation Promo_Allocation Campaign_Money Target_Proposal
    Scenario_Correctness Sales_Import Reporting_Theorems Reporting_Career Promo_Days
begin

text \<open>
  A verification library of the Retail backend (\<^verbatim>\<open>src/backend\<close>): a service over PostgreSQL that imports the
  sales of a retailer month by month, rebuilds the reporting tables from them, calculates and publishes sales
  targets, evaluates promotions, closes the month of the Grile spreadsheets and delivers events and exports to
  other systems. The paths below are relative to \<^verbatim>\<open>src/backend\<close>.

  \<^bold>\<open>How the parts interact.\<close> An import stages the rows of a workbook as a generation and promotes it: the live
  sales of the month are replaced, a ledger entry is written, an event is emitted to the transactional outbox
  and the reporting tables of the month are rebuilt, all in one transaction. A dispatcher claims the events of
  the outbox and delivers them under a lease. Dashboards and promotions read the live sales through filter
  scopes. The target calculator reads reported sales, proposes an amount per store and publishes the amounts
  the managers finalize. Exports and the monthly closeout are long operations whose rows are claimed by workers
  under an owner, a lease and an epoch.

  \<^bold>\<open>Conventions.\<close> A table is a list of records; a statement is a function on it; a repository call is one
  transaction that returns the error or the result together with the new tables, and an error leaves the
  tables as they were. The constraints, unique indexes and triggers of the migrations are checks that every
  write passes. The time of a transaction, generated identifiers, the digest SHA-256, collations, files and
  JSON texts are arguments of the definitions. Every interleaving of transactions is a run of a step relation.

  \<^bold>\<open>Shared theories.\<close>
  \<^item> \<^verbatim>\<open>Retail_Prelude\<close>: results, instants, character classes, SQL statements over tables, generic lemmas.
  \<^item> \<^verbatim>\<open>Retail_Interfaces\<close>: the locales \<^verbatim>\<open>invariant_machine\<close>, \<^verbatim>\<open>counted_machine\<close>, \<^verbatim>\<open>versioned_store\<close> (rows written
    under an expected revision) and \<^verbatim>\<open>fenced_store\<close> (rows claimed under an epoch). The outbox, the exports and
    the closeout interpret the last one, the scenarios and the sales the one before, the dispatcher the first.
  \<^item> \<^verbatim>\<open>Decimal_Arith\<close>: Python's decimals as rationals rounded to the digits of the context, half to even.
  \<^item> \<^verbatim>\<open>Apportionment\<close>: the largest remainder method, interpreted by the two allocations of promotions and the
    store targets of campaigns.
  \<^item> \<^verbatim>\<open>Aggregation\<close>: \<^verbatim>\<open>GROUP BY\<close> and the locales \<^verbatim>\<open>rollup\<close> and \<^verbatim>\<open>rollup_sum\<close>, interpreted by every reporting table.
  \<^item> \<^verbatim>\<open>Months\<close> and \<^verbatim>\<open>Islands\<close>: months as texts and as indices, and runs of consecutive months.

  \<^bold>\<open>Transactional outbox\<close> (\<^verbatim>\<open>repositories/transactional_outbox.py\<close>, \<^verbatim>\<open>services/outbox_worker.py\<close>, migration 069).
  \<^verbatim>\<open>Outbox_Repository\<close> models emit, claim, renew, receipt, complete, fail, replay and observe; \<^verbatim>\<open>Outbox_Invariants\<close>
  proves the invariant of all runs and that the database refuses no transaction of a live claim;
  \<^verbatim>\<open>Outbox_Correctness\<close> shows the outcome of a claim, the order inside an aggregate and the fencing of stale
  workers. \<^verbatim>\<open>Outbox_Worker\<close> models the dispatcher, one step per await with the heartbeat in between: a delivery
  reported as delivered is completed and recorded, an undisturbed one succeeds,
  and an event whose generation hash has a run of exactly 13 digits is never delivered by a receipt-only
  consumer.

  \<^bold>\<open>Exports\<close> (\<^verbatim>\<open>repositories/export_operations.py\<close>, \<^verbatim>\<open>domain/export_operations.py\<close>, migrations 055 and 065).
  \<^verbatim>\<open>Export_Operations\<close> models every operation and the transition trigger; \<^verbatim>\<open>Export_Lifecycle\<close> shows the capacity,
  the single execution and the outcomes of admission, publication, reconciliation and expiry.

  \<^bold>\<open>Monthly closeout of Grile\<close> (\<^verbatim>\<open>grile/domain\<close>, \<^verbatim>\<open>repositories/grile_monthly_*.py\<close>, migrations 012, 028 and 044).
  \<^verbatim>\<open>Grile_Domain\<close> holds the completion window, the transitions and provider health; \<^verbatim>\<open>Grile_Monthly\<close> and
  \<^verbatim>\<open>Grile_Reset\<close> the tables with reservations, lifecycle, manifests, checkpoints and reconciliation;
  \<^verbatim>\<open>Grile_Invariants\<close> the effects all transactions consist of. \<^verbatim>\<open>Grile_Correctness\<close> shows that stale workers write
  nothing, statuses follow the domain's transitions and a manifest authorises one reset; \<^verbatim>\<open>Grile_Reservation\<close>
  shows what a reservation answers, and a reachable state in which a live reset is enqueued over an unfinished
  rollback. \<^verbatim>\<open>Grile_Sample\<close> is the run the witnesses use.

  \<^bold>\<open>Sales generations\<close> (\<^verbatim>\<open>services/sales_generation*.py\<close>, \<^verbatim>\<open>services/sales_import_*.py\<close>, \<^verbatim>\<open>services/importer.py\<close>,
  migrations 033, 037, 040 and 043). \<^verbatim>\<open>Sales_Stage\<close> holds the staged rows and the two canonical texts with their
  injectivity; \<^verbatim>\<open>Sales_Manifest\<close> control totals and the anomaly policy; \<^verbatim>\<open>Sales_Flow\<close> reservation, staging,
  validation, claims, promotion, rollback and recovery; \<^verbatim>\<open>Sales_Invariants\<close> and \<^verbatim>\<open>Sales_Lifecycle\<close> the invariant of
  all runs; \<^verbatim>\<open>Sales_Correctness\<close> what is published in every reachable state and what promotions and rollbacks
  change; \<^verbatim>\<open>Sales_Import\<close> the import end to end, which replaces the month by exactly the importable rows.
  \<^verbatim>\<open>Sales_Sample\<close> is the run the witnesses use.

  \<^bold>\<open>Reporting\<close> (\<^verbatim>\<open>services/reporting_refresh*.py\<close>, \<^verbatim>\<open>retail_filters.py\<close>, \<^verbatim>\<open>db/schema_v2.sql\<close>). \<^verbatim>\<open>Reporting_Month\<close> is
  the rebuild of a month, statement by statement; \<^verbatim>\<open>Reporting_Correctness\<close> proves that joins neither lose nor
  repeat lines and that totals agree; \<^verbatim>\<open>Reporting_Theorems\<close> states what dashboards may rely on, after a promotion
  as well. \<^verbatim>\<open>Reporting_Lifecycle\<close> and \<^verbatim>\<open>Reporting_Career\<close> are the agents' months, gaps and streaks, with the
  multiplication of career totals by the number of streaks.

  \<^bold>\<open>Targets\<close> (\<^verbatim>\<open>services/target_calculator\<close>, \<^verbatim>\<open>repositories/target_calculator_scenarios.py\<close>). \<^verbatim>\<open>Target_Calculator\<close>,
  \<^verbatim>\<open>Target_Bounds\<close>, \<^verbatim>\<open>Target_Solver\<close> and \<^verbatim>\<open>Target_Rounding\<close> model the allocation between floors and caps with its
  binary search under decimal rounding; \<^verbatim>\<open>Target_Correctness\<close> shows that every feasible budget is met to the
  cent. \<^verbatim>\<open>Target_Seasonality\<close> and \<^verbatim>\<open>Target_Proposal\<close> calculate the rows and show when they meet the allocator's
  needs: a total within the bounds is met unless estimates of both signs occur, which end in an error. \<^verbatim>\<open>Target_Scenario\<close>, \<^verbatim>\<open>Scenario_Lifecycle\<close> and \<^verbatim>\<open>Scenario_Correctness\<close> are drafts, finalization and the
  publication of official targets.

  \<^bold>\<open>Promotions and campaigns\<close> (\<^verbatim>\<open>services/promo_*.py\<close>, \<^verbatim>\<open>services/promotion_evaluation.py\<close>,
  \<^verbatim>\<open>services/campaigns/money.py\<close>, \<^verbatim>\<open>domain/filter_scope.py\<close>). \<^verbatim>\<open>Filter_Scope\<close> keeps a SQL clause as data with a
  text and a typed meaning: placeholders and parameters always match, and the clauses select exactly the scope.
  \<^verbatim>\<open>Promo_Rules\<close> models the three rules, and \<^verbatim>\<open>Promo_Correctness\<close> shows that each discounts one unit, the cheapest
  candidate, of every qualifying receipt. \<^verbatim>\<open>Promo_Evaluation\<close> holds the confirmed units, their
  cache and the evaluation; \<^verbatim>\<open>Promo_Merge\<close> shows that merging results adds units and money key by key, and \<^verbatim>\<open>Promo_Days\<close> that a complete
  evaluation accounts for the report up to the cutoff and the rule on the days after it.
  \<^verbatim>\<open>Promo_Allocation\<close> and \<^verbatim>\<open>Campaign_Money\<close> split units, values and targets exactly.

  \<^bold>\<open>Termination and bounds.\<close> No definition has fuel: each loop of the source is a recursion with its measure, the
  distance of the two ends for the binary search, the cents left for the correction loops. Decimal results are exact as long as they fit the digits of the context, 28 by default
  and 60 inside the solver; the theorems on allocations state it as hypotheses: for \<open>n\<close> stores, weights below
  \<open>R\<close> times the least one and amounts up to \<open>m\<close> cents, \<open>n ^ 3 * (m * R)\<close> is at most \<open>10 ^ 27\<close>; a promotion's
  cents times its units stay below \<open>10 ^ 26\<close>, the prices of its receipts add up to less than \<open>10 ^ 24\<close> cents.
  Finalization assumes fewer than \<open>10 ^ 16\<close> rows and a revision below the limit of its 32-bit column; a rebuild
  assumes that the sums of a month fit the numeric and 32-bit columns of the reporting tables. The sums of real
  data are far below each of them.

  \<^bold>\<open>Not modelled.\<close> The frontend; routers, schemas, sessions and access control; adapters of Google Sheets and of
  object stores; the parsing of workbooks with pandas; the rendering of exports and dashboards; forecasts, which
  are numerical scripts; salaries, store profitability and human resources, which are mostly queries; the
  publisher of promotion generations; conversions to binary floats; logging, metrics, migrations runner and
  operations scripts. In the modelled parts, message texts are left out where no caller reads them.
\<close>

end
